(* ===== verification/Prelude.thy ===== *)
theory Prelude
  imports Main "HOL-Library.Word"
begin

text \<open>
  The shared vocabulary of the development: C strings as lists of bytes, the character classes
  of \<open>ctype.h\<close> in the C locale, the functions of \<open>string.h\<close> the program calls
  (\<open>strncmp\<close> against a literal, \<open>strchr\<close>, \<open>strrchr\<close>, \<open>strstr\<close>, \<open>strtok_r\<close>), and the
  collections of rewrite rules that the component theories extend.

  A C string is the list of its bytes before the terminating NUL, so a model of a string never
  holds the NUL byte itself; \<open>nul_free\<close> says so where a theorem depends on it. A pointer into
  a string is the suffix it points at: \<open>*p\<close> is the head of the suffix (NUL for the empty
  list), \<open>p++\<close> its tail. A possibly NULL pointer is an \<open>option\<close>. Memory allocation is
  taken to succeed, except in DynString, where a failing allocator is part of the model.
\<close>

named_theorems cdefs \<open>definitions of the C library model, for unfolding\<close>
named_theorems clen \<open>length bounds of the scanning functions\<close>

type_synonym cstr = string
type_synonym u8 = "8 word"
type_synonym u32 = "32 word"
type_synonym u64 = "64 word"

section \<open>Characters\<close>

abbreviation TAB :: char where "TAB \<equiv> CHR 0x09"
abbreviation LF :: char where "LF \<equiv> CHR 0x0A"
abbreviation CR :: char where "CR \<equiv> CHR 0x0D"
abbreviation NUL :: char where "NUL \<equiv> CHR 0x00"
abbreviation DQ :: char where "DQ \<equiv> CHR 0x22"
abbreviation SQ :: char where "SQ \<equiv> CHR 0x27"
abbreviation BSL :: char where "BSL \<equiv> CHR 0x5C"
abbreviation BQ :: char where "BQ \<equiv> CHR 0x60"

definition byte :: "char \<Rightarrow> nat" where
  "byte c = of_char c"

definition isspace :: "char \<Rightarrow> bool" where
  [cdefs]: "isspace c \<longleftrightarrow> c = CHR '' '' \<or> (9 \<le> byte c \<and> byte c \<le> 13)"

definition isdigit :: "char \<Rightarrow> bool" where
  [cdefs]: "isdigit c \<longleftrightarrow> 48 \<le> byte c \<and> byte c \<le> 57"

definition isupper :: "char \<Rightarrow> bool" where
  [cdefs]: "isupper c \<longleftrightarrow> 65 \<le> byte c \<and> byte c \<le> 90"

definition islower :: "char \<Rightarrow> bool" where
  [cdefs]: "islower c \<longleftrightarrow> 97 \<le> byte c \<and> byte c \<le> 122"

definition isalpha :: "char \<Rightarrow> bool" where
  [cdefs]: "isalpha c \<longleftrightarrow> isupper c \<or> islower c"

definition isalnum :: "char \<Rightarrow> bool" where
  [cdefs]: "isalnum c \<longleftrightarrow> isalpha c \<or> isdigit c"

definition isxdigit :: "char \<Rightarrow> bool" where
  [cdefs]: "isxdigit c \<longleftrightarrow>
     isdigit c \<or> (97 \<le> byte c \<and> byte c \<le> 102) \<or> (65 \<le> byte c \<and> byte c \<le> 70)"

definition tolower :: "char \<Rightarrow> char" where
  "tolower c = (if isupper c then char_of (byte c + 32) else c)"

definition nul_free :: "cstr \<Rightarrow> bool" where
  "nul_free s \<longleftrightarrow> NUL \<notin> set s"

lemma byte_lt [simp]: "byte c < 256"
  by (simp add: byte_def)

lemma byte_inject [simp]: "byte c = byte d \<longleftrightarrow> c = d"
  by (simp add: byte_def)

lemma byte_char_of [simp]: "byte (char_of n) = n mod 256"
  by (simp add: byte_def)

lemma char_of_byte [simp]: "char_of (byte c) = c"
  by (simp add: byte_def)

lemma tolower_idem [simp]: "tolower (tolower c) = tolower c"
  by (auto simp: tolower_def isupper_def)

lemma nul_free_Nil [simp]: "nul_free []"
  by (simp add: nul_free_def)

lemma nul_free_Cons [simp]: "nul_free (c # s) \<longleftrightarrow> c \<noteq> NUL \<and> nul_free s"
  by (auto simp: nul_free_def)

lemma nul_free_append [simp]: "nul_free (s @ t) \<longleftrightarrow> nul_free s \<and> nul_free t"
  by (auto simp: nul_free_def)

section \<open>string.h\<close>

text \<open>\<open>has_prefix lit s\<close> is \<open>strncmp(s, lit, strlen(lit)) == 0\<close>.\<close>

fun has_prefix :: "cstr \<Rightarrow> cstr \<Rightarrow> bool" where
  "has_prefix [] s = True"
| "has_prefix (x # xs) [] = False"
| "has_prefix (x # xs) (y # ys) = (x = y \<and> has_prefix xs ys)"

fun strchr :: "cstr \<Rightarrow> char \<Rightarrow> cstr option" where
  "strchr [] c = None"
| "strchr (x # xs) c = (if x = c then Some (x # xs) else strchr xs c)"

fun strrchr :: "cstr \<Rightarrow> char \<Rightarrow> cstr option" where
  "strrchr [] c = None"
| "strrchr (x # xs) c =
     (case strrchr xs c of Some r \<Rightarrow> Some r
      | None \<Rightarrow> if x = c then Some (x # xs) else None)"

fun strstr :: "cstr \<Rightarrow> cstr \<Rightarrow> cstr option" where
  "strstr s pat =
     (if has_prefix pat s then Some s
      else case s of [] \<Rightarrow> None | _ # t \<Rightarrow> strstr t pat)"

declare strstr.simps [simp del]

text \<open>
  \<open>strtok\<close> is one call of \<open>strtok_r\<close>: skip delimiters, take the longest run of other bytes,
  and keep what is behind the delimiter that ended it. \<open>strtok_all\<close> is the list of tokens that
  calling it until it returns NULL yields.
\<close>

definition strtok :: "cstr \<Rightarrow> cstr \<Rightarrow> (cstr \<times> cstr) option" where
  "strtok delims s =
     (case dropWhile (\<lambda>c. c \<in> set delims) s of
        [] \<Rightarrow> None
      | t \<Rightarrow> Some (takeWhile (\<lambda>c. c \<notin> set delims) t, drop 1 (dropWhile (\<lambda>c. c \<notin> set delims) t)))"

lemma strtok_SomeD:
  assumes "strtok ds s = Some (t, r)"
  shows "\<exists>c u. dropWhile (\<lambda>c. c \<in> set ds) s = c # u \<and> c \<notin> set ds \<and>
     t = c # takeWhile (\<lambda>c. c \<notin> set ds) u \<and> r = drop 1 (dropWhile (\<lambda>c. c \<notin> set ds) u)"
proof -
  obtain c u where cu: "dropWhile (\<lambda>c. c \<in> set ds) s = c # u"
    using assms by (cases "dropWhile (\<lambda>c. c \<in> set ds) s") (simp_all add: strtok_def)
  have "c \<notin> set ds" using hd_dropWhile[of "\<lambda>c. c \<in> set ds" s] unfolding cu by simp
  with cu assms show ?thesis by (auto simp: strtok_def)
qed

lemma strtok_shorter: "strtok ds s = Some (t, r) \<Longrightarrow> length r < length s"
proof -
  assume "strtok ds s = Some (t, r)"
  then obtain c u where cu: "dropWhile (\<lambda>c. c \<in> set ds) s = c # u"
    and r: "r = drop 1 (dropWhile (\<lambda>c. c \<notin> set ds) u)"
    by (blast dest: strtok_SomeD)
  have "length r \<le> length u" unfolding r
    by (metis diff_le_self length_drop le_trans length_dropWhile_le)
  moreover have "length (c # u) \<le> length s" unfolding cu [symmetric] by (rule length_dropWhile_le)
  ultimately show ?thesis by simp
qed

function strtok_all :: "cstr \<Rightarrow> cstr \<Rightarrow> cstr list" where
  "strtok_all ds s = (case strtok ds s of None \<Rightarrow> [] | Some (t, r) \<Rightarrow> t # strtok_all ds r)"
  by pat_completeness auto
termination
  by (relation "measure (\<lambda>(ds, s). length s)") (auto dest: strtok_shorter)

declare strtok_all.simps [simp del]

text \<open>Dropping leading bytes, as \<open>while (P(*p)) p++\<close>; and trailing ones.\<close>

definition lskip :: "(char \<Rightarrow> bool) \<Rightarrow> cstr \<Rightarrow> cstr" where
  "lskip P s = dropWhile P s"

definition rskip :: "(char \<Rightarrow> bool) \<Rightarrow> cstr \<Rightarrow> cstr" where
  "rskip P s = rev (dropWhile P (rev s))"

section \<open>Lemmas on the C library model\<close>

lemma has_prefix_iff: "has_prefix p s \<longleftrightarrow> (\<exists>t. s = p @ t)"
  by (induction p s rule: has_prefix.induct) auto

lemma has_prefix_append [simp]: "has_prefix p (p @ t)"
  by (auto simp: has_prefix_iff)

lemma has_prefix_appendI: "has_prefix p s \<Longrightarrow> has_prefix p (s @ t)"
  by (auto simp: has_prefix_iff)

lemma strchr_None [simp]: "strchr s c = None \<longleftrightarrow> c \<notin> set s"
  by (induction s) auto

lemma strchr_SomeD: "strchr s c = Some t \<Longrightarrow> \<exists>u. s = u @ t \<and> c \<notin> set u \<and> (\<exists>v. t = c # v)"
proof (induction s)
  case (Cons x xs)
  show ?case
  proof (cases "x = c")
    case True
    with Cons.prems show ?thesis by (auto intro: exI[of _ "[]"])
  next
    case False
    with Cons obtain u where "xs = u @ t" "c \<notin> set u" "\<exists>v. t = c # v" by auto
    with False show ?thesis by (auto intro!: exI[of _ "x # u"])
  qed
qed simp

lemma strrchr_None [simp]: "strrchr s c = None \<longleftrightarrow> c \<notin> set s"
  by (induction s) (auto split: option.splits)

lemma strchr_absent [simp]: "c \<notin> set s \<Longrightarrow> strchr s c = None"
  by simp

lemma strrchr_absent [simp]: "c \<notin> set s \<Longrightarrow> strrchr s c = None"
  by simp

lemma strrchr_SomeD: "strrchr s c = Some t \<Longrightarrow> \<exists>u v. s = u @ t \<and> t = c # v \<and> c \<notin> set v"
proof (induction s)
  case (Cons x xs)
  show ?case
  proof (cases "strrchr xs c")
    case None
    with Cons.prems show ?thesis by (auto split: if_splits intro: exI[of _ "[]"])
  next
    case (Some r)
    with Cons obtain u v where "xs = u @ t" "t = c # v" "c \<notin> set v" by auto
    then show ?thesis by (auto intro!: exI[of _ "x # u"])
  qed
qed simp

lemma strstr_SomeD: "strstr s p = Some t \<Longrightarrow> \<exists>u. s = u @ t \<and> has_prefix p t"
proof (induction s)
  case Nil
  then show ?case by (auto simp: strstr.simps[of "[]"] split: if_splits)
next
  case (Cons x xs)
  show ?case
  proof (cases "has_prefix p (x # xs)")
    case True
    with Cons.prems show ?thesis by (auto simp: strstr.simps[of "x # xs"] intro: exI[of _ "[]"])
  next
    case False
    with Cons.prems have "strstr xs p = Some t" by (simp add: strstr.simps[of "x # xs"])
    with Cons.IH obtain u where "xs = u @ t" "has_prefix p t" by blast
    then show ?thesis by (auto intro!: exI[of _ "x # u"])
  qed
qed

lemma strstr_hit: "strstr (u @ p @ t) p \<noteq> None"
proof (induction u)
  case Nil
  then show ?case by (simp add: strstr.simps)
next
  case (Cons x u)
  then show ?case by (simp add: strstr.simps[of "x # u @ p @ t"])
qed

lemma strstr_None_iff: "strstr s p = None \<longleftrightarrow> (\<nexists>u t. s = u @ p @ t)"
proof
  assume "strstr s p = None"
  then show "\<nexists>u t. s = u @ p @ t" using strstr_hit by blast
next
  assume h: "\<nexists>u t. s = u @ p @ t"
  show "strstr s p = None"
  proof (rule ccontr)
    assume "strstr s p \<noteq> None"
    then obtain t where "strstr s p = Some t" by blast
    with strstr_SomeD obtain u where "s = u @ t" "has_prefix p t" by blast
    with h show False by (auto simp: has_prefix_iff)
  qed
qed

lemma strstr_skip: "c \<notin> set a \<Longrightarrow> strstr (a @ t) (c # q) = strstr t (c # q)"
  by (induction a) (simp_all add: strstr.simps[of "_ # _"])

lemma strstr_absent: "c \<notin> set a \<Longrightarrow> strstr a (c # q) = None"
  using strstr_skip[of c a "[]" q] by (simp add: strstr.simps)

lemma strstr_here [simp]: "strstr (p @ t) p = Some (p @ t)"
  by (simp add: strstr.simps)

lemma strstr_rest: "strstr s p = Some t \<Longrightarrow> p \<noteq> [] \<Longrightarrow> length (drop (length p) t) < length s"
  by (drule strstr_SomeD) (auto simp: has_prefix_iff)

lemma strchr_le: "strchr s c = Some t \<Longrightarrow> length t \<le> length s"
  by (auto dest: strchr_SomeD)

lemma strstr_le: "strstr s p = Some t \<Longrightarrow> length t \<le> length s"
  by (auto dest: strstr_SomeD)

lemma strchr_step: "strchr s c = Some t \<Longrightarrow> 0 < n \<Longrightarrow> length (drop n t) < length s"
  by (auto dest!: strchr_SomeD)

text \<open>A buffer read as a C string; and a string that is neither NULL nor empty.\<close>

definition c_string :: "cstr \<Rightarrow> cstr" where
  "c_string bytes = takeWhile (\<lambda>c. c \<noteq> NUL) bytes"

definition nonempty :: "cstr option \<Rightarrow> cstr option" where
  "nonempty s = (case s of Some t \<Rightarrow> if t \<noteq> [] then Some t else None | None \<Rightarrow> None)"

text \<open>The text between two pointers into the same string.\<close>

definition between :: "cstr \<Rightarrow> cstr \<Rightarrow> cstr" where
  "between p q = take (length p - length q) p"

lemma between_append [simp]: "between (p @ q) q = p"
  by (simp add: between_def)

lemma rskip_append_tail: "\<exists>u. s = rskip P s @ u \<and> (\<forall>c \<in> set u. P c)"
proof -
  have "rev s = takeWhile P (rev s) @ dropWhile P (rev s)" by simp
  then have "s = rskip P s @ rev (takeWhile P (rev s))"
    unfolding rskip_def by (metis rev_append rev_rev_ident)
  then show ?thesis by (metis set_rev set_takeWhileD)
qed

lemma length_lskip [simp, clen]: "length (lskip P s) \<le> length s"
  by (simp add: lskip_def length_dropWhile_le)

lemma length_rskip [simp, clen]: "length (rskip P s) \<le> length s"
  unfolding rskip_def by (metis length_dropWhile_le length_rev)

lemma lskip_hd: "lskip P s = c # t \<Longrightarrow> \<not> P c"
  unfolding lskip_def by (metis hd_dropWhile list.distinct(1) list.sel(1))

lemma rskip_last: "rskip P s \<noteq> [] \<Longrightarrow> \<not> P (last (rskip P s))"
  unfolding rskip_def by (metis hd_dropWhile last_rev rev_is_Nil_conv)

lemma lskip_idem [simp]: "lskip P (lskip P s) = lskip P s"
  by (simp add: lskip_def)

lemma rskip_idem [simp]: "rskip P (rskip P s) = rskip P s"
  by (simp add: rskip_def)

lemma set_lskip: "set (lskip P s) \<subseteq> set s"
  unfolding lskip_def by (auto dest: set_dropWhileD)

lemma set_rskip: "set (rskip P s) \<subseteq> set s"
  unfolding rskip_def by (auto dest: set_dropWhileD)

text \<open>Every token of \<open>strtok_r\<close> is a non-empty run of bytes that are not delimiters.\<close>

lemma strtok_token:
  assumes "strtok ds s = Some (t, r)"
  shows "t \<noteq> [] \<and> (\<forall>c \<in> set t. c \<in> set s \<and> c \<notin> set ds) \<and> set r \<subseteq> set s"
proof -
  obtain c u where cu: "dropWhile (\<lambda>c. c \<in> set ds) s = c # u" and c: "c \<notin> set ds"
    and t: "t = c # takeWhile (\<lambda>c. c \<notin> set ds) u"
    and r: "r = drop 1 (dropWhile (\<lambda>c. c \<notin> set ds) u)"
    using strtok_SomeD[OF assms] by blast
  have us: "set (c # u) \<subseteq> set s" unfolding cu [symmetric] by (auto dest: set_dropWhileD)
  have "\<forall>x \<in> set t. x \<in> set s \<and> x \<notin> set ds"
    using c us unfolding t by (auto dest: set_takeWhileD)
  moreover have "set r \<subseteq> set s"
    using us unfolding r by (auto dest!: in_set_dropD set_dropWhileD)
  ultimately show ?thesis using t by blast
qed

lemma strtok_all_token: "t \<in> set (strtok_all ds s) \<Longrightarrow> t \<noteq> [] \<and> (\<forall>c \<in> set t. c \<in> set s \<and> c \<notin> set ds)"
proof (induction ds s rule: strtok_all.induct)
  case (1 ds s)
  then show ?case
  proof (cases "strtok ds s")
    case None
    with 1 show ?thesis by (simp add: strtok_all.simps[of ds s])
  next
    case (Some p)
    then obtain t' r where p: "strtok ds s = Some (t', r)" by (cases p) auto
    with "1.prems" have "t = t' \<or> t \<in> set (strtok_all ds r)"
      by (auto simp: strtok_all.simps[of ds s])
    then show ?thesis
    proof
      assume "t = t'"
      with strtok_token[OF p] show ?thesis by blast
    next
      assume "t \<in> set (strtok_all ds r)"
      with "1.IH"[OF p] strtok_token[OF p] show ?thesis by fastforce
    qed
  qed
qed

section \<open>Output in front of a scan\<close>

text \<open>A scanner returns what it produced and the rest of the input; \<open>prepend\<close> adds output in front.\<close>

definition prepend :: "cstr \<Rightarrow> (cstr \<times> 'r) option \<Rightarrow> (cstr \<times> 'r) option" where
  "prepend t res = map_option (\<lambda>(out, rest). (t @ out, rest)) res"

lemma prepend_simps [simp]:
  "prepend t None = None" "prepend t (Some (u, r)) = Some (t @ u, r)" "prepend [] x = x"
  "prepend t (prepend u x) = prepend (t @ u) x"
  by (cases x; auto simp: prepend_def)+

lemma prepend_eq_Some: "prepend t x = Some (v, r) \<longleftrightarrow> (\<exists>u. x = Some (u, r) \<and> v = t @ u)"
  by (cases x) (auto simp: prepend_def)

lemma prepend_eq_None [simp]: "prepend t x = None \<longleftrightarrow> x = None"
  by (simp add: prepend_def)

section \<open>Sizes\<close>

lemma unat_of_nat_u64: "n < 2 ^ 64 \<Longrightarrow> unat (of_nat n :: u64) = n"
  by (simp add: unat_of_nat take_bit_nat_eq_self)

lemma unat_u64_lt: "unat (w :: u64) < 2 ^ 64"
  using unsigned_less[of w] by simp

lemma of_nat_length_nonzero: "s \<noteq> [] \<Longrightarrow> length s < 2 ^ 64 \<Longrightarrow> (of_nat (length s) :: u64) \<noteq> 0"
  using unat_of_nat_u64[of "length s"] by (metis length_0_conv unsigned_0)

lemma of_nat_u64_nonzero: "0 < n \<Longrightarrow> n < 2 ^ 64 \<Longrightarrow> (of_nat n :: u64) \<noteq> 0"
  using unat_of_nat_u64[of n] by (metis less_numeral_extra(3) unsigned_0)

section \<open>fgets\<close>

text \<open>One \<open>fgets\<close> into a buffer of \<open>n\<close> bytes, and the chunks it cuts a file into.\<close>

definition fgets_chunk :: "nat \<Rightarrow> cstr \<Rightarrow> cstr" where
  "fgets_chunk n s =
     (let t = take (n - 1) s in
      if LF \<in> set t then takeWhile (\<lambda>c. c \<noteq> LF) t @ [LF] else t)"

function fgets_chunks :: "nat \<Rightarrow> cstr \<Rightarrow> cstr list" where
  "fgets_chunks n s =
     (if s = [] \<or> n \<le> 1 then [] else fgets_chunk n s # fgets_chunks n (drop (length (fgets_chunk n s)) s))"
  by pat_completeness auto
termination
  by (relation "measure (\<lambda>(n, s). length s)") (auto simp: fgets_chunk_def Let_def)

declare fgets_chunks.simps [simp del]

end
