(* ===== verification/Permissions.thy ===== *)
theory Permissions
  imports Prelude
begin

text \<open>
  \<open>permissions.c\<close>: the tiered authorisation of tool calls. A call is a tool name and its raw
  JSON argument text; \<open>permission_classify\<close> maps it to ALLOW, ASK or DENY by looking at the
  command of a \<open>bash\<close> call, the path of a file tool, and the name otherwise. The buffers
  \<open>char cmd[4096]\<close> and \<open>char path[2048]\<close> truncate, so the model truncates with \<open>take\<close>.
\<close>

datatype PermTier = PERM_TIER_ALLOW | PERM_TIER_ASK | PERM_TIER_DENY

definition PERM_CMD_MAX :: nat where "PERM_CMD_MAX = 4096"

section \<open>Helpers\<close>

fun has_prefix_ci :: "cstr \<Rightarrow> cstr \<Rightarrow> bool" where
  "has_prefix_ci [] s = True"
| "has_prefix_ci (x # xs) [] = False"
| "has_prefix_ci (x # xs) (y # ys) = (tolower x = tolower y \<and> has_prefix_ci xs ys)"

fun ci_scan :: "cstr \<Rightarrow> cstr \<Rightarrow> bool" where
  "ci_scan [] needle = False"
| "ci_scan (c # s) needle = (has_prefix_ci needle (c # s) \<or> ci_scan s needle)"

definition str_contains_ci :: "cstr \<Rightarrow> cstr \<Rightarrow> bool" where
  "str_contains_ci hay needle = (needle \<noteq> [] \<and> ci_scan hay needle)"

text \<open>
  The string loop of \<open>permission_arg_string\<close>: \<open>room\<close> is \<open>buflen - 1 - i\<close>, the bytes that
  still fit before the terminator. A backslash at the very end of the text is copied as it is.
\<close>

definition arg_unescape :: "char \<Rightarrow> char" where
  "arg_unescape c = (if c = CHR ''n'' then LF else if c = CHR ''t'' then TAB else c)"

fun arg_copy :: "nat \<Rightarrow> cstr \<Rightarrow> cstr" where
  "arg_copy 0 s = []"
| "arg_copy (Suc room) [] = []"
| "arg_copy (Suc room) (c # s) =
     (if c = DQ then []
      else if c = BSL then
        (case s of [] \<Rightarrow> c # arg_copy room []
         | e # s' \<Rightarrow> arg_unescape e # arg_copy room s')
      else c # arg_copy room s)"

text \<open>
  The result is \<open>None\<close> where the C function returns false, otherwise the contents of the buffer.
  The key is quoted into \<open>char pattern[128]\<close>, and the FIRST occurrence of the quoted key in the
  raw text is used, whether it is a key or a value.
\<close>

definition permission_arg_string :: "cstr option \<Rightarrow> cstr \<Rightarrow> nat \<Rightarrow> cstr option" where
  "permission_arg_string args_json key buflen =
     (case args_json of None \<Rightarrow> None
      | Some js \<Rightarrow>
        if buflen = 0 then None
        else let pat = DQ # key @ [DQ] in
          if length pat \<ge> 128 then None
          else case strstr js pat of None \<Rightarrow> None
            | Some p \<Rightarrow>
              (case dropWhile (\<lambda>c. c \<noteq> CHR '':'') (drop (length pat) p) of
                 [] \<Rightarrow> None
               | _ # p' \<Rightarrow>
                 (case dropWhile isspace p' of
                    [] \<Rightarrow> None
                  | c # p'' \<Rightarrow> if c \<noteq> DQ then None else Some (arg_copy (buflen - 1) p''))))"

section \<open>Allowlists\<close>

definition k_safe_argv0 :: "cstr list" where
  "k_safe_argv0 =
    [''ls'', ''pwd'', ''cat'', ''head'', ''tail'', ''wc'', ''grep'', ''rg'', ''find'', ''file'',
     ''stat'', ''du'', ''df'', ''which'', ''uname'', ''echo'', ''printf'', ''true'', ''false'',
     ''date'', ''sort'', ''uniq'', ''cut'', ''tr'', ''nl'', ''diff'', ''gcc'', ''cc'',
     ''clang'', ''nm'', ''objdump'', ''readelf'', ''sha256sum'', ''md5sum'', ''basename'',
     ''dirname'', ''realpath'', ''tree'', ''jq'', ''git'']"

definition k_safe_git_sub :: "cstr list" where
  "k_safe_git_sub =
    [''status'', ''diff'', ''log'', ''show'', ''branch'', ''rev-parse'', ''ls-files'',
     ''blame'', ''describe'', ''remote'', ''tag'', ''stash'']"

definition k_unsafe_find :: "cstr list" where
  "k_unsafe_find =
    [''-delete'', ''-exec'', ''-execdir'', ''-ok'', ''-okdir'', ''-fprint'', ''-fprintf'']"

section \<open>Commands\<close>

definition shell_meta :: "cstr" where
  "shell_meta = '';|&$`(){}<>'' @ [LF, CR]"

definition permission_is_safe_command :: "cstr \<Rightarrow> bool" where
  "permission_is_safe_command cmd0 =
     (let cmd = dropWhile isspace cmd0 in
      if cmd = [] \<or> length cmd \<ge> PERM_CMD_MAX then False
      else if list_ex (\<lambda>c. c \<in> set shell_meta) cmd then False
      else case strtok_all [CHR '' '', TAB] (take (PERM_CMD_MAX - 1) cmd) of
        [] \<Rightarrow> False
      | argv0 # args \<Rightarrow>
        if CHR ''/'' \<in> set argv0 then False
        else if argv0 \<notin> set k_safe_argv0 then False
        else if argv0 = ''find'' then \<not> list_ex (\<lambda>t. t \<in> set k_unsafe_find) args
        else if argv0 = ''git'' then
          (case args of [] \<Rightarrow> False | sub # _ \<Rightarrow> sub \<in> set k_safe_git_sub)
        else True)"

definition k_protected_fragments :: "cstr list" where
  "k_protected_fragments =
    [''/.git/hooks'', ''/.git/config'', ''/.ssh/'', ''/.gnupg/'', ''/etc/'', ''/boot/'',
     ''/sys/'', ''/proc/'', ''/dev/'', ''/.bashrc'', ''/.bash_profile'', ''/.zshrc'',
     ''/.profile'', ''/.gitconfig'', ''/.docker/config.json'']"

definition permission_is_protected_path :: "cstr \<Rightarrow> bool" where
  "permission_is_protected_path path =
     (if path = [] then False
      else list_ex (str_contains_ci path) k_protected_fragments
        \<or> has_prefix ''~/.ssh'' path \<or> has_prefix ''~/.bash'' path
        \<or> has_prefix ''.git/hooks'' path \<or> has_prefix ''.git/config'' path)"

definition k_roots_rm :: "cstr list" where
  "k_roots_rm = [''/'', ''/*'', ''~'', ''~/'', ''$HOME'', ''/etc'', ''/usr'', ''/bin'', ''/sbin'',
     ''/var'', ''/opt'', ''/boot'', ''/home'']"

definition command_is_destructive :: "cstr \<Rightarrow> bool" where
  "command_is_destructive cmd =
     (if has_prefix ''rm '' cmd \<or> has_prefix (''rm'' @ [TAB]) cmd then
        list_ex (\<lambda>t. t \<in> set k_roots_rm)
          (drop 1 (strtok_all [CHR '' '', TAB] (take (PERM_CMD_MAX - 1) cmd)))
      else if str_contains_ci cmd ''mkfs'' \<or> str_contains_ci cmd ''dd if='' \<or>
        str_contains_ci cmd ''> /dev/sd'' \<or> str_contains_ci cmd '':(){'' \<or>
        str_contains_ci cmd ''chmod -r 777 /'' \<or> str_contains_ci cmd ''chown -r'' then True
      else if (str_contains_ci cmd ''curl'' \<or> str_contains_ci cmd ''wget'') \<and>
        (str_contains_ci cmd ''| sh'' \<or> str_contains_ci cmd ''|sh'' \<or>
         str_contains_ci cmd ''| bash'' \<or> str_contains_ci cmd ''|bash'') then True
      else str_contains_ci cmd ''git push --force'' \<or> str_contains_ci cmd ''git push -f'')"

section \<open>Hard denial vectors\<close>

definition tok_basename :: "cstr \<Rightarrow> cstr" where
  "tok_basename tok = (case strrchr tok (CHR ''/'') of Some s \<Rightarrow> drop 1 s | None \<Rightarrow> tok)"

definition k_roots :: "cstr list" where
  "k_roots = [''/'', ''/*'', ''~'', ''~/'', ''$HOME'', ''${HOME}'', ''/etc'', ''/usr'', ''/bin'',
     ''/sbin'', ''/var'', ''/opt'', ''/boot'', ''/home'', ''/root'', ''/lib'', ''/lib64'', ''/dev'']"

definition is_rootish_operand :: "cstr \<Rightarrow> bool" where
  "is_rootish_operand tok =
     (tok \<in> set k_roots \<or> has_prefix ''--no-preserve-root'' tok \<or>
      list_ex (\<lambda>r. has_prefix (r @ ''/'') tok) k_roots)"

definition k_bins :: "cstr list" where
  "k_bins = [''rm'', ''rmdir'', ''unlink'', ''shred'', ''wipefs'', ''mkfs'', ''mkfs.ext4'',
     ''mkfs.xfs'', ''dd'', ''truncate'', ''mkswap'']"

definition token_is_destructive_binary :: "cstr \<Rightarrow> bool" where
  "token_is_destructive_binary base = (base \<in> set k_bins \<or> has_prefix ''mkfs.'' base)"

definition sep_to_space :: "char \<Rightarrow> char" where
  "sep_to_space c =
     (if c = CHR '';'' \<or> c = CHR ''|'' \<or> c = CHR ''&'' \<or> c = LF \<or> c = CHR ''('' \<or> c = CHR '')''
      then CHR '' '' else c)"

text \<open>The token loop, with its early return on \<open>--output=/\<close>: \<open>None\<close> stands for \<open>return true\<close>.\<close>

fun vector_scan :: "cstr list \<Rightarrow> bool \<Rightarrow> bool \<Rightarrow> (bool \<times> bool) option" where
  "vector_scan [] destructive_seen root_operand = Some (destructive_seen, root_operand)"
| "vector_scan (tok # toks) destructive_seen root_operand =
     (let destructive_seen = (destructive_seen \<or> token_is_destructive_binary (tok_basename tok));
          root_operand = (root_operand \<or> is_rootish_operand tok)
      in if has_prefix ''--output=/'' tok then None
         else vector_scan toks destructive_seen root_operand)"

definition vector_tokens :: "cstr \<Rightarrow> cstr list" where
  "vector_tokens cmd = strtok_all [CHR '' '', TAB] (map sep_to_space (take (PERM_CMD_MAX - 1) cmd))"

definition command_has_denied_vector :: "cstr \<Rightarrow> bool" where
  "command_has_denied_vector cmd =
     (case vector_scan (vector_tokens cmd) False False of
        None \<Rightarrow> True
      | Some (destructive_seen, root_operand) \<Rightarrow>
        if destructive_seen \<and> root_operand then True
        else str_contains_ci cmd ''-exec rm'' \<or> str_contains_ci cmd ''xargs rm'' \<or>
          str_contains_ci cmd ''xargs -0 rm'' \<or> str_contains_ci cmd ''> /etc/'' \<or>
          str_contains_ci cmd ''>> /etc/'' \<or> str_contains_ci cmd ''> /usr/'' \<or>
          str_contains_ci cmd ''make -f /dev/'' \<or> str_contains_ci cmd ''make -f /etc/'' \<or>
          str_contains_ci cmd ''make -C / '' \<or> str_contains_ci cmd ''-o /etc/'')"

section \<open>Classification\<close>

definition is_read_tool :: "cstr \<Rightarrow> bool" where
  "is_read_tool t = (t \<in> set [''read_file'', ''list_dir'', ''search_files'', ''git_status'', ''git_diff''])"

definition is_write_tool :: "cstr \<Rightarrow> bool" where
  "is_write_tool t = (t \<in> set [''write_file'', ''edit_file'', ''apply_patch'', ''create_file''])"

definition is_inert_tool :: "cstr \<Rightarrow> bool" where
  "is_inert_tool t = (t \<in> set [''todo_write'', ''todo_read'', ''memory_save'', ''memory_recall'',
     ''send_telegram'', ''enter_plan_mode'', ''task'', ''web_search''])"

definition args_contain_ci :: "cstr option \<Rightarrow> cstr \<Rightarrow> bool" where
  "args_contain_ci args needle = (case args of None \<Rightarrow> False | Some a \<Rightarrow> str_contains_ci a needle)"

definition permission_classify :: "cstr option \<Rightarrow> cstr option \<Rightarrow> PermTier" where
  "permission_classify tool_name args_json =
     (case tool_name of None \<Rightarrow> PERM_TIER_ASK
      | Some t \<Rightarrow>
        if t = ''bash'' then
          (case permission_arg_string args_json ''command'' PERM_CMD_MAX of
             None \<Rightarrow> PERM_TIER_ASK
           | Some cmd \<Rightarrow>
             if command_is_destructive cmd then PERM_TIER_DENY
             else if command_has_denied_vector cmd then PERM_TIER_DENY
             else if permission_is_safe_command cmd then PERM_TIER_ALLOW
             else PERM_TIER_ASK)
        else if is_read_tool t then
          (case permission_arg_string args_json ''path'' 2048 of
             None \<Rightarrow> PERM_TIER_ALLOW
           | Some path \<Rightarrow>
             if path \<noteq> [] \<and> permission_is_protected_path path then PERM_TIER_ASK else PERM_TIER_ALLOW)
        else if is_write_tool t then
          (case permission_arg_string args_json ''path'' 2048 of
             None \<Rightarrow> PERM_TIER_ASK
           | Some path \<Rightarrow>
             if path = [] then PERM_TIER_ASK
             else if permission_is_protected_path path then PERM_TIER_DENY
             else if hd path = CHR ''/'' then PERM_TIER_ASK
             else PERM_TIER_ALLOW)
        else if t = ''fetch_url'' then
          (if args_contain_ci args_json (DQ # ''POST'' @ [DQ]) \<or> args_contain_ci args_json (DQ # ''PUT'' @ [DQ]) \<or>
              args_contain_ci args_json (DQ # ''PATCH'' @ [DQ]) \<or> args_contain_ci args_json (DQ # ''DELETE'' @ [DQ])
           then PERM_TIER_ASK else PERM_TIER_ALLOW)
        else if t = ''define_tool'' then PERM_TIER_ASK
        else if t = ''git'' \<and>
          (args_contain_ci args_json ''push --force'' \<or> args_contain_ci args_json ''push -f'')
        then PERM_TIER_DENY
        else if t = ''exit_plan_mode'' then PERM_TIER_ASK
        else if is_inert_tool t then PERM_TIER_ALLOW
        else PERM_TIER_ASK)"

definition permission_tier_name :: "PermTier \<Rightarrow> cstr" where
  "permission_tier_name tier =
     (case tier of PERM_TIER_ALLOW \<Rightarrow> ''allow'' | PERM_TIER_ASK \<Rightarrow> ''ask'' | PERM_TIER_DENY \<Rightarrow> ''deny'')"

definition permission_apply_turbo :: "PermTier \<Rightarrow> int \<Rightarrow> PermTier" where
  "permission_apply_turbo tier turbo =
     (if turbo \<noteq> 0 \<and> tier = PERM_TIER_ASK then PERM_TIER_ALLOW else tier)"


section \<open>Lemmas\<close>

lemma ci_scan_iff: "ci_scan hay needle \<longleftrightarrow> (\<exists>u v. hay = u @ v \<and> v \<noteq> [] \<and> has_prefix_ci needle v)"
proof (induction hay)
  case Nil
  then show ?case by simp
next
  case (Cons c s)
  show ?case
  proof
    assume "ci_scan (c # s) needle"
    then consider "has_prefix_ci needle (c # s)" | "ci_scan s needle" by auto
    then show "\<exists>u v. c # s = u @ v \<and> v \<noteq> [] \<and> has_prefix_ci needle v"
    proof cases
      case 1
      then show ?thesis by (intro exI[of _ "[]"] exI[of _ "c # s"]) simp
    next
      case 2
      with Cons.IH obtain u v where "s = u @ v" "v \<noteq> []" "has_prefix_ci needle v" by blast
      then show ?thesis by (intro exI[of _ "c # u"] exI[of _ v]) simp
    qed
  next
    assume "\<exists>u v. c # s = u @ v \<and> v \<noteq> [] \<and> has_prefix_ci needle v"
    then obtain u v where uv: "c # s = u @ v" "v \<noteq> []" "has_prefix_ci needle v" by blast
    then show "ci_scan (c # s) needle"
      using Cons.IH by (cases u) auto
  qed
qed

lemma has_prefix_ci_append [simp]: "has_prefix_ci p (p @ t)"
  by (induction p) auto

lemma str_contains_ci_substring: "needle \<noteq> [] \<Longrightarrow> str_contains_ci (u @ needle @ v) needle"
proof -
  assume n: "needle \<noteq> []"
  then have "u @ needle @ v = u @ (needle @ v) \<and> needle @ v \<noteq> [] \<and> has_prefix_ci needle (needle @ v)"
    by simp
  with n show ?thesis unfolding str_contains_ci_def ci_scan_iff by blast
qed

lemma length_arg_copy: "length (arg_copy n s) \<le> n"
  by (induction n s rule: arg_copy.induct) (auto split: list.splits)

lemma arg_copy_Cons_plain:
  "c \<noteq> DQ \<Longrightarrow> c \<noteq> BSL \<Longrightarrow> arg_copy n (c # s) = (case n of 0 \<Rightarrow> [] | Suc m \<Rightarrow> c # arg_copy m s)"
  by (cases n) auto

lemma arg_copy_plain:
  "\<forall>c \<in> set s. c \<noteq> DQ \<and> c \<noteq> BSL \<Longrightarrow> length s \<le> n \<Longrightarrow> arg_copy n (s @ t) = s @ arg_copy (n - length s) t"
proof (induction s arbitrary: n)
  case (Cons c s)
  then obtain m where "n = Suc m" by (cases n) auto
  with Cons show ?case by (simp add: arg_copy_Cons_plain)
qed simp

lemma vector_scan_None_iff:
  "vector_scan toks d r = None \<longleftrightarrow> list_ex (has_prefix ''--output=/'') toks"
  by (induction toks d r rule: vector_scan.induct) (auto simp: Let_def)

lemma vector_scan_Some:
  "vector_scan toks d r = Some (d', r') \<Longrightarrow>
     d' = (d \<or> list_ex (\<lambda>t. token_is_destructive_binary (tok_basename t)) toks) \<and>
     r' = (r \<or> list_ex is_rootish_operand toks)"
  by (induction toks d r rule: vector_scan.induct) (auto simp: Let_def split: if_splits)

text \<open>The abstract reading of the denial vector: a destructive program and a root operand anywhere.\<close>

lemma denied_vectorI:
  assumes "a \<in> set (vector_tokens cmd)" "token_is_destructive_binary (tok_basename a)"
    and "b \<in> set (vector_tokens cmd)" "is_rootish_operand b"
  shows "command_has_denied_vector cmd"
proof (cases "vector_scan (vector_tokens cmd) False False")
  case None
  then show ?thesis by (simp add: command_has_denied_vector_def)
next
  case (Some p)
  then obtain d r where p: "vector_scan (vector_tokens cmd) False False = Some (d, r)"
    by (cases p) auto
  from vector_scan_Some[OF p] assms have "d \<and> r" by (auto simp: list_ex_iff)
  with p show ?thesis by (simp add: command_has_denied_vector_def)
qed

lemma tok_basename_strip: "CHR ''/'' \<notin> set b \<Longrightarrow> tok_basename (d @ CHR ''/'' # b) = b"
proof -
  assume b: "CHR ''/'' \<notin> set b"
  have "strrchr (d @ CHR ''/'' # b) (CHR ''/'') = Some (CHR ''/'' # b)"
  proof (induction d)
    case Nil
    from b show ?case by simp
  qed simp
  then show ?thesis by (simp add: tok_basename_def)
qed

lemma tok_basename_plain: "CHR ''/'' \<notin> set b \<Longrightarrow> tok_basename b = b"
  by (simp add: tok_basename_def)

lemma classify_bash:
  "permission_classify (Some ''bash'') args =
     (case permission_arg_string args ''command'' PERM_CMD_MAX of None \<Rightarrow> PERM_TIER_ASK
      | Some cmd \<Rightarrow>
        if command_is_destructive cmd \<or> command_has_denied_vector cmd then PERM_TIER_DENY
        else if permission_is_safe_command cmd then PERM_TIER_ALLOW else PERM_TIER_ASK)"
  by (simp add: permission_classify_def split: option.splits)

lemma classify_write:
  assumes "is_write_tool t"
  shows "permission_classify (Some t) args =
     (case permission_arg_string args ''path'' 2048 of None \<Rightarrow> PERM_TIER_ASK
      | Some path \<Rightarrow>
        if path = [] then PERM_TIER_ASK
        else if permission_is_protected_path path then PERM_TIER_DENY
        else if hd path = CHR ''/'' then PERM_TIER_ASK else PERM_TIER_ALLOW)"
proof -
  from assms have "t \<noteq> ''bash''" and "\<not> is_read_tool t"
    by (auto simp: is_write_tool_def is_read_tool_def)
  with assms show ?thesis by (simp add: permission_classify_def split: option.splits)
qed

lemmas classify_simps = classify_bash classify_write

lemma safe_commandD:
  assumes "permission_is_safe_command cmd"
  obtains argv0 args where
    "strtok_all [CHR '' '', TAB] (take (PERM_CMD_MAX - 1) (dropWhile isspace cmd)) = argv0 # args"
    "\<forall>c \<in> set (dropWhile isspace cmd). c \<notin> set shell_meta"
    "CHR ''/'' \<notin> set argv0" "argv0 \<in> set k_safe_argv0"
    "argv0 = ''find'' \<Longrightarrow> \<forall>t \<in> set args. t \<notin> set k_unsafe_find"
    "argv0 = ''git'' \<Longrightarrow> args \<noteq> [] \<and> hd args \<in> set k_safe_git_sub"
proof -
  from assms obtain argv0 args where
    tok: "strtok_all [CHR '' '', TAB] (take (PERM_CMD_MAX - 1) (dropWhile isspace cmd)) = argv0 # args"
    by (auto simp: permission_is_safe_command_def Let_def split: if_splits list.splits)
  with assms show thesis
    by (intro that[OF tok])
      (auto simp: permission_is_safe_command_def Let_def list_ex_iff split: if_splits list.splits)
qed


section \<open>Properties\<close>

text \<open>C4: A bash command in which some word names a destructive program, whatever directory it
  is written with and wherever it stands in the command line, and some word is a root-level
  operand, is denied, and turbo mode cannot lift the denial.\<close>

theorem denied_vector_is_final:
  assumes "permission_arg_string args ''command'' PERM_CMD_MAX = Some cmd"
    and "d @ b \<in> set (vector_tokens cmd)" and "d = [] \<or> last d = CHR ''/''"
    and "CHR ''/'' \<notin> set b" and "token_is_destructive_binary b"
    and "r \<in> set (vector_tokens cmd)" and "is_rootish_operand r"
  shows "permission_apply_turbo (permission_classify (Some ''bash'') args) turbo = PERM_TIER_DENY"
proof -
  have "tok_basename (d @ b) = b"
    using assms(3,4) tok_basename_strip[of b "butlast d"] tok_basename_plain[of b]
    by (cases d rule: rev_cases) auto
  with assms have "command_has_denied_vector cmd"
    using denied_vectorI[of "d @ b" cmd r] by simp
  with assms(1) show ?thesis by (simp add: classify_bash permission_apply_turbo_def)
qed

theorem denied_vector_is_final_witness:
  "permission_apply_turbo (permission_classify (Some ''bash'')
     (Some (''{'' @ DQ # ''command'' @ DQ # '':'' @ DQ # ''sudo /bin/rm -rf /usr'' @ DQ # ''}''))) 1
   = PERM_TIER_DENY"
  by (rule denied_vector_is_final[where cmd = "''sudo /bin/rm -rf /usr''" and d = "''/bin/''"
        and b = "''rm''" and r = "''/usr''"]) code_simp+

text \<open>C7: A bash call that the classifier allows is one plain command: it has no shell
  metacharacter, its program is on the allowlist and written without a directory, a \<open>find\<close> has no
  acting option, a \<open>git\<close> has an allowed subcommand, and no denial rule matches it.\<close>

theorem allowed_bash_is_plain:
  assumes "permission_classify (Some ''bash'') args = PERM_TIER_ALLOW"
  shows "\<exists>cmd argv0 rest. permission_arg_string args ''command'' PERM_CMD_MAX = Some cmd \<and>
    strtok_all [CHR '' '', TAB] (take (PERM_CMD_MAX - 1) (dropWhile isspace cmd)) = argv0 # rest \<and>
    (\<forall>c \<in> set (dropWhile isspace cmd). c \<notin> set shell_meta) \<and>
    argv0 \<in> set k_safe_argv0 \<and> CHR ''/'' \<notin> set argv0 \<and>
    (argv0 = ''find'' \<longrightarrow> (\<forall>t \<in> set rest. t \<notin> set k_unsafe_find)) \<and>
    (argv0 = ''git'' \<longrightarrow> rest \<noteq> [] \<and> hd rest \<in> set k_safe_git_sub) \<and>
    \<not> command_is_destructive cmd \<and> \<not> command_has_denied_vector cmd"
proof -
  from assms obtain cmd where cmd: "permission_arg_string args ''command'' PERM_CMD_MAX = Some cmd"
    and nd: "\<not> command_is_destructive cmd" "\<not> command_has_denied_vector cmd"
    and safe: "permission_is_safe_command cmd"
    by (auto simp: classify_bash split: option.splits if_splits)
  from safe show ?thesis
    by (rule safe_commandD) (use cmd nd in blast)
qed

theorem allowed_bash_is_plain_witness:
  "\<exists>cmd. permission_arg_string (Some (''{'' @ DQ # ''command'' @ DQ # '':'' @ DQ # ''git status'' @ DQ # ''}''))
      ''command'' PERM_CMD_MAX = Some cmd \<and> \<not> command_has_denied_vector cmd"
proof -
  have "permission_classify (Some ''bash'')
      (Some (''{'' @ DQ # ''command'' @ DQ # '':'' @ DQ # ''git status'' @ DQ # ''}'')) = PERM_TIER_ALLOW"
    by code_simp
  from allowed_bash_is_plain[OF this] show ?thesis by blast
qed

text \<open>A path that contains a protected fragment, in any capitalisation, can never be written
  without a human: every write tool that names it is denied, under turbo as well.\<close>

theorem protected_write_is_denied:
  assumes "is_write_tool t" and "permission_arg_string args ''path'' 2048 = Some (u @ v)"
    and "f \<in> set k_protected_fragments" and "has_prefix_ci f v"
  shows "permission_apply_turbo (permission_classify (Some t) args) turbo = PERM_TIER_DENY"
proof -
  have f: "f \<noteq> []" using assms(3) by (auto simp: k_protected_fragments_def)
  with assms(4) have v: "v \<noteq> []" by (cases f; cases v) auto
  with assms(4) f have "str_contains_ci (u @ v) f"
    unfolding str_contains_ci_def ci_scan_iff by blast
  with assms(3) v have "permission_is_protected_path (u @ v)"
    by (auto simp: permission_is_protected_path_def list_ex_iff)
  with assms(1,2) v show ?thesis by (simp add: classify_write permission_apply_turbo_def)
qed

theorem protected_write_is_denied_witness:
  "permission_apply_turbo (permission_classify (Some ''write_file'')
     (Some (''{'' @ DQ # ''path'' @ DQ # '':'' @ DQ # ''repo/.GIT/Hooks/pre-push'' @ DQ # ''}''))) 1
   = PERM_TIER_DENY"
  by (rule protected_write_is_denied[where u = "''repo''" and v = "''/.GIT/Hooks/pre-push''"
        and f = "''/.git/hooks''"]) code_simp+

text \<open>A write tool that the classifier allows without asking names a non-empty relative path
  that is not protected; an absolute path always asks.\<close>

theorem allowed_write_is_relative:
  assumes "is_write_tool t" and "permission_classify (Some t) args = PERM_TIER_ALLOW"
  shows "\<exists>c rest. permission_arg_string args ''path'' 2048 = Some (c # rest) \<and> c \<noteq> CHR ''/'' \<and>
    \<not> permission_is_protected_path (c # rest)"
  using assms(2) unfolding classify_write[OF assms(1)]
  by (auto simp: neq_Nil_conv split: option.splits if_splits)

theorem allowed_write_is_relative_witness:
  "\<exists>c rest. permission_arg_string (Some (''{'' @ DQ # ''path'' @ DQ # '':'' @ DQ # ''src/a.c'' @ DQ # ''}''))
     ''path'' 2048 = Some (c # rest) \<and> c \<noteq> CHR ''/''"
proof -
  have "is_write_tool ''edit_file''"
    and "permission_classify (Some ''edit_file'')
      (Some (''{'' @ DQ # ''path'' @ DQ # '':'' @ DQ # ''src/a.c'' @ DQ # ''}'')) = PERM_TIER_ALLOW"
    by code_simp+
  from allowed_write_is_relative[OF this] show ?thesis by blast
qed

end
