(* ===== verification/DynString.thy ===== *)
theory DynString
  imports Prelude
begin

text \<open>
  The growable strings of \<open>common.h\<close>, at the width of \<open>size_t\<close>. The allocator is a parameter:
  \<open>alloc n\<close> says whether \<open>malloc\<close>/\<open>realloc\<close> of \<open>n\<close> bytes succeeds. An operation that aborts the
  process is \<open>None\<close>. \<open>data\<close> holds the bytes before the terminator (\<open>None\<close> for a NULL pointer).

  The locale \<open>text_sink\<close> is the contract the serialisers and renderers rely on: appending
  appends, and keeps the representation invariant. It is interpreted on these strings here and
  on the renderer's buffer in the theory of the renderer.
\<close>

definition SIZE_MAX :: u64 where "SIZE_MAX = 0xFFFFFFFFFFFFFFFF"

record DynString =
  data :: "cstr option"
  len :: u64
  cap :: u64

section \<open>Operations\<close>

definition dyn_str_new :: "(u64 \<Rightarrow> bool) \<Rightarrow> DynString" where
  "dyn_str_new alloc =
     (if alloc 1024 then \<lparr>data = Some [], len = 0, cap = 1024\<rparr>
      else \<lparr>data = None, len = 0, cap = 0\<rparr>)"

text \<open>The doubling loop. \<open>None\<close> would be a loop that never ends.\<close>

partial_function (option) grow_cap :: "u64 \<Rightarrow> u64 \<Rightarrow> u64 option" where
  "grow_cap want new_cap =
     (if want > new_cap then
        (if new_cap > SIZE_MAX div 2 then Some want else grow_cap want (new_cap * 2))
      else Some new_cap)"

definition dyn_str_grow :: "(u64 \<Rightarrow> bool) \<Rightarrow> u64 \<Rightarrow> DynString \<Rightarrow> DynString option" where
  "dyn_str_grow alloc needed ds =
     (if needed > SIZE_MAX - len ds - 1 then None
      else if len ds + needed + 1 > cap ds then
        (case grow_cap (len ds + needed + 1) (if cap ds \<noteq> 0 then cap ds else 512) of
           None \<Rightarrow> None
         | Some new_cap \<Rightarrow>
           if alloc new_cap
           then Some (ds\<lparr>data := Some (case data ds of None \<Rightarrow> [] | Some d \<Rightarrow> d), cap := new_cap\<rparr>)
           else None)
      else Some ds)"

text \<open>\<open>memcpy\<close> of \<open>str\<close> behind the first \<open>len\<close> bytes, and the new terminator.\<close>

definition dyn_copy :: "cstr \<Rightarrow> DynString \<Rightarrow> DynString" where
  "dyn_copy str ds = ds\<lparr>data := map_option (\<lambda>d. take (unat (len ds)) d @ str) (data ds),
     len := len ds + of_nat (length str)\<rparr>"

definition dyn_str_append_len :: "(u64 \<Rightarrow> bool) \<Rightarrow> cstr option \<Rightarrow> DynString \<Rightarrow> DynString option" where
  "dyn_str_append_len alloc str ds =
     (case str of None \<Rightarrow> Some ds
      | Some s \<Rightarrow>
        let slen = of_nat (length s) :: u64 in
        if slen = 0 then Some ds
        else if slen > SIZE_MAX - len ds - 1 then None
        else case dyn_str_grow alloc slen ds of None \<Rightarrow> None
          | Some ds' \<Rightarrow>
            if data ds' = None \<or> cap ds' < len ds' + slen + 1 then None
            else Some (dyn_copy s ds'))"

text \<open>\<open>dyn_str_append\<close> has the same body with \<open>slen = strlen(str)\<close>.\<close>

definition dyn_str_append :: "(u64 \<Rightarrow> bool) \<Rightarrow> cstr option \<Rightarrow> DynString \<Rightarrow> DynString option" where
  "dyn_str_append alloc str ds =
     (case str of None \<Rightarrow> Some ds
      | Some s \<Rightarrow>
        let slen = of_nat (length s) :: u64 in
        if slen = 0 then Some ds
        else if slen > SIZE_MAX - len ds - 1 then None
        else case dyn_str_grow alloc slen ds of None \<Rightarrow> None
          | Some ds' \<Rightarrow>
            if data ds' = None \<or> cap ds' < len ds' + slen + 1 then None
            else Some (dyn_copy s ds'))"

text \<open>
  \<open>dyn_str_appendf\<close>: \<open>text\<close> is what \<open>vsnprintf\<close> formats; its \<open>int\<close> result is negative beyond
  \<open>INT_MAX\<close>, and the append is then skipped.
\<close>

definition dyn_str_appendf :: "(u64 \<Rightarrow> bool) \<Rightarrow> cstr \<Rightarrow> DynString \<Rightarrow> DynString option" where
  "dyn_str_appendf alloc text ds =
     (if 0 < length text \<and> length text < 2 ^ 31
      then map_option (dyn_copy text) (dyn_str_grow alloc (of_nat (length text)) ds)
      else Some ds)"

definition dyn_str_clear :: "DynString \<Rightarrow> DynString" where
  "dyn_str_clear ds = ds\<lparr>len := 0, data := map_option (\<lambda>_. []) (data ds)\<rparr>"

definition dyn_str_free :: "DynString \<Rightarrow> DynString" where
  "dyn_str_free ds = ds\<lparr>data := None, len := 0, cap := 0\<rparr>"

section \<open>Escaping for JSON text\<close>

definition hex_digit :: "nat \<Rightarrow> char" where
  "hex_digit n = char_of (if n < 10 then 48 + n else 87 + n)"

text \<open>The text appended for one byte: the switch of \<open>dyn_str_append_escaped\<close>.\<close>

definition escape_char :: "char \<Rightarrow> cstr" where
  "escape_char c =
     (if c = DQ then [BSL, DQ]
      else if c = BSL then [BSL, BSL]
      else if c = CHR 0x08 then [BSL, CHR ''b'']
      else if c = CHR 0x0C then [BSL, CHR ''f'']
      else if c = LF then [BSL, CHR ''n'']
      else if c = CR then [BSL, CHR ''r'']
      else if c = TAB then [BSL, CHR ''t'']
      else if byte c < 32 then
        [BSL, CHR ''u'', CHR ''0'', CHR ''0'', hex_digit (byte c div 16), hex_digit (byte c mod 16)]
      else [c])"

definition escape :: "cstr \<Rightarrow> cstr" where
  "escape s = concat (map escape_char s)"

text \<open>Appending a list of pieces one call at a time, stopping at an abort.\<close>

fun put_all :: "('s \<Rightarrow> 'b \<Rightarrow> 'b option) \<Rightarrow> 's list \<Rightarrow> 'b \<Rightarrow> 'b option" where
  "put_all put [] b = Some b"
| "put_all put (s # ss) b = (case put s b of None \<Rightarrow> None | Some b' \<Rightarrow> put_all put ss b')"

definition dyn_str_append_escaped :: "(u64 \<Rightarrow> bool) \<Rightarrow> cstr option \<Rightarrow> DynString \<Rightarrow> DynString option" where
  "dyn_str_append_escaped alloc str ds =
     (case str of None \<Rightarrow> Some ds
      | Some s \<Rightarrow> put_all (\<lambda>p. dyn_str_append alloc (Some p)) (map escape_char s) ds)"

section \<open>The contract of a text sink\<close>

locale text_sink =
  fixes put :: "cstr \<Rightarrow> 'b \<Rightarrow> 'b option"
    and contents :: "'b \<Rightarrow> cstr"
    and inv :: "'b \<Rightarrow> bool"
    and fits :: "nat \<Rightarrow> bool"
  assumes put_appends: "inv b \<Longrightarrow> fits (length s) \<Longrightarrow> put s b = Some b' \<Longrightarrow> contents b' = contents b @ s"
    and put_keeps_inv: "inv b \<Longrightarrow> fits (length s) \<Longrightarrow> put s b = Some b' \<Longrightarrow> inv b'"
begin

lemma put_all_appends:
  assumes "inv b" and "\<forall>s \<in> set ss. fits (length s)" and "put_all put ss b = Some b'"
  shows "inv b' \<and> contents b' = contents b @ concat ss"
  using assms
proof (induction ss arbitrary: b)
  case (Cons s ss)
  from Cons.prems(3) obtain c where c: "put s b = Some c" and r: "put_all put ss c = Some b'"
    by (auto split: option.splits)
  from Cons.prems c have "inv c" and cc: "contents c = contents b @ s"
    using put_keeps_inv[of b s c] put_appends[of b s c] by simp_all
  from Cons.IH[OF this(1) _ r] Cons.prems(2) cc show ?case by simp
qed simp

end

text \<open>A sink whose appends never fail: the whole text arrives.\<close>

locale total_sink = text_sink +
  assumes put_succeeds: "inv b \<Longrightarrow> fits (length (contents b) + length s) \<Longrightarrow> put s b \<noteq> None"
    and fits_mono: "fits n \<Longrightarrow> m \<le> n \<Longrightarrow> fits m"
begin

lemma put_all_succeeds:
  assumes "inv b" and "fits (length (contents b) + length (concat ss))"
  shows "\<exists>b'. put_all put ss b = Some b' \<and> inv b' \<and> contents b' = contents b @ concat ss"
  using assms
proof (induction ss arbitrary: b)
  case (Cons s ss)
  have f: "fits (length (contents b) + length s)" "fits (length s)"
    by (rule fits_mono[OF Cons.prems(2)]; simp)+
  from put_succeeds[OF Cons.prems(1) f(1)] obtain c where c: "put s b = Some c" by blast
  have ic: "inv c" and cc: "contents c = contents b @ s"
    using put_keeps_inv[OF Cons.prems(1) f(2) c] put_appends[OF Cons.prems(1) f(2) c] by simp_all
  have "fits (length (contents c) + length (concat ss))"
    using Cons.prems(2) by (simp add: cc add.assoc)
  from Cons.IH[OF ic this] c cc show ?case by auto
qed simp

end

section \<open>The representation invariant\<close>

definition dyn_inv :: "DynString \<Rightarrow> bool" where
  "dyn_inv ds = (case data ds of None \<Rightarrow> len ds = 0 \<and> cap ds = 0
     | Some d \<Rightarrow> unat (len ds) = length d \<and> len ds < cap ds)"

definition contents :: "DynString \<Rightarrow> cstr" where
  "contents ds = (case data ds of None \<Rightarrow> [] | Some d \<Rightarrow> d)"

lemma unat_len_contents: "dyn_inv ds \<Longrightarrow> unat (len ds) = length (contents ds)"
  by (auto simp: dyn_inv_def contents_def split: option.splits)

lemma dyn_inv_len_lt: "dyn_inv ds \<Longrightarrow> unat (len ds) < 2 ^ 64 - 1"
proof -
  assume "dyn_inv ds"
  then have "len ds = 0 \<or> len ds < cap ds" by (auto simp: dyn_inv_def split: option.splits)
  moreover have "unat (cap ds) \<le> 2 ^ 64 - 1" using unat_u64_lt[of "cap ds"] by simp
  ultimately show ?thesis by (auto simp: word_less_nat_alt)
qed

lemma unat_SIZE_MAX [simp]: "unat SIZE_MAX = 2 ^ 64 - 1"
  by (simp add: SIZE_MAX_def)

lemma size_guard:
  assumes "unat l < 2 ^ 64 - 1"
  shows "n > SIZE_MAX - l - 1 \<longleftrightarrow> 2 ^ 64 \<le> unat l + unat n + 1"
proof -
  have a: "unat (SIZE_MAX - l) = 2 ^ 64 - 1 - unat l"
    using assms by (subst unat_sub) (simp_all add: word_le_nat_alt)
  have "unat (SIZE_MAX - l - 1) = 2 ^ 64 - 1 - unat l - 1"
    using assms a by (subst unat_sub) (simp_all add: word_le_nat_alt)
  then show ?thesis using assms by (auto simp: word_less_nat_alt)
qed

lemma unat_add3:
  fixes l n :: u64
  assumes "unat l + unat n + 1 < 2 ^ 64"
  shows "unat (l + n + 1) = unat l + unat n + 1" and "unat (l + n) = unat l + unat n"
proof -
  have e: "l + n + 1 = of_nat (unat l + unat n + 1)" "l + n = of_nat (unat l + unat n)" by simp_all
  show "unat (l + n + 1) = unat l + unat n + 1"
    unfolding e(1) using assms by (rule unat_of_nat_u64)
  show "unat (l + n) = unat l + unat n"
    unfolding e(2) using assms by (intro unat_of_nat_u64) simp
qed

lemma grow_cap_returns: "c \<noteq> 0 \<Longrightarrow> \<exists>c'. grow_cap want c = Some c' \<and> want \<le> c' \<and> c \<le> c'"
proof (induction "2 ^ 64 - unat c" arbitrary: c rule: less_induct)
  case less
  show ?case
  proof (cases "want > c \<and> \<not> c > SIZE_MAX div 2")
    case False
    then show ?thesis by (auto simp: grow_cap.simps[of want c])
  next
    case True
    have half: "unat c \<le> 2 ^ 63 - 1"
      using True by (auto simp: word_le_nat_alt not_less unat_div)
    then have dbl: "unat (c * 2) = 2 * unat c" by (subst unat_mult_lem[THEN iffD1]) simp_all
    have pos: "0 < unat c" using less.prems by (simp add: unat_gt_0)
    have "c * 2 \<noteq> 0" using dbl pos by (metis mult_pos_pos unat_0 zero_less_numeral less_numeral_extra(3))
    moreover have "2 ^ 64 - unat (c * 2) < 2 ^ 64 - unat c" using dbl pos half by simp
    ultimately obtain c' where "grow_cap want (c * 2) = Some c'" "want \<le> c'" "c * 2 \<le> c'"
      using less.hyps by blast
    moreover have "c \<le> c * 2" using dbl by (simp add: word_le_nat_alt)
    ultimately show ?thesis using True by (auto simp: grow_cap.simps[of want c])
  qed
qed

text \<open>What growing guarantees: the text is kept and the new bytes and the terminator fit.\<close>

lemma dyn_str_grow_fits:
  assumes "dyn_inv ds" and "dyn_str_grow alloc n ds = Some ds'" and "n \<noteq> 0"
  shows "data ds' = Some (contents ds)" and "len ds' = len ds"
    and "unat (len ds) + unat n + 1 \<le> unat (cap ds')" and "unat (len ds) + unat n + 1 < 2 ^ 64"
proof -
  have l: "unat (len ds) < 2 ^ 64 - 1" by (rule dyn_inv_len_lt[OF assms(1)])
  have fit: "unat (len ds) + unat n + 1 < 2 ^ 64"
    using assms(2) size_guard[OF l, of n] by (auto simp: dyn_str_grow_def split: if_splits)
  note u = unat_add3[OF fit]
  have "data ds' = Some (contents ds) \<and> len ds' = len ds \<and> unat (len ds) + unat n + 1 \<le> unat (cap ds')"
  proof (cases "len ds + n + 1 > cap ds")
    case True
    define c0 where "c0 = (if cap ds \<noteq> 0 then cap ds else 512)"
    have "c0 \<noteq> 0" by (simp add: c0_def)
    then obtain c' where "grow_cap (len ds + n + 1) c0 = Some c'" and "len ds + n + 1 \<le> c'"
      using grow_cap_returns by blast
    with assms(2) True show ?thesis
      using u by (auto simp: dyn_str_grow_def c0_def contents_def word_le_nat_alt split: if_splits)
  next
    case False
    with assms(2) have e: "ds' = ds" by (auto simp: dyn_str_grow_def split: if_splits)
    have "unat (len ds) + unat n + 1 \<le> unat (cap ds)"
      using False u by (simp add: not_less word_le_nat_alt)
    moreover from this have "data ds \<noteq> None"
      using assms(1) by (auto simp: dyn_inv_def split: option.splits)
    ultimately show ?thesis by (auto simp: e contents_def)
  qed
  with fit show "data ds' = Some (contents ds)" "len ds' = len ds"
    "unat (len ds) + unat n + 1 \<le> unat (cap ds')" "unat (len ds) + unat n + 1 < 2 ^ 64" by auto
qed

lemma dyn_str_grow_succeeds:
  assumes "dyn_inv ds" and "unat (len ds) + unat n + 1 < 2 ^ 64" and "\<forall>k. alloc k"
  shows "dyn_str_grow alloc n ds \<noteq> None"
proof -
  have "\<not> n > SIZE_MAX - len ds - 1"
    using size_guard[OF dyn_inv_len_lt[OF assms(1)], of n] assms(2) by simp
  moreover have "(if cap ds \<noteq> 0 then cap ds else 512) \<noteq> 0" by simp
  from grow_cap_returns[OF this] obtain c
    where "grow_cap (len ds + n + 1) (if cap ds \<noteq> 0 then cap ds else 512) = Some c" by blast
  ultimately show ?thesis using assms(3) by (auto simp: dyn_str_grow_def)
qed

lemma dyn_copy_correct:
  assumes "dyn_inv ds" and "dyn_str_grow alloc (of_nat (length s)) ds = Some ds'"
    and "s \<noteq> []" and "length s < 2 ^ 64"
  shows "dyn_inv (dyn_copy s ds')" and "contents (dyn_copy s ds') = contents ds @ s"
proof -
  have n: "(of_nat (length s) :: u64) \<noteq> 0" and u: "unat (of_nat (length s) :: u64) = length s"
    using assms(3,4) by (simp_all only: of_nat_length_nonzero unat_of_nat_u64 not_False_eq_True)
  note g = dyn_str_grow_fits[OF assms(1,2) n]
  have l: "unat (len ds') = length (contents ds)" using g(2) unat_len_contents[OF assms(1)] by simp
  have add: "unat (len ds' + of_nat (length s)) = length (contents ds) + length s"
    using g u l unat_add3(2)[of "len ds'" "of_nat (length s)"] by simp
  from g l show "contents (dyn_copy s ds') = contents ds @ s"
    by (simp add: dyn_copy_def contents_def)
  from g l u add show "dyn_inv (dyn_copy s ds')"
    by (simp add: dyn_copy_def dyn_inv_def word_less_nat_alt)
qed

lemma dyn_str_append_Some:
  assumes "dyn_inv ds" and "length s < 2 ^ 64" and "dyn_str_append alloc (Some s) ds = Some ds'"
  shows "dyn_inv ds' \<and> contents ds' = contents ds @ s"
proof (cases "s = []")
  case True
  with assms show ?thesis by (simp add: dyn_str_append_def)
next
  case False
  with assms(2) have "(of_nat (length s) :: u64) \<noteq> 0"
    by (intro of_nat_length_nonzero)
  with assms(3) obtain g where "dyn_str_grow alloc (of_nat (length s)) ds = Some g" "ds' = dyn_copy s g"
    by (auto simp: dyn_str_append_def Let_def split: if_splits option.splits)
  with dyn_copy_correct[OF assms(1) _ False assms(2)] show ?thesis by auto
qed

lemma dyn_str_append_succeeds:
  assumes "dyn_inv ds" and "length (contents ds) + length s + 1 < 2 ^ 64" and "\<forall>k. alloc k"
  shows "dyn_str_append alloc (Some s) ds \<noteq> None"
proof (cases "s = []")
  case True
  then show ?thesis by (simp add: dyn_str_append_def)
next
  case False
  let ?n = "of_nat (length s) :: u64"
  have n: "?n \<noteq> 0" and u: "unat ?n = length s"
    using False assms(2) by (intro of_nat_u64_nonzero unat_of_nat_u64; simp)+
  note l = unat_len_contents[OF assms(1)]
  have fit: "unat (len ds) + unat ?n + 1 < 2 ^ 64" using assms(2) u l by simp
  have guard: "\<not> ?n > SIZE_MAX - len ds - 1"
    using size_guard[OF dyn_inv_len_lt[OF assms(1)], of ?n] fit by simp
  from dyn_str_grow_succeeds[OF assms(1) fit assms(3)] obtain g where g: "dyn_str_grow alloc ?n ds = Some g"
    by blast
  note gf = dyn_str_grow_fits[OF assms(1) g n]
  have "\<not> cap g < len g + ?n + 1"
    using gf unat_add3(1)[OF fit] by (simp add: not_less word_le_nat_alt)
  with guard g gf(1) show ?thesis by (simp add: dyn_str_append_def Let_def)
qed

lemma dyn_str_append_len_eq: "dyn_str_append_len = dyn_str_append"
  by (simp add: fun_eq_iff dyn_str_append_len_def dyn_str_append_def)

interpretation dyn: text_sink "\<lambda>p. dyn_str_append alloc (Some p)" contents dyn_inv "\<lambda>n. n < 2 ^ 64"
  for alloc
  by unfold_locales (auto dest: dyn_str_append_Some)

interpretation dyn_ok: total_sink "\<lambda>p. dyn_str_append (\<lambda>_. True) (Some p)" contents dyn_inv
  "\<lambda>n. n + 1 < 2 ^ 64"
proof unfold_locales
  fix b :: DynString and s :: cstr and b' :: DynString
  assume "dyn_inv b" "length s + 1 < 2 ^ 64" "dyn_str_append (\<lambda>_. True) (Some s) b = Some b'"
  then have "dyn_inv b' \<and> contents b' = contents b @ s" by (intro dyn_str_append_Some) simp_all
  then show "contents b' = contents b @ s" and "dyn_inv b'" by simp_all
next
  fix b :: DynString and s :: cstr
  assume "dyn_inv b" "length (contents b) + length s + 1 < 2 ^ 64"
  then show "dyn_str_append (\<lambda>_. True) (Some s) b \<noteq> None" by (rule dyn_str_append_succeeds) simp
qed auto

section \<open>Properties\<close>

text \<open>Appending to a well-formed buffer either appends exactly the given bytes and keeps the
  representation invariant (the length is the number of bytes, and the terminator fits in the
  capacity), or aborts, which it does only when the allocator failed or the size would exceed
  \<open>size_t\<close>; the capacity re-check at the copy never fires otherwise.\<close>

theorem dyn_append_refines_append:
  assumes "dyn_inv ds" and "length s < 2 ^ 64"
  shows "case dyn_str_append alloc (Some s) ds of
      None \<Rightarrow> (\<exists>n. \<not> alloc n) \<or> 2 ^ 64 \<le> length (contents ds) + length s + 1
    | Some ds' \<Rightarrow> dyn_inv ds' \<and> contents ds' = contents ds @ s"
proof (cases "dyn_str_append alloc (Some s) ds")
  case None
  with dyn_str_append_succeeds[OF assms(1), of s alloc]
  have "\<not> (\<forall>n. alloc n) \<or> 2 ^ 64 \<le> length (contents ds) + length s + 1"
    using not_less by blast
  with None show ?thesis by simp
next
  case (Some ds')
  with dyn_str_append_Some[OF assms] show ?thesis by simp
qed

theorem dyn_append_refines_append_witness:
  "dyn_inv (dyn_str_new (\<lambda>n. n \<le> 1024)) \<and>
   (case dyn_str_append (\<lambda>n. n \<le> 1024) (Some ''abc'') (dyn_str_new (\<lambda>n. n \<le> 1024)) of
      None \<Rightarrow> (\<exists>n. \<not> n \<le> (1024::u64)) \<or> (2::nat) ^ 64 \<le> length (contents (dyn_str_new (\<lambda>n. n \<le> 1024))) + length ''abc'' + 1
    | Some ds' \<Rightarrow> dyn_inv ds' \<and> contents ds' = contents (dyn_str_new (\<lambda>n. n \<le> 1024)) @ ''abc'')"
proof -
  have i: "dyn_inv (dyn_str_new (\<lambda>n. n \<le> 1024))" by (simp add: dyn_inv_def dyn_str_new_def)
  have l: "length ''abc'' < 2 ^ 64" by simp
  from i dyn_append_refines_append[OF i l, of "\<lambda>n. n \<le> 1024"] show ?thesis by simp
qed

text \<open>The capacity loop of \<open>dyn_str_grow\<close> always ends, whatever was requested: with a capacity
  at least as large as the request and as the old capacity, without wrapping around.\<close>

theorem dyn_grow_loop_ends:
  "\<exists>c. grow_cap want (if cap ds \<noteq> 0 then cap ds else 512) = Some c \<and> want \<le> c \<and> cap ds \<le> c"
proof -
  have "(if cap ds \<noteq> 0 then cap ds else 512) \<noteq> 0" by simp
  from grow_cap_returns[OF this] obtain c where
    "grow_cap want (if cap ds \<noteq> 0 then cap ds else 512) = Some c" "want \<le> c"
    "(if cap ds \<noteq> 0 then cap ds else 512) \<le> c" by blast
  then show ?thesis by (auto split: if_splits)
qed

text \<open>Formatting into a well-formed buffer appends the formatted text, although this path has
  no capacity re-check of its own.\<close>

theorem dyn_appendf_appends:
  assumes "dyn_inv ds" and "length t < 2 ^ 31" and "dyn_str_appendf alloc t ds = Some ds'"
  shows "dyn_inv ds' \<and> contents ds' = contents ds @ t"
proof (cases "t = []")
  case True
  with assms show ?thesis by (simp add: dyn_str_appendf_def)
next
  case False
  with assms obtain g where "dyn_str_grow alloc (of_nat (length t)) ds = Some g" "ds' = dyn_copy t g"
    by (auto simp: dyn_str_appendf_def split: if_splits)
  with dyn_copy_correct[OF assms(1) _ False] assms(2) show ?thesis by simp
qed

theorem dyn_appendf_appends_witness:
  "\<exists>ds'. dyn_str_appendf (\<lambda>_. True) ''x=1'' (dyn_str_new (\<lambda>_. True)) = Some ds' \<and> contents ds' = ''x=1''"
proof -
  have i: "dyn_inv (dyn_str_new (\<lambda>_. True))" by (simp add: dyn_inv_def dyn_str_new_def)
  have l: "length ''x=1'' < 2 ^ 31" by simp
  have "dyn_str_appendf (\<lambda>_. True) ''x=1'' (dyn_str_new (\<lambda>_. True)) \<noteq> None"
    using dyn_str_grow_succeeds[OF i, of 3 "\<lambda>_. True"] by (simp add: dyn_str_appendf_def dyn_str_new_def)
  then obtain ds' where d: "dyn_str_appendf (\<lambda>_. True) ''x=1'' (dyn_str_new (\<lambda>_. True)) = Some ds'" by blast
  from dyn_appendf_appends[OF i l d] d show ?thesis by (auto simp: contents_def dyn_str_new_def)
qed

end
