(* ===== verification/CommonText.thy ===== *)
theory CommonText
  imports DynString
begin

text \<open>
  The text helpers of \<open>common.h\<close>: token estimation, extraction of a JSON object from free text,
  case-insensitive search and the check for a git object name. Counters are \<open>nat\<close>: they are
  bounded by the length of a string in memory.
\<close>

section \<open>count_estimated_tokens\<close>

definition is_token_break :: "char \<Rightarrow> bool" where
  "is_token_break ch = (let c = byte ch in
     c \<le> 32 \<or> (c \<ge> 33 \<and> c \<le> 47) \<or> (c \<ge> 58 \<and> c \<le> 64) \<or> (c \<ge> 91 \<and> c \<le> 96) \<or> (c \<ge> 123 \<and> c \<le> 126))"

fun token_loop :: "cstr \<Rightarrow> nat \<Rightarrow> nat \<Rightarrow> bool \<Rightarrow> nat \<times> nat \<times> bool" where
  "token_loop [] tokens char_count in_word = (tokens, char_count, in_word)"
| "token_loop (c # p) tokens char_count in_word =
     (let char_count = char_count + 1 in
      if is_token_break c then
        token_loop p (tokens + (if in_word then 1 else 0) + (if byte c > 32 then 1 else 0)) char_count False
      else token_loop p tokens char_count True)"

definition count_estimated_tokens :: "cstr option \<Rightarrow> nat" where
  "count_estimated_tokens text =
     (case text of None \<Rightarrow> 0
      | Some t \<Rightarrow>
        if t = [] then 0
        else case token_loop t 0 0 False of (tokens, char_count, in_word) \<Rightarrow>
          let tokens = tokens + (if in_word then 1 else 0);
              char_based = (char_count + 3) div 4
          in if tokens > char_based then tokens else char_based)"

section \<open>extract_json_object\<close>

text \<open>The scan from the first brace: what it takes up to the matching brace, and what is left. The depth is an
  \<open>int\<close> in C, whose overflow is undefined; it changes by at most one for each byte, so for a text below 2 GB it is
  the number kept here. \<open>brace_scan_int\<close> below says so against the depth at its width.\<close>

fun brace_scan :: "int \<Rightarrow> bool \<Rightarrow> bool \<Rightarrow> cstr \<Rightarrow> (cstr \<times> cstr) option" where
  "brace_scan depth in_string esc [] = None"
| "brace_scan depth in_string esc (c # p) =
     (let go = (\<lambda>d i e. prepend [c] (brace_scan d i e p)) in
      if esc then go depth in_string False
      else if c = BSL \<and> in_string then go depth in_string True
      else if c = DQ then go depth (\<not> in_string) False
      else if \<not> in_string then
        (if c = CHR ''{'' then go (depth + 1) in_string False
         else if c = CHR ''}'' then
           (if depth - 1 = 0 then Some ([c], p) else go (depth - 1) in_string False)
         else go depth in_string False)
      else go depth in_string False)"

fun brace_scan32 :: "32 word \<Rightarrow> bool \<Rightarrow> bool \<Rightarrow> cstr \<Rightarrow> (cstr \<times> cstr) option" where
  "brace_scan32 depth in_string esc [] = None"
| "brace_scan32 depth in_string esc (c # p) =
     (let go = (\<lambda>d i e. prepend [c] (brace_scan32 d i e p)) in
      if esc then go depth in_string False
      else if c = BSL \<and> in_string then go depth in_string True
      else if c = DQ then go depth (\<not> in_string) False
      else if \<not> in_string then
        (if c = CHR ''{'' then go (depth + 1) in_string False
         else if c = CHR ''}'' then
           (if depth - 1 = 0 then Some ([c], p) else go (depth - 1) in_string False)
         else go depth in_string False)
      else go depth in_string False)"

lemma brace_scan_int:
  "\<bar>d\<bar> + int (length p) < 2 ^ 31 \<Longrightarrow> brace_scan32 (word_of_int d) i e p = brace_scan d i e p"
proof (induction d i e p rule: brace_scan.induct)
  case (2 depth i e c p)
  have w: "(word_of_int depth :: 32 word) + 1 = word_of_int (depth + 1)" "(word_of_int depth :: 32 word) - 1 = word_of_int (depth - 1)"
    by simp_all
  have z: "(word_of_int (depth - 1) :: 32 word) = 0 \<longleftrightarrow> depth - 1 = 0"
  proof
    assume "(word_of_int (depth - 1) :: 32 word) = 0"
    then have "sint (word_of_int (depth - 1) :: 32 word) = 0" by simp
    moreover have "sint (word_of_int (depth - 1) :: 32 word) = depth - 1"
      unfolding int_word_sint using "2.prems" by simp
    ultimately show "depth - 1 = 0" by simp
  qed simp
  have r: "\<And>x a b. \<bar>x\<bar> + int (length p) < 2 ^ 31 \<Longrightarrow> brace_scan32 (word_of_int x) a b p = brace_scan x a b p"
    using "2.IH" by blast
  have ih: "brace_scan32 (word_of_int (depth + 1)) a b p = brace_scan (depth + 1) a b p"
    "brace_scan32 (word_of_int (depth - 1)) a b p = brace_scan (depth - 1) a b p"
    "brace_scan32 (word_of_int depth) a b p = brace_scan depth a b p" for a b
    by (rule r, use "2.prems" in simp)+
  show ?case unfolding brace_scan32.simps brace_scan.simps Let_def w z ih by (rule refl)
qed simp

text \<open>The object text, and the offset behind it in the input.\<close>

definition extract_json_object :: "cstr option \<Rightarrow> (cstr \<times> nat) option" where
  "extract_json_object text =
     (case text of None \<Rightarrow> None
      | Some t \<Rightarrow>
        (case strchr t (CHR ''{'') of None \<Rightarrow> None
         | Some start_ptr \<Rightarrow>
           (case brace_scan 0 False False start_ptr of None \<Rightarrow> None
            | Some (res, rest) \<Rightarrow> Some (res, length t - length rest))))"

section \<open>Searching and checking\<close>

fun ci_match :: "cstr \<Rightarrow> cstr \<Rightarrow> bool" where
  "ci_match [] s = True"
| "ci_match (x # xs) [] = False"
| "ci_match (x # xs) (y # ys) = (tolower x = tolower y \<and> ci_match xs ys)"

fun ci_search :: "cstr \<Rightarrow> cstr \<Rightarrow> bool" where
  "ci_search [] needle = False"
| "ci_search (c # s) needle = (ci_match needle (c # s) \<or> ci_search s needle)"

definition contains_case_insensitive :: "cstr option \<Rightarrow> cstr option \<Rightarrow> bool" where
  "contains_case_insensitive haystack needle =
     (case (haystack, needle) of
        (Some h, Some n) \<Rightarrow> if n = [] then True else ci_search h n
      | _ \<Rightarrow> False)"

definition is_valid_hex_sha :: "cstr option \<Rightarrow> bool" where
  "is_valid_hex_sha s =
     (case s of None \<Rightarrow> False | Some t \<Rightarrow> length t = 40 \<and> list_all isxdigit t)"

section \<open>Lemmas\<close>

lemma token_loop_bounds:
  "token_loop s t n w = (t', n', w') \<Longrightarrow> t + (if w then 1 else 0) \<le> n \<Longrightarrow>
     n' = n + length s \<and> t' + (if w' then 1 else 0) \<le> n'"
  by (induction s t n w rule: token_loop.induct) (fastforce simp: Let_def split: if_splits)+

lemma brace_scan_split: "brace_scan d i e s = Some (t, r) \<Longrightarrow> s = t @ r"
  by (induction s arbitrary: d i e t r) (auto simp: Let_def prepend_eq_Some split: if_splits)

lemma ci_search_iff: "ci_search h n \<longleftrightarrow> (\<exists>u v. h = u @ v \<and> v \<noteq> [] \<and> ci_match n v)"
proof (induction h)
  case (Cons c s)
  show ?case
  proof
    assume "ci_search (c # s) n"
    then consider "ci_match n (c # s)" | "ci_search s n" by auto
    then show "\<exists>u v. c # s = u @ v \<and> v \<noteq> [] \<and> ci_match n v"
    proof cases
      case 1
      then show ?thesis by (intro exI[of _ "[]"] exI[of _ "c # s"]) simp
    next
      case 2
      with Cons.IH obtain u v where "s = u @ v" "v \<noteq> []" "ci_match n v" by blast
      then show ?thesis by (intro exI[of _ "c # u"] exI[of _ v]) simp
    qed
  next
    assume "\<exists>u v. c # s = u @ v \<and> v \<noteq> [] \<and> ci_match n v"
    then obtain u v where "c # s = u @ v" "v \<noteq> []" "ci_match n v" by blast
    then show "ci_search (c # s) n" using Cons.IH by (cases u) auto
  qed
qed simp

lemma ci_match_append [simp]: "ci_match p (p @ t)"
  by (induction p) auto

section \<open>Properties\<close>

text \<open>The token estimate of a text of \<open>n\<close> bytes lies between \<open>n / 4\<close>, rounded up, and \<open>n\<close>;
  so a token budget bounds the bytes that are sent.\<close>

theorem token_estimate_bounds:
  "(length t + 3) div 4 \<le> count_estimated_tokens (Some t) \<and> count_estimated_tokens (Some t) \<le> length t"
proof (cases "t = []")
  case True
  then show ?thesis by (simp add: count_estimated_tokens_def)
next
  case False
  obtain a b w where l: "token_loop t 0 0 False = (a, b, w)" by (cases "token_loop t 0 0 False") auto
  from token_loop_bounds[OF l] have "b = length t" "a + (if w then 1 else 0) \<le> length t" by simp_all
  moreover have "(length t + 3) div 4 \<le> length t" using False by (cases t) auto
  ultimately show ?thesis using False l by (auto simp: count_estimated_tokens_def Let_def)
qed

end
