(* ===== verification/CNumber.thy ===== *)
theory CNumber
  imports Prelude
begin

text \<open>
  The two functions of the C library that \<open>minijson.c\<close> uses for numbers: \<open>strtod\<close> and \<open>printf\<close>
  with \<open>%.17g\<close>, on IEEE binary64 values in the default rounding mode and the C locale. A finite
  value is a sign, a significand below \<open>2 ^ 53\<close> and a power of two; exact rationals are pairs of
  naturals.
\<close>

datatype cdouble = DFin bool nat int | DInf bool | DNan bool

section \<open>Rounding a non-negative rational to binary64\<close>

fun bitlen :: "nat \<Rightarrow> nat" where
  "bitlen n = (if n = 0 then 0 else 1 + bitlen (n div 2))"

declare bitlen.simps [simp del]

fun ndigits :: "nat \<Rightarrow> nat" where
  "ndigits n = (if n < 10 then 1 else 1 + ndigits (n div 10))"

declare ndigits.simps [simp del]

text \<open>\<open>p / q\<close> to the nearest integer, ties to even.\<close>

definition round_half_even :: "nat \<Rightarrow> nat \<Rightarrow> nat" where
  "round_half_even p q =
     (let d = p div q; r = p mod q in
      if 2 * r < q then d else if 2 * r > q then d + 1 else if even d then d else d + 1)"

text \<open>\<open>p / (q * 2 ^ e)\<close> as a pair, for an exponent of either sign; likewise for powers of ten.\<close>

definition scale2 :: "nat \<Rightarrow> nat \<Rightarrow> int \<Rightarrow> nat \<times> nat" where
  "scale2 p q e = (if e \<ge> 0 then (p, q * 2 ^ nat e) else (p * 2 ^ nat (- e), q))"

definition scale10 :: "nat \<Rightarrow> nat \<Rightarrow> int \<Rightarrow> nat \<times> nat" where
  "scale10 p q e = (if e \<ge> 0 then (p, q * 10 ^ nat e) else (p * 10 ^ nat (- e), q))"

definition round_double :: "bool \<Rightarrow> nat \<Rightarrow> nat \<Rightarrow> cdouble" where
  "round_double neg p q =
     (if p = 0 then DFin neg 0 0
      else
        let k = int (bitlen p) - int (bitlen q);
            e0 = k - 53;
            e1 = (case scale2 p q e0 of (a, b) \<Rightarrow> if a \<ge> b * 2 ^ 53 then e0 + 1 else e0);
            e = max e1 (- 1074);
            m = (case scale2 p q e of (a, b) \<Rightarrow> round_half_even a b);
            (m', e') = (if m = 2 ^ 53 then (2 ^ 52, e + 1) else (m, e))
        in if e' > 971 then DInf neg else if m' = 0 then DFin neg 0 0 else DFin neg m' e')"

section \<open>strtod\<close>

definition digit_val :: "char \<Rightarrow> nat" where
  "digit_val c =
     (if isdigit c then byte c - 48
      else if 97 \<le> byte c \<and> byte c \<le> 102 then byte c - 87 else byte c - 55)"

definition digits_val :: "nat \<Rightarrow> cstr \<Rightarrow> nat" where
  "digits_val base ds = foldl (\<lambda>a c. a * base + digit_val c) 0 ds"

definition ci_lit :: "cstr \<Rightarrow> cstr \<Rightarrow> cstr option" where
  "ci_lit lit s = (if map tolower (take (length lit) s) = lit then Some (drop (length lit) s) else None)"

definition split_sign :: "cstr \<Rightarrow> bool \<times> cstr" where
  "split_sign s =
     (case s of [] \<Rightarrow> (False, s)
      | c # u \<Rightarrow> if c = CHR ''-'' then (True, u) else if c = CHR ''+'' then (False, u) else (False, s))"

text \<open>An optional exponent part: the letter, an optional sign and at least one digit.\<close>

definition scan_exp :: "char \<Rightarrow> cstr \<Rightarrow> int \<times> cstr" where
  "scan_exp letter s =
     (case s of [] \<Rightarrow> (0, s)
      | c # t \<Rightarrow>
        if tolower c \<noteq> letter then (0, s)
        else
          let (neg, u) = split_sign t;
              ds = takeWhile isdigit u
          in if ds = [] then (0, s)
             else ((if neg then - int (digits_val 10 ds) else int (digits_val 10 ds)), dropWhile isdigit u))"

text \<open>Digits, an optional point and more digits: integer part, fraction part, rest.\<close>

definition scan_mantissa :: "(char \<Rightarrow> bool) \<Rightarrow> cstr \<Rightarrow> cstr \<times> cstr \<times> cstr" where
  "scan_mantissa ok s =
     (let ip = takeWhile ok s; t = dropWhile ok s in
      case t of [] \<Rightarrow> (ip, [], t)
      | c # u \<Rightarrow> if c = CHR ''.'' \<and> (ip \<noteq> [] \<or> (u \<noteq> [] \<and> ok (hd u)))
                then (ip, takeWhile ok u, dropWhile ok u) else (ip, [], t))"

definition strtod_dec :: "bool \<Rightarrow> cstr \<Rightarrow> (cdouble \<times> cstr) option" where
  "strtod_dec neg s =
     (case scan_mantissa isdigit s of (ip, fp, t) \<Rightarrow>
        if ip = [] \<and> fp = [] then None
        else case scan_exp (CHR ''e'') t of (e, r) \<Rightarrow>
          (case scale10 (digits_val 10 (ip @ fp)) 1 (int (length fp) - e) of (p, q) \<Rightarrow>
             Some (round_double neg p q, r)))"

definition strtod_hex :: "bool \<Rightarrow> cstr \<Rightarrow> (cdouble \<times> cstr) option" where
  "strtod_hex neg s =
     (case scan_mantissa isxdigit s of (ip, fp, t) \<Rightarrow>
        if ip = [] \<and> fp = [] then None
        else case scan_exp (CHR ''p'') t of (e, r) \<Rightarrow>
          (case scale2 (digits_val 16 (ip @ fp)) 1 (4 * int (length fp) - e) of (p, q) \<Rightarrow>
             Some (round_double neg p q, r)))"

definition scan_nan :: "cstr \<Rightarrow> cstr" where
  "scan_nan s =
     (case s of [] \<Rightarrow> s
      | c # t \<Rightarrow>
        if c = CHR ''('' then
          (case dropWhile (\<lambda>d. isalnum d \<or> d = CHR ''_'') t of
             [] \<Rightarrow> s | d # u \<Rightarrow> if d = CHR '')'' then u else s)
        else s)"

text \<open>The result is \<open>None\<close> where \<open>end == src\<close>, otherwise the value and the text at \<open>end\<close>.\<close>

definition strtod :: "cstr \<Rightarrow> (cdouble \<times> cstr) option" where
  "strtod s0 =
     (let s = dropWhile isspace s0;
          (neg, t) = split_sign s
      in case ci_lit ''infinity'' t of Some r \<Rightarrow> Some (DInf neg, r)
       | None \<Rightarrow> case ci_lit ''inf'' t of Some r \<Rightarrow> Some (DInf neg, r)
       | None \<Rightarrow> case ci_lit ''nan'' t of Some r \<Rightarrow> Some (DNan neg, scan_nan r)
       | None \<Rightarrow> case ci_lit ''0x'' t of
           Some r \<Rightarrow> (case strtod_hex neg r of Some x \<Rightarrow> Some x | None \<Rightarrow> strtod_dec neg t)
         | None \<Rightarrow> strtod_dec neg t)"

section \<open>printf with %.17g\<close>

definition dec_digit :: "nat \<Rightarrow> char" where
  "dec_digit n = char_of (48 + n)"

fun dec_text :: "nat \<Rightarrow> cstr" where
  "dec_text n = (if n < 10 then [dec_digit n] else dec_text (n div 10) @ [dec_digit (n mod 10)])"

declare dec_text.simps [simp del]

definition strip_zeros :: "cstr \<Rightarrow> cstr" where
  "strip_zeros s = rskip (\<lambda>c. c = CHR ''0'') s"

definition with_point :: "cstr \<Rightarrow> cstr \<Rightarrow> cstr" where
  "with_point ip fp = (if strip_zeros fp = [] then ip else ip @ ''.'' @ strip_zeros fp)"

text \<open>Seventeen significant digits of \<open>p / q\<close> and the decimal exponent of the first one.\<close>

definition dec17 :: "nat \<Rightarrow> nat \<Rightarrow> nat \<times> int" where
  "dec17 p q =
     (let dl = int (ndigits p) - int (ndigits q);
          x = (case scale10 p q dl of (a, b) \<Rightarrow> if a \<ge> b then dl else dl - 1);
          d = (case scale10 p q (x - 16) of (a, b) \<Rightarrow> round_half_even a b)
      in if d = 10 ^ 17 then (10 ^ 16, x + 1) else (d, x))"

definition exp_text :: "int \<Rightarrow> cstr" where
  "exp_text x = (if x < 0 then ''e-'' else ''e+'') @
     (let t = dec_text (nat \<bar>x\<bar>) in if length t < 2 then CHR ''0'' # t else t)"

definition g17_digits :: "cstr \<Rightarrow> int \<Rightarrow> cstr" where
  "g17_digits ds x =
     (if x < - 4 \<or> x \<ge> 17 then with_point (take 1 ds) (drop 1 ds) @ exp_text x
      else if x < 0 then with_point ''0'' (replicate (nat (- x) - 1) (CHR ''0'') @ ds)
      else with_point (take (Suc (nat x)) ds) (drop (Suc (nat x)) ds))"

definition fmt_g17 :: "cdouble \<Rightarrow> cstr" where
  "fmt_g17 x =
     (case x of
        DInf neg \<Rightarrow> (if neg then ''-inf'' else ''inf'')
      | DNan neg \<Rightarrow> (if neg then ''-nan'' else ''nan'')
      | DFin neg m e \<Rightarrow> (if neg then ''-'' else []) @
          (if m = 0 then ''0''
           else case scale2 m 1 (- e) of (p, q) \<Rightarrow>
             (case dec17 p q of (d, y) \<Rightarrow> g17_digits (dec_text d) y)))"

section \<open>The scanners never run backwards\<close>

lemma ci_lit_le [clen]: "ci_lit l s = Some r \<Longrightarrow> length r \<le> length s"
  by (auto simp: ci_lit_def split: if_splits)

lemma split_sign_le [clen]: "split_sign s = (neg, u) \<Longrightarrow> length u \<le> length s"
  by (auto simp: split_sign_def split: list.splits if_splits)

lemma scan_exp_le [clen]: "scan_exp l s = (e, r) \<Longrightarrow> length r \<le> length s"
proof (cases s)
  case (Cons c t)
  obtain neg u where sg: "split_sign t = (neg, u)" by (cases "split_sign t") auto
  have "length (dropWhile isdigit u) \<le> length u" by (rule length_dropWhile_le)
  moreover assume "scan_exp l s = (e, r)"
  ultimately show ?thesis
    using Cons sg split_sign_le[OF sg] by (auto simp: scan_exp_def Let_def split: if_splits)
qed (simp add: scan_exp_def)

lemma scan_mantissa_le [clen]: "scan_mantissa ok s = (ip, fp, r) \<Longrightarrow> length r \<le> length s"
proof -
  assume h: "scan_mantissa ok s = (ip, fp, r)"
  have d: "length (dropWhile ok s) \<le> length s" by (rule length_dropWhile_le)
  show ?thesis
  proof (cases "dropWhile ok s")
    case Nil
    with h show ?thesis by (simp add: scan_mantissa_def Let_def)
  next
    case (Cons c u)
    with h have "r = dropWhile ok u \<or> r = c # u"
      by (auto simp: scan_mantissa_def Let_def split: if_splits)
    then have "length r \<le> length (c # u)" using length_dropWhile_le[of ok u] by auto
    with d Cons show ?thesis by simp
  qed
qed

lemma strtod_dec_le [clen]: "strtod_dec neg s = Some (x, r) \<Longrightarrow> length r \<le> length s"
  by (fastforce simp: strtod_dec_def split: prod.splits if_splits dest: scan_mantissa_le scan_exp_le)

lemma strtod_hex_le [clen]: "strtod_hex neg s = Some (x, r) \<Longrightarrow> length r \<le> length s"
  by (fastforce simp: strtod_hex_def split: prod.splits if_splits dest: scan_mantissa_le scan_exp_le)

lemma scan_nan_le [clen]: "length (scan_nan s) \<le> length s"
proof (cases s)
  case (Cons c t)
  have "length (dropWhile (\<lambda>d. isalnum d \<or> d = CHR ''_'') t) \<le> length t" by (rule length_dropWhile_le)
  with Cons show ?thesis
    by (auto simp: scan_nan_def split: list.splits)
qed (simp add: scan_nan_def)

lemma strtod_le: "strtod s0 = Some (x, r) \<Longrightarrow> length r \<le> length s0"
proof -
  assume h: "strtod s0 = Some (x, r)"
  obtain neg t where sg: "split_sign (dropWhile isspace s0) = (neg, t)"
    by (cases "split_sign (dropWhile isspace s0)") auto
  have t: "length t \<le> length s0"
    using split_sign_le[OF sg] length_dropWhile_le[of isspace s0] by linarith
  have "length r \<le> length t"
    using h unfolding strtod_def Let_def sg
    by (fastforce split: option.splits dest: ci_lit_le strtod_hex_le strtod_dec_le
        intro: order_trans[OF scan_nan_le])
  with t show ?thesis by simp
qed

section \<open>A number ends at JSON punctuation\<close>

definition json_stop :: "cstr \<Rightarrow> bool" where
  "json_stop r \<longleftrightarrow> r = [] \<or> hd r = CHR '','' \<or> hd r = CHR '']'' \<or> hd r = CHR ''}''"

definition rejects_stop :: "(char \<Rightarrow> bool) \<Rightarrow> bool" where
  "rejects_stop ok \<longleftrightarrow> \<not> ok (CHR '','') \<and> \<not> ok (CHR '']'') \<and> \<not> ok (CHR ''}'')"

lemma rejects_stop_classes [simp]:
  "rejects_stop isdigit" "rejects_stop isxdigit" "rejects_stop isspace"
  "rejects_stop (\<lambda>d. isalnum d \<or> d = CHR ''_'')"
  by (simp_all add: rejects_stop_def cdefs byte_def)

lemma rejects_hd: "rejects_stop ok \<Longrightarrow> json_stop (c # r) \<Longrightarrow> \<not> ok c"
  by (auto simp: rejects_stop_def json_stop_def)

lemma takeWhile_stop: "rejects_stop ok \<Longrightarrow> json_stop r \<Longrightarrow> takeWhile ok (t @ r) = takeWhile ok t"
  by (induction t) (cases r; auto dest: rejects_hd)+

lemma dropWhile_stop: "rejects_stop ok \<Longrightarrow> json_stop r \<Longrightarrow> dropWhile ok (t @ r) = dropWhile ok t @ r"
  by (induction t) (cases r; auto dest: rejects_hd)+

lemma json_stop_Cons: "json_stop (c # r) \<Longrightarrow> c = CHR '','' \<or> c = CHR '']'' \<or> c = CHR ''}''"
  by (simp add: json_stop_def)

lemma tolower_stop: "json_stop (c # r) \<Longrightarrow> tolower c = c \<and> c \<notin> set ''-+.infty(naexp0_''"
  by (auto dest!: json_stop_Cons simp: tolower_def isupper_def byte_def)

lemma scan_mantissa_stop:
  assumes "rejects_stop ok" "json_stop r" "scan_mantissa ok t = (ip, fp, u)"
  shows "scan_mantissa ok (t @ r) = (ip, fp, u @ r)"
proof -
  note tw = takeWhile_stop[OF assms(1,2)] and dw = dropWhile_stop[OF assms(1,2)]
  show ?thesis
  proof (cases "dropWhile ok t")
    case Nil
    show ?thesis
    proof (cases r)
      case Nil
      with assms show ?thesis by simp
    next
      case (Cons c v)
      with assms(2) have "c \<noteq> CHR ''.''" by (auto dest: json_stop_Cons)
      have "scan_mantissa ok t = (takeWhile ok t, [], [])"
        unfolding scan_mantissa_def Let_def Nil by simp
      moreover have "scan_mantissa ok (t @ r) = (takeWhile ok t, [], r)"
        unfolding scan_mantissa_def Let_def tw dw Nil unfolding Cons using \<open>c \<noteq> CHR ''.''\<close> by simp
      ultimately show ?thesis using assms(3) by simp
    qed
  next
    case (Cons c v)
    have h: "(v @ r \<noteq> [] \<and> ok (hd (v @ r))) = (v \<noteq> [] \<and> ok (hd v))"
      using assms(1,2) by (cases v; cases r; auto dest: rejects_hd)
    have a: "scan_mantissa ok t = (if c = CHR ''.'' \<and> (takeWhile ok t \<noteq> [] \<or> v \<noteq> [] \<and> ok (hd v))
        then (takeWhile ok t, takeWhile ok v, dropWhile ok v) else (takeWhile ok t, [], c # v))"
      unfolding scan_mantissa_def Let_def Cons by simp
    have "scan_mantissa ok (t @ r) = (if c = CHR ''.'' \<and> (takeWhile ok t \<noteq> [] \<or> v \<noteq> [] \<and> ok (hd v))
        then (takeWhile ok t, takeWhile ok v, dropWhile ok v @ r) else (takeWhile ok t, [], c # v @ r))"
      unfolding scan_mantissa_def Let_def tw dw Cons append_Cons list.case h by (rule refl)
    with a assms(3) show ?thesis
      by (cases "c = CHR ''.'' \<and> (takeWhile ok t \<noteq> [] \<or> v \<noteq> [] \<and> ok (hd v))")
        (simp_all only: if_True if_False prod.inject simp_thms append_Cons append_Nil)
  qed
qed

lemma split_sign_stop:
  assumes "json_stop r" "split_sign t = (neg, u)"
  shows "split_sign (t @ r) = (neg, u @ r)"
proof (cases t)
  case Nil
  with assms show ?thesis by (cases r) (auto simp: split_sign_def dest: json_stop_Cons)
next
  case (Cons c v)
  with assms show ?thesis by (simp add: split_sign_def split: if_splits)
qed

lemma scan_exp_stop:
  assumes "json_stop r" "letter \<in> set ''ep''" "scan_exp letter t = (e, u)"
  shows "scan_exp letter (t @ r) = (e, u @ r)"
proof (cases t)
  case Nil
  with assms tolower_stop[of "hd r" "tl r"] show ?thesis by (cases r) (auto simp: scan_exp_def)
next
  case (Cons c t')
  obtain neg v where sg: "split_sign t' = (neg, v)" by (cases "split_sign t'") auto
  have tr: "t @ r = c # (t' @ r)" using Cons by simp
  show ?thesis
  proof (cases "tolower c \<noteq> letter \<or> takeWhile isdigit v = []")
    case True
    then have "scan_exp letter t = (0, t)" "scan_exp letter (t @ r) = (0, t @ r)"
      unfolding tr unfolding Cons scan_exp_def list.case Let_def split_sign_stop[OF assms(1) sg] sg prod.case
        takeWhile_stop[OF rejects_stop_classes(1) assms(1)] by auto
    with assms(3) show ?thesis by simp
  next
    case False
    then have f: "tolower c = letter" "takeWhile isdigit v \<noteq> []" by auto
    have "scan_exp letter (t @ r) = (fst (scan_exp letter t), snd (scan_exp letter t) @ r)"
      unfolding tr unfolding Cons scan_exp_def list.case Let_def split_sign_stop[OF assms(1) sg] sg prod.case
        takeWhile_stop[OF rejects_stop_classes(1) assms(1)] dropWhile_stop[OF rejects_stop_classes(1) assms(1)]
      using f by (simp del: takeWhile_eq_Nil_iff)
    with assms(3) show ?thesis by simp
  qed
qed

lemma ci_lit_stop:
  assumes "json_stop r" "set lit \<subseteq> set ''infty(naexp0''"
  shows "ci_lit lit (t @ r) = map_option (\<lambda>u. u @ r) (ci_lit lit t)"
proof (cases "length lit \<le> length t")
  case True
  then show ?thesis by (simp add: ci_lit_def)
next
  case False
  then have n: "ci_lit lit t = None"
    by (auto simp: ci_lit_def dest: arg_cong[where f = length])
  show ?thesis
  proof (cases r)
    case Nil
    with n show ?thesis by simp
  next
    case (Cons c v)
    have "ci_lit lit (t @ r) = None"
    proof (rule ccontr)
      assume "ci_lit lit (t @ r) \<noteq> None"
      then have m: "map tolower (take (length lit) (t @ r)) = lit"
        by (auto simp: ci_lit_def split: if_splits)
      have "c \<in> set (take (length lit) (t @ r))"
        using False Cons by (auto simp: take_Cons' not_le)
      then have "tolower c \<in> set lit" using m by (metis image_eqI set_map)
      moreover have "tolower c \<notin> set ''infty(naexp0''"
        using tolower_stop[of c v] assms(1) Cons by simp
      ultimately show False using assms(2) by blast
    qed
    with n show ?thesis by simp
  qed
qed

lemma strtod_dec_stop:
  assumes "json_stop r"
  shows "strtod_dec neg (t @ r) = map_option (\<lambda>(x, u). (x, u @ r)) (strtod_dec neg t)"
proof -
  obtain ip fp u where m: "scan_mantissa isdigit t = (ip, fp, u)" by (metis prod_cases3)
  obtain e v where x: "scan_exp (CHR ''e'') u = (e, v)" by (cases "scan_exp (CHR ''e'') u") auto
  have "CHR ''e'' \<in> set ''ep''" by simp
  with m x show ?thesis
    by (simp add: strtod_dec_def scan_mantissa_stop[OF _ assms m] scan_exp_stop[OF assms _ x] split: prod.splits)
qed

lemma strtod_hex_stop:
  assumes "json_stop r"
  shows "strtod_hex neg (t @ r) = map_option (\<lambda>(x, u). (x, u @ r)) (strtod_hex neg t)"
proof -
  obtain ip fp u where m: "scan_mantissa isxdigit t = (ip, fp, u)" by (metis prod_cases3)
  obtain e v where x: "scan_exp (CHR ''p'') u = (e, v)" by (cases "scan_exp (CHR ''p'') u") auto
  have "CHR ''p'' \<in> set ''ep''" by simp
  with m x show ?thesis
    by (simp add: strtod_hex_def scan_mantissa_stop[OF _ assms m] scan_exp_stop[OF assms _ x] split: prod.splits)
qed

lemma scan_nan_stop: "json_stop r \<Longrightarrow> scan_nan (t @ r) = scan_nan t @ r"
proof (cases t)
  case Nil
  assume "json_stop r"
  with Nil show ?thesis by (cases r) (auto simp: scan_nan_def dest: json_stop_Cons)
next
  case (Cons c v)
  assume r: "json_stop r"
  let ?d = "dropWhile (\<lambda>d. isalnum d \<or> d = CHR ''_'')"
  have d: "?d (v @ r) = ?d v @ r" by (rule dropWhile_stop[OF _ r]) simp
  have e: "scan_nan (c # w) = (if c = CHR ''('' then
      (case ?d w of [] \<Rightarrow> c # w | d # u \<Rightarrow> if d = CHR '')'' then u else c # w) else c # w)" for w
    by (simp add: scan_nan_def)
  have "scan_nan (c # (v @ r)) = scan_nan (c # v) @ r"
  proof (cases "?d v")
    case Nil
    show ?thesis unfolding e d Nil using r by (cases r) (auto dest: json_stop_Cons)
  next
    case (Cons d' w)
    show ?thesis unfolding e d Cons by simp
  qed
  with Cons show ?thesis by simp
qed

lemma strtod_stop:
  assumes "json_stop r"
  shows "strtod (t @ r) = map_option (\<lambda>(x, u). (x, u @ r)) (strtod t)"
proof -
  obtain neg v where sg: "split_sign (dropWhile isspace t) = (neg, v)"
    by (cases "split_sign (dropWhile isspace t)") auto
  note d = dropWhile_stop[OF rejects_stop_classes(3) assms]
  have lits: "ci_lit l (v @ r) = map_option (\<lambda>u. u @ r) (ci_lit l v)"
    if "l \<in> {''infinity'', ''inf'', ''nan'', ''0x''}" for l
    by (rule ci_lit_stop[OF assms]) (use that in auto)
  define core where "core neg v = (case ci_lit ''infinity'' v of Some r \<Rightarrow> Some (DInf neg, r)
       | None \<Rightarrow> case ci_lit ''inf'' v of Some r \<Rightarrow> Some (DInf neg, r)
       | None \<Rightarrow> case ci_lit ''nan'' v of Some r \<Rightarrow> Some (DNan neg, scan_nan r)
       | None \<Rightarrow> case ci_lit ''0x'' v of
           Some r \<Rightarrow> (case strtod_hex neg r of Some x \<Rightarrow> Some x | None \<Rightarrow> strtod_dec neg v)
         | None \<Rightarrow> strtod_dec neg v)" for neg v
  have st: "strtod w = (case split_sign (dropWhile isspace w) of (n, z) \<Rightarrow> core n z)" for w
    by (simp add: strtod_def core_def Let_def)
  let ?ext = "map_option (\<lambda>(x, u). (x, u @ r))"
  have "core neg (v @ r) = ?ext (core neg v)"
  proof (cases "ci_lit ''infinity'' v")
    case N1: None
    show ?thesis
    proof (cases "ci_lit ''inf'' v")
      case N2: None
      show ?thesis
      proof (cases "ci_lit ''nan'' v")
        case N3: None
        show ?thesis
        proof (cases "ci_lit ''0x'' v")
          case None
          then show ?thesis by (simp add: core_def lits N1 N2 N3 strtod_dec_stop[OF assms])
        next
          case (Some w)
          then show ?thesis
            by (cases "strtod_hex neg w")
              (auto simp: core_def lits N1 N2 N3 strtod_dec_stop[OF assms] strtod_hex_stop[OF assms])
        qed
      next
        case (Some w)
        then show ?thesis by (simp add: core_def lits N1 N2 scan_nan_stop[OF assms])
      qed
    next
      case (Some w)
      then show ?thesis by (simp add: core_def lits N1)
    qed
  next
    case (Some w)
    then show ?thesis by (simp add: core_def lits)
  qed
  then show ?thesis unfolding st d split_sign_stop[OF assms sg] sg prod.case .
qed

section \<open>The alphabet of a printed number\<close>

definition number_char :: "char \<Rightarrow> bool" where
  "number_char c \<longleftrightarrow> c \<in> set ''0123456789+-.einfa''"

definition numeric :: "cstr \<Rightarrow> bool" where
  "numeric s \<longleftrightarrow> (\<forall>c \<in> set s. number_char c)"

lemma numeric_simps [simp]:
  "numeric []" "numeric (s @ t) \<longleftrightarrow> numeric s \<and> numeric t"
  "numeric (c # s) \<longleftrightarrow> number_char c \<and> numeric s"
  by (auto simp: numeric_def)

lemma number_char_simps [simp]:
  "number_char (CHR ''0'')" "number_char (CHR ''.'')" "number_char (CHR ''e'')" "number_char (CHR ''+'')"
  "number_char (CHR ''-'')" "number_char (CHR ''i'')" "number_char (CHR ''n'')" "number_char (CHR ''f'')"
  "number_char (CHR ''a'')"
  by (simp_all add: number_char_def)

lemma numeric_sub: "numeric s \<Longrightarrow> set t \<subseteq> set s \<Longrightarrow> numeric t"
  by (auto simp: numeric_def)

lemma numeric_parts: "numeric s \<Longrightarrow> numeric (take n s)" "numeric s \<Longrightarrow> numeric (drop n s)"
  "numeric s \<Longrightarrow> numeric (rskip P s)"
  by (rule numeric_sub, assumption, simp add: set_take_subset set_drop_subset set_rskip)+

lemma dec_digit_in: "n < 10 \<Longrightarrow> dec_digit n \<in> set ''0123456789''"
proof -
  have "list_all (\<lambda>n. dec_digit n \<in> set ''0123456789'') [0..<10]" by code_simp
  then show "n < 10 \<Longrightarrow> dec_digit n \<in> set ''0123456789''" by (simp add: list_all_iff)
qed

lemma dec_text_digits: "set (dec_text n) \<subseteq> set ''0123456789'' \<and> dec_text n \<noteq> []"
proof (induction n rule: dec_text.induct)
  case (1 n)
  show ?case
  proof (cases "n < 10")
    case True
    then show ?thesis using dec_digit_in[of n] by (simp add: dec_text.simps[of n])
  next
    case False
    have "dec_digit (n mod 10) \<in> set ''0123456789''" by (rule dec_digit_in) simp
    with 1 False show ?thesis by (simp add: dec_text.simps[of n])
  qed
qed

lemma numeric_dec_text: "numeric (dec_text n)"
proof (induction n rule: dec_text.induct)
  case (1 n)
  have d: "numeric [dec_digit k]" if "k < 10" for k
    using dec_digit_in[OF that] by (auto simp: number_char_def)
  from 1 show ?case
    using d[of n] d[of "n mod 10"] by (cases "n < 10") (simp_all add: dec_text.simps[of n] del: numeric_simps(3))
qed

lemma numeric_with_point: "numeric ip \<Longrightarrow> numeric fp \<Longrightarrow> numeric (with_point ip fp)"
  by (simp add: with_point_def strip_zeros_def numeric_parts)

lemma numeric_exp_text: "numeric (exp_text x)"
  using numeric_dec_text[of "nat \<bar>x\<bar>"] by (simp add: exp_text_def Let_def)

lemma numeric_replicate: "numeric (replicate n (CHR ''0''))"
  by (induction n) simp_all

lemma numeric_g17_digits: "numeric ds \<Longrightarrow> numeric (g17_digits ds x)"
  by (simp add: g17_digits_def numeric_with_point numeric_exp_text numeric_parts numeric_replicate)

lemma numeric_fmt_g17: "numeric (fmt_g17 x)"
proof (cases x)
  case (DFin neg m e)
  have "numeric (case scale2 m 1 (- e) of (p, q) \<Rightarrow> case dec17 p q of (d, y) \<Rightarrow> g17_digits (dec_text d) y)"
    by (simp split: prod.split add: numeric_g17_digits numeric_dec_text)
  with DFin show ?thesis by (simp add: fmt_g17_def)
qed (simp_all add: fmt_g17_def)

section \<open>A worked value: -1.5\<close>

lemma round_example: "round_double True 15 10 = DFin True 6755399441055744 (-52)"
  by (simp add: round_double_def bitlen.simps scale2_def round_half_even_def)

lemma fmt_example: "fmt_g17 (DFin True 6755399441055744 (-52)) = ''-1.5''"
proof -
  have d: "dec17 6755399441055744 4503599627370496 = (15000000000000000, 0)"
    by (simp add: dec17_def scale10_def ndigits.simps round_half_even_def)
  have t: "dec_text 15000000000000000 = ''15000000000000000''"
    by (simp add: dec_text.simps dec_digit_def) code_simp
  have "g17_digits ''15000000000000000'' 0 = ''1.5''" by code_simp
  then show ?thesis by (simp add: fmt_g17_def scale2_def d t)
qed

lemma scan_example:
  "split_sign (dropWhile isspace ''-1.5'') = (True, ''1.5'')" "ci_lit ''infinity'' ''1.5'' = None"
  "ci_lit ''inf'' ''1.5'' = None" "ci_lit ''nan'' ''1.5'' = None" "ci_lit ''0x'' ''1.5'' = None"
  "scan_mantissa isdigit ''1.5'' = (''1'', ''5'', [])" "digits_val 10 ''15'' = 15"
  "scan_exp (CHR ''e'') [] = (0, [])"
  by code_simp+

lemma strtod_example: "strtod ''-1.5'' = Some (DFin True 6755399441055744 (-52), [])"
  unfolding strtod_def scan_example(1) Let_def prod.case scan_example(2-5) option.case strtod_dec_def
    scan_example(6)
  using scan_example(7,8) by (simp add: scale10_def round_example)

section \<open>Decimal text reads as its number\<close>

lemma digits_snoc: "digits_val 10 (s @ [c]) = digits_val 10 s * 10 + digit_val c"
  by (simp add: digits_val_def)

lemma digit_val_digit: "n < 10 \<Longrightarrow> digit_val (dec_digit n) = n"
proof -
  have "list_all (\<lambda>n. digit_val (dec_digit n) = n) [0..<10]" by code_simp
  then show "n < 10 \<Longrightarrow> digit_val (dec_digit n) = n" by (simp add: list_all_iff)
qed

lemma digits_dec_text: "digits_val 10 (dec_text n) = n"
proof (induction n rule: dec_text.induct)
  case (1 n)
  show ?case
  proof (cases "n < 10")
    case True
    then show ?thesis by (subst dec_text.simps) (simp add: digits_val_def digit_val_digit)
  next
    case False
    with 1 show ?thesis by (subst dec_text.simps) (simp add: digits_snoc digit_val_digit)
  qed
qed

end
