(* ===== verification/MiniJson.thy ===== *)
theory MiniJson
  imports CommonText CNumber
begin

text \<open>
  \<open>minijson.c\<close>: the JSON values, parser, accessors and serialiser. A value is a datatype with the
  source's constructors; the members of an object keep their order and duplicates, as in the
  \<open>members\<close> array. The capacity bookkeeping of the arrays is memory management and is not part of
  the model. A parser takes the text at \<open>*src\<close> and returns the value and the text at the new
  \<open>*src\<close>; \<open>None\<close> is a NULL result, after which no caller looks at \<open>*src\<close> again.
\<close>

datatype JsonValue =
    JSON_NULL
  | JSON_BOOL bool
  | JSON_NUMBER cdouble
  | JSON_STRING cstr
  | JSON_ARRAY "JsonValue list"
  | JSON_OBJECT "(cstr \<times> JsonValue) list"

section \<open>Building and reading values\<close>

definition json_create_object :: JsonValue where
  "json_create_object = JSON_OBJECT []"

definition json_create_array :: JsonValue where
  "json_create_array = JSON_ARRAY []"

definition json_create_string :: "cstr option \<Rightarrow> JsonValue" where
  "json_create_string val = JSON_STRING (case val of None \<Rightarrow> [] | Some s \<Rightarrow> s)"

definition json_create_number :: "cdouble \<Rightarrow> JsonValue" where
  "json_create_number val = JSON_NUMBER val"

definition json_create_bool :: "bool \<Rightarrow> JsonValue" where
  "json_create_bool val = JSON_BOOL val"

definition json_create_null :: JsonValue where
  "json_create_null = JSON_NULL"

fun json_obj_add :: "JsonValue \<Rightarrow> cstr \<Rightarrow> JsonValue \<Rightarrow> JsonValue" where
  "json_obj_add (JSON_OBJECT ms) key val = JSON_OBJECT (ms @ [(key, val)])"
| "json_obj_add obj key val = obj"

fun json_arr_add :: "JsonValue \<Rightarrow> JsonValue \<Rightarrow> JsonValue" where
  "json_arr_add (JSON_ARRAY xs) val = JSON_ARRAY (xs @ [val])"
| "json_arr_add arr val = arr"

fun member_get :: "(cstr \<times> JsonValue) list \<Rightarrow> cstr \<Rightarrow> JsonValue option" where
  "member_get [] key = None"
| "member_get ((k, v) # ms) key = (if k = key then Some v else member_get ms key)"

definition json_obj_get :: "JsonValue option \<Rightarrow> cstr \<Rightarrow> JsonValue option" where
  "json_obj_get obj key = (case obj of Some (JSON_OBJECT ms) \<Rightarrow> member_get ms key | _ \<Rightarrow> None)"

definition json_obj_get_str :: "JsonValue option \<Rightarrow> cstr \<Rightarrow> cstr option" where
  "json_obj_get_str obj key = (case json_obj_get obj key of Some (JSON_STRING s) \<Rightarrow> Some s | _ \<Rightarrow> None)"

definition json_obj_get_num :: "JsonValue option \<Rightarrow> cstr \<Rightarrow> cdouble \<Rightarrow> cdouble" where
  "json_obj_get_num obj key def = (case json_obj_get obj key of Some (JSON_NUMBER n) \<Rightarrow> n | _ \<Rightarrow> def)"

definition json_obj_get_bool :: "JsonValue option \<Rightarrow> cstr \<Rightarrow> bool \<Rightarrow> bool" where
  "json_obj_get_bool obj key def = (case json_obj_get obj key of Some (JSON_BOOL b) \<Rightarrow> b | _ \<Rightarrow> def)"

section \<open>Parsing strings\<close>

definition is_json_ws :: "char \<Rightarrow> bool" where
  "is_json_ws c \<longleftrightarrow> c = CHR '' '' \<or> c = TAB \<or> c = LF \<or> c = CR"

definition skip_ws :: "cstr \<Rightarrow> cstr" where
  "skip_ws s = dropWhile is_json_ws s"

text \<open>The four hex digits of a \<open>\u\<close> escape and the text behind them, if they are all there.\<close>

definition hex4 :: "cstr \<Rightarrow> (nat \<times> cstr) option" where
  "hex4 s = (if length s \<ge> 4 \<and> list_all isxdigit (take 4 s)
     then Some (digits_val 16 (take 4 s), drop 4 s) else None)"

text \<open>The bytes appended for a code; code 0 makes an empty C string, so nothing is appended.\<close>

definition utf8_of_code :: "nat \<Rightarrow> cstr" where
  "utf8_of_code hex =
     (if hex = 0 then []
      else if hex \<le> 0x7F then [char_of hex]
      else if hex \<le> 0x7FF then [char_of (0xC0 + hex div 64 mod 32), char_of (0x80 + hex mod 64)]
      else [char_of (0xE0 + hex div 4096 mod 16), char_of (0x80 + hex div 64 mod 64),
            char_of (0x80 + hex mod 64)])"

definition unescape_char :: "char \<Rightarrow> char" where
  "unescape_char c =
     (if c = CHR ''b'' then CHR 0x08 else if c = CHR ''f'' then CHR 0x0C
      else if c = CHR ''n'' then LF else if c = CHR ''r'' then CR
      else if c = CHR ''t'' then TAB else c)"

lemma hex4_length: "hex4 s = Some (v, r) \<Longrightarrow> length r < length s"
  by (auto simp: hex4_def split: if_splits)

function string_loop :: "cstr \<Rightarrow> (cstr \<times> cstr) option" where
  "string_loop [] = None"
| "string_loop (c # s) =
     (if c = DQ then Some ([], s)
      else if c = BSL then
        (case s of [] \<Rightarrow> None
         | e # s' \<Rightarrow>
           if e = CHR ''u'' then
             (case hex4 s' of Some (hex, r) \<Rightarrow> prepend (utf8_of_code hex) (string_loop r)
              | None \<Rightarrow> prepend [BSL, CHR ''u''] (string_loop s'))
           else prepend [unescape_char e] (string_loop s'))
      else prepend [c] (string_loop s))"
  by pat_completeness auto
termination
  by (relation "measure length") (auto dest: hex4_length)

definition parse_string_raw :: "cstr \<Rightarrow> (cstr \<times> cstr) option" where
  "parse_string_raw src = (case src of [] \<Rightarrow> None | c # s \<Rightarrow> if c = DQ then string_loop s else None)"

lemma string_loop_shorter: "string_loop s = Some (t, r) \<Longrightarrow> length r < length s"
proof (induction s arbitrary: t r rule: string_loop.induct)
  case (2 c s)
  then show ?case
    by (auto simp: prepend_eq_Some dest!: hex4_length split: if_splits list.splits option.splits) fastforce+
qed simp

lemma parse_string_raw_shorter: "parse_string_raw s = Some (t, r) \<Longrightarrow> length r < length s"
  by (auto simp: parse_string_raw_def split: list.splits if_splits dest: string_loop_shorter)

lemma length_skip_ws [simp]: "length (skip_ws s) \<le> length s"
  by (simp add: skip_ws_def length_dropWhile_le)

section \<open>Parsing values\<close>

definition JSON_MAX_DEPTH :: nat where "JSON_MAX_DEPTH = 128"

definition parse_number :: "cstr \<Rightarrow> (JsonValue \<times> cstr) option" where
  "parse_number src = map_option (\<lambda>(val, end). (json_create_number val, end)) (strtod src)"

text \<open>\<open>parse_members\<close> and \<open>parse_elements\<close> are the loops of \<open>parse_object\<close> and \<open>parse_array\<close>.\<close>

function parse_value_depth :: "nat \<Rightarrow> cstr \<Rightarrow> (JsonValue \<times> cstr) option"
  and parse_members :: "nat \<Rightarrow> JsonValue \<Rightarrow> cstr \<Rightarrow> (JsonValue \<times> cstr) option"
  and parse_elements :: "nat \<Rightarrow> JsonValue \<Rightarrow> cstr \<Rightarrow> (JsonValue \<times> cstr) option"
where
  "parse_value_depth depth src =
     (case skip_ws src of [] \<Rightarrow> None
      | c # t \<Rightarrow>
        if c = CHR ''{'' then
          (if depth \<ge> JSON_MAX_DEPTH then None
           else case skip_ws t of [] \<Rightarrow> None
             | d # u \<Rightarrow> if d = CHR ''}'' then Some (json_create_object, u)
                       else parse_members depth json_create_object (d # u))
        else if c = CHR ''['' then
          (if depth \<ge> JSON_MAX_DEPTH then None
           else case skip_ws t of [] \<Rightarrow> None
             | d # u \<Rightarrow> if d = CHR '']'' then Some (json_create_array, u)
                       else parse_elements depth json_create_array (d # u))
        else if c = DQ then
          (case parse_string_raw (c # t) of None \<Rightarrow> None
           | Some (s, r) \<Rightarrow> Some (json_create_string (Some s), r))
        else if has_prefix ''true'' (c # t) then Some (json_create_bool True, drop 4 (c # t))
        else if has_prefix ''false'' (c # t) then Some (json_create_bool False, drop 5 (c # t))
        else if has_prefix ''null'' (c # t) then Some (json_create_null, drop 4 (c # t))
        else parse_number (c # t))"
| "parse_members depth obj src =
     (if src = [] then None
      else case parse_string_raw (skip_ws src) of None \<Rightarrow> None
      | Some (key, s1) \<Rightarrow>
        (case skip_ws s1 of [] \<Rightarrow> None
         | c # s2 \<Rightarrow>
           if c \<noteq> CHR '':'' then None
           else case parse_value_depth (depth + 1) (skip_ws s2) of None \<Rightarrow> None
             | Some (val, s3) \<Rightarrow>
               (case skip_ws s3 of [] \<Rightarrow> None
                | d # s4 \<Rightarrow>
                  if d = CHR '','' then parse_members depth (json_obj_add obj key val) s4
                  else if d = CHR ''}'' then Some (json_obj_add obj key val, s4)
                  else None)))"
| "parse_elements depth arr src =
     (if src = [] then None
      else case parse_value_depth (depth + 1) (skip_ws src) of None \<Rightarrow> None
      | Some (val, s1) \<Rightarrow>
        (case skip_ws s1 of [] \<Rightarrow> None
         | d # s2 \<Rightarrow>
           if d = CHR '','' then parse_elements depth (json_arr_add arr val) s2
           else if d = CHR '']'' then Some (json_arr_add arr val, s2)
           else None))"
  by pat_completeness auto

lemma parse_number_le: "parse_number s = Some (v, r) \<Longrightarrow> length r \<le> length s"
  by (auto simp: parse_number_def dest: strtod_le)

text \<open>A parser never returns more text than it was given; its termination rests on this.\<close>

lemma skip_ws_Cons_le: "skip_ws s = c # t \<Longrightarrow> length t < length s"
  using length_skip_ws[of s] by simp

definition shrinks :: "('v \<times> cstr) option \<Rightarrow> nat \<Rightarrow> bool" where
  "shrinks res n \<longleftrightarrow> (case res of None \<Rightarrow> True | Some (v, r) \<Rightarrow> length r \<le> n)"

lemma shrinks_simps [simp]: "shrinks None n" "shrinks (Some (v, r)) n \<longleftrightarrow> length r \<le> n"
  by (simp_all add: shrinks_def)

lemma shrinks_mono: "shrinks res m \<Longrightarrow> m \<le> n \<Longrightarrow> shrinks res n"
  by (auto simp: shrinks_def split: option.splits)

lemma shrinks_if: "(P \<Longrightarrow> shrinks a n) \<Longrightarrow> (\<not> P \<Longrightarrow> shrinks b n) \<Longrightarrow> shrinks (if P then a else b) n"
  by simp

lemma shrinks_parse_number: "shrinks (parse_number s) (length s)"
  by (auto simp: shrinks_def split: option.splits dest: parse_number_le)

lemma parse_le_partial:
  "parse_value_depth_parse_members_parse_elements_dom (Inl (d, s)) \<Longrightarrow>
     shrinks (parse_value_depth d s) (length s)"
  "parse_value_depth_parse_members_parse_elements_dom (Inr (Inl (d', obj, s'))) \<Longrightarrow>
     shrinks (parse_members d' obj s') (length s')"
  "parse_value_depth_parse_members_parse_elements_dom (Inr (Inr (d'', arr, s''))) \<Longrightarrow>
     shrinks (parse_elements d'' arr s'') (length s'')"
proof (induction rule: parse_value_depth_parse_members_parse_elements.pinduct)
  case (1 depth src)
  show ?case
  proof (cases "skip_ws src")
    case Nil
    then show ?thesis by (simp add: parse_value_depth.psimps[OF 1(1)])
  next
    case (Cons c t)
    have l: "length (c # t) \<le> length src" using Cons length_skip_ws[of src] by simp
    have A: "shrinks (parse_members depth json_create_object (d # u)) (length src)"
      if "c = CHR ''{''" "\<not> depth \<ge> JSON_MAX_DEPTH" "skip_ws t = d # u" "d \<noteq> CHR ''}''" for d u
      by (rule shrinks_mono[OF 1(2)[OF Cons that]]) (use skip_ws_Cons_le[OF that(3)] l in simp)
    have B: "shrinks (parse_elements depth json_create_array (d # u)) (length src)"
      if "c = CHR ''[''" "\<not> depth \<ge> JSON_MAX_DEPTH" "skip_ws t = d # u" "d \<noteq> CHR '']''" for d u
      by (rule shrinks_mono[OF 1(3)[OF Cons _ that]]) (use that(1) skip_ws_Cons_le[OF that(3)] l in simp_all)
    have N: "shrinks (parse_number (c # t)) (length src)"
      by (rule shrinks_mono[OF shrinks_parse_number]) (use l in simp)
    have S: "shrinks (case parse_string_raw (c # t) of None \<Rightarrow> None
       | Some (s, r) \<Rightarrow> Some (json_create_string (Some s), r)) (length src)"
      using l by (auto split: option.splits dest: parse_string_raw_shorter)
    have O: "shrinks (if JSON_MAX_DEPTH \<le> depth then None
        else case skip_ws t of [] \<Rightarrow> None
          | d # u \<Rightarrow> if d = CHR ''}'' then Some (json_create_object, u)
                    else parse_members depth json_create_object (d # u)) (length src)"
      if "c = CHR ''{''"
      using that A l by (auto split: list.splits dest: skip_ws_Cons_le)
    have E: "shrinks (if JSON_MAX_DEPTH \<le> depth then None
        else case skip_ws t of [] \<Rightarrow> None
          | d # u \<Rightarrow> if d = CHR '']'' then Some (json_create_array, u)
                    else parse_elements depth json_create_array (d # u)) (length src)"
      if "c = CHR ''[''"
      using that B l by (auto split: list.splits dest: skip_ws_Cons_le)
    have R: "shrinks (Some (v, drop k (c # t))) (length src)" for v k using l by simp
    show ?thesis
      unfolding parse_value_depth.psimps[OF 1(1)] Cons list.case
      by (rule shrinks_if, erule O, rule shrinks_if, erule E, rule shrinks_if, rule S,
          rule shrinks_if, rule R, rule shrinks_if, rule R, rule shrinks_if, rule R, rule N)
  qed
next
  case (2 depth obj src)
  show ?case
  proof (cases "src = [] \<or> parse_string_raw (skip_ws src) = None")
    case True
    then show ?thesis by (auto simp: parse_members.psimps[OF 2(1)])
  next
    case False
    then obtain key s1 where k: "src \<noteq> []" "parse_string_raw (skip_ws src) = Some (key, s1)" by auto
    show ?thesis
    proof (cases "skip_ws s1")
      case (Cons c s2)
      have len: "length s2 < length src"
        using parse_string_raw_shorter[OF k(2)] skip_ws_Cons_le[OF Cons] length_skip_ws[of src] by linarith
      show ?thesis
      proof (cases "c = CHR '':'' \<and> parse_value_depth (depth + 1) (skip_ws s2) \<noteq> None")
        case True
        then obtain val s3 where v: "c = CHR '':''" "parse_value_depth (depth + 1) (skip_ws s2) = Some (val, s3)"
          by auto
        from 2(2)[OF k refl Cons] v have "length s3 \<le> length (skip_ws s2)" by simp
        then have l3: "length s3 < length src" using len length_skip_ws[of s2] by linarith
        have M: "shrinks (parse_members depth (json_obj_add obj key val) s4) (length src)"
          if "skip_ws s3 = CHR '','' # s4" for s4
          by (rule shrinks_mono[OF 2(3)[OF k refl Cons _ v(2) refl that refl]])
            (use v(1) skip_ws_Cons_le[OF that] l3 in simp_all)
        show ?thesis
          using k Cons v l3 M by (auto simp: parse_members.psimps[OF 2(1)] split: list.splits dest: skip_ws_Cons_le)
      next
        case False
        with k Cons show ?thesis by (auto simp: parse_members.psimps[OF 2(1)] split: option.splits)
      qed
    qed (use k in \<open>simp add: parse_members.psimps[OF 2(1)]\<close>)
  qed
next
  case (3 depth arr src)
  show ?case
  proof (cases "src = [] \<or> parse_value_depth (depth + 1) (skip_ws src) = None")
    case True
    then show ?thesis by (auto simp: parse_elements.psimps[OF 3(1)])
  next
    case False
    then obtain val s1 where v: "src \<noteq> []" "parse_value_depth (depth + 1) (skip_ws src) = Some (val, s1)"
      by auto
    from 3(2)[OF v(1)] v have "length s1 \<le> length (skip_ws src)" by simp
    then have l: "length s1 \<le> length src" using length_skip_ws[of src] by linarith
    have M: "shrinks (parse_elements depth (json_arr_add arr val) s2) (length src)"
      if "skip_ws s1 = CHR '','' # s2" for s2
      by (rule shrinks_mono[OF 3(3)[OF v refl that refl]]) (use skip_ws_Cons_le[OF that] l in simp)
    show ?thesis
      using v l M by (auto simp: parse_elements.psimps[OF 3(1)] split: list.splits dest: skip_ws_Cons_le)
  qed
qed

termination parse_value_depth
proof (relation "measure (\<lambda>x. case x of Inl (d, s) \<Rightarrow> 2 * length s
    | Inr (Inl (d, a, s)) \<Rightarrow> 2 * length s + 1 | Inr (Inr (d, a, s)) \<Rightarrow> 2 * length s + 1)", goal_cases)
  case 1
  show ?case by simp
next
  case (2 depth src c t d u)
  then show ?case using skip_ws_Cons_le[of src] skip_ws_Cons_le[of t] by fastforce
next
  case (3 depth src c t d u)
  then show ?case using skip_ws_Cons_le[of src] skip_ws_Cons_le[of t] by fastforce
next
  case (4 depth obj src p key s1 c s2)
  have "length s1 < length (skip_ws src)" using 4 parse_string_raw_shorter[of "skip_ws src" key s1] by simp
  moreover have "length s2 < length s1" using 4 skip_ws_Cons_le[of s1] by simp
  ultimately have "length (skip_ws s2) < length src"
    using length_skip_ws[of src] length_skip_ws[of s2] by linarith
  then show ?case by simp
next
  case (5 depth obj src p key s1 c s2 q val s3 d s4)
  have "length s1 < length (skip_ws src)" using 5 parse_string_raw_shorter[of "skip_ws src" key s1] by simp
  moreover have "length s2 < length s1" using 5 skip_ws_Cons_le[of s1] by simp
  moreover have "length s3 \<le> length (skip_ws s2)"
    using 5 parse_le_partial(1)[of "depth + 1" "skip_ws s2"] by auto
  moreover have "length s4 < length s3" using 5 skip_ws_Cons_le[of s3] by simp
  ultimately have "length s4 < length src"
    using length_skip_ws[of src] length_skip_ws[of s2] by linarith
  then show ?case by simp
next
  case (6 depth arr src)
  then show ?case using length_skip_ws[of src] by (simp add: less_Suc_eq_le)
next
  case (7 depth arr src p val s1 d s2)
  have "length s1 \<le> length (skip_ws src)"
    using 7 parse_le_partial(1)[of "depth + 1" "skip_ws src"] by auto
  moreover have "length s2 < length s1" using 7 skip_ws_Cons_le[of s1] by simp
  ultimately have "length s2 < length src" using length_skip_ws[of src] by linarith
  then show ?case by simp
qed

declare parse_value_depth.simps [simp del] parse_members.simps [simp del] parse_elements.simps [simp del]

definition json_parse :: "cstr option \<Rightarrow> JsonValue option" where
  "json_parse src = (case src of None \<Rightarrow> None | Some s \<Rightarrow> map_option fst (parse_value_depth 0 s))"

section \<open>Serialising\<close>

text \<open>\<open>snprintf\<close> of \<open>%.17g\<close> into \<open>char buf[64]\<close>.\<close>

definition number_text :: "cdouble \<Rightarrow> cstr" where
  "number_text n = take 63 (fmt_g17 n)"

text \<open>
  \<open>serialize_internal\<close> makes a sequence of appends; \<open>json_pieces\<close> is that sequence. The loops over
  items and members put a comma before every element but the first.
\<close>

definition quoted_pieces :: "cstr \<Rightarrow> cstr list" where
  "quoted_pieces s = map escape_char s"

function json_pieces :: "JsonValue \<Rightarrow> cstr list"
  and items_pieces :: "bool \<Rightarrow> JsonValue list \<Rightarrow> cstr list"
  and members_pieces :: "bool \<Rightarrow> (cstr \<times> JsonValue) list \<Rightarrow> cstr list"
where
  "json_pieces JSON_NULL = [''null'']"
| "json_pieces (JSON_BOOL b) = [if b then ''true'' else ''false'']"
| "json_pieces (JSON_NUMBER n) = [number_text n]"
| "json_pieces (JSON_STRING s) = [DQ] # quoted_pieces s @ [[DQ]]"
| "json_pieces (JSON_ARRAY xs) = ''['' # items_pieces True xs @ ['']'']"
| "json_pieces (JSON_OBJECT ms) = ''{'' # members_pieces True ms @ [''}'']"
| "items_pieces first [] = []"
| "items_pieces first (x # xs) =
     (if first then [] else ['','']) @ json_pieces x @ items_pieces False xs"
| "members_pieces first [] = []"
| "members_pieces first ((k, v) # ms) =
     (if first then [] else ['','']) @ [[DQ]] @ quoted_pieces k @ [DQ # '':''] @ json_pieces v @
     members_pieces False ms"
  by pat_completeness auto
termination
  by (relation "measure (\<lambda>x. case x of Inl v \<Rightarrow> size v
      | Inr (Inl (b, xs)) \<Rightarrow> size_list size xs
      | Inr (Inr (b, ms)) \<Rightarrow> size_list (size_prod (\<lambda>_. 0) size) ms)") auto

definition serialize_internal :: "(u64 \<Rightarrow> bool) \<Rightarrow> JsonValue option \<Rightarrow> DynString \<Rightarrow> DynString option" where
  "serialize_internal alloc val ds =
     put_all (\<lambda>p. dyn_str_append alloc (Some p))
       (case val of None \<Rightarrow> [''null''] | Some v \<Rightarrow> json_pieces v) ds"

definition json_serialize :: "(u64 \<Rightarrow> bool) \<Rightarrow> JsonValue option \<Rightarrow> cstr option" where
  "json_serialize alloc val =
     (case serialize_internal alloc val (dyn_str_new alloc) of None \<Rightarrow> None | Some ds \<Rightarrow> data ds)"

text \<open>The text of a value: what the pieces amount to.\<close>

definition json_text :: "JsonValue \<Rightarrow> cstr" where
  "json_text v = concat (json_pieces v)"

section \<open>Well-formed values\<close>

text \<open>
  Nesting depth; the values whose strings are C strings and whose numbers print to text that
  reads back, which the round trip needs.
\<close>

fun jdepth :: "JsonValue \<Rightarrow> nat" where
  "jdepth (JSON_ARRAY xs) = Suc (foldr max (map jdepth xs) 0)"
| "jdepth (JSON_OBJECT ms) = Suc (foldr max (map (\<lambda>(k, v). jdepth v) ms) 0)"
| "jdepth _ = 0"

definition reads_back :: "cdouble \<Rightarrow> bool" where
  "reads_back n \<longleftrightarrow> strtod (number_text n) = Some (n, [])"

fun json_ok :: "JsonValue \<Rightarrow> bool" where
  "json_ok (JSON_STRING s) = nul_free s"
| "json_ok (JSON_NUMBER n) = reads_back n"
| "json_ok (JSON_ARRAY xs) = list_all json_ok xs"
| "json_ok (JSON_OBJECT ms) = list_all (\<lambda>(k, v). nul_free k \<and> json_ok v) ms"
| "json_ok _ = True"

section \<open>Lemmas: strings\<close>

lemma hex_digit_vals: "n < 16 \<Longrightarrow> isxdigit (hex_digit n) \<and> digit_val (hex_digit n) = n"
proof -
  have "list_all (\<lambda>n. isxdigit (hex_digit n) \<and> digit_val (hex_digit n) = n) [0..<16]" by code_simp
  then show "n < 16 \<Longrightarrow> ?thesis" by (simp add: list_all_iff)
qed

lemma hex4_Cons:
  "isxdigit a \<Longrightarrow> isxdigit b \<Longrightarrow> isxdigit c \<Longrightarrow> isxdigit d \<Longrightarrow>
   hex4 (a # b # c # d # r) = Some (((digit_val a * 16 + digit_val b) * 16 + digit_val c) * 16 + digit_val d, r)"
  by (simp add: hex4_def digits_val_def)

lemma hex4_escape:
  assumes "byte c < 32"
  shows "hex4 (CHR ''0'' # CHR ''0'' # hex_digit (byte c div 16) # hex_digit (byte c mod 16) # r) = Some (byte c, r)"
proof -
  have d: "byte c div 16 < 16" "byte c mod 16 < 16" using assms by auto
  have z: "isxdigit (CHR ''0'')" "digit_val (CHR ''0'') = 0" by code_simp+
  have "byte c div 16 * 16 + byte c mod 16 = byte c" by simp
  then show ?thesis
    using hex_digit_vals[OF d(1)] hex_digit_vals[OF d(2)] z by (simp only: hex4_Cons) simp
qed

lemma string_loop_escape_char:
  assumes "c \<noteq> NUL"
  shows "string_loop (escape_char c @ r) = prepend [c] (string_loop r)"
proof -
  have b0: "byte c \<noteq> 0"
    using assms byte_inject[of c NUL] by (simp add: byte_def)
  consider "c = DQ" | "c = BSL" | "c = CHR 0x08" | "c = CHR 0x0C" | "c = LF" | "c = CR" | "c = TAB"
    | (ctl) "c \<notin> {DQ, BSL, CHR 0x08, CHR 0x0C, LF, CR, TAB}" "byte c < 32"
    | (plain) "c \<notin> {DQ, BSL, CHR 0x08, CHR 0x0C, LF, CR, TAB}" "\<not> byte c < 32"
    by blast
  then show ?thesis
  proof cases
    case ctl
    then have e: "escape_char c =
        [BSL, CHR ''u'', CHR ''0'', CHR ''0'', hex_digit (byte c div 16), hex_digit (byte c mod 16)]"
      by (simp add: escape_char_def)
    have "utf8_of_code (byte c) = [c]" using b0 ctl(2) by (simp add: utf8_of_code_def)
    then show ?thesis using hex4_escape[OF ctl(2), of r] by (simp add: e)
  next
    case plain
    then have "escape_char c = [c]" by (simp add: escape_char_def)
    with plain show ?thesis by simp
  qed (simp_all add: escape_char_def unescape_char_def)
qed

lemma string_loop_escape:
  "nul_free s \<Longrightarrow> string_loop (concat (map escape_char s) @ DQ # r) = Some (s, r)"
  by (induction s) (simp_all add: string_loop_escape_char prepend_def)

lemma parse_string_raw_quoted:
  "nul_free s \<Longrightarrow> parse_string_raw (DQ # concat (map escape_char s) @ DQ # r) = Some (s, r)"
  by (simp add: parse_string_raw_def string_loop_escape)

section \<open>Lemmas: reading back what was written\<close>

lemma skip_ws_simps [simp]:
  "skip_ws [] = []" "\<not> is_json_ws c \<Longrightarrow> skip_ws (c # s) = c # s" "skip_ws (skip_ws s) = skip_ws s"
  by (simp_all add: skip_ws_def)

lemma not_ws [simp]:
  "\<not> is_json_ws DQ" "\<not> is_json_ws (CHR ''{'')" "\<not> is_json_ws (CHR ''}'')" "\<not> is_json_ws (CHR ''['')"
  "\<not> is_json_ws (CHR '']'')" "\<not> is_json_ws (CHR '','')" "\<not> is_json_ws (CHR '':'')"
  "\<not> is_json_ws (CHR ''t'')" "\<not> is_json_ws (CHR ''f'')" "\<not> is_json_ws (CHR ''n'')"
  by (simp_all add: is_json_ws_def)

lemma parse_value_skip_ws: "parse_value_depth d (skip_ws s) = parse_value_depth d s"
  by (subst (1 2) parse_value_depth.simps) (simp only: skip_ws_simps)

lemma json_stop_simps [simp]:
  "json_stop []" "json_stop (CHR '','' # r)" "json_stop (CHR '']'' # r)" "json_stop (CHR ''}'' # r)"
  by (simp_all add: json_stop_def)

lemma foldr_max_ge: "x \<in> set xs \<Longrightarrow> (x :: nat) \<le> foldr max xs 0"
  by (induction xs) (auto simp: le_max_iff_disj)

lemma has_prefix_numeric:
  "has_prefix p (u @ r) \<Longrightarrow> numeric u \<Longrightarrow> json_stop r \<Longrightarrow>
   CHR '','' \<notin> set p \<Longrightarrow> CHR '']'' \<notin> set p \<Longrightarrow> CHR ''}'' \<notin> set p \<Longrightarrow> numeric p"
proof (induction u arbitrary: p)
  case Nil
  show ?case
  proof (cases p)
    case (Cons x xs)
    with Nil obtain r' where "r = x # r'" by (cases r) auto
    with Nil Cons show ?thesis using json_stop_Cons[of x r'] by auto
  qed simp
next
  case (Cons c u)
  show ?case
  proof (cases p)
    case p: (Cons x xs)
    have "numeric xs" by (rule Cons.IH) (use Cons.prems p in simp_all)
    with Cons.prems p show ?thesis by simp
  qed simp
qed

lemma numeric_number_text: "numeric (number_text n)"
  unfolding number_text_def by (rule numeric_parts(1)[OF numeric_fmt_g17])

lemma number_char_plain: "number_char c \<Longrightarrow> \<not> is_json_ws c \<and> c \<noteq> CHR ''{'' \<and> c \<noteq> CHR ''['' \<and> c \<noteq> DQ"
  by (auto simp: number_char_def is_json_ws_def)

lemma reads_back_nonempty: "reads_back n \<Longrightarrow> number_text n \<noteq> []"
proof
  assume "reads_back n" "number_text n = []"
  then have "strtod [] = Some (n, [])" by (simp add: reads_back_def)
  moreover have "strtod [] = None" by code_simp
  ultimately show False by simp
qed

lemma parse_number_text:
  assumes "reads_back n" and "json_stop r"
  shows "parse_value_depth d (number_text n @ r) = Some (JSON_NUMBER n, r)"
proof -
  have "number_text n \<noteq> []" by (rule reads_back_nonempty[OF assms(1)])
  then obtain c t where ct: "number_text n = c # t" by (cases "number_text n") auto
  have num: "numeric (c # t)" using numeric_number_text[of n] ct by simp
  note pre = has_prefix_numeric[OF _ num assms(2)]
  have np: "\<not> numeric ''true''" "\<not> numeric ''false''" "\<not> numeric ''null''"
    by (simp_all add: number_char_def)
  have "\<not> has_prefix ''true'' ((c # t) @ r)" "\<not> has_prefix ''false'' ((c # t) @ r)"
    "\<not> has_prefix ''null'' ((c # t) @ r)"
    using pre[of "''true''"] pre[of "''false''"] pre[of "''null''"] np by auto
  moreover have "strtod ((c # t) @ r) = Some (n, r)"
    using strtod_stop[OF assms(2), of "c # t"] assms(1) ct by (simp add: reads_back_def)
  moreover have "\<not> is_json_ws c" "c \<noteq> CHR ''{''" "c \<noteq> CHR ''[''" "c \<noteq> DQ"
    using num number_char_plain[of c] by auto
  ultimately show ?thesis
    unfolding ct by (simp add: parse_value_depth.simps[of d "c # t @ r"] parse_number_def json_create_number_def
        del: has_prefix.simps)
qed

text \<open>The text of items and members after a comma is the text of a first one.\<close>

lemma items_pieces_False:
  "concat (items_pieces False xs) = (if xs = [] then [] else CHR '','' # concat (items_pieces True xs))"
  by (cases xs) simp_all

lemma members_pieces_False:
  "concat (members_pieces False ms) = (if ms = [] then [] else CHR '','' # concat (members_pieces True ms))"
  by (cases ms) (auto split: prod.splits)

lemma items_text_Cons:
  "concat (items_pieces True (x # xs)) @ CHR '']'' # r =
     json_text x @ (if xs = [] then CHR '']'' # r else CHR '','' # concat (items_pieces True xs) @ CHR '']'' # r)"
  by (simp add: items_pieces_False json_text_def)

lemma members_text_Cons:
  "concat (members_pieces True ((k, v) # ms)) @ CHR ''}'' # r =
     DQ # concat (map escape_char k) @ DQ # CHR '':'' # json_text v @
       (if ms = [] then CHR ''}'' # r else CHR '','' # concat (members_pieces True ms) @ CHR ''}'' # r)"
  by (simp add: members_pieces_False json_text_def quoted_pieces_def)

lemma parse_elements_text:
  assumes "xs \<noteq> []"
    and "\<And>x r. x \<in> set xs \<Longrightarrow> json_stop r \<Longrightarrow> parse_value_depth (d + 1) (json_text x @ r) = Some (x, r)"
  shows "parse_elements d (JSON_ARRAY acc) (concat (items_pieces True xs) @ CHR '']'' # r)
      = Some (JSON_ARRAY (acc @ xs), r)"
  using assms
proof (induction xs arbitrary: acc)
  case (Cons x xs)
  let ?tl = "if xs = [] then CHR '']'' # r else CHR '','' # concat (items_pieces True xs) @ CHR '']'' # r"
  have pv: "parse_value_depth (d + 1) (skip_ws (json_text x @ ?tl)) = Some (x, ?tl)"
    unfolding parse_value_skip_ws by (rule Cons.prems(2)) simp_all
  have ne: "json_text x @ ?tl \<noteq> []" by simp
  show ?case
  proof (cases "xs = []")
    case True
    show ?thesis
      unfolding items_text_Cons parse_elements.simps[of d "JSON_ARRAY acc" "json_text x @ ?tl"] pv
      using True by simp
  next
    case False
    have "parse_elements d (JSON_ARRAY (acc @ [x])) (concat (items_pieces True xs) @ CHR '']'' # r)
        = Some (JSON_ARRAY ((acc @ [x]) @ xs), r)"
      by (rule Cons.IH[OF False]) (use Cons.prems(2) in auto)
    then show ?thesis
      unfolding items_text_Cons parse_elements.simps[of d "JSON_ARRAY acc" "json_text x @ ?tl"] pv
      using False by simp
  qed
qed simp

lemma parse_members_text:
  assumes "ms \<noteq> []"
    and "\<And>k v. (k, v) \<in> set ms \<Longrightarrow> nul_free k"
    and "\<And>k v r. (k, v) \<in> set ms \<Longrightarrow> json_stop r \<Longrightarrow>
      parse_value_depth (d + 1) (json_text v @ r) = Some (v, r)"
  shows "parse_members d (JSON_OBJECT acc) (concat (members_pieces True ms) @ CHR ''}'' # r)
      = Some (JSON_OBJECT (acc @ ms), r)"
  using assms
proof (induction ms arbitrary: acc)
  case (Cons m ms)
  obtain k v where m: "m = (k, v)" by (cases m) auto
  let ?tl = "if ms = [] then CHR ''}'' # r else CHR '','' # concat (members_pieces True ms) @ CHR ''}'' # r"
  let ?src = "DQ # concat (map escape_char k) @ DQ # CHR '':'' # json_text v @ ?tl"
  have pv: "parse_value_depth (d + 1) (skip_ws (json_text v @ ?tl)) = Some (v, ?tl)"
    unfolding parse_value_skip_ws by (rule Cons.prems(3)[of k]) (simp_all add: m)
  have ps: "parse_string_raw (skip_ws ?src) = Some (k, CHR '':'' # json_text v @ ?tl)"
    using parse_string_raw_quoted[of k] Cons.prems(2)[of k v] m by simp
  show ?case
  proof (cases "ms = []")
    case True
    show ?thesis
      unfolding m members_text_Cons parse_members.simps[of d "JSON_OBJECT acc" ?src] ps
      using pv True by simp
  next
    case False
    have "parse_members d (JSON_OBJECT (acc @ [(k, v)])) (concat (members_pieces True ms) @ CHR ''}'' # r)
        = Some (JSON_OBJECT ((acc @ [(k, v)]) @ ms), r)"
    proof (rule Cons.IH[OF False])
      show "nul_free k'" if "(k', v') \<in> set ms" for k' v' using Cons.prems(2)[of k' v'] that by simp
      show "parse_value_depth (d + 1) (json_text v' @ r') = Some (v', r')"
        if "(k', v') \<in> set ms" "json_stop r'" for k' v' r'
        using Cons.prems(3)[of k' v' r'] that by simp
    qed
    then show ?thesis
      unfolding m members_text_Cons parse_members.simps[of d "JSON_OBJECT acc" ?src] ps
      using pv False by simp
  qed
qed simp

lemma json_text_head: "json_ok v \<Longrightarrow> \<exists>c t. json_text v = c # t \<and> \<not> is_json_ws c \<and> c \<noteq> CHR '']''"
proof (cases v)
  case (JSON_NUMBER n)
  assume "json_ok v"
  with JSON_NUMBER obtain c t where "number_text n = c # t"
    using reads_back_nonempty[of n] by (cases "number_text n") auto
  moreover from this have "number_char c" using numeric_number_text[of n] by simp
  then have "\<not> is_json_ws c \<and> c \<noteq> CHR '']''" by (auto simp: number_char_def is_json_ws_def)
  ultimately show ?thesis using JSON_NUMBER by (simp add: json_text_def)
qed (auto simp: json_text_def)

lemma parse_json_text:
  "json_ok v \<Longrightarrow> d + jdepth v \<le> JSON_MAX_DEPTH \<Longrightarrow> json_stop r \<Longrightarrow>
     parse_value_depth d (json_text v @ r) = Some (v, r)"
proof (induction v arbitrary: d r)
  case JSON_NULL
  show ?case by (simp add: json_text_def parse_value_depth.simps[of d] json_create_null_def)
next
  case (JSON_BOOL b)
  show ?case by (cases b) (simp_all add: json_text_def parse_value_depth.simps[of d] json_create_bool_def)
next
  case (JSON_NUMBER n)
  then show ?case using parse_number_text[of n r d] by (simp add: json_text_def)
next
  case (JSON_STRING s)
  have "json_text (JSON_STRING s) @ r = DQ # concat (map escape_char s) @ DQ # r"
    by (simp add: json_text_def quoted_pieces_def)
  with JSON_STRING parse_string_raw_quoted[of s r] show ?case
    by (simp add: parse_value_depth.simps[of d] json_create_string_def)
next
  case (JSON_ARRAY xs)
  have el: "parse_value_depth (d + 1) (json_text x @ r') = Some (x, r')" if "x \<in> set xs" "json_stop r'" for x r'
  proof (rule JSON_ARRAY.IH[OF that(1) _ _ that(2)])
    show "json_ok x" using JSON_ARRAY.prems(1) that(1) by (simp add: list_all_iff)
    show "d + 1 + jdepth x \<le> JSON_MAX_DEPTH"
      using JSON_ARRAY.prems(2) foldr_max_ge[of "jdepth x" "map jdepth xs"] that(1) by simp
  qed
  have t: "json_text (JSON_ARRAY xs) @ r = CHR ''['' # concat (items_pieces True xs) @ CHR '']'' # r"
    by (simp add: json_text_def)
  have dd: "\<not> JSON_MAX_DEPTH \<le> d" using JSON_ARRAY.prems(2) by simp
  show ?case
  proof (cases "xs = []")
    case True
    with dd show ?thesis unfolding t by (simp add: parse_value_depth.simps[of d] json_create_array_def)
  next
    case False
    have pe: "parse_elements d (JSON_ARRAY []) (concat (items_pieces True xs) @ CHR '']'' # r) = Some (JSON_ARRAY xs, r)"
      using parse_elements_text[OF False el, of "[]" r] by simp
    from False obtain x xs' where xs: "xs = x # xs'" by (cases xs) auto
    then have "json_ok x" using JSON_ARRAY.prems(1) by simp
    from json_text_head[OF this] obtain c u where c: "json_text x = c # u" "\<not> is_json_ws c" "c \<noteq> CHR '']''"
      by blast
    then obtain w where "concat (items_pieces True xs) @ CHR '']'' # r = c # w"
      by (simp add: xs json_text_def)
    with c pe dd show ?thesis unfolding t by (simp add: parse_value_depth.simps[of d] json_create_array_def)
  qed
next
  case (JSON_OBJECT ms)
  have el: "parse_value_depth (d + 1) (json_text v @ r') = Some (v, r')"
    if kv: "(k, v) \<in> set ms" and st: "json_stop r'" for k v r'
  proof (rule JSON_OBJECT.IH[OF kv _ _ _ st])
    show "v \<in> Basic_BNFs.snds (k, v)" by simp
    show "json_ok v" using JSON_OBJECT.prems(1) kv by (auto simp: list_all_iff)
    have "jdepth v \<in> set (map (\<lambda>(k, v). jdepth v) ms)" using kv by force
    from foldr_max_ge[OF this] show "d + 1 + jdepth v \<le> JSON_MAX_DEPTH" using JSON_OBJECT.prems(2) by simp
  qed
  have t: "json_text (JSON_OBJECT ms) @ r = CHR ''{'' # concat (members_pieces True ms) @ CHR ''}'' # r"
    by (simp add: json_text_def)
  have dd: "\<not> JSON_MAX_DEPTH \<le> d" using JSON_OBJECT.prems(2) by simp
  show ?case
  proof (cases "ms = []")
    case True
    with dd show ?thesis unfolding t by (simp add: parse_value_depth.simps[of d] json_create_object_def)
  next
    case False
    have "nul_free k" if "(k, v) \<in> set ms" for k v
      using JSON_OBJECT.prems(1) that by (auto simp: list_all_iff)
    then have pm: "parse_members d (JSON_OBJECT []) (concat (members_pieces True ms) @ CHR ''}'' # r)
        = Some (JSON_OBJECT ms, r)"
      using parse_members_text[OF False _ el, where acc = "[]" and r = r] by simp
    from False obtain k v ms' where "ms = (k, v) # ms'" by (cases ms) auto
    then obtain w where "concat (members_pieces True ms) @ CHR ''}'' # r = DQ # w" by simp
    with pm dd show ?thesis unfolding t by (simp add: parse_value_depth.simps[of d] json_create_object_def)
  qed
qed

section \<open>Lemmas: the depth guard\<close>

definition within_depth :: "nat \<Rightarrow> (JsonValue \<times> cstr) option \<Rightarrow> bool" where
  "within_depth d res \<longleftrightarrow> (case res of None \<Rightarrow> True | Some (v, r) \<Rightarrow> d + jdepth v \<le> JSON_MAX_DEPTH)"

lemma within_depth_simps [simp]:
  "within_depth d None" "within_depth d (Some (v, r)) \<longleftrightarrow> d + jdepth v \<le> JSON_MAX_DEPTH"
  by (simp_all add: within_depth_def)

lemma foldr_max_append: "foldr max xs (y :: nat) = max (foldr max xs 0) y"
  by (induction xs) auto

lemma jdepth_obj_add: "jdepth (json_obj_add (JSON_OBJECT ms) k v) = max (jdepth (JSON_OBJECT ms)) (Suc (jdepth v))"
  using foldr_max_append[of _ "jdepth v"] by simp

lemma jdepth_arr_add: "jdepth (json_arr_add (JSON_ARRAY xs) v) = max (jdepth (JSON_ARRAY xs)) (Suc (jdepth v))"
  using foldr_max_append[of _ "jdepth v"] by simp

lemma within_depth_scalar: "d \<le> JSON_MAX_DEPTH \<Longrightarrow> within_depth d (parse_number s)"
  by (auto simp: within_depth_def parse_number_def json_create_number_def split: option.splits)

lemma within_depth_if: "(P \<Longrightarrow> within_depth d a) \<Longrightarrow> (\<not> P \<Longrightarrow> within_depth d b) \<Longrightarrow> within_depth d (if P then a else b)"
  by simp

lemma parse_within_depth:
  "d \<le> JSON_MAX_DEPTH \<Longrightarrow> within_depth d (parse_value_depth d s)"
  "d' < JSON_MAX_DEPTH \<Longrightarrow> (\<exists>ms. obj = JSON_OBJECT ms) \<Longrightarrow> d' + jdepth obj \<le> JSON_MAX_DEPTH \<Longrightarrow>
     within_depth d' (parse_members d' obj s')"
  "d'' < JSON_MAX_DEPTH \<Longrightarrow> (\<exists>xs. arr = JSON_ARRAY xs) \<Longrightarrow> d'' + jdepth arr \<le> JSON_MAX_DEPTH \<Longrightarrow>
     within_depth d'' (parse_elements d'' arr s'')"
proof (induction d s and d' obj s' and d'' arr s''
    rule: parse_value_depth_parse_members_parse_elements.induct)
  case (1 depth src)
  show ?case
  proof (cases "skip_ws src")
    case Nil
    then show ?thesis by (simp add: parse_value_depth.simps[of depth src])
  next
    case (Cons c t)
    have O: "within_depth depth (if JSON_MAX_DEPTH \<le> depth then None
        else case skip_ws t of [] \<Rightarrow> None
          | d # u \<Rightarrow> if d = CHR ''}'' then Some (json_create_object, u)
                    else parse_members depth json_create_object (d # u))"
      if "c = CHR ''{''"
      using 1(1)[OF Cons that] by (auto simp: json_create_object_def split: list.split)
    have E: "within_depth depth (if JSON_MAX_DEPTH \<le> depth then None
        else case skip_ws t of [] \<Rightarrow> None
          | d # u \<Rightarrow> if d = CHR '']'' then Some (json_create_array, u)
                    else parse_elements depth json_create_array (d # u))"
      if "c = CHR ''[''"
      using 1(2)[OF Cons _ that] that by (auto simp: json_create_array_def split: list.split)
    have S: "within_depth depth (case parse_string_raw (c # t) of None \<Rightarrow> None
       | Some (s, r) \<Rightarrow> Some (json_create_string (Some s), r))"
      using 1(3) by (auto simp: json_create_string_def split: option.splits)
    have R: "within_depth depth (Some (json_create_bool b, u))" "within_depth depth (Some (json_create_null, u))" for b u
      using 1(3) by (simp_all add: json_create_bool_def json_create_null_def)
    show ?thesis
      unfolding parse_value_depth.simps[of depth src] Cons list.case
      by (rule within_depth_if, erule O, rule within_depth_if, erule E, rule within_depth_if, rule S,
          rule within_depth_if, rule R, rule within_depth_if, rule R, rule within_depth_if, rule R,
          rule within_depth_scalar[OF 1(3)])
  qed
next
  case (2 depth obj src)
  from 2(4) obtain ms where obj: "obj = JSON_OBJECT ms" by blast
  show ?case
  proof (cases "src = [] \<or> parse_string_raw (skip_ws src) = None")
    case True
    then show ?thesis by (auto simp: parse_members.simps[of depth obj src])
  next
    case False
    then obtain key s1 where k: "src \<noteq> []" "parse_string_raw (skip_ws src) = Some (key, s1)" by auto
    show ?thesis
    proof (cases "skip_ws s1")
      case (Cons c s2)
      show ?thesis
      proof (cases "c = CHR '':'' \<and> parse_value_depth (depth + 1) (skip_ws s2) \<noteq> None")
        case True
        then obtain val s3 where v: "c = CHR '':''" "parse_value_depth (depth + 1) (skip_ws s2) = Some (val, s3)"
          by auto
        have vd: "depth + Suc (jdepth val) \<le> JSON_MAX_DEPTH"
          using 2(1)[OF k refl Cons] v 2(3) by simp
        then have ad: "depth + jdepth (json_obj_add obj key val) \<le> JSON_MAX_DEPTH"
          using 2(5) unfolding obj jdepth_obj_add by simp
        have M: "within_depth depth (parse_members depth (json_obj_add obj key val) s4)"
          if "skip_ws s3 = CHR '','' # s4" for s4
          by (rule 2(2)[OF k refl Cons _ v(2) refl that refl 2(3) _ ad]) (use v(1) obj in auto)
        show ?thesis
          using k Cons v ad M by (simp add: parse_members.simps[of depth obj src] split: list.split)
      next
        case False
        with k Cons show ?thesis by (auto simp: parse_members.simps[of depth obj src] split: option.splits)
      qed
    qed (use k in \<open>simp add: parse_members.simps[of depth obj src]\<close>)
  qed
next
  case (3 depth arr src)
  from 3(4) obtain xs where arr: "arr = JSON_ARRAY xs" by blast
  show ?case
  proof (cases "src = [] \<or> parse_value_depth (depth + 1) (skip_ws src) = None")
    case True
    then show ?thesis by (auto simp: parse_elements.simps[of depth arr src])
  next
    case False
    then obtain val s1 where v: "src \<noteq> []" "parse_value_depth (depth + 1) (skip_ws src) = Some (val, s1)"
      by auto
    have "depth + Suc (jdepth val) \<le> JSON_MAX_DEPTH" using 3(1)[OF v(1)] v(2) 3(3) by simp
    then have ad: "depth + jdepth (json_arr_add arr val) \<le> JSON_MAX_DEPTH"
      using 3(5) unfolding arr jdepth_arr_add by simp
    have M: "within_depth depth (parse_elements depth (json_arr_add arr val) s2)"
      if "skip_ws s1 = CHR '','' # s2" for s2
      by (rule 3(2)[OF v refl that refl 3(3) _ ad]) (use arr in auto)
    show ?thesis
      using v ad M by (simp add: parse_elements.simps[of depth arr src] split: list.split)
  qed
qed

section \<open>Lemmas: the text of a value is one balanced block\<close>

definition inert :: "char \<Rightarrow> bool" where
  "inert c \<longleftrightarrow> c \<noteq> DQ \<and> c \<noteq> CHR ''{'' \<and> c \<noteq> CHR ''}''"

lemma brace_scan_inert:
  "\<forall>c \<in> set u. inert c \<Longrightarrow> brace_scan d False False (u @ r) = prepend u (brace_scan d False False r)"
proof (induction u)
  case (Cons c u)
  then show ?case by (simp add: inert_def Let_def)
qed simp

lemma brace_scan_escape_char:
  "brace_scan d True False (escape_char c @ r) = prepend (escape_char c) (brace_scan d True False r)"
proof -
  have h: "hex_digit (byte c div 16) \<noteq> BSL \<and> hex_digit (byte c div 16) \<noteq> DQ \<and>
      hex_digit (byte c mod 16) \<noteq> BSL \<and> hex_digit (byte c mod 16) \<noteq> DQ"
  proof -
    have "list_all (\<lambda>n. hex_digit n \<noteq> BSL \<and> hex_digit n \<noteq> DQ) [0..<16]" by code_simp
    then have "\<forall>n < 16. hex_digit n \<noteq> BSL \<and> hex_digit n \<noteq> DQ" by (simp add: list_all_iff)
    moreover have "byte c div 16 < 16" "byte c mod 16 < 16" using byte_lt[of c] by linarith+
    ultimately show ?thesis by blast
  qed
  show ?thesis
    by (simp add: escape_char_def Let_def h)
qed

lemma brace_scan_escape:
  "brace_scan d True False (concat (map escape_char s) @ r) =
     prepend (concat (map escape_char s)) (brace_scan d True False r)"
  by (induction s) (simp_all add: brace_scan_escape_char)

lemma brace_scan_quoted:
  "brace_scan d False False (DQ # concat (map escape_char s) @ DQ # r) =
     prepend (DQ # concat (map escape_char s) @ [DQ]) (brace_scan d False False r)"
  by (simp add: Let_def brace_scan_escape)

lemma number_char_inert: "number_char c \<Longrightarrow> inert c"
proof -
  have "\<not> number_char DQ" "\<not> number_char (CHR ''{'')" "\<not> number_char (CHR ''}'')"
    by (simp_all add: number_char_def)
  then show "number_char c \<Longrightarrow> inert c" by (auto simp: inert_def)
qed

lemma number_inert: "\<forall>c \<in> set (number_text n). inert c"
  using numeric_number_text[of n] number_char_inert by (simp add: numeric_def)

lemma brace_scan_pieces:
  "0 < d \<Longrightarrow> brace_scan d False False (concat (json_pieces v) @ r) =
     prepend (concat (json_pieces v)) (brace_scan d False False r)"
  "0 < d' \<Longrightarrow> brace_scan d' False False (concat (items_pieces b xs) @ r') =
     prepend (concat (items_pieces b xs)) (brace_scan d' False False r')"
  "0 < d'' \<Longrightarrow> brace_scan d'' False False (concat (members_pieces b' ms) @ r'') =
     prepend (concat (members_pieces b' ms)) (brace_scan d'' False False r'')"
proof (induction v and b xs and b' ms arbitrary: d r and d' r' and d'' r''
    rule: json_pieces_items_pieces_members_pieces.induct)
  case (3 n)
  then show ?case by (simp add: brace_scan_inert[OF number_inert])
next
  case (4 s)
  then show ?case by (simp add: quoted_pieces_def brace_scan_quoted del: brace_scan.simps)
next
  case (10 first k v ms)
  have pre: "brace_scan d'' False False (CHR '','' # w) = prepend [CHR '',''] (brace_scan d'' False False w)"
    "brace_scan d'' False False (CHR '':'' # w) = prepend [CHR '':''] (brace_scan d'' False False w)" for w
    by (simp_all add: Let_def)
  show ?case
    by (cases first)
      (simp_all add: pre 10 quoted_pieces_def brace_scan_quoted del: brace_scan.simps)
qed (simp_all add: Let_def)

section \<open>Association by key: the first member wins\<close>

text \<open>
  Both the members of a JSON object and the entries of a frontmatter block are appended at the end
  and looked up from the start; the contract below is what their clients may rely on.
\<close>

locale first_wins =
  fixes get :: "'o \<Rightarrow> cstr \<Rightarrow> 'v option"
    and add :: "'o \<Rightarrow> cstr \<Rightarrow> 'v \<Rightarrow> 'o"
    and inv :: "'o \<Rightarrow> bool"
  assumes get_add: "inv m \<Longrightarrow> get (add m k v) k' = (case get m k' of Some w \<Rightarrow> Some w | None \<Rightarrow> if k = k' then Some v else None)"
    and inv_add: "inv m \<Longrightarrow> inv (add m k v)"
begin

lemma get_fold_add:
  "inv m \<Longrightarrow> get (foldl (\<lambda>m (k, v). add m k v) m kvs) k =
     (case get m k of Some w \<Rightarrow> Some w | None \<Rightarrow> map_of kvs k)"
  by (induction kvs arbitrary: m) (auto simp: get_add inv_add split: option.split)

lemma add_never_overrides: "inv m \<Longrightarrow> get m k = Some w \<Longrightarrow> get (add m k v) k = Some w"
  by (simp add: get_add)

end

lemma member_get_append: "member_get (xs @ ys) k = (case member_get xs k of Some w \<Rightarrow> Some w | None \<Rightarrow> member_get ys k)"
  by (induction xs k rule: member_get.induct) auto

definition is_object :: "JsonValue \<Rightarrow> bool" where
  "is_object v \<longleftrightarrow> (\<exists>ms. v = JSON_OBJECT ms)"

interpretation obj: first_wins "\<lambda>m. json_obj_get (Some m)" json_obj_add is_object
  by unfold_locales
    (auto simp: is_object_def json_obj_get_def member_get_append split: option.split)

lemma member_get_map_of: "member_get ms k = map_of ms k"
  by (induction ms k rule: member_get.induct) auto

lemma extract_serialised:
  assumes "CHR ''{'' \<notin> set pre"
  shows "extract_json_object (Some (pre @ json_text (JSON_OBJECT ms) @ post)) =
    Some (json_text (JSON_OBJECT ms), length pre + length (json_text (JSON_OBJECT ms)))"
proof -
  let ?body = "concat (members_pieces True ms)"
  have t: "json_text (JSON_OBJECT ms) @ post = CHR ''{'' # ?body @ CHR ''}'' # post"
    by (simp add: json_text_def)
  have "strchr (pre @ CHR ''{'' # w) (CHR ''{'') = Some (CHR ''{'' # w)" for w
    using assms by (induction pre) auto
  moreover have "brace_scan 0 False False (CHR ''{'' # ?body @ CHR ''}'' # post) =
      prepend [CHR ''{''] (brace_scan 1 False False (?body @ CHR ''}'' # post))"
    by (simp add: Let_def)
  moreover have "\<dots> = Some (CHR ''{'' # ?body @ [CHR ''}''], post)"
    by (simp add: brace_scan_pieces(3) Let_def)
  ultimately show ?thesis unfolding extract_json_object_def t by (simp add: json_text_def)
qed

section \<open>Properties\<close>

text \<open>C6: Parsing what the serialiser wrote gives the value back: for every value whose strings are
  C strings, whose numbers print to text that reads back, and whose nesting stays within the
  parser's limit; the allocator succeeds and the text fits in memory.\<close>

theorem json_roundtrip:
  assumes "json_ok v" and "jdepth v \<le> JSON_MAX_DEPTH" and "length (json_text v) + 1 < 2 ^ 64"
  shows "json_parse (json_serialize (\<lambda>_. True) (Some v)) = Some v"
proof -
  have i: "dyn_inv (dyn_str_new (\<lambda>_. True))" "contents (dyn_str_new (\<lambda>_. True)) = []"
    by (simp_all add: dyn_inv_def dyn_str_new_def contents_def)
  from dyn_ok.put_all_succeeds[OF i(1), of "json_pieces v"] assms(3) i(2)
  obtain ds where ds: "serialize_internal (\<lambda>_. True) (Some v) (dyn_str_new (\<lambda>_. True)) = Some ds"
    and di: "dyn_inv ds" and dc: "contents ds = json_text v"
    by (auto simp: serialize_internal_def json_text_def)
  have "json_text v \<noteq> []" using json_text_head[OF assms(1)] by auto
  with dc have "data ds = Some (json_text v)" by (auto simp: contents_def split: option.splits)
  with ds have "json_serialize (\<lambda>_. True) (Some v) = Some (json_text v)"
    by (simp add: json_serialize_def)
  moreover have "parse_value_depth 0 (json_text v @ []) = Some (v, [])"
    by (rule parse_json_text[OF assms(1)]) (use assms(2) in simp_all)
  ultimately show ?thesis by (simp add: json_parse_def)
qed

theorem json_roundtrip_witness:
  "let v = JSON_OBJECT [(''a'', JSON_ARRAY [JSON_NUMBER (DFin True 6755399441055744 (-52)), JSON_NULL]),
      ([CHR 0x01, DQ, CHR 0xC3], JSON_STRING [LF, BSL, CHR 0x1F])]
   in json_parse (json_serialize (\<lambda>_. True) (Some v)) = Some v"
proof -
  have t: "number_text (DFin True 6755399441055744 (-52)) = ''-1.5''"
    by (simp add: number_text_def fmt_example)
  show ?thesis unfolding Let_def
  proof (rule json_roundtrip, goal_cases)
    case 1
    show ?case by (simp add: reads_back_def t strtod_example)
  next
    case 2
    show ?case by (simp add: JSON_MAX_DEPTH_def)
  next
    case 3
    show ?case by (simp add: json_text_def quoted_pieces_def t escape_char_def byte_def)
  qed
qed

text \<open>The parser never returns a value nested more deeply than its limit of 128, whatever the
  input.\<close>

theorem json_parse_depth_bound:
  assumes "json_parse src = Some v"
  shows "jdepth v \<le> JSON_MAX_DEPTH"
proof -
  from assms obtain s r where "parse_value_depth 0 s = Some (v, r)"
    by (auto simp: json_parse_def split: option.splits)
  with parse_within_depth(1)[of 0 s] show ?thesis by simp
qed

theorem json_parse_depth_bound_witness: "jdepth (JSON_ARRAY [JSON_ARRAY []]) \<le> JSON_MAX_DEPTH"
proof -
  have "json_parse (Some ''[[]] trailing'') = Some (JSON_ARRAY [JSON_ARRAY []])" by code_simp
  then show ?thesis by (rule json_parse_depth_bound)
qed

text \<open>Extracting a JSON object from free text finds exactly the serialised object, with the
  offset behind it, whatever follows it and whatever brace-free text precedes it: braces and
  quotes inside its strings do not confuse the scan.\<close>

theorem extract_finds_serialised_object:
  assumes "CHR ''{'' \<notin> set pre"
  shows "extract_json_object (Some (pre @ json_text (JSON_OBJECT ms) @ post)) =
    Some (json_text (JSON_OBJECT ms), length pre + length (json_text (JSON_OBJECT ms)))"
  using assms by (rule extract_serialised)

theorem extract_finds_serialised_object_witness:
  "extract_json_object (Some (''call: '' @ json_text (JSON_OBJECT [(''a}'', JSON_STRING ''{{'')]) @ '' } ok''))
   = Some (json_text (JSON_OBJECT [(''a}'', JSON_STRING ''{{'')]), 6 + length (json_text (JSON_OBJECT [(''a}'', JSON_STRING ''{{'')])))"
  by (subst extract_finds_serialised_object) simp_all

text \<open>A key lookup after a series of member additions to an object returns the first member
  added under that key; later duplicates never override it.\<close>

theorem json_lookup_first_member:
  "json_obj_get (Some (foldl (\<lambda>m (k, v). json_obj_add m k v) json_create_object kvs)) key = map_of kvs key"
  using obj.get_fold_add[of json_create_object kvs key]
  by (simp add: is_object_def json_create_object_def json_obj_get_def)

end
