(* ===== verification/Frontmatter.thy ===== *)
theory Frontmatter
  imports MiniJson
begin

text \<open>
  \<open>minifrontmatter.c\<close>: the parser of the YAML-like block between two fences at the head of a
  markdown file, which holds the manifests of skills and agents. The in-place mutation of the
  line buffer by \<open>strtok_r\<close> and the trimming functions is value passing here; the fixed arrays
  are lists with the code's bounds checked where the code checks them.
\<close>

definition MAX_FM_LIST_ITEMS :: nat where "MAX_FM_LIST_ITEMS = 32"
definition MAX_FM_ENTRIES :: nat where "MAX_FM_ENTRIES = 32"

record FrontmatterEntry =
  fkey :: cstr
  fvalue :: cstr
  list_items :: "cstr list"

record Frontmatter =
  entries :: "FrontmatterEntry list"
  body :: cstr

section \<open>Lines and values\<close>

definition trim_whitespace :: "cstr \<Rightarrow> cstr" where
  "trim_whitespace str = rskip isspace (lskip isspace str)"

definition unquote :: "cstr \<Rightarrow> cstr" where
  "unquote str0 =
     (let str = trim_whitespace str0 in
      if length str \<ge> 2 \<and> ((hd str = DQ \<and> last str = DQ) \<or> (hd str = SQ \<and> last str = SQ))
      then butlast (tl str) else str)"

text \<open>The items of a bracketed list; \<open>room\<close> is how many still fit in the entry.\<close>

fun take_items :: "nat \<Rightarrow> cstr list \<Rightarrow> cstr list" where
  "take_items 0 toks = []"
| "take_items (Suc room) [] = []"
| "take_items (Suc room) (tok # toks) =
     (let cleaned = unquote tok in
      if cleaned \<noteq> [] then cleaned # take_items room toks else take_items (Suc room) toks)"

definition parse_bracket_list :: "FrontmatterEntry \<Rightarrow> cstr \<Rightarrow> FrontmatterEntry" where
  "parse_bracket_list entry raw_val =
     (case (strchr raw_val (CHR ''[''), strrchr raw_val (CHR '']'')) of
        (Some start, Some end) \<Rightarrow>
          if length end \<ge> length start then entry
          else let buf = take (length start - length end - 1) (drop 1 start) in
            entry\<lparr>list_items := list_items entry @
              take_items (MAX_FM_LIST_ITEMS - length (list_items entry)) (strtok_all '','' buf)\<rparr>
      | _ \<Rightarrow> entry)"

section \<open>Fences\<close>

definition rest_of_line_blank :: "cstr \<Rightarrow> bool" where
  "rest_of_line_blank s = list_all isspace (takeWhile (\<lambda>c. c \<noteq> LF) s)"

definition next_line :: "cstr \<Rightarrow> cstr" where
  "next_line s = drop 1 (dropWhile (\<lambda>c. c \<noteq> LF) s)"

text \<open>The block before the closing fence and the body behind it.\<close>

function find_fence :: "cstr \<Rightarrow> (cstr \<times> cstr) option" where
  "find_fence scan =
     (if scan = [] then None
      else if (has_prefix ''---'' scan \<or> has_prefix ''...'' scan) \<and> rest_of_line_blank (drop 3 scan)
      then Some ([], next_line (drop 3 scan))
      else if LF \<in> set scan
      then prepend (takeWhile (\<lambda>c. c \<noteq> LF) scan @ [LF]) (find_fence (next_line scan))
      else None)"
  by pat_completeness auto
termination
proof (relation "measure length", goal_cases)
  case (2 scan)
  then have "dropWhile (\<lambda>c. c \<noteq> LF) scan \<noteq> []" by auto
  then have "length (next_line scan) < length (dropWhile (\<lambda>c. c \<noteq> LF) scan)"
    by (cases "dropWhile (\<lambda>c. c \<noteq> LF) scan") (simp_all add: next_line_def)
  also have "\<dots> \<le> length scan" by (rule length_dropWhile_le)
  finally show ?case by simp
qed simp

declare find_fence.simps [simp del]

definition skip_bom :: "cstr \<Rightarrow> cstr" where
  "skip_bom p = (if has_prefix [CHR 0xEF, CHR 0xBB, CHR 0xBF] p then drop 3 p else p)"

section \<open>Parsing\<close>

definition add_item :: "cstr \<Rightarrow> FrontmatterEntry \<Rightarrow> FrontmatterEntry" where
  "add_item item e =
     (if length (list_items e) < MAX_FM_LIST_ITEMS \<and> item \<noteq> []
      then e\<lparr>list_items := list_items e @ [item]\<rparr> else e)"

definition make_entry :: "cstr \<Rightarrow> cstr \<Rightarrow> FrontmatterEntry" where
  "make_entry key val =
     (let entry = \<lparr>fkey = key, fvalue = val, list_items = []\<rparr> in
      if CHR ''['' \<in> set val \<and> CHR '']'' \<in> set val then parse_bracket_list entry val else entry)"

definition fm_line :: "FrontmatterEntry list \<Rightarrow> cstr \<Rightarrow> FrontmatterEntry list" where
  "fm_line es line =
     (let t = trim_whitespace line in
      if t = [] \<or> hd t = CHR ''#'' then es
      else if has_prefix ''- '' t then
        (if es \<noteq> [] then butlast es @ [add_item (unquote (drop 2 t)) (last es)] else es)
      else case strchr t (CHR '':'') of None \<Rightarrow> es
        | Some colon \<Rightarrow>
          if length es < MAX_FM_ENTRIES then
            (let key = unquote (take (length t - length colon) t); val = unquote (drop 1 colon) in
             if key \<noteq> [] then es @ [make_entry key val] else es)
          else es)"

definition frontmatter_parse :: "cstr option \<Rightarrow> Frontmatter option" where
  "frontmatter_parse markdown_content =
     (case markdown_content of None \<Rightarrow> None
      | Some md \<Rightarrow>
        let p = lskip is_json_ws (skip_bom md) in
        if \<not> has_prefix ''---'' p then None
        else if \<not> rest_of_line_blank (drop 3 p) then None
        else case find_fence (next_line (drop 3 p)) of None \<Rightarrow> None
          | Some (fm_block, body_start) \<Rightarrow>
            Some \<lparr>entries = foldl fm_line [] (strtok_all [CR, LF] fm_block), body = body_start\<rparr>)"

section \<open>Accessors\<close>

fun find_entry :: "FrontmatterEntry list \<Rightarrow> cstr \<Rightarrow> FrontmatterEntry option" where
  "find_entry [] key = None"
| "find_entry (e # es) key = (if fkey e = key then Some e else find_entry es key)"

definition frontmatter_get_scalar :: "Frontmatter \<Rightarrow> cstr \<Rightarrow> cstr option" where
  "frontmatter_get_scalar fm key = map_option fvalue (find_entry (entries fm) key)"

definition frontmatter_get_list_item :: "Frontmatter \<Rightarrow> cstr \<Rightarrow> nat \<Rightarrow> cstr option" where
  "frontmatter_get_list_item fm key index =
     (case find_entry (entries fm) key of None \<Rightarrow> None
      | Some e \<Rightarrow> if index < length (list_items e) then Some (list_items e ! index) else None)"

definition frontmatter_get_list_count :: "Frontmatter \<Rightarrow> cstr \<Rightarrow> nat" where
  "frontmatter_get_list_count fm key =
     (case find_entry (entries fm) key of None \<Rightarrow> 0 | Some e \<Rightarrow> length (list_items e))"

text \<open>
  The size that is allocated, and the bytes that are then copied: the two loops over the items.
\<close>

fun joined_size :: "nat \<Rightarrow> nat \<Rightarrow> cstr list \<Rightarrow> nat" where
  "joined_size dlen j [] = 0"
| "joined_size dlen j (x # xs) = length x + (if j > 0 then dlen else 0) + joined_size dlen (Suc j) xs"

fun joined_copy :: "cstr \<Rightarrow> nat \<Rightarrow> cstr list \<Rightarrow> cstr" where
  "joined_copy delim j [] = []"
| "joined_copy delim j (x # xs) = (if j > 0 then delim else []) @ x @ joined_copy delim (Suc j) xs"

definition frontmatter_get_list_as_string :: "Frontmatter \<Rightarrow> cstr \<Rightarrow> cstr option \<Rightarrow> cstr option" where
  "frontmatter_get_list_as_string fm key delimiter =
     (let delim = (case delimiter of None \<Rightarrow> '', '' | Some d \<Rightarrow> d) in
      case find_entry (entries fm) key of None \<Rightarrow> None
      | Some e \<Rightarrow>
        if list_items e = [] then Some (fvalue e) else Some (joined_copy delim 0 (list_items e)))"

section \<open>The invariant of the parsed entries\<close>

definition entry_ok :: "FrontmatterEntry \<Rightarrow> bool" where
  "entry_ok e \<longleftrightarrow> fkey e \<noteq> [] \<and> length (list_items e) \<le> MAX_FM_LIST_ITEMS \<and> [] \<notin> set (list_items e)"

definition entries_ok :: "FrontmatterEntry list \<Rightarrow> bool" where
  "entries_ok es \<longleftrightarrow> length es \<le> MAX_FM_ENTRIES \<and> list_all entry_ok es"

lemma take_items_ok: "length (take_items n toks) \<le> n \<and> [] \<notin> set (take_items n toks)"
  by (induction n toks rule: take_items.induct) (auto simp: Let_def)

lemma parse_bracket_list_ok: "entry_ok e \<Longrightarrow> entry_ok (parse_bracket_list e v)"
proof -
  assume e: "entry_ok e"
  define room where "room = MAX_FM_LIST_ITEMS - length (list_items e)"
  have "entry_ok (e\<lparr>list_items := list_items e @ take_items room toks\<rparr>)" for toks
    using e take_items_ok[of room toks] by (auto simp: entry_ok_def room_def)
  with e show ?thesis
    unfolding parse_bracket_list_def room_def[symmetric] Let_def by (auto split: option.split)
qed

lemma make_entry_ok: "k \<noteq> [] \<Longrightarrow> entry_ok (make_entry k v)"
  by (auto simp: make_entry_def Let_def intro!: parse_bracket_list_ok) (simp_all add: entry_ok_def)

lemma add_item_ok: "entry_ok e \<Longrightarrow> entry_ok (add_item i e)"
  by (auto simp: add_item_def entry_ok_def)

lemma fm_line_ok: "entries_ok es \<Longrightarrow> entries_ok (fm_line es line)"
proof -
  assume es: "entries_ok es"
  have l: "entries_ok (butlast es @ [add_item i (last es)])" if "es \<noteq> []" for i
    using es that add_item_ok[of "last es" i]
    by (cases es rule: rev_cases) (auto simp: entries_ok_def)
  have n: "entries_ok (es @ [make_entry k v])" if "length es < MAX_FM_ENTRIES" "k \<noteq> []" for k v
    using es that make_entry_ok[of k v] by (auto simp: entries_ok_def)
  show ?thesis using es l n by (auto simp: fm_line_def Let_def split: option.split)
qed

lemma foldl_fm_line_ok: "entries_ok es \<Longrightarrow> entries_ok (foldl fm_line es ls)"
  by (induction ls arbitrary: es) (auto simp: fm_line_ok)

lemma find_entry_append:
  "find_entry (xs @ ys) k = (case find_entry xs k of Some e \<Rightarrow> Some e | None \<Rightarrow> find_entry ys k)"
  by (induction xs k rule: find_entry.induct) auto

lemma make_entry_key [simp]: "fkey (make_entry k v) = k" "fvalue (make_entry k v) = v"
  by (auto simp: make_entry_def parse_bracket_list_def Let_def split: option.split)

text \<open>The scalar lookup is first-wins, like the members of a JSON object.\<close>

interpretation fm: first_wins "\<lambda>es k. map_option fvalue (find_entry es k)"
  "\<lambda>es k v. es @ [make_entry k v]" "\<lambda>_. True"
  by unfold_locales (auto simp: find_entry_append split: option.split)

lemma joined_size_copy: "joined_size (length delim) j xs = length (joined_copy delim j xs)"
  by (induction xs arbitrary: j) auto

section \<open>Lemmas: a rendered block\<close>

text \<open>Words that survive trimming and unquoting, and the plain way to write entries.\<close>

definition fm_word :: "cstr \<Rightarrow> bool" where
  "fm_word s \<longleftrightarrow> s \<noteq> [] \<and> CR \<notin> set s \<and> LF \<notin> set s \<and> \<not> isspace (hd s) \<and> \<not> isspace (last s)
     \<and> hd s \<noteq> DQ \<and> hd s \<noteq> SQ"

definition plain_pair :: "cstr \<times> cstr \<Rightarrow> bool" where
  "plain_pair kv \<longleftrightarrow> (case kv of (k, v) \<Rightarrow>
     fm_word k \<and> fm_word v \<and> CHR '':'' \<notin> set k \<and> hd k \<notin> {CHR ''#'', CHR ''-'', CHR ''.''} \<and>
     \<not> (CHR ''['' \<in> set v \<and> CHR '']'' \<in> set v))"

definition render_pair :: "cstr \<times> cstr \<Rightarrow> cstr" where
  "render_pair kv = (case kv of (k, v) \<Rightarrow> k @ '': '' @ v)"

definition render_block :: "(cstr \<times> cstr) list \<Rightarrow> cstr" where
  "render_block kvs = concat (map (\<lambda>kv. render_pair kv @ [LF]) kvs)"

lemma lskip_id: "s \<noteq> [] \<Longrightarrow> \<not> P (hd s) \<Longrightarrow> lskip P s = s"
  by (cases s) (auto simp: lskip_def)

lemma rskip_id: "s \<noteq> [] \<Longrightarrow> \<not> P (last s) \<Longrightarrow> rskip P s = s"
  by (cases s rule: rev_cases) (auto simp: rskip_def)

lemma trim_id: "s \<noteq> [] \<Longrightarrow> \<not> isspace (hd s) \<Longrightarrow> \<not> isspace (last s) \<Longrightarrow> trim_whitespace s = s"
  by (simp add: trim_whitespace_def lskip_id rskip_id)

lemma unquote_word: "fm_word s \<Longrightarrow> unquote s = s"
  by (simp add: unquote_def Let_def trim_id fm_word_def)

lemma isspace_blank: "isspace (CHR '' '')"
  by (simp add: isspace_def)

lemma unquote_blank_word: "fm_word s \<Longrightarrow> unquote (CHR '' '' # s) = s"
proof -
  assume w: "fm_word s"
  have "trim_whitespace (CHR '' '' # s) = trim_whitespace s"
    by (simp add: trim_whitespace_def lskip_def isspace_blank)
  with unquote_word[OF w] show ?thesis by (simp add: unquote_def)
qed

lemma strtok_all_line:
  assumes "l \<noteq> []" "CR \<notin> set l" "LF \<notin> set l"
  shows "strtok_all [CR, LF] (l @ LF # r) = l # strtok_all [CR, LF] r"
proof -
  have nd: "\<forall>c \<in> set l. c \<notin> set [CR, LF]" using assms(2,3) by auto
  have d: "dropWhile (\<lambda>c. c \<in> set [CR, LF]) (l @ LF # r) = l @ LF # r"
    using assms(1) nd by (cases l) auto
  have t: "takeWhile (\<lambda>c. c \<notin> set [CR, LF]) (l @ LF # r) = l"
    "dropWhile (\<lambda>c. c \<notin> set [CR, LF]) (l @ LF # r) = LF # r"
    using nd by (simp_all add: takeWhile_append2 dropWhile_append2)
  have "strtok [CR, LF] (l @ LF # r) = Some (l, r)"
    unfolding strtok_def d using t assms(1) by (cases l) simp_all
  then show ?thesis by (simp add: strtok_all.simps[of _ "l @ LF # r"])
qed

lemma strtok_all_Nil: "strtok_all ds [] = []"
  by (simp add: strtok_all.simps[of ds "[]"] strtok_def)

lemma render_pair_props:
  assumes "plain_pair kv"
  shows "render_pair kv \<noteq> []" "CR \<notin> set (render_pair kv)" "LF \<notin> set (render_pair kv)"
    "hd (render_pair kv) \<notin> {CHR ''#'', CHR ''-'', CHR ''.''}" "trim_whitespace (render_pair kv) = render_pair kv"
proof -
  obtain k v where kv: "kv = (k, v)" by (cases kv) auto
  with assms have k: "k \<noteq> []" "v \<noteq> []" and p: "plain_pair (k, v)" by (auto simp: plain_pair_def fm_word_def)
  then have "hd (render_pair kv) = hd k" "last (render_pair kv) = last v"
    by (simp_all add: render_pair_def kv)
  with k p show "render_pair kv \<noteq> []" "CR \<notin> set (render_pair kv)" "LF \<notin> set (render_pair kv)"
    "hd (render_pair kv) \<notin> {CHR ''#'', CHR ''-'', CHR ''.''}" "trim_whitespace (render_pair kv) = render_pair kv"
    by (auto simp: render_pair_def kv plain_pair_def fm_word_def intro!: trim_id)
qed

lemma strtok_all_block:
  "\<forall>kv \<in> set kvs. plain_pair kv \<Longrightarrow> strtok_all [CR, LF] (render_block kvs) = map render_pair kvs"
proof (induction kvs)
  case Nil
  show ?case by (simp add: render_block_def strtok_all_Nil)
next
  case (Cons kv kvs)
  then show ?case
    using strtok_all_line[OF render_pair_props(1-3), of kv "render_block kvs"]
    by (simp add: render_block_def)
qed

lemma strchr_colon: "CHR '':'' \<notin> set k \<Longrightarrow> strchr (k @ CHR '':'' # v) (CHR '':'') = Some (CHR '':'' # v)"
  by (induction k) auto

lemma fm_line_pair:
  assumes "plain_pair (k, v)" "length es < MAX_FM_ENTRIES"
  shows "fm_line es (render_pair (k, v)) = es @ [\<lparr>fkey = k, fvalue = v, list_items = []\<rparr>]"
proof -
  note rp = render_pair_props[OF assms(1)]
  have nb: "\<not> has_prefix ''- '' (render_pair (k, v))"
    using rp(1,4) by (cases "render_pair (k, v)") auto
  have rt: "render_pair (k, v) = k @ CHR '':'' # CHR '' '' # v" by (simp add: render_pair_def)
  have w: "fm_word k" "fm_word v" "CHR '':'' \<notin> set k" "k \<noteq> []"
    using assms(1) by (simp_all add: plain_pair_def fm_word_def)
  have sc: "strchr (render_pair (k, v)) (CHR '':'') = Some (CHR '':'' # CHR '' '' # v)"
    unfolding rt by (rule strchr_colon[OF w(3)])
  have tk: "take (length (render_pair (k, v)) - length (CHR '':'' # CHR '' '' # v)) (render_pair (k, v)) = k"
    by (simp add: rt)
  have me: "make_entry k v = \<lparr>fkey = k, fvalue = v, list_items = []\<rparr>"
    using assms(1) by (auto simp: make_entry_def plain_pair_def)
  show ?thesis
    unfolding fm_line_def Let_def rp(5) sc option.case tk
    using rp(1,4) nb assms(2) w by (simp add: unquote_word unquote_blank_word me)
qed

lemma foldl_fm_line_pairs:
  "\<forall>kv \<in> set kvs. plain_pair kv \<Longrightarrow> length es + length kvs \<le> MAX_FM_ENTRIES \<Longrightarrow>
     foldl fm_line es (map render_pair kvs) =
     es @ map (\<lambda>(k, v). \<lparr>fkey = k, fvalue = v, list_items = []\<rparr>) kvs"
  by (induction kvs arbitrary: es) (auto simp: fm_line_pair)

lemma next_line_append: "LF \<notin> set l \<Longrightarrow> next_line (l @ LF # r) = r"
  by (induction l) (auto simp: next_line_def)

lemma takeWhile_line: "LF \<notin> set l \<Longrightarrow> takeWhile (\<lambda>c. c \<noteq> LF) (l @ LF # r) = l"
  by (induction l) auto

lemma find_fence_closing: "find_fence (''---'' @ LF # r) = Some ([], r)"
  using next_line_append[of "[]" r]
  by (simp add: find_fence.simps[of "CHR ''-'' # x" for x] rest_of_line_blank_def)

lemma find_fence_block:
  "\<forall>kv \<in> set kvs. plain_pair kv \<Longrightarrow>
     find_fence (render_block kvs @ ''---'' @ LF # r) = Some (render_block kvs, r)"
proof (induction kvs)
  case Nil
  show ?case using find_fence_closing[of r] by (simp add: render_block_def)
next
  case (Cons kv kvs)
  have pk: "plain_pair kv" and pks: "\<forall>kv \<in> set kvs. plain_pair kv" using Cons.prems by simp_all
  note rp = render_pair_props[OF pk]
  let ?rest = "render_block kvs @ ''---'' @ LF # r"
  have e: "render_block (kv # kvs) @ ''---'' @ LF # r = render_pair kv @ LF # ?rest"
    by (simp add: render_block_def)
  have nf: "\<not> has_prefix ''---'' (render_pair kv @ LF # ?rest)" "\<not> has_prefix ''...'' (render_pair kv @ LF # ?rest)"
  proof -
    obtain c l where c: "render_pair kv = c # l" using rp(1) by (cases "render_pair kv") auto
    with rp(4) have "c \<noteq> CHR ''-''" "c \<noteq> CHR ''.''" by auto
    then show "\<not> has_prefix ''---'' (render_pair kv @ LF # ?rest)" "\<not> has_prefix ''...'' (render_pair kv @ LF # ?rest)"
      unfolding c by simp_all
  qed
  have "find_fence (render_pair kv @ LF # ?rest) = prepend (render_pair kv @ [LF]) (find_fence ?rest)"
    unfolding find_fence.simps[of "render_pair kv @ LF # ?rest"]
    using nf rp(3) by (simp add: next_line_append takeWhile_line del: has_prefix.simps)
  then show ?case unfolding e using Cons.IH[OF pks] by (simp add: render_block_def)
qed

section \<open>Properties\<close>

text \<open>Parsing a block of plain \<open>key: value\<close> lines between fences gives exactly these entries,
  in order, and exactly the text behind the closing fence as the body.\<close>

theorem frontmatter_roundtrip:
  assumes "\<forall>kv \<in> set kvs. plain_pair kv" and "length kvs \<le> MAX_FM_ENTRIES"
  shows "frontmatter_parse (Some (''---'' @ [LF] @ render_block kvs @ ''---'' @ [LF] @ md)) =
    Some \<lparr>entries = map (\<lambda>(k, v). \<lparr>fkey = k, fvalue = v, list_items = []\<rparr>) kvs, body = md\<rparr>"
proof -
  let ?p = "''---'' @ LF # render_block kvs @ ''---'' @ LF # md"
  have "lskip is_json_ws (skip_bom ?p) = ?p"
    by (simp add: skip_bom_def lskip_def is_json_ws_def)
  moreover have "rest_of_line_blank (drop 3 ?p)" "next_line (drop 3 ?p) = render_block kvs @ ''---'' @ LF # md"
    using next_line_append[of "[]"] by (simp_all add: rest_of_line_blank_def)
  moreover have "has_prefix ''---'' ?p" by simp
  ultimately show ?thesis
    using find_fence_block[OF assms(1), of md] strtok_all_block[OF assms(1)]
      foldl_fm_line_pairs[OF assms(1), of "[]"] assms(2)
    by (simp add: frontmatter_parse_def Let_def del: has_prefix.simps)
qed

theorem frontmatter_roundtrip_witness:
  "frontmatter_parse (Some (''---'' @ [LF] @ render_block [(''name'', ''tester''), (''max-turns'', ''8'')] @ ''---'' @ [LF] @ ''Hi'')) =
    Some \<lparr>entries = map (\<lambda>(k, v). \<lparr>fkey = k, fvalue = v, list_items = []\<rparr>) [(''name'', ''tester''), (''max-turns'', ''8'')],
          body = ''Hi''\<rparr>"
  by (rule frontmatter_roundtrip) (simp_all add: plain_pair_def fm_word_def isspace_def byte_def MAX_FM_ENTRIES_def)

text \<open>Whatever the file holds, a parsed block has at most 32 entries with at most 32 items
  each, no empty key and no empty item: the fixed arrays are never overrun.\<close>

theorem frontmatter_bounds:
  assumes "frontmatter_parse src = Some fm"
  shows "length (entries fm) \<le> MAX_FM_ENTRIES \<and>
    (\<forall>e \<in> set (entries fm). fkey e \<noteq> [] \<and> length (list_items e) \<le> MAX_FM_LIST_ITEMS \<and> [] \<notin> set (list_items e))"
proof -
  from assms obtain ls where "entries fm = foldl fm_line [] ls"
    by (auto simp: frontmatter_parse_def Let_def split: option.splits if_splits)
  moreover have "entries_ok (foldl fm_line [] ls)" by (rule foldl_fm_line_ok) (simp add: entries_ok_def)
  ultimately show ?thesis by (simp add: entries_ok_def entry_ok_def list_all_iff)
qed

theorem frontmatter_bounds_witness:
  "\<exists>fm. frontmatter_parse (Some (''---'' @ [LF] @ ''tools: [a, b]'' @ [LF] @ ''...'')) = Some fm \<and>
     length (entries fm) \<le> MAX_FM_ENTRIES"
proof -
  have "frontmatter_parse (Some (''---'' @ [LF] @ ''tools: [a, b]'' @ [LF] @ ''...'')) =
    Some \<lparr>entries = [\<lparr>fkey = ''tools'', fvalue = ''[a, b]'', list_items = [''a'', ''b'']\<rparr>], body = []\<rparr>"
    by code_simp
  from this frontmatter_bounds[OF this] show ?thesis by blast
qed

text \<open>Joining the items of a list entry writes exactly as many bytes as were allocated for it
  (without the terminator).\<close>

theorem list_join_fits_allocation:
  assumes "find_entry (entries fm) key = Some e" and "list_items e \<noteq> []"
  shows "\<exists>s. frontmatter_get_list_as_string fm key (Some delim) = Some s \<and>
    length s = joined_size (length delim) 0 (list_items e)"
  using assms by (simp add: frontmatter_get_list_as_string_def joined_size_copy)

theorem list_join_fits_allocation_witness:
  "\<exists>s. frontmatter_get_list_as_string
      \<lparr>entries = [\<lparr>fkey = ''k'', fvalue = [], list_items = [''a'', ''bc'']\<rparr>], body = []\<rparr> ''k'' (Some ''|'') = Some s \<and>
     length s = joined_size 1 0 [''a'', ''bc'']"
  using list_join_fits_allocation[of
      "\<lparr>entries = [\<lparr>fkey = ''k'', fvalue = [], list_items = [''a'', ''bc'']\<rparr>], body = []\<rparr>" "''k''"
      "\<lparr>fkey = ''k'', fvalue = [], list_items = [''a'', ''bc'']\<rparr>" "''|''"] by simp

text \<open>A list item behind a 33rd key is attached to the 32nd entry: the parser ignores keys
  beyond its limit but still appends the bullets that follow them to the last entry it kept.\<close>

theorem bullet_after_overflow_misattributed:
  assumes "length es = MAX_FM_ENTRIES" and "plain_pair (k, v)"
    and "fm_word item" and "length (list_items (last es)) < MAX_FM_LIST_ITEMS"
  shows "foldl fm_line es [render_pair (k, v), ''- '' @ item] =
    butlast es @ [(last es)\<lparr>list_items := list_items (last es) @ [item]\<rparr>]"
proof -
  note rp = render_pair_props[OF assms(2)]
  have "\<not> has_prefix ''- '' (render_pair (k, v))" using rp(1,4) by (cases "render_pair (k, v)") auto
  then have 1: "fm_line es (render_pair (k, v)) = es"
    using rp assms(1) by (auto simp: fm_line_def Let_def split: option.split)
  have ne: "es \<noteq> []" using assms(1) by (auto simp: MAX_FM_ENTRIES_def)
  have "trim_whitespace (''- '' @ item) = ''- '' @ item"
    using assms(3) by (intro trim_id) (auto simp: fm_word_def isspace_def byte_def)
  moreover have "item \<noteq> []" using assms(3) by (simp add: fm_word_def)
  ultimately have "fm_line es (''- '' @ item) = butlast es @ [(last es)\<lparr>list_items := list_items (last es) @ [item]\<rparr>]"
    using ne assms(3,4) by (simp add: fm_line_def Let_def unquote_word add_item_def)
  with 1 show ?thesis by simp
qed

theorem bullet_after_overflow_misattributed_witness:
  "let es = replicate 32 \<lparr>fkey = ''k'', fvalue = ''v'', list_items = []\<rparr> in
   foldl fm_line es [render_pair (''other'', ''list''), ''- '' @ ''x''] =
    butlast es @ [(last es)\<lparr>list_items := list_items (last es) @ [''x'']\<rparr>]"
  unfolding Let_def
  by (rule bullet_after_overflow_misattributed)
    (simp_all add: plain_pair_def fm_word_def isspace_def byte_def MAX_FM_ENTRIES_def MAX_FM_LIST_ITEMS_def)

end
