(* ===== verification/RecencyRing.thy ===== *)
theory RecencyRing
  imports Prelude
begin

text \<open>
  The contract of the two ring buffers of the harness, the action history of the cycle detector and
  the output buffer of a background task: a ring remembers the most recent entries. Both components
  interpret the locale on their own push operation.
\<close>

text \<open>
  Pushing onto a ring makes the new entry the most recent one and shifts the others back, up to the
  capacity.
\<close>

locale recency_ring =
  fixes push :: "'x \<Rightarrow> 'r \<Rightarrow> 'r"
    and recent :: "'r \<Rightarrow> nat \<Rightarrow> 'x"
    and held :: "'r \<Rightarrow> nat"
    and cap :: nat
    and ok :: "'r \<Rightarrow> bool"
  assumes push_ok: "ok r \<Longrightarrow> ok (push x r)"
    and held_push: "ok r \<Longrightarrow> held (push x r) = min cap (Suc (held r))"
    and recent_new: "ok r \<Longrightarrow> recent (push x r) 0 = x"
    and recent_old: "ok r \<Longrightarrow> Suc i < cap \<Longrightarrow> recent (push x r) (Suc i) = recent r i"
begin

lemma recent_fold:
  assumes "ok r" and "held r = 0"
  shows "ok (fold push xs r) \<and> held (fold push xs r) = min cap (length xs) \<and>
    (\<forall>i < min cap (length xs). recent (fold push xs r) i = rev xs ! i)"
proof (induction xs rule: rev_induct)
  case Nil
  show ?case using assms by simp
next
  case (snoc x xs)
  let ?r = "fold push xs r"
  have ok: "ok ?r" and held: "held ?r = min cap (length xs)" using snoc by auto
  have "recent (push x ?r) i = rev (xs @ [x]) ! i" if "i < min cap (length (xs @ [x]))" for i
  proof (cases i)
    case 0
    then show ?thesis by (simp add: recent_new[OF ok])
  next
    case (Suc j)
    with that have "Suc j < cap" "j < min cap (length xs)" by auto
    with Suc snoc show ?thesis by (simp add: recent_old[OF ok])
  qed
  then show ?case using ok held by (auto simp: push_ok held_push)
qed

lemma recent_list:
  assumes "ok r" and "held r = 0"
  shows "map (recent (fold push xs r)) [0..<held (fold push xs r)] = take cap (rev xs)"
  using recent_fold[OF assms, of xs] by (intro nth_equalityI) auto

end

section \<open>Indices of a ring of n places\<close>

lemma ring_index_new: "(h :: nat) < n \<Longrightarrow> (Suc h mod n + n - 1) mod n = h"
  by (cases "Suc h = n") (auto simp: less_Suc_eq le_less Suc_le_eq)

lemma ring_index_old:
  assumes "(h :: nat) < n" "Suc i < n"
  shows "(Suc h mod n + n - 1 - Suc i) mod n = (h + n - 1 - i) mod n" "(h + n - 1 - i) mod n \<noteq> h"
proof -
  show "(Suc h mod n + n - 1 - Suc i) mod n = (h + n - 1 - i) mod n"
  proof (cases "Suc h = n")
    case True
    then have "h + n - 1 - i = n + (n - 2 - i)" using assms by linarith
    moreover have "Suc h mod n + n - 1 - Suc i = n - 2 - i" using True by simp
    moreover have "(n + (n - 2 - i)) mod n = (n - 2 - i) mod n" by (rule mod_add_self1)
    ultimately show ?thesis by simp
  next
    case False
    then have "Suc h mod n = Suc h" using assms by simp
    then show ?thesis by simp
  qed
  show "(h + n - 1 - i) mod n \<noteq> h"
  proof (cases "h + n - 1 - i < n")
    case False
    then have "(h + n - 1 - i) mod n = h - 1 - i" using assms by (simp add: le_mod_geq)
    with False show ?thesis using assms by linarith
  qed (use assms in simp)
qed

end
