(* ===== verification/TurnGuard.thy ===== *)
theory TurnGuard
  imports CommonText CNumber RecencyRing
begin

unbundle bit_operations_syntax

text \<open>
  The guards of one turn in \<open>belya_harness.c\<close>: the ring of the last 32 actions with the detector
  of repeated cycles, the counter of consecutive failures, the flags of the verification guard,
  and the lookup of a remedy for an error in TROUBLESHOOTING.md. The fields are those of the
  harness they live in, which extends the record. Files are a parameter: the bytes of each file
  that can be opened.
\<close>

section \<open>Action hashes\<close>

fun fnv1a_bytes :: "cstr \<Rightarrow> u64 \<Rightarrow> u64" where
  "fnv1a_bytes [] hash = hash"
| "fnv1a_bytes (c # s) hash = fnv1a_bytes s ((hash XOR of_nat (byte c)) * 1099511628211)"

definition fnv1a_hash_str :: "cstr option \<Rightarrow> u64 \<Rightarrow> u64" where
  "fnv1a_hash_str s hash = (case s of None \<Rightarrow> hash | Some t \<Rightarrow> fnv1a_bytes t hash)"

definition compute_action_hash :: "cstr option \<Rightarrow> cstr option \<Rightarrow> u64" where
  "compute_action_hash tool_name args_json =
     (let h = 14695981039346656037;
          h = fnv1a_hash_str tool_name h;
          h = fnv1a_hash_str (Some '':'') h in
      fnv1a_hash_str args_json h)"

section \<open>State\<close>

definition HARNESS_ACTION_HISTORY_SIZE :: nat where "HARNESS_ACTION_HISTORY_SIZE = 32"

record HarnessActionRecord =
  action_hash :: u64
  rec_tool :: cstr
  return_code :: nat
  timestamp :: int

record HarnessLoopDetector =
  history :: "HarnessActionRecord list"
  head :: nat
  count :: nat
  consecutive_cycle_matches :: nat
  detected_period :: nat

record TurnGuard =
  last_failed_tool :: cstr
  last_failed_args :: cstr
  consecutive_tool_failures :: nat
  files_modified_in_turn :: bool
  verification_performed_in_turn :: bool
  verification_guard_tripped :: bool
  loop_detector :: HarnessLoopDetector
  loop_breaker_tripped :: bool

definition no_action :: HarnessActionRecord where
  "no_action = \<lparr>action_hash = 0, rec_tool = [], return_code = 0, timestamp = 0\<rparr>"

definition empty_detector :: HarnessLoopDetector where
  "empty_detector = \<lparr>history = replicate HARNESS_ACTION_HISTORY_SIZE no_action, head = 0, count = 0,
     consecutive_cycle_matches = 0, detected_period = 0\<rparr>"

definition belya_harness_reset_turn_state :: "'a TurnGuard_scheme \<Rightarrow> 'a TurnGuard_scheme" where
  "belya_harness_reset_turn_state h =
     h\<lparr>files_modified_in_turn := False, verification_performed_in_turn := False,
       verification_guard_tripped := False, consecutive_tool_failures := 0,
       last_failed_tool := [], last_failed_args := [], loop_breaker_tripped := False,
       loop_detector := empty_detector\<rparr>"

section \<open>Cycle detection\<close>

definition hash_back :: "HarnessLoopDetector \<Rightarrow> nat \<Rightarrow> u64" where
  "hash_back d n =
     action_hash (history d ! ((head d + HARNESS_ACTION_HISTORY_SIZE - 1 - n) mod HARNESS_ACTION_HISTORY_SIZE))"

definition cycle_matched :: "HarnessLoopDetector \<Rightarrow> nat \<Rightarrow> bool" where
  "cycle_matched d k \<longleftrightarrow>
     list_all (\<lambda>i. hash_back d i = hash_back d (i + k) \<and> hash_back d i = hash_back d (i + 2 * k)) [0..<k]"

definition belya_harness_detect_loop :: "HarnessLoopDetector \<Rightarrow> nat" where
  "belya_harness_detect_loop d =
     (if count d < 3 then 0
      else case find (\<lambda>k. 3 * k \<le> count d \<and> cycle_matched d k) [1, 2, 3] of
        Some k \<Rightarrow> k | None \<Rightarrow> 0)"

definition push_action :: "HarnessActionRecord \<Rightarrow> HarnessLoopDetector \<Rightarrow> HarnessLoopDetector" where
  "push_action r d =
     d\<lparr>history := (history d)[head d := r],
       head := (head d + 1) mod HARNESS_ACTION_HISTORY_SIZE,
       count := (if count d < HARNESS_ACTION_HISTORY_SIZE then count d + 1 else count d)\<rparr>"

section \<open>Remedies\<close>

definition pat_hdr :: cstr where "pat_hdr = ''## Pattern: ''"

definition pattern_of :: "cstr \<Rightarrow> cstr" where
  "pattern_of line =
     (let pattern_str = lskip (\<lambda>c. c = CHR '' '' \<or> c = BQ) (drop (length pat_hdr) line);
          pat_clean = take 255 pattern_str in
      rskip isspace (takeWhile (\<lambda>c. c \<noteq> BQ) pat_clean))"

definition section_of :: "cstr \<Rightarrow> cstr" where
  "section_of p =
     (case strstr p ([LF] @ ''## '') of None \<Rightarrow> p | Some e \<Rightarrow> take (length p - length e) p)"

function find_remedy :: "cstr \<Rightarrow> cstr \<Rightarrow> cstr option" where
  "find_remedy error_trace p =
     (if p = [] then None
      else let line = takeWhile (\<lambda>c. c \<noteq> LF) p; next = drop (length line + 1) p in
        if has_prefix pat_hdr line \<and> pattern_of line \<noteq> [] \<and>
           contains_case_insensitive (Some error_trace) (Some (pattern_of line))
        then Some (''Pattern: '' @ pattern_of line @ [LF] @ section_of next)
        else find_remedy error_trace next)"
  by pat_completeness auto
termination
  by (relation "measure (\<lambda>(e, p). length p)") auto

declare find_remedy.simps [simp del]

definition belya_troubleshooting_resolve ::
    "(cstr \<Rightarrow> cstr option) \<Rightarrow> cstr option \<Rightarrow> cstr option \<Rightarrow> cstr option" where
  "belya_troubleshooting_resolve files error_trace troubleshooting_path =
     (case error_trace of None \<Rightarrow> None
      | Some trace \<Rightarrow>
        if trace = [] then None
        else
          let path = (case troubleshooting_path of None \<Rightarrow> ''TROUBLESHOOTING.md'' | Some q \<Rightarrow> q);
              f = (case files path of Some b \<Rightarrow> Some b
                   | None \<Rightarrow> if path = ''TROUBLESHOOTING.md'' then files ''docs/TROUBLESHOOTING.md'' else None) in
          case f of None \<Rightarrow> None
          | Some bytes \<Rightarrow>
            if bytes = [] \<or> length bytes > 500000 then None
            else find_remedy trace (takeWhile (\<lambda>c. c \<noteq> NUL) bytes))"

section \<open>Recording an observation\<close>

definition observation_failed :: "cstr option \<Rightarrow> bool" where
  "observation_failed obs =
     (case obs of None \<Rightarrow> True
      | Some t \<Rightarrow>
        contains_case_insensitive obs (Some ''error:'') \<or> contains_case_insensitive obs (Some ''failed'') \<or>
        contains_case_insensitive obs (Some ''exit status'') \<or>
        contains_case_insensitive obs (Some ''command not found'') \<or>
        contains_case_insensitive obs (Some ''AddressSanitizer'') \<or>
        contains_case_insensitive obs (Some ''fatal:'') \<or> has_prefix ''Error:'' t)"

definition obs_text :: "cstr option \<Rightarrow> cstr" where
  "obs_text obs = (case obs of None \<Rightarrow> ''Tool returned empty observation'' | Some t \<Rightarrow> t)"

definition attractor_text :: "nat \<Rightarrow> cstr \<Rightarrow> cstr" where
  "attractor_text k tool =
     [LF, LF] @ ''[CIRCUIT INTERRUPT: DETERMINISTIC ATTRACTOR DETECTED (Period '' @ dec_text k @ '')]'' @ [LF] @
     ''You have executed the exact same sequence of '' @ dec_text k @ '' action(s) ('' @ tool @
     '') 3 consecutive times with identical parameters.'' @ [LF] @
     ''Your current hypothesis is fundamentally flawed. You are strictly forbidden from repeating this action.'' @ [LF] @
     ''Step back, re-read your initial constraints, and select an alternative hypothesis.''"

definition breaker_text :: "cstr \<Rightarrow> cstr" where
  "breaker_text tool =
     [LF, LF] @ ''[METACOGNITIVE CIRCUIT BREAKER]: You have attempted tool '' @ [SQ] @ tool @ [SQ] @
     '' with identical/failing arguments 3 times consecutively. '' @
     ''STOP repeating this action. Step back, re-evaluate assumptions, inspect error details, or switch to an alternate strategy.''"

definition remedy_text :: "cstr \<Rightarrow> cstr" where
  "remedy_text remedy =
     [LF, LF, CHR 0xF0, CHR 0x9F, CHR 0x92, CHR 0xA1] @
     '' [TROUBLESHOOTING RESOLVER]: Known Failure Pattern Remedy:'' @ [LF] @ remedy"

definition track_actions :: "cstr \<Rightarrow> 'a TurnGuard_scheme \<Rightarrow> 'a TurnGuard_scheme" where
  "track_actions tool h =
     (let h = (if tool = ''write_file'' \<or> tool = ''edit_file'' \<or> tool = ''apply_patch''
               then h\<lparr>files_modified_in_turn := True\<rparr> else h) in
      if tool = ''bash'' \<or> tool = ''git_diff'' \<or> tool = ''git_status''
      then h\<lparr>verification_performed_in_turn := True\<rparr> else h)"

definition count_failure :: "cstr \<Rightarrow> cstr \<Rightarrow> 'a TurnGuard_scheme \<Rightarrow> 'a TurnGuard_scheme" where
  "count_failure tool args h =
     (let args_prefix = take 255 args in
      if last_failed_tool h = tool \<and> last_failed_args h = args_prefix
      then h\<lparr>consecutive_tool_failures := consecutive_tool_failures h + 1\<rparr>
      else h\<lparr>last_failed_tool := take 63 tool, last_failed_args := args_prefix,
             consecutive_tool_failures := 1\<rparr>)"

definition note_cycle :: "nat \<Rightarrow> 'a TurnGuard_scheme \<Rightarrow> 'a TurnGuard_scheme" where
  "note_cycle k h =
     h\<lparr>loop_detector := (loop_detector h)\<lparr>
         consecutive_cycle_matches := consecutive_cycle_matches (loop_detector h) + 1, detected_period := k\<rparr>\<rparr>"

text \<open>Whether a breaker tripped, the text that replaces the observation if any, and the new state.\<close>

definition belya_harness_record_tool_observation ::
    "(cstr \<Rightarrow> cstr option) \<Rightarrow> int \<Rightarrow> cstr \<Rightarrow> cstr option \<Rightarrow> cstr option \<Rightarrow> 'a TurnGuard_scheme \<Rightarrow>
     bool \<times> cstr option \<times> 'a TurnGuard_scheme" where
  "belya_harness_record_tool_observation files now tool args_json obs h =
     (let h = track_actions tool h;
          is_failure = observation_failed obs;
          r = \<lparr>action_hash = compute_action_hash (Some tool) args_json, rec_tool = take 47 tool,
               return_code = (if is_failure then 1 else 0), timestamp = now\<rparr>;
          h = h\<lparr>loop_detector := push_action r (loop_detector h)\<rparr>;
          detected_k = belya_harness_detect_loop (loop_detector h) in
      if is_failure then
        let h = count_failure tool (case args_json of None \<Rightarrow> [] | Some t \<Rightarrow> t) h;
            remedy = (case obs of None \<Rightarrow> None
                      | Some t \<Rightarrow> belya_troubleshooting_resolve files (Some t) (Some ''TROUBLESHOOTING.md'')) in
        if consecutive_tool_failures h \<ge> 3 \<or> detected_k > 0 then
          let h = h\<lparr>loop_breaker_tripped := True\<rparr>;
              h = (if detected_k > 0 then note_cycle detected_k h else h);
              cb = obs_text obs @ breaker_text tool @
                   (if detected_k > 1 then attractor_text detected_k tool else []) @
                   (case remedy of None \<Rightarrow> [] | Some t \<Rightarrow> remedy_text t) in
          (True, Some cb, h\<lparr>consecutive_tool_failures := 0\<rparr>)
        else
          (False, (case remedy of None \<Rightarrow> None
             | Some t \<Rightarrow> Some ((case obs of None \<Rightarrow> ''Tool execution failed.'' | Some u \<Rightarrow> u) @ remedy_text t)), h)
      else
        let h = h\<lparr>consecutive_tool_failures := 0, last_failed_tool := [], last_failed_args := []\<rparr> in
        if detected_k > 0 then
          (True, Some (obs_text obs @ attractor_text detected_k tool),
           note_cycle detected_k (h\<lparr>loop_breaker_tripped := True\<rparr>))
        else (False, None, h))"

section \<open>Rings\<close>

definition recent_action :: "HarnessLoopDetector \<Rightarrow> nat \<Rightarrow> HarnessActionRecord" where
  "recent_action d i = history d ! ((head d + HARNESS_ACTION_HISTORY_SIZE - 1 - i) mod HARNESS_ACTION_HISTORY_SIZE)"

definition ring_ok :: "HarnessLoopDetector \<Rightarrow> bool" where
  "ring_ok d \<longleftrightarrow> length (history d) = HARNESS_ACTION_HISTORY_SIZE \<and>
     head d < HARNESS_ACTION_HISTORY_SIZE \<and> count d \<le> HARNESS_ACTION_HISTORY_SIZE"

interpretation ring: recency_ring push_action recent_action count HARNESS_ACTION_HISTORY_SIZE ring_ok
proof (unfold_locales, goal_cases)
  case (3 r x)
  then show ?case using ring_index_new[of "head r" 32]
    by (simp add: recent_action_def push_action_def ring_ok_def HARNESS_ACTION_HISTORY_SIZE_def)
next
  case (4 r i x)
  then show ?case using ring_index_old[of "head r" 32 i]
    by (simp add: add.commute recent_action_def push_action_def ring_ok_def HARNESS_ACTION_HISTORY_SIZE_def)
qed (auto simp: push_action_def ring_ok_def HARNESS_ACTION_HISTORY_SIZE_def)

section \<open>Cycles in a log\<close>

text \<open>\<open>cyclic k xs\<close>: the first \<open>k\<close> entries stand three times in a row; newest entry first.\<close>

definition cyclic :: "nat \<Rightarrow> 'x list \<Rightarrow> bool" where
  "cyclic k xs \<longleftrightarrow> 3 * k \<le> length xs \<and> take k (drop k xs) = take k xs \<and> take k (drop (2 * k) xs) = take k xs"

definition shortest_cycle :: "'x list \<Rightarrow> nat" where
  "shortest_cycle xs = (case find (\<lambda>k. cyclic k xs) [1, 2, 3] of Some k \<Rightarrow> k | None \<Rightarrow> 0)"

lemma cyclic_nth:
  "cyclic k xs \<longleftrightarrow> 3 * k \<le> length xs \<and> (\<forall>i < k. xs ! i = xs ! (i + k) \<and> xs ! i = xs ! (i + 2 * k))"
proof (cases "3 * k \<le> length xs")
  case True
  then have l: "length (take k xs) = k" "length (take k (drop k xs)) = k" "length (take k (drop (2 * k) xs)) = k"
    by auto
  show ?thesis using True
    by (auto simp: cyclic_def list_eq_iff_nth_eq l add.commute)
qed (simp add: cyclic_def)

definition ring_core :: "HarnessLoopDetector \<Rightarrow> HarnessLoopDetector" where
  "ring_core d = d\<lparr>consecutive_cycle_matches := 0, detected_period := 0\<rparr>"

lemma ring_core_push [simp]: "ring_core (push_action r d) = push_action r (ring_core d)"
  by (simp add: ring_core_def push_action_def)

lemma ring_core_note [simp]: "ring_core (loop_detector (note_cycle k h)) = ring_core (loop_detector h)"
  by (simp add: ring_core_def note_cycle_def)

lemma hash_back_recent: "hash_back d n = action_hash (recent_action d n)"
  by (simp add: hash_back_def recent_action_def)

lemma recent_core [simp]: "recent_action (ring_core d) = recent_action d" "count (ring_core d) = count d"
  by (simp_all add: ring_core_def recent_action_def fun_eq_iff)

lemma detect_loop_log:
  assumes "count d = min 32 (length xs)"
    and "\<forall>i < min 32 (length xs). action_hash (recent_action d i) = xs ! i"
  shows "belya_harness_detect_loop d = shortest_cycle xs"
proof -
  have *: "(3 * k \<le> count d \<and> cycle_matched d k) = cyclic k xs" if "k \<in> {1, 2, 3}" for k
  proof (cases "3 * k \<le> length xs")
    case True
    then have "3 * k \<le> min 32 (length xs)" using that by auto
    then have "hash_back d i = xs ! i" if "i < 3 * k" for i
      using that assms(2) by (simp add: hash_back_recent)
    then show ?thesis using True assms(1) that
      by (auto simp: cyclic_nth cycle_matched_def list_all_iff)
  next
    case False
    then show ?thesis using assms(1) by (auto simp: cyclic_def)
  qed
  have f: "find (\<lambda>k. 3 * k \<le> count d \<and> cycle_matched d k) [1, 2, 3] = find (\<lambda>k. cyclic k xs) [1, 2, 3]"
    by (rule find_cong) (auto simp: *)
  show ?thesis
  proof (cases "count d < 3")
    case True
    then have "length xs < 3" using assms(1) by auto
    then have "\<not> cyclic k xs" if "1 \<le> k" for k using that by (simp add: cyclic_def)
    then show ?thesis using True by (simp add: belya_harness_detect_loop_def shortest_cycle_def)
  next
    case False
    then show ?thesis unfolding belya_harness_detect_loop_def shortest_cycle_def f by simp
  qed
qed

section \<open>Runs of observations\<close>

record observation =
  o_tool :: cstr
  o_args :: "cstr option"
  o_text :: "cstr option"
  o_time :: int

definition observe :: "(cstr \<Rightarrow> cstr option) \<Rightarrow> observation \<Rightarrow> 'a TurnGuard_scheme \<Rightarrow> 'a TurnGuard_scheme" where
  "observe files ob h =
     snd (snd (belya_harness_record_tool_observation files (o_time ob) (o_tool ob) (o_args ob) (o_text ob) h))"

definition record_of :: "observation \<Rightarrow> HarnessActionRecord" where
  "record_of ob = \<lparr>action_hash = compute_action_hash (Some (o_tool ob)) (o_args ob),
     rec_tool = take 47 (o_tool ob), return_code = (if observation_failed (o_text ob) then 1 else 0),
     timestamp = o_time ob\<rparr>"

lemma guard_detector [simp]:
  "loop_detector (track_actions t h) = loop_detector h"
  "loop_detector (count_failure t a h) = loop_detector h"
  by (simp_all add: track_actions_def count_failure_def Let_def)

lemma observe_core:
  "ring_core (loop_detector (observe files ob h)) = push_action (record_of ob) (ring_core (loop_detector h))"
  unfolding observe_def belya_harness_record_tool_observation_def Let_def record_of_def
  by (simp split: option.splits)

lemma observe_core_fold:
  "ring_core (loop_detector (fold (observe files) obs h)) =
     fold push_action (map record_of obs) (ring_core (loop_detector h))"
  by (induction obs arbitrary: h) (simp_all add: observe_core)

lemma empty_detector_ring: "ring_ok (ring_core empty_detector)" "count (ring_core empty_detector) = 0"
  by (simp_all add: ring_ok_def ring_core_def empty_detector_def HARNESS_ACTION_HISTORY_SIZE_def)

lemma detect_after_reset:
  "belya_harness_detect_loop (loop_detector (fold (observe files) obs (belya_harness_reset_turn_state h)))
     = shortest_cycle (rev (map (action_hash \<circ> record_of) obs))"
proof (rule detect_loop_log)
  let ?d = "loop_detector (fold (observe files) obs (belya_harness_reset_turn_state h))"
  have c: "ring_core ?d = fold push_action (map record_of obs) (ring_core empty_detector)"
    by (simp add: observe_core_fold belya_harness_reset_turn_state_def)
  note r = ring.recent_fold[OF empty_detector_ring, of "map record_of obs"]
  show "count ?d = min 32 (length (rev (map (action_hash \<circ> record_of) obs)))"
    using r recent_core(2)[of ?d] unfolding c HARNESS_ACTION_HISTORY_SIZE_def by simp
  show "\<forall>i < min 32 (length (rev (map (action_hash \<circ> record_of) obs))).
      action_hash (recent_action ?d i) = rev (map (action_hash \<circ> record_of) obs) ! i"
    using r recent_core(1)[of ?d] unfolding c HARNESS_ACTION_HISTORY_SIZE_def
    by (auto simp: rev_map)
qed

lemma detect_core [simp]: "belya_harness_detect_loop (ring_core d) = belya_harness_detect_loop d"
  by (simp add: belya_harness_detect_loop_def cycle_matched_def hash_back_recent)

lemma record_detects:
  "belya_harness_detect_loop (push_action (record_of ob) (loop_detector h)) =
     belya_harness_detect_loop (loop_detector (observe files ob h))"
  by (metis detect_core observe_core ring_core_push)

text \<open>A detected cycle always trips the breaker and replaces the observation.\<close>

lemma record_trips_on_cycle:
  assumes "0 < belya_harness_detect_loop (loop_detector (observe files ob h))"
  shows "case belya_harness_record_tool_observation files (o_time ob) (o_tool ob) (o_args ob) (o_text ob) h of
    (tripped, msg, h') \<Rightarrow> tripped \<and> msg \<noteq> None \<and> loop_breaker_tripped h'"
proof -
  have d: "0 < belya_harness_detect_loop (push_action (record_of ob) (loop_detector h))"
    using assms record_detects[of ob h files] by simp
  have n: "loop_breaker_tripped (note_cycle k g) = loop_breaker_tripped g" for k and g :: "'a TurnGuard_scheme"
    by (simp add: note_cycle_def)
  show ?thesis
    using d [unfolded record_of_def]
    by (cases "observation_failed (o_text ob)")
      (simp_all add: belya_harness_record_tool_observation_def Let_def n)
qed

lemma shortest_cycle_one: "cyclic 1 xs \<Longrightarrow> shortest_cycle xs = 1"
  by (simp add: shortest_cycle_def)

lemma observe_failures:
  "consecutive_tool_failures h \<le> 2 \<Longrightarrow> consecutive_tool_failures (observe files ob h) \<le> 2"
  unfolding observe_def belya_harness_record_tool_observation_def Let_def
  by (simp add: note_cycle_def not_le split: option.splits)

section \<open>Properties\<close>

text \<open>C11: The ring detector is exact: after any sequence of observations in a turn, however long,
  it reports the shortest period among 1, 2 and 3 with which the latest actions of the whole turn
  repeat three times, by their hashes, and 0 when there is none.\<close>

theorem loop_detector_exact:
  "belya_harness_detect_loop (loop_detector (fold (observe files) obs (belya_harness_reset_turn_state h)))
     = shortest_cycle (rev (map (\<lambda>ob. compute_action_hash (Some (o_tool ob)) (o_args ob)) obs))"
proof -
  have "action_hash \<circ> record_of = (\<lambda>ob. compute_action_hash (Some (o_tool ob)) (o_args ob))"
    by (simp add: fun_eq_iff record_of_def)
  then show ?thesis by (metis detect_after_reset)
qed

text \<open>The third identical action in a row trips the breaker, at any point of a turn and
  whatever the tool returned, success or failure, and the model is given a text that says so.\<close>

theorem third_repeat_trips:
  fixes ob1 ob2 ob3 :: observation
  assumes "o_tool ob2 = o_tool ob1" "o_args ob2 = o_args ob1"
    and "o_tool ob3 = o_tool ob1" "o_args ob3 = o_args ob1"
  shows "case belya_harness_record_tool_observation files (o_time ob3) (o_tool ob3) (o_args ob3) (o_text ob3)
      (fold (observe files) (obs @ [ob1, ob2]) (belya_harness_reset_turn_state h)) of
    (tripped, msg, h') \<Rightarrow> tripped \<and> msg \<noteq> None \<and> loop_breaker_tripped h'"
proof -
  let ?g = "fold (observe files) (obs @ [ob1, ob2]) (belya_harness_reset_turn_state h)"
  have "observe files ob3 ?g = fold (observe files) (obs @ [ob1, ob2, ob3]) (belya_harness_reset_turn_state h)"
    by simp
  moreover have "cyclic 1 (rev (map (action_hash \<circ> record_of) (obs @ [ob1, ob2, ob3])))"
    using assms by (simp add: cyclic_def record_of_def)
  ultimately have "belya_harness_detect_loop (loop_detector (observe files ob3 ?g)) = 1"
    using detect_after_reset[of files "obs @ [ob1, ob2, ob3]" h] shortest_cycle_one by metis
  then show ?thesis by (intro record_trips_on_cycle) simp
qed

definition fresh_guard :: TurnGuard where
  "fresh_guard = \<lparr>last_failed_tool = [], last_failed_args = [], consecutive_tool_failures = 0,
     files_modified_in_turn = False, verification_performed_in_turn = False,
     verification_guard_tripped = False, loop_detector = empty_detector, loop_breaker_tripped = False\<rparr>"

definition ls_observation :: observation where
  "ls_observation = \<lparr>o_tool = ''bash'', o_args = Some ''{}'', o_text = Some ''ok'', o_time = 0\<rparr>"

theorem third_repeat_trips_witness:
  "case belya_harness_record_tool_observation (\<lambda>_. None) 0 ''bash'' (Some ''{}'') (Some ''ok'')
      (fold (observe (\<lambda>_. None)) ([] @ [ls_observation, ls_observation]) (belya_harness_reset_turn_state fresh_guard)) of
    (tripped, msg, h') \<Rightarrow> tripped \<and> msg \<noteq> None \<and> loop_breaker_tripped h'"
  using third_repeat_trips[of ls_observation ls_observation ls_observation "\<lambda>_. None" "[]" fresh_guard]
  by (simp add: ls_observation_def)

text \<open>The failure counter never reaches its threshold between calls: after any sequence of
  observations in a turn it is at most 2, since the third failure trips the breaker and resets it.\<close>

theorem failure_counter_bound:
  "consecutive_tool_failures (fold (observe files) obs (belya_harness_reset_turn_state h)) \<le> 2"
proof (induction obs rule: rev_induct)
  case Nil
  show ?case by (simp add: belya_harness_reset_turn_state_def)
next
  case (snoc ob obs)
  then show ?case by (simp add: observe_failures)
qed

end
