(* ===== verification/AgentHistory.thy ===== *)
theory AgentHistory
  imports MiniJson
begin

text \<open>
  \<open>belya_agent.c\<close>, the conversation history: its messages, the folding of long tool
  observations, the compaction ladder, the token estimate, memory rows and sessions.

  A stored message always has a role and a content (every function that adds one stores a copy,
  never NULL), so both are plain strings; the capacity of the message array is memory management
  and left out. The SQLite handle is a list of the commands executed so far (\<open>None\<close> when it is
  NULL): what a query returns after those commands is a parameter of the operations that read.
  Counts are \<open>size_t\<close> in the code; every subtraction below is guarded as it is there.
\<close>

section \<open>Data\<close>

record ModelParsedToolCall =
  tc_id :: cstr
  tc_name :: cstr
  tc_args :: cstr

record BelyaMessage =
  role :: cstr
  content :: cstr
  tool_call_id :: "cstr option"
  tool_calls :: "ModelParsedToolCall list"

record BelyaToolSchema =
  schema_name :: cstr
  schema_desc :: cstr
  schema_params :: "JsonValue option"

datatype db_cmd =
    Begin_Immediate
  | Commit
  | Insert_Timeline cstr cstr
  | Insert_Archived cstr nat cstr cstr "cstr option"
  | Delete_Memory cstr cstr cstr
  | Insert_Memory cstr cstr cstr cstr
  | Upsert_Session cstr cstr cstr
  | Delete_Session_Messages cstr
  | Insert_Session_Message cstr nat cstr cstr cstr cstr

record BelyaAgent =
  messages :: "BelyaMessage list"
  schemas :: "BelyaToolSchema list"
  model :: cstr
  db :: "db_cmd list option"
  max_context_messages :: nat
  max_context_tokens :: nat
  turn_count :: nat
  auto_save_interval :: nat
  turns_since_save :: nat
  compaction_percent :: nat
  compaction_keep :: nat
  total_prompt_tokens :: nat
  total_completion_tokens :: nat
  total_cached_tokens :: nat

datatype CompactTier =
    COMPACT_TIER_1_MICRO
  | COMPACT_TIER_2_TRUNCATE_TOOLS
  | COMPACT_TIER_3_MIDDLE_OUT
  | COMPACT_TIER_4_FTS5_EVICT
  | COMPACT_TIER_5_EMERGENCY

definition db_exec :: "db_cmd list \<Rightarrow> BelyaAgent \<Rightarrow> BelyaAgent" where
  "db_exec cmds a = a\<lparr>db := map_option (\<lambda>log. log @ cmds) (db a)\<rparr>"

section \<open>Adding messages\<close>

definition plain_message :: "cstr \<Rightarrow> cstr \<Rightarrow> BelyaMessage" where
  "plain_message r c = \<lparr>role = r, content = c, tool_call_id = None, tool_calls = []\<rparr>"

definition belya_agent_add_message :: "cstr \<Rightarrow> cstr option \<Rightarrow> BelyaAgent \<Rightarrow> BelyaAgent" where
  "belya_agent_add_message r c a =
     a\<lparr>messages := messages a @ [plain_message r (case c of None \<Rightarrow> [] | Some t \<Rightarrow> t)]\<rparr>"

definition belya_agent_register_schema ::
    "cstr \<Rightarrow> cstr \<Rightarrow> JsonValue option \<Rightarrow> BelyaAgent \<Rightarrow> BelyaAgent" where
  "belya_agent_register_schema name desc params a =
     a\<lparr>schemas := schemas a @
        [\<lparr>schema_name = name, schema_desc = desc, schema_params = params\<rparr>]\<rparr>"

text \<open>\<open>limit_env\<close> is the \<open>atoi\<close> of TOOL_OUTPUT_LIMIT, when the variable is set.\<close>

definition tool_output_limit :: "int option \<Rightarrow> nat" where
  "tool_output_limit limit_env =
     (case limit_env of Some n \<Rightarrow> if n > 500 then nat n else 8000 | None \<Rightarrow> 8000)"

definition line_count :: "cstr \<Rightarrow> nat" where
  "line_count s = length (filter (\<lambda>c. c = LF) s) + (if s \<noteq> [] \<and> last s \<noteq> LF then 1 else 0)"

text \<open>What is behind the first \<open>n\<close> line feeds.\<close>

fun after_lines :: "nat \<Rightarrow> cstr \<Rightarrow> cstr" where
  "after_lines 0 s = s"
| "after_lines (Suc n) [] = []"
| "after_lines (Suc n) (c # s) = (if c = LF then after_lines n s else after_lines (Suc n) s)"

text \<open>Offsets of \<open>head_end\<close> and \<open>tail_start\<close>: by lines where that fits, else by bytes.\<close>

definition line_cut :: "nat \<Rightarrow> cstr \<Rightarrow> (nat \<times> nat) option" where
  "line_cut limit s =
     (if line_count s > 60 then
        let h = length s - length (after_lines 15 s);
            t = length s - length (after_lines (line_count s - 30) s) in
        if h \<ge> t \<or> h + (length s - t) > limit then None else Some (h, t)
      else None)"

definition byte_cut :: "nat \<Rightarrow> cstr \<Rightarrow> nat \<times> nat" where
  "byte_cut limit s =
     (let half = limit div 2;
          head_len = (if half > 1500 then half - 500 else half);
          tail_len = (if half > 1500 then half + 500 else half);
          (head_len, tail_len) =
            (if head_len + tail_len > limit then (limit div 2, limit - limit div 2)
             else (head_len, tail_len)) in
      (head_len, length s - tail_len))"

definition truncation_note :: "nat \<Rightarrow> nat \<Rightarrow> cstr" where
  "truncation_note omitted total_len =
     [LF, LF] @ ''[... Output truncated: '' @ dec_text omitted @ '' bytes omitted of '' @
     dec_text total_len @ '' total bytes to preserve context & speed ...]'' @ [LF, LF]"

definition fold_observation :: "nat \<Rightarrow> cstr \<Rightarrow> cstr" where
  "fold_observation limit s =
     (if line_count s > 60 \<or> length s > limit then
        let (h, t) = (case line_cut limit s of Some p \<Rightarrow> p | None \<Rightarrow> byte_cut limit s) in
        take h s @ truncation_note (t - h) (length s) @ drop t s
      else s)"

definition belya_agent_add_tool_result ::
    "int option \<Rightarrow> cstr option \<Rightarrow> cstr \<Rightarrow> cstr option \<Rightarrow> BelyaAgent \<Rightarrow> BelyaAgent" where
  "belya_agent_add_tool_result limit_env call_id name result a =
     a\<lparr>messages := messages a @ [\<lparr>role = ''tool'',
        content = (case result of None \<Rightarrow> [] | Some s \<Rightarrow> fold_observation (tool_output_limit limit_env) s),
        tool_call_id = Some (case call_id of None \<Rightarrow> ''call_default'' | Some i \<Rightarrow> i),
        tool_calls = []\<rparr>]\<rparr>"

section \<open>Timeline and memory\<close>

definition belya_agent_log_timeline :: "cstr \<Rightarrow> cstr \<Rightarrow> BelyaAgent \<Rightarrow> BelyaAgent" where
  "belya_agent_log_timeline event_type summary a = db_exec [Insert_Timeline event_type summary] a"

definition belya_agent_persist_memory_scoped ::
    "cstr \<Rightarrow> cstr \<Rightarrow> cstr \<Rightarrow> cstr \<Rightarrow> BelyaAgent \<Rightarrow> BelyaAgent" where
  "belya_agent_persist_memory_scoped topic txt wing room a =
     (let w = (if wing \<noteq> [] then wing else ''default''); r = (if room \<noteq> [] then room else ''general'') in
      belya_agent_log_timeline ''memory_persisted''
        (take 255 (''['' @ w @ ''/'' @ r @ ''] '' @ topic))
        (db_exec [Delete_Memory topic w r, Insert_Memory topic txt w r] a))"

text \<open>\<open>wing/room: topic\<close>; a prefix that does not fit the 64-byte buffers stays in the topic.\<close>

definition split_scope :: "cstr \<Rightarrow> cstr \<times> cstr \<times> cstr" where
  "split_scope topic =
     (let keep = (''default'', ''general'', topic) in
      case (strchr topic (CHR '':''), strchr topic (CHR ''/'')) of
        (Some colon, Some slash) \<Rightarrow>
          if length slash > length colon then
            let wlen = length topic - length slash; rlen = length slash - 1 - length colon in
            if wlen < 64 \<and> rlen < 64 then
              (take wlen topic, take rlen (drop 1 slash), lskip (\<lambda>c. c = CHR '' '') (drop 1 colon))
            else keep
          else keep
      | _ \<Rightarrow> keep)"

definition belya_agent_persist_memory :: "cstr \<Rightarrow> cstr \<Rightarrow> BelyaAgent \<Rightarrow> BelyaAgent" where
  "belya_agent_persist_memory topic txt a =
     (let (wing, room, actual) = split_scope topic in
      belya_agent_persist_memory_scoped actual txt wing room a)"

definition fts_char :: "char \<Rightarrow> bool" where
  "fts_char c \<longleftrightarrow> isalnum c \<or> c = CHR '' '' \<or> c = CHR ''_'' \<or> c = CHR ''-''"

definition sanitize_fts5_query :: "cstr option \<Rightarrow> cstr" where
  "sanitize_fts5_query raw =
     (case raw of None \<Rightarrow> [] | Some s \<Rightarrow> map (\<lambda>c. if fts_char c then c else CHR '' '') s)"

definition MEMORY_ENTRY_CONTENT_CAP :: nat where "MEMORY_ENTRY_CONTENT_CAP = 800"

definition utf8_cont :: "char \<Rightarrow> bool" where
  "utf8_cont c \<longleftrightarrow> byte c div 64 = 2"

fun back_off :: "nat \<Rightarrow> cstr \<Rightarrow> nat" where
  "back_off 0 s = 0"
| "back_off (Suc k) s = (if utf8_cont (s ! Suc k) then back_off k s else Suc k)"

definition append_content_capped :: "cstr \<Rightarrow> cstr option \<Rightarrow> cstr" where
  "append_content_capped out txt =
     (case txt of None \<Rightarrow> out
      | Some s \<Rightarrow>
        if length s \<le> MEMORY_ENTRY_CONTENT_CAP then out @ s
        else let k0 = back_off MEMORY_ENTRY_CONTENT_CAP s;
                 k = (if k0 = 0 then MEMORY_ENTRY_CONTENT_CAP else k0) in
          out @ take k s @ [LF] @ ''...[truncated '' @ dec_text (length s - k) @ '' of '' @
            dec_text (length s) @ '' bytes]'')"

section \<open>Compaction\<close>

definition is_tool :: "BelyaMessage \<Rightarrow> bool" where
  "is_tool m \<longleftrightarrow> role m = ''tool''"

definition belya_agent_compact_history :: "nat \<Rightarrow> BelyaAgent \<Rightarrow> BelyaAgent" where
  "belya_agent_compact_history keep_recent a =
     (let n = length (messages a) in
      if n \<le> 1 + keep_recent then a
      else a\<lparr>messages := take 1 (messages a) @
             dropWhile is_tool (drop (n - keep_recent) (messages a))\<rparr>)"

definition tool_call_json :: "ModelParsedToolCall \<Rightarrow> JsonValue" where
  "tool_call_json tc =
     json_obj_add (json_obj_add json_create_object
       ''name'' (json_create_string (Some (tc_name tc))))
       ''arguments'' (json_create_string (Some (tc_args tc)))"

definition archive_cmd :: "cstr \<Rightarrow> (BelyaMessage \<Rightarrow> cstr option) \<Rightarrow> nat \<times> BelyaMessage \<Rightarrow> db_cmd" where
  "archive_cmd sid tcs p =
     (case p of (i, m) \<Rightarrow> Insert_Archived sid i (role m) (content m) (tcs m))"

definition calls_archived :: "BelyaMessage \<Rightarrow> cstr option" where
  "calls_archived m =
     (if tool_calls m \<noteq> []
      then Some (json_text (foldl json_arr_add json_create_array (map tool_call_json (tool_calls m))))
      else None)"

text \<open>The tools named in the summary: a name that is already a substring of the list is skipped.\<close>

definition note_tool :: "cstr \<Rightarrow> ModelParsedToolCall \<Rightarrow> cstr" where
  "note_tool acc tc =
     (if strstr acc (tc_name tc) = None
      then acc @ (if acc \<noteq> [] then '', '' else []) @ tc_name tc else acc)"

definition tools_used :: "BelyaMessage list \<Rightarrow> cstr" where
  "tools_used ms =
     foldl note_tool [] (concat (map tool_calls (filter (\<lambda>m. role m = ''assistant'') ms)))"

definition count_role :: "cstr \<Rightarrow> BelyaMessage list \<Rightarrow> nat" where
  "count_role r ms = length (filter (\<lambda>m. role m = r) ms)"

definition middle_out_summary :: "nat \<Rightarrow> BelyaMessage list \<Rightarrow> cstr" where
  "middle_out_summary drop_end dropped =
     ''[CONTEXT COMPACTOR: INTERMEDIATE TURNS 2-'' @ dec_text (drop_end - 1) @ '' COMPRESSED]'' @ [LF] @
     ''- Summary: Compressed '' @ dec_text (drop_end - 2) @ '' intermediate turns ('' @
     dec_text (count_role ''user'' dropped) @ '' user inputs, '' @
     dec_text (count_role ''assistant'' dropped) @ '' assistant reasoning steps, '' @
     dec_text (count_role ''tool'' dropped) @ '' tool outputs).'' @ [LF] @
     ''- Tools Executed: '' @ (if tools_used dropped \<noteq> [] then tools_used dropped else ''none'') @ [LF] @
     ''- Status: Root mission constraints pinned; full intermediate traces archived in SQLite session_messages_archived.''"

definition belya_agent_compact_history_middle_out :: "nat \<Rightarrow> BelyaAgent \<Rightarrow> BelyaAgent" where
  "belya_agent_compact_history_middle_out keep_recent a =
     (let ms = messages a; n = length ms; drop_end = n - keep_recent in
      if n \<le> 2 + keep_recent then a
      else if drop_end \<le> 2 then a
      else let dropped = take (drop_end - 2) (drop 2 ms);
               a = db_exec (Begin_Immediate #
                     map (archive_cmd ''active'' calls_archived) (zip [2..<drop_end] dropped) @ [Commit]) a;
               a = a\<lparr>messages := take 2 ms @
                     [plain_message ''assistant'' (middle_out_summary drop_end dropped)] @
                     dropWhile is_tool (drop drop_end ms)\<rparr> in
        belya_agent_log_timeline ''context_compaction_middle_out''
          ''Compacted intermediate turns with root intent pinning'' a)"

definition belya_agent_clear_history :: "BelyaAgent \<Rightarrow> BelyaAgent" where
  "belya_agent_clear_history a =
     (if length (messages a) \<le> 1 then a else a\<lparr>messages := take 1 (messages a)\<rparr>)"

definition BELYA_CACHE_STABLE_PREFIX :: nat where "BELYA_CACHE_STABLE_PREFIX = 2"

definition is_blank :: "char \<Rightarrow> bool" where
  "is_blank c \<longleftrightarrow> c = CHR '' '' \<or> c = TAB \<or> c = CR \<or> c = LF"

definition micro_prune :: "BelyaMessage \<Rightarrow> BelyaMessage" where
  "micro_prune m = m\<lparr>content := rskip is_blank (content m)\<rparr>"

definition truncate_tool :: "BelyaMessage \<Rightarrow> BelyaMessage" where
  "truncate_tool m =
     (let old = content m; n = length old in
      if (is_tool m \<or> tool_call_id m \<noteq> None) \<and> n > 1200
      then m\<lparr>content := take 400 old @ [LF, LF] @ ''[... Truncated '' @ dec_text (n - 800) @
             '' bytes of older tool observation ...]'' @ [LF, LF] @ drop (n - 400) old\<rparr>
      else m)"

definition emergency_brief :: "cstr \<Rightarrow> cstr" where
  "emergency_brief root =
     ''[ROOT OBJECTIVE & EMERGENCY COMPACTION BRIEF]'' @ [LF] @ root @ [LF, LF] @
     ''[Context hard-ceiling reached; intermediate state archived losslessly in SQLite]''"

text \<open>The rows tier 4 stores: every message of more than 30 bytes before the kept window.\<close>

definition evict_turn :: "BelyaAgent \<Rightarrow> nat \<times> BelyaMessage \<Rightarrow> BelyaAgent" where
  "evict_turn a p =
     (case p of (i, m) \<Rightarrow>
        if length (content m) > 30
        then belya_agent_persist_memory
               (take 127 (''archived_turn_'' @ dec_text i @ ''_'' @ role m)) (content m) a
        else a)"

definition belya_agent_compact_5tier :: "CompactTier \<Rightarrow> nat \<Rightarrow> BelyaAgent \<Rightarrow> BelyaAgent" where
  "belya_agent_compact_5tier tier keep_recent a =
     (let ms = messages a; n = length ms; p = BELYA_CACHE_STABLE_PREFIX in
      if n \<le> 2 then a
      else case tier of
        COMPACT_TIER_1_MICRO \<Rightarrow>
          belya_agent_log_timeline ''compaction_tier_1''
            ''Micro-pruned redundant whitespace across message context''
            (a\<lparr>messages := take p ms @ map micro_prune (drop p ms)\<rparr>)
      | COMPACT_TIER_2_TRUNCATE_TOOLS \<Rightarrow>
          (let cutoff = (if n > 3 then n - 3 else p) in
           belya_agent_log_timeline ''compaction_tier_2''
             ''Truncated older tool observations exceeding 1200 bytes''
             (a\<lparr>messages := take p ms @ map truncate_tool (take (cutoff - p) (drop p ms)) @
                drop (max cutoff p) ms\<rparr>))
      | COMPACT_TIER_3_MIDDLE_OUT \<Rightarrow>
          belya_agent_compact_history_middle_out (if keep_recent > 0 then keep_recent else 8) a
      | COMPACT_TIER_4_FTS5_EVICT \<Rightarrow>
          (let drop_end = (if n > keep_recent then n - keep_recent else 2);
               a = foldl evict_turn a (zip [2..<drop_end] (drop 2 ms));
               a = belya_agent_compact_history_middle_out (if keep_recent > 0 then keep_recent else 6) a in
           belya_agent_log_timeline ''compaction_tier_4''
             ''FTS5 evicted intermediate turns to persistent memory'' a)
      | COMPACT_TIER_5_EMERGENCY \<Rightarrow>
          (let a = db_exec (Begin_Immediate #
                     map (archive_cmd ''emergency'' (\<lambda>_. None)) (zip [1..<n - 1] (drop 1 ms)) @ [Commit]) a;
               a = a\<lparr>messages := [ms ! 0, plain_message ''user'' (emergency_brief (content (ms ! 1))), last ms]\<rparr> in
           belya_agent_log_timeline ''compaction_tier_5''
             ''Emergency hard-ceiling compaction performed'' a))"

section \<open>Token estimate\<close>

definition message_tokens :: "BelyaMessage \<Rightarrow> nat" where
  "message_tokens m = 4 + count_estimated_tokens (Some (content m)) +
     sum_list (map (\<lambda>tc. count_estimated_tokens (Some (tc_args tc))) (tool_calls m))"

definition schema_tokens :: "BelyaToolSchema \<Rightarrow> nat" where
  "schema_tokens s = 8 + count_estimated_tokens (Some (schema_name s)) +
     count_estimated_tokens (Some (schema_desc s)) +
     (case schema_params s of None \<Rightarrow> 0 | Some v \<Rightarrow> count_estimated_tokens (Some (json_text v)))"

definition belya_agent_total_tokens :: "BelyaAgent \<Rightarrow> nat" where
  "belya_agent_total_tokens a =
     sum_list (map message_tokens (messages a)) + sum_list (map schema_tokens (schemas a))"

section \<open>Sessions\<close>

record session_row =
  row_role :: "cstr option"
  row_content :: "cstr option"
  row_tool_call_id :: "cstr option"
  row_tool_calls_json :: "cstr option"

definition saved_call :: "ModelParsedToolCall \<Rightarrow> JsonValue" where
  "saved_call tc =
     json_obj_add (json_obj_add (json_obj_add json_create_object
       ''id'' (json_create_string (Some (tc_id tc))))
       ''name'' (json_create_string (Some (tc_name tc))))
       ''arguments'' (json_create_string (Some (tc_args tc)))"

definition saved_calls :: "BelyaMessage \<Rightarrow> cstr" where
  "saved_calls m =
     (if tool_calls m \<noteq> []
      then json_text (foldl json_arr_add json_create_array (map saved_call (tool_calls m))) else [])"

definition insert_message :: "cstr \<Rightarrow> nat \<times> BelyaMessage \<Rightarrow> db_cmd" where
  "insert_message session_id p =
     (case p of (i, m) \<Rightarrow> Insert_Session_Message session_id i (role m) (content m)
        (case tool_call_id m of None \<Rightarrow> [] | Some t \<Rightarrow> t) (saved_calls m))"

definition belya_agent_save_session ::
    "cstr \<Rightarrow> cstr option \<Rightarrow> BelyaAgent \<Rightarrow> bool \<times> BelyaAgent" where
  "belya_agent_save_session session_id title a =
     (if db a = None \<or> session_id = [] then (False, a)
      else let ms = messages a;
               a = db_exec ([Begin_Immediate,
                     Upsert_Session session_id (case title of None \<Rightarrow> session_id | Some t \<Rightarrow> t) (model a),
                     Delete_Session_Messages session_id] @
                     map (insert_message session_id) (zip [0..<length ms] ms) @ [Commit]) a in
        (True, belya_agent_log_timeline ''session_saved''
           (take 255 (''Session '' @ [SQ] @ session_id @ [SQ] @ '' saved ('' @ dec_text (length ms) @ '' messages)'')) a))"

definition loaded_call :: "JsonValue \<Rightarrow> ModelParsedToolCall" where
  "loaded_call v =
     \<lparr>tc_id = (case json_obj_get_str (Some v) ''id'' of None \<Rightarrow> [] | Some t \<Rightarrow> t),
      tc_name = (case json_obj_get_str (Some v) ''name'' of None \<Rightarrow> [] | Some t \<Rightarrow> t),
      tc_args = (case json_obj_get_str (Some v) ''arguments'' of None \<Rightarrow> ''{}'' | Some t \<Rightarrow> t)\<rparr>"

definition loaded_message :: "session_row \<Rightarrow> BelyaMessage" where
  "loaded_message r =
     \<lparr>role = (case row_role r of None \<Rightarrow> ''user'' | Some t \<Rightarrow> t),
      content = (case row_content r of None \<Rightarrow> [] | Some t \<Rightarrow> t),
      tool_call_id = (case row_tool_call_id r of None \<Rightarrow> None | Some t \<Rightarrow> if t \<noteq> [] then Some t else None),
      tool_calls = (case row_tool_calls_json r of None \<Rightarrow> []
        | Some t \<Rightarrow> if t \<noteq> []
                     then (case json_parse (Some t) of Some (JSON_ARRAY items) \<Rightarrow> map loaded_call items
                           | _ \<Rightarrow> [])
                     else [])\<rparr>"

text \<open>\<open>select\<close> is what the query for the rows of a session returns after a list of commands.\<close>

definition belya_agent_load_session ::
    "(db_cmd list \<Rightarrow> cstr \<Rightarrow> session_row list) \<Rightarrow> cstr \<Rightarrow> BelyaAgent \<Rightarrow> bool \<times> BelyaAgent" where
  "belya_agent_load_session select session_id a =
     (case db a of None \<Rightarrow> (False, a)
      | Some log \<Rightarrow>
        let loaded = map loaded_message (select log session_id) in
        if loaded = [] then (False, a)
        else (True, belya_agent_log_timeline ''session_loaded''
               (take 255 (''Session '' @ [SQ] @ session_id @ [SQ] @ '' restored ('' @ dec_text (length loaded) @ '' messages)''))
               (a\<lparr>messages := loaded\<rparr>)))"

section \<open>Conversations a provider accepts\<close>

text \<open>
  \<open>pending\<close> runs over the messages with the calls still to be answered: each call of an
  assistant message is answered by one tool message, at once and in order. \<open>sendable\<close>
  conversations are the ones no provider rejects.
\<close>

fun answer :: "cstr list \<Rightarrow> BelyaMessage \<Rightarrow> cstr list option" where
  "answer [] m = (if is_tool m then None else Some (map tc_id (tool_calls m)))"
| "answer (i # p) m =
     (if is_tool m \<and> tool_call_id m = Some i \<and> tool_calls m = [] then Some p else None)"

fun pending :: "cstr list \<Rightarrow> BelyaMessage list \<Rightarrow> cstr list option" where
  "pending p [] = Some p"
| "pending p (m # ms) = (case answer p m of None \<Rightarrow> None | Some q \<Rightarrow> pending q ms)"

definition sendable :: "BelyaMessage list \<Rightarrow> bool" where
  "sendable ms \<longleftrightarrow> pending [] ms = Some []"

text \<open>The pinned messages, the instructions and the objective, are not part of a tool exchange.\<close>

definition pinned :: "BelyaMessage list \<Rightarrow> bool" where
  "pinned ms \<longleftrightarrow> list_all (\<lambda>m. \<not> is_tool m \<and> tool_calls m = []) (take 2 ms)"

lemma pending_append:
  "pending p (xs @ ys) = (case pending p xs of None \<Rightarrow> None | Some q \<Rightarrow> pending q ys)"
  by (induction xs arbitrary: p) (auto split: option.splits)

lemma pending_pinned: "list_all (\<lambda>m. \<not> is_tool m \<and> tool_calls m = []) ms \<Longrightarrow> pending [] ms = Some []"
  by (induction ms) auto

lemma pending_skip_tools: "pending p ms = Some [] \<Longrightarrow> pending [] (dropWhile is_tool ms) = Some []"
proof (induction ms arbitrary: p)
  case (Cons m ms)
  then obtain q where q: "answer p m = Some q" "pending q ms = Some []"
    by (auto split: option.splits)
  show ?case
  proof (cases "is_tool m")
    case True
    with Cons.IH[OF q(2)] show ?thesis by simp
  next
    case False
    with q(1) have "p = []" by (cases p) auto
    with False Cons.prems show ?thesis by simp
  qed
qed auto

lemma sendable_window:
  assumes "sendable ms" and "pinned ms" and "2 \<le> k"
  shows "sendable (take 2 ms @ xs @ dropWhile is_tool (drop k ms)) \<longleftrightarrow> pending [] xs = Some []
    \<or> (\<exists>q. pending [] xs = Some q \<and> pending q (dropWhile is_tool (drop k ms)) = Some [])"
proof -
  have p: "pending [] (take 2 ms) = Some []" using assms(2) by (simp add: pinned_def pending_pinned)
  have "pending [] (take k ms @ drop k ms) = Some []" using assms(1) by (simp add: sendable_def)
  then obtain q where "pending q (drop k ms) = Some []"
    unfolding pending_append by (auto split: option.splits)
  then have w: "pending [] (dropWhile is_tool (drop k ms)) = Some []" by (rule pending_skip_tools)
  show ?thesis by (auto simp: sendable_def pending_append p w split: option.splits)
qed

text \<open>Changing contents only, as the two gentle tiers do, keeps every exchange.\<close>

definition same_exchange :: "BelyaMessage \<Rightarrow> BelyaMessage \<Rightarrow> bool" where
  "same_exchange m m' \<longleftrightarrow>
     role m' = role m \<and> tool_call_id m' = tool_call_id m \<and> tool_calls m' = tool_calls m"

lemma pending_same_exchange: "list_all2 same_exchange ms ms' \<Longrightarrow> pending p ms' = pending p ms"
proof (induction arbitrary: p rule: list_all2_induct)
  case (Cons m ms m' ms')
  then have "answer p m' = answer p m"
    by (cases p) (simp_all add: same_exchange_def is_tool_def)
  with Cons.IH show ?case by (simp split: option.splits)
qed simp

lemma same_exchange_edits [simp]:
  "same_exchange m m" "same_exchange m (micro_prune m)" "same_exchange m (truncate_tool m)"
  by (simp_all add: same_exchange_def micro_prune_def truncate_tool_def Let_def)

lemma list_all2_edit:
  assumes "\<And>m. same_exchange m (f m)" and "i + length xs + length zs = length ms"
    and "xs = take (length xs) (drop i ms)" and "zs = drop (i + length xs) ms"
  shows "list_all2 same_exchange ms (take i ms @ map f xs @ zs)"
proof -
  have "ms = take i ms @ xs @ zs"
    by (metis append_take_drop_id assms(3,4) drop_drop add.commute)
  moreover have "list_all2 same_exchange (take i ms @ xs @ zs) (take i ms @ map f xs @ zs)"
    by (intro list_all2_appendI) (simp_all add: list_all2_conv_all_nth assms(1))
  ultimately show ?thesis by simp
qed

section \<open>Compaction passes\<close>

text \<open>
  What every pass of the ladder promises the caller: the pinned messages stay as they are, byte
  for byte, a sendable conversation stays sendable, and only messages and the database change.
\<close>

definition same_setup :: "BelyaAgent \<Rightarrow> BelyaAgent \<Rightarrow> bool" where
  "same_setup a a' \<longleftrightarrow> (\<exists>ms d. a' = a\<lparr>messages := ms, db := d\<rparr>)"

lemma same_setup_refl [simp]: "same_setup a a"
  unfolding same_setup_def by (rule exI[of _ "messages a"], rule exI[of _ "db a"]) simp

lemma same_setup_trans: "same_setup a b \<Longrightarrow> same_setup b c \<Longrightarrow> same_setup a c"
  unfolding same_setup_def by (elim exE, hypsubst, intro exI) simp

lemma same_setup_steps [simp]:
  "same_setup a (db_exec cmds b) \<longleftrightarrow> same_setup a b"
  "same_setup a (belya_agent_log_timeline e t b) \<longleftrightarrow> same_setup a b"
  "same_setup a (b\<lparr>messages := ms\<rparr>) \<longleftrightarrow> same_setup a b"
proof -
  have *: "same_setup a (b\<lparr>db := d\<rparr>) \<longleftrightarrow> same_setup a b" for d
  proof
    assume "same_setup a (b\<lparr>db := d\<rparr>)"
    moreover have "same_setup (b\<lparr>db := d\<rparr>) b"
      unfolding same_setup_def by (rule exI[of _ "messages b"], rule exI[of _ "db b"]) simp
    ultimately show "same_setup a b" by (rule same_setup_trans)
  next
    assume "same_setup a b"
    moreover have "same_setup b (b\<lparr>db := d\<rparr>)"
      unfolding same_setup_def by (rule exI[of _ "messages b"], rule exI[of _ d]) simp
    ultimately show "same_setup a (b\<lparr>db := d\<rparr>)" by (rule same_setup_trans)
  qed
  then show "same_setup a (db_exec cmds b) \<longleftrightarrow> same_setup a b"
    and "same_setup a (belya_agent_log_timeline e t b) \<longleftrightarrow> same_setup a b"
    by (simp_all add: db_exec_def belya_agent_log_timeline_def)
  have m1: "same_setup (b\<lparr>messages := ms\<rparr>) b"
    unfolding same_setup_def by (rule exI[of _ "messages b"], rule exI[of _ "db b"]) simp
  have m2: "same_setup b (b\<lparr>messages := ms\<rparr>)"
    unfolding same_setup_def by (rule exI[of _ ms], rule exI[of _ "db b"]) simp
  show "same_setup a (b\<lparr>messages := ms\<rparr>) \<longleftrightarrow> same_setup a b"
    using m1 m2 same_setup_trans by blast
qed

lemma messages_db [simp]:
  "messages (db_exec cmds a) = messages a"
  "messages (belya_agent_log_timeline e t a) = messages a"
  "messages (belya_agent_persist_memory topic c a) = messages a"
  by (simp_all add: db_exec_def belya_agent_log_timeline_def belya_agent_persist_memory_def
      belya_agent_persist_memory_scoped_def Let_def split: prod.splits)

lemma persist_memory_setup [simp]:
  "same_setup a (belya_agent_persist_memory topic c b) \<longleftrightarrow> same_setup a b"
  by (simp add: belya_agent_persist_memory_def belya_agent_persist_memory_scoped_def Let_def
      split: prod.splits)

locale compaction_pass =
  fixes pass :: "BelyaAgent \<Rightarrow> BelyaAgent"
  assumes pass_setup: "same_setup a (pass a)"
    and pass_pinned: "take 2 (messages (pass a)) = take 2 (messages a)"
    and pass_sendable: "sendable (messages a) \<Longrightarrow> pinned (messages a) \<Longrightarrow> sendable (messages (pass a))"
begin

lemma pass_keeps_pinned: "pinned (messages a) \<Longrightarrow> pinned (messages (pass a))"
  by (simp add: pinned_def pass_pinned)

lemma pass_after:
  assumes "same_setup b a" "take 2 (messages a) = take 2 (messages b)"
    "sendable (messages a)" "pinned (messages a)"
  shows "same_setup b (pass a)" "take 2 (messages (pass a)) = take 2 (messages b)"
    "sendable (messages (pass a))" "pinned (messages (pass a))"
  using assms same_setup_trans[OF assms(1) pass_setup] pass_sendable pass_keeps_pinned
  by (simp_all add: pass_pinned)

end

lemma take_two_append: "2 < length ms \<Longrightarrow> take 2 (take 2 ms @ xs) = take 2 ms"
  by (simp add: min_def)

lemma edit_pass:
  assumes "\<And>m. same_exchange m (f m)" and "2 \<le> k"
  shows "list_all2 same_exchange ms (take 2 ms @ map f (take (k - 2) (drop 2 ms)) @ drop k ms)"
proof -
  have ms: "ms = take 2 ms @ take (k - 2) (drop 2 ms) @ drop k ms"
    using assms(2) by (metis append_take_drop_id drop_drop le_add_diff_inverse2)
  have e: "list_all2 same_exchange xs (map f xs)" for xs
    by (simp add: list_all2_conv_all_nth assms(1))
  have r: "list_all2 same_exchange xs xs" for xs by (simp add: list_all2_conv_all_nth)
  have "list_all2 same_exchange (take 2 ms @ take (k - 2) (drop 2 ms) @ drop k ms)
      (take 2 ms @ map f (take (k - 2) (drop 2 ms)) @ drop k ms)"
    by (intro list_all2_appendI e r)
  then show ?thesis using ms by simp
qed

lemma sendable_edit:
  "sendable ms \<Longrightarrow> (\<And>m. same_exchange m (f m)) \<Longrightarrow> 2 \<le> k \<Longrightarrow>
     sendable (take 2 ms @ map f (take (k - 2) (drop 2 ms)) @ drop k ms)"
  by (simp add: sendable_def pending_same_exchange[OF edit_pass])

interpretation micro: compaction_pass "belya_agent_compact_5tier COMPACT_TIER_1_MICRO k"
proof (unfold_locales, goal_cases)
  case (3 a)
  from sendable_edit[OF 3(1), of micro_prune "max 2 (length (messages a))"] 3 show ?case
    by (simp add: belya_agent_compact_5tier_def Let_def BELYA_CACHE_STABLE_PREFIX_def)
qed (simp_all add: belya_agent_compact_5tier_def Let_def BELYA_CACHE_STABLE_PREFIX_def take_two_append)

interpretation trunc: compaction_pass "belya_agent_compact_5tier COMPACT_TIER_2_TRUNCATE_TOOLS k"
proof (unfold_locales, goal_cases)
  case (3 a)
  define c where "c = (if length (messages a) > 3 then length (messages a) - 3 else 2)"
  have "max c 2 - 2 = c - 2" by simp
  with sendable_edit[OF 3(1), of truncate_tool "max c 2"] 3 show ?case
    by (simp add: belya_agent_compact_5tier_def Let_def BELYA_CACHE_STABLE_PREFIX_def c_def)
qed (simp_all add: belya_agent_compact_5tier_def Let_def BELYA_CACHE_STABLE_PREFIX_def take_two_append)

lemma messages_middle_out:
  "messages (belya_agent_compact_history_middle_out k a) =
     (let ms = messages a; e = length ms - k in
      if length ms \<le> 2 + k then ms
      else take 2 ms @ [plain_message ''assistant'' (middle_out_summary e (take (e - 2) (drop 2 ms)))] @
           dropWhile is_tool (drop e ms))"
  by (auto simp: belya_agent_compact_history_middle_out_def Let_def)

lemma middle_out_pass: "compaction_pass (belya_agent_compact_history_middle_out k)"
proof (unfold_locales, goal_cases)
  case (1 a)
  show ?case by (simp add: belya_agent_compact_history_middle_out_def Let_def)
next
  case (2 a)
  show ?case by (simp add: messages_middle_out Let_def)
next
  case (3 a)
  show ?case
  proof (cases "length (messages a) \<le> 2 + k")
    case False
    then have "2 \<le> length (messages a) - k" by simp
    from sendable_window[OF 3 this, of "[plain_message ''assistant'' t]" for t] False show ?thesis
      by (simp add: messages_middle_out Let_def plain_message_def is_tool_def)
  qed (use 3 in \<open>simp add: messages_middle_out Let_def\<close>)
qed

interpretation middle: compaction_pass "belya_agent_compact_history_middle_out k"
  by (rule middle_out_pass)

lemma messages_evict [simp]: "messages (foldl evict_turn a ps) = messages a"
  by (induction ps arbitrary: a) (auto simp: evict_turn_def split: prod.splits)

lemma setup_evict [simp]: "same_setup a (foldl evict_turn b ps) \<longleftrightarrow> same_setup a b"
  by (induction ps arbitrary: b) (auto simp: evict_turn_def split: prod.splits)

interpretation tier3: compaction_pass "belya_agent_compact_5tier COMPACT_TIER_3_MIDDLE_OUT k"
proof (unfold_locales, goal_cases)
  case (1 a)
  show ?case using middle.pass_setup by (simp add: belya_agent_compact_5tier_def Let_def)
next
  case (2 a)
  show ?case using middle.pass_pinned by (simp add: belya_agent_compact_5tier_def Let_def)
next
  case (3 a)
  with middle.pass_sendable[OF 3] show ?case by (simp add: belya_agent_compact_5tier_def Let_def)
qed

interpretation tier4: compaction_pass "belya_agent_compact_5tier COMPACT_TIER_4_FTS5_EVICT k"
proof (unfold_locales, goal_cases)
  case (1 a)
  have "same_setup a (belya_agent_compact_history_middle_out n (foldl evict_turn a ps))" for n ps
    by (rule same_setup_trans[OF _ middle.pass_setup]) simp
  then show ?case by (simp add: belya_agent_compact_5tier_def Let_def)
next
  case (2 a)
  have "take 2 (messages (belya_agent_compact_history_middle_out n (foldl evict_turn a ps))) =
      take 2 (messages a)" for n ps
    by (simp add: middle.pass_pinned)
  then show ?case by (simp add: belya_agent_compact_5tier_def Let_def)
next
  case (3 a)
  have "sendable (messages (belya_agent_compact_history_middle_out n (foldl evict_turn a ps)))" for n ps
    by (rule middle.pass_sendable) (use 3 in simp_all)
  with 3 show ?case by (simp add: belya_agent_compact_5tier_def Let_def)
qed

section \<open>Folding\<close>

lemma after_lines_length [simp, clen]: "length (after_lines n s) \<le> length s"
  by (induction n s rule: after_lines.induct) auto

lemma after_lines_shorter: "s \<noteq> [] \<Longrightarrow> 0 < m \<Longrightarrow> length (after_lines m s) < length s"
  by (cases s; cases m) (auto simp: le_imp_less_Suc)

lemma after_lines_add: "after_lines (n + m) s = after_lines m (after_lines n s)"
proof (induction n s rule: after_lines.induct)
  case (2 n)
  show ?case by (cases m) simp_all
qed simp_all

lemma after_lines_count:
  "length (filter (\<lambda>c. c = LF) (after_lines n s)) = length (filter (\<lambda>c. c = LF) s) - n"
  by (induction n s rule: after_lines.induct) auto

lemma line_cut_fits:
  assumes "60 < line_count s" and "length s \<le> limit"
  shows "line_cut limit s \<noteq> None"
proof -
  define n where "n = line_count s - 45"
  have n: "0 < n" "line_count s - 30 = 15 + n" using assms(1) by (auto simp: n_def)
  have "60 \<le> length (filter (\<lambda>c. c = LF) s)"
    using assms(1) by (simp add: line_count_def split: if_splits)
  then have "filter (\<lambda>c. c = LF) (after_lines 15 s) \<noteq> []"
    using after_lines_count[of 15 s] by auto
  then have "after_lines 15 s \<noteq> []" by auto
  then have "length (after_lines (line_count s - 30) s) < length (after_lines 15 s)"
    unfolding n(2) after_lines_add using n(1) by (rule after_lines_shorter)
  moreover have "length (after_lines 15 s) \<le> length s" by simp
  ultimately have
    "\<not> (length s - length (after_lines 15 s) \<ge> length s - length (after_lines (line_count s - 30) s) \<or>
       length s - length (after_lines 15 s) +
         (length s - (length s - length (after_lines (line_count s - 30) s))) > limit)"
    using assms(2) by arith
  then show ?thesis using assms(1) unfolding line_cut_def Let_def by simp
qed

text \<open>Whichever cut is used, the two kept ends do not overlap and fit in the limit.\<close>

lemma cut_sound:
  assumes "line_count s > 60 \<or> length s > limit"
  shows "case (case line_cut limit s of Some p \<Rightarrow> p | None \<Rightarrow> byte_cut limit s) of
    (h, t) \<Rightarrow> h \<le> t \<and> t \<le> length s \<and> h + (length s - t) \<le> limit"
proof (cases "line_cut limit s")
  case (Some p)
  then show ?thesis by (auto simp: line_cut_def Let_def split: if_splits)
next
  case None
  with assms line_cut_fits[of s limit] have "limit \<le> length s" by linarith
  then have "2 * (limit div 2) \<le> length s" "2 * (limit div 2) \<le> limit" by auto
  with None \<open>limit \<le> length s\<close> show ?thesis by (auto simp: byte_cut_def Let_def)
qed

section \<open>Reading back what was saved\<close>

text \<open>
  What the store is relied on for: deleting a session's rows leaves none, a row inserted behind
  the others is returned behind them, and no other command changes the rows of the session.
\<close>

definition store_laws :: "(db_cmd list \<Rightarrow> cstr \<Rightarrow> session_row list) \<Rightarrow> cstr \<Rightarrow> bool" where
  "store_laws select sid \<longleftrightarrow>
     (\<forall>log. select (log @ [Delete_Session_Messages sid]) sid = []) \<and>
     (\<forall>log r c t j. select (log @ [Insert_Session_Message sid (length (select log sid)) r c t j]) sid =
        select log sid @ [\<lparr>row_role = Some r, row_content = Some c, row_tool_call_id = Some t,
          row_tool_calls_json = Some j\<rparr>]) \<and>
     (\<forall>log e t. select (log @ [Insert_Timeline e t]) sid = select log sid) \<and>
     (\<forall>log. select (log @ [Commit]) sid = select log sid)"

definition row_of :: "BelyaMessage \<Rightarrow> session_row" where
  "row_of m = \<lparr>row_role = Some (role m), row_content = Some (content m),
     row_tool_call_id = Some (case tool_call_id m of None \<Rightarrow> [] | Some t \<Rightarrow> t),
     row_tool_calls_json = Some (saved_calls m)\<rparr>"

text \<open>Messages whose strings are C strings and whose tool call id, if any, is not empty.\<close>

definition storable :: "BelyaMessage \<Rightarrow> bool" where
  "storable m \<longleftrightarrow> tool_call_id m \<noteq> Some [] \<and>
     list_all (\<lambda>tc. nul_free (tc_id tc) \<and> nul_free (tc_name tc) \<and> nul_free (tc_args tc)) (tool_calls m)"

lemma select_inserts:
  assumes "store_laws select sid" and "select log sid = rows" and "length rows = i"
  shows "select (log @ map (insert_message sid) (zip [i..<i + length ms] ms)) sid = rows @ map row_of ms"
  using assms(2,3)
proof (induction ms arbitrary: log rows i)
  case (Cons m ms)
  let ?c = "insert_message sid (i, m)"
  have "select (log @ [?c]) sid = rows @ [row_of m]"
    using assms(1) Cons.prems by (auto simp: insert_message_def store_laws_def row_of_def)
  from Cons.IH[OF this, of "Suc i"] Cons.prems show ?case
    by (simp add: upt_conv_Cons del: upt_Suc)
qed simp

lemma arr_add_fold: "foldl json_arr_add (JSON_ARRAY xs) ys = JSON_ARRAY (xs @ ys)"
  by (induction ys arbitrary: xs) auto

lemma saved_call_object:
  "saved_call tc = JSON_OBJECT [(''id'', JSON_STRING (tc_id tc)), (''name'', JSON_STRING (tc_name tc)),
     (''arguments'', JSON_STRING (tc_args tc))]"
  by (simp add: saved_call_def json_create_object_def json_create_string_def)

lemma loaded_saved_call: "loaded_call (saved_call tc) = tc"
  by (simp add: loaded_call_def saved_call_object json_obj_get_str_def json_obj_get_def)

lemma jdepth_calls: "jdepth (JSON_ARRAY (map saved_call tcs)) \<le> 2"
proof -
  have "jdepth (saved_call tc) = 1" for tc by (simp add: saved_call_object)
  then have "foldr max (map jdepth (map saved_call tcs)) 0 \<le> 1"
    by (induction tcs) auto
  then show ?thesis by simp
qed

lemma loaded_row_of:
  assumes "storable m"
  shows "loaded_message (row_of m) = m"
proof -
  let ?v = "JSON_ARRAY (map saved_call (tool_calls m))"
  have "json_ok ?v" using assms
    by (auto simp: storable_def saved_call_object list_all_iff nul_free_def)
  then have p: "parse_value_depth 0 (json_text ?v @ []) = Some (?v, [])"
    by (rule parse_json_text) (use jdepth_calls[of "tool_calls m"] in \<open>simp_all add: JSON_MAX_DEPTH_def\<close>)
  have "json_text ?v \<noteq> []" by (simp add: json_text_def)
  with p assms show ?thesis
    by (cases m) (auto simp: loaded_message_def row_of_def saved_calls_def storable_def json_parse_def
        json_create_array_def arr_add_fold loaded_saved_call comp_def split: option.splits)
qed

section \<open>Properties\<close>

text \<open>Folding a tool observation never loses its ends or its size: either the text is kept as
  it is, within the limit and 60 lines, or the result is a head and a tail of it, which do not
  overlap and together fit in the limit, around a note that gives the number of bytes left out.\<close>

theorem fold_keeps_ends:
  "(fold_observation limit s = s \<and> length s \<le> limit \<and> line_count s \<le> 60) \<or>
   (\<exists>hd_part mid tl_part. s = hd_part @ mid @ tl_part \<and>
      fold_observation limit s = hd_part @ truncation_note (length mid) (length s) @ tl_part \<and>
      length hd_part + length tl_part \<le> limit)"
proof (cases "line_count s > 60 \<or> length s > limit")
  case True
  obtain h t where ht: "(case line_cut limit s of Some p \<Rightarrow> p | None \<Rightarrow> byte_cut limit s) = (h, t)"
    by (cases "case line_cut limit s of Some p \<Rightarrow> p | None \<Rightarrow> byte_cut limit s")
  with cut_sound[OF True] have "h \<le> t \<and> t \<le> length s \<and> h + (length s - t) \<le> limit" by (metis case_prod_conv)
  then have b: "h \<le> t" "t \<le> length s" "h + (length s - t) \<le> limit" by blast+
  have "s = take h s @ take (t - h) (drop h s) @ drop t s"
    using b(1) by (metis append_take_drop_id drop_drop le_add_diff_inverse2)
  moreover have "length (take (t - h) (drop h s)) = t - h" using b(1,2) by simp
  moreover have "fold_observation limit s = take h s @ truncation_note (t - h) (length s) @ drop t s"
    unfolding fold_observation_def ht using True by simp
  moreover have "length (take h s) + length (drop t s) \<le> limit" using b by simp
  ultimately show ?thesis by metis
qed (auto simp: fold_observation_def)

text \<open>C5: The compaction ladder keeps a conversation acceptable to the provider: each of the
  four tiers turns a conversation in which every tool call is answered, in order, by tool messages
  into one with the same property, and leaves the pinned first two messages byte for byte.\<close>

theorem compaction_keeps_sendable:
  assumes "tier \<noteq> COMPACT_TIER_5_EMERGENCY" and "sendable (messages a)" and "pinned (messages a)"
  shows "sendable (messages (belya_agent_compact_5tier tier keep a)) \<and>
    take 2 (messages (belya_agent_compact_5tier tier keep a)) = take 2 (messages a)"
proof (cases tier)
  case COMPACT_TIER_1_MICRO
  with assms show ?thesis by (simp add: micro.pass_sendable micro.pass_pinned)
next
  case COMPACT_TIER_2_TRUNCATE_TOOLS
  with assms show ?thesis by (simp add: trunc.pass_sendable trunc.pass_pinned)
next
  case COMPACT_TIER_3_MIDDLE_OUT
  with assms show ?thesis by (simp add: tier3.pass_sendable tier3.pass_pinned)
next
  case COMPACT_TIER_4_FTS5_EVICT
  with assms show ?thesis by (simp add: tier4.pass_sendable tier4.pass_pinned)
qed (use assms in simp)

definition sample_agent :: "BelyaMessage list \<Rightarrow> BelyaAgent" where
  "sample_agent ms = \<lparr>messages = ms, schemas = [], model = ''m'', db = Some [],
     max_context_messages = 80, max_context_tokens = 128000, turn_count = 0, auto_save_interval = 5,
     turns_since_save = 0, compaction_percent = 80, compaction_keep = 20, total_prompt_tokens = 0,
     total_completion_tokens = 0, total_cached_tokens = 0\<rparr>"

definition sample_exchange :: "BelyaMessage list" where
  "sample_exchange = [plain_message ''system'' ''s'', plain_message ''user'' ''u'',
     \<lparr>role = ''assistant'', content = [], tool_call_id = None,
       tool_calls = [\<lparr>tc_id = ''c1'', tc_name = ''bash'', tc_args = ''{}''\<rparr>,
                     \<lparr>tc_id = ''c2'', tc_name = ''read_file'', tc_args = ''{}''\<rparr>]\<rparr>,
     \<lparr>role = ''tool'', content = ''one'', tool_call_id = Some ''c1'', tool_calls = []\<rparr>,
     \<lparr>role = ''tool'', content = ''two'', tool_call_id = Some ''c2'', tool_calls = []\<rparr>]"

theorem compaction_keeps_sendable_witness:
  "sendable (messages (belya_agent_compact_5tier COMPACT_TIER_3_MIDDLE_OUT 1 (sample_agent sample_exchange)))
   \<and> take 2 (messages (belya_agent_compact_5tier COMPACT_TIER_3_MIDDLE_OUT 1 (sample_agent sample_exchange)))
     = take 2 sample_exchange"
  using compaction_keeps_sendable[of COMPACT_TIER_3_MIDDLE_OUT "sample_agent sample_exchange" 1]
  by (simp add: sample_agent_def sample_exchange_def sendable_def pinned_def plain_message_def is_tool_def)

text \<open>Middle-out compaction is not lossless: of the messages it removes, the ones before the
  kept window are archived, but the tool results at the start of the window, which it removes so
  that no result is left without its call, are in no archive command.\<close>

theorem middle_out_loses_window_results:
  assumes "messages a = pre @ dropped @ window" and "length pre = 2" and "dropped \<noteq> []"
    and "db a = Some log"
  shows "(\<exists>note. messages (belya_agent_compact_history_middle_out (length window) a)
      = pre @ [plain_message ''assistant'' note] @ dropWhile is_tool window) \<and>
    (\<exists>ev. db (belya_agent_compact_history_middle_out (length window) a) =
      Some (log @ Begin_Immediate #
        map (archive_cmd ''active'' calls_archived) (zip [2..<2 + length dropped] dropped) @ [Commit, ev]))"
proof -
  have n: "\<not> length (messages a) \<le> 2 + length window"
    and e: "length (messages a) - length window = 2 + length dropped"
    using assms(1-3) by auto
  have "take 2 (messages a) = pre" "take (length dropped) (drop 2 (messages a)) = dropped"
    "drop (2 + length dropped) (messages a) = window"
    using assms(1,2) by (simp_all flip: drop_drop)
  with n e assms(4) show ?thesis
    unfolding belya_agent_compact_history_middle_out_def Let_def db_exec_def
      belya_agent_log_timeline_def by (intro conjI exI) (simp_all add: assms(3))
qed

theorem middle_out_loses_window_results_witness:
  "\<exists>note. messages (belya_agent_compact_history_middle_out 1 (sample_agent sample_exchange))
     = take 2 sample_exchange @ [plain_message ''assistant'' note] @ dropWhile is_tool [last sample_exchange]"
  using middle_out_loses_window_results[of "sample_agent sample_exchange" "take 2 sample_exchange"
      "take 2 (drop 2 sample_exchange)" "[last sample_exchange]" "[]"]
  by (simp add: sample_agent_def sample_exchange_def)

text \<open>Emergency compaction breaks the conversation when it runs between a tool result and
  the next model call: its result starts with a tool message that answers no call.\<close>

theorem emergency_orphans_tool_result:
  assumes "2 < length (messages a)" and "is_tool (last (messages a))"
  shows "\<not> sendable (messages (belya_agent_compact_5tier COMPACT_TIER_5_EMERGENCY keep a))"
proof -
  have "pending p [plain_message ''user'' t, last (messages a)] \<noteq> Some []" for p t
    using assms(2) by (cases p) (auto simp: plain_message_def is_tool_def)
  with assms show ?thesis
    by (simp add: belya_agent_compact_5tier_def Let_def sendable_def split: option.splits)
qed

theorem emergency_orphans_tool_result_witness:
  "\<not> sendable (messages (belya_agent_compact_5tier COMPACT_TIER_5_EMERGENCY 0 (sample_agent sample_exchange)))"
  by (rule emergency_orphans_tool_result) (simp_all add: sample_agent_def sample_exchange_def is_tool_def)

text \<open>C9: A session that was saved is loaded as it was: with a store that keeps the rows of a
  session, loading after saving gives the same messages, tool calls and tool call ids.\<close>

theorem session_roundtrip:
  assumes "store_laws select sid" and "db a \<noteq> None" and "sid \<noteq> []"
    and "messages a \<noteq> []" and "list_all storable (messages a)"
  shows "let (saved, b) = belya_agent_save_session sid title a;
             (loaded, c) = belya_agent_load_session select sid (b\<lparr>messages := other\<rparr>)
         in saved \<and> loaded \<and> messages c = messages a"
proof -
  let ?ms = "messages a"
  obtain log where log: "db a = Some log" using assms(2) by blast
  define log1 where "log1 = log @ [Begin_Immediate,
    Upsert_Session sid (case title of None \<Rightarrow> sid | Some t \<Rightarrow> t) (model a)] @ [Delete_Session_Messages sid]"
  have "select log1 sid = []"
    using assms(1) unfolding store_laws_def log1_def append_assoc [symmetric] by blast
  from select_inserts[OF assms(1) this, of 0 ?ms]
  have rows: "select (log1 @ map (insert_message sid) (zip [0..<length ?ms] ?ms)) sid = map row_of ?ms"
    by simp
  then have "select ((log1 @ map (insert_message sid) (zip [0..<length ?ms] ?ms) @ [Commit])
      @ [Insert_Timeline e t]) sid = map row_of ?ms" for e t
    using assms(1) by (simp add: store_laws_def flip: append_assoc)
  moreover have "map loaded_message (map row_of ?ms) = ?ms"
    using assms(5) by (simp add: loaded_row_of list_all_iff map_idI)
  ultimately show ?thesis
    using assms(3,4) log
    by (simp add: belya_agent_save_session_def belya_agent_load_session_def Let_def db_exec_def
        belya_agent_log_timeline_def log1_def)
qed

text \<open>A store for the witness: the rows of a session after a list of commands.\<close>

fun list_store :: "db_cmd list \<Rightarrow> cstr \<Rightarrow> session_row list" where
  "list_store [] sid = []"
| "list_store (Delete_Session_Messages s # log) sid = (if s = sid then [] else list_store log sid)"
| "list_store (Insert_Session_Message s i r c t j # log) sid =
     list_store log sid @ (if s = sid then [\<lparr>row_role = Some r, row_content = Some c,
       row_tool_call_id = Some t, row_tool_calls_json = Some j\<rparr>] else [])"
| "list_store (_ # log) sid = list_store log sid"

lemma list_store_laws: "store_laws (\<lambda>log. list_store (rev log)) sid"
  by (simp add: store_laws_def)

theorem session_roundtrip_witness:
  "let (saved, b) = belya_agent_save_session ''s1'' None (sample_agent sample_exchange);
       (loaded, c) = belya_agent_load_session (\<lambda>log. list_store (rev log)) ''s1'' (b\<lparr>messages := []\<rparr>)
   in saved \<and> loaded \<and> messages c = sample_exchange"
  using session_roundtrip[OF list_store_laws, of "sample_agent sample_exchange" "''s1''" None "[]"]
  by (simp add: sample_agent_def sample_exchange_def storable_def plain_message_def)

text \<open>The two compactors do not work together. \<open>/compact\<close> keeps only the instructions, so
  that an assistant message with tool calls can become message 1; the automatic compaction then
  pins it as the objective, drops its results and leaves calls that nothing answers.\<close>

theorem middle_out_orphans_pinned_calls:
  assumes "2 + keep < length (messages a)" and "tool_calls (messages a ! 1) \<noteq> []"
  shows "\<not> sendable (messages (belya_agent_compact_history_middle_out keep a))"
proof -
  let ?m = "messages a ! 1"
  have t: "take 2 (messages a) = [messages a ! 0, ?m]"
    using assms(1) by (cases "messages a"; cases "tl (messages a)") auto
  obtain tc tcs where "tool_calls ?m = tc # tcs" using assms(2) by (cases "tool_calls ?m") auto
  then have "pending p (?m # plain_message ''assistant'' x # rest) \<noteq> Some []" for p x rest
    by (cases p) (auto simp: plain_message_def is_tool_def)
  then show ?thesis using assms(1)
    by (simp add: messages_middle_out Let_def t sendable_def split: option.splits)
qed

definition sample_after_compact :: BelyaAgent where
  "sample_after_compact = belya_agent_add_message ''user'' (Some ''next'')
     (belya_agent_compact_history 3 (sample_agent sample_exchange))"

theorem middle_out_orphans_pinned_calls_witness:
  "sendable (messages sample_after_compact) \<and>
   \<not> sendable (messages (belya_agent_compact_history_middle_out 1 sample_after_compact))"
proof -
  have "messages sample_after_compact =
      hd sample_exchange # drop 2 sample_exchange @ [plain_message ''user'' ''next'']"
    by (simp add: sample_after_compact_def belya_agent_add_message_def belya_agent_compact_history_def
        sample_agent_def sample_exchange_def plain_message_def is_tool_def)
  moreover from this have "\<not> sendable (messages (belya_agent_compact_history_middle_out 1 sample_after_compact))"
    by (intro middle_out_orphans_pinned_calls) (simp_all add: sample_exchange_def)
  ultimately show ?thesis by (simp add: sendable_def sample_exchange_def plain_message_def is_tool_def)
qed

end
