(* ===== verification/AgentStep.thy ===== *)
theory AgentStep
  imports AgentHistory
begin

text \<open>
  \<open>belya_agent_step\<close>: one model call of the agent. Before the call it saves the session and
  compacts the history when their conditions hold; then it builds the request from the history,
  calls the gateway, falls back to scavenging tool calls from the text, and records the reply.

  What the step reads from outside the agent is the record \<open>step_env\<close>: the files that exist,
  the first line of \<open>.git/HEAD\<close>, the repository map, the skill matched for a prompt, and the
  formatted process figures. The gateway's \<open>chat_complete\<close> and the scavenger are arguments. A
  stored tool call has all three strings; in a reply the id may be NULL. The hook run before a
  compaction sees only its own user data and is not part of the agent's state.
\<close>

section \<open>Gateway and environment\<close>

record ReplyCall =
  rc_id :: "cstr option"
  rc_name :: cstr
  rc_args :: cstr

record ModelGatewayResponse =
  resp_content :: "cstr option"
  reasoning_content :: "cstr option"
  resp_calls :: "ReplyCall list"
  has_tool_call :: bool
  prompt_tokens :: nat
  completion_tokens :: nat
  cached_tokens :: nat

record ModelGateway =
  endpoint :: "cstr option"
  prompt_caching :: bool
  chat_complete :: "(JsonValue \<Rightarrow> JsonValue \<Rightarrow> ModelGatewayResponse) option"

record step_env =
  has_file :: "cstr \<Rightarrow> bool"
  git_head :: "cstr option"
  repo_map :: "cstr option"
  match_skill :: "BelyaAgent \<Rightarrow> cstr \<Rightarrow> cstr option"
  pid_text :: cstr
  host_text :: cstr
  rss_text :: cstr
  percent_text :: "nat \<Rightarrow> nat \<Rightarrow> cstr"

definition provider_label :: "cstr option \<Rightarrow> cstr" where
  "provider_label ep =
     (case ep of None \<Rightarrow> ''unconfigured''
      | Some e \<Rightarrow>
        if e = [] then ''unconfigured''
        else if strstr e ''openrouter.ai'' \<noteq> None then ''OpenRouter Cloud''
        else if strstr e ''opencode.ai'' \<noteq> None then ''OpenCode Zen''
        else if strstr e ''api.openai.com'' \<noteq> None then ''OpenAI Cloud''
        else if strstr e ''anthropic.com'' \<noteq> None then ''Anthropic Cloud''
        else if strstr e ''generativelanguage'' \<noteq> None then ''Google AI''
        else if strstr e ''localhost'' \<noteq> None \<or> strstr e ''127.0.0.1'' \<noteq> None \<or> strstr e ''11434'' \<noteq> None
        then ''Local Inference''
        else ''Remote API'')"

section \<open>Saving and compacting before the call\<close>

definition token_budget :: "BelyaAgent \<Rightarrow> nat" where
  "token_budget a = (if max_context_tokens a > 0 then max_context_tokens a else 128000)"

definition should_save :: "BelyaAgent \<Rightarrow> bool" where
  "should_save a \<longleftrightarrow>
     (length (messages a) > 1 \<and>
        ((max_context_messages a > 0 \<and> length (messages a) > max_context_messages a) \<or>
         (belya_agent_total_tokens a > token_budget a div 100 * 80 \<and> length (messages a) > 10)))
     \<or> turns_since_save a \<ge> auto_save_interval a"

text \<open>The first message after the instructions that is a user's and longer than \<open>n\<close>.\<close>

definition first_user :: "nat \<Rightarrow> BelyaMessage list \<Rightarrow> cstr option" where
  "first_user n ms = map_option content (find (\<lambda>m. role m = ''user'' \<and> length (content m) > n) ms)"

definition ellipsis :: "nat \<Rightarrow> cstr \<Rightarrow> cstr" where
  "ellipsis n s = (if length s > n then take (n - 3) s @ ''...'' else s)"

definition auto_save :: "BelyaAgent \<Rightarrow> BelyaAgent" where
  "auto_save a =
     (if auto_save_interval a > 0 \<and> db a \<noteq> None \<and> should_save a then
        let short_title = (case first_user 0 (drop 1 (messages a)) of
               Some t \<Rightarrow> ellipsis 100 t
             | None \<Rightarrow> ''Auto-save turn '' @ dec_text (turn_count a));
            (ok, b) = belya_agent_save_session ''auto_current'' (Some short_title) a;
            b = (if ok then belya_agent_log_timeline ''auto_save''
                   (take 95 (''Session auto-saved (turn '' @ dec_text (turn_count a) @ '')'')) b else b) in
        b\<lparr>turns_since_save := 0\<rparr>
      else a)"

definition compaction_need :: "BelyaAgent \<Rightarrow> (nat \<times> cstr) option" where
  "compaction_need a =
     (let n = length (messages a); budget = token_budget a;
          keep_cfg = (if compaction_keep a > 0 then compaction_keep a else 15);
          token_threshold = (if budget \<ge> 128000 then 96000 else budget div 100 * compaction_percent a) in
      if n \<le> 1 then None
      else if belya_agent_total_tokens a \<ge> token_threshold \<and> n > keep_cfg
      then Some (keep_cfg, ''token budget threshold (96k SOTA guard)'')
      else if turn_count a \<ge> 100 \<and> n > 20
      then Some (15, ''turn limit attractor guard (100 turns)'')
      else if max_context_messages a > 0 \<and> n > max_context_messages a
      then Some (if max_context_messages a > 20 then 20 else max_context_messages a div 2,
                 ''message count limit'')
      else None)"

definition archived_message :: "BelyaMessage \<Rightarrow> cstr" where
  "archived_message m =
     ''**'' @ role m @ ''**:'' @ [LF] @ content m @ [LF, LF] @
     concat (map (\<lambda>tc. ''  - Tool: '' @ tc_name tc @ ''('' @ tc_args tc @ '')'' @ [LF]) (tool_calls m))"

fun archive_text :: "cstr \<Rightarrow> BelyaMessage list \<Rightarrow> cstr" where
  "archive_text acc [] = acc"
| "archive_text acc (m # ms) =
     (let acc = acc @ archived_message m in
      if length acc > 50000 then acc @ ''... [truncated at 50KB]'' @ [LF] else archive_text acc ms)"

definition archive_dropped :: "nat \<Rightarrow> BelyaAgent \<Rightarrow> BelyaAgent" where
  "archive_dropped keep a =
     (let n = length (messages a); dropped = take (n - keep - 1) (drop 1 (messages a)) in
      if n - 1 - keep > 0 then
        let topic = (case first_user 10 dropped of
               Some t \<Rightarrow> ellipsis 80 t
             | None \<Rightarrow> ''Compacted conversation (turn '' @ dec_text (turn_count a) @ '')'') in
        belya_agent_log_timeline ''memory_before_compaction'' topic
          (belya_agent_persist_memory topic
             (archive_text (''### Archived Conversation (pre-compaction)'' @ [LF, LF]) dropped) a)
      else a)"

definition compaction_ladder :: "nat \<Rightarrow> BelyaAgent \<Rightarrow> BelyaAgent" where
  "compaction_ladder keep a =
     belya_agent_compact_5tier COMPACT_TIER_3_MIDDLE_OUT keep
       (belya_agent_compact_5tier COMPACT_TIER_2_TRUNCATE_TOOLS keep
         (belya_agent_compact_5tier COMPACT_TIER_1_MICRO keep a))"

definition auto_compact :: "BelyaAgent \<Rightarrow> BelyaAgent" where
  "auto_compact a =
     (case compaction_need a of None \<Rightarrow> a
      | Some (keep, reason) \<Rightarrow>
        if db a = None then a
        else belya_agent_log_timeline ''auto_compaction''
               (take 127 (''Compacted context to '' @ dec_text keep @ '' messages ('' @ reason @ '')''))
               (compaction_ladder keep (archive_dropped keep a)))"

definition step_prepare :: "BelyaAgent \<Rightarrow> BelyaAgent" where
  "step_prepare a = auto_compact (auto_save a)"

section \<open>The request\<close>

definition SYSTEM_PROMPT_DYNAMIC_BOUNDARY :: cstr where
  "SYSTEM_PROMPT_DYNAMIC_BOUNDARY = [LF, LF] @ ''=== Dynamic Session State ==='' @ [LF]"

definition split_system :: "cstr \<Rightarrow> cstr \<times> cstr" where
  "split_system raw_sys =
     (case strstr raw_sys SYSTEM_PROMPT_DYNAMIC_BOUNDARY of
        Some b \<Rightarrow> (take (length raw_sys - length b) raw_sys, if last b \<noteq> LF then b @ [LF] else b)
      | None \<Rightarrow> (raw_sys, SYSTEM_PROMPT_DYNAMIC_BOUNDARY))"

definition identity_text :: "BelyaAgent \<Rightarrow> ModelGateway \<Rightarrow> cstr" where
  "identity_text a gw =
     (let p = provider_label (endpoint gw) in
      ''Active Model: '' @ model a @ '' (Provider: '' @ p @ '').'' @ [LF] @
      ''When asked what model, LLM, or backend you are currently running, identify yourself as Belya powered by '' @
      [SQ] @ model a @ [SQ] @ '' via '' @ p @ ''.'' @ [LF])"

definition project_kinds :: "(cstr \<times> cstr \<times> cstr) list" where
  "project_kinds =
     [(''Makefile'', ''C/POSIX Makefile'', ''make test''), (''Cargo.toml'', ''Rust / Cargo'', ''cargo test''),
      (''package.json'', ''Node / TypeScript'', ''npm test''), (''CMakeLists.txt'', ''CMake'', ''ctest''),
      (''go.mod'', ''Go Module'', ''go test ./...''), (''pyproject.toml'', ''Python'', ''pytest'')]"

definition git_line :: "cstr \<Rightarrow> cstr" where
  "git_line head_buf0 =
     (let head_buf = takeWhile (\<lambda>c. c \<noteq> CR) (takeWhile (\<lambda>c. c \<noteq> LF) head_buf0) in
      if has_prefix ''ref: refs/heads/'' head_buf then ''Git Branch: '' @ drop 16 head_buf @ [LF]
      else if head_buf \<noteq> [] then ''Git Commit: '' @ take 10 head_buf @ '' (detached)'' @ [LF]
      else [])"

definition factsheet :: "step_env \<Rightarrow> cstr" where
  "factsheet env =
     [LF] @ ''=== Repository Factsheet (Auto-Detected) ==='' @ [LF] @
     (case find (\<lambda>(f, _, _). has_file env f) project_kinds of None \<Rightarrow> []
      | Some (f, kind, verify) \<Rightarrow> ''Project Engine: '' @ kind @ [LF] @
          ''Primary Verification: '' @ [SQ] @ verify @ [SQ, LF]) @
     (case git_head env of None \<Rightarrow> [] | Some h \<Rightarrow> git_line h) @
     (case repo_map env of None \<Rightarrow> []
      | Some t \<Rightarrow> [LF] @ ''=== Architecture & Symbol Skeleton ==='' @ [LF] @ t @ [LF])"

definition system_parts :: "step_env \<Rightarrow> ModelGateway \<Rightarrow> BelyaAgent \<Rightarrow> cstr \<Rightarrow> cstr \<times> cstr" where
  "system_parts env gw a raw_sys =
     (let (static_part, dyn0) = split_system raw_sys; dyn1 = dyn0 @ identity_text a gw in
      (static_part, if strstr dyn1 ''=== Repository Factsheet'' = None then dyn1 @ factsheet env else dyn1))"

definition ephemeral :: JsonValue where
  "ephemeral = JSON_OBJECT [(''type'', JSON_STRING ''ephemeral'')]"

definition anthropic_blocks :: "ModelGateway \<Rightarrow> bool" where
  "anthropic_blocks gw \<longleftrightarrow> prompt_caching gw \<and>
     (case endpoint gw of None \<Rightarrow> False
      | Some e \<Rightarrow> strstr e ''openrouter.ai'' \<noteq> None \<or> strstr e ''anthropic.com'' \<noteq> None \<or>
          strstr e ''anthropic'' \<noteq> None)"

definition system_members ::
    "step_env \<Rightarrow> ModelGateway \<Rightarrow> BelyaAgent \<Rightarrow> cstr \<Rightarrow> (cstr \<times> JsonValue) list" where
  "system_members env gw a raw_sys =
     (let (static_part, dynamic_part) = system_parts env gw a raw_sys in
      if anthropic_blocks gw then
        [(''content'', JSON_ARRAY
           [JSON_OBJECT [(''type'', JSON_STRING ''text''), (''text'', JSON_STRING static_part),
              (''cache_control'', ephemeral)],
            JSON_OBJECT [(''type'', JSON_STRING ''text''), (''text'', JSON_STRING dynamic_part)]])]
      else (''content'', JSON_STRING (static_part @ dynamic_part)) #
        (if prompt_caching gw then [(''cache_control'', ephemeral)] else []))"

definition call_json :: "ModelParsedToolCall \<Rightarrow> JsonValue" where
  "call_json tc = JSON_OBJECT [(''id'', JSON_STRING (tc_id tc)), (''type'', JSON_STRING ''function''),
     (''function'', JSON_OBJECT [(''name'', JSON_STRING (tc_name tc)),
        (''arguments'', JSON_STRING (tc_args tc))])]"

definition message_json :: "step_env \<Rightarrow> ModelGateway \<Rightarrow> BelyaAgent \<Rightarrow> nat \<times> BelyaMessage \<Rightarrow> JsonValue" where
  "message_json env gw a p =
     (case p of (i, m) \<Rightarrow> JSON_OBJECT (
        [(''role'', JSON_STRING (role m))] @
        (if i = 0 then system_members env gw a (content m)
         else [(''content'', JSON_STRING (content m))]) @
        (case tool_call_id m of None \<Rightarrow> [] | Some t \<Rightarrow> [(''tool_call_id'', JSON_STRING t)]) @
        (if tool_calls m \<noteq> [] then [(''tool_calls'', JSON_ARRAY (map call_json (tool_calls m)))] else [])))"

definition system_note :: "cstr \<Rightarrow> JsonValue" where
  "system_note t = JSON_OBJECT [(''role'', JSON_STRING ''system''), (''content'', JSON_STRING t)]"

definition skill_note :: "step_env \<Rightarrow> BelyaAgent \<Rightarrow> JsonValue list" where
  "skill_note env a =
     (case find (\<lambda>m. role m = ''user'') (rev (messages a)) of None \<Rightarrow> []
      | Some m \<Rightarrow> (case match_skill env a (content m) of None \<Rightarrow> []
          | Some skill \<Rightarrow> [system_note (''=== Active Procedural Skill Guidance ==='' @ [LF] @ skill @ [LF] @
               ''Follow these procedural instructions precisely for this turn.'')]))"

definition telemetry_note :: "step_env \<Rightarrow> BelyaAgent \<Rightarrow> JsonValue" where
  "telemetry_note env a =
     (let est_tok = belya_agent_total_tokens a; max_tok = token_budget a in
      system_note (''=== Belya Internal Self-Telemetry & Proprioception ==='' @ [LF] @
        ''PID: '' @ pid_text env @ '' | Host: '' @ host_text env @ '' | Active RSS: '' @ rss_text env @
        '' MB | Turn: '' @ dec_text (turn_count a) @ '' | Context: ~'' @ dec_text est_tok @ '' / '' @
        dec_text max_tok @ '' tokens ('' @ percent_text env est_tok max_tok @ ''%) | Registered Tools: '' @
        dec_text (length (schemas a)) @ [LF] @
        ''Operational Rule: Monitor your turn budget and memory footprint. Verify changes before concluding.''))"

definition guide_note :: "BelyaAgent \<Rightarrow> JsonValue list" where
  "guide_note a =
     (if (strstr (model a) ''deepseek-r1'' \<noteq> None \<or> strstr (model a) ''falcon'' \<noteq> None \<or>
          strstr (model a) ''Falcon'' \<noteq> None) \<and> schemas a \<noteq> []
      then [system_note (''=== Available Tools ==='' @ [LF] @
        ''To execute an action, output a JSON object or '' @ [BQ, BQ, BQ] @ ''bash codeblock:'' @ [LF] @
        concat (map (\<lambda>s. ''- '' @ schema_name s @ '': '' @ schema_desc s @ [LF]) (schemas a)) @ [LF] @
        ''Example: {'' @ [DQ] @ ''name'' @ [DQ] @ '': '' @ [DQ] @ ''bash'' @ [DQ] @ '', '' @ [DQ] @ ''arguments'' @
        [DQ] @ '': {'' @ [DQ] @ ''command'' @ [DQ] @ '': '' @ [DQ] @ ''ls -la'' @ [DQ] @ ''}}'' @ [LF])]
      else [])"

definition request_messages :: "step_env \<Rightarrow> ModelGateway \<Rightarrow> BelyaAgent \<Rightarrow> JsonValue list" where
  "request_messages env gw a =
     map (message_json env gw a) (zip [0..<length (messages a)] (messages a)) @
     skill_note env a @ [telemetry_note env a] @ guide_note a"

text \<open>A schema without parameters is a NULL member, which is serialised as null.\<close>

definition tool_json :: "ModelGateway \<Rightarrow> bool \<Rightarrow> BelyaToolSchema \<Rightarrow> JsonValue" where
  "tool_json gw is_last s =
     JSON_OBJECT ([(''type'', JSON_STRING ''function''),
       (''function'', JSON_OBJECT [(''name'', JSON_STRING (schema_name s)),
          (''description'', JSON_STRING (schema_desc s)),
          (''parameters'', case schema_params s of None \<Rightarrow> JSON_NULL | Some v \<Rightarrow> v)])] @
       (if is_last \<and> prompt_caching gw then [(''cache_control'', ephemeral)] else []))"

definition request_tools :: "ModelGateway \<Rightarrow> BelyaAgent \<Rightarrow> JsonValue list" where
  "request_tools gw a =
     (if schemas a = [] then []
      else map (tool_json gw False) (butlast (schemas a)) @ [tool_json gw True (last (schemas a))])"

section \<open>The call and its reply\<close>

definition offline_response :: ModelGatewayResponse where
  "offline_response = \<lparr>resp_content = Some ''Error: Model gateway is not configured or offline.'',
     reasoning_content = None, resp_calls = [], has_tool_call = False,
     prompt_tokens = 0, completion_tokens = 0, cached_tokens = 0\<rparr>"

definition scan_reasoning :: "BelyaAgent \<Rightarrow> ModelGatewayResponse \<Rightarrow> bool" where
  "scan_reasoning a resp \<longleftrightarrow>
     \<not> (strstr (model a) ''deepseek-r1'' = None \<and>
        (case resp_content resp of None \<Rightarrow> False | Some t \<Rightarrow> t \<noteq> []))"

type_synonym scavenger = "cstr option \<Rightarrow> cstr option \<Rightarrow> cstr list \<Rightarrow> ReplyCall list"

definition scavenge_fallback ::
    "scavenger \<Rightarrow> ModelGatewayResponse \<Rightarrow> BelyaAgent \<Rightarrow> ModelGatewayResponse \<times> BelyaAgent" where
  "scavenge_fallback scav resp a =
     (if \<not> has_tool_call resp \<and> (resp_content resp \<noteq> None \<or> reasoning_content resp \<noteq> None) \<and> schemas a \<noteq> []
      then let calls = scav (resp_content resp)
                 (if scan_reasoning a resp then reasoning_content resp else None)
                 (map schema_name (take 64 (schemas a))) in
        if calls \<noteq> []
        then (resp\<lparr>resp_calls := calls, has_tool_call := True\<rparr>,
              belya_agent_log_timeline ''tool_scavenged''
                (take 127 (''Scavenged '' @ dec_text (length calls) @
                   '' tool calls from model reasoning/content stream'')) a)
        else (resp, a)
      else (resp, a))"

definition transport_failure :: "ModelGatewayResponse \<Rightarrow> bool" where
  "transport_failure resp \<longleftrightarrow>
     (case resp_content resp of None \<Rightarrow> False
      | Some t \<Rightarrow> has_prefix ''Network Error:'' t \<or> has_prefix ''API Error:'' t)"

definition stored_call :: "ReplyCall \<Rightarrow> ModelParsedToolCall" where
  "stored_call c = \<lparr>tc_id = (case rc_id c of None \<Rightarrow> [] | Some i \<Rightarrow> i), tc_name = rc_name c, tc_args = rc_args c\<rparr>"

definition reply_message :: "ModelGatewayResponse \<Rightarrow> BelyaMessage" where
  "reply_message resp =
     \<lparr>role = ''assistant'', content = (case resp_content resp of None \<Rightarrow> [] | Some t \<Rightarrow> t),
      tool_call_id = None,
      tool_calls = (if has_tool_call resp then map stored_call (resp_calls resp) else [])\<rparr>"

definition belya_agent_step ::
    "step_env \<Rightarrow> ModelGateway \<Rightarrow> scavenger \<Rightarrow> BelyaAgent \<Rightarrow> ModelGatewayResponse \<times> BelyaAgent" where
  "belya_agent_step env gw scav a =
     (let a = step_prepare a;
          resp = (case chat_complete gw of None \<Rightarrow> offline_response
                  | Some f \<Rightarrow> f (JSON_ARRAY (request_messages env gw a)) (JSON_ARRAY (request_tools gw a)));
          a = a\<lparr>total_prompt_tokens := total_prompt_tokens a + prompt_tokens resp,
                total_completion_tokens := total_completion_tokens a + completion_tokens resp,
                total_cached_tokens := total_cached_tokens a + cached_tokens resp\<rparr>;
          (resp, a) = scavenge_fallback scav resp a in
      if transport_failure resp then (resp, a)
      else (resp, a\<lparr>messages := messages a @ [reply_message resp],
                   turn_count := turn_count a + 1, turns_since_save := turns_since_save a + 1\<rparr>))"

section \<open>A step without tools\<close>

text \<open>A NULL tool schema is \<open>JSON_NULL\<close>.\<close>

definition runtime_note :: "BelyaAgent \<Rightarrow> ModelGateway \<Rightarrow> cstr" where
  "runtime_note a gw =
     [LF, LF] @ ''=== Active Runtime Engine ==='' @ [LF] @ identity_text a gw"

definition forced_message :: "ModelGateway \<Rightarrow> BelyaAgent \<Rightarrow> nat \<times> BelyaMessage \<Rightarrow> JsonValue" where
  "forced_message gw a p =
     (case p of (i, m) \<Rightarrow> JSON_OBJECT (
        [(''role'', JSON_STRING (role m)),
         (''content'', JSON_STRING (content m @ (if i = 0 then runtime_note a gw else [])))] @
        (case tool_call_id m of None \<Rightarrow> [] | Some t \<Rightarrow> [(''tool_call_id'', JSON_STRING t)]) @
        (if i = 0 \<and> prompt_caching gw then [(''cache_control'', ephemeral)] else []) @
        (if tool_calls m \<noteq> [] then [(''tool_calls'', JSON_ARRAY (map call_json (tool_calls m)))] else [])))"

definition belya_agent_step_forced_text ::
    "step_env \<Rightarrow> ModelGateway \<Rightarrow> cstr \<Rightarrow> BelyaAgent \<Rightarrow> ModelGatewayResponse \<times> BelyaAgent" where
  "belya_agent_step_forced_text env gw instruction a =
     (let a = (if instruction \<noteq> [] then belya_agent_add_message ''user'' (Some instruction) a else a);
          sent = map (forced_message gw a) (zip [0..<length (messages a)] (messages a)) @ [telemetry_note env a];
          resp = (case chat_complete gw of None \<Rightarrow> offline_response | Some f \<Rightarrow> f (JSON_ARRAY sent) JSON_NULL) in
      (resp, a\<lparr>total_prompt_tokens := total_prompt_tokens a + prompt_tokens resp,
               total_completion_tokens := total_completion_tokens a + completion_tokens resp,
               total_cached_tokens := total_cached_tokens a + cached_tokens resp,
               messages := messages a @ [plain_message ''assistant''
                 (case resp_content resp of None \<Rightarrow> [] | Some t \<Rightarrow> t)],
               turn_count := turn_count a + 1, turns_since_save := turns_since_save a + 1\<rparr>))"

lemma forced_text_messages:
  "messages (snd (belya_agent_step_forced_text env gw instruction a)) =
     messages a @ (if instruction \<noteq> [] then [plain_message ''user'' instruction] else []) @
     [plain_message ''assistant'' (case resp_content (fst (belya_agent_step_forced_text env gw instruction a)) of
        None \<Rightarrow> [] | Some t \<Rightarrow> t)]"
  by (simp add: belya_agent_step_forced_text_def Let_def belya_agent_add_message_def)

section \<open>What a step does to the conversation\<close>

lemma save_session_messages [simp]:
  "messages (snd (belya_agent_save_session sid t a)) = messages a"
  by (simp add: belya_agent_save_session_def Let_def)

lemma auto_save_messages [simp]: "messages (auto_save a) = messages a"
  by (simp add: auto_save_def Let_def case_prod_unfold)

lemma archive_dropped_messages [simp]: "messages (archive_dropped keep a) = messages a"
  by (simp add: archive_dropped_def Let_def)

lemma ladder_keeps:
  assumes "sendable (messages a)" "pinned (messages a)"
  shows "sendable (messages (compaction_ladder keep a))"
    and "take 2 (messages (compaction_ladder keep a)) = take 2 (messages a)"
    and "pinned (messages (compaction_ladder keep a))"
proof -
  note 1 = micro.pass_after[OF same_setup_refl refl assms, of keep]
  note 2 = trunc.pass_after[OF 1, of keep]
  note 3 = tier3.pass_after[OF 2, of keep]
  show "sendable (messages (compaction_ladder keep a))"
    and "take 2 (messages (compaction_ladder keep a)) = take 2 (messages a)"
    and "pinned (messages (compaction_ladder keep a))"
    unfolding compaction_ladder_def by (rule 3)+
qed

lemma step_prepare_keeps:
  assumes "sendable (messages a)" "pinned (messages a)"
  shows "sendable (messages (step_prepare a))" "take 2 (messages (step_prepare a)) = take 2 (messages a)"
    and "pinned (messages (step_prepare a))"
  using assms ladder_keeps[of "archive_dropped k (auto_save a)" for k]
  by (simp_all add: step_prepare_def auto_compact_def split: option.splits prod.splits)

lemma scavenge_messages [simp]: "messages (snd (scavenge_fallback scav resp a)) = messages a"
  by (simp add: scavenge_fallback_def Let_def)

lemma scavenge_content [simp]: "resp_content (fst (scavenge_fallback scav resp a)) = resp_content resp"
  by (simp add: scavenge_fallback_def Let_def)

text \<open>The reply of the gateway for the prepared agent, and what the step returns and records.\<close>

definition gateway_reply :: "step_env \<Rightarrow> ModelGateway \<Rightarrow> BelyaAgent \<Rightarrow> ModelGatewayResponse" where
  "gateway_reply env gw a =
     (case chat_complete gw of None \<Rightarrow> offline_response
      | Some f \<Rightarrow> f (JSON_ARRAY (request_messages env gw a)) (JSON_ARRAY (request_tools gw a)))"

lemma belya_agent_step_messages:
  "messages (snd (belya_agent_step env gw scav a)) =
     messages (step_prepare a) @
     (if transport_failure (fst (belya_agent_step env gw scav a)) then []
      else [reply_message (fst (belya_agent_step env gw scav a))])"
  by (simp add: belya_agent_step_def Let_def case_prod_unfold)

section \<open>What the request holds\<close>

definition json_role :: "JsonValue \<Rightarrow> cstr option" where
  "json_role v = json_obj_get_str (Some v) ''role''"

definition json_call_id :: "JsonValue \<Rightarrow> cstr option" where
  "json_call_id v = json_obj_get_str (Some v) ''tool_call_id''"

lemma member_get_system: "k \<noteq> ''content'' \<Longrightarrow> k \<noteq> ''cache_control'' \<Longrightarrow>
   member_get (system_members env gw a raw) k = None"
  by (simp add: system_members_def case_prod_unfold Let_def)

lemma message_json_fields [simp]:
  "json_role (message_json env gw a (i, m)) = Some (role m)"
  "json_call_id (message_json env gw a (i, m)) = tool_call_id m"
  by (auto simp: message_json_def json_role_def json_call_id_def json_obj_get_str_def
      json_obj_get_def member_get_append member_get_system split: option.splits)

lemma system_note_fields [simp]:
  "json_role (system_note t) = Some ''system''" "json_call_id (system_note t) = None"
  by (simp_all add: system_note_def json_role_def json_call_id_def json_obj_get_str_def json_obj_get_def)

lemma notes_are_system:
  "\<forall>v \<in> set (skill_note env a @ [telemetry_note env a] @ guide_note a). \<exists>t. v = system_note t"
  by (auto simp: skill_note_def telemetry_note_def guide_note_def Let_def split: option.splits)

lemma map_zip_index:
  "(\<And>i x. f (i, x) = g x) \<Longrightarrow> map f (zip [n..<n + length xs] xs) = map g xs"
  by (induction xs arbitrary: n) (simp_all add: upt_conv_Cons del: upt_Suc, metis add_Suc)

lemma map_const_replicate: "\<forall>v \<in> set xs. f v = c \<Longrightarrow> map f xs = replicate (length xs) c"
  by (induction xs) auto

section \<open>Properties\<close>


definition sample_gateway :: "ModelGatewayResponse \<Rightarrow> ModelGateway" where
  "sample_gateway r = \<lparr>endpoint = Some ''https://openrouter.ai/api'', prompt_caching = True,
     chat_complete = Some (\<lambda>_ _. r)\<rparr>"

definition sample_env :: step_env where
  "sample_env = \<lparr>has_file = (\<lambda>f. f = ''Makefile''), git_head = Some (''ref: refs/heads/main'' @ [LF]),
     repo_map = None, match_skill = (\<lambda>_ _. None), pid_text = ''1'', host_text = ''Linux (POSIX)'',
     rss_text = ''1.00'', percent_text = (\<lambda>_ _. ''0.0'')\<rparr>"

definition text_reply :: "cstr \<Rightarrow> ModelGatewayResponse" where
  "text_reply t = \<lparr>resp_content = Some t, reasoning_content = None, resp_calls = [],
     has_tool_call = False, prompt_tokens = 0, completion_tokens = 0, cached_tokens = 0\<rparr>"

lemma sample_exchange_ok: "sendable sample_exchange" "pinned sample_exchange"
  by (simp_all add: sample_exchange_def sendable_def pinned_def plain_message_def is_tool_def)


text \<open>The request mirrors the history: its messages are those of the history, in order, with
  their roles and the ids of the calls they answer, and behind them only system messages that
  answer no call.\<close>

theorem request_mirrors_history:
  "\<exists>n. map json_role (request_messages env gw a) = map (Some \<circ> role) (messages a) @ replicate n (Some ''system'') \<and>
       map json_call_id (request_messages env gw a) = map tool_call_id (messages a) @ replicate n None"
proof (intro exI conjI)
  let ?notes = "skill_note env a @ [telemetry_note env a] @ guide_note a"
  have r: "map json_role ?notes = replicate (length ?notes) (Some ''system'')"
    and c: "map json_call_id ?notes = replicate (length ?notes) None"
    using notes_are_system[of env a] system_note_fields by (intro map_const_replicate; metis)+
  show "map json_role (request_messages env gw a) =
      map (Some \<circ> role) (messages a) @ replicate (length ?notes) (Some ''system'')"
    unfolding request_messages_def map_append r [unfolded map_append, symmetric]
    using map_zip_index[of "json_role \<circ> message_json env gw a" "Some \<circ> role" 0 "messages a"] by simp
  show "map json_call_id (request_messages env gw a) =
      map tool_call_id (messages a) @ replicate (length ?notes) None"
    unfolding request_messages_def map_append c [unfolded map_append, symmetric]
    using map_zip_index[of "json_call_id \<circ> message_json env gw a" tool_call_id 0 "messages a"] by simp
qed

text \<open>An API error becomes part of the conversation. The code means to keep transport errors
  out of the history, but the gateway words them \<open>API Error (HTTP n): ...\<close> and the test is for
  \<open>API Error:\<close>, so the step records the error text as something the assistant said.\<close>

theorem api_error_enters_history:
  assumes "chat_complete gw = Some f"
    and "\<And>m t. f m t = text_reply (''API Error (HTTP '' @ rest)"
    and "\<And>c r names. scav c r names = []"
  shows "messages (snd (belya_agent_step env gw scav a)) =
    messages (step_prepare a) @ [plain_message ''assistant'' (''API Error (HTTP '' @ rest)]"
proof -
  have "fst (belya_agent_step env gw scav a) = text_reply (''API Error (HTTP '' @ rest)"
    by (simp add: belya_agent_step_def Let_def case_prod_unfold assms scavenge_fallback_def)
  then show ?thesis
    by (simp add: belya_agent_step_messages transport_failure_def text_reply_def reply_message_def
        plain_message_def)
qed

theorem api_error_enters_history_witness:
  "messages (snd (belya_agent_step sample_env (sample_gateway (text_reply ''API Error (HTTP 503): overloaded''))
      (\<lambda>_ _ _. []) (sample_agent sample_exchange))) =
   messages (step_prepare (sample_agent sample_exchange)) @
     [plain_message ''assistant'' ''API Error (HTTP 503): overloaded'']"
proof -
  have "messages (snd (belya_agent_step sample_env (sample_gateway (text_reply (''API Error (HTTP '' @ ''503): overloaded'')))
      (\<lambda>_ _ _. []) (sample_agent sample_exchange))) =
    messages (step_prepare (sample_agent sample_exchange)) @
     [plain_message ''assistant'' (''API Error (HTTP '' @ ''503): overloaded'')]"
    by (rule api_error_enters_history) (auto simp: sample_gateway_def)
  then show ?thesis by simp
qed

end
