(* ===== verification/Harness.thy ===== *)
theory Harness
  imports TurnGuard AgentStep Permissions
begin

text \<open>
  The dispatcher of \<open>belya_harness.c\<close>: the tool registry and its whitelist, the permission gate,
  plan mode, and \<open>belya_harness_execute_turn\<close> with everything it does for one tool call; and the
  dispatch of one call by the Telegram daemon in \<open>telegram_adapter.c\<close>.

  What happens outside the harness is the record \<open>outside\<close> over a type of worlds: the model
  behind the gateway, the operator, the risk service, the lifecycle hooks, the tools themselves,
  the clock and the files. A tool and the operator's prompt may change the harness, as callbacks
  of the code do. The trace lists what a turn did, in order. The git checkpoint before a turn and
  the distillation of a skill after it, and everything printed, are left out.
\<close>

section \<open>Tools\<close>

datatype SecurityLevel = PERM_ALLOW | PERM_ASK_USER | PERM_DENY

record BelyaRegisteredTool =
  tool_name :: cstr
  security :: SecurityLevel
  has_callback :: bool
  has_mcp_client :: bool
  custom_script_path :: "cstr option"

datatype BelyaPermissionMode = BELYA_PERM_PERMISSIVE | BELYA_PERM_STRICT

record BelyaHarness = TurnGuard +
  agent :: BelyaAgent
  tools :: "BelyaRegisteredTool list"
  mcp_server_count :: nat
  has_prompt_fn :: bool
  permission_mode :: BelyaPermissionMode
  tools_whitelist :: cstr
  plan_mode :: bool

definition ci_eq :: "cstr \<Rightarrow> cstr \<Rightarrow> bool" where
  "ci_eq a b \<longleftrightarrow> map tolower a = map tolower b"

definition whitelist_token :: "cstr \<Rightarrow> cstr \<Rightarrow> bool" where
  "whitelist_token tool tok0 =
     (let tok = rskip isspace (lskip (\<lambda>c. c = CHR '' '' \<or> c = TAB) tok0) in
      ci_eq tok tool \<or>
      (ci_eq tok ''grep_search'' \<and> tool = ''search_files'') \<or>
      (ci_eq tok ''find_by_name'' \<and> (tool = ''list_dir'' \<or> tool = ''search_files'')) \<or>
      (ci_eq tok ''replace_file_content'' \<and> tool = ''edit_file''))"

definition belya_harness_is_tool_whitelisted :: "cstr option \<Rightarrow> cstr option \<Rightarrow> bool" where
  "belya_harness_is_tool_whitelisted whitelist name =
     (case name of None \<Rightarrow> False
      | Some tool \<Rightarrow>
        (case whitelist of None \<Rightarrow> True
         | Some wl \<Rightarrow>
           if wl = [] \<or> wl = ''*'' \<or> wl = ''all'' then True
           else list_ex (whitelist_token tool) (strtok_all ('',; '' @ [TAB, CR, LF]) wl)))"

definition belya_harness_register_tool ::
    "cstr \<Rightarrow> cstr \<Rightarrow> JsonValue option \<Rightarrow> SecurityLevel \<Rightarrow> bool \<Rightarrow> BelyaHarness \<Rightarrow> BelyaHarness" where
  "belya_harness_register_tool name desc params sec fn h =
     (if length (tools h) \<ge> 64 then h
      else h\<lparr>tools := tools h @ [\<lparr>tool_name = name, security = sec, has_callback = fn, has_mcp_client = False, custom_script_path = None\<rparr>],
             agent := belya_agent_register_schema name desc params (agent h)\<rparr>)"

definition default_mcp_schema :: JsonValue where
  "default_mcp_schema = JSON_OBJECT [(''type'', JSON_STRING ''object'')]"

definition register_mcp_tool :: "JsonValue \<Rightarrow> BelyaHarness \<Rightarrow> BelyaHarness" where
  "register_mcp_tool t h =
     (case json_obj_get_str (Some t) ''name'' of None \<Rightarrow> h
      | Some t_name \<Rightarrow>
        if length (tools h) < 64 then
          if tools_whitelist h \<noteq> [] \<and> \<not> belya_harness_is_tool_whitelisted (Some (tools_whitelist h)) (Some t_name)
          then h
          else h\<lparr>tools := tools h @ [\<lparr>tool_name = t_name, security = PERM_ALLOW, has_callback = False,
                   has_mcp_client = True, custom_script_path = None\<rparr>],
                 agent := belya_agent_register_schema t_name
                   (case json_obj_get_str (Some t) ''description'' of None \<Rightarrow> [] | Some d \<Rightarrow> d)
                   (json_parse (Some (json_text (case json_obj_get (Some t) ''inputSchema'' of
                      None \<Rightarrow> default_mcp_schema | Some s \<Rightarrow> s)))) (agent h)\<rparr>
        else h)"

text \<open>\<open>client_tools\<close>: \<open>None\<close> when no connection is made, else what the server lists as its tools.\<close>

definition belya_harness_connect_mcp :: "JsonValue option option \<Rightarrow> BelyaHarness \<Rightarrow> bool \<times> BelyaHarness" where
  "belya_harness_connect_mcp client_tools h =
     (if mcp_server_count h \<ge> 8 then (False, h)
      else case client_tools of None \<Rightarrow> (False, h)
        | Some listed \<Rightarrow>
          let h = h\<lparr>mcp_server_count := mcp_server_count h + 1\<rparr> in
          (True, case listed of Some (JSON_ARRAY items) \<Rightarrow> fold register_mcp_tool items h | _ \<Rightarrow> h))"

section \<open>Plan mode\<close>

definition belya_harness_enter_plan_mode :: "BelyaHarness \<Rightarrow> BelyaHarness" where
  "belya_harness_enter_plan_mode h =
     h\<lparr>plan_mode := True, agent := belya_agent_log_timeline ''plan_mode_entered'' ''Activated read-only Plan Mode'' (agent h)\<rparr>"

definition belya_harness_exit_plan_mode :: "BelyaHarness \<Rightarrow> BelyaHarness" where
  "belya_harness_exit_plan_mode h =
     h\<lparr>plan_mode := False, agent := belya_agent_log_timeline ''plan_mode_exited'' ''Deactivated Plan Mode'' (agent h)\<rparr>"

definition plan_blocked :: "cstr \<Rightarrow> bool" where
  "plan_blocked name \<longleftrightarrow>
     name = ''write_file'' \<or> name = ''edit_file'' \<or> name = ''apply_patch'' \<or> name = ''define_tool''"

section \<open>Permission\<close>

definition belya_harness_permission_gate :: "BelyaHarness \<Rightarrow> cstr \<Rightarrow> cstr \<Rightarrow> PermTier" where
  "belya_harness_permission_gate h name args =
     (let tier = permission_classify (Some name) (Some args) in
      if tier \<noteq> PERM_TIER_ASK then tier
      else if has_prompt_fn h then PERM_TIER_ASK
      else if permission_mode h = BELYA_PERM_STRICT then PERM_TIER_DENY
      else PERM_TIER_ALLOW)"

datatype TuiAction =
    TUI_ACTION_APPLY | TUI_ACTION_REJECT | TUI_ACTION_EDIT | TUI_ACTION_ALWAYS_ALLOW | TUI_ACTION_VIEW_DIFF

fun allow_first :: "cstr \<Rightarrow> BelyaRegisteredTool list \<Rightarrow> BelyaRegisteredTool list" where
  "allow_first name [] = []"
| "allow_first name (t # ts) =
     (if tool_name t = name then t\<lparr>security := PERM_ALLOW\<rparr> # ts else t # allow_first name ts)"

text \<open>\<open>unattended\<close>: no terminal on stdin, or one of the two environment variables is set.\<close>

definition belya_terminal_permission_prompt ::
    "bool \<Rightarrow> TuiAction \<Rightarrow> cstr \<Rightarrow> BelyaHarness \<Rightarrow> bool \<times> BelyaHarness" where
  "belya_terminal_permission_prompt unattended action name h =
     (if unattended then (True, h)
      else case action of
        TUI_ACTION_ALWAYS_ALLOW \<Rightarrow> (True, h\<lparr>tools := allow_first name (tools h)\<rparr>)
      | TUI_ACTION_APPLY \<Rightarrow> (True, h)
      | TUI_ACTION_EDIT \<Rightarrow> (True, h)
      | _ \<Rightarrow> (False, h))"

section \<open>Outside\<close>

record JevRiskResult =
  action :: "cstr option"
  risk_above_085 :: bool
  risk_above_060 :: bool

text \<open>\<open>run_tool\<close> is the tool's callback. What a callback does beyond its result is the change of the
  world: the calls that a subagent of \<open>spawn_subagent\<close> or \<open>dispatch_agent\<close> makes are not events of the
  turn that called it. Subagents models these two callbacks, with the calls they make as events of their own.\<close>

record 'w outside =
  next_gateway :: "'w \<Rightarrow> ModelGateway \<times> step_env \<times> 'w"
  scavenge :: scavenger
  prompt_fn :: "cstr \<Rightarrow> cstr \<Rightarrow> BelyaHarness \<Rightarrow> 'w \<Rightarrow> bool \<times> BelyaHarness \<times> 'w"
  terminal :: "cstr \<Rightarrow> cstr \<Rightarrow> 'w \<Rightarrow> bool \<times> TuiAction \<times> 'w"
  has_jev :: bool
  jev_check_tool_risk :: "cstr \<Rightarrow> cstr \<Rightarrow> 'w \<Rightarrow> JevRiskResult option \<times> 'w"
  pre_tool_hook :: "cstr \<Rightarrow> cstr \<Rightarrow> 'w \<Rightarrow> (bool \<times> cstr option) \<times> 'w"
  post_tool_hook :: "cstr \<Rightarrow> cstr \<Rightarrow> cstr \<Rightarrow> 'w \<Rightarrow> 'w"
  run_tool :: "BelyaRegisteredTool \<Rightarrow> cstr \<Rightarrow> JsonValue option \<Rightarrow> BelyaHarness \<Rightarrow> 'w \<Rightarrow>
     cstr option \<times> BelyaHarness \<times> 'w"
  now :: "'w \<Rightarrow> int"
  files :: "'w \<Rightarrow> cstr \<Rightarrow> cstr option"
  output_limit :: "int option"

text \<open>\<open>Ran\<close> is a call the dispatcher itself ran; \<open>Delegated role e\<close> is an event of a subagent.\<close>

datatype event =
    Model_Call
  | Asked cstr cstr bool
  | Ran cstr cstr
  | Result "cstr option" cstr
  | Delegated cstr event

record 'w turn =
  hs :: BelyaHarness
  world :: 'w
  trace :: "event list"

definition log_event :: "event \<Rightarrow> 'w turn \<Rightarrow> 'w turn" where
  "log_event e s = s\<lparr>trace := trace s @ [e]\<rparr>"

definition add_result :: "'w outside \<Rightarrow> ReplyCall \<Rightarrow> cstr \<Rightarrow> 'w turn \<Rightarrow> 'w turn" where
  "add_result W tc txt s =
     log_event (Result (rc_id tc) txt)
       (s\<lparr>hs := (hs s)\<lparr>agent := belya_agent_add_tool_result (output_limit W) (rc_id tc) (rc_name tc) (Some txt)
            (agent (hs s))\<rparr>\<rparr>)"

text \<open>Asking the approver of the harness, or the terminal when it has none.\<close>

definition ask_operator :: "'w outside \<Rightarrow> ReplyCall \<Rightarrow> 'w turn \<Rightarrow> bool \<times> 'w turn" where
  "ask_operator W tc s =
     (let name = rc_name tc; args = rc_args tc;
          (ok, h, w) =
            (if has_prompt_fn (hs s) then prompt_fn W name args (hs s) (world s)
             else let (unattended, act, w) = terminal W name args (world s);
                      (ok, h) = belya_terminal_permission_prompt unattended act name (hs s) in (ok, h, w)) in
      (ok, log_event (Asked name args ok) (s\<lparr>hs := h, world := w\<rparr>)))"

section \<open>One tool call\<close>

definition jev_gated :: "cstr \<Rightarrow> bool" where
  "jev_gated name \<longleftrightarrow>
     name = ''bash'' \<or> name = ''write_file'' \<or> name = ''edit_file'' \<or> name = ''apply_patch''"

text \<open>The risk gate: \<open>Inl\<close> the refusal, or \<open>Inr\<close> to go on.\<close>

definition jev_gate :: "'w outside \<Rightarrow> ReplyCall \<Rightarrow> 'w turn \<Rightarrow> (cstr + unit) \<times> 'w turn" where
  "jev_gate W tc s =
     (if has_jev W \<and> jev_gated (rc_name tc) then
        let (r, w) = jev_check_tool_risk W (rc_name tc) (rc_args tc) (world s); s = s\<lparr>world := w\<rparr> in
        case r of None \<Rightarrow> (Inr (), s)
        | Some risk \<Rightarrow>
          if action risk \<noteq> None \<and> (action risk = Some ''block'' \<or> risk_above_085 risk)
          then (Inl ''Error: Tool call blocked by Jev TypeSafe AI risk guard (high risk).'', s)
          else if action risk \<noteq> None \<and> (action risk = Some ''confirm'' \<or> risk_above_060 risk)
          then let (ok, s) = ask_operator W tc s in
            (if ok then Inr () else Inl ''Error: User denied permission after Jev risk alert.'', s)
          else (Inr (), s)
      else (Inr (), s))"

definition run_call :: "'w outside \<Rightarrow> BelyaRegisteredTool \<Rightarrow> ReplyCall \<Rightarrow> 'w turn \<Rightarrow> 'w turn" where
  "run_call W matched tc s =
     (let name = rc_name tc; args = rc_args tc;
          (obs, h, w) =
            (if has_mcp_client matched \<or> has_callback matched
             then run_tool W matched name (json_parse (Some args)) (hs s) (world s)
             else (None, hs s, world s));
          (tripped, breaker_alert, h) =
            belya_harness_record_tool_observation (files W w) (now W w) name (Some args) obs h;
          final_obs = (case breaker_alert of Some t \<Rightarrow> t
                       | None \<Rightarrow> (case obs of Some t \<Rightarrow> t | None \<Rightarrow> ''Success''));
          w = post_tool_hook W name args final_obs w in
      add_result W tc final_obs (log_event (Ran name args) (s\<lparr>hs := h, world := w\<rparr>)))"

definition hook_refusal :: "cstr option \<Rightarrow> cstr" where
  "hook_refusal out = ''Error: PreToolUse hook blocked execution: '' @
     (case out of None \<Rightarrow> ''Operation blocked by security policy.'' | Some t \<Rightarrow> t)"

definition find_tool :: "cstr \<Rightarrow> BelyaHarness \<Rightarrow> BelyaRegisteredTool option" where
  "find_tool name h = find (\<lambda>t. tool_name t = name) (tools h)"

definition hooked_call :: "'w outside \<Rightarrow> BelyaRegisteredTool \<Rightarrow> ReplyCall \<Rightarrow> 'w turn \<Rightarrow> 'w turn" where
  "hooked_call W matched tc s =
     (case jev_gate W tc s of
        (Inl refusal, s) \<Rightarrow> add_result W tc refusal s
      | (Inr _, s) \<Rightarrow>
        let ((blocked, out), w) = pre_tool_hook W (rc_name tc) (rc_args tc) (world s); s = s\<lparr>world := w\<rparr> in
        if blocked then add_result W tc (hook_refusal out) s else run_call W matched tc s)"

definition handle_call :: "'w outside \<Rightarrow> ReplyCall \<Rightarrow> 'w turn \<Rightarrow> 'w turn" where
  "handle_call W tc s =
     (let name = rc_name tc; tier = belya_harness_permission_gate (hs s) name (rc_args tc) in
      case find_tool name (hs s) of
        None \<Rightarrow> add_result W tc ''Error: Tool blocked by security policy.'' s
      | Some matched \<Rightarrow>
        if security matched = PERM_DENY \<or> tier = PERM_TIER_DENY
        then add_result W tc ''Error: Tool blocked by security policy.'' s
        else if plan_mode (hs s) \<and> plan_blocked name
        then add_result W tc ''Blocked: Plan Mode is active (read-only execution). Use exit_plan_mode to perform modifications.'' s
        else if tier = PERM_TIER_ASK
        then let (ok, s) = ask_operator W tc s in
          if ok then hooked_call W matched tc s
          else add_result W tc ''Error: User denied permission for this tool call.'' s
        else hooked_call W matched tc s)"

section \<open>A turn\<close>

definition guard_nudge :: cstr where
  "guard_nudge =
     ''[HARNESS VERIFICATION GUARD]: Files were modified during this turn, but no test, build, or verification command has been executed. '' @
     ''Run a verification step (e.g. compile, run tests, or inspect diff) to verify the changes before concluding.''"

definition model_step :: "'w outside \<Rightarrow> 'w turn \<Rightarrow> ModelGatewayResponse \<times> 'w turn" where
  "model_step W s =
     (let (gw, env, w) = next_gateway W (world s);
          (resp, a) = belya_agent_step env gw (scavenge W) (agent (hs s)) in
      (resp, log_event Model_Call (s\<lparr>hs := (hs s)\<lparr>agent := a\<rparr>, world := w\<rparr>)))"

fun turn_loop :: "nat \<Rightarrow> 'w outside \<Rightarrow> 'w turn \<Rightarrow> 'w turn" where
  "turn_loop 0 W s = s"
| "turn_loop (Suc max_steps) W s =
     (let (resp, s) = model_step W s in
      if \<not> has_tool_call resp then
        if files_modified_in_turn (hs s) \<and> \<not> verification_performed_in_turn (hs s) \<and>
           \<not> verification_guard_tripped (hs s)
        then turn_loop max_steps W
               (s\<lparr>hs := (hs s)\<lparr>verification_guard_tripped := True,
                  agent := belya_agent_add_message ''user'' (Some guard_nudge) (agent (hs s))\<rparr>\<rparr>)
        else s
      else turn_loop max_steps W (fold (handle_call W) (resp_calls resp) s))"

definition belya_harness_execute_turn :: "'w outside \<Rightarrow> cstr \<Rightarrow> 'w turn \<Rightarrow> 'w turn" where
  "belya_harness_execute_turn W user_prompt s =
     (if user_prompt = [] then s
      else let h = belya_harness_reset_turn_state (hs s) in
        turn_loop 50 W (s\<lparr>hs := h\<lparr>agent := belya_agent_add_message ''user'' (Some user_prompt) (agent h)\<rparr>\<rparr>))"

section \<open>Dispatch by the Telegram daemon\<close>

definition telegram_run :: "'w outside \<Rightarrow> BelyaRegisteredTool \<Rightarrow> ReplyCall \<Rightarrow> 'w turn \<Rightarrow> 'w turn" where
  "telegram_run W matched tc s =
     (let name = rc_name tc; args = rc_args tc in
      case json_parse (Some args) of
        None \<Rightarrow> add_result W tc
          ''Error: tool call arguments were not valid JSON (possibly truncated); nothing was executed.'' s
      | Some v \<Rightarrow>
        let (obs, h, w) =
              (if has_mcp_client matched \<or> has_callback matched
               then run_tool W matched name (Some v) (hs s) (world s) else (None, hs s, world s));
            (tripped, breaker_alert, h) =
              belya_harness_record_tool_observation (files W w) (now W w) name (Some args) obs h;
            final_obs = (case breaker_alert of Some t \<Rightarrow> t
                         | None \<Rightarrow> (case obs of Some t \<Rightarrow> t | None \<Rightarrow> ''Error: tool returned no result'')) in
        add_result W tc final_obs (log_event (Ran name args) (s\<lparr>hs := h, world := w\<rparr>)))"

definition telegram_handle_call :: "'w outside \<Rightarrow> int \<Rightarrow> ReplyCall \<Rightarrow> 'w turn \<Rightarrow> 'w turn" where
  "telegram_handle_call W turbo tc s =
     (let name = rc_name tc; args = rc_args tc in
      case find_tool name (hs s) of
        None \<Rightarrow> add_result W tc ''Error: Unknown tool.'' s
      | Some matched \<Rightarrow>
        let call_tier = permission_apply_turbo (belya_harness_permission_gate (hs s) name args) turbo in
        if security matched = PERM_DENY \<or> call_tier = PERM_TIER_DENY
        then add_result W tc ''Error: Tool blocked by security policy (destructive or out-of-workspace call).'' s
        else if security matched = PERM_ASK_USER \<or> call_tier = PERM_TIER_ASK then
          let (ok, h, w) = (if has_prompt_fn (hs s) then prompt_fn W name args (hs s) (world s)
                            else (False, hs s, world s));
              s = log_event (Asked name args ok) (s\<lparr>hs := h, world := w\<rparr>) in
          if ok then telegram_run W matched tc s
          else add_result W tc ''Error: User denied permission for this tool call.'' s
        else telegram_run W matched tc s)"

section \<open>What a call adds to the trace\<close>

text \<open>\<open>extends P s s'\<close>: the trace grew, without a model call or an event of a subagent, and every call it
  ran satisfies \<open>P\<close>.\<close>

definition extends :: "(cstr \<Rightarrow> cstr \<Rightarrow> bool) \<Rightarrow> 'w turn \<Rightarrow> 'w turn \<Rightarrow> bool" where
  "extends P s s' \<longleftrightarrow>
     (\<exists>es. trace s' = trace s @ es \<and> Model_Call \<notin> set es \<and> (\<forall>r d. Delegated r d \<notin> set es) \<and>
        (\<forall>n a. Ran n a \<in> set es \<longrightarrow> P n a))"

lemma extends_refl [simp]: "trace s' = trace s \<Longrightarrow> extends P s s'"
  by (simp add: extends_def)

lemma extends_trans [trans]: "extends P s t \<Longrightarrow> extends P t u \<Longrightarrow> extends P s u"
  unfolding extends_def by (elim exE, rule exI, auto)

lemma extends_mono: "extends P s t \<Longrightarrow> (\<And>n a. P n a \<Longrightarrow> Q n a) \<Longrightarrow> extends Q s t"
  unfolding extends_def by blast

lemma extends_if:
  "(b \<Longrightarrow> extends P s x) \<Longrightarrow> (\<not> b \<Longrightarrow> extends P s y) \<Longrightarrow> extends P s (if b then x else y)"
  by simp

lemma extends_log: "e \<noteq> Model_Call \<Longrightarrow> (\<And>r d. e \<noteq> Delegated r d) \<Longrightarrow> (\<And>n a. e = Ran n a \<Longrightarrow> P n a) \<Longrightarrow> trace s' = trace s \<Longrightarrow> extends P s (log_event e s')"
  by (simp add: extends_def log_event_def) (metis event.distinct)

lemma extends_add_result: "trace s' = trace s \<Longrightarrow> extends P s (add_result W tc msg s')"
  unfolding add_result_def by (rule extends_log) simp_all

lemma extends_ask: "extends P s (snd (ask_operator W tc s))"
  by (auto simp: ask_operator_def Let_def case_prod_unfold intro: extends_log)

lemma extends_jev: "extends P s (snd (jev_gate W tc s))"
proof -
  have "extends P s (snd (ask_operator W tc (s\<lparr>world := w\<rparr>)))" for w
    by (rule extends_trans[OF _ extends_ask]) simp
  then show ?thesis by (auto simp: jev_gate_def Let_def case_prod_unfold split: option.splits)
qed

definition is_call :: "ReplyCall \<Rightarrow> cstr \<Rightarrow> cstr \<Rightarrow> bool" where
  "is_call tc n a \<longleftrightarrow> n = rc_name tc \<and> a = rc_args tc"

lemma extends_run: "extends (is_call tc) s (run_call W matched tc s)"
  unfolding run_call_def Let_def case_prod_unfold
  by (rule extends_trans[OF extends_log extends_add_result]) (auto simp: is_call_def)

lemma extends_hooked: "extends (is_call tc) s (hooked_call W matched tc s)"
proof -
  note j = extends_jev[of "is_call tc" s W tc]
  have "extends (is_call tc) s (add_result W tc msg (snd (jev_gate W tc s)))" for msg
    by (rule extends_trans[OF j extends_add_result]) simp
  moreover have "extends (is_call tc) s (add_result W tc msg ((snd (jev_gate W tc s))\<lparr>world := w\<rparr>))" for msg w
    by (rule extends_trans[OF j extends_add_result]) simp
  moreover have "extends (is_call tc) s (run_call W matched tc ((snd (jev_gate W tc s))\<lparr>world := w\<rparr>))" for w
  proof (rule extends_trans[OF j])
    show "extends (is_call tc) (snd (jev_gate W tc s)) (run_call W matched tc ((snd (jev_gate W tc s))\<lparr>world := w\<rparr>))"
      by (rule extends_trans[OF _ extends_run]) simp
  qed
  ultimately show ?thesis
    by (simp add: hooked_call_def case_prod_unfold Let_def split: sum.splits)
qed

text \<open>The conditions under which the dispatcher lets a call run.\<close>

definition permitted :: "'w outside \<Rightarrow> ReplyCall \<Rightarrow> 'w turn \<Rightarrow> bool" where
  "permitted W tc s \<longleftrightarrow>
     (\<exists>t. find_tool (rc_name tc) (hs s) = Some t \<and> security t \<noteq> PERM_DENY) \<and>
     belya_harness_permission_gate (hs s) (rc_name tc) (rc_args tc) \<noteq> PERM_TIER_DENY \<and>
     \<not> (plan_mode (hs s) \<and> plan_blocked (rc_name tc)) \<and>
     (belya_harness_permission_gate (hs s) (rc_name tc) (rc_args tc) = PERM_TIER_ASK \<longrightarrow>
        fst (ask_operator W tc s))"

lemma extends_handle: "extends (\<lambda>n a. is_call tc n a \<and> permitted W tc s) s (handle_call W tc s)"
proof -
  have r: "extends P s (add_result W tc msg s)" for P msg by (rule extends_add_result) simp
  have a: "extends P s (add_result W tc msg (snd (ask_operator W tc s)))" for P msg
    by (rule extends_trans[OF extends_ask extends_add_result]) simp
  have h: "permitted W tc s \<Longrightarrow> extends (\<lambda>n a. is_call tc n a \<and> permitted W tc s) s (hooked_call W m tc s)" for m
    by (rule extends_mono[OF extends_hooked]) simp
  have ha: "permitted W tc s \<Longrightarrow>
      extends (\<lambda>n a. is_call tc n a \<and> permitted W tc s) s (hooked_call W m tc (snd (ask_operator W tc s)))" for m
    by (rule extends_mono[OF extends_trans[OF extends_ask extends_hooked]]) simp
  show ?thesis
  proof (cases "find_tool (rc_name tc) (hs s)")
    case None
    then show ?thesis by (simp add: handle_call_def Let_def r)
  next
    case (Some m)
    show ?thesis
      unfolding handle_call_def Let_def Some option.case case_prod_unfold
      by (intro extends_if r a h ha) (simp_all add: permitted_def Some)
  qed
qed

lemma gate_denies: "permission_classify (Some n) (Some a) = PERM_TIER_DENY \<Longrightarrow>
    belya_harness_permission_gate h n a = PERM_TIER_DENY"
  by (simp add: belya_harness_permission_gate_def)

definition not_denied :: "cstr \<Rightarrow> cstr \<Rightarrow> bool" where
  "not_denied n a \<longleftrightarrow> permission_classify (Some n) (Some a) \<noteq> PERM_TIER_DENY"

lemma extends_handle_safe: "extends not_denied s (handle_call W tc s)"
  by (rule extends_mono[OF extends_handle])
    (auto simp: is_call_def permitted_def not_denied_def dest: gate_denies)

lemma extends_calls: "extends not_denied s (fold (handle_call W) tcs s)"
proof (induction tcs arbitrary: s)
  case (Cons tc tcs)
  have "extends not_denied s (handle_call W tc s)" by (rule extends_handle_safe)
  also have "extends not_denied \<dots> (fold (handle_call W) tcs (handle_call W tc s))" by (rule Cons.IH)
  finally show ?case by simp
qed simp

lemma extends_telegram_run: "extends (is_call tc) s (telegram_run W matched tc s)"
proof (cases "json_parse (Some (rc_args tc))")
  case None
  then show ?thesis by (simp add: telegram_run_def extends_add_result)
next
  case (Some v)
  show ?thesis unfolding telegram_run_def Let_def case_prod_unfold Some option.case
    by (rule extends_trans[OF extends_log extends_add_result]) (auto simp: is_call_def)
qed

lemma extends_telegram: "extends not_denied s (telegram_handle_call W turbo tc s)"
proof -
  define tier where "tier = permission_apply_turbo (belya_harness_permission_gate (hs s) (rc_name tc) (rc_args tc)) turbo"
  have ok: "tier \<noteq> PERM_TIER_DENY \<Longrightarrow> not_denied (rc_name tc) (rc_args tc)"
    using gate_denies[of "rc_name tc" "rc_args tc" "hs s"]
    by (auto simp: tier_def not_denied_def permission_apply_turbo_def)
  have r: "extends not_denied s (add_result W tc msg s)" for msg by (rule extends_add_result) simp
  let ?a = "\<lambda>ok h w. log_event (Asked (rc_name tc) (rc_args tc) ok) (s\<lparr>hs := h, world := w\<rparr>)"
  have a: "extends P s (?a b h w)" for P b h w by (rule extends_log) simp_all
  have ra: "extends not_denied s (add_result W tc msg (?a b h w))" for msg b h w
    by (rule extends_trans[OF a extends_add_result]) simp
  have t: "tier \<noteq> PERM_TIER_DENY \<Longrightarrow> extends not_denied u (telegram_run W m tc u)" for m u
    by (rule extends_mono[OF extends_telegram_run]) (use ok in \<open>simp add: is_call_def\<close>)
  have ta: "tier \<noteq> PERM_TIER_DENY \<Longrightarrow> extends not_denied s (telegram_run W m tc (?a b h w))" for m b h w
    by (rule extends_trans[OF a t])
  show ?thesis
  proof (cases "find_tool (rc_name tc) (hs s)")
    case None
    then show ?thesis by (simp add: telegram_handle_call_def Let_def r)
  next
    case (Some m)
    show ?thesis
      unfolding telegram_handle_call_def Let_def Some option.case case_prod_unfold tier_def [symmetric]
      by (intro extends_if r ra t ta) simp_all
  qed
qed

section \<open>Every call is answered\<close>

text \<open>Tools and the approver leave the conversation alone; the dispatcher writes it.\<close>

definition leaves_history :: "'w outside \<Rightarrow> bool" where
  "leaves_history W \<longleftrightarrow>
     (\<forall>t n v h w. messages (agent (fst (snd (run_tool W t n v h w)))) = messages (agent h)) \<and>
     (\<forall>n a h w. messages (agent (fst (snd (prompt_fn W n a h w)))) = messages (agent h))"

text \<open>Replies with tool calls carry an id for each and do not look like transport errors.\<close>

definition wellformed_replies :: "'w outside \<Rightarrow> bool" where
  "wellformed_replies W \<longleftrightarrow>
     (\<forall>w a. case next_gateway W w of (gw, env, w') \<Rightarrow>
        let resp = fst (belya_agent_step env gw (scavenge W) a) in
        has_tool_call resp \<longrightarrow> \<not> transport_failure resp \<and> list_all (\<lambda>c. rc_id c \<noteq> None) (resp_calls resp))"

abbreviation conv :: "'w turn \<Rightarrow> BelyaMessage list" where
  "conv s \<equiv> messages (agent (hs s))"

definition call_ref :: "ReplyCall \<Rightarrow> cstr" where
  "call_ref tc = (case rc_id tc of None \<Rightarrow> ''call_default'' | Some i \<Rightarrow> i)"

definition answers :: "ReplyCall \<Rightarrow> 'w turn \<Rightarrow> 'w turn \<Rightarrow> bool" where
  "answers tc s s' \<longleftrightarrow>
     (\<exists>c. conv s' = conv s @ [\<lparr>role = ''tool'', content = c, tool_call_id = Some (call_ref tc), tool_calls = []\<rparr>])"

lemma agent_track [simp]: "agent (track_actions t h) = agent h"
  by (simp add: track_actions_def Let_def)

lemma agent_count [simp]: "agent (count_failure t a h) = agent h"
  by (simp add: count_failure_def Let_def)

lemma agent_note [simp]: "agent (note_cycle k h) = agent h"
  by (simp add: note_cycle_def)

lemma agent_record [simp]:
  "agent (snd (snd (belya_harness_record_tool_observation fs t name args obs h))) = agent h"
  unfolding belya_harness_record_tool_observation_def Let_def by (simp split: option.splits)

lemma answers_add_result: "conv s' = conv s \<Longrightarrow> answers tc s (add_result W tc msg s')"
  by (simp add: answers_def add_result_def log_event_def belya_agent_add_tool_result_def call_ref_def)

lemma conv_prompt: "conv (snd (ask_operator W tc s)) = conv s" if "leaves_history W"
proof -
  have "agent (snd (belya_terminal_permission_prompt u act n h)) = agent h" for u act n h
    by (cases act) (simp_all add: belya_terminal_permission_prompt_def)
  then show ?thesis using that
    by (simp add: ask_operator_def log_event_def case_prod_unfold Let_def leaves_history_def)
qed

lemma conv_jev: "conv (snd (jev_gate W tc s)) = conv s" if "leaves_history W"
  using conv_prompt[OF that, of tc] by (simp add: jev_gate_def case_prod_unfold Let_def split: option.splits)

lemma answers_run: "answers tc s (run_call W m tc s')" if "leaves_history W" "conv s' = conv s"
  unfolding run_call_def Let_def case_prod_unfold
  by (rule answers_add_result) (use that in \<open>simp add: log_event_def leaves_history_def\<close>)

lemma answers_hooked: "answers tc s (hooked_call W m tc s')" if "leaves_history W" "conv s' = conv s"
proof -
  have c: "conv (snd (jev_gate W tc s')) = conv s" by (simp add: conv_jev that)
  show ?thesis
    by (simp add: hooked_call_def case_prod_unfold Let_def answers_add_result answers_run[OF that(1)] c
        split: sum.splits)
qed

lemma answers_handle: "answers tc s (handle_call W tc s)" if "leaves_history W"
  by (simp add: handle_call_def case_prod_unfold Let_def answers_add_result answers_hooked[OF that]
      conv_prompt[OF that] split: option.splits)

lemma pending_answers:
  assumes "answers tc s s'" and "pending [] (conv s) = Some (call_ref tc # q)"
  shows "pending [] (conv s') = Some q"
  using assms by (auto simp: answers_def pending_append is_tool_def)

lemma answers_calls:
  assumes "leaves_history W" and "pending [] (conv s) = Some (map call_ref tcs)"
  shows "sendable (conv (fold (handle_call W) tcs s)) \<and> (\<exists>ms. conv (fold (handle_call W) tcs s) = conv s @ ms)"
  using assms(2)
proof (induction tcs arbitrary: s)
  case (Cons tc tcs)
  have a: "answers tc s (handle_call W tc s)" by (rule answers_handle[OF assms(1)])
  have "pending [] (conv (handle_call W tc s)) = Some (map call_ref tcs)"
    by (rule pending_answers[OF a]) (use Cons.prems in simp)
  from Cons.IH[OF this] a show ?case by (auto simp: answers_def)
qed (simp add: sendable_def)

text \<open>The invariant of a turn between model calls.\<close>

definition conv_ok :: "BelyaMessage list \<Rightarrow> bool" where
  "conv_ok ms \<longleftrightarrow> sendable ms \<and> pinned ms \<and> 2 \<le> length ms"

lemma pinned_append: "2 \<le> length ms \<Longrightarrow> pinned (ms @ xs) = pinned ms"
  by (simp add: pinned_def)

lemma take_two_length: "take 2 xs = take 2 ys \<Longrightarrow> 2 \<le> length ys \<Longrightarrow> 2 \<le> length xs"
  by (metis length_take min.absorb2 min_le_iff_disj order_refl le_trans min.cobounded1)

lemma conv_ok_add_user:
  assumes "sendable ms" "pinned ms" "ms \<noteq> []"
  shows "conv_ok (ms @ [plain_message ''user'' t])"
proof -
  have "pinned (ms @ [plain_message ''user'' t])"
  proof (cases "2 \<le> length ms")
    case True
    with assms(2) show ?thesis by (simp add: pinned_append)
  next
    case False
    with assms(3) obtain m where "ms = [m]" by (cases ms; cases "tl ms") auto
    with assms(2) show ?thesis by (simp add: pinned_def plain_message_def is_tool_def)
  qed
  moreover have "2 \<le> length (ms @ [plain_message ''user'' t])" using assms(3) by (cases ms) auto
  ultimately show ?thesis using assms(1)
    by (simp add: conv_ok_def sendable_def pending_append plain_message_def is_tool_def)
qed

lemma model_step_conv:
  assumes "conv_ok (conv s)" "wellformed_replies W"
  shows "case model_step W s of (resp, s') \<Rightarrow> 2 \<le> length (conv s') \<and> pinned (conv s') \<and>
    (if has_tool_call resp then pending [] (conv s') = Some (map call_ref (resp_calls resp))
     else sendable (conv s'))"
proof -
  obtain gw env w where g: "next_gateway W (world s) = (gw, env, w)"
    by (cases "next_gateway W (world s)") auto
  define a where "a = agent (hs s)"
  define r where "r = fst (belya_agent_step env gw (scavenge W) a)"
  have a: "sendable (messages a)" "pinned (messages a)" "2 \<le> length (messages a)"
    using assms(1) by (simp_all add: conv_ok_def a_def)
  note k = step_prepare_keeps[OF a(1,2)]
  have l: "2 \<le> length (messages (step_prepare a))" by (rule take_two_length[OF k(2) a(3)])
  have m: "messages (snd (belya_agent_step env gw (scavenge W) a)) =
      messages (step_prepare a) @ (if transport_failure r then [] else [reply_message r])"
    unfolding r_def by (rule belya_agent_step_messages)
  have w: "has_tool_call r \<Longrightarrow> \<not> transport_failure r \<and> list_all (\<lambda>c. rc_id c \<noteq> None) (resp_calls r)"
    using assms(2) g unfolding wellformed_replies_def r_def
    by (metis (mono_tags, lifting) case_prod_conv)
  have c: "list_all (\<lambda>c. rc_id c \<noteq> None) cs \<Longrightarrow> map (\<lambda>c. tc_id (stored_call c)) cs = map call_ref cs" for cs
    by (induction cs) (auto simp: stored_call_def call_ref_def)
  have r: "model_step W s = (r, log_event Model_Call
      (s\<lparr>hs := (hs s)\<lparr>agent := snd (belya_agent_step env gw (scavenge W) a)\<rparr>, world := w\<rparr>))"
    by (simp add: model_step_def g r_def a_def case_prod_unfold Let_def)
  show ?thesis using k(1,3) l w
    by (auto simp: r m log_event_def pinned_append sendable_def pending_append reply_message_def
        is_tool_def comp_def c)
qed

lemma turn_loop_conv:
  assumes "leaves_history W" "wellformed_replies W"
  shows "conv_ok (conv s) \<Longrightarrow> conv_ok (conv (turn_loop n W s))"
proof (induction n arbitrary: s)
  case (Suc n)
  obtain resp s' where ms: "model_step W s = (resp, s')" by (cases "model_step W s")
  with model_step_conv[OF Suc.prems assms(2)] have m: "2 \<le> length (conv s')" "pinned (conv s')"
    "has_tool_call resp \<Longrightarrow> pending [] (conv s') = Some (map call_ref (resp_calls resp))"
    "\<not> has_tool_call resp \<Longrightarrow> sendable (conv s')"
    by auto
  show ?case
  proof (cases "has_tool_call resp")
    case True
    let ?f = "fold (handle_call W) (resp_calls resp) s'"
    from answers_calls[OF assms(1) m(3)[OF True]] obtain xs
      where "sendable (conv ?f)" "conv ?f = conv s' @ xs" by blast
    with m(1,2) have "conv_ok (conv ?f)" by (simp add: conv_ok_def pinned_append)
    from Suc.IH[OF this] True ms show ?thesis by simp
  next
    case False
    have "conv_ok (conv s' @ [plain_message ''user'' guard_nudge])"
      using m(1,2) m(4)[OF False] by (intro conv_ok_add_user) auto
    moreover have "conv_ok (conv s')" using m(1,2) m(4)[OF False] by (simp add: conv_ok_def)
    ultimately show ?thesis using Suc.IH False ms by (simp add: belya_agent_add_message_def)
  qed
qed simp

section \<open>How a turn ends\<close>

definition model_calls :: "'w turn \<Rightarrow> nat" where
  "model_calls s = length (filter (\<lambda>e. e = Model_Call) (trace s))"

lemma model_calls_extends: "extends P s s' \<Longrightarrow> model_calls s' = model_calls s"
  by (auto simp: extends_def model_calls_def filter_empty_conv)

lemma model_step_trace: "trace (snd (model_step W s)) = trace s @ [Model_Call]"
  by (simp add: model_step_def case_prod_unfold Let_def log_event_def)

lemma turn_loop_trace:
  "safe \<longrightarrow> (\<forall>n a. Ran n a \<in> set (trace s) \<longrightarrow> not_denied n a) \<Longrightarrow>
   (safe \<longrightarrow> (\<forall>n a. Ran n a \<in> set (trace (turn_loop k W s)) \<longrightarrow> not_denied n a)) \<and>
   model_calls (turn_loop k W s) \<le> model_calls s + k \<and>
   (model_calls (turn_loop k W s) = model_calls s + k \<or>
    (files_modified_in_turn (hs (turn_loop k W s)) \<longrightarrow>
       verification_performed_in_turn (hs (turn_loop k W s)) \<or> verification_guard_tripped (hs (turn_loop k W s))))"
proof (induction k arbitrary: s)
  case (Suc k)
  obtain resp s' where ms: "model_step W s = (resp, s')" by (cases "model_step W s")
  have t: "trace s' = trace s @ [Model_Call]" using model_step_trace[of W s] ms by simp
  then have safe: "safe \<longrightarrow> (\<forall>n a. Ran n a \<in> set (trace s') \<longrightarrow> not_denied n a)"
    and c: "model_calls s' = Suc (model_calls s)"
    using Suc.prems by (auto simp: model_calls_def)
  let ?f = "fold (handle_call W) (resp_calls resp) s'"
  have e: "extends not_denied s' ?f" by (rule extends_calls)
  have fs: "safe \<longrightarrow> (\<forall>n a. Ran n a \<in> set (trace ?f) \<longrightarrow> not_denied n a)"
    using safe e by (auto simp: extends_def)
  let ?n = "s'\<lparr>hs := (hs s')\<lparr>verification_guard_tripped := True,
    agent := belya_agent_add_message ''user'' (Some guard_nudge) (agent (hs s'))\<rparr>\<rparr>"
  have n: "safe \<longrightarrow> (\<forall>n a. Ran n a \<in> set (trace ?n) \<longrightarrow> not_denied n a)" "model_calls ?n = model_calls s'"
    using safe by (simp_all add: model_calls_def)
  show ?case
    using Suc.IH[OF fs] Suc.IH[OF n(1)] n(2) model_calls_extends[OF e] safe c
    by (simp add: ms)
qed simp

section \<open>Properties\<close>

text \<open>C1: No call that the classifier denies is ever run by the dispatcher: whatever the model asks for,
  the operator answers, the tools do to the harness, and whichever mode, approver or turbo setting is
  in force, every call in the trace of a turn, or of a call dispatched by the Telegram daemon, is
  one that \<open>permission_classify\<close> does not deny. The calls a subagent makes inside a tool are not calls of
  the dispatcher and are not classified.\<close>

theorem denied_call_never_runs:
  assumes "\<And>n a. Ran n a \<in> set (trace s) \<Longrightarrow> permission_classify (Some n) (Some a) \<noteq> PERM_TIER_DENY"
    and "Ran name args \<in> set (trace (belya_harness_execute_turn W user_prompt s))
       \<union> set (trace (telegram_handle_call W turbo tc s))"
  shows "permission_classify (Some name) (Some args) \<noteq> PERM_TIER_DENY"
proof -
  let ?h = "belya_harness_reset_turn_state (hs s)"
  let ?s = "s\<lparr>hs := ?h\<lparr>agent := belya_agent_add_message ''user'' (Some user_prompt) (agent ?h)\<rparr>\<rparr>"
  have safe: "\<forall>n a. Ran n a \<in> set (trace s) \<longrightarrow> not_denied n a" using assms(1) by (simp add: not_denied_def)
  have "\<forall>n a. Ran n a \<in> set (trace (turn_loop 50 W ?s)) \<longrightarrow> not_denied n a"
    using turn_loop_trace[where safe = True and s = ?s and W = W and k = 50] safe by simp
  then have "\<forall>n a. Ran n a \<in> set (trace (belya_harness_execute_turn W user_prompt s)) \<longrightarrow> not_denied n a"
    using safe by (simp add: belya_harness_execute_turn_def Let_def)
  moreover have "\<forall>n a. Ran n a \<in> set (trace (telegram_handle_call W turbo tc s)) \<longrightarrow> not_denied n a"
    using safe extends_telegram[where s = s and W = W and turbo = turbo and tc = tc] by (auto simp: extends_def)
  ultimately show ?thesis using assms(2) by (auto simp: not_denied_def)
qed

text \<open>A world for the witnesses: one tool, a model whose replies are the list of the world.\<close>

definition sample_outside :: "ModelGatewayResponse list outside" where
  "sample_outside = \<lparr>
     next_gateway = (\<lambda>w. case w of [] \<Rightarrow> (sample_gateway (text_reply ''done''), sample_env, [])
                     | r # rs \<Rightarrow> (sample_gateway r, sample_env, rs)),
     scavenge = (\<lambda>_ _ _. []), prompt_fn = (\<lambda>_ _ h w. (True, h, w)),
     terminal = (\<lambda>_ _ w. (True, TUI_ACTION_APPLY, w)), has_jev = False,
     jev_check_tool_risk = (\<lambda>_ _ w. (None, w)), pre_tool_hook = (\<lambda>_ _ w. ((False, None), w)),
     post_tool_hook = (\<lambda>_ _ _ w. w), run_tool = (\<lambda>_ _ _ h w. (Some ''ok'', h, w)),
     now = (\<lambda>_. 0), files = (\<lambda>_ _. None), output_limit = None\<rparr>"

definition sample_harness :: BelyaHarness where
  "sample_harness = \<lparr>last_failed_tool = [], last_failed_args = [], consecutive_tool_failures = 0,
     files_modified_in_turn = False, verification_performed_in_turn = False,
     verification_guard_tripped = False, loop_detector = empty_detector, loop_breaker_tripped = False,
     agent = sample_agent [plain_message ''system'' ''s''],
     tools = [\<lparr>tool_name = ''write_file'', security = PERM_ALLOW, has_callback = True, has_mcp_client = False, custom_script_path = None\<rparr>],
     mcp_server_count = 0, has_prompt_fn = False, permission_mode = BELYA_PERM_PERMISSIVE,
     tools_whitelist = [], plan_mode = True\<rparr>"

definition write_call :: ReplyCall where
  "write_call = \<lparr>rc_id = Some ''c1'', rc_name = ''write_file'',
     rc_args = ''{'' @ [DQ] @ ''path'' @ [DQ] @ '':'' @ [DQ] @ ''a.c'' @ [DQ] @ ''}''\<rparr>"

definition sample_turn :: "ModelGatewayResponse list turn" where
  "sample_turn = \<lparr>hs = sample_harness, world = [], trace = []\<rparr>"

lemma write_call_runs:
  "Ran (rc_name write_call) (rc_args write_call) \<in> set (trace (telegram_handle_call sample_outside 0 write_call sample_turn))"
proof -
  have p: "json_parse (Some (rc_args write_call)) \<noteq> None"
    and c: "permission_classify (Some ''write_file'') (Some (rc_args write_call)) = PERM_TIER_ALLOW"
    by code_simp+
  then obtain v where v: "json_parse (Some (rc_args write_call)) = Some v" by blast
  have n: "rc_name write_call = ''write_file''" by (simp add: write_call_def)
  have t: "find_tool ''write_file'' (hs sample_turn) = Some \<lparr>tool_name = ''write_file'', security = PERM_ALLOW,
      has_callback = True, has_mcp_client = False, custom_script_path = None\<rparr>"
    by (simp add: find_tool_def sample_turn_def sample_harness_def)
  show ?thesis
    by (simp add: telegram_handle_call_def n t c belya_harness_permission_gate_def permission_apply_turbo_def
        telegram_run_def v case_prod_unfold Let_def add_result_def log_event_def)
qed

theorem denied_call_never_runs_witness:
  "permission_classify (Some (rc_name write_call)) (Some (rc_args write_call)) \<noteq> PERM_TIER_DENY"
  by (rule denied_call_never_runs[of sample_turn _ _ sample_outside "[]" 0 write_call])
    (use write_call_runs in \<open>simp_all add: sample_turn_def\<close>)

text \<open>C12: A call runs only with every consent the turn asks for: if handling a call adds a run to
  the trace, it is that call, its tool is registered and not refused, the gate does not deny it,
  plan mode does not block it, and where the gate says ask the operator was asked and agreed.\<close>

theorem call_runs_only_if_permitted:
  assumes "trace (handle_call W tc s) = trace s @ es" and "Ran name args \<in> set es"
  shows "name = rc_name tc \<and> args = rc_args tc \<and>
    (\<exists>t. find_tool name (hs s) = Some t \<and> security t \<noteq> PERM_DENY) \<and>
    belya_harness_permission_gate (hs s) name args \<noteq> PERM_TIER_DENY \<and>
    \<not> (plan_mode (hs s) \<and> plan_blocked name) \<and>
    (belya_harness_permission_gate (hs s) name args = PERM_TIER_ASK \<longrightarrow> fst (ask_operator W tc s))"
  using extends_handle[where W = W and tc = tc and s = s] assms by (auto simp: extends_def is_call_def permitted_def)

definition idle_harness :: BelyaHarness where
  "idle_harness = sample_harness\<lparr>plan_mode := False\<rparr>"

theorem call_runs_only_if_permitted_witness:
  "\<not> (plan_mode (hs (sample_turn\<lparr>hs := idle_harness\<rparr>)) \<and> plan_blocked (rc_name write_call))"
proof -
  let ?s = "sample_turn\<lparr>hs := idle_harness\<rparr>"
  have c: "permission_classify (Some ''write_file'') (Some (rc_args write_call)) = PERM_TIER_ALLOW" by code_simp
  have n: "rc_name write_call = ''write_file''" by (simp add: write_call_def)
  have f: "find_tool ''write_file'' idle_harness = Some \<lparr>tool_name = ''write_file'', security = PERM_ALLOW,
      has_callback = True, has_mcp_client = False, custom_script_path = None\<rparr>" "plan_mode idle_harness = False"
    by (simp_all add: find_tool_def idle_harness_def sample_harness_def)
  have o: "has_jev sample_outside = False" "pre_tool_hook sample_outside = (\<lambda>_ _ w. ((False, None), w))"
    by (simp_all add: sample_outside_def)
  have r: "\<exists>es. trace (run_call W m tc u) = trace u @ [Ran (rc_name tc) (rc_args tc)] @ es"
    for W :: "'x outside" and m tc and u :: "'x turn"
    by (simp add: run_call_def case_prod_unfold Let_def add_result_def log_event_def)
  have "handle_call sample_outside write_call ?s =
      run_call sample_outside \<lparr>tool_name = ''write_file'', security = PERM_ALLOW,
        has_callback = True, has_mcp_client = False, custom_script_path = None\<rparr> write_call ?s"
    by (simp add: handle_call_def n f c belya_harness_permission_gate_def hooked_call_def jev_gate_def o)
  with r[of sample_outside _ write_call ?s] obtain es where
    "trace (handle_call sample_outside write_call ?s) = trace ?s @ [Ran (rc_name write_call) (rc_args write_call)] @ es"
    by metis
  from call_runs_only_if_permitted[OF this, of "rc_name write_call" "rc_args write_call"] show ?thesis by simp
qed

text \<open>C2: A turn keeps the conversation one a provider accepts: if the instructions are there and
  the history is sendable before the turn, then after it, whatever the model asked for and however
  its calls were refused, run or blocked, every tool call in the history is answered by one tool
  message, in order, and the first two messages are still the instructions and the objective.\<close>

theorem turn_keeps_conversation:
  assumes "leaves_history W" and "wellformed_replies W"
    and "sendable (messages (agent (hs s)))" and "pinned (messages (agent (hs s)))"
    and "messages (agent (hs s)) \<noteq> []"
  shows "sendable (messages (agent (hs (belya_harness_execute_turn W user_prompt s)))) \<and>
    pinned (messages (agent (hs (belya_harness_execute_turn W user_prompt s))))"
proof (cases "user_prompt = []")
  case False
  let ?h = "belya_harness_reset_turn_state (hs s)"
  let ?s = "s\<lparr>hs := ?h\<lparr>agent := belya_agent_add_message ''user'' (Some user_prompt) (agent ?h)\<rparr>\<rparr>"
  have "agent ?h = agent (hs s)" by (simp add: belya_harness_reset_turn_state_def)
  then have "conv_ok (conv ?s)"
    using conv_ok_add_user[OF assms(3-5), of user_prompt] by (simp add: belya_agent_add_message_def)
  then have "conv_ok (conv (turn_loop 50 W ?s))" by (rule turn_loop_conv[OF assms(1,2)])
  with False show ?thesis by (simp add: belya_harness_execute_turn_def Let_def conv_ok_def)
qed (use assms in \<open>simp add: belya_harness_execute_turn_def\<close>)

definition call_reply :: ModelGatewayResponse where
  "call_reply = \<lparr>resp_content = None, reasoning_content = None, resp_calls = [write_call],
     has_tool_call = True, prompt_tokens = 1, completion_tokens = 1, cached_tokens = 0\<rparr>"

definition calling_outside :: "ModelGatewayResponse list outside" where
  "calling_outside = sample_outside\<lparr>next_gateway := (\<lambda>w. case w of
     [] \<Rightarrow> (sample_gateway (text_reply ''done''), sample_env, [])
   | _ # rs \<Rightarrow> (sample_gateway call_reply, sample_env, rs))\<rparr>"

theorem turn_keeps_conversation_witness:
  "sendable (messages (agent (hs (belya_harness_execute_turn calling_outside ''go'' (sample_turn\<lparr>world := [call_reply]\<rparr>)))))"
proof -
  have l: "leaves_history calling_outside"
    by (simp add: leaves_history_def calling_outside_def sample_outside_def)
  have w: "wellformed_replies calling_outside"
    by (auto simp: wellformed_replies_def calling_outside_def sample_outside_def belya_agent_step_def
        sample_gateway_def scavenge_fallback_def case_prod_unfold Let_def text_reply_def call_reply_def
        write_call_def transport_failure_def split: list.splits)
  show ?thesis
    using turn_keeps_conversation[OF l w, of "sample_turn\<lparr>world := [call_reply]\<rparr>" "''go''"]
    by (simp add: sample_turn_def sample_harness_def sample_agent_def sendable_def pinned_def plain_message_def
        is_tool_def)
qed

text \<open>C13: A turn makes at most fifty model calls, and one that ends before the fiftieth does not
  conclude with files modified and nothing verified unless the model was told to verify.\<close>

theorem turn_ends_verified_or_nudged:
  "let s' = belya_harness_execute_turn W user_prompt s in
     model_calls s' \<le> model_calls s + 50 \<and>
     (user_prompt \<noteq> [] \<and> model_calls s' < model_calls s + 50 \<and> files_modified_in_turn (hs s') \<longrightarrow>
        verification_performed_in_turn (hs s') \<or> verification_guard_tripped (hs s'))"
proof -
  let ?h = "belya_harness_reset_turn_state (hs s)"
  let ?s = "s\<lparr>hs := ?h\<lparr>agent := belya_agent_add_message ''user'' (Some user_prompt) (agent ?h)\<rparr>\<rparr>"
  have "model_calls ?s = model_calls s" by (simp add: model_calls_def)
  then show ?thesis using turn_loop_trace[where safe = False and s = ?s and W = W and k = 50]
    by (auto simp: belya_harness_execute_turn_def Let_def)
qed

theorem turn_ends_verified_or_nudged_witness:
  "let s' = belya_harness_execute_turn calling_outside ''go'' sample_turn in
     model_calls s' \<le> 50 \<and> (model_calls s' < 50 \<and> files_modified_in_turn (hs s') \<longrightarrow>
        verification_performed_in_turn (hs s') \<or> verification_guard_tripped (hs s'))"
proof -
  have "model_calls sample_turn = 0" by (simp add: model_calls_def sample_turn_def)
  then show ?thesis using turn_ends_verified_or_nudged[of calling_outside "''go''" sample_turn] by simp
qed

text \<open>Plan mode has a hole in the Telegram daemon: with turbo on, a \<open>define_tool\<close> call, which
  writes a script to disk, runs although plan mode is active, because the daemon's dispatcher does
  not apply plan mode's block and the tool does not check it; a turn blocks the same call.\<close>

theorem telegram_turbo_escapes_plan_mode:
  assumes "plan_mode (hs s)" and "has_prompt_fn (hs s)" and "rc_name tc = ''define_tool''"
    and "find_tool ''define_tool'' (hs s) = Some t" and "security t = PERM_ALLOW"
    and "json_parse (Some (rc_args tc)) = Some v" and "turbo \<noteq> 0"
  shows "Ran ''define_tool'' (rc_args tc) \<in> set (trace (telegram_handle_call W turbo tc s)) \<and>
    (\<exists>msg. trace (handle_call W tc s) = trace s @ [Result (rc_id tc) msg])"
proof -
  have c: "permission_classify (Some ''define_tool'') (Some (rc_args tc)) = PERM_TIER_ASK"
    by (simp add: permission_classify_def is_read_tool_def is_write_tool_def)
  show ?thesis
    using assms
    by (simp add: telegram_handle_call_def belya_harness_permission_gate_def permission_apply_turbo_def c
        telegram_run_def case_prod_unfold Let_def add_result_def log_event_def handle_call_def plan_blocked_def)
qed

definition define_call :: ReplyCall where
  "define_call = \<lparr>rc_id = Some ''c1'', rc_name = ''define_tool'', rc_args = ''{}''\<rparr>"

definition planning_harness :: BelyaHarness where
  "planning_harness = sample_harness\<lparr>has_prompt_fn := True, tools := [\<lparr>tool_name = ''define_tool'',
     security = PERM_ALLOW, has_callback = True, has_mcp_client = False, custom_script_path = None\<rparr>]\<rparr>"

theorem telegram_turbo_escapes_plan_mode_witness:
  "Ran ''define_tool'' ''{}'' \<in> set (trace (telegram_handle_call sample_outside 1 define_call
     (sample_turn\<lparr>hs := planning_harness\<rparr>)))"
proof -
  have "json_parse (Some ''{}'') \<noteq> None" by code_simp
  then obtain v where v: "json_parse (Some ''{}'') = Some v" by blast
  have f: "plan_mode planning_harness" "has_prompt_fn planning_harness"
    "find_tool ''define_tool'' planning_harness = Some \<lparr>tool_name = ''define_tool'',
     security = PERM_ALLOW, has_callback = True, has_mcp_client = False, custom_script_path = None\<rparr>"
    by (simp_all add: planning_harness_def sample_harness_def find_tool_def)
  show ?thesis
    using telegram_turbo_escapes_plan_mode[of "sample_turn\<lparr>hs := planning_harness\<rparr>" define_call _ v 1 sample_outside] f v
    by (simp add: define_call_def)
qed

end
