(* ===== verification/PathJail.thy ===== *)
theory PathJail
  imports Prelude
begin

unbundle bit_operations_syntax

text \<open>
  The guards of the file and network tools in \<open>belya_harness.c\<close>: which paths a tool may read or
  write (\<open>is_path_jailed\<close>), which names may be used in commands and file names, and which socket
  addresses a fetch may connect to. The file system is a parameter: what \<open>realpath\<close>,
  \<open>lstat\<close> and \<open>getcwd\<close> answer. Paths are shorter than the code's 4096-byte buffers except where
  a copy truncates them, which is written out.
\<close>

section \<open>Names\<close>

definition is_safe_shell_path :: "cstr option \<Rightarrow> bool" where
  "is_safe_shell_path p =
     (case p of None \<Rightarrow> False
      | Some s \<Rightarrow> s \<noteq> [] \<and> list_all (\<lambda>c. c \<notin> set ([DQ, SQ, BQ, LF, CR] @ ''$;&|'')) s)"

definition ident_char :: "char \<Rightarrow> bool" where
  "ident_char c \<longleftrightarrow> isalnum c \<or> c = CHR ''_'' \<or> c = CHR ''-''"

text \<open>The loop of \<open>valid_ident\<close>: \<open>n\<close> characters passed so far.\<close>

fun ident_loop :: "nat \<Rightarrow> cstr \<Rightarrow> bool" where
  "ident_loop n [] = (n > 0 \<and> n \<le> 64)"
| "ident_loop n (c # s) = (if \<not> ident_char c then False else if n \<ge> 64 then False else ident_loop (n + 1) s)"

definition valid_ident :: "cstr option \<Rightarrow> bool" where
  "valid_ident s = (case s of None \<Rightarrow> False | Some t \<Rightarrow> ident_loop 0 t)"

definition dot_dir :: "cstr \<Rightarrow> cstr \<Rightarrow> bool" where
  "dot_dir name path \<longleftrightarrow>
     strstr path (''/'' @ name @ ''/'') \<noteq> None \<or> strstr path (''/'' @ name) \<noteq> None \<or>
     has_prefix (name @ ''/'') path \<or> path = name"

definition basename :: "cstr \<Rightarrow> cstr" where
  "basename path = (case strrchr path (CHR ''/'') of None \<Rightarrow> path | Some r \<Rightarrow> drop 1 r)"

definition secret_names :: "cstr list" where
  "secret_names =
     [''budget_state.txt'', ''.deploy_state'', ''id_rsa'', ''id_ed25519'', ''id_ecdsa'',
      ''credentials.json'', ''service_account.json'', ''belya_memory.sqlite'', ''almaz_memory.sqlite'',
      ''belya_memory.sqlite-wal'', ''almaz_memory.sqlite-wal'']"

definition is_secret_path :: "cstr option \<Rightarrow> bool" where
  "is_secret_path p =
     (case p of None \<Rightarrow> False
      | Some path \<Rightarrow>
        if path = [] then False
        else if dot_dir ''.ssh'' path \<or> dot_dir ''.git'' path \<or> dot_dir ''.aws'' path \<or>
                strstr path ''/.config/gcloud/'' \<noteq> None \<or> has_prefix ''.config/gcloud/'' path
        then True
        else let base = basename path in
          base = ''.env'' \<or> has_prefix ''.env.'' base \<or> base \<in> set secret_names)"

section \<open>The jail\<close>

record filesystem =
  realpath :: "cstr \<Rightarrow> cstr option"
  is_symlink :: "cstr \<Rightarrow> bool"
  getcwd :: "cstr option"

definition PATH_BUF :: nat where "PATH_BUF = 4096"

text \<open>\<open>strncmp(path, root, strlen(root)) == 0\<close> and a component boundary behind it.\<close>

definition whitelist_match :: "cstr \<Rightarrow> cstr \<Rightarrow> bool" where
  "whitelist_match resolved wl \<longleftrightarrow> has_prefix wl resolved \<and>
     (drop (length wl) resolved = [] \<or> hd (drop (length wl) resolved) = CHR ''/'')"

abbreviation inside :: "cstr \<Rightarrow> cstr \<Rightarrow> bool" where
  "inside root p \<equiv> whitelist_match p root"

definition read_whitelist :: "cstr list" where
  "read_whitelist =
     [''/tmp/'', ''/private/tmp/'', ''/proc/self/status'', ''/proc/self/cmdline'', ''/proc/cpuinfo'',
      ''/proc/meminfo'', ''/proc/loadavg'', ''/proc/uptime'', ''/dev/null'', ''/etc/os-release'']"

definition canonical_root :: "filesystem \<Rightarrow> cstr option \<Rightarrow> cstr option \<Rightarrow> cstr option" where
  "canonical_root fs g_workspace_root workspace_root =
     (let root_buf = (case workspace_root of
            Some r \<Rightarrow> if r \<noteq> [] then Some (take (PATH_BUF - 1) r)
                      else (case g_workspace_root of Some g \<Rightarrow> Some (take (PATH_BUF - 1) g) | None \<Rightarrow> getcwd fs)
          | None \<Rightarrow> (case g_workspace_root of Some g \<Rightarrow> Some (take (PATH_BUF - 1) g) | None \<Rightarrow> getcwd fs)) in
      case root_buf of None \<Rightarrow> None
      | Some b \<Rightarrow> Some (case realpath fs b of Some r \<Rightarrow> r | None \<Rightarrow> b))"

definition write_jailed :: "filesystem \<Rightarrow> cstr \<Rightarrow> cstr \<Rightarrow> bool" where
  "write_jailed fs root path =
     (if is_symlink fs path then False
      else case realpath fs path of
        Some resolved \<Rightarrow> inside root resolved
      | None \<Rightarrow>
        let temp_path = take (PATH_BUF - 1) path in
        case strrchr temp_path (CHR ''/'') of
          None \<Rightarrow> (case getcwd fs of None \<Rightarrow> False
            | Some cwd \<Rightarrow> (case realpath fs cwd of None \<Rightarrow> False | Some r \<Rightarrow> inside root r))
        | Some last_slash \<Rightarrow>
          if length last_slash = length temp_path then False
          else let parent = take (length temp_path - length last_slash) temp_path in
            case realpath fs parent of
              Some resolved \<Rightarrow> inside root resolved
            | None \<Rightarrow> inside root parent)"

definition read_jailed :: "filesystem \<Rightarrow> cstr \<Rightarrow> cstr \<Rightarrow> bool" where
  "read_jailed fs root path =
     (case realpath fs path of
        Some resolved \<Rightarrow> inside root resolved \<or> list_ex (whitelist_match resolved) read_whitelist
      | None \<Rightarrow>
        if hd path \<noteq> CHR ''/'' then True
        else inside root path \<or> list_ex (whitelist_match path) read_whitelist)"

definition is_path_jailed ::
    "filesystem \<Rightarrow> cstr option \<Rightarrow> cstr option \<Rightarrow> cstr option \<Rightarrow> bool \<Rightarrow> bool" where
  "is_path_jailed fs g_workspace_root p workspace_root is_write =
     (case p of None \<Rightarrow> False
      | Some path \<Rightarrow>
        if path = [] then False
        else if strstr path ''..'' \<noteq> None then False
        else if is_secret_path p then False
        else case canonical_root fs g_workspace_root workspace_root of None \<Rightarrow> False
          | Some root \<Rightarrow> if is_write then write_jailed fs root path else read_jailed fs root path)"

definition is_path_safe :: "filesystem \<Rightarrow> cstr option \<Rightarrow> cstr option \<Rightarrow> bool" where
  "is_path_safe fs g_workspace_root path = is_path_jailed fs g_workspace_root path None False"

section \<open>Addresses\<close>

text \<open>An IPv4 address is in host order, as after \<open>ntohl\<close>; an IPv6 address is its 16 bytes.\<close>

datatype sockaddr = AF_INET u32 | AF_INET6 "u8 list" | AF_OTHER

definition ipv4_private :: "u32 \<Rightarrow> bool" where
  "ipv4_private a \<longleftrightarrow>
     a AND 0xFF000000 = 0x00000000 \<or> a AND 0xFF000000 = 0x0A000000 \<or> a AND 0xFF000000 = 0x7F000000 \<or>
     a AND 0xFFF00000 = 0xAC100000 \<or> a AND 0xFFFF0000 = 0xC0A80000 \<or> a AND 0xFFFF0000 = 0xA9FE0000"

definition mapped_ipv4 :: "u8 list \<Rightarrow> u32" where
  "mapped_ipv4 b =
     push_bit 24 (ucast (b ! 12)) OR push_bit 16 (ucast (b ! 13)) OR push_bit 8 (ucast (b ! 14)) OR ucast (b ! 15)"

definition ipv6_private :: "u8 list \<Rightarrow> bool" where
  "ipv6_private b =
     (if take 15 b = replicate 15 0 \<and> b ! 15 = 1 then True
      else if b ! 0 = 0xFE \<and> b ! 1 AND 0xC0 = 0x80 then True
      else if b ! 0 AND 0xFE = 0xFC then True
      else if take 12 b = replicate 10 0 @ [0xFF, 0xFF] then ipv4_private (mapped_ipv4 b)
      else False)"

definition sockaddr_is_private :: "sockaddr option \<Rightarrow> bool" where
  "sockaddr_is_private sa =
     (case sa of None \<Rightarrow> False
      | Some (AF_INET a) \<Rightarrow> ipv4_private a
      | Some (AF_INET6 b) \<Rightarrow> ipv6_private b
      | Some AF_OTHER \<Rightarrow> False)"

text \<open>Whether the connection is attempted.\<close>

definition fetch_url_opensocket_cb :: "sockaddr option \<Rightarrow> bool" where
  "fetch_url_opensocket_cb addr \<longleftrightarrow> \<not> (addr \<noteq> None \<and> sockaddr_is_private addr)"

section \<open>Lemmas\<close>

lemma inside_iff: "inside root p \<longleftrightarrow> p = root \<or> (\<exists>rest. p = root @ CHR ''/'' # rest)"
proof
  assume "inside root p"
  then obtain t where "p = root @ t" "t = [] \<or> hd t = CHR ''/''"
    by (auto simp: whitelist_match_def has_prefix_iff)
  then show "p = root \<or> (\<exists>rest. p = root @ CHR ''/'' # rest)" by (cases t) auto
qed (auto simp: whitelist_match_def has_prefix_iff)

lemma ident_loop_iff: "n \<le> 64 \<Longrightarrow> ident_loop n s \<longleftrightarrow> list_all ident_char s \<and> 0 < n + length s \<and> n + length s \<le> 64"
  by (induction n s rule: ident_loop.induct) auto

lemma jailedD:
  assumes "is_path_jailed fs g (Some path) w wr"
  shows "path \<noteq> [] \<and> strstr path ''..'' = None \<and> \<not> is_secret_path (Some path) \<and>
    (\<exists>root. canonical_root fs g w = Some root \<and>
       (if wr then write_jailed fs root path else read_jailed fs root path))"
  using assms by (auto simp: is_path_jailed_def split: if_splits option.splits)

section \<open>Properties\<close>

text \<open>C8: A write the jail lets through stays in the workspace: the path has no \<open>..\<close>, is no secret
  and no symbolic link, and what it denotes is inside the canonical root: the file itself where
  it exists; else its directory where that exists; else, for a bare name, the current directory,
  or, for a directory that does not exist, the path as written.\<close>

theorem jailed_write_stays_inside:
  assumes "is_path_jailed fs g (Some path) w True" and "length path < PATH_BUF"
  shows "strstr path ''..'' = None \<and> \<not> is_secret_path (Some path) \<and> \<not> is_symlink fs path \<and>
    (\<exists>root. canonical_root fs g w = Some root \<and>
      (case realpath fs path of
         Some r \<Rightarrow> r = root \<or> (\<exists>rest. r = root @ CHR ''/'' # rest)
       | None \<Rightarrow>
         (CHR ''/'' \<notin> set path \<and>
            (\<exists>cwd r. getcwd fs = Some cwd \<and> realpath fs cwd = Some r \<and> inside root r)) \<or>
         (\<exists>dir name. path = dir @ CHR ''/'' # name \<and> CHR ''/'' \<notin> set name \<and> dir \<noteq> [] \<and>
            inside root (case realpath fs dir of Some r \<Rightarrow> r | None \<Rightarrow> dir))))"
proof -
  from jailedD[OF assms(1)] obtain root where p: "strstr path ''..'' = None" "\<not> is_secret_path (Some path)"
    and root: "canonical_root fs g w = Some root" and wj: "write_jailed fs root path"
    by auto
  have s: "\<not> is_symlink fs path" using wj by (auto simp: write_jailed_def split: if_splits)
  have t: "take (PATH_BUF - Suc 0) path = path" using assms(2) by simp
  have "case realpath fs path of
         Some r \<Rightarrow> r = root \<or> (\<exists>rest. r = root @ CHR ''/'' # rest)
       | None \<Rightarrow>
         (CHR ''/'' \<notin> set path \<and>
            (\<exists>cwd r. getcwd fs = Some cwd \<and> realpath fs cwd = Some r \<and> inside root r)) \<or>
         (\<exists>dir name. path = dir @ CHR ''/'' # name \<and> CHR ''/'' \<notin> set name \<and> dir \<noteq> [] \<and>
            inside root (case realpath fs dir of Some r \<Rightarrow> r | None \<Rightarrow> dir))"
  proof (cases "realpath fs path")
    case (Some r)
    with wj s show ?thesis by (simp add: write_jailed_def inside_iff)
  next
    case None
    show ?thesis
    proof (cases "strrchr path (CHR ''/'')")
      case None': None
      with wj s None show ?thesis
        by (auto simp: write_jailed_def t Let_def split: option.splits)
    next
      case (Some l)
      from strrchr_SomeD[OF this] obtain dir name where d: "path = dir @ l" "l = CHR ''/'' # name"
        "CHR ''/'' \<notin> set name" by blast
      have ps: "strrchr (dir @ CHR ''/'' # name) (CHR ''/'') = Some (CHR ''/'' # name)"
        using Some d by simp
      have "dir \<noteq> [] \<and> inside root (case realpath fs dir of Some r \<Rightarrow> r | None \<Rightarrow> dir)"
        using wj s None ps t
        by (auto simp: write_jailed_def d(1,2) Let_def split: if_splits option.splits)
      with d None show ?thesis by auto
    qed
  qed
  with p s root show ?thesis by blast
qed

definition sample_fs :: filesystem where
  "sample_fs = \<lparr>realpath = (\<lambda>p. if p = ''/ws'' \<or> p = ''/ws/src'' then Some p
       else if p = ''notes.txt'' then Some ''/ws/.env'' else None),
     is_symlink = (\<lambda>_. False), getcwd = Some ''/ws''\<rparr>"

theorem jailed_write_stays_inside_witness:
  "\<exists>root. canonical_root sample_fs (Some ''/ws'') None = Some root \<and>
     (''/ws/src'' = root \<or> (\<exists>rest. ''/ws/src'' = root @ CHR ''/'' # rest))"
proof -
  have j: "is_path_jailed sample_fs (Some ''/ws'') (Some ''/ws/src'') None True" by code_simp
  have r: "realpath sample_fs ''/ws/src'' = Some ''/ws/src''" by (simp add: sample_fs_def)
  have l: "length ''/ws/src'' < PATH_BUF" by (simp add: PATH_BUF_def)
  from jailed_write_stays_inside[OF j l] show ?thesis unfolding r option.case by blast
qed

text \<open>An IPv4-mapped IPv6 address is judged exactly as the IPv4 address it maps, so that the
  mapping cannot be used to reach a private network.\<close>

theorem mapped_address_judged_as_ipv4:
  "sockaddr_is_private (Some (AF_INET6 (replicate 10 0 @ [0xFF, 0xFF, b12, b13, b14, b15]))) =
   sockaddr_is_private (Some (AF_INET
     (push_bit 24 (ucast b12) OR push_bit 16 (ucast b13) OR push_bit 8 (ucast b14) OR ucast b15)))"
proof -
  let ?b = "replicate 10 0 @ [0xFF, 0xFF, b12, b13, b14, b15] :: u8 list"
  have n: "?b ! 12 = b12" "?b ! 13 = b13" "?b ! 14 = b14" "?b ! 15 = b15" "?b ! 0 = 0"
    by (simp_all add: nth_append)
  have "take 15 ?b ! 10 \<noteq> replicate 15 0 ! 10" by (simp add: nth_append)
  then have t: "take 15 ?b \<noteq> replicate 15 0" by metis
  have m: "take 12 ?b = replicate 10 0 @ [0xFF, 0xFF]" by simp
  show ?thesis
    unfolding sockaddr_is_private_def option.case sockaddr.case ipv6_private_def mapped_ipv4_def n
    using t m by simp
qed

text \<open>The read jail judges secrets by the path as written and not by what it resolves to: a
  symbolic link in the workspace with a harmless name gives read access to a file that the jail
  refuses under its own name.\<close>

theorem read_jail_follows_link_to_secret:
  assumes "canonical_root fs g w = Some root" and "realpath fs link = Some (root @ ''/.env'')"
    and "link \<noteq> []" and "strstr link ''..'' = None" and "\<not> is_secret_path (Some link)"
  shows "is_path_jailed fs g (Some link) w False \<and> \<not> is_path_jailed fs g (Some (root @ ''/.env'')) w False"
proof -
  have "strrchr (root @ ''/.env'') (CHR ''/'') = Some ''/.env''"
    by (induction root) auto
  then have "is_secret_path (Some (root @ ''/.env''))"
    by (simp add: is_secret_path_def basename_def)
  with assms show ?thesis
    by (auto simp: is_path_jailed_def read_jailed_def inside_iff split: if_splits)
qed

theorem read_jail_follows_link_to_secret_witness:
  "is_path_jailed sample_fs (Some ''/ws'') (Some ''notes.txt'') None False \<and>
   \<not> is_path_jailed sample_fs (Some ''/ws'') (Some (''/ws'' @ ''/.env'')) None False"
  by (rule read_jail_follows_link_to_secret) code_simp+

end
