(* ===== verification/CInt.thy ===== *)
theory CInt
  imports CNumber
begin

text \<open>
  Conversions of the C library that several components use: \<open>strtol\<close> in base 10 (which saturates),
  \<open>atoi\<close> (the low 32 bits of it), the conversion of an unsigned integer to \<open>double\<close>, comparisons of
  a \<open>double\<close> with small constants, and the cast of a \<open>double\<close> to \<open>size_t\<close>, which is undefined for
  a value that does not fit; undefined behaviour is the value None.
\<close>

section \<open>strtol and atoi\<close>

definition strtol10 :: "cstr \<Rightarrow> int" where
  "strtol10 s =
     (let (neg, t) = split_sign (lskip isspace s);
          v = int (digits_val 10 (takeWhile isdigit t)) in
      if neg then max (- (2 ^ 63)) (- v) else min (2 ^ 63 - 1) v)"

text \<open>Where \<open>strtol\<close> leaves its end pointer: behind the digits, or at the start when there are none.\<close>

definition strtol_end :: "cstr \<Rightarrow> cstr" where
  "strtol_end s =
     (let (neg, t) = split_sign (lskip isspace s) in
      if takeWhile isdigit t = [] then s else dropWhile isdigit t)"

definition atoi :: "cstr \<Rightarrow> int" where
  "atoi s = sint (word_of_int (strtol10 s) :: 32 word)"

lemma length_split_sign: "length (snd (split_sign s)) \<le> length s"
  by (cases s) (auto simp: split_sign_def)

lemma length_strtol_end: "strtol_end s \<noteq> s \<Longrightarrow> length (strtol_end s) < length s"
proof -
  assume ne: "strtol_end s \<noteq> s"
  define t where "t = snd (split_sign (lskip isspace s))"
  have d: "takeWhile isdigit t \<noteq> []" "strtol_end s = dropWhile isdigit t"
    using ne by (auto simp: strtol_end_def t_def Let_def case_prod_unfold split: if_splits)
  have "length (dropWhile isdigit t) < length t"
    using d(1) takeWhile_dropWhile_id[of isdigit t] by (metis length_append length_greater_0_conv less_add_same_cancel2)
  also have "\<dots> \<le> length (lskip isspace s)" unfolding t_def by (rule length_split_sign)
  also have "\<dots> \<le> length s" by (simp add: lskip_def length_dropWhile_le)
  finally show ?thesis by (simp add: d(2))
qed

lemma strtol10_range: "- (2 ^ 63) \<le> strtol10 s \<and> strtol10 s < 2 ^ 63"
  by (auto simp: strtol10_def Let_def case_prod_unfold)

lemma atoi_range: "- (2 ^ 31) \<le> atoi s \<and> atoi s < 2 ^ 31"
  using sint_lt[of "word_of_int (strtol10 s) :: 32 word"] sint_ge[of "word_of_int (strtol10 s) :: 32 word"]
  by (simp add: atoi_def)

text \<open>\<open>%d\<close> and \<open>%ld\<close>.\<close>

definition int_text :: "int \<Rightarrow> cstr" where
  "int_text i = (if i < 0 then CHR ''-'' # dec_text (nat (- i)) else dec_text (nat i))"

section \<open>double\<close>

definition double_of_nat :: "nat \<Rightarrow> cdouble" where
  "double_of_nat n = round_double False n 1"

definition double_of_int :: "int \<Rightarrow> cdouble" where
  "double_of_int i = round_double (i < 0) (nat \<bar>i\<bar>) 1"

definition double_lt0 :: "cdouble \<Rightarrow> bool" where
  "double_lt0 d = (case d of DFin neg m e \<Rightarrow> neg \<and> m \<noteq> 0 | DInf neg \<Rightarrow> neg | DNan neg \<Rightarrow> False)"

definition double_gt :: "cdouble \<Rightarrow> nat \<Rightarrow> bool" where
  "double_gt d k =
     (case d of DFin neg m e \<Rightarrow> \<not> neg \<and> (if e \<ge> 0 then m * 2 ^ nat e > k else m > k * 2 ^ nat (- e))
      | DInf neg \<Rightarrow> \<not> neg | DNan neg \<Rightarrow> False)"

definition double_gt0 :: "cdouble \<Rightarrow> bool" where
  "double_gt0 d = double_gt d 0"

text \<open>\<open>atof\<close>: 0 when there is no number.\<close>

definition atof :: "cstr \<Rightarrow> cdouble" where
  "atof s = (case strtod s of None \<Rightarrow> DFin False 0 0 | Some (d, _) \<Rightarrow> d)"

text \<open>\<open>%.0f\<close>.\<close>

definition fixed0 :: "cdouble \<Rightarrow> cstr" where
  "fixed0 d =
     (case d of
        DFin neg m e \<Rightarrow> (if neg then ''-'' else []) @
          dec_text (if e \<ge> 0 then m * 2 ^ nat e else round_half_even m (2 ^ nat (- e)))
      | DInf neg \<Rightarrow> if neg then ''-inf'' else ''inf''
      | DNan neg \<Rightarrow> if neg then ''-nan'' else ''nan'')"

text \<open>\<open>%.2f\<close>.\<close>

definition fixed2 :: "cdouble \<Rightarrow> cstr" where
  "fixed2 d =
     (case d of
        DFin neg m e \<Rightarrow>
          let c = (if e \<ge> 0 then 100 * m * 2 ^ nat e else round_half_even (100 * m) (2 ^ nat (- e))) in
          (if neg then ''-'' else []) @ dec_text (c div 100) @ ''.'' @ [dec_digit (c mod 100 div 10), dec_digit (c mod 10)]
      | DInf neg \<Rightarrow> if neg then ''-inf'' else ''inf''
      | DNan neg \<Rightarrow> if neg then ''-nan'' else ''nan'')"

definition double_ge0 :: "cdouble \<Rightarrow> bool" where
  "double_ge0 d = (case d of DNan neg \<Rightarrow> False | _ \<Rightarrow> \<not> double_lt0 d)"

definition trunc_nat :: "nat \<Rightarrow> int \<Rightarrow> nat" where
  "trunc_nat m e = (if e \<ge> 0 then m * 2 ^ nat e else m div 2 ^ nat (- e))"

definition size_of_double :: "cdouble \<Rightarrow> nat option" where
  "size_of_double d =
     (case d of DFin neg m e \<Rightarrow>
        (let v = trunc_nat m e in if neg \<and> v > 0 \<or> v \<ge> 2 ^ 64 then None else Some v)
      | _ \<Rightarrow> None)"

text \<open>The cast of a \<open>double\<close> to \<open>int\<close>.\<close>

definition int_of_double :: "cdouble \<Rightarrow> int option" where
  "int_of_double d =
     (case d of DFin neg m e \<Rightarrow>
        (let v = (if neg then - int (trunc_nat m e) else int (trunc_nat m e)) in
         if - (2 ^ 31) \<le> v \<and> v < 2 ^ 31 then Some v else None)
      | _ \<Rightarrow> None)"

definition long_of_double :: "cdouble \<Rightarrow> int option" where
  "long_of_double d =
     (case d of DFin neg m e \<Rightarrow>
        (let v = (if neg then - int (trunc_nat m e) else int (trunc_nat m e)) in
         if - (2 ^ 63) \<le> v \<and> v < 2 ^ 63 then Some v else None)
      | _ \<Rightarrow> None)"

definition double_is0 :: "cdouble \<Rightarrow> bool" where
  "double_is0 d = (case d of DFin neg m e \<Rightarrow> m = 0 | _ \<Rightarrow> False)"

definition double_le0 :: "cdouble \<Rightarrow> bool" where
  "double_le0 d = (case d of DNan neg \<Rightarrow> False | _ \<Rightarrow> \<not> double_gt0 d)"

lemma size_of_double_lt: "size_of_double d = Some n \<Longrightarrow> n < 2 ^ 64"
  by (auto simp: size_of_double_def Let_def split: cdouble.splits if_splits)

text \<open>A value that passes the clamp to \<open>0 .. k\<close> and is a number is cast to an index of at most \<open>k\<close>;
  a NaN passes the clamp as well.\<close>

lemma clamped_cast:
  assumes "\<not> double_lt0 d" and "\<not> double_gt d k" and "k < 2 ^ 64" and "\<And>neg. d \<noteq> DNan neg"
  shows "\<exists>n \<le> k. size_of_double d = Some n"
proof (cases d)
  case (DFin neg m e)
  have z: "trunc_nat m e \<le> k" if "\<not> neg"
  proof (cases "e \<ge> 0")
    case False
    with assms(2) that DFin have "m \<le> k * 2 ^ nat (- e)" by (simp add: double_gt_def)
    then have "m div 2 ^ nat (- e) \<le> (k * 2 ^ nat (- e)) div 2 ^ nat (- e)" by (rule div_le_mono)
    with False show ?thesis by (simp add: trunc_nat_def)
  qed (use assms(2) that DFin in \<open>simp add: double_gt_def trunc_nat_def\<close>)
  show ?thesis
  proof (cases neg)
    case True
    with assms(1) DFin have "m = 0" by (simp add: double_lt0_def)
    with DFin show ?thesis by (simp add: size_of_double_def trunc_nat_def)
  next
    case False
    with z assms(3) DFin show ?thesis by (simp add: size_of_double_def Let_def)
  qed
qed (use assms in \<open>auto simp: double_lt0_def double_gt_def\<close>)

lemma bitlen_1 [simp]: "bitlen (Suc 0) = 1"
  by (subst bitlen.simps) (simp add: bitlen.simps[of 0])

lemma bitlen_bounds: "0 < n \<Longrightarrow> 0 < bitlen n \<and> 2 ^ (bitlen n - 1) \<le> n \<and> n < 2 ^ bitlen n"
proof (induction n rule: bitlen.induct)
  case (1 n)
  show ?case
  proof (cases "n div 2 = 0")
    case True
    with 1(2) have "n = 1" by simp
    then show ?thesis by simp
  next
    case False
    with 1 have h: "0 < bitlen (n div 2)" "2 ^ (bitlen (n div 2) - 1) \<le> n div 2" "n div 2 < 2 ^ bitlen (n div 2)"
      by auto
    have b: "bitlen n = Suc (bitlen (n div 2))" using 1(2) by (simp add: bitlen.simps[of n])
    have "(2::nat) ^ bitlen (n div 2) = 2 * 2 ^ (bitlen (n div 2) - 1)"
      using h(1) by (metis Suc_pred' power_Suc)
    moreover have "2 * (n div 2) \<le> n" "n < 2 * (n div 2) + 2" by linarith+
    ultimately show ?thesis using h b by simp linarith
  qed
qed

lemma bitlen_le: "n < 2 ^ k \<Longrightarrow> bitlen n \<le> k"
proof (cases "n = 0")
  case False
  assume "n < 2 ^ k"
  with False bitlen_bounds[of n] have "(2::nat) ^ (bitlen n - 1) < 2 ^ k" by (metis le_less_trans neq0_conv)
  then have "bitlen n - 1 < k" by (rule power_less_imp_less_exp[rotated]) simp
  then show ?thesis by simp
qed (simp add: bitlen.simps)

lemma double_of_nat_exact:
  assumes "n < 2 ^ 53"
  shows "\<exists>k. double_of_nat n = DFin False (n * 2 ^ k) (- int k)"
proof (cases "n = 0")
  case True
  then show ?thesis by (simp add: double_of_nat_def round_double_def)
next
  case False
  define b where "b = bitlen n"
  have b: "0 < b" "2 ^ (b - 1) \<le> n" "n < 2 ^ b" "b \<le> 53"
    using False bitlen_bounds[of n] bitlen_le[OF assms] by (simp_all add: b_def)
  have one: "bitlen 1 = 1" by simp
  define r where "r = 53 - b"
  have rb: "r + b = 53" using b by (simp add: r_def)
  have e0: "int b - int 1 - 53 = - int (Suc r)" using rb by simp
  have "(2::nat) ^ 53 = 2 ^ (b - 1) * 2 ^ Suc r"
    using rb b(1) by (metis Suc_pred' add.commute add_Suc_right add_Suc_shift power_add)
  also have "\<dots> \<le> n * 2 ^ Suc r" using b(2) by simp
  finally have top: "2 ^ 53 \<le> n * 2 ^ Suc r" .
  have "n * 2 ^ r < 2 ^ b * 2 ^ r" using b(3) by simp
  also have "\<dots> = 2 ^ 53" using rb by (metis add.commute power_add)
  finally have lt: "n * 2 ^ r < 2 ^ 53" .
  have s1: "scale2 n 1 (- int (Suc r)) = (n * 2 ^ Suc r, 1)"
    using nat_int[of "Suc r"] unfolding scale2_def by (simp add: add.commute del: power_Suc nat_int)
  have s2: "scale2 n 1 (- int r) = (n * 2 ^ r, 1)"
    using nat_int[of r] by (cases "r = 0") (simp_all add: scale2_def del: nat_int)
  have m: "max (- int (Suc r) + 1) (- 1074) = - int r" using b(1) rb by simp
  have "double_of_nat n = DFin False (n * 2 ^ r) (- int r)"
    using False lt unfolding double_of_nat_def round_double_def Let_def b_def[symmetric] one e0 s1 case_prod_conv
    by (simp only: top mult_1 m s2 case_prod_conv if_True) (simp add: round_half_even_def)
  then show ?thesis by blast
qed

lemma size_double_of_nat [simp]: "n < 2 ^ 53 \<Longrightarrow> size_of_double (double_of_nat n) = Some n"
proof -
  assume n: "n < 2 ^ 53"
  then obtain k where k: "double_of_nat n = DFin False (n * 2 ^ k) (- int k)" using double_of_nat_exact by blast
  have "trunc_nat (n * 2 ^ k) (- int k) = n"
    by (cases "k = 0") (simp_all add: trunc_nat_def)
  with k n show ?thesis by (simp add: size_of_double_def)
qed

lemma double_of_nat_nonneg [simp]: "n < 2 ^ 53 \<Longrightarrow> \<not> double_lt0 (double_of_nat n)"
  using double_of_nat_exact[of n] by (auto simp: double_lt0_def)

lemma round_half_even_exact: "round_half_even (n * 2 ^ k) (2 ^ k) = n"
  by (simp add: round_half_even_def)

lemma fixed0_double_of_nat [simp]:
  assumes "n < 2 ^ 53"
  shows "fixed0 (double_of_nat n) = dec_text n"
proof -
  obtain k where k: "double_of_nat n = DFin False (n * 2 ^ k) (- int k)" using double_of_nat_exact[OF assms] by blast
  show ?thesis by (cases "k = 0") (simp_all add: k fixed0_def round_half_even_exact)
qed

lemma double_gt0_of_nat [simp]: "n < 2 ^ 53 \<Longrightarrow> double_gt0 (double_of_nat n) \<longleftrightarrow> 0 < n"
  using double_of_nat_exact[of n] by (auto simp: double_gt0_def double_gt_def)

lemma long_double_of_nat [simp]:
  assumes "n < 2 ^ 53"
  shows "long_of_double (double_of_nat n) = Some (int n)"
proof -
  obtain k where k: "double_of_nat n = DFin False (n * 2 ^ k) (- int k)" using double_of_nat_exact[OF assms] by blast
  have "trunc_nat (n * 2 ^ k) (- int k) = n" by (cases "k = 0") (simp_all add: trunc_nat_def)
  then show ?thesis using assms by (simp add: k long_of_double_def)
qed

end
