(* ===== verification/ModelStream.thy ===== *)
theory ModelStream
  imports AgentStep CInt "HOL-Library.Monad_Syntax"
begin

text \<open>
  The streaming side of \<open>model_adapter.c\<close>: the bytes of a server-sent-event stream are cut into
  lines, each line is a JSON event, and the events are accumulated into the reply: content,
  reasoning (also between \<open><think>\<close> and \<open></think>\<close>), and tool calls assembled from fragments
  addressed by an index the server chooses.

  A function that casts a \<open>double\<close> of the server to \<open>size_t\<close> returns an option: None is the undefined
  behaviour of a cast out of range. The array of tool calls is a list of its \<open>tool_call_count\<close> entries:
  entries behind the count are zero in the code, which is what a new entry is here. What the
  operator is shown is the list \<open>shown\<close>: tokens for the callback, or text printed on the terminal.
\<close>

section \<open>The context of a stream\<close>

record PartialCall =
  pc_id :: "cstr option"
  pc_name :: "cstr option"
  pc_args :: "cstr option"

datatype shown = Token cstr bool | Printed cstr

datatype echo_mode = Echo_Callback | Echo_Terminal | Echo_Silent

record StreamContext =
  line_buf :: cstr
  accum_content :: cstr
  accum_reasoning :: cstr
  raw_fallback :: cstr
  stream_calls :: "PartialCall list"
  stream_has_call :: bool
  stream_prompt :: nat
  stream_completion :: nat
  stream_cached :: nat
  printed_reasoning_header :: bool
  printed_content_header :: bool
  retry_after_sec :: int
  inside_think_tag :: bool
  shown_to :: "shown list"

definition empty_call :: PartialCall where
  "empty_call = \<lparr>pc_id = None, pc_name = None, pc_args = None\<rparr>"

definition new_stream :: StreamContext where
  "new_stream = \<lparr>line_buf = [], accum_content = [], accum_reasoning = [], raw_fallback = [],
     stream_calls = [], stream_has_call = False, stream_prompt = 0, stream_completion = 0,
     stream_cached = 0, printed_reasoning_header = False, printed_content_header = False,
     retry_after_sec = 0, inside_think_tag = False, shown_to = []\<rparr>"

definition stream_echo_enabled :: "cstr option \<Rightarrow> bool \<Rightarrow> bool" where
  "stream_echo_enabled env_echo tty =
     ((case env_echo of Some e \<Rightarrow> e \<noteq> [] \<and> hd e = CHR ''1'' | None \<Rightarrow> False) \<or> tty)"

text \<open>The header is compared without its terminating NUL; \<open>n > 12\<close> bytes are required.\<close>

definition curl_header_cb :: "cstr \<Rightarrow> StreamContext \<Rightarrow> StreamContext" where
  "curl_header_cb h ctx =
     (if length h > 12 \<and> map tolower (take 12 h) = ''retry-after:''
      then let v = strtol10 (drop 12 h) in if v > 0 then ctx\<lparr>retry_after_sec := v\<rparr> else ctx
      else ctx)"

section \<open>Showing tokens\<close>

definition show_text :: "cstr \<Rightarrow> StreamContext \<Rightarrow> StreamContext" where
  "show_text t ctx = ctx\<lparr>shown_to := shown_to ctx @ [Printed t]\<rparr>"

definition esc :: "cstr \<Rightarrow> cstr" where "esc code = CHR 0x1B # ''['' @ code @ ''m''"

definition show_reasoning :: "echo_mode \<Rightarrow> bool \<Rightarrow> cstr \<Rightarrow> StreamContext \<Rightarrow> StreamContext" where
  "show_reasoning echo colour t ctx =
     (case echo of
        Echo_Callback \<Rightarrow> ctx\<lparr>shown_to := shown_to ctx @ [Token t True]\<rparr>
      | Echo_Silent \<Rightarrow> ctx
      | Echo_Terminal \<Rightarrow>
          let ctx = (if printed_reasoning_header ctx then ctx
                     else (show_text ([LF] @ esc ''0;36'' @ ''[Reasoning]:'' @ esc ''0'' @ [LF]) ctx)
                       \<lparr>printed_reasoning_header := True\<rparr>) in
          show_text (if colour then esc ''0;36'' @ t @ esc ''0'' else t) ctx)"

definition show_content :: "echo_mode \<Rightarrow> cstr \<Rightarrow> StreamContext \<Rightarrow> StreamContext" where
  "show_content echo t ctx =
     (case echo of
        Echo_Callback \<Rightarrow> ctx\<lparr>shown_to := shown_to ctx @ [Token t False]\<rparr>
      | Echo_Silent \<Rightarrow> ctx
      | Echo_Terminal \<Rightarrow>
          let ctx = (if printed_reasoning_header ctx \<and> \<not> printed_content_header ctx
                     then (show_text ([LF, LF] @ esc ''1;34'' @ ''[Belya]'' @ esc ''0'' @ [LF]) ctx)
                       \<lparr>printed_content_header := True\<rparr>
                     else ctx) in
          show_text t ctx)"

section \<open>Content and the think tags\<close>

definition keep_content :: "echo_mode \<Rightarrow> cstr \<Rightarrow> StreamContext \<Rightarrow> StreamContext" where
  "keep_content echo t ctx = show_content echo t (ctx\<lparr>accum_content := accum_content ctx @ t\<rparr>)"

definition keep_reasoning :: "echo_mode \<Rightarrow> bool \<Rightarrow> cstr \<Rightarrow> StreamContext \<Rightarrow> StreamContext" where
  "keep_reasoning echo colour t ctx =
     show_reasoning echo colour t (ctx\<lparr>accum_reasoning := accum_reasoning ctx @ t\<rparr>)"

function think_loop :: "echo_mode \<Rightarrow> cstr \<Rightarrow> StreamContext \<Rightarrow> StreamContext" where
  "think_loop echo cp ctx =
     (if cp = [] then ctx
      else if \<not> inside_think_tag ctx then
        (case strstr cp ''<think>'' of
           Some t \<Rightarrow>
             let pre = take (length cp - length t) cp;
                 ctx = (if pre \<noteq> [] then keep_content echo pre ctx else ctx) in
             think_loop echo (drop 7 t) (ctx\<lparr>inside_think_tag := True\<rparr>)
         | None \<Rightarrow> keep_content echo cp ctx)
      else
        (case strstr cp ''</think>'' of
           Some t \<Rightarrow>
             let pre = take (length cp - length t) cp;
                 ctx = (if pre \<noteq> [] then keep_reasoning echo False pre ctx else ctx) in
             think_loop echo (drop 8 t) (ctx\<lparr>inside_think_tag := False\<rparr>)
         | None \<Rightarrow> keep_reasoning echo True cp ctx))"
  by pat_completeness auto
termination
  by (relation "measure (\<lambda>(e, cp, c). length cp)")
     (use strstr_rest[of _ "''<think>''"] strstr_rest[of _ "''</think>''"] in \<open>force+\<close>)

declare think_loop.simps [simp del]

section \<open>Fragments of tool calls\<close>

definition delta_index :: "JsonValue \<Rightarrow> nat \<Rightarrow> nat option" where
  "delta_index tc_item tool_call_count =
     (let idx_d = json_obj_get_num (Some tc_item) ''index'' (double_of_nat tool_call_count);
          idx_d = (if double_lt0 idx_d \<or> double_gt idx_d 65535 then double_of_nat tool_call_count else idx_d) in
      size_of_double idx_d)"

definition join_frag :: "cstr option \<Rightarrow> cstr option \<Rightarrow> cstr option" where
  "join_frag old new =
     (case new of None \<Rightarrow> old | Some t \<Rightarrow> (case old of None \<Rightarrow> Some t | Some s \<Rightarrow> Some (s @ t)))"

definition frag_id :: "cstr option \<Rightarrow> cstr option \<Rightarrow> cstr option" where
  "frag_id old new =
     (case new of Some t \<Rightarrow> Some t
      | None \<Rightarrow> (case old of None \<Rightarrow> Some ''call_default'' | Some s \<Rightarrow> Some s))"

definition grow_calls :: "nat \<Rightarrow> PartialCall list \<Rightarrow> PartialCall list" where
  "grow_calls idx cs = cs @ replicate (idx + 1 - length cs) empty_call"

definition put_fragment ::
    "nat \<Rightarrow> cstr option \<Rightarrow> cstr option \<Rightarrow> cstr option \<Rightarrow> PartialCall list \<Rightarrow> PartialCall list" where
  "put_fragment idx t_id f_name f_args cs =
     (let cs = grow_calls idx cs; c = cs ! idx in
      cs[idx := \<lparr>pc_id = frag_id (pc_id c) t_id, pc_name = join_frag (pc_name c) f_name,
                 pc_args = join_frag (pc_args c) f_args\<rparr>])"

definition tool_delta :: "JsonValue \<Rightarrow> PartialCall list \<Rightarrow> PartialCall list option" where
  "tool_delta tc_item cs =
     (case delta_index tc_item (length cs) of None \<Rightarrow> None
      | Some idx \<Rightarrow>
        let fn = json_obj_get (Some tc_item) ''function'' in
        Some (put_fragment idx (json_obj_get_str (Some tc_item) ''id'')
          (json_obj_get_str fn ''name'') (json_obj_get_str fn ''arguments'') cs))"

fun tool_deltas :: "JsonValue list \<Rightarrow> PartialCall list \<Rightarrow> PartialCall list option" where
  "tool_deltas [] cs = Some cs"
| "tool_deltas (x # xs) cs = (case tool_delta x cs of None \<Rightarrow> None | Some cs' \<Rightarrow> tool_deltas xs cs')"

section \<open>A line of the stream\<close>

definition counter :: "JsonValue \<Rightarrow> cstr \<Rightarrow> nat \<Rightarrow> nat option" where
  "counter usage key old = size_of_double (json_obj_get_num (Some usage) key (double_of_nat old))"

definition note_usage :: "JsonValue \<Rightarrow> StreamContext \<Rightarrow> StreamContext option" where
  "note_usage root ctx =
     (case json_obj_get (Some root) ''usage'' of None \<Rightarrow> Some ctx
      | Some usage \<Rightarrow> do {
          p \<leftarrow> counter usage ''prompt_tokens'' (stream_prompt ctx);
          c \<leftarrow> counter usage ''completion_tokens'' (stream_completion ctx);
          k \<leftarrow> (case json_obj_get (Some usage) ''prompt_tokens_details'' of None \<Rightarrow> Some (stream_cached ctx)
               | Some ptd \<Rightarrow> counter ptd ''cached_tokens'' (stream_cached ctx));
          Some (ctx\<lparr>stream_prompt := p, stream_completion := c, stream_cached := k\<rparr>)
        })"

definition delta_of :: "JsonValue \<Rightarrow> JsonValue option" where
  "delta_of root =
     (case json_obj_get (Some root) ''choices'' of
        Some (JSON_ARRAY (choice # others)) \<Rightarrow> json_obj_get (Some choice) ''delta''
      | _ \<Rightarrow> json_obj_get (Some root) ''delta'')"

fun first_str :: "JsonValue \<Rightarrow> cstr list \<Rightarrow> cstr option" where
  "first_str obj [] = None"
| "first_str obj (key # keys) =
     (case json_obj_get_str (Some obj) key of Some t \<Rightarrow> Some t | None \<Rightarrow> first_str obj keys)"

definition stream_reasoning :: "echo_mode \<Rightarrow> JsonValue \<Rightarrow> StreamContext \<Rightarrow> StreamContext" where
  "stream_reasoning echo delta ctx =
     (case first_str delta [''reasoning_content'', ''thinking'', ''reasoning''] of
        Some r \<Rightarrow> if r \<noteq> [] then keep_reasoning echo True r ctx else ctx | None \<Rightarrow> ctx)"

definition stream_content :: "echo_mode \<Rightarrow> JsonValue \<Rightarrow> StreamContext \<Rightarrow> StreamContext" where
  "stream_content echo delta ctx =
     (case first_str delta [''content'', ''text''] of Some t \<Rightarrow> think_loop echo t ctx | None \<Rightarrow> ctx)"

definition stream_tools :: "JsonValue \<Rightarrow> StreamContext \<Rightarrow> StreamContext option" where
  "stream_tools delta ctx =
     (case json_obj_get (Some delta) ''tool_calls'' of
        Some (JSON_ARRAY items) \<Rightarrow>
          (case tool_deltas items (stream_calls ctx) of None \<Rightarrow> None
           | Some cs \<Rightarrow> Some (ctx\<lparr>stream_calls := cs, stream_has_call := True\<rparr>))
      | _ \<Rightarrow> Some ctx)"

definition stream_delta :: "echo_mode \<Rightarrow> JsonValue \<Rightarrow> StreamContext \<Rightarrow> StreamContext option" where
  "stream_delta echo delta ctx =
     stream_tools delta (stream_content echo delta (stream_reasoning echo delta ctx))"

definition stream_process_line :: "echo_mode \<Rightarrow> cstr \<Rightarrow> StreamContext \<Rightarrow> StreamContext option" where
  "stream_process_line echo line ctx =
     (if line = [] then Some ctx
      else if has_prefix ''data: [DONE]'' line then Some ctx
      else if \<not> has_prefix ''data: '' line then Some ctx
      else case json_parse (Some (drop 6 line)) of None \<Rightarrow> Some ctx
      | Some root \<Rightarrow> do {
          ctx \<leftarrow> note_usage root ctx;
          (case delta_of root of None \<Rightarrow> Some ctx | Some delta \<Rightarrow> stream_delta echo delta ctx)
        })"

section \<open>The bytes of the stream\<close>

text \<open>The one-character string of a NUL byte is empty, so NUL bytes vanish as carriage returns do.\<close>

fun sink_bytes :: "echo_mode \<Rightarrow> cstr \<Rightarrow> StreamContext \<Rightarrow> StreamContext option" where
  "sink_bytes echo [] ctx = Some ctx"
| "sink_bytes echo (c # p) ctx =
     (if c = LF then
        (case stream_process_line echo (line_buf ctx) ctx of None \<Rightarrow> None
         | Some ctx \<Rightarrow> sink_bytes echo p (ctx\<lparr>line_buf := []\<rparr>))
      else if c \<noteq> CR \<and> c \<noteq> NUL then sink_bytes echo p (ctx\<lparr>line_buf := line_buf ctx @ [c]\<rparr>)
      else sink_bytes echo p ctx)"

definition curl_stream_sink_cb :: "echo_mode \<Rightarrow> cstr \<Rightarrow> StreamContext \<Rightarrow> StreamContext option" where
  "curl_stream_sink_cb echo chunk ctx =
     sink_bytes echo chunk (ctx\<lparr>raw_fallback := raw_fallback ctx @ chunk\<rparr>)"

fun sink_chunks :: "echo_mode \<Rightarrow> cstr list \<Rightarrow> StreamContext \<Rightarrow> StreamContext option" where
  "sink_chunks echo [] ctx = Some ctx"
| "sink_chunks echo (c # cs) ctx =
     (case curl_stream_sink_cb echo c ctx of None \<Rightarrow> None | Some ctx \<Rightarrow> sink_chunks echo cs ctx)"

section \<open>The reply of a stream\<close>

definition finished_call :: "PartialCall \<Rightarrow> ReplyCall" where
  "finished_call c =
     \<lparr>rc_id = pc_id c, rc_name = (case pc_name c of None \<Rightarrow> [] | Some n \<Rightarrow> n),
      rc_args = (case pc_args c of None \<Rightarrow> ''{}'' | Some a \<Rightarrow> a)\<rparr>"

definition api_error_text :: "int \<Rightarrow> JsonValue \<Rightarrow> cstr option" where
  "api_error_text http_code root =
     map_option (\<lambda>err_obj. ''API Error (HTTP '' @ int_text http_code @ ''): '' @
       (case json_obj_get_str (Some err_obj) ''message'' of None \<Rightarrow> ''Unknown error'' | Some m \<Rightarrow> m))
     (json_obj_get (Some root) ''error'')"

definition stream_response :: "int \<Rightarrow> StreamContext \<Rightarrow> ModelGatewayResponse" where
  "stream_response http_code ctx =
     (let cont = (if accum_content ctx \<noteq> [] then Some (accum_content ctx) else None);
          reas = (if accum_reasoning ctx \<noteq> [] then Some (accum_reasoning ctx) else None);
          cont = (if cont = None \<and> \<not> stream_has_call ctx
                  then (case reas of Some r \<Rightarrow> Some r
                    | None \<Rightarrow>
                      (case Option.bind (json_parse (Some (c_string (raw_fallback ctx)))) (api_error_text http_code) of
                         Some t \<Rightarrow> Some t
                       | None \<Rightarrow> Some (''Empty response from stream (HTTP '' @ int_text http_code @ '').'')))
                  else cont) in
      \<lparr>resp_content = cont, reasoning_content = reas,
       resp_calls = map finished_call (stream_calls ctx), has_tool_call = stream_has_call ctx,
       prompt_tokens = stream_prompt ctx, completion_tokens = stream_completion ctx,
       cached_tokens = stream_cached ctx\<rparr>)"

definition finish_stream :: "echo_mode \<Rightarrow> int \<Rightarrow> StreamContext \<Rightarrow> ModelGatewayResponse option" where
  "finish_stream echo http_code ctx =
     (case (if line_buf ctx \<noteq> [] then stream_process_line echo (line_buf ctx) ctx else Some ctx) of
        None \<Rightarrow> None | Some ctx \<Rightarrow> Some (stream_response http_code ctx))"

section \<open>A reply that is not streamed\<close>

definition plain_call :: "JsonValue \<Rightarrow> ReplyCall" where
  "plain_call tc_item =
     (let fn = json_obj_get (Some tc_item) ''function'';
          f_name = (if fn \<noteq> None then json_obj_get_str fn ''name'' else Some ''unknown'');
          f_args = (if fn \<noteq> None then json_obj_get_str fn ''arguments'' else Some ''{}'') in
      \<lparr>rc_id = Some (case json_obj_get_str (Some tc_item) ''id'' of None \<Rightarrow> ''call_default'' | Some t \<Rightarrow> t),
       rc_name = (case f_name of None \<Rightarrow> [] | Some n \<Rightarrow> n),
       rc_args = (case f_args of None \<Rightarrow> ''{}'' | Some a \<Rightarrow> a)\<rparr>)"

definition error_reply :: "cstr \<Rightarrow> ModelGatewayResponse" where
  "error_reply t = \<lparr>resp_content = Some t, reasoning_content = None, resp_calls = [],
     has_tool_call = False, prompt_tokens = 0, completion_tokens = 0, cached_tokens = 0\<rparr>"

definition plain_usage :: "JsonValue \<Rightarrow> (nat \<times> nat \<times> nat) option" where
  "plain_usage root =
     (case json_obj_get (Some root) ''usage'' of None \<Rightarrow> Some (0, 0, 0)
      | Some usage \<Rightarrow> do {
          p \<leftarrow> counter usage ''prompt_tokens'' 0;
          c \<leftarrow> counter usage ''completion_tokens'' 0;
          k \<leftarrow> (case json_obj_get (Some usage) ''prompt_tokens_details'' of None \<Rightarrow> Some 0
               | Some ptd \<Rightarrow> counter ptd ''cached_tokens'' 0);
          Some (p, c, k)
        })"

definition plain_message_of :: "JsonValue \<Rightarrow> JsonValue option" where
  "plain_message_of root =
     (case json_obj_get (Some root) ''choices'' of
        Some (JSON_ARRAY (choice # others)) \<Rightarrow> json_obj_get (Some choice) ''message''
      | _ \<Rightarrow> None)"

definition plain_response :: "int \<Rightarrow> cstr \<Rightarrow> ModelGatewayResponse option" where
  "plain_response http_code body =
     (case json_parse (Some (c_string body)) of
        None \<Rightarrow> Some (error_reply ''Error: Failed to parse upstream model JSON response.'')
      | Some root \<Rightarrow>
        (case api_error_text http_code root of Some t \<Rightarrow> Some (error_reply t)
         | None \<Rightarrow>
           (case plain_usage root of None \<Rightarrow> None
            | Some (p, c, k) \<Rightarrow>
              let msg = plain_message_of root;
                  cont = Option.bind msg (\<lambda>m. nonempty (json_obj_get_str (Some m) ''content''));
                  reas = Option.bind msg (\<lambda>m. nonempty
                    (first_str m [''reasoning_content'', ''thinking'', ''reasoning'']));
                  calls = (case Option.bind msg (\<lambda>m. json_obj_get (Some m) ''tool_calls'') of
                             Some (JSON_ARRAY xs) \<Rightarrow> map plain_call xs | _ \<Rightarrow> []);
                  cont = (if cont = None \<and> calls = []
                          then (case reas of Some r \<Rightarrow> Some r
                            | None \<Rightarrow> Some (''Empty model response (HTTP '' @ int_text http_code @ '').''))
                          else cont) in
              Some \<lparr>resp_content = cont, reasoning_content = reas, resp_calls = calls,
                    has_tool_call = (calls \<noteq> []), prompt_tokens = p, completion_tokens = c,
                    cached_tokens = k\<rparr>)))"

section \<open>Chunks of the network do not matter\<close>

text \<open>The raw copy of the stream is only written, so every step commutes with a change of it.\<close>

named_theorems raw_commute \<open>commuting with an update of the raw copy\<close>

lemma show_text_raw [raw_commute]: "show_text t (ctx\<lparr>raw_fallback := r\<rparr>) = (show_text t ctx)\<lparr>raw_fallback := r\<rparr>"
  by (simp add: show_text_def)

lemma show_reasoning_raw [raw_commute]:
  "show_reasoning echo b t (ctx\<lparr>raw_fallback := r\<rparr>) = (show_reasoning echo b t ctx)\<lparr>raw_fallback := r\<rparr>"
  by (simp add: show_reasoning_def show_text_def split: echo_mode.split)

lemma show_content_raw [raw_commute]:
  "show_content echo t (ctx\<lparr>raw_fallback := r\<rparr>) = (show_content echo t ctx)\<lparr>raw_fallback := r\<rparr>"
  by (simp add: show_content_def show_text_def split: echo_mode.split)

lemma keep_content_raw [raw_commute]:
  "keep_content echo t (ctx\<lparr>raw_fallback := r\<rparr>) = (keep_content echo t ctx)\<lparr>raw_fallback := r\<rparr>"
  by (simp add: keep_content_def show_content_def show_text_def split: echo_mode.split)

lemma keep_reasoning_raw [raw_commute]:
  "keep_reasoning echo b t (ctx\<lparr>raw_fallback := r\<rparr>) = (keep_reasoning echo b t ctx)\<lparr>raw_fallback := r\<rparr>"
  by (simp add: keep_reasoning_def show_reasoning_def show_text_def split: echo_mode.split)

lemma think_loop_raw [raw_commute]:
  "think_loop echo cp (ctx\<lparr>raw_fallback := r\<rparr>) = (think_loop echo cp ctx)\<lparr>raw_fallback := r\<rparr>"
proof (induction echo cp ctx rule: think_loop.induct)
  case (1 echo cp ctx)
  have fl: "(c\<lparr>raw_fallback := r\<rparr>)\<lparr>inside_think_tag := b\<rparr> = (c\<lparr>inside_think_tag := b\<rparr>)\<lparr>raw_fallback := r\<rparr>"
    for c :: StreamContext and b by simp
  show ?case
    by (subst (1 2) think_loop.simps)
       (auto simp: Let_def raw_commute fl 1 split: option.split simp del: StreamContext.update_convs)
qed

lemma note_usage_raw [raw_commute]:
  "note_usage root (ctx\<lparr>raw_fallback := r\<rparr>) = map_option (\<lambda>c. c\<lparr>raw_fallback := r\<rparr>) (note_usage root ctx)"
  by (simp add: note_usage_def split: option.split Option.bind_split)

lemma stream_parts_raw [raw_commute]:
  "stream_reasoning echo d (ctx\<lparr>raw_fallback := r\<rparr>) = (stream_reasoning echo d ctx)\<lparr>raw_fallback := r\<rparr>"
  "stream_content echo d (ctx\<lparr>raw_fallback := r\<rparr>) = (stream_content echo d ctx)\<lparr>raw_fallback := r\<rparr>"
  "stream_tools d (ctx\<lparr>raw_fallback := r\<rparr>) = map_option (\<lambda>c. c\<lparr>raw_fallback := r\<rparr>) (stream_tools d ctx)"
  by (simp_all add: stream_reasoning_def stream_content_def stream_tools_def raw_commute
      split: option.split JsonValue.split)

lemma stream_delta_raw [raw_commute]:
  "stream_delta echo d (ctx\<lparr>raw_fallback := r\<rparr>) = map_option (\<lambda>c. c\<lparr>raw_fallback := r\<rparr>) (stream_delta echo d ctx)"
  by (simp only: stream_delta_def raw_commute)

lemma process_line_raw [raw_commute]:
  "stream_process_line echo line (ctx\<lparr>raw_fallback := r\<rparr>) =
     map_option (\<lambda>c. c\<lparr>raw_fallback := r\<rparr>) (stream_process_line echo line ctx)"
proof (cases "json_parse (Some (drop 6 line))")
  case (Some root)
  show ?thesis
    by (cases "note_usage root ctx"; cases "delta_of root")
       (simp_all add: stream_process_line_def Some raw_commute)
qed (simp add: stream_process_line_def)

lemma sink_bytes_raw [raw_commute]:
  "sink_bytes echo p (ctx\<lparr>raw_fallback := r\<rparr>) = map_option (\<lambda>c. c\<lparr>raw_fallback := r\<rparr>) (sink_bytes echo p ctx)"
proof (induction p arbitrary: ctx)
  case (Cons c p)
  have fl: "(c\<lparr>raw_fallback := r\<rparr>)\<lparr>line_buf := b\<rparr> = (c\<lparr>line_buf := b\<rparr>)\<lparr>raw_fallback := r\<rparr>"
    for c :: StreamContext and b by simp
  show ?case
    by (simp add: process_line_raw fl Cons.IH split: option.split del: StreamContext.update_convs)
qed simp

lemma sink_bytes_keeps_raw:
  assumes "sink_bytes echo p ctx = Some ctx'"
  shows "raw_fallback ctx' = raw_fallback ctx"
proof -
  have "sink_bytes echo p ctx = map_option (\<lambda>c. c\<lparr>raw_fallback := raw_fallback ctx\<rparr>) (sink_bytes echo p ctx)"
    using sink_bytes_raw[where ctx = ctx and r = "raw_fallback ctx"] by simp
  with assms have "ctx' = ctx'\<lparr>raw_fallback := raw_fallback ctx\<rparr>" by simp
  then have "raw_fallback ctx' = raw_fallback (ctx'\<lparr>raw_fallback := raw_fallback ctx\<rparr>)" by (rule arg_cong)
  then show ?thesis by simp
qed

lemma sink_bytes_append:
  "sink_bytes echo (p @ q) ctx = Option.bind (sink_bytes echo p ctx) (sink_bytes echo q)"
  by (induction p arbitrary: ctx) (simp_all split: option.split)


lemma curl_stream_sink_append:
  "curl_stream_sink_cb echo (p @ q) ctx =
     Option.bind (curl_stream_sink_cb echo p ctx) (curl_stream_sink_cb echo q)"
proof (cases "sink_bytes echo p (ctx\<lparr>raw_fallback := raw_fallback ctx @ p\<rparr>)")
  case None
  have "sink_bytes echo p ctx = None"
    using None sink_bytes_raw[where ctx = ctx and r = "raw_fallback ctx @ p" and p = p] by auto
  then have "sink_bytes echo p (ctx\<lparr>raw_fallback := raw_fallback ctx @ p @ q\<rparr>) = None"
    by (simp add: sink_bytes_raw)
  with None show ?thesis by (simp add: curl_stream_sink_cb_def sink_bytes_append)
next
  case (Some c)
  have r: "raw_fallback c = raw_fallback ctx @ p" using sink_bytes_keeps_raw[OF Some] by simp
  have "sink_bytes echo p (ctx\<lparr>raw_fallback := raw_fallback ctx @ p @ q\<rparr>) =
      Some (c\<lparr>raw_fallback := raw_fallback ctx @ p @ q\<rparr>)"
    using Some sink_bytes_raw[where ctx = "ctx\<lparr>raw_fallback := raw_fallback ctx @ p\<rparr>" and p = p
        and r = "raw_fallback ctx @ p @ q"] by simp
  with Some r show ?thesis by (simp add: curl_stream_sink_cb_def sink_bytes_append)
qed

section \<open>What the operator is shown\<close>

definition shown_tokens :: "bool \<Rightarrow> StreamContext \<Rightarrow> cstr" where
  "shown_tokens r ctx = concat (map (\<lambda>x. case x of Token t b \<Rightarrow> if b = r then t else [] | Printed t \<Rightarrow> []) (shown_to ctx))"

text \<open>The callback has received exactly what was accumulated.\<close>

definition mirrored :: "StreamContext \<Rightarrow> bool" where
  "mirrored ctx \<longleftrightarrow> shown_tokens False ctx = accum_content ctx \<and> shown_tokens True ctx = accum_reasoning ctx"

lemma mirrored_steps [intro]:
  "mirrored ctx \<Longrightarrow> mirrored (keep_content Echo_Callback t ctx)"
  "mirrored ctx \<Longrightarrow> mirrored (keep_reasoning Echo_Callback b t ctx)"
  "mirrored ctx \<Longrightarrow> mirrored (ctx\<lparr>inside_think_tag := f\<rparr>)"
  by (simp_all add: mirrored_def shown_tokens_def keep_content_def show_content_def keep_reasoning_def
      show_reasoning_def)

lemma mirrored_fields [simp]:
  "mirrored (ctx\<lparr>line_buf := l\<rparr>) = mirrored ctx" "mirrored (ctx\<lparr>raw_fallback := l\<rparr>) = mirrored ctx"
  "mirrored (ctx\<lparr>stream_calls := cs, stream_has_call := h\<rparr>) = mirrored ctx"
  "mirrored (ctx\<lparr>stream_prompt := n, stream_completion := m, stream_cached := k\<rparr>) = mirrored ctx"
  "mirrored (ctx\<lparr>stream_prompt := n, stream_completion := m\<rparr>) = mirrored ctx"
  by (simp_all add: mirrored_def shown_tokens_def)

lemma mirrored_think: "mirrored ctx \<Longrightarrow> mirrored (think_loop Echo_Callback cp ctx)"
proof (induction Echo_Callback cp ctx rule: think_loop.induct)
  case (1 cp ctx)
  show ?case
    by (subst think_loop.simps) (auto simp: Let_def intro!: 1 split: option.split)
qed

lemma mirrored_delta:
  assumes "mirrored ctx" and "stream_delta Echo_Callback d ctx = Some ctx'"
  shows "mirrored ctx'"
proof -
  have "mirrored (stream_content Echo_Callback d (stream_reasoning Echo_Callback d ctx))"
    using assms(1) by (auto simp: stream_content_def stream_reasoning_def intro: mirrored_think split: option.split)
  with assms(2) show ?thesis
    by (auto simp: stream_delta_def stream_tools_def split: option.splits JsonValue.splits)
qed

lemma mirrored_usage: "mirrored ctx \<Longrightarrow> note_usage root ctx = Some ctx' \<Longrightarrow> mirrored ctx'"
  by (auto simp: note_usage_def split: option.splits Option.bind_splits)

lemma mirrored_line: "mirrored ctx \<Longrightarrow> stream_process_line Echo_Callback line ctx = Some ctx' \<Longrightarrow> mirrored ctx'"
  by (auto simp: stream_process_line_def split: option.splits Option.bind_splits if_splits
      intro: mirrored_delta mirrored_usage)

lemma mirrored_bytes_step:
  assumes "mirrored ctx" and "sink_bytes Echo_Callback (c # p) ctx = Some ctx'"
    and "\<And>ctx. mirrored ctx \<Longrightarrow> sink_bytes Echo_Callback p ctx = Some ctx' \<Longrightarrow> mirrored ctx'"
  shows "mirrored ctx'"
proof (cases "c = LF")
  case True
  with assms(2) obtain x where x: "stream_process_line Echo_Callback (line_buf ctx) ctx = Some x"
    "sink_bytes Echo_Callback p (x\<lparr>line_buf := []\<rparr>) = Some ctx'" by (auto split: option.splits)
  have "mirrored x" by (rule mirrored_line[OF assms(1) x(1)])
  then show ?thesis by (intro assms(3)[OF _ x(2)]) simp
next
  case False
  with assms(1,2) show ?thesis by (auto split: if_splits intro: assms(3)[rotated])
qed

lemma mirrored_bytes: "mirrored ctx \<Longrightarrow> sink_bytes Echo_Callback p ctx = Some ctx' \<Longrightarrow> mirrored ctx'"
proof (induction p arbitrary: ctx)
  case (Cons c p)
  show ?case
    by (rule mirrored_bytes_step[OF Cons.prems]) (auto intro: Cons.IH)
qed simp


section \<open>Assembling fragments\<close>

text \<open>The abstract reading: what the fragments with one index amount to.\<close>

definition joined :: "cstr option list \<Rightarrow> cstr option" where
  "joined xs = (let ts = List.map_filter (\<lambda>x. x) xs in if ts = [] then None else Some (concat ts))"

definition given_id :: "cstr option list \<Rightarrow> cstr option" where
  "given_id xs =
     (if xs = [] then None
      else let ts = List.map_filter (\<lambda>x. x) xs in Some (if ts = [] then ''call_default'' else last ts))"

definition item_fn :: "JsonValue \<Rightarrow> cstr \<Rightarrow> cstr option" where
  "item_fn x key = json_obj_get_str (json_obj_get (Some x) ''function'') key"

definition assembled :: "(JsonValue \<Rightarrow> nat) \<Rightarrow> JsonValue list \<Rightarrow> nat \<Rightarrow> PartialCall" where
  "assembled idx items k =
     (let mine = filter (\<lambda>x. idx x = k) items in
      \<lparr>pc_id = given_id (map (\<lambda>x. json_obj_get_str (Some x) ''id'') mine),
       pc_name = joined (map (\<lambda>x. item_fn x ''name'') mine),
       pc_args = joined (map (\<lambda>x. item_fn x ''arguments'') mine)\<rparr>)"

definition calls_needed :: "(JsonValue \<Rightarrow> nat) \<Rightarrow> JsonValue list \<Rightarrow> nat" where
  "calls_needed idx items = foldl (\<lambda>n x. max n (idx x + 1)) 0 items"

lemma map_filter_snoc: "List.map_filter f (xs @ [x]) = List.map_filter f xs @ (case f x of None \<Rightarrow> [] | Some y \<Rightarrow> [y])"
  by (simp add: List.map_filter_def split: option.split)

lemma joined_snoc: "joined (xs @ [x]) = join_frag (joined xs) x"
  by (auto simp: joined_def join_frag_def map_filter_snoc Let_def split: option.split)

lemma given_id_snoc: "given_id (xs @ [x]) = frag_id (given_id xs) x"
  by (auto simp: given_id_def frag_id_def map_filter_snoc Let_def List.map_filter_def split: option.split)

lemma assembled_snoc:
  "assembled idx (items @ [x]) k =
     (if idx x = k
      then \<lparr>pc_id = frag_id (pc_id (assembled idx items k)) (json_obj_get_str (Some x) ''id''),
            pc_name = join_frag (pc_name (assembled idx items k)) (item_fn x ''name''),
            pc_args = join_frag (pc_args (assembled idx items k)) (item_fn x ''arguments'')\<rparr>
      else assembled idx items k)"
  by (simp add: assembled_def Let_def joined_snoc given_id_snoc)

lemma calls_needed_bound: "x \<in> set items \<Longrightarrow> idx x < calls_needed idx items"
  unfolding calls_needed_def by (induction items rule: rev_induct) (auto simp: less_max_iff_disj)

lemma assembled_absent: "calls_needed idx items \<le> k \<Longrightarrow> assembled idx items k = empty_call"
proof -
  assume "calls_needed idx items \<le> k"
  then have "filter (\<lambda>x. idx x = k) items = []"
    by (auto simp: filter_empty_conv dest: calls_needed_bound[where idx = idx])
  then show ?thesis by (simp add: assembled_def joined_def given_id_def empty_call_def List.map_filter_def)
qed

lemma grow_assembled:
  "grow_calls i (map (assembled idx items) [0..<calls_needed idx items]) =
     map (assembled idx items) [0..<max (calls_needed idx items) (i + 1)]"
  by (rule nth_equalityI) (auto simp: grow_calls_def nth_append assembled_absent)

lemma put_assembled:
  "put_fragment (idx x) (json_obj_get_str (Some x) ''id'') (item_fn x ''name'') (item_fn x ''arguments'')
     (map (assembled idx items) [0..<calls_needed idx items]) =
   map (assembled idx (items @ [x])) [0..<calls_needed idx (items @ [x])]"
proof -
  have n: "calls_needed idx (items @ [x]) = max (calls_needed idx items) (idx x + 1)"
    by (simp add: calls_needed_def)
  show ?thesis
    unfolding put_fragment_def Let_def grow_assembled n
    by (rule nth_equalityI) (auto simp: nth_list_update assembled_snoc)
qed

lemma tool_deltas_append: "tool_deltas (xs @ ys) cs = Option.bind (tool_deltas xs cs) (tool_deltas ys)"
  by (induction xs arbitrary: cs) (simp_all split: option.split)

section \<open>Think tags\<close>

lemma keep_content_fields [simp]:
  "accum_content (keep_content e t c) = accum_content c @ t"
  "accum_reasoning (keep_content e t c) = accum_reasoning c"
  "inside_think_tag (keep_content e t c) = inside_think_tag c"
  by (simp_all add: keep_content_def show_content_def show_text_def Let_def split: echo_mode.split)

lemma keep_reasoning_fields [simp]:
  "accum_content (keep_reasoning e b t c) = accum_content c"
  "accum_reasoning (keep_reasoning e b t c) = accum_reasoning c @ t"
  "inside_think_tag (keep_reasoning e b t c) = inside_think_tag c"
  by (simp_all add: keep_reasoning_def show_reasoning_def show_text_def Let_def split: echo_mode.split)

lemma think_outside_plain:
  assumes "\<not> inside_think_tag c" and "CHR ''<'' \<notin> set t"
  shows "think_loop e t c = (if t = [] then c else keep_content e t c)"
  using assms by (simp add: think_loop.simps[of e t c] strstr_absent)

lemma think_open:
  assumes "\<not> inside_think_tag c" and "CHR ''<'' \<notin> set a"
  shows "think_loop e (a @ ''<think>'' @ t) c =
    think_loop e t ((if a = [] then c else keep_content e a c)\<lparr>inside_think_tag := True\<rparr>)"
proof -
  have "strstr (a @ ''<think>'' @ t) ''<think>'' = Some (''<think>'' @ t)"
    using assms(2) strstr_here[of "''<think>''" t] by (subst strstr_skip) simp_all
  with assms(1) show ?thesis by (subst think_loop.simps) (simp add: Let_def)
qed

lemma think_close:
  assumes "inside_think_tag c" and "CHR ''<'' \<notin> set a"
  shows "think_loop e (a @ ''</think>'' @ t) c =
    think_loop e t ((if a = [] then c else keep_reasoning e False a c)\<lparr>inside_think_tag := False\<rparr>)"
proof -
  have "strstr (a @ ''</think>'' @ t) ''</think>'' = Some (''</think>'' @ t)"
    using assms(2) strstr_here[of "''</think>''" t] by (subst strstr_skip) simp_all
  with assms(1) show ?thesis by (subst think_loop.simps) (simp add: Let_def)
qed

section \<open>Properties\<close>

text \<open>C15: Tool calls are assembled correctly from interleaved fragments: if every fragment names an
  index, the result has one call per index up to the largest, and each call has the last id given
  for its index (or the default id), and the concatenation, in order, of the name pieces and of the
  argument pieces of its index.\<close>

theorem fragments_assemble:
  assumes "\<And>x n. x \<in> set items \<Longrightarrow> delta_index x n = Some (idx x)"
  shows "tool_deltas items [] = Some (map (assembled idx items) [0..<calls_needed idx items])"
  using assms
proof (induction items rule: rev_induct)
  case Nil
  show ?case by (simp add: calls_needed_def)
next
  case (snoc x items)
  then have "tool_deltas items [] = Some (map (assembled idx items) [0..<calls_needed idx items])" by simp
  moreover have "delta_index x n = Some (idx x)" for n using snoc.prems by simp
  ultimately show ?case
    using put_assembled[of idx x items]
    by (simp add: tool_deltas_append tool_delta_def Let_def item_fn_def)
qed

definition sample_fragment :: "nat \<Rightarrow> cstr \<Rightarrow> JsonValue" where
  "sample_fragment i arg = JSON_OBJECT
     [(''index'', JSON_NUMBER (DFin False i 0)), (''function'', JSON_OBJECT [(''arguments'', JSON_STRING arg)])]"

definition sample_index :: "JsonValue \<Rightarrow> nat" where
  "sample_index x = (if x = sample_fragment 0 ''x'' then 0 else 1)"

theorem fragments_assemble_witness:
  "tool_deltas [sample_fragment 1 ''a'', sample_fragment 0 ''x'', sample_fragment 1 ''b''] [] =
     Some [\<lparr>pc_id = Some ''call_default'', pc_name = None, pc_args = Some ''x''\<rparr>,
           \<lparr>pc_id = Some ''call_default'', pc_name = None, pc_args = Some ''ab''\<rparr>]"
proof -
  have "delta_index (sample_fragment i a) n = Some i" if "i < 2" for i a n
    using that by (auto simp: delta_index_def sample_fragment_def json_obj_get_num_def json_obj_get_def
        double_lt0_def double_gt_def size_of_double_def trunc_nat_def)
  then have "x \<in> set [sample_fragment 1 ''a'', sample_fragment 0 ''x'', sample_fragment 1 ''b''] \<Longrightarrow>
      delta_index x n = Some (sample_index x)" for x n
    by (auto simp: sample_index_def sample_fragment_def)
  then have "tool_deltas [sample_fragment 1 ''a'', sample_fragment 0 ''x'', sample_fragment 1 ''b''] [] =
      Some (map (assembled sample_index [sample_fragment 1 ''a'', sample_fragment 0 ''x'', sample_fragment 1 ''b''])
        [0..<calls_needed sample_index [sample_fragment 1 ''a'', sample_fragment 0 ''x'', sample_fragment 1 ''b'']])"
    by (rule fragments_assemble)
  moreover have "Some (map (assembled sample_index [sample_fragment 1 ''a'', sample_fragment 0 ''x'', sample_fragment 1 ''b''])
        [0..<calls_needed sample_index [sample_fragment 1 ''a'', sample_fragment 0 ''x'', sample_fragment 1 ''b'']]) =
     Some [\<lparr>pc_id = Some ''call_default'', pc_name = None, pc_args = Some ''x''\<rparr>,
           \<lparr>pc_id = Some ''call_default'', pc_name = None, pc_args = Some ''ab''\<rparr>]"
    by code_simp
  ultimately show ?thesis by (rule trans)
qed

text \<open>C16: How the network cuts the stream into chunks does not matter: feeding the chunks one after
  the other gives the same context as feeding all bytes at once.\<close>

theorem chunking_is_irrelevant: "sink_chunks echo cs ctx = curl_stream_sink_cb echo (concat cs) ctx"
proof (induction cs arbitrary: ctx)
  case Nil
  show ?case by (simp add: curl_stream_sink_cb_def)
next
  case (Cons c cs)
  then show ?case by (simp add: curl_stream_sink_append split: option.split Option.bind_split)
qed

text \<open>The operator sees what is recorded: with a callback, the content tokens it has received,
  put together, are the accumulated content, and the reasoning tokens are the accumulated reasoning,
  after any number of bytes.\<close>

theorem callback_mirrors_reply:
  assumes "mirrored ctx" and "curl_stream_sink_cb Echo_Callback chunk ctx = Some ctx'"
  shows "shown_tokens False ctx' = accum_content ctx' \<and> shown_tokens True ctx' = accum_reasoning ctx'"
proof -
  have "mirrored ctx'"
    by (rule mirrored_bytes[OF _ assms(2)[unfolded curl_stream_sink_cb_def]]) (simp add: assms(1))
  then show ?thesis by (simp add: mirrored_def)
qed

definition sample_event :: cstr where
  "sample_event = ''data: {'' @ [DQ] @ ''delta'' @ [DQ] @ '':{'' @ [DQ] @ ''content'' @ [DQ] @ '':'' @ [DQ] @
     ''a<think>b</think>c'' @ [DQ] @ ''}}'' @ [LF]"

theorem callback_mirrors_reply_witness:
  "\<exists>ctx'. curl_stream_sink_cb Echo_Callback sample_event new_stream = Some ctx' \<and>
     accum_content ctx' = ''ac'' \<and> shown_tokens False ctx' = ''ac'' \<and> shown_tokens True ctx' = ''b''"
proof -
  have "map_option (\<lambda>c. (accum_content c, accum_reasoning c)) (curl_stream_sink_cb Echo_Callback sample_event new_stream)
      = Some (''ac'', ''b'')" by code_simp
  then obtain ctx' where c: "curl_stream_sink_cb Echo_Callback sample_event new_stream = Some ctx'"
    "accum_content ctx' = ''ac''" "accum_reasoning ctx' = ''b''" by auto
  have "mirrored new_stream" by code_simp
  from callback_mirrors_reply[OF this c(1)] c show ?thesis by auto
qed

text \<open>Reasoning between the think tags is kept apart from the content, when the tags arrive whole.\<close>

theorem think_tags_split:
  assumes "\<not> inside_think_tag ctx" and "CHR ''<'' \<notin> set (a @ r @ b)"
  shows "accum_content (think_loop echo (a @ ''<think>'' @ r @ ''</think>'' @ b) ctx) = accum_content ctx @ a @ b \<and>
    accum_reasoning (think_loop echo (a @ ''<think>'' @ r @ ''</think>'' @ b) ctx) = accum_reasoning ctx @ r \<and>
    \<not> inside_think_tag (think_loop echo (a @ ''<think>'' @ r @ ''</think>'' @ b) ctx)"
proof -
  note open_it = think_open[of ctx a echo "r @ ''</think>'' @ b"]
  let ?c = "(if a = [] then ctx else keep_content echo a ctx)\<lparr>inside_think_tag := True\<rparr>"
  have "think_loop echo (a @ ''<think>'' @ r @ ''</think>'' @ b) ctx =
      think_loop echo b ((if r = [] then ?c else keep_reasoning echo False r ?c)\<lparr>inside_think_tag := False\<rparr>)"
    using assms think_close[of ?c r echo b] open_it by simp
  with assms show ?thesis by (simp add: think_outside_plain)
qed

theorem think_tags_split_witness:
  "accum_content (think_loop Echo_Silent (''a'' @ ''<think>'' @ ''r'' @ ''</think>'' @ ''b'') new_stream) = ''ab''"
proof -
  have "\<not> inside_think_tag new_stream" by (simp add: new_stream_def)
  from think_tags_split[OF this, of "''a''" "''r''" "''b''" Echo_Silent] show ?thesis
    by (simp add: new_stream_def)
qed

text \<open>A tag that two deltas share is not recognised: when a delta ends in \<open><thi\<close> and the next begins
  with \<open>nk>\<close>, the tag and all the reasoning behind it go to the content.\<close>

theorem split_tag_leaks_reasoning:
  assumes "\<not> inside_think_tag ctx" and "CHR ''<'' \<notin> set r"
  shows "accum_content (think_loop echo (''nk>'' @ r) (think_loop echo ''<thi'' ctx)) =
      accum_content ctx @ ''<think>'' @ r \<and>
    accum_reasoning (think_loop echo (''nk>'' @ r) (think_loop echo ''<thi'' ctx)) = accum_reasoning ctx"
proof -
  have "strstr ''<thi'' ''<think>'' = None" by code_simp
  with assms(1) have f: "think_loop echo ''<thi'' ctx = keep_content echo ''<thi'' ctx"
    by (simp add: think_loop.simps[of echo "''<thi''"])
  have "CHR ''<'' \<notin> set (''nk>'' @ r)" using assms(2) by simp
  with assms(1) show ?thesis unfolding f by (subst (1 2) think_outside_plain) simp_all
qed

theorem split_tag_leaks_reasoning_witness:
  "accum_content (think_loop Echo_Silent (''nk>'' @ ''secret'') (think_loop Echo_Silent ''<thi'' new_stream)) =
     ''<think>secret''"
  using split_tag_leaks_reasoning[of new_stream "''secret''" Echo_Silent] by (simp add: new_stream_def)

definition nan_event :: cstr where
  "nan_event = ''{'' @ [DQ] @ ''delta'' @ [DQ] @ '':{'' @ [DQ] @ ''tool_calls'' @ [DQ] @ '':[{'' @ [DQ] @
     ''index'' @ [DQ] @ '':nan}]}}''"

text \<open>A fragment whose index is NaN passes the clamp of server-controlled indices: no comparison
  with a NaN holds, so it reaches the cast to \<open>size_t\<close>, which is undefined.\<close>

theorem nan_index_passes_clamp:
  "stream_process_line echo (''data: '' @ nan_event) ctx = None"
proof -
  have "has_prefix ''data: [DONE]'' (''data: '' @ nan_event) = False" by code_simp
  moreover have "json_parse (Some nan_event) = Some (JSON_OBJECT [(''delta'', JSON_OBJECT [(''tool_calls'',
      JSON_ARRAY [JSON_OBJECT [(''index'', JSON_NUMBER (DNan False))]])])])"
    by code_simp
  moreover have "stream_delta echo (JSON_OBJECT [(''tool_calls'',
      JSON_ARRAY [JSON_OBJECT [(''index'', JSON_NUMBER (DNan False))]])]) ctx = None" for ctx
    by (simp add: stream_delta_def stream_tools_def stream_content_def stream_reasoning_def json_obj_get_str_def
        json_obj_get_def tool_delta_def delta_index_def json_obj_get_num_def double_lt0_def double_gt_def
        size_of_double_def)
  ultimately show ?thesis
    by (simp add: stream_process_line_def note_usage_def delta_of_def json_obj_get_def)
qed

text \<open>One fragment with the largest index makes that many empty calls, without id and name.\<close>

theorem sparse_index_makes_empty_calls:
  assumes "delta_index x 0 = Some k"
  shows "\<exists>c. tool_deltas [x] [] = Some (replicate k empty_call @ [c])"
proof -
  have "length (grow_calls k []) = k + 1" by (simp add: grow_calls_def)
  with assms show ?thesis
    by (auto simp: tool_delta_def put_fragment_def Let_def grow_calls_def list_update_append
        replicate_append_same[symmetric])
qed

theorem sparse_index_makes_empty_calls_witness:
  "\<exists>c. tool_deltas [sample_fragment 2 ''a''] [] = Some ([empty_call, empty_call] @ [c])"
proof -
  have "delta_index (sample_fragment 2 ''a'') 0 = Some 2"
    by (simp add: delta_index_def sample_fragment_def json_obj_get_num_def json_obj_get_def
        double_lt0_def double_gt_def size_of_double_def trunc_nat_def)
  from sparse_index_makes_empty_calls[OF this] show ?thesis by (simp add: numeral_2_eq_2)
qed

end
