(* ===== verification/ModelAdapter.thy ===== *)
theory ModelAdapter
  imports ModelStream
begin

text \<open>
  The calls of \<open>model_adapter.c\<close>: the request, its headers, the retry loop of one endpoint and the
  failover to a second one; the protocol guess, the configuration of a gateway, the probe of an
  endpoint and the table of presets.

  libcurl is the parameter \<open>perform\<close> of the record \<open>network\<close>: it takes a request and the state of
  the world and gives the outcome; \<open>env_var\<close> is \<open>getenv\<close>. What the loop does is the list of
  \<open>net_event\<close>s: a request sent, or seconds slept. The attempt counter runs down instead of up. An
  endpoint that is NULL contains nothing: \<open>model_gateway_init\<close> makes none.
\<close>

section \<open>Gateways and the network\<close>

datatype ModelProtocolMode =
  PROTOCOL_AUTO | PROTOCOL_OPENAI | PROTOCOL_ANTHROPIC | PROTOCOL_HERMES | PROTOCOL_DEEPSEEK

record GatewayConfig = ModelGateway +
  api_key :: "cstr option"
  gw_model :: "cstr option"
  user_agent :: "cstr option"
  fallback_endpoint :: "cstr option"
  fallback_api_key :: "cstr option"
  fallback_model :: "cstr option"
  timeout_sec :: int
  max_retries :: int
  streaming :: bool
  protocol :: ModelProtocolMode
  thinking_budget_tokens :: int
  has_stream_cb :: bool

datatype CURLcode = CURLE_OK | CURLE_COULDNT_CONNECT | CURLE_OPERATION_TIMEDOUT | CURLE_OTHER nat

record http_request =
  req_url :: "cstr option"
  req_agent :: cstr
  req_headers :: "cstr list"
  req_body :: cstr
  req_timeout :: int

record http_outcome =
  curl_code :: CURLcode
  http_status :: int
  reply_headers :: "cstr list"
  reply_chunks :: "cstr list"

record 'w network =
  perform :: "http_request \<Rightarrow> 'w \<Rightarrow> http_outcome \<times> 'w"
  curl_ready :: bool
  curl_strerror :: "CURLcode \<Rightarrow> cstr"
  env_var :: "cstr \<Rightarrow> cstr option"
  stdout_tty :: bool

datatype net_event = Sent http_request | Slept nat

section \<open>The request\<close>

definition mentions :: "cstr option \<Rightarrow> cstr \<Rightarrow> bool" where
  "mentions s pat = (case s of None \<Rightarrow> False | Some t \<Rightarrow> strstr t pat \<noteq> None)"

definition num_ctx :: "cstr option \<Rightarrow> int" where
  "num_ctx ctx_env = (case ctx_env of Some t \<Rightarrow> if atoi t > 0 then atoi t else 8192 | None \<Rightarrow> 8192)"

definition request_payload ::
    "'w network \<Rightarrow> GatewayConfig \<Rightarrow> cstr option \<Rightarrow> cstr option \<Rightarrow> JsonValue \<Rightarrow> JsonValue option \<Rightarrow> JsonValue" where
  "request_payload W self ep mod_name messages_json tools_schema =
     (let p = json_create_object;
          p = json_obj_add p ''model'' (json_create_string (Some (case mod_name of None \<Rightarrow> ''hermes-3'' | Some m \<Rightarrow> m)));
          p = json_obj_add p ''messages'' messages_json;
          p = (case tools_schema of
                 Some (JSON_ARRAY (x # xs)) \<Rightarrow>
                   if \<not> mentions mod_name ''deepseek-r1''
                   then json_obj_add (json_obj_add p ''tools'' (JSON_ARRAY (x # xs)))
                          ''tool_choice'' (json_create_string (Some ''auto''))
                   else p
               | _ \<Rightarrow> p);
          p = (if streaming self
               then json_obj_add (json_obj_add p ''stream'' (json_create_bool True)) ''stream_options''
                      (json_obj_add json_create_object ''include_usage'' (json_create_bool True))
               else p);
          p = (if mentions ep ''localhost:11434'' \<or> mentions ep ''127.0.0.1:11434''
               then json_obj_add p ''options'' (json_obj_add json_create_object ''num_ctx''
                      (json_create_number (double_of_int (num_ctx (env_var W ''MODEL_NUM_CTX'')))))
               else p) in
      if thinking_budget_tokens self > 0
      then json_obj_add p ''thinking''
             (json_obj_add (json_obj_add json_create_object ''type'' (json_create_string (Some ''enabled'')))
               ''budget_tokens'' (json_create_number (double_of_int (thinking_budget_tokens self))))
      else p)"

definition HDR_BUF :: nat where "HDR_BUF = 512"

text \<open>The headers; \<open>snprintf\<close> cuts them to their buffers.\<close>

definition auth_headers :: "bool \<Rightarrow> cstr option \<Rightarrow> cstr option \<Rightarrow> cstr list" where
  "auth_headers caching ep key =
     (let beta = ''anthropic-beta: prompt-caching-2024-07-31'' in
      if mentions ep ''api.anthropic.com'' then
        [take (HDR_BUF - 1) (''x-api-key: '' @
           (case key of None \<Rightarrow> [] | Some k \<Rightarrow> if k = ''none'' then [] else k)),
         ''anthropic-version: 2023-06-01''] @ (if caching then [beta] else [])
      else case key of None \<Rightarrow> []
        | Some k \<Rightarrow>
          if k \<noteq> [] \<and> k \<noteq> ''none''
          then take (HDR_BUF - 1) (''Authorization: Bearer '' @ k) #
               (if caching \<and> mentions ep ''anthropic'' then [beta] else [])
          else [])"

definition request_headers ::
    "'w network \<Rightarrow> GatewayConfig \<Rightarrow> cstr option \<Rightarrow> cstr option \<Rightarrow> cstr list" where
  "request_headers W self ep key =
     ''Content-Type: application/json'' # auth_headers (prompt_caching self) ep key @
     (if mentions ep ''openrouter.ai''
      then [''HTTP-Referer: https://github.com/M4F-S/Belya'', ''X-Title: Belya Agent''] else []) @
     (if mentions ep ''opencode.ai''
      then [take 255 (''x-opencode-session: '' @
              (case nonempty (env_var W ''OPENCODE_SESSION_ID'') of None \<Rightarrow> ''belya-agent-session'' | Some t \<Rightarrow> t))]
      else [])"

section \<open>The retry loop\<close>

definition echo_of :: "'w network \<Rightarrow> GatewayConfig \<Rightarrow> echo_mode" where
  "echo_of W self =
     (if has_stream_cb self then Echo_Callback
      else if stream_echo_enabled (env_var W ''BELYA_STREAM_ECHO'') (stdout_tty W) then Echo_Terminal
      else Echo_Silent)"

text \<open>What the write and header callbacks make of an outcome: the stream context, and the plain body.\<close>

definition receive :: "'w network \<Rightarrow> GatewayConfig \<Rightarrow> http_outcome \<Rightarrow> StreamContext option" where
  "receive W self out =
     (let ctx = foldl (\<lambda>c h. curl_header_cb h c) new_stream (reply_headers out) in
      if streaming self then sink_chunks (echo_of W self) (reply_chunks out) ctx else Some ctx)"

definition retry_cap :: "'w network \<Rightarrow> int" where
  "retry_cap W =
     (case nonempty (env_var W ''BELYA_RETRY_AFTER_CAP'') of None \<Rightarrow> 30
      | Some t \<Rightarrow> if strtol10 t > 0 then strtol10 t else 30)"

text \<open>The waits before a retry of an HTTP error, and the backoff from then on.\<close>

definition rate_wait :: "'w network \<Rightarrow> int \<Rightarrow> int \<Rightarrow> u32 \<Rightarrow> net_event list \<times> u32" where
  "rate_wait W http_code retry_after sleep_sec =
     (if http_code = 429 then
        (if retry_after > 0 then ([Slept (nat (min retry_after (retry_cap W)) mod 2 ^ 32)], 1)
         else if sleep_sec < 4 then ([], 4) else ([], sleep_sec))
      else ([], sleep_sec))"

definition local_offline_text :: "cstr \<Rightarrow> cstr" where
  "local_offline_text ep = ''Connection Error: Failed to connect to local Ollama server at '' @ [SQ] @ ep @ [SQ] @
     ''. Please ensure '' @ [SQ] @ ''ollama serve'' @ [SQ] @ '' is running in another terminal.''"

fun attempts ::
    "'w network \<Rightarrow> GatewayConfig \<Rightarrow> http_request \<Rightarrow> nat \<Rightarrow> u32 \<Rightarrow> 'w \<Rightarrow>
     (ModelGatewayResponse \<times> net_event list \<times> 'w) option" where
  "attempts W self rq 0 sleep_sec w =
     Some (error_reply ''Error: Maximum retry attempts exceeded.'', [], w)"
| "attempts W self rq (Suc left) sleep_sec w =
     (if \<not> curl_ready W then Some (error_reply ''System Error: Failed to initialize libcurl.'', [], w)
      else let (out, w) = perform W rq w in
      case receive W self out of None \<Rightarrow> None
      | Some ctx \<Rightarrow>
        if curl_code out \<noteq> CURLE_OK then
          if curl_code out = CURLE_COULDNT_CONNECT \<and> mentions (endpoint self) ''localhost''
          then Some (error_reply (local_offline_text (case endpoint self of None \<Rightarrow> [] | Some e \<Rightarrow> e)), [Sent rq], w)
          else if left > 0 \<and> (curl_code out = CURLE_OPERATION_TIMEDOUT \<or> curl_code out = CURLE_COULDNT_CONNECT)
          then map_option (\<lambda>(r, es, w). (r, Sent rq # Slept (unat sleep_sec) # es, w))
                 (attempts W self rq left (2 * sleep_sec) w)
          else Some (error_reply (''Network Error: '' @ curl_strerror W (curl_code out)), [Sent rq], w)
        else if (http_status out = 429 \<or> http_status out \<ge> 500) \<and> left > 0 then
          let (waits, sleep_sec) = rate_wait W (http_status out) (retry_after_sec ctx) sleep_sec in
          map_option (\<lambda>(r, es, w). (r, Sent rq # waits @ Slept (unat sleep_sec) # es, w))
            (attempts W self rq left (2 * sleep_sec) w)
        else map_option (\<lambda>r. (r, [Sent rq], w))
          (if streaming self then finish_stream (echo_of W self) (http_status out) ctx
           else plain_response (http_status out) (concat (reply_chunks out))))"

definition gateway_request ::
    "'w network \<Rightarrow> GatewayConfig \<Rightarrow> JsonValue \<Rightarrow> JsonValue option \<Rightarrow> bool \<Rightarrow> http_request" where
  "gateway_request W self messages_json tools_schema use_fallback =
     (let pick = (\<lambda>fb main. if use_fallback \<and> fb \<noteq> None then fb else main);
          ep = pick (fallback_endpoint self) (endpoint self);
          key = pick (fallback_api_key self) (api_key self);
          mod_name = pick (fallback_model self) (gw_model self) in
      \<lparr>req_url = ep,
       req_agent = (case user_agent self of None \<Rightarrow> ''BelyaAgent/4.0 (Autonomous C99 Engine)'' | Some a \<Rightarrow> a),
       req_headers = request_headers W self ep key,
       req_body = json_text (request_payload W self ep mod_name messages_json tools_schema),
       req_timeout = (if timeout_sec self > 0 then timeout_sec self else 60)\<rparr>)"

definition max_attempts :: "GatewayConfig \<Rightarrow> nat" where
  "max_attempts self = (if max_retries self > 0 then nat (max_retries self) else 1)"

definition openai_chat_complete_inner ::
    "'w network \<Rightarrow> GatewayConfig \<Rightarrow> JsonValue \<Rightarrow> JsonValue option \<Rightarrow> bool \<Rightarrow> 'w \<Rightarrow>
     (ModelGatewayResponse \<times> net_event list \<times> 'w) option" where
  "openai_chat_complete_inner W self messages_json tools_schema use_fallback w =
     attempts W self (gateway_request W self messages_json tools_schema use_fallback) (max_attempts self) 1 w"

section \<open>Failover\<close>

definition call_failed :: "ModelGatewayResponse \<Rightarrow> bool" where
  "call_failed res \<longleftrightarrow> \<not> has_tool_call res \<and>
     (case resp_content res of None \<Rightarrow> True
      | Some t \<Rightarrow> has_prefix ''Network Error'' t \<or> has_prefix ''API Error'' t \<or>
          has_prefix ''Connection Error'' t \<or> has_prefix ''Error: Maximum retry'' t)"

definition same_provider :: "GatewayConfig \<Rightarrow> bool" where
  "same_provider self \<longleftrightarrow>
     endpoint self \<noteq> None \<and> fallback_endpoint self = endpoint self \<and>
     gw_model self \<noteq> None \<and> fallback_model self = gw_model self"

definition fallback_ready :: "GatewayConfig \<Rightarrow> bool" where
  "fallback_ready self \<longleftrightarrow> fallback_endpoint self \<noteq> None \<and> nonempty (fallback_api_key self) \<noteq> None"

definition openai_chat_complete ::
    "'w network \<Rightarrow> GatewayConfig \<Rightarrow> JsonValue \<Rightarrow> JsonValue option \<Rightarrow> 'w \<Rightarrow>
     (ModelGatewayResponse \<times> net_event list \<times> 'w) option" where
  "openai_chat_complete W self messages_json tools_schema w = do {
     (res, es, w) \<leftarrow> openai_chat_complete_inner W self messages_json tools_schema False w;
     if \<not> same_provider self \<and> call_failed res \<and> fallback_ready self
     then do {
       (res, es', w) \<leftarrow> openai_chat_complete_inner W self messages_json tools_schema True w;
       Some (res, es @ es', w) }
     else Some (res, es, w) }"

section \<open>Configuration\<close>

definition model_gateway_detect_protocol :: "cstr option \<Rightarrow> cstr option \<Rightarrow> ModelProtocolMode" where
  "model_gateway_detect_protocol ep model_name =
     (if mentions ep ''api.anthropic.com'' then PROTOCOL_ANTHROPIC
      else if mentions model_name ''claude'' then PROTOCOL_ANTHROPIC
      else if mentions model_name ''hermes'' then PROTOCOL_HERMES
      else if mentions model_name ''deepseek'' \<or> mentions model_name ''r1'' then PROTOCOL_DEEPSEEK
      else PROTOCOL_OPENAI)"

definition model_gateway_set_protocol :: "ModelProtocolMode \<Rightarrow> GatewayConfig \<Rightarrow> GatewayConfig" where
  "model_gateway_set_protocol p gw = gw\<lparr>protocol := p\<rparr>"

definition model_gateway_set_thinking_budget :: "int \<Rightarrow> GatewayConfig \<Rightarrow> GatewayConfig" where
  "model_gateway_set_thinking_budget n gw = gw\<lparr>thinking_budget_tokens := n\<rparr>"

definition model_gateway_set_fallback ::
    "cstr option \<Rightarrow> cstr option \<Rightarrow> cstr option \<Rightarrow> GatewayConfig \<Rightarrow> GatewayConfig" where
  "model_gateway_set_fallback ep key model_name gw =
     gw\<lparr>fallback_endpoint := nonempty ep, fallback_api_key := nonempty key, fallback_model := nonempty model_name\<rparr>"

definition env_fallback :: "(cstr \<Rightarrow> cstr option) \<Rightarrow> GatewayConfig \<Rightarrow> GatewayConfig" where
  "env_fallback env gw =
     (let or_else = (\<lambda>a b. if nonempty a = None then b else a);
          fb_key = or_else (env ''FALLBACK_MODEL_API_KEY'') (env ''OPENROUTER_API_KEY'');
          fb_mod = or_else (env ''FALLBACK_MODEL_NAME'') (env ''OPENROUTER_MODEL'');
          fb_mod = (if nonempty fb_mod = None \<and> nonempty fb_key \<noteq> None
                    then Some ''deepseek/deepseek-v4-flash'' else fb_mod);
          fb_ep = env ''FALLBACK_MODEL_ENDPOINT'';
          fb_ep = (if nonempty fb_ep = None \<and> nonempty fb_key \<noteq> None
                   then Some ''https://openrouter.ai/api/v1/chat/completions'' else fb_ep) in
      if fb_ep \<noteq> None \<and> nonempty fb_key \<noteq> None then model_gateway_set_fallback fb_ep fb_key fb_mod gw else gw)"

definition model_gateway_init ::
    "(cstr \<Rightarrow> cstr option) \<Rightarrow> cstr option \<Rightarrow> cstr option \<Rightarrow> cstr option \<Rightarrow> GatewayConfig option" where
  "model_gateway_init env ep key model_name =
     (case ep of None \<Rightarrow> None
      | Some e \<Rightarrow>
        let m = (case model_name of None \<Rightarrow> ''hermes-3'' | Some m \<Rightarrow> m) in
        Some (env_fallback env
          \<lparr>endpoint = Some e,
           prompt_caching = (env ''PROMPT_CACHING'' = Some ''true'' \<or> env ''PROMPT_CACHING'' = Some ''1''),
           chat_complete = None,
           api_key = Some (case key of None \<Rightarrow> [] | Some k \<Rightarrow> k), gw_model = Some m,
           user_agent = Some (case nonempty (env ''MODEL_USER_AGENT'') of None \<Rightarrow> ''BelyaAgent/4.0 (Autonomous C99 Engine)''
                              | Some a \<Rightarrow> a),
           fallback_endpoint = None, fallback_api_key = None, fallback_model = None,
           timeout_sec = 120, max_retries = 3, streaming = True,
           protocol = model_gateway_detect_protocol (Some e) (Some m),
           thinking_budget_tokens =
             (case env ''MODEL_THINKING_BUDGET'' of None \<Rightarrow> 0 | Some t \<Rightarrow> if atoi t > 0 then atoi t else 0),
           has_stream_cb = False\<rparr>))"

section \<open>What the retry loop does\<close>

definition sent_count :: "net_event list \<Rightarrow> nat" where
  "sent_count es = length (filter (\<lambda>e. case e of Sent r \<Rightarrow> True | Slept n \<Rightarrow> False) es)"

definition slept_total :: "net_event list \<Rightarrow> nat" where
  "slept_total es = sum_list (map (\<lambda>e. case e of Sent r \<Rightarrow> 0 | Slept n \<Rightarrow> n) es)"

lemma event_sums [simp]:
  "sent_count [] = 0" "sent_count (Sent r # es) = Suc (sent_count es)" "sent_count (Slept n # es) = sent_count es"
  "sent_count (es @ es') = sent_count es + sent_count es'"
  "slept_total [] = 0" "slept_total (Sent r # es) = slept_total es" "slept_total (Slept n # es) = n + slept_total es"
  "slept_total (es @ es') = slept_total es + slept_total es'"
  by (simp_all add: sent_count_def slept_total_def)

lemma attempts_cases:
  assumes "attempts W self rq (Suc left) s w = Some (r, es, w')"
  obtains "es = [] \<or> es = [Sent rq]"
  | es' w1 where "left > 0" "es = Sent rq # Slept (unat s) # es'" "attempts W self rq left (2 * s) w1 = Some (r, es', w')"
  | code ra es' w1 where "left > 0"
      "es = Sent rq # fst (rate_wait W code ra s) @ Slept (unat (snd (rate_wait W code ra s))) # es'"
      "attempts W self rq left (2 * snd (rate_wait W code ra s)) w1 = Some (r, es', w')"
  using assms
  by (auto simp: Let_def case_prod_unfold split: if_splits option.splits)

lemma attempts_sent_count: "attempts W self rq n s w = Some (r, es, w') \<Longrightarrow> sent_count es \<le> n"
proof (induction n arbitrary: s w es)
  case (Suc n)
  have z: "sent_count (fst (rate_wait W code ra s)) = 0" for code ra and s
    by (simp add: rate_wait_def)
  from Suc.prems show ?case
  proof (cases rule: attempts_cases)
    case (2 es' w1)
    then show ?thesis using Suc.IH[OF 2(3)] by simp
  next
    case (3 code ra es' w1)
    then show ?thesis using Suc.IH[OF 3(3)] z by simp
  qed auto
qed simp

lemma attempts_sent_same: "attempts W self rq n s w = Some (r, es, w') \<Longrightarrow> Sent q \<in> set es \<Longrightarrow> q = rq"
proof (induction n arbitrary: s w es)
  case (Suc n)
  have z: "Sent q \<notin> set (fst (rate_wait W code ra s))" for code ra and s
    by (simp add: rate_wait_def)
  from Suc.prems(1) show ?case
  proof (cases rule: attempts_cases)
    case (2 es' w1)
    then show ?thesis using Suc.IH[OF 2(3)] Suc.prems(2) by auto
  next
    case (3 code ra es' w1)
    then show ?thesis using Suc.IH[OF 3(3)] Suc.prems(2) z by auto
  qed (use Suc.prems in auto)
qed simp

text \<open>A wait before a retry is at most the cap and the doubled backoff; \<open>b\<close> bounds the backoff.\<close>

lemma rate_wait_bounds:
  fixes s :: u32
  assumes "unat s \<le> b" and "4 \<le> b"
  shows "slept_total (fst (rate_wait W code ra s)) \<le> nat (retry_cap W) \<and>
    unat (snd (rate_wait W code ra s)) \<le> b"
proof -
  have "nat (min ra (retry_cap W)) mod 2 ^ 32 \<le> nat (retry_cap W)"
    by (rule order_trans[OF mod_less_eq_dividend]) simp
  with assms show ?thesis by (simp add: rate_wait_def)
qed

lemma double_backoff:
  fixes s :: u32
  assumes "unat s \<le> b"
  shows "unat (2 * s) \<le> 2 * b"
proof -
  have "unat (2 * s) \<le> 2 * unat s" by (simp add: unat_word_ariths(2) mod_le_divisor)
  with assms show ?thesis by simp
qed

lemma attempts_slept:
  "attempts W self rq n s w = Some (r, es, w') \<Longrightarrow> unat s \<le> b \<Longrightarrow> 4 \<le> b \<Longrightarrow>
     slept_total es \<le> (n - 1) * nat (retry_cap W) + b * (2 ^ (n - 1) - 1)"
proof (induction n arbitrary: s w es b)
  case (Suc n)
  have tail: "slept_total es' \<le> (n - 1) * nat (retry_cap W) + 2 * b * (2 ^ (n - 1) - 1)"
    if "attempts W self rq n (2 * t) w1 = Some (r, es', w')" "unat t \<le> b" for t w1 es'
    by (rule Suc.IH[OF that(1) double_backoff[OF that(2)]]) (use Suc.prems(3) in simp)
  have pow: "b + 2 * b * (2 ^ (n - 1) - 1) = b * (2 ^ n - 1)" if pos: "n > 0"
  proof -
    obtain k where k: "n = Suc k" using pos by (cases n) auto
    obtain j where "(2::nat) ^ k = Suc j" by (cases "(2::nat) ^ k") auto
    with k show ?thesis by (simp add: algebra_simps)
  qed
  from Suc.prems(1) show ?case
  proof (cases rule: attempts_cases)
    case (2 es' w1)
    then show ?thesis
      using tail[OF 2(3) Suc.prems(2)] Suc.prems(2) pow by (cases n) auto
  next
    case (3 code ra es' w1)
    note rw = rate_wait_bounds[OF Suc.prems(2,3), of W code ra]
    with 3 tail[OF 3(3)] pow show ?thesis by (cases n) auto
  qed auto
qed simp

section \<open>A provider that is down\<close>

definition down_outcome :: "int \<Rightarrow> http_outcome" where
  "down_outcome st = \<lparr>curl_code = CURLE_OK, http_status = st, reply_headers = [], reply_chunks = []\<rparr>"

definition empty_stream_reply :: "int \<Rightarrow> ModelGatewayResponse" where
  "empty_stream_reply st = error_reply (''Empty response from stream (HTTP '' @ int_text st @ '').'')"

lemma down_attempts:
  assumes "curl_ready W" and "streaming self" and "500 \<le> st" and "\<And>rq w. perform W rq w = (down_outcome st, w)"
  shows "\<exists>es. attempts W self rq (Suc n) s w = Some (empty_stream_reply st, Sent rq # es, w)"
proof (induction n arbitrary: s)
  case 0
  have "json_parse (Some (c_string [])) = None" by code_simp
  then have "finish_stream e st new_stream = Some (empty_stream_reply st)" for e
    by (simp add: finish_stream_def stream_response_def new_stream_def empty_stream_reply_def error_reply_def)
  with assms show ?case by (simp add: receive_def Let_def down_outcome_def)
next
  case (Suc n)
  let ?x = "rate_wait W st (retry_after_sec new_stream) s"
  from Suc[of "2 * snd ?x"] obtain es where
    e: "attempts W self rq (Suc n) (2 * snd ?x) w = Some (empty_stream_reply st, Sent rq # es, w)" by blast
  have rc: "receive W self (down_outcome st) = Some new_stream"
    using assms(2) by (simp add: receive_def down_outcome_def)
  have o: "curl_code (down_outcome st) = CURLE_OK" "http_status (down_outcome st) = st"
    by (simp_all add: down_outcome_def)
  show ?case
    by (subst attempts.simps(2)) (simp add: assms rc e o case_prod_unfold Let_def del: attempts.simps)
qed

lemma max_attempts_Suc: "\<exists>n. max_attempts self = Suc n"
  by (cases "max_attempts self") (auto simp: max_attempts_def split: if_splits)

lemma down_chat:
  assumes "curl_ready W" and "streaming self" and "500 \<le> st" and "\<And>rq w. perform W rq w = (down_outcome st, w)"
  shows "\<exists>es. openai_chat_complete_inner W self m t fb w =
      Some (empty_stream_reply st, Sent (gateway_request W self m t fb) # es, w) \<and>
    (\<not> fb \<longrightarrow> openai_chat_complete W self m t w =
      Some (empty_stream_reply st, Sent (gateway_request W self m t fb) # es, w))"
proof -
  obtain n where n: "max_attempts self = Suc n" using max_attempts_Suc by blast
  obtain es where e: "attempts W self (gateway_request W self m t fb) (Suc n) 1 w =
      Some (empty_stream_reply st, Sent (gateway_request W self m t fb) # es, w)"
    using down_attempts[OF assms] by blast
  have "\<not> call_failed (empty_stream_reply st)"
    by (simp add: call_failed_def empty_stream_reply_def error_reply_def)
  with e n show ?thesis
    by (auto simp: openai_chat_complete_def openai_chat_complete_inner_def simp del: attempts.simps)
qed

definition sample_config :: GatewayConfig where
  "sample_config = model_gateway_set_fallback (Some ''https://b/v1'') (Some ''k2'') (Some ''m2'')
     \<lparr>endpoint = Some ''https://a/v1'', prompt_caching = False, chat_complete = None, api_key = Some ''k1'',
      gw_model = Some ''m1'', user_agent = None, fallback_endpoint = None, fallback_api_key = None,
      fallback_model = None, timeout_sec = 120, max_retries = 3, streaming = True,
      protocol = PROTOCOL_OPENAI, thinking_budget_tokens = 0, has_stream_cb = False\<rparr>"

definition down_network :: "int \<Rightarrow> unit network" where
  "down_network st = \<lparr>perform = (\<lambda>rq w. (down_outcome st, w)),
     curl_ready = True, curl_strerror = (\<lambda>c. []), env_var = (\<lambda>v. None), stdout_tty = False\<rparr>"

lemma sample_facts:
  "fallback_ready sample_config" "\<not> same_provider sample_config"
  "curl_ready (down_network 503)" "streaming sample_config" "(500::int) \<le> 503"
  "perform (down_network 503) rq w = (down_outcome 503, w)"
  by (simp_all add: fallback_ready_def same_provider_def sample_config_def nonempty_def
      model_gateway_set_fallback_def down_network_def)

section \<open>Properties\<close>

text \<open>C17: A call of one endpoint is bounded: it sends at most \<open>max_retries\<close> requests (one when that is
  not positive), and with n attempts it waits at most n - 1 times the cap on a provider's
  Retry-After, plus a backoff of 4 (2^(n-1) - 1) seconds.\<close>

theorem retries_are_bounded:
  assumes "openai_chat_complete_inner W self m t fb w = Some (r, es, w')"
  shows "sent_count es \<le> max_attempts self \<and>
    slept_total es \<le> (max_attempts self - 1) * nat (retry_cap W) + 4 * (2 ^ (max_attempts self - 1) - 1)"
  using assms attempts_sent_count attempts_slept[where b = 4]
  by (fastforce simp: openai_chat_complete_inner_def)

theorem retries_are_bounded_witness:
  "\<exists>es. openai_chat_complete_inner (down_network 503) sample_config (JSON_ARRAY []) None False () =
      Some (empty_stream_reply 503, es, ()) \<and> sent_count es \<le> 3 \<and> slept_total es \<le> 72"
proof -
  obtain es where e: "openai_chat_complete_inner (down_network 503) sample_config (JSON_ARRAY []) None False () =
      Some (empty_stream_reply 503, es, ())"
    using down_chat[OF sample_facts(3,4,5,6), of "JSON_ARRAY []" None False "()"] by blast
  have "max_attempts sample_config = 3" "retry_cap (down_network 503) = 30"
    by (simp_all add: max_attempts_def sample_config_def model_gateway_set_fallback_def retry_cap_def
        down_network_def nonempty_def)
  with retries_are_bounded[OF e] e show ?thesis by auto
qed

text \<open>C18: An API key only travels to its own endpoint: every request of a call goes either to the
  primary endpoint with the primary key, or, only when a fallback with a key of its own is set up
  and it is another provider, to the fallback endpoint with the fallback key.\<close>

theorem keys_stay_with_their_endpoint:
  assumes "openai_chat_complete W self m t w = Some (r, es, w')" and "Sent rq \<in> set es"
  shows "(req_url rq = endpoint self \<and>
      req_headers rq = request_headers W self (endpoint self) (api_key self)) \<or>
    (fallback_ready self \<and> \<not> same_provider self \<and> req_url rq = fallback_endpoint self \<and>
      req_headers rq = request_headers W self (fallback_endpoint self) (fallback_api_key self))"
proof -
  have "rq = gateway_request W self m t False \<or>
      (fallback_ready self \<and> \<not> same_provider self \<and> rq = gateway_request W self m t True)"
    using assms attempts_sent_same
    by (fastforce simp: openai_chat_complete_def openai_chat_complete_inner_def split: if_splits Option.bind_splits)
  moreover have "fallback_api_key self \<noteq> None" if "fallback_ready self"
    using that by (cases "fallback_api_key self") (auto simp: fallback_ready_def nonempty_def)
  ultimately show ?thesis by (auto simp: gateway_request_def Let_def fallback_ready_def)
qed

theorem keys_stay_with_their_endpoint_witness:
  "\<exists>es rq. openai_chat_complete (down_network 503) sample_config (JSON_ARRAY []) None () =
      Some (empty_stream_reply 503, es, ()) \<and> Sent rq \<in> set es \<and>
    req_headers rq \<in> {request_headers (down_network 503) sample_config (endpoint sample_config) (api_key sample_config),
      request_headers (down_network 503) sample_config (fallback_endpoint sample_config) (fallback_api_key sample_config)}"
proof -
  obtain es rq where e: "openai_chat_complete (down_network 503) sample_config (JSON_ARRAY []) None () =
      Some (empty_stream_reply 503, Sent rq # es, ())"
    using down_chat[OF sample_facts(3,4,5,6), of "JSON_ARRAY []" None False "()"] by blast
  have "Sent rq \<in> set (Sent rq # es)" by simp
  from keys_stay_with_their_endpoint[OF e this] e show ?thesis by fastforce
qed

text \<open>A provider that answers every attempt with an empty HTTP 5xx reply never leads to the
  failover, although the fallback is set up: the reply says that the stream was empty, which is
  none of the texts the failover looks for.\<close>

theorem server_errors_never_fail_over:
  assumes "curl_ready W" and "streaming self" and "500 \<le> st"
    and "\<And>rq w. perform W rq w = (down_outcome st, w)"
  shows "\<exists>es. openai_chat_complete W self m t w = Some (empty_stream_reply st, es, w) \<and>
    (\<forall>rq. Sent rq \<in> set es \<longrightarrow> rq = gateway_request W self m t False)"
proof -
  obtain es where es: "openai_chat_complete_inner W self m t False w = Some (empty_stream_reply st, es, w)"
    "openai_chat_complete W self m t w = Some (empty_stream_reply st, es, w)"
    using down_chat[OF assms, of m t False w] by blast
  show ?thesis
    using es(2) attempts_sent_same[OF es(1)[unfolded openai_chat_complete_inner_def]] by blast
qed

theorem server_errors_never_fail_over_witness:
  "fallback_ready sample_config \<and> \<not> same_provider sample_config \<and>
   (\<exists>es. openai_chat_complete (down_network 503) sample_config (JSON_ARRAY []) None () =
      Some (empty_stream_reply 503, es, ()))"
  using sample_facts(1,2) server_errors_never_fail_over[OF sample_facts(3,4,5,6), of "JSON_ARRAY []" None "()"] by blast

end
