(* ===== verification/TelegramRender.thy ===== *)
theory TelegramRender
  imports Prelude
begin

text \<open>
  \<open>telegram_render.c\<close>: the translation of markdown into the HTML subset Telegram accepts. The
  output buffer is a list of pieces: an opening tag, a closing tag, or text that has been escaped;
  \<open>piece_text\<close> gives the bytes the code appends for each. A line is given without its line feed;
  lengths and offsets into it are those of the code.
\<close>

section \<open>Pieces\<close>

datatype piece = Open cstr | Close cstr | Text cstr

fun piece_text :: "piece \<Rightarrow> cstr" where
  "piece_text (Open t) = ''<'' @ t @ ''>''"
| "piece_text (Close t) = ''</'' @ t @ ''>''"
| "piece_text (Text s) = s"

definition html_escape :: "char \<Rightarrow> cstr" where
  "html_escape c =
     (if c = CHR ''&'' then ''&amp;'' else if c = CHR ''<'' then ''&lt;''
      else if c = CHR ''>'' then ''&gt;'' else [c])"

definition buf_add_escaped :: "cstr \<Rightarrow> piece list" where
  "buf_add_escaped s = map (\<lambda>c. Text (html_escape c)) s"

definition bullet :: cstr where "bullet = [CHR 0xE2, CHR 0x80, CHR 0xA2, CHR '' '']"

definition skip_ws_n :: "cstr \<Rightarrow> nat" where
  "skip_ws_n s = length (takeWhile isspace s)"

section \<open>Inline markup\<close>

fun inline_loop :: "bool \<Rightarrow> bool \<Rightarrow> cstr \<Rightarrow> piece list" where
  "inline_loop bold code [] = (if bold then [Close ''b''] else []) @ (if code then [Close ''code''] else [])"
| "inline_loop bold code (c # s) =
     (if \<not> code \<and> c = CHR ''*'' \<and> s \<noteq> [] \<and> hd s = CHR ''*''
      then (if bold then Close ''b'' else Open ''b'') # inline_loop (\<not> bold) code (tl s)
      else if c = BQ
      then (if code then Close ''code'' else Open ''code'') # inline_loop bold (\<not> code) s
      else Text (html_escape c) # inline_loop bold code s)"

definition render_inline :: "cstr \<Rightarrow> nat \<Rightarrow> piece list" where
  "render_inline line lead =
     (if lead + 1 < length line \<and> line ! lead = CHR ''-'' \<and>
         (line ! (lead + 1) = CHR '' '' \<or> line ! (lead + 1) = TAB)
      then Text (take lead line) # Text bullet # inline_loop False False (lskip isspace (drop (lead + 1) line))
      else inline_loop False False (drop lead line))"

section \<open>Tables\<close>

definition MAX_COLS :: nat where "MAX_COLS = 8"
definition MAX_CELL :: nat where "MAX_CELL = 160"

fun split_bar :: "cstr \<Rightarrow> cstr \<Rightarrow> cstr list" where
  "split_bar cell [] = [cell]"
| "split_bar cell (c # s) = (if c = CHR ''|'' then cell # split_bar [] s else split_bar (cell @ [c]) s)"

definition split_row :: "cstr \<Rightarrow> cstr list" where
  "split_row line =
     (let row = lskip isspace (rskip isspace line);
          row = (if row \<noteq> [] \<and> hd row = CHR ''|'' then tl row else row);
          cells = map (\<lambda>s. take (MAX_CELL - 1) (rskip isspace (lskip isspace s))) (take MAX_COLS (split_bar [] row)) in
      if cells \<noteq> [] \<and> last cells = [] then butlast cells else cells)"

definition is_separator_row :: "cstr \<Rightarrow> bool" where
  "is_separator_row line \<longleftrightarrow>
     list_all (\<lambda>c. c = CHR ''-'' \<or> c = CHR ''|'' \<or> c = CHR '':'' \<or> isspace c) line \<and> CHR ''-'' \<in> set line"

definition render_cell :: "bool \<Rightarrow> nat \<times> cstr \<Rightarrow> piece list" where
  "render_cell labelled p =
     (case p of (i, cell) \<Rightarrow>
        let label = (i = 0 \<and> labelled) in
        (if i > 0 then [Text [CHR '' '', CHR 0xC2, CHR 0xB7, CHR '' '']] else []) @
        (if label then [Open ''b''] else []) @ render_inline cell 0 @ (if label then [Close ''b''] else []))"

definition render_row :: "cstr list \<Rightarrow> cstr list \<Rightarrow> piece list" where
  "render_row headers cells =
     Text bullet # concat (map (render_cell (headers \<noteq> [] \<and> hd headers \<noteq> [])) (zip [0..<length cells] cells))
       @ [Text [LF]]"

section \<open>Documents\<close>

definition first_line :: "cstr \<Rightarrow> cstr" where
  "first_line p = takeWhile (\<lambda>c. c \<noteq> LF) p"

definition after_line :: "cstr \<Rightarrow> cstr" where
  "after_line p = drop (length (first_line p) + 1) p"

lemma after_line_shorter [simp]: "p \<noteq> [] \<Longrightarrow> length (after_line p) < length p"
  by (cases p) (simp_all add: after_line_def)

lemma after_line_le [simp]: "length (after_line p) \<le> length p"
  by (simp add: after_line_def)

definition render_heading :: "cstr \<Rightarrow> piece list" where
  "render_heading trimmed =
     Open ''b'' # render_inline (rskip isspace (lskip isspace (dropWhile (\<lambda>c. c = CHR ''#'') trimmed))) 0
       @ [Close ''b'', Text [LF]]"

definition is_rule :: "cstr \<Rightarrow> bool" where
  "is_rule trimmed \<longleftrightarrow> trimmed = ''---'' \<or> trimmed = ''***'' \<or> trimmed = ''___''"

text \<open>\<open>trimmed\<close> is the line between \<open>lead\<close> and \<open>lead + tlen\<close>.\<close>

function render_doc :: "bool \<Rightarrow> bool \<Rightarrow> cstr list \<Rightarrow> cstr \<Rightarrow> piece list" where
  "render_doc in_table in_fence headers p =
     (if p = [] then (if in_fence then [Close ''pre'', Text [LF]] else [])
      else let line = first_line p; next = after_line p; lead = skip_ws_n line;
               trimmed = rskip isspace (drop lead line) in
        if has_prefix [BQ, BQ, BQ] trimmed then
          (if \<not> in_fence then Open ''pre'' # render_doc False True headers next
           else Close ''pre'' # Text [LF] # render_doc False False headers next)
        else if in_fence then
          buf_add_escaped (rskip isspace line) @ Text [LF] # render_doc in_table in_fence headers next
        else if \<not> in_table \<and> trimmed \<noteq> [] \<and> hd trimmed = CHR ''|'' \<and> next \<noteq> [] \<and>
                is_separator_row (lskip isspace (first_line next))
        then render_doc True in_fence (split_row trimmed) (after_line next)
        else if in_table \<and> trimmed \<noteq> [] \<and> hd trimmed = CHR ''|''
        then render_row headers (split_row trimmed) @ render_doc in_table in_fence headers next
        else if trimmed \<noteq> [] \<and> hd trimmed = CHR ''#''
        then render_heading trimmed @ render_doc False in_fence headers next
        else if is_rule trimmed then render_doc False in_fence headers next
        else render_inline (rskip isspace line) lead @ Text [LF] # render_doc False in_fence headers next)"
  by pat_completeness auto
termination
proof (relation "measure (\<lambda>(t, f, h, p). length p)", goal_cases)
  case (5 t f h p)
  then show ?case using le_less_trans[OF after_line_le after_line_shorter[of p]] by simp
qed auto

declare render_doc.simps [simp del]

definition telegram_render_html :: "cstr option \<Rightarrow> cstr option" where
  "telegram_render_html markdown =
     (case markdown of None \<Rightarrow> None
      | Some md \<Rightarrow> Some (concat (map piece_text (render_doc False False [] md))))"

section \<open>Balance\<close>

text \<open>Opening minus closing tags; and text that opens or closes nothing.\<close>

fun tag_weight :: "cstr \<Rightarrow> piece \<Rightarrow> int" where
  "tag_weight t (Open u) = (if t = u then 1 else 0)"
| "tag_weight t (Close u) = (if t = u then -1 else 0)"
| "tag_weight t (Text s) = 0"

definition weight :: "cstr \<Rightarrow> piece list \<Rightarrow> int" where
  "weight t ps = sum_list (map (tag_weight t) ps)"

fun piece_ok :: "piece \<Rightarrow> bool" where
  "piece_ok (Text s) = (CHR ''<'' \<notin> set s \<and> CHR ''>'' \<notin> set s)"
| "piece_ok (Open t) = (t \<in> {''b'', ''code'', ''pre''})"
| "piece_ok (Close t) = (t \<in> {''b'', ''code'', ''pre''})"

definition all_ok :: "piece list \<Rightarrow> bool" where
  "all_ok ps = list_all piece_ok ps"

lemma weight_simps [simp]:
  "weight t [] = 0" "weight t (p # ps) = tag_weight t p + weight t ps"
  "weight t (ps @ qs) = weight t ps + weight t qs"
  by (simp_all add: weight_def)

lemma all_ok_simps [simp]:
  "all_ok []" "all_ok (p # ps) \<longleftrightarrow> piece_ok p \<and> all_ok ps" "all_ok (ps @ qs) \<longleftrightarrow> all_ok ps \<and> all_ok qs"
  by (simp_all add: all_ok_def)

lemma html_escape_ok [simp]: "CHR ''<'' \<notin> set (html_escape c) \<and> CHR ''>'' \<notin> set (html_escape c)"
  by (simp add: html_escape_def)

lemma escaped_ok [simp]: "weight t (buf_add_escaped s) = 0" "all_ok (buf_add_escaped s)"
  by (induction s) (simp_all add: buf_add_escaped_def)

lemma inline_loop_ok:
  "weight t (inline_loop bold code s) =
     (if bold \<and> t = ''b'' then -1 else 0) + (if code \<and> t = ''code'' then -1 else 0) \<and>
   all_ok (inline_loop bold code s)"
  by (induction bold code s rule: inline_loop.induct) auto

lemma render_inline_ok:
  assumes "\<forall>c \<in> set (take lead line). c \<noteq> CHR ''<'' \<and> c \<noteq> CHR ''>''"
  shows "weight t (render_inline line lead) = 0 \<and> all_ok (render_inline line lead)"
  using assms inline_loop_ok[of t False False] by (auto simp: render_inline_def bullet_def)

lemma render_row_ok: "weight t (render_row headers cells) = 0 \<and> all_ok (render_row headers cells)"
proof -
  have c: "weight t (render_cell l p) = 0 \<and> all_ok (render_cell l p)" for l p
    using render_inline_ok[of 0 "snd p" t] by (auto simp: render_cell_def Let_def split: prod.splits)
  have "weight t (concat (map (render_cell l) ps)) = 0 \<and> all_ok (concat (map (render_cell l) ps))" for l ps
    by (induction ps) (auto simp: c)
  then show ?thesis by (simp add: render_row_def bullet_def)
qed

lemma render_heading_ok: "weight t (render_heading s) = 0 \<and> all_ok (render_heading s)"
  using render_inline_ok[of 0 _ t] by (simp add: render_heading_def)

lemma lead_space: "c \<in> set (take (skip_ws_n line) (rskip isspace line)) \<Longrightarrow> isspace c"
proof -
  assume c: "c \<in> set (take (skip_ws_n line) (rskip isspace line))"
  obtain u where u: "line = rskip isspace line @ u" using rskip_append_tail by blast
  have "take (skip_ws_n line) (rskip isspace line @ u) = takeWhile isspace line"
    unfolding skip_ws_n_def u [symmetric] by (metis append_eq_conv_conj takeWhile_dropWhile_id)
  moreover have "set (take (skip_ws_n line) (rskip isspace line)) \<subseteq>
      set (take (skip_ws_n line) (rskip isspace line @ u))" by auto
  ultimately show "isspace c" using c by (auto dest: set_takeWhileD)
qed

lemma render_line_ok:
  "weight t (render_inline (rskip isspace line) (skip_ws_n line)) = 0 \<and>
   all_ok (render_inline (rskip isspace line) (skip_ws_n line))"
  by (rule render_inline_ok) (auto dest!: lead_space simp: isspace_def byte_def)

definition doc_ok :: "cstr \<Rightarrow> bool \<Rightarrow> piece list \<Rightarrow> bool" where
  "doc_ok t in_fence ps \<longleftrightarrow> weight t ps = (if in_fence \<and> t = ''pre'' then -1 else 0) \<and> all_ok ps"

lemma doc_ok_if: "(b \<Longrightarrow> doc_ok t f x) \<Longrightarrow> (\<not> b \<Longrightarrow> doc_ok t f y) \<Longrightarrow> doc_ok t f (if b then x else y)"
  by simp

lemma doc_ok_parts:
  "weight t xs = 0 \<and> all_ok xs \<Longrightarrow> doc_ok t f ys \<Longrightarrow> doc_ok t f (xs @ ys)"
  "doc_ok t f ys \<Longrightarrow> doc_ok t f (Text [LF] # ys)"
  "doc_ok t True ys \<Longrightarrow> \<not> f \<Longrightarrow> doc_ok t f (Open ''pre'' # ys)"
  "doc_ok t False ys \<Longrightarrow> \<not> \<not> f \<Longrightarrow> doc_ok t f (Close ''pre'' # ys)"
  by (auto simp: doc_ok_def)

lemma escaped_part: "weight t (buf_add_escaped s) = 0 \<and> all_ok (buf_add_escaped s)"
  by simp

lemma render_doc_ok: "doc_ok t in_fence (render_doc in_table in_fence headers p)"
proof (induction in_table in_fence headers p rule: render_doc.induct)
  case (1 in_table in_fence headers p)
  show ?case
  proof (cases "p = []")
    case True
    then show ?thesis by (simp add: render_doc.simps[of _ _ _ "[]"] doc_ok_def)
  next
    case False
    note IH = "1.IH"[OF False refl refl refl refl]
    show ?thesis
      unfolding render_doc.simps[of in_table in_fence headers p] Let_def if_not_P[OF False]
      by (intro doc_ok_if doc_ok_parts escaped_part render_row_ok render_heading_ok render_line_ok;
          (assumption | (rule IH, assumption+)))
  qed
qed

section \<open>Nesting\<close>

text \<open>The stack of open tags, as an HTML parser keeps it; \<open>None\<close> when a closing tag does not
  match, in which case Telegram rejects the whole message.\<close>

fun nest :: "cstr list \<Rightarrow> piece list \<Rightarrow> cstr list option" where
  "nest st [] = Some st"
| "nest st (Open t # ps) = nest (t # st) ps"
| "nest st (Close t # ps) = (case st of [] \<Rightarrow> None | u # st' \<Rightarrow> if u = t then nest st' ps else None)"
| "nest st (Text s # ps) = nest st ps"

text \<open>Which of bold and code are still open at the end of a line.\<close>

fun inline_end :: "bool \<Rightarrow> bool \<Rightarrow> cstr \<Rightarrow> bool \<times> bool" where
  "inline_end bold code [] = (bold, code)"
| "inline_end bold code (c # s) =
     (if \<not> code \<and> c = CHR ''*'' \<and> s \<noteq> [] \<and> hd s = CHR ''*'' then inline_end (\<not> bold) code (tl s)
      else if c = BQ then inline_end bold (\<not> code) s
      else inline_end bold code s)"

lemma nest_inline:
  "nest ((if code then [''code''] else []) @ (if bold then [''b''] else []) @ st) (inline_loop bold code s) =
     (if inline_end bold code s = (True, True) then None else Some st)"
proof (induction bold code s rule: inline_loop.induct)
  case (2 bold code c s)
  then show ?case by (cases bold; cases code) (auto split: if_splits)
qed auto

section \<open>Properties\<close>

text \<open>C14: Whatever the agent writes, the HTML has as many closing as opening tags of each kind, also
  when fences and toggles are left open, and every angle bracket in it belongs to a bold, code or
  pre tag of the renderer: the text itself cannot introduce markup.\<close>

theorem render_balanced_and_escaped:
  "let ps = render_doc False False [] md in
     telegram_render_html (Some md) = Some (concat (map piece_text ps)) \<and>
     length (filter (\<lambda>p. p = Open t) ps) = length (filter (\<lambda>p. p = Close t) ps) \<and>
     list_all piece_ok ps"
proof -
  have w: "weight t ps = int (length (filter (\<lambda>p. p = Open t) ps)) - int (length (filter (\<lambda>p. p = Close t) ps))"
    for ps
  proof (induction ps)
    case (Cons p ps)
    then show ?case by (cases p) auto
  qed simp
  show ?thesis
    using render_doc_ok[of t False False "[]" md] w[of "render_doc False False [] md"]
    by (simp add: telegram_render_html_def all_ok_def doc_ok_def)
qed

text \<open>Balanced is not nested: a line that leaves both a bold and a code toggle open is closed in
  the order it was opened, so that the tags cross and Telegram rejects the message; every other
  line is nested properly.\<close>

theorem inline_nesting_exact:
  "nest st (inline_loop False False line) =
     (if inline_end False False line = (True, True) then None else Some st)"
  using nest_inline[of False False st line] by simp

end
