(* ===== verification/JsonInt.thy ===== *)
theory JsonInt
  imports MiniJson CInt
begin

text \<open>
  Integers in JSON. The program sends ids, positions and sizes as JSON numbers, that is as doubles
  printed with seventeen significant digits; below \<open>2 ^ 53\<close> the text is the plain decimal, and it
  reads back as the same double.
\<close>

section \<open>Digits\<close>

lemma pow10_less: "(10::nat) ^ a < 10 ^ b \<Longrightarrow> a < b"
  by (rule power_less_imp_less_exp[of 10]) simp_all

lemma dec_digit_0: "dec_digit 0 = CHR ''0''"
  by code_simp

lemma ndigits_pos: "0 < ndigits n"
  by (simp add: ndigits.simps[of n])

lemma ndigits_bounds: "0 < n \<Longrightarrow> 10 ^ (ndigits n - 1) \<le> n \<and> n < 10 ^ ndigits n"
proof (induction n rule: ndigits.induct)
  case (1 n)
  show ?case
  proof (cases "n < 10")
    case True
    then show ?thesis using 1(2) by (simp add: ndigits.simps[of n])
  next
    case False
    define k where "k = ndigits (n div 10)"
    have i: "10 ^ (k - 1) \<le> n div 10 \<and> n div 10 < 10 ^ k" using False 1 by (simp add: k_def)
    have k: "0 < k" by (simp add: k_def ndigits_pos)
    have nd: "ndigits n = Suc k" using False by (simp add: ndigits.simps[of n] k_def)
    have "10 * 10 ^ (k - 1) \<le> 10 * (n div 10)" using i by simp
    also have "\<dots> \<le> n" by simp
    finally have "10 * 10 ^ (k - 1) \<le> n" .
    moreover have "10 * 10 ^ (k - 1) = (10::nat) ^ k" using k by (cases k) simp_all
    ultimately have lo: "10 ^ k \<le> n" by simp
    have "n < 10 * 10 ^ k" using i div_less_iff_less_mult[of 10 n "10 ^ k"] by (simp add: mult.commute)
    with lo show ?thesis by (simp add: nd)
  qed
qed

lemma ndigits_unique: "10 ^ j \<le> n \<Longrightarrow> n < 10 ^ Suc j \<Longrightarrow> ndigits n = Suc j"
proof -
  assume a: "10 ^ j \<le> n" "n < 10 ^ Suc j"
  then have n: "0 < n" using le_less_trans[of 0 "10 ^ j - 1" n] by (metis gr0I leD zero_less_numeral zero_less_power)
  note b = ndigits_bounds[OF n]
  have "(10::nat) ^ (ndigits n - 1) < 10 ^ Suc j" using b a(2) by linarith
  then have "ndigits n - 1 < Suc j" by (rule pow10_less)
  moreover have "(10::nat) ^ j < 10 ^ ndigits n" using b a(1) by linarith
  then have "j < ndigits n" by (rule pow10_less)
  ultimately show ?thesis by simp
qed

lemma length_dec_text: "length (dec_text n) = ndigits n"
  by (induction n rule: dec_text.induct) (simp add: dec_text.simps ndigits.simps)

lemma dec_text_shift: "0 < n \<Longrightarrow> dec_text (n * 10 ^ k) = dec_text n @ replicate k (CHR ''0'')"
proof (induction k)
  case (Suc k)
  have "dec_text (n * 10 ^ Suc k) = dec_text (n * 10 ^ k) @ [CHR ''0'']"
    using Suc.prems by (subst dec_text.simps) (simp add: dec_digit_0)
  with Suc show ?case by (simp add: replicate_append_same)
qed simp

section \<open>Printing an integer with seventeen digits\<close>

lemma leading_exponent:
  assumes "0 < n" "0 < q"
  shows "(let dl = int (ndigits (n * q)) - int (ndigits q) in
      case scale10 (n * q) q dl of (a, b) \<Rightarrow> if a \<ge> b then dl else dl - 1) = int (ndigits n) - 1"
proof -
  define P where "P = ndigits (n * q)"
  define Q where "Q = ndigits q"
  have P: "10 ^ (P - 1) \<le> n * q" "n * q < 10 ^ P" "0 < P"
    using ndigits_bounds[of "n * q"] assms ndigits_pos by (simp_all add: P_def)
  have Q: "10 ^ (Q - 1) \<le> q" "q < 10 ^ Q" "0 < Q"
    using ndigits_bounds[of q] assms ndigits_pos by (simp_all add: Q_def)
  have "q \<le> n * q" using assms by simp
  then have "(10::nat) ^ (Q - 1) < 10 ^ P" using P Q by linarith
  then have "Q - 1 < P" by (rule pow10_less)
  then obtain k where k: "P = Q + k" using Q(3) by (metis Suc_pred' le_iff_add not_less_eq not_le less_or_eq_imp_le)
  have s: "scale10 (n * q) q (int P - int Q) = (n * q, q * 10 ^ k)" by (simp add: scale10_def k)
  have up: "n < 10 ^ Suc k"
  proof (rule ccontr)
    assume "\<not> n < 10 ^ Suc k"
    then have "10 ^ Suc k * 10 ^ (Q - 1) \<le> n * q" using Q(1) mult_le_mono by (simp add: not_less)
    moreover have "Suc k + (Q - 1) = P" using Q(3) k by simp
    ultimately show False using P(2) by (metis leD power_add)
  qed
  show ?thesis
  proof (cases "q * 10 ^ k \<le> n * q")
    case True
    then have "10 ^ k \<le> n" using assms(2) by (simp add: mult.commute)
    then have "ndigits n = Suc k" using up by (rule ndigits_unique)
    with True s show ?thesis by (simp add: Let_def P_def[symmetric] Q_def[symmetric] k)
  next
    case False
    then have n: "n < 10 ^ k" using assms(2) by (simp add: mult.commute not_le)
    with assms(1) obtain j where j: "k = Suc j" by (cases k) auto
    have "10 ^ j \<le> n"
    proof (rule ccontr)
      assume "\<not> 10 ^ j \<le> n"
      then have "n * q \<le> 10 ^ j * q" by simp
      also have "\<dots> < 10 ^ j * 10 ^ Q" using Q(2) by simp
      also have "\<dots> = 10 ^ (P - 1)" using k j by (simp add: power_add mult.commute)
      finally show False using P(1) by simp
    qed
    then have "ndigits n = Suc j" using n j by (simp add: ndigits_unique)
    with False s show ?thesis by (simp add: Let_def P_def[symmetric] Q_def[symmetric] k j)
  qed
qed

lemma dec17_integer:
  assumes "0 < n" "0 < q" "n < 10 ^ 17"
  shows "dec17 (n * q) q = (n * 10 ^ (17 - ndigits n), int (ndigits n) - 1)"
proof -
  define j where "j = ndigits n - 1"
  have j: "ndigits n = Suc j" "10 ^ j \<le> n" "n < 10 ^ Suc j"
    using ndigits_pos[of n] ndigits_bounds[OF assms(1)] by (simp_all add: j_def)
  have "(10::nat) ^ j < 10 ^ 17" using j(2) assms(3) by linarith
  then have "j < 17" by (rule pow10_less)
  then have jl: "j \<le> 16" by simp
  have x: "(case scale10 (n * q) q (int (ndigits (n * q)) - int (ndigits q)) of
      (a, b) \<Rightarrow> if a \<ge> b then int (ndigits (n * q)) - int (ndigits q) else int (ndigits (n * q)) - int (ndigits q) - 1) = int j"
    using leading_exponent[OF assms(1,2)] by (simp add: Let_def j(1))
  have s: "scale10 (n * q) q (int j - 16) = (n * q * 10 ^ (16 - j), q)"
  proof (cases "j = 16")
    case False
    then have "nat (16 - int j) = 16 - j" by simp
    with False jl show ?thesis by (simp add: scale10_def)
  qed (simp add: scale10_def)
  have r: "round_half_even (n * q * 10 ^ (16 - j)) q = n * 10 ^ (16 - j)"
    using assms(2) by (simp add: round_half_even_def Let_def mult.commute mult.left_commute)
  have "n * 10 ^ (16 - j) < 10 ^ Suc j * 10 ^ (16 - j)" using j(3) by simp
  also have "\<dots> = 10 ^ 17" using jl by (simp flip: power_add)
  finally have d: "n * 10 ^ (16 - j) \<noteq> 10 ^ 17" by simp
  show ?thesis
    unfolding dec17_def Let_def x s prod.case r using d by (simp add: j(1))
qed

lemma fmt_g17_nat:
  assumes "n < 2 ^ 53"
  shows "fmt_g17 (double_of_nat n) = dec_text n"
proof (cases "n = 0")
  case True
  then show ?thesis by (simp add: double_of_nat_def round_double_def fmt_g17_def dec_text.simps dec_digit_0)
next
  case False
  then have n: "0 < n" by simp
  obtain k where k: "double_of_nat n = DFin False (n * 2 ^ k) (- int k)" using double_of_nat_exact[OF assms] by blast
  have n17: "n < 10 ^ 17" using assms by simp
  have nl: "ndigits n \<le> 17"
  proof -
    have "(10::nat) ^ (ndigits n - 1) < 10 ^ 17" using ndigits_bounds[OF n] n17 by linarith
    then have "ndigits n - 1 < 17" by (rule pow10_less)
    then show ?thesis by simp
  qed
  have s: "scale2 (n * 2 ^ k) 1 (- (- int k)) = (n * 2 ^ k, 2 ^ k)" by (simp add: scale2_def)
  have d: "dec17 (n * 2 ^ k) (2 ^ k) = (n * 10 ^ (17 - ndigits n), int (ndigits n) - 1)"
    by (rule dec17_integer[OF n _ n17]) simp
  have t: "dec_text (n * 10 ^ (17 - ndigits n)) = dec_text n @ replicate (17 - ndigits n) (CHR ''0'')"
    by (rule dec_text_shift[OF n])
  have p: "Suc (nat (int (ndigits n) - 1)) = ndigits n" using ndigits_pos[of n] by simp
  have z: "strip_zeros (replicate m (CHR ''0'')) = []" for m
    by (simp add: strip_zeros_def rskip_def dropWhile_eq_Nil_conv)
  have "g17_digits (dec_text n @ replicate (17 - ndigits n) (CHR ''0'')) (int (ndigits n) - 1) = dec_text n"
    using nl ndigits_pos[of n] p by (simp add: g17_digits_def with_point_def length_dec_text z)
  then show ?thesis using n s by (simp add: fmt_g17_def k d t)
qed

lemma number_text_nat: "n < 2 ^ 53 \<Longrightarrow> number_text (double_of_nat n) = dec_text n"
proof -
  assume n: "n < 2 ^ 53"
  have "length (dec_text n) \<le> 63"
  proof (cases "n = 0")
    case True
    then show ?thesis by (simp add: dec_text.simps)
  next
    case False
    then have "(10::nat) ^ (ndigits n - 1) \<le> n" using ndigits_bounds[of n] by simp
    also have "\<dots> < 10 ^ 17" using n by simp
    finally have "(10::nat) ^ (ndigits n - 1) < 10 ^ 17" .
    then have "ndigits n - 1 < 17" by (rule pow10_less)
    then show ?thesis by (simp add: length_dec_text)
  qed
  then show ?thesis by (simp add: number_text_def fmt_g17_nat[OF n])
qed

section \<open>Reading it back\<close>

lemma dec_text_all_digits: "\<forall>c \<in> set (dec_text n). isdigit c"
proof -
  have "list_all isdigit ''0123456789''" by code_simp
  then show ?thesis using dec_text_digits[of n] unfolding list_all_iff by blast
qed

lemma strtod_dec_text: "strtod (dec_text n) = Some (double_of_nat n, [])"
proof -
  obtain c t where ct: "dec_text n = c # t" using dec_text_digits[of n] by (cases "dec_text n") auto
  have c: "isdigit c" using dec_text_all_digits[of n] ct by simp
  have chars: "list_all (\<lambda>c. \<not> isspace c \<and> c \<noteq> CHR ''-'' \<and> c \<noteq> CHR ''+'' \<and> tolower c \<noteq> CHR ''i'' \<and> tolower c \<noteq> CHR ''n'' \<and>
      tolower c \<noteq> CHR ''x'') ''0123456789''" by code_simp
  have all: "\<forall>c \<in> set (dec_text n). \<not> isspace c \<and> c \<noteq> CHR ''-'' \<and> c \<noteq> CHR ''+'' \<and> tolower c \<noteq> CHR ''i'' \<and>
      tolower c \<noteq> CHR ''n'' \<and> tolower c \<noteq> CHR ''x''"
    using chars dec_text_digits[of n] unfolding list_all_iff by blast
  have sp: "dropWhile isspace (dec_text n) = dec_text n" using all ct by simp
  have sg: "split_sign (dec_text n) = (False, dec_text n)" using all ct by (simp add: split_sign_def)
  have ci: "ci_lit ''infinity'' (dec_text n) = None" "ci_lit ''inf'' (dec_text n) = None" "ci_lit ''nan'' (dec_text n) = None"
    "ci_lit ''0x'' (dec_text n) = None"
    using all ct by (cases t; auto simp: ci_lit_def)+
  have tw: "takeWhile isdigit (dec_text n) = dec_text n" "dropWhile isdigit (dec_text n) = []"
    using dec_text_all_digits by (simp_all add: takeWhile_eq_all_conv dropWhile_eq_Nil_conv)
  have m: "scan_mantissa isdigit (dec_text n) = (dec_text n, [], [])" by (simp add: scan_mantissa_def tw Let_def)
  show ?thesis
    unfolding strtod_def Let_def sp sg prod.case ci option.case strtod_dec_def m
    using dec_text_digits[of n] by (simp add: scan_exp_def scale10_def digits_dec_text double_of_nat_def)
qed

lemma reads_back_nat [simp]: "n < 2 ^ 53 \<Longrightarrow> reads_back (double_of_nat n)"
  by (simp add: reads_back_def number_text_nat strtod_dec_text)

lemma int_double_of_nat [simp]: "n < 2 ^ 31 \<Longrightarrow> int_of_double (double_of_nat n) = Some (int n)"
proof -
  assume n: "n < 2 ^ 31"
  then obtain k where k: "double_of_nat n = DFin False (n * 2 ^ k) (- int k)"
    using double_of_nat_exact[of n] by auto
  have "trunc_nat (n * 2 ^ k) (- int k) = n" by (cases "k = 0") (simp_all add: trunc_nat_def)
  with k n show ?thesis by (simp add: int_of_double_def)
qed

lemma double_of_int_nat [simp]: "double_of_int (int n) = double_of_nat n"
  by (simp add: double_of_int_def double_of_nat_def)

lemma int_of_double_0 [simp]: "int_of_double (double_of_int 0) = Some 0"
  using int_double_of_nat[of 0] double_of_int_nat[of 0] by simp

section \<open>Serialised text has no line feed\<close>

text \<open>
  The line-oriented transports rely on this: a serialised value never contains the byte that ends
  a message.
\<close>

definition line_end :: "char \<Rightarrow> bool" where
  "line_end c \<longleftrightarrow> c = LF \<or> c = CR"

lemma hex_digit_plain: "n < 16 \<Longrightarrow> \<not> line_end (hex_digit n) \<and> hex_digit n \<noteq> NUL"
proof -
  have h: "list_all (\<lambda>n. \<not> line_end (hex_digit n) \<and> hex_digit n \<noteq> NUL) [0..<16]" by code_simp
  then show "n < 16 \<Longrightarrow> ?thesis" by (simp add: list_all_iff)
qed

lemma escape_char_one_line: "x \<in> set (escape_char c) \<Longrightarrow> \<not> line_end x"
  and escape_char_no_nul: "c \<noteq> NUL \<Longrightarrow> NUL \<notin> set (escape_char c)"
proof -
  have "byte c div 16 < 16" using byte_lt[of c] by (simp add: less_mult_imp_div_less del: byte_lt)
  then have h: "\<not> line_end (hex_digit (byte c div 16))" "hex_digit (byte c div 16) \<noteq> NUL"
      "\<not> line_end (hex_digit (byte c mod 16))" "hex_digit (byte c mod 16) \<noteq> NUL"
    using hex_digit_plain by auto
  show "x \<in> set (escape_char c) \<Longrightarrow> \<not> line_end x" using h by (auto simp: escape_char_def line_end_def split: if_splits)
  show "c \<noteq> NUL \<Longrightarrow> NUL \<notin> set (escape_char c)" using h by (auto simp: escape_char_def)
qed

lemma number_text_plain: "(\<forall>x \<in> set (number_text n). \<not> line_end x) \<and> NUL \<notin> set (number_text n)"
proof -
  have "\<forall>c \<in> set (number_text n). number_char c" using numeric_number_text[of n] by (simp add: numeric_def)
  moreover have "\<not> number_char LF" "\<not> number_char CR" "\<not> number_char NUL" by code_simp+
  ultimately show ?thesis unfolding line_end_def by blast
qed

lemma escape_char_no_end: "line_end x \<Longrightarrow> x \<notin> set (escape_char c)"
  using escape_char_one_line by blast

lemma pieces_one_line:
  assumes "line_end x"
  shows "x \<notin> set (concat (json_pieces v))"
    and "x \<notin> set (concat (items_pieces b xs))"
    and "x \<notin> set (concat (members_pieces b' ms))"
proof (induction v and b xs and b' ms rule: json_pieces_items_pieces_members_pieces.induct)
  case (3 n)
  then show ?case using number_text_plain assms by auto
qed (use assms in \<open>simp_all add: quoted_pieces_def escape_char_no_end\<close>, (auto simp: line_end_def)?)

lemma json_text_one_line: "line_end x \<Longrightarrow> x \<notin> set (json_text v)"
  unfolding json_text_def by (rule pieces_one_line(1))

lemma json_text_no_lf: "LF \<notin> set (json_text v)" and json_text_no_cr: "CR \<notin> set (json_text v)"
  using json_text_one_line[of LF v] json_text_one_line[of CR v] by (simp_all add: line_end_def)

lemma quoted_no_nul: "nul_free s \<Longrightarrow> \<forall>p \<in> set (quoted_pieces s). NUL \<notin> set p"
  using escape_char_no_nul by (induction s) (auto simp: quoted_pieces_def)

lemma pieces_no_nul:
  "json_ok v \<Longrightarrow> NUL \<notin> set (concat (json_pieces v))"
  "list_all json_ok xs \<Longrightarrow> NUL \<notin> set (concat (items_pieces b xs))"
  "list_all (\<lambda>(k, v). nul_free k \<and> json_ok v) ms \<Longrightarrow> NUL \<notin> set (concat (members_pieces b' ms))"
proof (induction v and b xs and b' ms rule: json_pieces_items_pieces_members_pieces.induct)
  case (3 n)
  then show ?case using number_text_plain by simp
next
  case (10 first k v ms)
  then have "\<forall>p \<in> set (quoted_pieces k). NUL \<notin> set p" using quoted_no_nul[of k] by simp
  with 10 show ?case by simp
qed (use quoted_no_nul in simp_all)

lemma json_text_no_nul: "json_ok v \<Longrightarrow> nul_free (json_text v)"
  unfolding json_text_def nul_free_def by (rule pieces_no_nul(1))

lemma json_parse_text:
  "json_ok v \<Longrightarrow> jdepth v \<le> JSON_MAX_DEPTH \<Longrightarrow> json_parse (Some (json_text v)) = Some v"
  using parse_json_text[of v 0 "[]"] by (simp add: json_parse_def)

end
