(* ===== verification/TelegramBot.thy ===== *)
theory TelegramBot
  imports ModelAdapter TelegramRender JsonInt
begin

text \<open>
  The Telegram side of the program, \<open>telegram_adapter.c\<close>: requests to the Bot API, sending long texts in
  chunks, the live message that a streamed reply is painted into, turbo mode and the approval
  buttons. The daemon's loop is in the theory TelegramDaemon.

  The Bot API is the network of the model adapter. \<open>telegram_os\<close> adds the clock and the marker file of
  the permanent turbo mode. Signals do not arrive and pauses between messages are left out. A cast of
  an identifier that a \<open>long\<close> cannot hold is \<open>None\<close>.
\<close>

section \<open>Requests\<close>

record TelegramBot =
  bot_token :: cstr
  allowed_chat_id :: cstr
  last_update_id :: int
  running :: bool

record 'w telegram_os = "'w network" +
  tg_now :: "'w \<Rightarrow> int"
  file_there :: "cstr \<Rightarrow> 'w \<Rightarrow> bool"
  put_marker :: "cstr \<Rightarrow> 'w \<Rightarrow> bool \<times> 'w"
  remove_marker :: "cstr \<Rightarrow> 'w \<Rightarrow> bool \<times> 'w"

definition telegram_request :: "'w telegram_os \<Rightarrow> TelegramBot \<Rightarrow> cstr \<Rightarrow> JsonValue \<Rightarrow> http_request" where
  "telegram_request W tb meth payload =
     \<lparr>req_url = Some (take 511
        ((case nonempty (env_var W ''TELEGRAM_API_BASE'') of None \<Rightarrow> ''https://api.telegram.org'' | Some b \<Rightarrow> b) @
         ''/bot'' @ bot_token tb @ ''/'' @ meth)),
      req_agent = [], req_headers = [''Content-Type: application/json''], req_body = json_text payload,
      req_timeout = 8\<rparr>"

definition telegram_http_post ::
    "'w telegram_os \<Rightarrow> TelegramBot \<Rightarrow> cstr \<Rightarrow> JsonValue \<Rightarrow> 'w \<Rightarrow> JsonValue option \<times> 'w" where
  "telegram_http_post W tb meth payload w =
     (if \<not> curl_ready W then (None, w)
      else let (out, w) = perform W (telegram_request W tb meth payload) w in
        (if curl_code out \<noteq> CURLE_OK then None else json_parse (Some (c_string (concat (reply_chunks out)))), w))"

definition reply_ok :: "JsonValue option \<Rightarrow> bool" where
  "reply_ok resp = json_obj_get_bool resp ''ok'' False"

definition zero :: cdouble where "zero = DFin False 0 0"

definition result_message_id :: "JsonValue option \<Rightarrow> cdouble" where
  "result_message_id resp = json_obj_get_num (json_obj_get resp ''result'') ''message_id'' zero"

text \<open>A list of chats separated by blanks and commas; an empty list admits nobody.\<close>

definition telegram_is_authorized :: "TelegramBot \<Rightarrow> cstr \<Rightarrow> bool" where
  "telegram_is_authorized tb chat_id =
     (allowed_chat_id tb \<noteq> [] \<and> list_ex (\<lambda>tok. tok = chat_id) (strtok_all '', '' (allowed_chat_id tb)))"

definition telegram_bot_init :: "cstr option \<Rightarrow> cstr option \<Rightarrow> TelegramBot option" where
  "telegram_bot_init token allowed =
     map_option (\<lambda>t. \<lparr>bot_token = t, allowed_chat_id = (case allowed of None \<Rightarrow> [] | Some a \<Rightarrow> a),
       last_update_id = 0, running = False\<rparr>) (nonempty token)"

section \<open>Messages\<close>

definition html_like :: "cstr \<Rightarrow> bool" where
  "html_like s \<longleftrightarrow> list_ex (\<lambda>t. strstr s t \<noteq> None)
     [''<b>'', ''</b>'', ''<code>'', ''<pre>'', ''<i>'', ''<tg-spoiler>'']"

definition text_payload :: "cstr \<Rightarrow> cstr \<Rightarrow> bool \<Rightarrow> JsonValue" where
  "text_payload chat msg html = JSON_OBJECT ([(''chat_id'', JSON_STRING chat), (''text'', JSON_STRING msg)] @
     (if html then [(''parse_mode'', JSON_STRING ''HTML'')] else []))"

definition edit_payload :: "cstr \<Rightarrow> cdouble \<Rightarrow> cstr \<Rightarrow> bool \<Rightarrow> JsonValue" where
  "edit_payload chat mid msg html = JSON_OBJECT ([(''chat_id'', JSON_STRING chat), (''message_id'', JSON_NUMBER mid),
     (''text'', JSON_STRING msg)] @ (if html then [(''parse_mode'', JSON_STRING ''HTML'')] else []))"

definition telegram_bot_send_message ::
    "'w telegram_os \<Rightarrow> TelegramBot \<Rightarrow> cstr \<Rightarrow> cstr \<Rightarrow> 'w \<Rightarrow> bool \<times> 'w" where
  "telegram_bot_send_message W tb chat msg w =
     (if msg = [] then (False, w)
      else let (resp, w) = telegram_http_post W tb ''sendMessage'' (text_payload chat msg (html_like msg)) w in
        if resp = None then (False, w)
        else if reply_ok resp \<or> \<not> html_like msg then (reply_ok resp, w)
        else let (r2, w) = telegram_http_post W tb ''sendMessage'' (text_payload chat msg False) w in (reply_ok r2, w))"

definition telegram_bot_send_status_message ::
    "'w telegram_os \<Rightarrow> TelegramBot \<Rightarrow> cstr \<Rightarrow> cstr \<Rightarrow> 'w \<Rightarrow> cdouble \<times> 'w" where
  "telegram_bot_send_status_message W tb chat msg w =
     (if msg = [] then (zero, w)
      else let (resp, w) = telegram_http_post W tb ''sendMessage'' (text_payload chat msg False) w in
        (result_message_id resp, w))"

definition telegram_bot_edit_message ::
    "'w telegram_os \<Rightarrow> TelegramBot \<Rightarrow> cstr \<Rightarrow> cdouble \<Rightarrow> cstr \<Rightarrow> 'w \<Rightarrow> bool \<times> 'w" where
  "telegram_bot_edit_message W tb chat mid msg w =
     (if double_le0 mid \<or> msg = [] then (False, w)
      else let (resp, w) = telegram_http_post W tb ''editMessageText'' (edit_payload chat mid msg False) w in
        (reply_ok resp, w))"

definition telegram_bot_delete_message ::
    "'w telegram_os \<Rightarrow> TelegramBot \<Rightarrow> cstr \<Rightarrow> cdouble \<Rightarrow> 'w \<Rightarrow> bool \<times> 'w" where
  "telegram_bot_delete_message W tb chat mid w =
     (if double_le0 mid then (False, w)
      else let (resp, w) = telegram_http_post W tb ''deleteMessage''
             (JSON_OBJECT [(''chat_id'', JSON_STRING chat), (''message_id'', JSON_NUMBER mid)]) w in
        (reply_ok resp, w))"

definition telegram_bot_send_chat_action ::
    "'w telegram_os \<Rightarrow> TelegramBot \<Rightarrow> cstr \<Rightarrow> cstr \<Rightarrow> 'w \<Rightarrow> bool \<times> 'w" where
  "telegram_bot_send_chat_action W tb chat act w =
     (let (resp, w) = telegram_http_post W tb ''sendChatAction''
        (JSON_OBJECT [(''chat_id'', JSON_STRING chat), (''action'', JSON_STRING act)]) w in (reply_ok resp, w))"

definition tg_send_html ::
    "'w telegram_os \<Rightarrow> TelegramBot \<Rightarrow> cstr \<Rightarrow> cstr \<Rightarrow> 'w \<Rightarrow> (bool \<times> cdouble) \<times> 'w" where
  "tg_send_html W tb chat html w =
     (if html = [] then ((False, zero), w)
      else let (resp, w) = telegram_http_post W tb ''sendMessage'' (text_payload chat html True) w in
        ((reply_ok resp, if reply_ok resp then result_message_id resp else zero), w))"

definition tg_edit_html ::
    "'w telegram_os \<Rightarrow> TelegramBot \<Rightarrow> cstr \<Rightarrow> cdouble \<Rightarrow> cstr \<Rightarrow> 'w \<Rightarrow> bool \<times> 'w" where
  "tg_edit_html W tb chat mid html w =
     (if double_le0 mid \<or> html = [] then (False, w)
      else let (resp, w) = telegram_http_post W tb ''editMessageText'' (edit_payload chat mid html True) w in
        (reply_ok resp, w))"

section \<open>Chunks\<close>

definition CHUNK_SIZE :: nat where "CHUNK_SIZE = 3800"

definition continuation :: "char \<Rightarrow> bool" where
  "continuation c \<longleftrightarrow> byte c div 64 = 2"

definition byte_at :: "cstr \<Rightarrow> nat \<Rightarrow> char" where
  "byte_at s n = (if n < length s then s ! n else NUL)"

fun utf8_back_off :: "cstr \<Rightarrow> nat \<Rightarrow> nat" where
  "utf8_back_off s 0 = 0"
| "utf8_back_off s (Suc n) = (if continuation (byte_at s (Suc n)) then utf8_back_off s n else Suc n)"

fun seek_newline :: "cstr \<Rightarrow> nat \<Rightarrow> nat \<Rightarrow> nat \<Rightarrow> nat" where
  "seek_newline s sz win 0 = 0"
| "seek_newline s sz win (Suc n) =
     (if sz - Suc n < win \<and> s ! n \<noteq> LF then seek_newline s sz win n else Suc n)"

definition newline_cut :: "cstr \<Rightarrow> nat \<Rightarrow> nat" where
  "newline_cut s sz =
     (if sz < length s
      then let nl = seek_newline s sz (min 400 sz) sz in (if nl > 0 \<and> s ! (nl - 1) = LF then nl else sz)
      else sz)"

definition chunk_length :: "cstr \<Rightarrow> nat" where
  "chunk_length s =
     (let sz = utf8_back_off s (min CHUNK_SIZE (length s)) in newline_cut s (if sz = 0 then 1 else sz))"

lemma utf8_back_off_le: "utf8_back_off s n \<le> n"
  by (induction n) auto

lemma seek_newline_le: "seek_newline s sz win n \<le> n"
  by (induction n) auto

lemma newline_cut_bounds: "0 < sz \<Longrightarrow> 0 < newline_cut s sz \<and> newline_cut s sz \<le> sz"
  using seek_newline_le[of s sz "min 400 sz" sz] by (simp add: newline_cut_def Let_def)

lemma chunk_length_pos: "0 < chunk_length s"
  using newline_cut_bounds[of _ s] by (simp add: chunk_length_def Let_def)

function text_chunks :: "cstr \<Rightarrow> cstr list" where
  "text_chunks s = (if s = [] then [] else take (chunk_length s) s # text_chunks (drop (chunk_length s) s))"
  by pat_completeness auto
termination
  by (relation "measure length") (simp_all add: chunk_length_pos)

declare text_chunks.simps [simp del]

fun send_all :: "'w telegram_os \<Rightarrow> TelegramBot \<Rightarrow> cstr \<Rightarrow> cstr list \<Rightarrow> 'w \<Rightarrow> bool \<times> 'w" where
  "send_all W tb chat [] w = (True, w)"
| "send_all W tb chat (c # cs) w =
     (let (ok, w) = telegram_bot_send_message W tb chat c w in if ok then send_all W tb chat cs w else (False, w))"

definition telegram_bot_send_chunks ::
    "'w telegram_os \<Rightarrow> TelegramBot \<Rightarrow> cstr \<Rightarrow> cstr \<Rightarrow> 'w \<Rightarrow> bool \<times> 'w" where
  "telegram_bot_send_chunks W tb chat msg w =
     (if length msg \<le> CHUNK_SIZE then telegram_bot_send_message W tb chat msg w
      else send_all W tb chat (text_chunks msg) w)"

definition telegram_bot_send_rich ::
    "'w telegram_os \<Rightarrow> TelegramBot \<Rightarrow> cstr \<Rightarrow> cstr \<Rightarrow> 'w \<Rightarrow> bool \<times> 'w" where
  "telegram_bot_send_rich W tb chat msg w =
     (if msg = [] then (False, w)
      else
        let (sent, w) = (case telegram_render_html (Some msg) of None \<Rightarrow> (False, w)
              | Some html \<Rightarrow> if length html \<le> 3900
                  then let ((ok, _), w) = tg_send_html W tb chat html w in (ok, w) else (False, w)) in
        if sent then (True, w) else telegram_bot_send_chunks W tb chat msg w)"

section \<open>The live message\<close>

record TelegramStream =
  s_chat :: cstr
  s_buf :: cstr
  s_msg_id :: cdouble
  last_edit :: int
  edits :: nat
  disabled :: bool

definition new_live :: "cstr \<Rightarrow> TelegramStream" where
  "new_live chat = \<lparr>s_chat = chat, s_buf = [], s_msg_id = zero, last_edit = 0, edits = 0, disabled = False\<rparr>"

definition paint :: "'w telegram_os \<Rightarrow> TelegramBot \<Rightarrow> cstr \<Rightarrow> TelegramStream \<Rightarrow> 'w \<Rightarrow> TelegramStream \<times> 'w" where
  "paint W tb html s w =
     (let t = tg_now W w in
      if double_is0 (s_msg_id s) then
        let ((ok, mid), w) = tg_send_html W tb (s_chat s) html w in
        (if ok then s\<lparr>s_msg_id := mid, last_edit := t\<rparr> else s\<lparr>disabled := True\<rparr>, w)
      else if t - last_edit s < 1 then (s, w)
      else let (ok, w) = tg_edit_html W tb (s_chat s) (s_msg_id s) html w in
        (s\<lparr>disabled := \<not> ok, last_edit := t, edits := edits s + 1\<rparr>, w))"

definition telegram_stream_cb ::
    "'w telegram_os \<Rightarrow> TelegramBot \<Rightarrow> cstr \<Rightarrow> bool \<Rightarrow> TelegramStream \<Rightarrow> 'w \<Rightarrow> TelegramStream \<times> 'w" where
  "telegram_stream_cb W tb chunk is_reasoning s w =
     (if disabled s \<or> chunk = [] \<or> is_reasoning then (s, w)
      else
        let s = s\<lparr>s_buf := s_buf s @ chunk\<rparr> in
        if length (s_buf s) > 12000 then (s\<lparr>disabled := True\<rparr>, w)
        else case telegram_render_html (Some (s_buf s)) of
          None \<Rightarrow> (s\<lparr>disabled := True\<rparr>, w)
        | Some html \<Rightarrow> if length html > 3500 then (s\<lparr>disabled := True\<rparr>, w) else paint W tb html s w)"

text \<open>The end of a turn: the final text replaces the live message, or is sent anew.\<close>

definition telegram_deliver ::
    "'w telegram_os \<Rightarrow> TelegramBot \<Rightarrow> cstr \<Rightarrow> TelegramStream \<Rightarrow> cstr option \<Rightarrow> 'w \<Rightarrow> 'w" where
  "telegram_deliver W tb chat s final_text w =
     (let live = double_gt0 (s_msg_id s);
          (delivered, w) =
            (case final_text of
               Some t \<Rightarrow>
                 if live then
                   if s_buf s \<noteq> [] \<and> s_buf s = t then (True, w)
                   else (case telegram_render_html (Some t) of
                       Some html \<Rightarrow> if length html \<le> 3900 then tg_edit_html W tb chat (s_msg_id s) html w else (False, w)
                     | None \<Rightarrow> (False, w))
                 else (False, w)
             | None \<Rightarrow> (False, w)) in
      if delivered then w
      else case final_text of
        None \<Rightarrow> snd (telegram_bot_send_message W tb chat ''Action completed.'' w)
      | Some t \<Rightarrow>
        let (sent, w) = telegram_bot_send_rich W tb chat t w in
        if sent \<and> live then snd (telegram_bot_delete_message W tb chat (s_msg_id s) w) else w)"

section \<open>Turbo\<close>

record Turbo =
  turbo_until :: int
  turbo_forever :: bool
  turbo_loaded :: bool

definition turbo_state_path :: "'w telegram_os \<Rightarrow> cstr" where
  "turbo_state_path W = (case nonempty (env_var W ''BELYA_TURBO_FILE'') of None \<Rightarrow> ''/opt/belya/.turbo'' | Some p \<Rightarrow> p)"

definition turbo_state_load :: "'w telegram_os \<Rightarrow> 'w \<Rightarrow> Turbo \<Rightarrow> Turbo" where
  "turbo_state_load W w t =
     (if turbo_loaded t then t
      else t\<lparr>turbo_loaded := True, turbo_forever := turbo_forever t \<or> file_there W (turbo_state_path W) w\<rparr>)"

definition turbo_env :: "'w telegram_os \<Rightarrow> bool" where
  "turbo_env W = (case env_var W ''BELYA_TURBO'' of Some (c # _) \<Rightarrow> c = CHR ''1'' | _ \<Rightarrow> False)"

definition turbo_active :: "'w telegram_os \<Rightarrow> 'w \<Rightarrow> Turbo \<Rightarrow> bool \<times> Turbo" where
  "turbo_active W w t0 =
     (let t = turbo_state_load W w t0 in
      if turbo_forever t \<and> file_there W (turbo_state_path W) w then (True, t)
      else let t = t\<lparr>turbo_forever := False\<rparr> in
        (if turbo_env W then True else turbo_until t > tg_now W w, t))"

definition bolt :: cstr where "bolt = [CHR 0xE2, CHR 0x9A, CHR 0xA1]"
definition dash :: cstr where "dash = [CHR 0xE2, CHR 0x80, CHR 0x94]"

definition turbo_report :: "'w telegram_os \<Rightarrow> 'w \<Rightarrow> Turbo \<Rightarrow> cstr" where
  "turbo_report W w t =
     (let left = turbo_until t - tg_now W w in
      if turbo_forever t
      then bolt @ '' Turbo ON '' @ dash @ '' permanent (survives restarts). ASK gates auto-approve, DENY still blocks.'' @ [LF] @
             ''/turbo off to stop.''
      else if left > 0
      then bolt @ '' Turbo ON '' @ dash @ '' '' @ int_text (left div 60) @
             '' min left. ASK gates auto-approve, DENY still blocks.'' @ [LF] @ ''/turbo on = permanent, /turbo off = stop.''
      else ''Turbo OFF. ASK gates prompt with buttons.'' @ [LF] @ ''/turbo on = permanent, /turbo 30 = 30 min.'')"

definition turbo_minutes :: "cstr \<Rightarrow> int" where
  "turbo_minutes a = (let mins = strtol10 a in if mins \<le> 0 then 30 else if mins > 720 then 720 else mins)"

text \<open>\<open>/turbo\<close> with its argument: the new state and the reply.\<close>

definition turbo_command :: "'w telegram_os \<Rightarrow> cstr \<Rightarrow> Turbo \<Rightarrow> 'w \<Rightarrow> cstr \<times> Turbo \<times> 'w" where
  "turbo_command W arg t0 w =
     (let t = turbo_state_load W w t0; path = turbo_state_path W in
      if arg = [] then (take 319 (turbo_report W w t), t, w)
      else if arg = ''off'' then
        let (gone, w) = remove_marker W path w in
        (''Turbo OFF. Approvals prompt again.'' @ (if gone then [] else '' (no state file to remove)''),
         t\<lparr>turbo_until := 0, turbo_forever := False\<rparr>, w)
      else if arg = ''on'' \<or> arg = ''forever'' then
        let (written, w) = put_marker W path w in
        if \<not> written then (take 319 (''Could not arm permanent turbo: cannot write '' @ path @ ''.''), t, w)
        else (bolt @ '' Turbo ON '' @ dash @ '' permanent, survives restarts. ASK gates auto-approve, DENY still blocks.'' @ [LF] @
                ''/turbo off to stop.'', t\<lparr>turbo_forever := True\<rparr>, w)
      else (bolt @ '' Turbo ON for '' @ int_text (turbo_minutes arg) @ '' min. ASK gates auto-approve, DENY still blocks.'',
            t\<lparr>turbo_until := tg_now W w + turbo_minutes arg * 60\<rparr>, w))"

section \<open>Approval by buttons\<close>

definition escape_quote :: "char \<Rightarrow> cstr" where
  "escape_quote c =
     (if c = CHR ''&'' then ''&amp;'' else if c = CHR ''<'' then ''&lt;'' else if c = CHR ''>'' then ''&gt;''
      else if c = DQ then ''&quot;'' else if c = SQ then ''&#39;'' else [c])"

text \<open>\<open>n\<close> bytes of the output buffer are used; a byte is escaped only while eight more fit.\<close>

fun telegram_html_escape :: "nat \<Rightarrow> nat \<Rightarrow> cstr \<Rightarrow> cstr" where
  "telegram_html_escape out_sz n [] = []"
| "telegram_html_escape out_sz n (c # s) =
     (if n + 8 < out_sz then escape_quote c @ telegram_html_escape out_sz (n + length (escape_quote c)) s else [])"

definition shield :: cstr where "shield = [CHR 0xF0, CHR 0x9F, CHR 0x9B, CHR 0xA1, CHR 0xEF, CHR 0xB8, CHR 0x8F]"
definition tick :: cstr where "tick = [CHR 0xE2, CHR 0x9C, CHR 0x85]"
definition cross :: cstr where "cross = [CHR 0xE2, CHR 0x9D, CHR 0x8C]"
definition no_entry :: cstr where "no_entry = [CHR 0xE2, CHR 0x9B, CHR 0x94]"

definition prompt_text :: "cstr \<Rightarrow> cstr \<Rightarrow> cstr" where
  "prompt_text name args = take 4095 (shield @ '' <b>Security Gate: Authorization Required</b>'' @ [LF, LF] @
     ''<b>Tool:</b> <code>'' @ telegram_html_escape 128 0 name @ ''</code>'' @ [LF] @
     ''<b>Arguments:</b>'' @ [LF] @ ''<code>'' @ telegram_html_escape 1024 0 args @ ''</code>'')"

definition verdict_text :: "cstr \<Rightarrow> cstr \<Rightarrow> bool \<Rightarrow> cstr" where
  "verdict_text name args decision = take 4095 (shield @ '' <b>Security Gate:</b> '' @ telegram_html_escape 128 0 name @ [LF] @
     ''<b>Tool:</b> <code>'' @ telegram_html_escape 1024 0 args @ ''</code>'' @ [LF] @
     ''<b>Decision:</b> '' @ (if decision then tick @ '' <b>APPROVED</b>'' else cross @ '' <b>DENIED</b>''))"

definition button :: "cstr \<Rightarrow> cstr \<Rightarrow> JsonValue" where
  "button label press = JSON_OBJECT [(''text'', JSON_STRING label), (''callback_data'', JSON_STRING press)]"

definition prompt_payload :: "cstr \<Rightarrow> cstr \<Rightarrow> cstr \<Rightarrow> JsonValue" where
  "prompt_payload chat name args = JSON_OBJECT
     [(''chat_id'', JSON_STRING chat), (''text'', JSON_STRING (prompt_text name args)), (''parse_mode'', JSON_STRING ''HTML''),
      (''reply_markup'', JSON_OBJECT [(''inline_keyboard'', JSON_ARRAY [JSON_ARRAY
         [button (tick @ '' Approve'') ''approve'', button (cross @ '' Deny'') ''deny'']])])]"

definition updates_payload :: "TelegramBot \<Rightarrow> int \<Rightarrow> JsonValue" where
  "updates_payload tb wait = JSON_OBJECT
     [(''offset'', JSON_NUMBER (double_of_int (last_update_id tb + 1))), (''timeout'', JSON_NUMBER (double_of_int wait))]"

definition update_id :: "JsonValue \<Rightarrow> int option" where
  "update_id up = long_of_double (json_obj_get_num (Some up) ''update_id'' zero)"

definition received :: "JsonValue option \<Rightarrow> JsonValue list" where
  "received resp = (case json_obj_get resp ''result'' of Some (JSON_ARRAY items) \<Rightarrow> items | _ \<Rightarrow> [])"

definition trim_entry :: "cstr \<Rightarrow> cstr" where
  "trim_entry tok = rskip (\<lambda>c. c = CHR '' '' \<or> c = CR \<or> c = LF) (lskip (\<lambda>c. c = CHR '' '') tok)"

text \<open>Whether a pressed button comes from somebody on the list of allowed chats.\<close>

definition sender_ok :: "TelegramBot \<Rightarrow> JsonValue \<Rightarrow> bool" where
  "sender_ok tb cb =
     (let from_id = json_obj_get_num (json_obj_get (Some cb) ''from'') ''id'' zero in
      double_gt0 from_id \<and> allowed_chat_id tb \<noteq> [] \<and>
      list_ex (\<lambda>tok. trim_entry tok = take 31 (fixed0 from_id)) (strtok_all '','' (allowed_chat_id tb)))"

text \<open>Whether the button belongs to another message than the one that asks; the ids are cast to \<open>long\<close>.\<close>

definition other_message :: "cdouble \<Rightarrow> JsonValue \<Rightarrow> bool option" where
  "other_message msg_id cb =
     (let cb_msg_id = json_obj_get_num (json_obj_get (Some cb) ''message'') ''message_id'' zero in
      if double_gt0 msg_id \<and> double_gt0 cb_msg_id then
        (case (long_of_double cb_msg_id, long_of_double msg_id) of
           (Some a, Some b) \<Rightarrow> Some (a \<noteq> b) | _ \<Rightarrow> None)
      else Some False)"

definition answer_callback ::
    "'w telegram_os \<Rightarrow> TelegramBot \<Rightarrow> JsonValue \<Rightarrow> cstr \<Rightarrow> 'w \<Rightarrow> 'w" where
  "answer_callback W tb cb msg w =
     (case json_obj_get_str (Some cb) ''id'' of None \<Rightarrow> w
      | Some i \<Rightarrow> snd (telegram_http_post W tb ''answerCallbackQuery''
          (JSON_OBJECT [(''callback_query_id'', JSON_STRING i), (''text'', JSON_STRING msg)]) w))"

text \<open>One answer of \<open>getUpdates\<close>: \<open>Some d\<close> is a decision, \<open>None\<close> goes on waiting.\<close>

fun scan_updates ::
    "'w telegram_os \<Rightarrow> cdouble \<Rightarrow> JsonValue list \<Rightarrow> TelegramBot \<Rightarrow> 'w \<Rightarrow> (bool option \<times> TelegramBot \<times> 'w) option" where
  "scan_updates W msg_id [] tb w = Some (None, tb, w)"
| "scan_updates W msg_id (up # ups) tb w =
     (case update_id up of None \<Rightarrow> None
      | Some u \<Rightarrow>
        (case json_obj_get (Some up) ''callback_query'' of
           None \<Rightarrow> Some (Some False, tb\<lparr>last_update_id := u - 1\<rparr>, w)
         | Some cb \<Rightarrow>
           let tb = (if u > last_update_id tb then tb\<lparr>last_update_id := u\<rparr> else tb) in
           if \<not> sender_ok tb cb
           then scan_updates W msg_id ups tb (answer_callback W tb cb (no_entry @ '' Unauthorized'') w)
           else (case other_message msg_id cb of None \<Rightarrow> None
             | Some True \<Rightarrow> scan_updates W msg_id ups tb w
             | Some False \<Rightarrow>
               (case json_obj_get_str (Some cb) ''data'' of
                  None \<Rightarrow> scan_updates W msg_id ups tb w
                | Some d \<Rightarrow>
                  Some (if d = ''approve'' then Some True else if d = ''deny'' then Some False else None,
                    tb, answer_callback W tb cb (if d = ''approve'' then ''Approved'' else ''Denied'') w)))))"

fun poll_answer ::
    "'w telegram_os \<Rightarrow> cdouble \<Rightarrow> nat \<Rightarrow> TelegramBot \<Rightarrow> 'w \<Rightarrow> (bool \<times> TelegramBot \<times> 'w) option" where
  "poll_answer W msg_id 0 tb w = Some (False, tb, w)"
| "poll_answer W msg_id (Suc n) tb w =
     (let (resp, w) = telegram_http_post W tb ''getUpdates'' (updates_payload tb 2) w in
      case scan_updates W msg_id (received resp) tb w of
        None \<Rightarrow> None
      | Some (Some d, tb, w) \<Rightarrow> Some (d, tb, w)
      | Some (None, tb, w) \<Rightarrow> poll_answer W msg_id n tb w)"

definition POLL_ATTEMPTS :: nat where "POLL_ATTEMPTS = 30"

definition telegram_permission_prompt ::
    "'w telegram_os \<Rightarrow> cstr \<Rightarrow> cstr \<Rightarrow> cstr \<Rightarrow> TelegramBot \<Rightarrow> 'w \<Rightarrow> (bool \<times> TelegramBot \<times> 'w) option" where
  "telegram_permission_prompt W chat name args tb w =
     (if chat = [] then Some (False, tb, w)
      else let (resp, w) = telegram_http_post W tb ''sendMessage'' (prompt_payload chat name args) w in
        if resp = None then Some (False, tb, w)
        else let msg_id = result_message_id resp in
          (case poll_answer W msg_id POLL_ATTEMPTS tb w of None \<Rightarrow> None
           | Some (decision, tb, w) \<Rightarrow>
             Some (decision, tb,
               if double_gt0 msg_id
               then snd (telegram_http_post W tb ''editMessageText''
                      (edit_payload chat msg_id (verdict_text name args decision) True) w)
               else w)))"

section \<open>Lemmas: chunks and characters\<close>

text \<open>UTF-8 as far as lengths go: a character is a lead byte with the continuation bytes it announces.\<close>

definition followers :: "char \<Rightarrow> nat" where
  "followers c = (if byte c < 192 then 0 else if byte c < 224 then 1 else if byte c < 240 then 2 else 3)"

definition utf8_char :: "cstr \<Rightarrow> bool" where
  "utf8_char u \<longleftrightarrow> u \<noteq> [] \<and> \<not> continuation (hd u) \<and> list_all continuation (tl u) \<and> length (tl u) = followers (hd u)"

inductive utf8 :: "cstr \<Rightarrow> bool" where
  utf8_Nil [intro, simp]: "utf8 []"
| utf8_Cons [intro]: "utf8_char u \<Longrightarrow> utf8 s \<Longrightarrow> utf8 (u @ s)"

lemma utf8_char_nth: "utf8_char u \<Longrightarrow> i < length u \<Longrightarrow> continuation (u ! i) \<longleftrightarrow> i \<noteq> 0"
  by (cases u; cases i) (auto simp: utf8_char_def list_all_length)

lemma utf8_char_length: "utf8_char u \<Longrightarrow> 0 < length u \<and> length u \<le> 4"
  by (cases u) (auto simp: utf8_char_def followers_def split: if_splits)

lemma not_continuation_simps [simp]: "\<not> continuation NUL" "\<not> continuation LF"
  by (simp_all add: continuation_def byte_def)

lemma byte_at_append: "byte_at (u @ s) n = (if n < length u then u ! n else byte_at s (n - length u))"
  by (auto simp: byte_at_def nth_append)

lemma utf8_split:
  "utf8 s \<Longrightarrow> \<not> continuation (byte_at s n) \<Longrightarrow> utf8 (take n s) \<and> utf8 (drop n s)"
proof (induction s arbitrary: n rule: utf8.induct)
  case (utf8_Cons u s)
  consider "n = 0" | "0 < n" "n < length u" | "length u \<le> n" by linarith
  then show ?case
  proof cases
    case 2
    then show ?thesis using utf8_Cons.prems utf8_char_nth[OF utf8_Cons.hyps(1), of n] by (simp add: byte_at_append)
  next
    case 3
    then have "utf8 (take (n - length u) s) \<and> utf8 (drop (n - length u) s)"
      using utf8_Cons.IH[of "n - length u"] utf8_Cons.prems by (simp add: byte_at_append)
    then show ?thesis using 3 utf8.utf8_Cons[OF utf8_Cons.hyps(1)] by simp
  qed (use utf8_Cons.hyps in auto)
qed simp

lemma utf8_near_start:
  "utf8 s \<Longrightarrow> \<exists>k \<le> n. n \<le> k + 3 \<and> \<not> continuation (byte_at s k)"
proof (induction s arbitrary: n rule: utf8.induct)
  case utf8_Nil
  then show ?case by (intro exI[of _ n]) (simp add: byte_at_def)
next
  case (utf8_Cons u s)
  show ?case
  proof (cases "n < length u")
    case True
    note u = utf8_char_length[OF utf8_Cons.hyps(1)]
    have "\<not> continuation (byte_at (u @ s) 0)"
      using utf8_char_nth[OF utf8_Cons.hyps(1), of 0] u by (simp add: byte_at_append)
    then show ?thesis using True u by (intro exI[of _ 0]) auto
  next
    case False
    obtain k where k: "k \<le> n - length u" "n - length u \<le> k + 3" "\<not> continuation (byte_at s k)"
      using utf8_Cons.IH[of "n - length u"] by blast
    then show ?thesis using False by (intro exI[of _ "k + length u"]) (auto simp: byte_at_append)
  qed
qed

lemma utf8_after_lf:
  assumes "utf8 s" "i < length s" "s ! i = LF"
  shows "\<not> continuation (byte_at s (Suc i))"
proof -
  have "utf8 (drop i s)" using utf8_split[OF assms(1), of i] assms(2,3) by (simp add: byte_at_def)
  moreover have "drop i s = LF # drop (Suc i) s" using assms(2,3) by (metis Cons_nth_drop_Suc)
  ultimately have "utf8 (LF # drop (Suc i) s)" by simp
  then show ?thesis
  proof cases
    case (utf8_Cons u r)
    have "followers LF = 0" by (simp add: followers_def byte_def)
    then have "u = [LF]" using utf8_Cons by (cases u) (auto simp: utf8_char_def)
    then have "utf8 (drop (Suc i) s)" using utf8_Cons by simp
    then show ?thesis
    proof cases
      case utf8_Nil
      then have "length s \<le> Suc i" by simp
      then show ?thesis by (simp add: byte_at_def)
    next
      case (utf8_Cons u' r')
      note u' = utf8_char_length[OF utf8_Cons(2)]
      then have l: "Suc i < length s" using utf8_Cons(1) by (cases "Suc i < length s") auto
      have "drop (Suc i) s ! 0 = s ! Suc i" using l by (simp add: nth_drop)
      then have "s ! Suc i = u' ! 0" using utf8_Cons(1) u' by (simp add: nth_append)
      then show ?thesis using utf8_char_nth[OF utf8_Cons(2), of 0] u' l by (simp add: byte_at_def)
    qed
  qed
qed

lemma utf8_back_off_boundary: "\<not> continuation (byte_at s (utf8_back_off s n)) \<or> utf8_back_off s n = 0"
  by (induction n) auto

lemma utf8_back_off_ge: "k \<le> n \<Longrightarrow> \<not> continuation (byte_at s k) \<Longrightarrow> k \<le> utf8_back_off s n"
  by (induction n) (auto simp: le_Suc_eq)

lemma chunk_length_le: "chunk_length s \<le> CHUNK_SIZE"
proof -
  let ?b = "utf8_back_off s (min CHUNK_SIZE (length s))"
  have "?b \<le> CHUNK_SIZE" using utf8_back_off_le[of s "min CHUNK_SIZE (length s)"] by simp
  then have "(if ?b = 0 then 1 else ?b) \<le> CHUNK_SIZE" by (simp add: CHUNK_SIZE_def)
  then show ?thesis
    using newline_cut_bounds[of "if ?b = 0 then 1 else ?b" s] by (simp add: chunk_length_def Let_def split: if_splits)
qed

lemma chunk_boundary:
  assumes "utf8 s" "s \<noteq> []"
  shows "\<not> continuation (byte_at s (chunk_length s))"
proof -
  let ?n = "min CHUNK_SIZE (length s)"
  have pos: "0 < utf8_back_off s ?n"
  proof (cases "length s \<le> CHUNK_SIZE")
    case True
    then have "length s \<le> utf8_back_off s ?n" by (intro utf8_back_off_ge) (simp_all add: byte_at_def)
    then show ?thesis using assms(2) by (simp add: length_greater_0_conv[symmetric] del: length_greater_0_conv)
  next
    case False
    obtain k where k: "k \<le> ?n" "?n \<le> k + 3" "\<not> continuation (byte_at s k)"
      using utf8_near_start[OF assms(1), of ?n] by blast
    then have "k \<le> utf8_back_off s ?n" by (intro utf8_back_off_ge) auto
    then show ?thesis using k(2) False by (simp add: CHUNK_SIZE_def)
  qed
  let ?b = "utf8_back_off s ?n"
  have b: "\<not> continuation (byte_at s ?b)" using utf8_back_off_boundary[of s ?n] pos by auto
  define nl where "nl = seek_newline s ?b (min 400 ?b) ?b"
  have c: "chunk_length s = newline_cut s ?b" using pos by (simp add: chunk_length_def)
  show ?thesis
  proof (cases "?b < length s \<and> nl > 0 \<and> s ! (nl - 1) = LF")
    case True
    then have "nl - 1 < length s" using seek_newline_le[of s ?b "min 400 ?b" ?b] unfolding nl_def by linarith
    with True show ?thesis using utf8_after_lf[OF assms(1), of "nl - 1"] c by (simp add: newline_cut_def nl_def[symmetric])
  next
    case False
    then have "newline_cut s ?b = ?b" by (auto simp: newline_cut_def nl_def[symmetric])
    then show ?thesis using b c by simp
  qed
qed

lemma text_chunks_props:
  "concat (text_chunks s) = s \<and> (\<forall>c \<in> set (text_chunks s). c \<noteq> [] \<and> length c \<le> CHUNK_SIZE)"
proof (induction s rule: text_chunks.induct)
  case (1 s)
  show ?case
  proof (cases "s = []")
    case False
    then show ?thesis using 1 chunk_length_pos[of s] chunk_length_le[of s]
      by (subst (1 2) text_chunks.simps) auto
  qed (simp add: text_chunks.simps)
qed

lemma text_chunks_utf8: "utf8 s \<Longrightarrow> \<forall>c \<in> set (text_chunks s). utf8 c"
proof (induction s rule: text_chunks.induct)
  case (1 s)
  show ?case
  proof (cases "s = []")
    case False
    then show ?thesis using 1 utf8_split[OF 1(2) chunk_boundary[OF 1(2) False]]
      by (subst text_chunks.simps) auto
  qed (simp add: text_chunks.simps)
qed

section \<open>Lemmas: approval\<close>

lemma sender_ok_same: "allowed_chat_id a = allowed_chat_id b \<Longrightarrow> sender_ok a cb = sender_ok b cb"
  by (simp add: sender_ok_def)

definition approval :: "TelegramBot \<Rightarrow> cdouble \<Rightarrow> JsonValue \<Rightarrow> bool" where
  "approval tb msg_id up \<longleftrightarrow>
     (\<exists>cb. json_obj_get (Some up) ''callback_query'' = Some cb \<and> sender_ok tb cb \<and>
       other_message msg_id cb = Some False \<and> json_obj_get_str (Some cb) ''data'' = Some ''approve'')"

lemma scan_allowed:
  "scan_updates W m ups tb w = Some (d, tb', w') \<Longrightarrow> allowed_chat_id tb' = allowed_chat_id tb \<and> bot_token tb' = bot_token tb"
proof (induction ups arbitrary: tb w)
  case (Cons up ups)
  from Cons.prems Cons.IH show ?case
    by (auto simp: Let_def split: option.splits if_splits bool.splits)
qed simp

lemma scan_approval:
  "scan_updates W m ups tb w = Some (Some True, tb', w') \<Longrightarrow> \<exists>up \<in> set ups. approval tb m up"
proof (induction ups arbitrary: tb w)
  case (Cons up ups)
  obtain u where u: "update_id up = Some u" using Cons.prems by (cases "update_id up") auto
  obtain cb where cb: "json_obj_get (Some up) ''callback_query'' = Some cb"
    using Cons.prems u by (cases "json_obj_get (Some up) ''callback_query''") auto
  define tb1 where "tb1 = (if u > last_update_id tb then tb\<lparr>last_update_id := u\<rparr> else tb)"
  have same: "approval tb1 m x = approval tb m x" "sender_ok tb1 cb = sender_ok tb cb" for x
    using sender_ok_same[of tb1 tb] by (simp_all add: approval_def tb1_def)
  show ?case
  proof (cases "sender_ok tb cb \<and> other_message m cb = Some False \<and> json_obj_get_str (Some cb) ''data'' = Some ''approve''")
    case True
    then show ?thesis using cb by (auto simp: approval_def)
  next
    case False
    then have "\<exists>w1. scan_updates W m ups tb1 w1 = Some (Some True, tb', w')"
      using Cons.prems by (auto simp: u cb Let_def tb1_def[symmetric] same split: option.splits if_splits bool.splits)
    then show ?thesis using Cons.IH same by fastforce
  qed
qed simp

lemma poll_approval:
  "poll_answer W m n tb w = Some (True, tb', w') \<Longrightarrow>
     \<exists>tb1 w1. allowed_chat_id tb1 = allowed_chat_id tb \<and>
       (\<exists>up \<in> set (received (fst (telegram_http_post W tb1 ''getUpdates'' (updates_payload tb1 2) w1))). approval tb1 m up)"
proof (induction n arbitrary: tb w)
  case (Suc n)
  obtain resp w1 where r: "telegram_http_post W tb ''getUpdates'' (updates_payload tb 2) w = (resp, w1)" by fastforce
  obtain d tb2 w2 where s: "scan_updates W m (received resp) tb w1 = Some (d, tb2, w2)"
    using Suc.prems r by (auto split: option.splits)
  show ?case
  proof (cases d)
    case None
    then have "poll_answer W m n tb2 w2 = Some (True, tb', w')" using Suc.prems r s by simp
    then show ?thesis using Suc.IH scan_allowed[OF s] by fastforce
  next
    case (Some b)
    then have "\<exists>up \<in> set (received resp). approval tb m up" using Suc.prems r s scan_approval[of W m _ tb] by auto
    then show ?thesis using r by (intro exI[of _ tb] exI[of _ w]) simp
  qed
qed simp

lemma escape_prefix:
  "out_sz \<le> n + length p + 8 \<Longrightarrow> telegram_html_escape out_sz n (p @ a) = telegram_html_escape out_sz n p"
proof (induction p arbitrary: n)
  case Nil
  then show ?case by (cases a) simp_all
next
  case (Cons c p)
  have "1 \<le> length (escape_quote c)" by (simp add: escape_quote_def)
  with Cons show ?case by simp
qed

text \<open>A Bot API for examples: the first request is answered with one value, every later one with another.\<close>

definition number :: "nat \<Rightarrow> JsonValue" where "number n = JSON_NUMBER (double_of_nat n)"

definition scripted :: "JsonValue \<Rightarrow> JsonValue \<Rightarrow> nat telegram_os" where
  "scripted a b = \<lparr>perform = \<lambda>r n. (\<lparr>curl_code = CURLE_OK, http_status = 200, reply_headers = [],
       reply_chunks = [json_text (if n = 0 then a else b)]\<rparr>, n + 1),
     curl_ready = True, curl_strerror = (\<lambda>e. []), env_var = (\<lambda>v. None), stdout_tty = False,
     tg_now = int, file_there = (\<lambda>p n. False), put_marker = (\<lambda>p n. (True, n)), remove_marker = (\<lambda>p n. (False, n))\<rparr>"

definition prompted :: JsonValue where
  "prompted = JSON_OBJECT [(''ok'', JSON_BOOL True), (''result'', JSON_OBJECT [(''message_id'', number 5)])]"

definition press :: JsonValue where
  "press = JSON_OBJECT [(''id'', JSON_STRING ''c1''), (''from'', JSON_OBJECT [(''id'', number 42)]),
     (''message'', JSON_OBJECT [(''message_id'', number 5)]), (''data'', JSON_STRING ''approve'')]"

definition pressed :: JsonValue where
  "pressed = JSON_OBJECT [(''ok'', JSON_BOOL True),
     (''result'', JSON_ARRAY [JSON_OBJECT [(''update_id'', number 7), (''callback_query'', press)]])]"

definition owner :: TelegramBot where
  "owner = \<lparr>bot_token = ''T'', allowed_chat_id = ''7, 42'', last_update_id = 3, running = True\<rparr>"

lemma scripted_post:
  assumes "json_ok a" "jdepth a \<le> 128" "json_ok b" "jdepth b \<le> 128"
  shows "telegram_http_post (scripted a b) tb m p n = (Some (if n = 0 then a else b), n + 1)"
proof -
  have c: "c_string (json_text v) = json_text v" if "json_ok v" for v
    using json_text_no_nul[OF that] by (simp add: c_string_def takeWhile_eq_all_conv nul_free_def) blast
  show ?thesis using assms
    by (simp add: telegram_http_post_def scripted_def c json_parse_text JSON_MAX_DEPTH_def)
qed

lemma dec_text_42: "dec_text 42 = ''42''"
  by code_simp

lemma owner_approves:
  "\<exists>tb' n. telegram_permission_prompt (scripted prompted pressed) ''42'' ''bash'' ''{}'' owner 0 = Some (True, tb', n)"
proof -
  have ok: "json_ok prompted" "jdepth prompted \<le> 128" "json_ok pressed" "jdepth pressed \<le> 128"
    by (simp_all add: prompted_def pressed_def press_def number_def)
  note post = scripted_post[OF ok]
  have m: "result_message_id (Some prompted) = double_of_nat 5"
    by (simp add: result_message_id_def prompted_def number_def json_obj_get_def json_obj_get_num_def)
  have r: "received (Some pressed) = [JSON_OBJECT [(''update_id'', number 7), (''callback_query'', press)]]"
    by (simp add: received_def pressed_def json_obj_get_def)
  have toks: "strtok_all '','' ''7, 42'' = [''7'', '' 42'']" by code_simp
  have trim: "trim_entry '' 42'' = ''42''" by code_simp
  have s: "allowed_chat_id tb = ''7, 42'' \<Longrightarrow> sender_ok tb press" for tb
    by (simp add: sender_ok_def press_def number_def json_obj_get_def json_obj_get_num_def toks trim dec_text_42)
  have o: "other_message (double_of_nat 5) press = Some False"
    by (simp add: other_message_def press_def number_def json_obj_get_def json_obj_get_num_def)
  have d: "json_obj_get_str (Some press) ''data'' = Some ''approve''"
    by (simp add: press_def json_obj_get_str_def json_obj_get_def)
  have u: "update_id (JSON_OBJECT [(''update_id'', number 7), (''callback_query'', press)]) = Some 7"
    by (simp add: update_id_def number_def json_obj_get_def json_obj_get_num_def)
  have g: "json_obj_get (Some (JSON_OBJECT [(''update_id'', number 7), (''callback_query'', press)])) ''callback_query'' = Some press"
    by (simp add: json_obj_get_def)
  have p: "\<exists>tb' k. poll_answer (scripted prompted pressed) (double_of_nat 5) (Suc n) owner 1 = Some (True, tb', k)" for n
    by (simp add: post r u g s o d owner_def Let_def)
  then obtain tb' k where "poll_answer (scripted prompted pressed) (double_of_nat 5) POLL_ATTEMPTS owner 1 = Some (True, tb', k)"
    using p[of 29] by (auto simp: POLL_ATTEMPTS_def)
  then show ?thesis by (simp add: telegram_permission_prompt_def post m)
qed

section \<open>Properties\<close>

text \<open>C32: A long text arrives whole: the chunks put together are the text, none is empty or longer than 3800
  bytes, and no character of a UTF-8 text is torn apart.\<close>

theorem chunks_keep_the_text:
  assumes "utf8 s"
  shows "concat (text_chunks s) = s \<and> (\<forall>c \<in> set (text_chunks s). c \<noteq> [] \<and> length c \<le> 3800 \<and> utf8 c)"
  using text_chunks_props[of s] text_chunks_utf8[OF assms] by (auto simp: CHUNK_SIZE_def)

theorem chunks_keep_the_text_witness:
  "let s = concat (replicate 3000 [CHR 0xC3, CHR 0xA9]) in
   concat (text_chunks s) = s \<and> (\<forall>c \<in> set (text_chunks s). c \<noteq> [] \<and> length c \<le> 3800 \<and> utf8 c)"
proof -
  have u: "utf8_char [CHR 0xC3, CHR 0xA9]" by code_simp
  have "utf8 (concat (replicate n [CHR 0xC3, CHR 0xA9]))" for n
    using utf8_Cons[OF u] by (induction n) auto
  then show ?thesis unfolding Let_def by (rule chunks_keep_the_text)
qed

text \<open>C33: A call is approved over Telegram only by a press of the approve button that an answer of the Bot API
  reports, from somebody on the list of allowed chats, and on the message that asked when both ids are known.\<close>

theorem approval_needs_allowed_press:
  assumes "telegram_permission_prompt W chat name args tb w = Some (True, tb', w')"
  shows "\<exists>tb1 w1 up cb. allowed_chat_id tb1 = allowed_chat_id tb \<and>
    up \<in> set (received (fst (telegram_http_post W tb1 ''getUpdates'' (updates_payload tb1 2) w1))) \<and>
    json_obj_get (Some up) ''callback_query'' = Some cb \<and> json_obj_get_str (Some cb) ''data'' = Some ''approve'' \<and>
    list_ex (\<lambda>tok. trim_entry tok = take 31 (fixed0 (json_obj_get_num (json_obj_get (Some cb) ''from'') ''id'' zero)))
      (strtok_all '','' (allowed_chat_id tb)) \<and>
    other_message (result_message_id (fst (telegram_http_post W tb ''sendMessage'' (prompt_payload chat name args) w))) cb
      = Some False"
proof -
  obtain resp w0 where r: "telegram_http_post W tb ''sendMessage'' (prompt_payload chat name args) w = (resp, w0)" by fastforce
  obtain tb2 w2 where "poll_answer W (result_message_id resp) POLL_ATTEMPTS tb w0 = Some (True, tb2, w2)"
    using assms by (auto simp: telegram_permission_prompt_def r Let_def split: if_splits option.splits)
  from poll_approval[OF this] obtain tb1 w1 up where u: "allowed_chat_id tb1 = allowed_chat_id tb"
      "up \<in> set (received (fst (telegram_http_post W tb1 ''getUpdates'' (updates_payload tb1 2) w1)))"
      "approval tb1 (result_message_id resp) up" by blast
  then obtain cb where "json_obj_get (Some up) ''callback_query'' = Some cb" "sender_ok tb1 cb"
      "other_message (result_message_id resp) cb = Some False" "json_obj_get_str (Some cb) ''data'' = Some ''approve''"
    by (auto simp: approval_def)
  with u r show ?thesis
    by (intro exI[of _ tb1] exI[of _ w1] exI[of _ up] exI[of _ cb]) (simp add: sender_ok_def Let_def)
qed

theorem approval_needs_allowed_press_witness:
  "\<exists>tb1 w1 up cb. allowed_chat_id tb1 = allowed_chat_id owner \<and>
    up \<in> set (received (fst (telegram_http_post (scripted prompted pressed) tb1 ''getUpdates'' (updates_payload tb1 2) w1))) \<and>
    json_obj_get (Some up) ''callback_query'' = Some cb \<and> json_obj_get_str (Some cb) ''data'' = Some ''approve'' \<and>
    list_ex (\<lambda>tok. trim_entry tok = take 31 (fixed0 (json_obj_get_num (json_obj_get (Some cb) ''from'') ''id'' zero)))
      (strtok_all '','' (allowed_chat_id owner)) \<and>
    other_message (result_message_id (fst (telegram_http_post (scripted prompted pressed) owner ''sendMessage''
      (prompt_payload ''42'' ''bash'' ''{}'') 0))) cb = Some False"
proof -
  from owner_approves obtain tb' n where
    "telegram_permission_prompt (scripted prompted pressed) ''42'' ''bash'' ''{}'' owner 0 = Some (True, tb', n)" by blast
  then show ?thesis by (rule approval_needs_allowed_press)
qed

text \<open>What the operator is asked about is the beginning of the arguments only: two calls whose arguments
  agree on the first 1016 bytes are asked about in the same words, and treated alike.\<close>

theorem prompt_hides_the_tail:
  assumes "length p \<ge> 1016"
  shows "telegram_permission_prompt W chat name (p @ a) tb w = telegram_permission_prompt W chat name (p @ b) tb w"
proof -
  have "telegram_html_escape 1024 0 (p @ x) = telegram_html_escape 1024 0 p" for x
    using escape_prefix[of 1024 0 p x] assms by simp
  then have "prompt_payload chat name (p @ x) = prompt_payload chat name p"
    "verdict_text name (p @ x) d = verdict_text name p d" for x d
    by (simp_all add: prompt_payload_def prompt_text_def verdict_text_def)
  then have same: "prompt_payload chat name (p @ a) = prompt_payload chat name (p @ b)"
    "verdict_text name (p @ a) = verdict_text name (p @ b)" by (simp_all add: fun_eq_iff)
  show ?thesis unfolding telegram_permission_prompt_def same by (rule refl)
qed

theorem prompt_hides_the_tail_witness:
  "telegram_permission_prompt (scripted prompted pressed) ''42'' ''bash'' (replicate 1016 (CHR ''x'') @ '' harmless'') owner 0 =
   telegram_permission_prompt (scripted prompted pressed) ''42'' ''bash'' (replicate 1016 (CHR ''x'') @ ''; rm -rf ~'') owner 0"
  by (rule prompt_hides_the_tail) simp

text \<open>Text that streams in within a second of the last repaint is not painted, and when it completes the
  reply it is never shown: the turn ends with nothing more sent to the chat.\<close>

theorem last_words_are_lost:
  assumes "double_gt0 (s_msg_id s)" and "\<not> disabled s" and "chunk \<noteq> []" and "tg_now W w - last_edit s < 1"
    and "length (s_buf s @ chunk) \<le> 12000"
    and "telegram_render_html (Some (s_buf s @ chunk)) = Some html" and "length html \<le> 3500"
    and "telegram_stream_cb W tb chunk False s w = (s', w')"
  shows "w' = w \<and> telegram_deliver W tb chat s' (Some (s_buf s @ chunk)) w' = w"
proof -
  have "\<not> double_is0 (s_msg_id s)"
    using assms(1) by (auto simp: double_gt0_def double_gt_def double_is0_def split: cdouble.splits if_splits)
  then have "s' = s\<lparr>s_buf := s_buf s @ chunk\<rparr> \<and> w' = w"
    using assms by (auto simp: telegram_stream_cb_def paint_def Let_def)
  then show ?thesis using assms(1,3) by (simp add: telegram_deliver_def Let_def)
qed

theorem last_words_are_lost_witness:
  "let s = \<lparr>s_chat = ''42'', s_buf = ''Do not '', s_msg_id = double_of_nat 5, last_edit = 0, edits = 0, disabled = False\<rparr>;
       (s', w') = telegram_stream_cb (scripted prompted pressed) owner ''run it'' False s 0
   in w' = 0 \<and> telegram_deliver (scripted prompted pressed) owner ''42'' s' (Some (s_buf s @ ''run it'')) w' = 0"
proof -
  let ?s = "\<lparr>s_chat = ''42'', s_buf = ''Do not '', s_msg_id = double_of_nat 5, last_edit = 0, edits = 0, disabled = False\<rparr>"
  obtain s' w' where c: "telegram_stream_cb (scripted prompted pressed) owner ''run it'' False ?s 0 = (s', w')" by fastforce
  have h: "telegram_render_html (Some ''Do not run it'') = Some (''Do not run it'' @ [LF])" by code_simp
  have "w' = 0 \<and> telegram_deliver (scripted prompted pressed) owner ''42'' s' (Some (s_buf ?s @ ''run it'')) w' = 0"
    by (rule last_words_are_lost[OF _ _ _ _ _ _ _ c, where html = "''Do not run it'' @ [LF]"]) (use h in \<open>simp_all add: scripted_def\<close>)
  then show ?thesis using c by auto
qed

text \<open>Any word behind \<open>/turbo\<close> that is not exactly one of its own switches turns automatic approval on for
  at least a minute, also a mistyped off.\<close>

theorem other_words_arm_turbo:
  assumes "arg \<noteq> []" and "arg \<notin> {''off'', ''on'', ''forever''}" and "turbo_command W arg t w = (reply, t', w')"
  shows "w' = w \<and> fst (turbo_active W w' t') \<and> turbo_until t' \<ge> tg_now W w + 60"
proof -
  have "turbo_minutes arg \<ge> 1" by (simp add: turbo_minutes_def Let_def)
  then show ?thesis using assms by (auto simp: turbo_command_def turbo_active_def turbo_state_load_def Let_def)
qed

theorem other_words_arm_turbo_witness:
  "let (reply, t', w') = turbo_command (scripted prompted pressed) ''off '' \<lparr>turbo_until = 0, turbo_forever = False, turbo_loaded = True\<rparr> 9
   in w' = 9 \<and> fst (turbo_active (scripted prompted pressed) w' t') \<and> turbo_until t' \<ge> tg_now (scripted prompted pressed) 9 + 60"
proof -
  obtain reply t' w' where c: "turbo_command (scripted prompted pressed) ''off ''
      \<lparr>turbo_until = 0, turbo_forever = False, turbo_loaded = True\<rparr> 9 = (reply, t', w')" by (metis prod_cases3)
  have "w' = 9 \<and> fst (turbo_active (scripted prompted pressed) w' t') \<and> turbo_until t' \<ge> tg_now (scripted prompted pressed) 9 + 60"
    by (rule other_words_arm_turbo[OF _ _ c]) simp_all
  then show ?thesis using c by auto
qed

end
