(* ===== verification/FileTools.thy ===== *)
theory FileTools
  imports MiniJson PathJail CInt
begin

text \<open>
  The file tools of \<open>belya_harness.c\<close>: \<open>read_file\<close>, \<open>write_file\<close>, \<open>edit_file\<close> and \<open>apply_patch\<close>,
  with the syntax check that runs after a write.

  A disk maps the resolved name of a file to its bytes; \<open>resolve\<close> is how the system resolves a path,
  so two paths may name one file. Reading and writing succeed completely or fail when the file is
  opened. The compilers the syntax check runs and the language server are parameters; they are
  programs of their own and may write files too, as \<open>python3 -m py_compile\<close> does, so a run gives the
  disk it leaves. JSON files are checked with the parser of the program itself. \<open>workspace_root\<close> is
  the static variable of the jail, \<open>guards\<close> the active harness, if there is one.
\<close>

section \<open>The disk and the environment\<close>

type_synonym disk = "cstr \<Rightarrow> cstr option"

record tool_guard =
  router :: bool
  planning :: bool

text \<open>A compiler run: it could not run, timed out or is missing; or its exit status and its output.\<close>

datatype compile_run = No_Run | Compiled bool cstr

record tool_env =
  jail_fs :: filesystem
  resolve :: "cstr \<Rightarrow> cstr"
  can_write :: "cstr \<Rightarrow> bool"
  compiler :: "cstr list \<Rightarrow> disk \<Rightarrow> compile_run \<times> disk"
  lsp_check :: "cstr \<Rightarrow> disk \<Rightarrow> cstr option \<times> disk"
  workspace_root :: "cstr option"
  guards :: "tool_guard option"

definition file_bytes :: "tool_env \<Rightarrow> disk \<Rightarrow> cstr \<Rightarrow> cstr option" where
  "file_bytes env d path = d (resolve env path)"

definition put_file :: "tool_env \<Rightarrow> cstr \<Rightarrow> cstr \<Rightarrow> disk \<Rightarrow> disk" where
  "put_file env path bytes d = d(resolve env path \<mapsto> bytes)"

definition jailed :: "tool_env \<Rightarrow> cstr \<Rightarrow> bool \<Rightarrow> bool" where
  "jailed env path is_write =
     is_path_jailed (jail_fs env) (workspace_root env) (Some path) None is_write"

section \<open>The syntax check behind a write\<close>

definition check_program :: "cstr \<Rightarrow> cstr \<Rightarrow> cstr list option" where
  "check_program ext path =
     (if ext = ''.c'' \<or> ext = ''.h'' then Some [''gcc'', ''-fsyntax-only'', ''-std=c99'', ''-Wall'', path]
      else if ext = ''.cpp'' \<or> ext = ''.cc'' then Some [''g++'', ''-fsyntax-only'', ''-Wall'', path]
      else if ext = ''.py'' then Some [''python3'', ''-m'', ''py_compile'', path]
      else if ext = ''.js'' \<or> ext = ''.mjs'' then Some [''node'', ''--check'', path]
      else if ext = ''.rs'' then Some [''rustc'', ''--emit=metadata'', ''-o'', ''/dev/null'', path]
      else if ext = ''.go'' then Some [''go'', ''vet'', path]
      else None)"

definition dquoted :: "cstr \<Rightarrow> cstr" where "dquoted s = [DQ] @ s @ [DQ]"

definition diag_head :: "cstr \<Rightarrow> cstr" where
  "diag_head path = [LF, LF] @ ''[Structured Compiler Diagnostics]'' @ [LF] @ ''{'' @ [LF] @ ''  '' @ dquoted ''file'' @ '': '' @
     dquoted path @ '','' @ [LF] @ ''  '' @ dquoted ''status'' @ '': '' @ dquoted ''error'' @ '','' @ [LF] @ ''  '' @ dquoted ''raw_output'' @ '': ''"

definition diag_text :: "cstr \<Rightarrow> cstr \<Rightarrow> cstr \<Rightarrow> cstr" where
  "diag_text head_text path raw = head_text @ diag_head path @ escape raw @ [LF] @ ''}''"

definition json_check :: "cstr \<Rightarrow> cstr option \<Rightarrow> cstr option" where
  "json_check path bytes =
     (case bytes of None \<Rightarrow> None
      | Some b \<Rightarrow>
        if b \<noteq> [] \<and> length b < 500000 \<and> json_parse (Some (c_string b)) = None
        then Some (''JSON Syntax Error: Failed to parse '' @ path @ diag_head path @ dquoted ''Malformed JSON syntax'' @ [LF] @ ''}'')
        else None)"

text \<open>The command the check of a file runs, when its name has the extension of a language.\<close>

definition checked_by :: "cstr \<Rightarrow> cstr list option" where
  "checked_by path = (case strrchr path (CHR ''.'') of None \<Rightarrow> None | Some ext \<Rightarrow> check_program ext path)"

definition is_json_file :: "cstr \<Rightarrow> bool" where
  "is_json_file path \<longleftrightarrow> strrchr path (CHR ''.'') = Some ''.json''"

text \<open>The diagnostics of the check, and the disk behind it.\<close>

definition belya_harness_preflight_check :: "tool_env \<Rightarrow> disk \<Rightarrow> cstr \<Rightarrow> cstr option \<times> disk" where
  "belya_harness_preflight_check env d path =
     (case checked_by path of
        None \<Rightarrow> (if is_json_file path then json_check path (file_bytes env d path) else None, d)
      | Some argv \<Rightarrow>
        (case compiler env argv d of
           (No_Run, d) \<Rightarrow> (None, d)
         | (Compiled ok raw, d) \<Rightarrow>
           if ok then let (l, d) = lsp_check env path d in (map_option (\<lambda>l. diag_text l path l) l, d)
           else if raw = [] then (None, d)
           else let (l, d) = lsp_check env path d in
             (Some (case l of Some l \<Rightarrow> diag_text (l @ [LF, LF] @ raw) path raw | None \<Rightarrow> diag_text raw path raw), d)))"

definition warn_sign :: cstr where
  "warn_sign = [CHR 0xE2, CHR 0x9A, CHR 0xA0, CHR 0xEF, CHR 0xB8, CHR 0x8F]"

definition with_diag :: "cstr \<Rightarrow> cstr option \<Rightarrow> cstr \<Rightarrow> cstr" where
  "with_diag what diag msg =
     (case diag of None \<Rightarrow> msg
      | Some t \<Rightarrow> msg @ [LF, LF] @ warn_sign @ '' COMPILER WARNING/ERROR after '' @ what @ '':'' @ [LF] @ t)"

section \<open>read_file\<close>

definition LINE_BUF :: nat where "LINE_BUF = 4096"

definition padded :: "nat \<Rightarrow> nat \<Rightarrow> cstr" where
  "padded width n = replicate (width - length (dec_text n)) (CHR '' '') @ dec_text n"

definition numbered_line :: "nat \<Rightarrow> cstr \<Rightarrow> cstr" where
  "numbered_line n line = padded 5 n @ '' | '' @ c_string line"

fun window_loop :: "nat \<Rightarrow> nat \<Rightarrow> cstr list \<Rightarrow> nat \<Rightarrow> nat \<Rightarrow> cstr \<Rightarrow> cstr" where
  "window_loop start_line max_lines [] current_line collected ds = ds"
| "window_loop start_line max_lines (l # ls) current_line collected ds =
     (if current_line \<ge> start_line \<and> collected < max_lines \<and>
         length (ds @ numbered_line current_line l) > 100000
      then ds @ numbered_line current_line l @ [LF] @ ''[Output Truncated by Line Limit]''
      else
        let (ds, collected) = (if current_line \<ge> start_line \<and> collected < max_lines
               then (ds @ numbered_line current_line l, collected + 1) else (ds, collected)) in
        if current_line + 1 \<ge> start_line + max_lines then ds
        else window_loop start_line max_lines ls (current_line + 1) collected ds)"

definition size_clamped :: "cdouble \<Rightarrow> nat \<Rightarrow> cdouble" where
  "size_clamped d bound =
     (let d = (if double_lt0 d then DFin False 0 0 else d) in
      if double_gt d bound then double_of_nat bound else d)"

definition read_window :: "nat \<Rightarrow> nat \<Rightarrow> cstr \<Rightarrow> cstr" where
  "read_window start_line max_lines bytes =
     (let ds = window_loop start_line max_lines (fgets_chunks LINE_BUF bytes) 1 0 [] in
      if ds = [] then ''No lines found in specified range ('' @ dec_text start_line @ '' to '' @
        dec_text (unat (of_nat start_line + of_nat max_lines - 1 :: u64)) @ '').''
      else ds)"

definition cast_or :: "nat \<Rightarrow> cdouble \<Rightarrow> nat option" where
  "cast_or dflt d = (if double_gt0 d then size_of_double d else Some dflt)"

text \<open>The result is None when a cast is undefined.\<close>

definition tool_read_file :: "tool_env \<Rightarrow> JsonValue option \<Rightarrow> disk \<Rightarrow> cstr option" where
  "tool_read_file env args d =
     (case json_obj_get_str args ''path'' of None \<Rightarrow> Some ''Error: Missing file path argument.''
      | Some path \<Rightarrow>
        if \<not> jailed env path False then Some ''Error: Path traversal denied.''
        else
          let offset_num = size_clamped (json_obj_get_num args ''offset'' (DFin False 0 0)) 100000000;
              limit_num = size_clamped (json_obj_get_num args ''limit'' (DFin False 0 0)) 1000000 in
          case file_bytes env d path of
            None \<Rightarrow> Some ''Error: Target file not found or inaccessible.''
          | Some bytes \<Rightarrow>
            if double_gt0 offset_num \<or> double_gt0 limit_num then
              (case (cast_or 1 offset_num, cast_or 200 limit_num) of
                 (Some start_line, Some max_lines) \<Rightarrow> Some (read_window start_line max_lines bytes)
               | _ \<Rightarrow> None)
            else if length bytes > 200000
            then Some ''Error: File exceeds maximum safe context read size (200KB) or cannot determine size. Use offset and limit parameters.''
            else Some (c_string bytes))"

section \<open>write_file\<close>

definition router_refusal :: "cstr \<Rightarrow> cstr" where
  "router_refusal what = ''Physical security violation: '' @ what @ '' mutation tools are disabled in Router VTable.''"

definition plan_refusal :: cstr where
  "plan_refusal = ''Blocked: Plan Mode is active (read-only execution). Use exit_plan_mode to perform modifications.''"

definition mutation_refusal :: "tool_env \<Rightarrow> cstr \<Rightarrow> cstr option" where
  "mutation_refusal env what =
     (case guards env of None \<Rightarrow> None
      | Some g \<Rightarrow> if router g then Some (router_refusal what)
                 else if planning g then Some plan_refusal else None)"

definition tool_write_file :: "tool_env \<Rightarrow> JsonValue option \<Rightarrow> disk \<Rightarrow> cstr \<times> disk" where
  "tool_write_file env args d =
     (case mutation_refusal env ''file'' of Some m \<Rightarrow> (m, d)
      | None \<Rightarrow>
        (case (json_obj_get_str args ''path'', json_obj_get_str args ''content'') of
           (Some path, Some cont) \<Rightarrow>
             if \<not> jailed env path True then (''Error: Path traversal denied.'', d)
             else if \<not> can_write env path then (''Error: Failed to open path for writing.'', d)
             else let (diag, d) = belya_harness_preflight_check env (put_file env path cont d) path in
               (with_diag ''write'' diag ''File successfully written to disk.'', d)
         | _ \<Rightarrow> (''Error: Missing path or content argument.'', d)))"

section \<open>edit_file: where the old text is\<close>

definition is_pad :: "char \<Rightarrow> bool" where
  "is_pad c \<longleftrightarrow> c = CHR '' '' \<or> c = TAB \<or> c = CR"

text \<open>The next line without the padding around it, and what is behind it.\<close>

definition stripped_line :: "cstr \<Rightarrow> cstr \<times> cstr" where
  "stripped_line s =
     (let s = lskip is_pad s in
      (rskip is_pad (takeWhile (\<lambda>c. c \<noteq> LF) s), drop 1 (dropWhile (\<lambda>c. c \<noteq> LF) s)))"

lemma stripped_line_shorter: "s \<noteq> [] \<Longrightarrow> length (snd (stripped_line s)) < length s"
proof -
  assume s: "s \<noteq> []"
  have a: "length (lskip is_pad s) \<le> length s" by simp
  have b: "length (dropWhile (\<lambda>c. c \<noteq> LF) (lskip is_pad s)) \<le> length (lskip is_pad s)"
    by (rule length_dropWhile_le)
  have "0 < length s" using s by simp
  with a b show ?thesis unfolding stripped_line_def Let_def snd_conv length_drop by linarith
qed

text \<open>Compare the lines of the old text with those of the file; the file's text behind the match.\<close>

function match_lines :: "cstr \<Rightarrow> cstr \<Rightarrow> cstr option" where
  "match_lines old file =
     (if old = [] then Some file
      else if fst (stripped_line old) = fst (stripped_line file)
      then match_lines (snd (stripped_line old)) (snd (stripped_line file))
      else None)"
  by pat_completeness auto
termination
  by (relation "measure (\<lambda>(x, f). length x)") (auto intro: stripped_line_shorter)

declare match_lines.simps [simp del]

definition next_line :: "cstr \<Rightarrow> cstr" where
  "next_line s = drop 1 (dropWhile (\<lambda>c. c \<noteq> LF) s)"

lemma next_line_shorter: "s \<noteq> [] \<Longrightarrow> length (next_line s) < length s"
proof -
  assume "s \<noteq> []"
  then have "0 < length s" by simp
  moreover have "length (dropWhile (\<lambda>c. c \<noteq> LF) s) \<le> length s" by (rule length_dropWhile_le)
  ultimately show ?thesis unfolding next_line_def length_drop by linarith
qed

text \<open>The first line of the file at which the old text matches: the text from there, and behind it.\<close>

function find_lines :: "cstr \<Rightarrow> cstr \<Rightarrow> (cstr \<times> cstr) option" where
  "find_lines old c_ptr =
     (if c_ptr = [] then None
      else case match_lines old c_ptr of
        Some rest \<Rightarrow> if length rest < length c_ptr then Some (c_ptr, rest) else find_lines old (next_line c_ptr)
      | None \<Rightarrow> find_lines old (next_line c_ptr))"
  by pat_completeness auto
termination
  by (relation "measure (\<lambda>(x, c). length c)") (auto intro: next_line_shorter)

declare find_lines.simps [simp del]

text \<open>The place of the old text, exactly or by lines: the text from there, and its length.\<close>

definition locate :: "cstr \<Rightarrow> cstr \<Rightarrow> (cstr \<times> nat) option" where
  "locate old cont =
     (case strstr cont old of Some pos \<Rightarrow> Some (pos, length old)
      | None \<Rightarrow> map_option (\<lambda>(cand, rest). (cand, length cand - length rest)) (find_lines old cont))"

section \<open>edit_file: the hint when there is no match\<close>

definition blanks :: cstr where "blanks = [CHR '' '', TAB, CR, LF]"

definition anchor_tokens :: "cstr \<Rightarrow> cstr list" where
  "anchor_tokens old = take 16 (filter (\<lambda>t. 3 \<le> length t \<and> length t < 48) (strtok_all blanks old))"

definition first_anchor :: "cstr \<Rightarrow> cstr" where
  "first_anchor old = take 127 (takeWhile (\<lambda>c. c \<noteq> CR \<and> c \<noteq> LF) (dropWhile (\<lambda>c. c \<in> set blanks) old))"

function text_lines :: "cstr \<Rightarrow> cstr list" where
  "text_lines s = (if s = [] then [] else takeWhile (\<lambda>c. c \<noteq> LF) s # text_lines (next_line s))"
  by pat_completeness auto
termination
  by (relation "measure length") (auto intro: next_line_shorter)

declare text_lines.simps [simp del]

definition anchor_score :: "cstr \<Rightarrow> cstr \<Rightarrow> nat" where
  "anchor_score old line =
     (let lb = take 511 line; fl = first_anchor old in
      (if length fl \<ge> 4 \<and> strstr lb fl \<noteq> None then 15 else 0) +
      2 * length (filter (\<lambda>t. strstr lb t \<noteq> None) (anchor_tokens old)))"

text \<open>The first line with the best score, counted from 1, and the score.\<close>

fun best_line :: "cstr \<Rightarrow> cstr list \<Rightarrow> nat \<Rightarrow> nat \<times> nat \<Rightarrow> nat \<times> nat" where
  "best_line old [] ln best = best"
| "best_line old (l # ls) ln best =
     best_line old ls (ln + 1) (if anchor_score old l > snd best then (ln, anchor_score old l) else best)"

definition rule_line :: cstr where "rule_line = replicate 65 (CHR ''-'') @ [LF]"

definition edit_hint :: "cstr \<Rightarrow> cstr \<Rightarrow> cstr \<Rightarrow> cstr" where
  "edit_hint path old cont =
     (let ls = text_lines cont; (best_ln, best_score) = best_line old ls 1 (0, 0) in
      ''Error: old_text was not found in the target file.'' @
      (if best_score > 0 \<and> best_ln > 0 then
         let start_ln = (if best_ln > 4 then best_ln - 4 else 1); end_ln = best_ln + 5 in
         [LF] @ ''Similar lines found in file for reference (closest matching section in '' @ [SQ] @ path @ [SQ] @
         '' around line '' @ dec_text best_ln @ ''):'' @ [LF] @ rule_line @
         concat (map (\<lambda>(n, l). ''  '' @ padded 4 n @ '' | '' @ take 511 l @ [LF])
           (filter (\<lambda>(n, l). start_ln \<le> n \<and> n \<le> end_ln) (zip [1..<length ls + 1] ls))) @
         rule_line @
         ''Hint: Check indentation, line numbers, and exact whitespace from the snippet above before retrying.'' @ [LF]
       else [LF] @ ''(No lines containing search anchor found. Call read_file to inspect exact current text.)'' @ [LF]))"

section \<open>edit_file\<close>

definition line_number :: "cstr \<Rightarrow> cstr \<Rightarrow> nat" where
  "line_number cont pos = 1 + length (filter (\<lambda>c. c = LF) (between cont pos))"

definition ambiguous_text :: "cstr \<Rightarrow> cstr \<Rightarrow> cstr \<Rightarrow> cstr" where
  "ambiguous_text cont pos second =
     ''Error: old_text is ambiguous '' @ [CHR 0xE2, CHR 0x80, CHR 0x94] @ '' matches found at line '' @
     dec_text (line_number cont pos) @ '' and line '' @ dec_text (line_number cont second) @
     ''. Provide more surrounding context to disambiguate.''"

text \<open>What an edit makes of the bytes of a file: an error, or the new bytes and the length replaced.\<close>

definition edit_bytes :: "cstr \<Rightarrow> cstr \<Rightarrow> cstr \<Rightarrow> cstr \<Rightarrow> cstr + (cstr \<times> nat)" where
  "edit_bytes path old new_text bytes =
     (let cont = c_string bytes in
      case locate old cont of None \<Rightarrow> Inl (edit_hint path old cont)
      | Some (pos, matched) \<Rightarrow>
        (case strstr (drop matched pos) old of
           Some second \<Rightarrow> Inl (ambiguous_text cont pos second)
         | None \<Rightarrow>
           let prefix_len = length cont - length pos in
           Inr (take prefix_len bytes @ new_text @ drop (prefix_len + matched) bytes, matched)))"

definition edited_text :: "cstr \<Rightarrow> nat \<Rightarrow> nat \<Rightarrow> cstr" where
  "edited_text path old_len new_len = ''File '' @ [SQ] @ path @ [SQ] @ '' successfully edited (replaced '' @
     dec_text old_len @ '' bytes with '' @ dec_text new_len @ '' bytes).''"

definition reverted_text :: "cstr \<Rightarrow> cstr" where
  "reverted_text diag = warn_sign @
     '' [Compile-Verify Guard]: Edit rejected because compilation failed (file auto-reverted to original content).'' @
     [LF, LF] @ diag"

definition tool_edit_file :: "tool_env \<Rightarrow> JsonValue option \<Rightarrow> disk \<Rightarrow> cstr \<times> disk" where
  "tool_edit_file env args d =
     (case mutation_refusal env ''file'' of Some m \<Rightarrow> (m, d)
      | None \<Rightarrow>
        (case (json_obj_get_str args ''path'', json_obj_get_str args ''old_text'', json_obj_get_str args ''new_text'') of
           (Some path, Some old_text, Some new_text) \<Rightarrow>
             if \<not> jailed env path True then (''Error: Path traversal denied.'', d)
             else (case file_bytes env d path of
                 None \<Rightarrow> (''Error: Target file not found or inaccessible.'', d)
               | Some bytes \<Rightarrow>
                 if length bytes > 500000
                 then (''Error: File exceeds maximum safe edit size (500KB) or cannot determine size.'', d)
                 else (case edit_bytes path old_text new_text bytes of
                     Inl msg \<Rightarrow> (msg, d)
                   | Inr (updated, old_len) \<Rightarrow>
                     if \<not> can_write env path then (''Error: Failed to open target file for writing.'', d)
                     else let (diag, d') = belya_harness_preflight_check env (put_file env path updated d) path;
                              msg = edited_text path old_len (length new_text) in
                       case diag of None \<Rightarrow> (msg, d')
                       | Some t \<Rightarrow>
                         if json_obj_get_bool args ''verify_compile'' False
                         then (reverted_text t, put_file env path bytes d')
                         else (with_diag ''edit'' diag msg, d')))
         | _ \<Rightarrow> (''Error: Missing required parameters (path, old_text, new_text).'', d)))"

section \<open>apply_patch\<close>

definition search_marker :: cstr where "search_marker = ''<<<<<<< SEARCH'' @ [LF]"
definition div_marker :: cstr where "div_marker = ''======='' @ [LF]"
definition replace_marker :: cstr where "replace_marker = ''>>>>>>> REPLACE''"

definition mismatch_text :: "cstr \<Rightarrow> cstr \<Rightarrow> cstr" where
  "mismatch_text path search_str =
     ''Error: Search block mismatch during patch application. Expected content:'' @ [LF] @ take 200 search_str @
     (if length search_str > 200 then [LF] @ ''... [truncated]'' else []) @ [LF] @ ''This text was not found in '' @
     [SQ] @ path @ [SQ] @ ''. Call read_file to verify current content.''"

text \<open>The blocks of a patch one after the other: an error, or the new document.\<close>

function patch_blocks :: "cstr \<Rightarrow> cstr \<Rightarrow> cstr \<Rightarrow> cstr + cstr" where
  "patch_blocks path p cur_doc =
     (case strstr p search_marker of None \<Rightarrow> Inr cur_doc
      | Some hit \<Rightarrow>
        let p = drop (length search_marker) hit in
        case strstr p div_marker of
          None \<Rightarrow> Inl ''Error: Malformed patch block (missing ======= divider).''
        | Some dv \<Rightarrow>
          let search_str = between p dv; rep_start = drop (length div_marker) dv in
          case strstr rep_start replace_marker of
            None \<Rightarrow> Inl ''Error: Malformed patch block (missing >>>>>>> REPLACE marker).''
          | Some rep_end \<Rightarrow>
            (case strstr cur_doc search_str of
               None \<Rightarrow> Inl (mismatch_text path search_str)
             | Some hit \<Rightarrow>
               patch_blocks path (drop (length replace_marker) rep_end)
                 (between cur_doc hit @ between rep_start rep_end @ drop (length search_str) hit)))"
  by pat_completeness auto
termination
proof (relation "measure (\<lambda>(path, p, d). length p)", goal_cases)
  case (2 path p doc hit p' dv search_str rep_start rep_end hit')
  have "length p' < length p" using strstr_rest[OF 2(1)] 2(2) by (simp add: search_marker_def)
  moreover have "length dv \<le> length p'" "length rep_end \<le> length rep_start" using 2 strstr_le by blast+
  moreover have "length rep_start \<le> length dv" using 2 by simp
  ultimately show ?case by simp
qed simp

declare patch_blocks.simps [simp del]

definition tool_apply_patch :: "tool_env \<Rightarrow> JsonValue option \<Rightarrow> disk \<Rightarrow> cstr \<times> disk" where
  "tool_apply_patch env args d =
     (case mutation_refusal env ''patch'' of Some m \<Rightarrow> (m, d)
      | None \<Rightarrow>
        (case (json_obj_get_str args ''path'', json_obj_get_str args ''patch'') of
           (Some path, Some patch) \<Rightarrow>
             if \<not> jailed env path True then (''Error: Path traversal denied.'', d)
             else (case file_bytes env d path of None \<Rightarrow> (''Error: Target file not found.'', d)
               | Some bytes \<Rightarrow>
                 if length bytes > 2000000
                 then (''Error: File exceeds maximum safe patch size (2MB) or cannot determine size.'', d)
                 else if strstr patch search_marker \<noteq> None \<and> strstr patch div_marker \<noteq> None then
                   (case patch_blocks path patch (c_string bytes) of
                      Inl msg \<Rightarrow> (msg, d)
                    | Inr doc \<Rightarrow>
                      if \<not> can_write env path then (''Error: Failed to open target file for writing.'', d)
                      else let (diag, d) = belya_harness_preflight_check env (put_file env path doc d) path in
                        (with_diag ''patch'' diag ''Patch successfully applied to file.'', d))
                 else (''Error: Unsupported patch format. Use <<<<<<< SEARCH ... ======= ... >>>>>>> REPLACE blocks.'', d))
         | _ \<Rightarrow> (''Error: Missing path or patch argument.'', d)))"

section \<open>The contract of a tool that writes\<close>

text \<open>\<open>check_footprint env W\<close>: the programs that the check of a path runs write only the files \<open>W path\<close>,
  \<open>__pycache__\<close> for instance. A file in a language without a check runs none.\<close>

definition check_footprint :: "tool_env \<Rightarrow> (cstr \<Rightarrow> cstr set) \<Rightarrow> bool" where
  "check_footprint env W \<longleftrightarrow>
     (\<forall>path argv d f. checked_by path = Some argv \<and> f \<notin> W path \<longrightarrow>
        snd (compiler env argv d) f = d f \<and> snd (lsp_check env path d) f = d f)"

lemma check_elsewhere:
  assumes "check_footprint env W" and "f \<notin> W path \<or> checked_by path = None"
  shows "snd (belya_harness_preflight_check env d path) f = d f"
proof (cases "checked_by path")
  case None
  then show ?thesis by (simp add: belya_harness_preflight_check_def)
next
  case (Some argv)
  with assms have "snd (compiler env argv d) f = d f" "snd (lsp_check env path d) f = d f" for d
    by (auto simp: check_footprint_def)
  then show ?thesis
    by (auto simp: belya_harness_preflight_check_def Some case_prod_unfold Let_def split: compile_run.split)
qed

text \<open>A tool that writes changes nothing but one file, before the check of that file has run.\<close>

locale writing_tool =
  fixes tool :: "tool_env \<Rightarrow> JsonValue option \<Rightarrow> disk \<Rightarrow> cstr \<times> disk" and what :: cstr
  assumes writes: "tool env args d = (msg, d') \<Longrightarrow> d' \<noteq> d \<Longrightarrow>
    \<exists>path bytes. json_obj_get_str args ''path'' = Some path \<and> mutation_refusal env what = None \<and>
      jailed env path True \<and> can_write env path \<and>
      (\<forall>f. f \<noteq> resolve env path \<longrightarrow> d' f = snd (belya_harness_preflight_check env (put_file env path bytes d) path) f)"
begin

lemma confined:
  assumes "tool env args d = (msg, d')" and "d' \<noteq> d" and "check_footprint env W"
  shows "\<exists>path. json_obj_get_str args ''path'' = Some path \<and> jailed env path True \<and>
    (\<forall>g. guards env = Some g \<longrightarrow> \<not> router g \<and> \<not> planning g) \<and>
    (\<forall>f. f \<noteq> resolve env path \<and> (f \<notin> W path \<or> checked_by path = None) \<longrightarrow> d' f = d f)"
proof -
  from writes[OF assms(1,2)] obtain path bytes where p: "json_obj_get_str args ''path'' = Some path"
    "mutation_refusal env what = None" "jailed env path True"
    "\<And>f. f \<noteq> resolve env path \<Longrightarrow> d' f = snd (belya_harness_preflight_check env (put_file env path bytes d) path) f"
    by blast
  then have "d' f = d f" if "f \<noteq> resolve env path" "f \<notin> W path \<or> checked_by path = None" for f
    using that check_elsewhere[OF assms(3) that(2)] by (simp add: put_file_def)
  moreover have "\<forall>g. guards env = Some g \<longrightarrow> \<not> router g \<and> \<not> planning g"
    using p(2) by (auto simp: mutation_refusal_def split: option.splits if_splits)
  ultimately show ?thesis using p(1,3) by blast
qed

end

lemma put_file_twice [simp]: "put_file env path b (put_file env path c d) = put_file env path b d"
  by (simp add: put_file_def)

lemma put_file_same: "file_bytes env d path = Some b \<Longrightarrow> put_file env path b d = d"
  by (auto simp: put_file_def file_bytes_def)

lemma put_file_other: "f \<noteq> resolve env path \<Longrightarrow> put_file env path b d f = d f"
  by (simp add: put_file_def)

lemma put_file_here [simp]: "file_bytes env (put_file env path b d) path = Some b"
  by (simp add: put_file_def file_bytes_def)

interpretation write_tool: writing_tool tool_write_file "''file''"
  by unfold_locales (auto simp: tool_write_file_def case_prod_unfold Let_def split: option.splits if_splits)

interpretation edit_tool: writing_tool tool_edit_file "''file''"
proof
  fix env args d msg d'
  assume e: "tool_edit_file env args d = (msg, d')" and n: "d' \<noteq> d"
  from e n show "\<exists>path bytes. json_obj_get_str args ''path'' = Some path \<and> mutation_refusal env ''file'' = None \<and>
      jailed env path True \<and> can_write env path \<and>
      (\<forall>f. f \<noteq> resolve env path \<longrightarrow> d' f = snd (belya_harness_preflight_check env (put_file env path bytes d) path) f)"
    unfolding tool_edit_file_def Let_def case_prod_unfold
    by (auto simp: put_file_other split: option.splits if_splits sum.splits)
qed

interpretation patch_tool: writing_tool tool_apply_patch "''patch''"
  by unfold_locales (auto simp: tool_apply_patch_def case_prod_unfold Let_def split: option.splits if_splits sum.splits)

section \<open>Locating the old text\<close>

lemma c_string_id [simp]: "nul_free s \<Longrightarrow> c_string s = s"
  unfolding c_string_def nul_free_def by (induction s) auto

lemma strstr_first:
  assumes "\<And>u' v'. s = u' @ p @ v' \<Longrightarrow> u' = u" and "s = u @ p @ v"
  shows "strstr s p = Some (p @ v)"
proof -
  have "strstr s p \<noteq> None" using strstr_hit[of u p v] assms(2) by simp
  then obtain t where t: "strstr s p = Some t" by blast
  then obtain u' v' where "s = u' @ t" "t = p @ v'" by (auto dest!: strstr_SomeD simp: has_prefix_iff)
  then have "s = u' @ p @ v'" by simp
  moreover from this have "u' = u" by (rule assms(1))
  ultimately have "v' = v" using assms(2) by simp
  with t \<open>t = p @ v'\<close> show ?thesis by simp
qed

lemma edit_unique:
  assumes "nul_free bytes" and "bytes = u @ old @ v" and "old \<noteq> []"
    and "\<And>u' v'. bytes = u' @ old @ v' \<Longrightarrow> u' = u"
  shows "edit_bytes path old new_text bytes = Inr (u @ new_text @ v, length old)"
proof -
  have l: "strstr bytes old = Some (old @ v)" by (rule strstr_first[OF assms(4,2)])
  have "strstr v old = None"
  proof (rule ccontr)
    assume "strstr v old \<noteq> None"
    then obtain x y where "v = x @ old @ y" unfolding strstr_None_iff by blast
    with assms(2) have "bytes = (u @ old @ x) @ old @ y" by simp
    then have "u @ old @ x = u" by (rule assms(4))
    with assms(3) show False by simp
  qed
  with l assms(1,2) show ?thesis by (simp add: edit_bytes_def locate_def Let_def)
qed

definition unpadded :: "cstr \<Rightarrow> bool" where
  "unpadded s \<longleftrightarrow> s \<noteq> [] \<and> \<not> is_pad (hd s) \<and> \<not> is_pad (last s) \<and> LF \<notin> set s"

lemma lskip_pads: "list_all is_pad i \<Longrightarrow> lskip is_pad (i @ s) = lskip is_pad s"
  by (induction i) (simp_all add: lskip_def)

lemma stripped_line_LF:
  assumes "list_all is_pad i" and "unpadded l"
  shows "stripped_line (i @ l @ LF # rest) = (l, rest)" and "stripped_line (i @ l) = (l, [])"
proof -
  have a: "lskip is_pad (l @ t) = l @ t" for t
    using assms(2) by (cases l) (simp_all add: unpadded_def lskip_def)
  have "\<forall>c \<in> set l. c \<noteq> LF" using assms(2) by (auto simp: unpadded_def)
  then have b: "takeWhile (\<lambda>c. c \<noteq> LF) (l @ LF # rest) = l" "dropWhile (\<lambda>c. c \<noteq> LF) (l @ LF # rest) = LF # rest"
    "takeWhile (\<lambda>c. c \<noteq> LF) l = l" "dropWhile (\<lambda>c. c \<noteq> LF) l = []"
    by (simp_all add: takeWhile_append dropWhile_append takeWhile_eq_all_conv)
  have c: "rskip is_pad l = l"
    using assms(2) by (cases l rule: rev_cases) (simp_all add: unpadded_def rskip_def)
  show "stripped_line (i @ l @ LF # rest) = (l, rest)"
    using a[of "LF # rest"] by (simp add: stripped_line_def lskip_pads[OF assms(1)] b c Let_def)
  show "stripped_line (i @ l) = (l, [])"
    using a[of "[]"] by (simp add: stripped_line_def lskip_pads[OF assms(1)] b c Let_def)
qed

text \<open>A single line that differs from the file's only in its padding is found with the line's end.\<close>

lemma locate_padded:
  assumes "list_all is_pad i" and "list_all is_pad j" and "unpadded l"
    and "strstr (i @ l @ LF # rest) (j @ l) = None"
  shows "locate (j @ l) (i @ l @ LF # rest) = Some (i @ l @ LF # rest, length (i @ l @ [LF]))"
proof -
  have "match_lines (j @ l) (i @ l @ LF # rest) = Some rest"
    using stripped_line_LF(1)[OF assms(1,3), of rest] stripped_line_LF(2)[OF assms(2,3)] assms(3)
    by (simp add: match_lines.simps[of "j @ l"] match_lines.simps[of "[]"] unpadded_def)
  then have "find_lines (j @ l) (i @ l @ LF # rest) = Some (i @ l @ LF # rest, rest)"
    by (simp add: find_lines.simps[of "j @ l"])
  with assms(4) show ?thesis by (simp add: locate_def)
qed

section \<open>A patch as a list of replacements\<close>

definition patch_text :: "(cstr \<times> cstr) list \<Rightarrow> cstr" where
  "patch_text bs = concat (map (\<lambda>(old, new). search_marker @ old @ div_marker @ new @ replace_marker @ [LF]) bs)"

text \<open>Replace the first occurrence of each text in turn.\<close>

fun replace_all :: "(cstr \<times> cstr) list \<Rightarrow> cstr \<Rightarrow> cstr option" where
  "replace_all [] doc = Some doc"
| "replace_all ((old, new) # bs) doc =
     (case strstr doc old of None \<Rightarrow> None
      | Some hit \<Rightarrow> replace_all bs (between doc hit @ new @ drop (length old) hit))"

lemma patch_blocks_skip: "patch_blocks path (LF # p) doc = patch_blocks path p doc"
proof -
  have "strstr (LF # p) search_marker = strstr p search_marker"
    using strstr_skip[of "CHR ''<''" "[LF]" p] by (simp add: search_marker_def)
  then show ?thesis by (simp add: patch_blocks.simps)
qed

text \<open>Where a marker is looked for: no proper beginning of it is an end of it, so it cannot begin in
  what stands in front of it and end inside itself.\<close>

lemma strstr_unbordered:
  assumes "list_all (\<lambda>k. take k p \<noteq> drop (length p - k) p) [1..<length p]" and "strstr u p = None"
  shows "strstr (u @ p @ v) p = Some (p @ v)"
  using assms(2)
proof (induction u)
  case Nil
  show ?case by (simp add: strstr_here)
next
  case (Cons x u)
  let ?u = "x # u"
  have "\<not> has_prefix p (?u @ p @ v)"
  proof
    assume "has_prefix p (?u @ p @ v)"
    then obtain w where w: "?u @ p @ v = p @ w" by (auto simp: has_prefix_iff)
    then consider us where "?u = p @ us" | us where "p = ?u @ us" "p @ v = us @ w"
      unfolding append_eq_append_conv2 by blast
    then show False
    proof cases
      case 1
      then have "?u = [] @ p @ us" by simp
      then show False using Cons.prems unfolding strstr_None_iff by blast
    next
      case 2
      let ?k = "length us"
      have k: "length p = length ?u + ?k" by (simp add: 2(1))
      have "take ?k p = us" using arg_cong[OF 2(2), of "take ?k"] k by simp
      moreover have "drop (length p - ?k) p = us" unfolding k by (simp add: 2(1))
      moreover have "us \<noteq> []" using Cons.prems 2(1) strstr_here[of ?u "[]"] by auto
      then have "?k \<in> set [1..<length p]" using k by (simp del: upt_Suc add: Suc_le_eq)
      ultimately show False using assms(1) unfolding list_all_iff by metis
    qed
  qed
  moreover have "strstr u p = None" using Cons.prems unfolding strstr_None_iff by (metis append_Cons)
  ultimately show ?case using Cons.IH by (simp add: strstr.simps[of "x # u @ p @ v"])
qed

lemma patch_blocks_step:
  assumes "strstr old div_marker = None" and "strstr new replace_marker = None"
  shows "patch_blocks path (search_marker @ old @ div_marker @ new @ replace_marker @ p) doc =
    (case strstr doc old of None \<Rightarrow> Inl (mismatch_text path old)
     | Some hit \<Rightarrow> patch_blocks path p (between doc hit @ new @ drop (length old) hit))"
proof -
  have "list_all (\<lambda>k. take k div_marker \<noteq> drop (length div_marker - k) div_marker) [1..<length div_marker]"
    "list_all (\<lambda>k. take k replace_marker \<noteq> drop (length replace_marker - k) replace_marker) [1..<length replace_marker]"
    by (simp_all add: div_marker_def replace_marker_def upt_rec)
  with assms have d: "strstr (old @ div_marker @ t) div_marker = Some (div_marker @ t)"
    and r: "strstr (new @ replace_marker @ t) replace_marker = Some (replace_marker @ t)" for t
    by (simp_all only: strstr_unbordered)
  show ?thesis by (subst patch_blocks.simps) (simp add: Let_def d r split: option.split)
qed

text \<open>A block whose parts can be told apart: the text to find does not hold the divider line, and the
  replacement does not hold the end marker.\<close>

definition block_ok :: "cstr \<times> cstr \<Rightarrow> bool" where
  "block_ok b \<longleftrightarrow> strstr (fst b) div_marker = None \<and> strstr (snd b) replace_marker = None"

lemma patch_blocks_text:
  assumes "list_all block_ok bs"
  shows "case replace_all bs doc of
      Some doc' \<Rightarrow> patch_blocks path (patch_text bs) doc = Inr doc'
    | None \<Rightarrow> \<exists>old. patch_blocks path (patch_text bs) doc = Inl (mismatch_text path old)"
  using assms
proof (induction bs arbitrary: doc)
  case Nil
  have "strstr [] search_marker = None" by (simp add: strstr.simps search_marker_def)
  then show ?case by (simp add: patch_text_def patch_blocks.simps)
next
  case (Cons b bs)
  obtain old new where b: "b = (old, new)" by (cases b)
  have t: "patch_text (b # bs) = search_marker @ old @ div_marker @ new @ replace_marker @ LF # patch_text bs"
    by (simp add: b patch_text_def)
  have "strstr old div_marker = None" "strstr new replace_marker = None" using Cons.prems b by (auto simp: block_ok_def)
  then have e: "patch_blocks path (patch_text (b # bs)) doc =
    (case strstr doc old of None \<Rightarrow> Inl (mismatch_text path old)
     | Some hit \<Rightarrow> patch_blocks path (patch_text bs) (between doc hit @ new @ drop (length old) hit))"
    unfolding t by (subst patch_blocks_step) (simp_all add: patch_blocks_skip split: option.split)
  show ?case
  proof (cases "strstr doc old")
    case None
    with e show ?thesis by (auto simp: b)
  next
    case (Some hit)
    have "list_all block_ok bs" using Cons.prems by simp
    from Cons.IH[OF this, of "between doc hit @ new @ drop (length old) hit"] show ?thesis
      unfolding e Some option.case unfolding b replace_all.simps Some option.case .
  qed
qed

section \<open>Windows of a file\<close>

definition line_entries :: "nat \<Rightarrow> nat \<Rightarrow> cstr list \<Rightarrow> cstr" where
  "line_entries start_line max_lines ls =
     concat (map (\<lambda>(n, l). numbered_line n l) (take max_lines (drop (start_line - 1) (zip [1..<length ls + 1] ls))))"

lemma window_before:
  "c < s \<Longrightarrow> 1 \<le> m \<Longrightarrow>
     window_loop s m ls c 0 [] = window_loop s m (drop (s - c) ls) s 0 []"
proof (induction "s - c" arbitrary: c ls)
  case (Suc k)
  show ?case
  proof (cases ls)
    case (Cons l ls')
    have "window_loop s m ls c 0 [] = window_loop s m ls' (c + 1) 0 []"
      using Suc.prems by (simp add: Cons)
    also have "\<dots> = window_loop s m (drop (s - (c + 1)) ls') s 0 []"
    proof (cases "c + 1 < s")
      case True
      then show ?thesis using Suc by simp
    next
      case False
      with Suc.prems have "c + 1 = s" by simp
      then show ?thesis by simp
    qed
    finally show ?thesis using Suc.prems by (simp add: Cons drop_Cons' Suc_diff_Suc[symmetric])
  qed simp
qed simp

lemma window_inside:
  "k < m \<Longrightarrow> length (ds @ concat (map (\<lambda>(n, l). numbered_line n l) (take (m - k) (zip [s + k..<s + k + length ls] ls)))) \<le> 100000 \<Longrightarrow>
     window_loop s m ls (s + k) k ds =
       ds @ concat (map (\<lambda>(n, l). numbered_line n l) (take (m - k) (zip [s + k..<s + k + length ls] ls)))"
proof (induction ls arbitrary: k ds)
  case (Cons l ls)
  have z: "zip [s + k..<s + k + length (l # ls)] (l # ls) = (s + k, l) # zip [s + Suc k..<s + Suc k + length ls] ls"
    by (simp add: upt_conv_Cons del: upt_Suc)
  obtain j where j: "m - k = Suc j" "m - Suc k = j" using Cons.prems(1) by (cases "m - k") auto
  have le: "length (ds @ numbered_line (s + k) l) \<le> 100000"
    using Cons.prems(2) unfolding z j(1) by simp
  show ?case
  proof (cases "Suc k < m")
    case True
    have "window_loop s m ls (s + Suc k) (Suc k) (ds @ numbered_line (s + k) l) =
        (ds @ numbered_line (s + k) l) @ concat (map (\<lambda>(n, l). numbered_line n l) (take (m - Suc k)
          (zip [s + Suc k..<s + Suc k + length ls] ls)))"
      by (rule Cons.IH[OF True]) (use Cons.prems(2) in \<open>simp only: z j take_Suc_Cons list.map concat.simps, simp\<close>)
    with True le z j show ?thesis by simp
  next
    case False
    with Cons.prems(1) have "j = 0" using j by simp
    with False le z j Cons.prems(1) show ?thesis by simp
  qed
qed simp

lemma window_slice:
  assumes "1 \<le> s" and "1 \<le> m" and "length (line_entries s m ls) \<le> 100000"
  shows "window_loop s m ls 1 0 [] = line_entries s m ls"
proof -
  have z: "drop (s - 1) (zip [1..<length ls + 1] ls) = zip [s..<s + length (drop (s - 1) ls)] (drop (s - 1) ls)"
  proof (cases "s - 1 \<le> length ls")
    case True
    with assms(1) have "s + (length ls - (s - 1)) = length ls + 1" by simp
    with assms(1) show ?thesis by (simp add: drop_zip)
  qed (use assms(1) in \<open>simp add: drop_zip\<close>)
  have "window_loop s m ls 1 0 [] = window_loop s m (drop (s - 1) ls) s 0 []"
  proof (cases "1 < s")
    case True
    then show ?thesis using window_before[of 1 s m ls] assms(2) by simp
  next
    case False
    with assms(1) have "s = 1" by simp
    then show ?thesis by simp
  qed
  also have "\<dots> = line_entries s m ls"
    using window_inside[of 0 m "[]" s "drop (s - 1) ls"] assms unfolding line_entries_def z by simp
  finally show ?thesis .
qed

section \<open>Properties\<close>

text \<open>C20: A file tool changes at most the file its arguments name: \<open>write_file\<close>, \<open>edit_file\<close> and
  \<open>apply_patch\<close> change nothing unless the path passes the write jail, the harness is no router and
  plan mode is off, and then only that file and, when the name has the extension of a language that is
  checked, the files which the programs of the check write (\<open>check_footprint\<close>: the byte code of
  \<open>python3 -m py_compile\<close>, for one).\<close>

theorem file_tools_confined:
  assumes "tool \<in> {tool_write_file, tool_edit_file, tool_apply_patch}"
    and "tool env args d = (msg, d')" and "d' \<noteq> d" and "check_footprint env W"
  shows "\<exists>path. json_obj_get_str args ''path'' = Some path \<and> jailed env path True \<and>
    (\<forall>g. guards env = Some g \<longrightarrow> \<not> router g \<and> \<not> planning g) \<and>
    (\<forall>f. f \<noteq> resolve env path \<and> (f \<notin> W path \<or> checked_by path = None) \<longrightarrow> d' f = d f)"
  using assms write_tool.confined edit_tool.confined patch_tool.confined by auto

definition sample_tools :: tool_env where
  "sample_tools = \<lparr>jail_fs = sample_fs, resolve = (\<lambda>p. p), can_write = (\<lambda>p. True),
     compiler = (\<lambda>argv d. (No_Run, d)), lsp_check = (\<lambda>p d. (None, d)),
     workspace_root = Some ''/ws'',
     guards = Some \<lparr>router = False, planning = False\<rparr>\<rparr>"

definition str_args :: "(cstr \<times> cstr) list \<Rightarrow> JsonValue option" where
  "str_args kvs = Some (JSON_OBJECT (map (\<lambda>(k, v). (k, JSON_STRING v)) kvs))"

lemma str_args_get [simp]: "json_obj_get_str (str_args kvs) key = map_of kvs key"
  by (induction kvs) (auto simp: str_args_def json_obj_get_str_def json_obj_get_def split: option.splits)

lemma sample_jail: "jailed sample_tools ''/ws/src'' True"
  by code_simp

lemma sample_tools_simps [simp]:
  "resolve sample_tools p = p" "can_write sample_tools p" "mutation_refusal sample_tools what = None"
  by (simp_all add: sample_tools_def mutation_refusal_def)

lemma sample_no_check [simp]: "belya_harness_preflight_check sample_tools d ''/ws/src'' = (None, d)"
  by (simp add: belya_harness_preflight_check_def checked_by_def is_json_file_def)

text \<open>A checker that leaves byte code beside a Python file.\<close>

definition pyc :: cstr where "pyc = ''/ws/src/__pycache__/a.pyc''"

definition python_tools :: tool_env where
  "python_tools = sample_tools\<lparr>compiler := (\<lambda>argv d. (Compiled True [], if hd argv = ''python3'' then d(pyc \<mapsto> ''code'') else d))\<rparr>"

lemma python_footprint: "check_footprint python_tools (\<lambda>path. {pyc})"
  by (auto simp: check_footprint_def python_tools_def sample_tools_def)

theorem file_tools_confined_witness:
  "\<exists>msg d'. tool_write_file python_tools (str_args [(''path'', ''/ws/src/a.py''), (''content'', ''x'')]) Map.empty = (msg, d') \<and>
     d' ''/ws/src/a.py'' = Some ''x'' \<and> d' pyc = Some ''code'' \<and>
     (\<forall>f. f \<noteq> ''/ws/src/a.py'' \<and> f \<noteq> pyc \<longrightarrow> d' f = None)"
proof -
  let ?args = "str_args [(''path'', ''/ws/src/a.py''), (''content'', ''x'')]"
  let ?d = "[''/ws/src/a.py'' \<mapsto> ''x'', pyc \<mapsto> ''code'']"
  have j: "jailed python_tools ''/ws/src/a.py'' True" by code_simp
  have c: "checked_by ''/ws/src/a.py'' = Some [''python3'', ''-m'', ''py_compile'', ''/ws/src/a.py'']" by code_simp
  have r: "resolve python_tools = (\<lambda>p. p)" "can_write python_tools = (\<lambda>p. True)" "mutation_refusal python_tools what = None" for what
    by (simp_all add: python_tools_def sample_tools_def mutation_refusal_def)
  have w: "tool_write_file python_tools ?args Map.empty = (''File successfully written to disk.'', ?d)"
    by (simp add: tool_write_file_def j r put_file_def belya_harness_preflight_check_def c with_diag_def)
      (simp add: python_tools_def sample_tools_def)
  have "?d \<noteq> Map.empty" by simp
  from file_tools_confined[where tool = tool_write_file, OF _ w this python_footprint] obtain path where
    p: "json_obj_get_str ?args ''path'' = Some path" "\<forall>f. f \<noteq> path \<and> f \<noteq> pyc \<longrightarrow> ?d f = None" by (auto simp: r)
  then show ?thesis using w by (auto simp: pyc_def)
qed

text \<open>C21: A patch is all or nothing: a patch of blocks, of which no text to find holds the line that
  divides a block and no replacement holds the marker that ends one, replaces the first occurrence of
  each block's text in turn and then has the file checked; when one of the texts is missing the disk is
  left as it was. The file is at most 2 MB and patched up to its first NUL.\<close>

theorem patch_is_all_or_nothing:
  assumes "json_obj_get_str args ''path'' = Some path" and "json_obj_get_str args ''patch'' = Some (patch_text bs)"
    and "bs \<noteq> []" and "list_all block_ok bs"
    and "mutation_refusal env ''patch'' = None" and "jailed env path True" and "can_write env path"
    and "file_bytes env d path = Some bytes" and "length bytes \<le> 2000000"
  shows "snd (tool_apply_patch env args d) =
    (case replace_all bs (c_string bytes) of None \<Rightarrow> d
     | Some doc \<Rightarrow> snd (belya_harness_preflight_check env (put_file env path doc d) path))"
proof -
  obtain old new bs' where b: "bs = (old, new) # bs'" using assms(3) by (cases bs) auto
  have t: "patch_text bs = search_marker @ old @ div_marker @ (new @ replace_marker @ LF # patch_text bs')"
    by (simp add: b patch_text_def)
  have m: "strstr (patch_text bs) search_marker \<noteq> None" unfolding t by simp
  have "strstr ((search_marker @ old) @ div_marker @ (new @ replace_marker @ LF # patch_text bs')) div_marker \<noteq> None"
    by (rule strstr_hit)
  then have v: "strstr (patch_text bs) div_marker \<noteq> None" unfolding t by simp
  from patch_blocks_text[OF assms(4), where doc = "c_string bytes" and path = path] assms(1,2,5-9) m v show ?thesis
    by (auto simp: tool_apply_patch_def Let_def case_prod_unfold split: option.splits)
qed

text \<open>Two blocks of code, with comparisons and arrows in them: both are replaced; and when the second
  text is missing, nothing is.\<close>

theorem patch_is_all_or_nothing_witness:
  "let patch = patch_text [(''if (a == b) x->y = 0;'', ''if (a >= b) x->y = 1;''), (''zz'', ''c'')] in
   snd (tool_apply_patch sample_tools (str_args [(''path'', ''/ws/src''), (''patch'', patch)])
     [''/ws/src'' \<mapsto> ''if (a == b) x->y = 0; zz'']) = [''/ws/src'' \<mapsto> ''if (a >= b) x->y = 1; c''] \<and>
   snd (tool_apply_patch sample_tools (str_args [(''path'', ''/ws/src''), (''patch'', patch)])
     [''/ws/src'' \<mapsto> ''if (a == b) x->y = 0; y'']) = [''/ws/src'' \<mapsto> ''if (a == b) x->y = 0; y'']"
proof -
  let ?bs = "[(''if (a == b) x->y = 0;'', ''if (a >= b) x->y = 1;''), (''zz'', ''c'')]"
  have r: "replace_all ?bs ''if (a == b) x->y = 0; zz'' = Some ''if (a >= b) x->y = 1; c''"
    "replace_all ?bs ''if (a == b) x->y = 0; y'' = None" by code_simp+
  have ok: "list_all block_ok ?bs" by code_simp
  note p = patch_is_all_or_nothing[where path = "''/ws/src''" and bs = ?bs and env = sample_tools, OF _ _ _ ok]
  show ?thesis unfolding Let_def
    by (subst p[where bytes = "''if (a == b) x->y = 0; zz''"], simp_all add: sample_jail file_bytes_def put_file_def r del: replace_all.simps)
      (subst p[where bytes = "''if (a == b) x->y = 0; y''"], simp_all add: sample_jail file_bytes_def r del: replace_all.simps)
qed

text \<open>C22: An edit whose old text occurs exactly once replaces that occurrence and nothing else: for a
  file of at most 500 KB without a NUL byte whose new text the syntax check accepts, the disk becomes
  the one the check leaves of it.\<close>

theorem unique_edit_is_exact:
  assumes "json_obj_get_str args ''path'' = Some path" and "json_obj_get_str args ''old_text'' = Some old"
    and "json_obj_get_str args ''new_text'' = Some new_text"
    and "mutation_refusal env ''file'' = None" and "jailed env path True" and "can_write env path"
    and "file_bytes env d path = Some (u @ old @ v)" and "length (u @ old @ v) \<le> 500000"
    and "nul_free (u @ old @ v)" and "old \<noteq> []"
    and "\<And>u' v'. u @ old @ v = u' @ old @ v' \<Longrightarrow> u' = u"
    and "belya_harness_preflight_check env (put_file env path (u @ new_text @ v) d) path = (None, d')"
  shows "tool_edit_file env args d = (edited_text path (length old) (length new_text), d')"
  using assms edit_unique[OF assms(9) refl assms(10,11), where path = path and new_text = new_text]
  by (simp add: tool_edit_file_def Let_def)

theorem unique_edit_is_exact_witness:
  "tool_edit_file sample_tools (str_args [(''path'', ''/ws/src''), (''old_text'', ''b''), (''new_text'', ''xy'')])
     [''/ws/src'' \<mapsto> ''abc''] = (edited_text ''/ws/src'' 1 2, [''/ws/src'' \<mapsto> ''axyc''])"
proof -
  have "u' = ''a''" if "''a'' @ ''b'' @ ''c'' = u' @ ''b'' @ v'" for u' v'
    using that by (cases u' rule: list.exhaust) (auto simp: Cons_eq_append_conv)
  from unique_edit_is_exact[of "str_args [(''path'', ''/ws/src''), (''old_text'', ''b''), (''new_text'', ''xy'')]"
      "''/ws/src''" "''b''" "''xy''" sample_tools "[''/ws/src'' \<mapsto> ''abc'']" "''a''" "''c''", OF _ _ _ _ _ _ _ _ _ _ this]
  show ?thesis by (simp add: sample_jail file_bytes_def put_file_def numeral_2_eq_2)
qed

text \<open>With \<open>verify_compile\<close>, an edit either leaves the file as it was or leaves what the syntax check
  made of an updated file that it accepted.\<close>

theorem verified_edit_compiles:
  assumes "json_obj_get_bool args ''verify_compile'' False" and "json_obj_get_str args ''path'' = Some path"
    and "tool_edit_file env args d = (msg, d')"
  shows "file_bytes env d' path = file_bytes env d path \<or>
    (\<exists>updated. belya_harness_preflight_check env (put_file env path updated d) path = (None, d'))"
  using assms by (auto simp: tool_edit_file_def Let_def split: option.splits sum.splits if_splits prod.splits)

theorem verified_edit_compiles_witness:
  "\<exists>msg d'. tool_edit_file (sample_tools\<lparr>compiler := (\<lambda>argv d. (Compiled False ''bad'', d))\<rparr>)
      (Some (JSON_OBJECT [(''path'', JSON_STRING ''/ws/src''), (''old_text'', JSON_STRING ''b''),
         (''new_text'', JSON_STRING ''c''), (''verify_compile'', JSON_BOOL True)])) [''/ws/src'' \<mapsto> ''b''] = (msg, d') \<and>
    (d' ''/ws/src'' = Some ''b'' \<or>
     (\<exists>updated. belya_harness_preflight_check (sample_tools\<lparr>compiler := (\<lambda>argv d. (Compiled False ''bad'', d))\<rparr>)
        [''/ws/src'' \<mapsto> updated] ''/ws/src'' = (None, d')))"
proof -
  let ?args = "Some (JSON_OBJECT [(''path'', JSON_STRING ''/ws/src''), (''old_text'', JSON_STRING ''b''),
         (''new_text'', JSON_STRING ''c''), (''verify_compile'', JSON_BOOL True)])"
  let ?env = "sample_tools\<lparr>compiler := (\<lambda>argv d. (Compiled False ''bad'', d))\<rparr>"
  have r: "resolve ?env = (\<lambda>p. p)" by (simp add: sample_tools_def)
  obtain msg d' where e: "tool_edit_file ?env ?args [''/ws/src'' \<mapsto> ''b''] = (msg, d')" by (cases "tool_edit_file ?env ?args [''/ws/src'' \<mapsto> ''b'']")
  from verified_edit_compiles[OF _ _ e, of "''/ws/src''"] e show ?thesis
    by (auto simp: json_obj_get_bool_def json_obj_get_str_def json_obj_get_def file_bytes_def put_file_def r)
qed

text \<open>A whitespace-tolerant edit of one line also takes the end of the line: when the old text
  matches a line only up to its padding, the line feed behind it is replaced as well, so the next
  line is joined to the new text.\<close>

theorem padded_edit_joins_lines:
  assumes "list_all is_pad i" and "list_all is_pad j" and "unpadded l"
    and "nul_free (i @ l @ LF # rest)"
    and "strstr (i @ l @ LF # rest) (j @ l) = None" and "strstr rest (j @ l) = None"
  shows "edit_bytes path (j @ l) new_text (i @ l @ LF # rest) = Inr (new_text @ rest, length (i @ l @ [LF]))"
  using locate_padded[OF assms(1-3,5)] assms(4,6) by (simp add: edit_bytes_def Let_def)

theorem padded_edit_joins_lines_witness:
  "edit_bytes ''f'' ([TAB] @ ''a;'') (TAB # ''b;'') (''    '' @ ''a;'' @ LF # ''c;'') = Inr ((TAB # ''b;'') @ ''c;'', 7)"
  by (subst padded_edit_joins_lines) (code_simp | simp)+

text \<open>The check for ambiguity does not apply to such a match: when two lines agree with the old
  text up to their padding, the first is edited without a word.\<close>

theorem padded_edit_ignores_ambiguity:
  assumes "list_all is_pad i" and "list_all is_pad i'" and "list_all is_pad j" and "unpadded l"
    and "nul_free (i @ l @ LF # i' @ l @ LF # rest)"
    and "strstr (i @ l @ LF # i' @ l @ LF # rest) (j @ l) = None"
  shows "edit_bytes path (j @ l) new_text (i @ l @ LF # i' @ l @ LF # rest) =
    Inr (new_text @ i' @ l @ LF # rest, length (i @ l @ [LF]))"
proof -
  have "strstr (i' @ l @ LF # rest) (j @ l) = None"
  proof (rule ccontr)
    assume "strstr (i' @ l @ LF # rest) (j @ l) \<noteq> None"
    then obtain x y where "i' @ l @ LF # rest = x @ (j @ l) @ y" unfolding strstr_None_iff by blast
    then have "i @ l @ LF # i' @ l @ LF # rest = (i @ l @ LF # x) @ (j @ l) @ y" by simp
    with assms(6) show False unfolding strstr_None_iff by blast
  qed
  with locate_padded[OF assms(1,3,4,6)] assms(5) show ?thesis by (simp add: edit_bytes_def Let_def)
qed

theorem padded_edit_ignores_ambiguity_witness:
  "edit_bytes ''f'' ([TAB] @ ''a;'') ''b;'' (''  '' @ ''a;'' @ LF # '' '' @ ''a;'' @ LF # []) = Inr (''b;'' @ '' '' @ ''a;'' @ LF # [], 5)"
  by (subst padded_edit_ignores_ambiguity) (code_simp | simp)+

text \<open>A patch loses what stands behind a NUL byte: the file is read whole, but the patched text is
  written up to its first NUL.\<close>

theorem patch_truncates_at_nul:
  assumes "nul_free a" and "patch_blocks path patch a = Inr doc"
    and "json_obj_get_str args ''path'' = Some path" and "json_obj_get_str args ''patch'' = Some patch"
    and "strstr patch search_marker \<noteq> None" and "strstr patch div_marker \<noteq> None"
    and "mutation_refusal env ''patch'' = None" and "jailed env path True" and "can_write env path"
    and "file_bytes env d path = Some (a @ NUL # b)" and "length (a @ NUL # b) \<le> 2000000"
  shows "snd (tool_apply_patch env args d) = snd (belya_harness_preflight_check env (put_file env path doc d) path)"
proof -
  have "c_string (a @ NUL # b) = a"
    using assms(1) unfolding c_string_def nul_free_def by (induction a) auto
  with assms show ?thesis by (auto simp: tool_apply_patch_def Let_def case_prod_unfold)
qed

theorem patch_truncates_at_nul_witness:
  "snd (tool_apply_patch sample_tools (str_args [(''path'', ''/ws/src''), (''patch'', patch_text [(''x'', ''y'')])])
     [''/ws/src'' \<mapsto> ''x'' @ NUL # ''rest'']) = [''/ws/src'' \<mapsto> ''y'']"
proof -
  have p: "patch_blocks ''/ws/src'' (patch_text [(''x'', ''y'')]) ''x'' = Inr ''y''" by code_simp
  have m: "strstr (patch_text [(''x'', ''y'')]) search_marker \<noteq> None" "strstr (patch_text [(''x'', ''y'')]) div_marker \<noteq> None"
    by code_simp+
  show ?thesis
    by (subst patch_truncates_at_nul[OF _ p, where b = "''rest''"])
       (use m in \<open>simp_all add: sample_jail file_bytes_def put_file_def\<close>)
qed

text \<open>A window of a file is its lines: when the text fits, \<open>read_file\<close> with an offset and a limit
  gives the lines from the offset on, as many as the limit, each with its number.\<close>

theorem read_window_is_slice:
  assumes "1 \<le> start_line" and "1 \<le> max_lines"
    and "length (line_entries start_line max_lines (fgets_chunks LINE_BUF bytes)) \<le> 100000"
    and "line_entries start_line max_lines (fgets_chunks LINE_BUF bytes) \<noteq> []"
  shows "read_window start_line max_lines bytes = line_entries start_line max_lines (fgets_chunks LINE_BUF bytes)"
  using window_slice[OF assms(1-3)] assms(4) by (simp add: read_window_def Let_def)

theorem read_window_is_slice_witness:
  "read_window 2 1 (''a'' @ LF # ''b'' @ LF # ''c'') = numbered_line 2 (''b'' @ [LF])"
proof -
  have l: "line_entries 2 1 (fgets_chunks 4096 (''a'' @ LF # ''b'' @ LF # ''c'')) = numbered_line 2 (''b'' @ [LF])"
  proof -
    have "fgets_chunks 4096 (''a'' @ LF # ''b'' @ LF # ''c'') = [''a'' @ [LF], ''b'' @ [LF], ''c'']"
      by (simp add: fgets_chunks.simps fgets_chunk_def)
    then show ?thesis by (simp add: line_entries_def upt_rec numeral_2_eq_2)
  qed
  have n: "numbered_line 2 (''b'' @ [LF]) = ''    2 | b'' @ [LF]" by code_simp
  show ?thesis
    using read_window_is_slice[of 2 1 "''a'' @ LF # ''b'' @ LF # ''c''"] unfolding LINE_BUF_def l unfolding n by simp
qed

text \<open>C23: Whatever numbers the model sends, reading a file never casts a number that does not fit:
  negative, huge and infinite ones are clamped, and a NaN counts as absent.\<close>

theorem read_file_casts_defined: "tool_read_file env args d \<noteq> None"
proof -
  have "cast_or n (size_clamped x bound) \<noteq> None" if "bound < 2 ^ 53" for n x bound
  proof (cases "double_gt0 (size_clamped x bound)")
    case True
    let ?y = "if double_lt0 x then DFin False 0 0 else x"
    show ?thesis
    proof (cases "double_gt ?y bound")
      case True
      then show ?thesis using that by (simp add: cast_or_def size_clamped_def Let_def)
    next
      case False
      have "?y \<noteq> DNan neg" for neg
        using True False by (auto simp: double_gt0_def size_clamped_def double_gt_def)
      moreover have "\<not> double_lt0 ?y" by (simp add: double_lt0_def)
      ultimately show ?thesis
        using clamped_cast[of ?y bound] False that by (auto simp: cast_or_def size_clamped_def Let_def)
    qed
  qed (simp add: cast_or_def)
  then have "cast_or 1 (size_clamped x 100000000) \<noteq> None" "cast_or 200 (size_clamped x 1000000) \<noteq> None" for x
    by simp_all
  then obtain a b where
    "cast_or 1 (size_clamped (json_obj_get_num args ''offset'' (DFin False 0 0)) 100000000) = Some a"
    "cast_or 200 (size_clamped (json_obj_get_num args ''limit'' (DFin False 0 0)) 1000000) = Some b"
    by blast
  then show ?thesis
    by (simp add: tool_read_file_def Let_def split: option.split)
qed

end
