(* ===== verification/Notebook.thy ===== *)
theory Notebook
  imports FileTools JsonInt
begin

text \<open>
  The tool \<open>edit_notebook\<close> of \<open>belya_harness.c\<close> on Jupyter notebooks: \<open>read\<close>, \<open>replace_cell\<close>,
  \<open>insert_cell\<close> and \<open>delete_cell\<close>. The tree of the file is edited and serialised again, so the
  rewritten file is the text of the new tree. A result carries the message, the disk and the
  entries for the timeline; None is undefined behaviour: an index that does not fit an \<open>int\<close>, or a
  cell of another kind whose members are read. Values are zeroed when they are made, so \<open>null\<close> and
  an empty array have no members to read; of the other kinds the union leaves these bytes open.
\<close>

section \<open>Cells\<close>

fun set_member :: "cstr \<Rightarrow> JsonValue \<Rightarrow> (cstr \<times> JsonValue) list \<Rightarrow> (cstr \<times> JsonValue) list" where
  "set_member key v [] = []"
| "set_member key v ((k, w) # ms) = (if k = key then (k, v) # ms else (k, w) # set_member key v ms)"

definition with_source :: "cstr \<Rightarrow> (cstr \<times> JsonValue) list \<Rightarrow> (cstr \<times> JsonValue) list" where
  "with_source source ms =
     (if member_get ms ''source'' = None then ms @ [(''source'', JSON_STRING source)]
      else set_member ''source'' (JSON_STRING source) ms)"

definition with_type :: "cstr option \<Rightarrow> (cstr \<times> JsonValue) list \<Rightarrow> (cstr \<times> JsonValue) list" where
  "with_type cell_type ms =
     (case cell_type of None \<Rightarrow> ms | Some t \<Rightarrow> set_member ''cell_type'' (JSON_STRING t) ms)"

definition replaced_cell :: "cstr option \<Rightarrow> cstr \<Rightarrow> JsonValue \<Rightarrow> JsonValue option" where
  "replaced_cell cell_type source c =
     (case c of
        JSON_OBJECT ms \<Rightarrow> Some (JSON_OBJECT (with_type cell_type (with_source source ms)))
      | JSON_NULL \<Rightarrow> Some c
      | JSON_ARRAY [] \<Rightarrow> Some c
      | _ \<Rightarrow> None)"

definition new_cell :: "cstr \<Rightarrow> cstr \<Rightarrow> JsonValue" where
  "new_cell ctype source =
     JSON_OBJECT ([(''cell_type'', JSON_STRING ctype), (''metadata'', JSON_OBJECT []), (''source'', JSON_STRING source)] @
       (if ctype = ''code'' then [(''execution_count'', JSON_NULL), (''outputs'', JSON_ARRAY [])] else []))"

definition index_ok :: "int \<Rightarrow> JsonValue list \<Rightarrow> bool" where
  "index_ok cell_index cells \<longleftrightarrow> 0 \<le> cell_index \<and> nat cell_index < length cells"

definition insert_index :: "int \<Rightarrow> JsonValue list \<Rightarrow> nat" where
  "insert_index cell_index cells =
     (if 0 \<le> cell_index \<and> nat cell_index \<le> length cells then nat cell_index else length cells)"

section \<open>read\<close>

definition source_text :: "JsonValue option \<Rightarrow> cstr" where
  "source_text src_val =
     (case src_val of
        Some (JSON_STRING s) \<Rightarrow> s
      | Some (JSON_ARRAY xs) \<Rightarrow> concat (map (\<lambda>x. case x of JSON_STRING s \<Rightarrow> s | _ \<Rightarrow> []) xs)
      | _ \<Rightarrow> [])"

definition cell_text :: "nat \<Rightarrow> JsonValue \<Rightarrow> cstr" where
  "cell_text i c =
     (let ctype = json_obj_get_str (Some c) ''cell_type'';
          exec_cnt = json_obj_get_num (Some c) ''execution_count'' (DFin True 1 0);
          out_cnt = (case json_obj_get (Some c) ''outputs'' of Some (JSON_ARRAY xs) \<Rightarrow> length xs | _ \<Rightarrow> 0) in
      ''--- [Cell '' @ dec_text i @ ''] (type: '' @ (case ctype of None \<Rightarrow> ''code'' | Some t \<Rightarrow> t) @
      (if ctype = Some ''code'' then
         (if double_ge0 exec_cnt then '', execution_count: '' @ fixed0 exec_cnt else []) @ '', outputs: '' @ dec_text out_cnt
       else []) @
      '') ---'' @ [LF] @ source_text (json_obj_get (Some c) ''source'') @ [LF, LF])"

definition notebook_text :: "cstr \<Rightarrow> JsonValue \<Rightarrow> JsonValue list \<Rightarrow> cstr" where
  "notebook_text path nb cells =
     ''### Jupyter Notebook: '' @ path @ '' ('' @ dec_text (length cells) @ '' cells, format v'' @
     fixed0 (json_obj_get_num (Some nb) ''nbformat'' (double_of_nat 4)) @ ''.'' @
     fixed0 (json_obj_get_num (Some nb) ''nbformat_minor'' (double_of_nat 2)) @ '')'' @ [LF, LF] @
     concat (map (\<lambda>(i, c). cell_text i c) (zip [0..<length cells] cells))"

section \<open>Editing\<close>

definition out_of_bounds :: "int \<Rightarrow> JsonValue list \<Rightarrow> cstr" where
  "out_of_bounds cell_index cells = ''Error: Cell index '' @ int_text cell_index @
     '' out of bounds (notebook has '' @ dec_text (length cells) @ '' cells).''"

text \<open>What an action makes of the cells: an error, or the new cells, the report and the timeline's
  event.\<close>

type_synonym cell_edit = "cstr + (JsonValue list \<times> cstr \<times> cstr)"

definition replace_cell :: "cstr \<Rightarrow> int \<Rightarrow> cstr option \<Rightarrow> cstr option \<Rightarrow> JsonValue list \<Rightarrow> cell_edit option" where
  "replace_cell path cell_index cell_type source cells =
     (if \<not> index_ok cell_index cells then Some (Inl (out_of_bounds cell_index cells))
      else case source of None \<Rightarrow> Some (Inl ''Error: Missing source argument for replace_cell.'')
        | Some src \<Rightarrow>
          map_option (\<lambda>c. Inr (cells[nat cell_index := c],
              ''Cell '' @ int_text cell_index @ '' successfully replaced in notebook '' @ [SQ] @ path @ [SQ] @ ''.'',
              ''notebook_cell_replaced''))
            (replaced_cell cell_type src (cells ! nat cell_index)))"

definition insert_cell :: "cstr \<Rightarrow> int \<Rightarrow> cstr option \<Rightarrow> cstr option \<Rightarrow> JsonValue list \<Rightarrow> cell_edit" where
  "insert_cell path cell_index cell_type source cells =
     (case source of None \<Rightarrow> Inl ''Error: Missing source argument for insert_cell.''
      | Some src \<Rightarrow>
        let ctype = (case cell_type of None \<Rightarrow> ''code'' | Some t \<Rightarrow> t); ins_idx = insert_index cell_index cells in
        Inr (take ins_idx cells @ new_cell ctype src # drop ins_idx cells,
          ''New '' @ ctype @ '' cell successfully inserted at index '' @ dec_text ins_idx @ '' in '' @ [SQ] @ path @ [SQ] @ ''.'',
          ''notebook_cell_inserted''))"

definition delete_cell :: "cstr \<Rightarrow> int \<Rightarrow> JsonValue list \<Rightarrow> cell_edit" where
  "delete_cell path cell_index cells =
     (if \<not> index_ok cell_index cells then Inl (out_of_bounds cell_index cells)
      else Inr (take (nat cell_index) cells @ drop (Suc (nat cell_index)) cells,
        ''Cell '' @ int_text cell_index @ '' successfully deleted from notebook '' @ [SQ] @ path @ [SQ] @ ''.'',
        ''notebook_cell_deleted''))"

definition edit_cells :: "cstr \<Rightarrow> cstr \<Rightarrow> int \<Rightarrow> cstr option \<Rightarrow> cstr option \<Rightarrow> JsonValue list \<Rightarrow> cell_edit option" where
  "edit_cells path act cell_index cell_type source cells =
     (if act = ''replace_cell'' then replace_cell path cell_index cell_type source cells
      else if act = ''insert_cell'' then Some (insert_cell path cell_index cell_type source cells)
      else if act = ''delete_cell'' then Some (delete_cell path cell_index cells)
      else Some (Inl (''Error: Unrecognized notebook action ('' @ [SQ] @ ''read'' @ [SQ] @ '', '' @ [SQ] @ ''replace_cell'' @ [SQ] @ '', '' @
        [SQ] @ ''insert_cell'' @ [SQ] @ '', '' @ [SQ] @ ''delete_cell'' @ [SQ] @ '').'')))"

text \<open>The action \<open>replace_cell\<close> has its own words for a file that cannot be written.\<close>

definition write_failure :: "cstr \<Rightarrow> cstr" where
  "write_failure act = (if act = ''replace_cell'' then ''Error: Failed to open notebook file for writing.''
     else ''Error: Failed to write notebook file.'')"

section \<open>The tool\<close>

type_synonym tool_result = "cstr \<times> disk \<times> (cstr \<times> cstr) list"

definition NOTEBOOK_LIMIT :: nat where "NOTEBOOK_LIMIT = 10 * 1024 * 1024"

definition parse_notebook :: "cstr \<Rightarrow> cstr + ((cstr \<times> JsonValue) list \<times> JsonValue list)" where
  "parse_notebook bytes =
     (if bytes = [] \<or> length bytes > NOTEBOOK_LIMIT
      then Inl ''Error: Invalid notebook file size (empty or exceeds 10MB limit).''
      else case json_parse (Some (c_string bytes)) of
        Some (JSON_OBJECT ms) \<Rightarrow>
          (case member_get ms ''cells'' of
             Some (JSON_ARRAY cells) \<Rightarrow> Inr (ms, cells)
           | _ \<Rightarrow> Inl (''Error: Notebook missing top-level '' @ [SQ] @ ''cells'' @ [SQ] @ '' array.''))
      | _ \<Rightarrow> Inl ''Error: Notebook is not valid JSON.'')"

definition store_notebook :: "tool_env \<Rightarrow> disk \<Rightarrow> cstr \<Rightarrow> cstr \<Rightarrow> (cstr \<times> JsonValue) list \<Rightarrow> cell_edit \<Rightarrow> tool_result" where
  "store_notebook env d path act ms ed =
     (case ed of Inl m \<Rightarrow> (m, d, [])
      | Inr (cells', report, ev) \<Rightarrow>
        if can_write env path
        then (report, put_file env path (json_text (JSON_OBJECT (set_member ''cells'' (JSON_ARRAY cells') ms))) d, [(ev, path)])
        else (write_failure act, d, []))"

definition belya_harness_edit_notebook ::
    "tool_env \<Rightarrow> tool_guard \<Rightarrow> disk \<Rightarrow> cstr option \<Rightarrow> cstr option \<Rightarrow> int \<Rightarrow> cstr option \<Rightarrow> cstr option \<Rightarrow> tool_result option" where
  "belya_harness_edit_notebook env h d path_arg action_arg cell_index cell_type source =
     (case (nonempty path_arg, nonempty action_arg) of
        (None, _) \<Rightarrow> Some (''Error: Missing path argument.'', d, [])
      | (_, None) \<Rightarrow> Some (''Error: Missing action argument ('' @ [SQ] @ ''read'' @ [SQ] @ '', '' @ [SQ] @ ''replace_cell'' @ [SQ] @ '', '' @
          [SQ] @ ''insert_cell'' @ [SQ] @ '', '' @ [SQ] @ ''delete_cell'' @ [SQ] @ '').'', d, [])
      | (Some path, Some act) \<Rightarrow>
        let is_write = (act \<noteq> ''read'') in
        if \<not> jailed env path is_write
        then Some (''Blocked: Path '' @ [SQ] @ path @ [SQ] @ '' is outside the workspace jail.'', d, [])
        else if planning h \<and> is_write
        then Some (''Blocked: Plan Mode is active (read-only execution). Notebook editing is prohibited.'', d, [])
        else case file_bytes env d path of
          None \<Rightarrow> Some (''Error: Could not open notebook file '' @ [SQ] @ path @ [SQ] @ '': No such file or directory'', d, [])
        | Some bytes \<Rightarrow>
          (case parse_notebook bytes of
             Inl m \<Rightarrow> Some (m, d, [])
           | Inr (ms, cells) \<Rightarrow>
             if act = ''read'' then Some (notebook_text path (JSON_OBJECT ms) cells, d, [])
             else map_option (store_notebook env d path act ms)
                    (edit_cells path act cell_index cell_type source cells)))"

definition tool_edit_notebook :: "tool_env \<Rightarrow> JsonValue option \<Rightarrow> disk \<Rightarrow> tool_result option" where
  "tool_edit_notebook env args d =
     (case guards env of None \<Rightarrow> Some (''Error: Harness execution environment unavailable.'', d, [])
      | Some h \<Rightarrow>
        (case int_of_double (json_obj_get_num args ''cell_index'' (DFin True 1 0)) of None \<Rightarrow> None
         | Some cell_idx \<Rightarrow>
           belya_harness_edit_notebook env h d (json_obj_get_str args ''path'') (json_obj_get_str args ''action'') cell_idx
             (json_obj_get_str args ''cell_type'') (json_obj_get_str args ''source'')))"

section \<open>Lemmas\<close>

lemma member_get_set_member:
  "member_get (set_member k v ms) k' = (if k' = k \<and> member_get ms k \<noteq> None then Some v else member_get ms k')"
  by (induction ms rule: set_member.induct) auto

lemma set_member_ok:
  "json_ok (JSON_OBJECT ms) \<Longrightarrow> json_ok v \<Longrightarrow> json_ok (JSON_OBJECT (set_member k v ms))"
  by (induction k v ms rule: set_member.induct) auto

lemma jdepth_member: "member_get ms k = Some v \<Longrightarrow> jdepth v < jdepth (JSON_OBJECT ms)"
  by (induction ms k rule: member_get.induct) (auto split: if_splits)

lemma jdepth_set_member: "jdepth (JSON_OBJECT (set_member k v ms)) \<le> max (jdepth (JSON_OBJECT ms)) (Suc (jdepth v))"
  by (induction k v ms rule: set_member.induct) auto

lemma jdepth_array_le: "jdepth (JSON_ARRAY xs) \<le> Suc n \<longleftrightarrow> (\<forall>x \<in> set xs. jdepth x \<le> n)"
  by (induction xs) auto

lemma jdepth_object_append:
  "jdepth (JSON_OBJECT (ms @ ns)) = max (jdepth (JSON_OBJECT ms)) (jdepth (JSON_OBJECT ns))"
  by (induction ms) auto

lemma with_source_ok: "json_ok (JSON_OBJECT ms) \<Longrightarrow> nul_free src \<Longrightarrow> json_ok (JSON_OBJECT (with_source src ms))"
  using set_member_ok[of ms "JSON_STRING src" "''source''"] by (simp add: with_source_def nul_free_def)

lemma with_type_ok:
  "json_ok (JSON_OBJECT ms) \<Longrightarrow> (\<And>x. t = Some x \<Longrightarrow> nul_free x) \<Longrightarrow> json_ok (JSON_OBJECT (with_type t ms))"
  using set_member_ok[of ms "JSON_STRING (the t)" "''cell_type''"] by (cases t) (simp_all add: with_type_def)

lemma with_source_depth: "jdepth (JSON_OBJECT (with_source src ms)) \<le> max (jdepth (JSON_OBJECT ms)) 1"
  using jdepth_set_member[of "''source''" "JSON_STRING src" ms] jdepth_object_append[of ms "[(''source'', JSON_STRING src)]"]
  by (simp add: with_source_def del: jdepth.simps(2)) simp

lemma with_type_depth: "jdepth (JSON_OBJECT (with_type t ms)) \<le> max (jdepth (JSON_OBJECT ms)) 1"
  using jdepth_set_member[of "''cell_type''" "JSON_STRING (the t)" ms]
  by (cases t) (simp_all add: with_type_def del: jdepth.simps(2))

lemma replaced_cell_cases:
  assumes "replaced_cell t src c = Some c'"
  obtains "c' = c" | ms where "c = JSON_OBJECT ms" "c' = JSON_OBJECT (with_type t (with_source src ms))"
  using assms by (auto simp: replaced_cell_def split: JsonValue.splits list.splits)

lemma replaced_cell_ok:
  assumes "replaced_cell t src c = Some c'" and "json_ok c" and "nul_free src" and "\<And>x. t = Some x \<Longrightarrow> nul_free x"
  shows "json_ok c'"
  using assms(1)
proof (cases rule: replaced_cell_cases)
  case (2 ms)
  then show ?thesis using with_type_ok[OF with_source_ok] assms(2-4) by blast
qed (use assms(2) in simp)

lemma replaced_cell_depth:
  assumes "replaced_cell t src c = Some c'"
  shows "jdepth c' \<le> max (jdepth c) 1"
  using assms
proof (cases rule: replaced_cell_cases)
  case (2 ms)
  then show ?thesis
    using with_type_depth[of t "with_source src ms"] with_source_depth[of src ms] by (simp del: jdepth.simps(2))
qed simp

lemma replaced_cell_source:
  assumes "replaced_cell t src (JSON_OBJECT ms) = Some c'"
  shows "json_obj_get_str (Some c') ''source'' = Some src"
proof -
  have "member_get (with_source src ms) ''source'' = Some (JSON_STRING src)"
    by (auto simp: with_source_def member_get_append member_get_set_member)
  then have "member_get (with_type t (with_source src ms)) ''source'' = Some (JSON_STRING src)"
    by (simp add: with_type_def member_get_set_member split: option.split)
  with assms show ?thesis by (auto simp: replaced_cell_def json_obj_get_str_def json_obj_get_def)
qed

lemma new_cell_source: "json_obj_get_str (Some (new_cell t src)) ''source'' = Some src"
  by (simp add: new_cell_def json_obj_get_str_def json_obj_get_def)

lemma new_cell_ok: "nul_free src \<Longrightarrow> nul_free t \<Longrightarrow> json_ok (new_cell t src)"
  by (simp add: new_cell_def nul_free_def)

lemma new_cell_depth: "jdepth (new_cell t src) \<le> 2"
  by (simp add: new_cell_def)

text \<open>What each action means, cell by cell.\<close>

definition cells_edited :: "cstr \<Rightarrow> int \<Rightarrow> cstr \<Rightarrow> JsonValue list \<Rightarrow> JsonValue list \<Rightarrow> bool" where
  "cells_edited act i src cells cells' \<longleftrightarrow>
     (if act = ''replace_cell'' then
        length cells' = length cells \<and> 0 \<le> i \<and> nat i < length cells \<and>
        (\<forall>j < length cells. j \<noteq> nat i \<longrightarrow> cells' ! j = cells ! j) \<and>
        (is_object (cells ! nat i) \<longrightarrow> json_obj_get_str (Some (cells' ! nat i)) ''source'' = Some src)
      else if act = ''insert_cell'' then
        (\<exists>c k. cells' = take k cells @ c # drop k cells \<and> (0 \<le> i \<and> i \<le> int (length cells) \<longrightarrow> k = nat i) \<and>
           json_obj_get_str (Some c) ''source'' = Some src)
      else 0 \<le> i \<and> nat i < length cells \<and> cells' = take (nat i) cells @ drop (Suc (nat i)) cells)"

lemma edit_cells_edited:
  assumes "edit_cells path act i t source cells = Some (Inr (cells', report, ev))"
  shows "cells_edited act i (case source of None \<Rightarrow> [] | Some s \<Rightarrow> s) cells cells'"
proof -
  consider "act = ''replace_cell''" | "act = ''insert_cell''" | "act = ''delete_cell''"
    using assms by (auto simp: edit_cells_def split: if_splits)
  then show ?thesis
  proof cases
    case 1
    then obtain src c' where e: "source = Some src" "index_ok i cells" "replaced_cell t src (cells ! nat i) = Some c'"
        "cells' = cells[nat i := c']"
      using assms by (auto simp: edit_cells_def replace_cell_def split: if_splits option.splits)
    have "json_obj_get_str (Some c') ''source'' = Some src" if "is_object (cells ! nat i)"
      using that e(3) replaced_cell_source by (cases "cells ! nat i") (auto simp: is_object_def)
    with 1 e show ?thesis by (simp add: cells_edited_def index_ok_def)
  next
    case 2
    then have "\<exists>src. source = Some src \<and> cells' = take (insert_index i cells) cells @
        new_cell (case t of None \<Rightarrow> ''code'' | Some t \<Rightarrow> t) src # drop (insert_index i cells) cells"
      using assms by (auto simp: edit_cells_def insert_cell_def Let_def split: option.splits)
    moreover have "insert_index i cells = nat i" if "0 \<le> i" "i \<le> int (length cells)"
      using that by (simp add: insert_index_def nat_le_iff)
    ultimately show ?thesis using 2 new_cell_source unfolding cells_edited_def by fastforce
  next
    case 3
    with assms show ?thesis
      by (auto simp: edit_cells_def delete_cell_def cells_edited_def index_ok_def split: if_splits)
  qed
qed

lemma edit_cells_from:
  assumes e: "edit_cells path act i t source cells = Some (Inr (cells', report, ev))" and x: "x \<in> set cells'"
  shows "x \<in> set cells \<or> (\<exists>src. source = Some src \<and>
     (x = new_cell (case t of None \<Rightarrow> ''code'' | Some t \<Rightarrow> t) src \<or> (\<exists>c \<in> set cells. replaced_cell t src c = Some x)))"
proof -
  consider "act = ''replace_cell''" | "act = ''insert_cell''" | "act = ''delete_cell''"
    using e by (auto simp: edit_cells_def split: if_splits)
  then show ?thesis
  proof cases
    case 1
    then obtain src c' where r: "source = Some src" "nat i < length cells" "replaced_cell t src (cells ! nat i) = Some c'"
        "cells' = cells[nat i := c']"
      using e by (auto simp: edit_cells_def replace_cell_def index_ok_def split: if_splits option.splits)
    from r(4) x have "x = c' \<or> x \<in> set cells" using set_update_subset_insert by fastforce
    with r nth_mem show ?thesis by metis
  next
    case 2
    with e x show ?thesis
      by (auto simp: edit_cells_def insert_cell_def Let_def dest!: in_set_takeD in_set_dropD split: option.splits)
  next
    case 3
    with e x show ?thesis
      by (auto simp: edit_cells_def delete_cell_def dest!: in_set_takeD in_set_dropD split: if_splits)
  qed
qed

lemma edit_cells_ok:
  assumes e: "edit_cells path act i t source cells = Some (Inr (cells', report, ev))"
    and c: "list_all json_ok cells" "\<forall>x \<in> set cells. jdepth x \<le> n" "2 \<le> n"
    and s: "\<And>x. source = Some x \<Longrightarrow> nul_free x" "\<And>x. t = Some x \<Longrightarrow> nul_free x"
    and x: "x \<in> set cells'"
  shows "json_ok x \<and> jdepth x \<le> n"
  using edit_cells_from[OF e x]
proof (elim disjE exE conjE bexE)
  assume "x \<in> set cells"
  then show ?thesis using c by (simp add: list_all_iff)
next
  fix src assume a: "source = Some src" "x = new_cell (case t of None \<Rightarrow> ''code'' | Some t \<Rightarrow> t) src"
  have "nul_free (case t of None \<Rightarrow> ''code'' | Some t \<Rightarrow> t)" using s(2) by (simp add: nul_free_def split: option.split)
  with s(1)[OF a(1)] have "json_ok x" unfolding a(2) by (rule new_cell_ok)
  moreover have "jdepth x \<le> n" unfolding a(2) by (rule le_trans[OF new_cell_depth c(3)])
  ultimately show ?thesis ..
next
  fix src y assume a: "source = Some src" "y \<in> set cells" "replaced_cell t src y = Some x"
  have y: "json_ok y" "jdepth y \<le> n" using a(2) c(1,2) by (simp_all add: list_all_iff)
  have "json_ok x" by (rule replaced_cell_ok[OF a(3) y(1) s(1)[OF a(1)] s(2)])
  moreover have "jdepth x \<le> n" using replaced_cell_depth[OF a(3)] y(2) c(3) by linarith
  ultimately show ?thesis ..
qed

lemma parse_notebook_parts:
  assumes "parse_notebook bytes = Inr (ms, cells)"
  shows "json_parse (Some (c_string bytes)) = Some (JSON_OBJECT ms) \<and> member_get ms ''cells'' = Some (JSON_ARRAY cells)"
  using assms by (auto simp: parse_notebook_def split: if_splits option.splits JsonValue.splits)

lemma edited_notebook_parses:
  assumes e: "edit_cells path act i t source cells = Some (Inr (cells', report, ev))"
    and m: "member_get ms ''cells'' = Some (JSON_ARRAY cells)" "json_ok (JSON_OBJECT ms)"
    and p: "json_parse src = Some (JSON_OBJECT ms)"
    and s: "\<And>x. source = Some x \<Longrightarrow> nul_free x" "\<And>x. t = Some x \<Longrightarrow> nul_free x"
  shows "json_parse (Some (c_string (json_text (JSON_OBJECT (set_member ''cells'' (JSON_ARRAY cells') ms))))) =
    Some (JSON_OBJECT (set_member ''cells'' (JSON_ARRAY cells') ms))"
proof -
  have o: "list_all json_ok cells"
    using m by (induction ms "''cells'' :: cstr" rule: member_get.induct) (auto split: if_splits)
  have "jdepth (JSON_OBJECT ms) \<le> JSON_MAX_DEPTH" by (rule json_parse_depth_bound[OF p])
  with jdepth_member[OF m(1)] have "jdepth (JSON_ARRAY cells) \<le> Suc 126" by (simp add: JSON_MAX_DEPTH_def del: jdepth.simps)
  then have c: "\<forall>x \<in> set cells. jdepth x \<le> 126" by (simp only: jdepth_array_le)
  have x: "json_ok x \<and> jdepth x \<le> 126" if "x \<in> set cells'" for x
    by (rule edit_cells_ok[OF e o c _ s that]) simp_all
  then have a: "json_ok (JSON_ARRAY cells')" by (simp add: list_all_iff)
  have a2: "jdepth (JSON_ARRAY cells') \<le> Suc 126" unfolding jdepth_array_le using x by blast
  let ?v = "JSON_OBJECT (set_member ''cells'' (JSON_ARRAY cells') ms)"
  have "json_ok ?v" by (rule set_member_ok[OF m(2) a])
  moreover have "jdepth ?v \<le> JSON_MAX_DEPTH"
    using jdepth_set_member[of "''cells''" "JSON_ARRAY cells'" ms] a2 json_parse_depth_bound[OF p]
    by (simp add: JSON_MAX_DEPTH_def del: jdepth.simps)
  ultimately show ?thesis using json_text_no_nul json_parse_text by simp
qed

section \<open>Properties\<close>

text \<open>C38: An edit of a notebook changes one cell: a notebook that is changed is the file the
  arguments name, writable by the jail and outside plan mode; what is written parses to the old
  notebook with the cells after the action in place of its cells, so that no other member and, but for
  the one that is replaced, inserted or deleted, no other cell differs, and a cell that is written
  has the given source.\<close>

theorem notebook_edit_is_local:
  assumes "tool_edit_notebook env args d = Some (msg, d', log)" and "d' \<noteq> d"
    and "json_obj_get_str args ''path'' = Some path" and "json_obj_get_str args ''action'' = Some act"
    and "file_bytes env d path = Some bytes" and "json_parse (Some (c_string bytes)) = Some (JSON_OBJECT ms)"
    and "json_ok (JSON_OBJECT ms)" and "\<And>key s. json_obj_get_str args key = Some s \<Longrightarrow> nul_free s"
  shows "jailed env path True \<and> (\<forall>h. guards env = Some h \<longrightarrow> \<not> planning h) \<and>
    (\<exists>i cells cells' bytes'.
      int_of_double (json_obj_get_num args ''cell_index'' (DFin True 1 0)) = Some i \<and>
      member_get ms ''cells'' = Some (JSON_ARRAY cells) \<and>
      cells_edited act i (case json_obj_get_str args ''source'' of None \<Rightarrow> [] | Some s \<Rightarrow> s) cells cells' \<and>
      d' = put_file env path bytes' d \<and>
      json_parse (Some (c_string bytes')) = Some (JSON_OBJECT (set_member ''cells'' (JSON_ARRAY cells') ms)))"
proof -
  obtain h i where h: "guards env = Some h" "int_of_double (json_obj_get_num args ''cell_index'' (DFin True 1 0)) = Some i"
      and b: "belya_harness_edit_notebook env h d (Some path) (Some act) i (json_obj_get_str args ''cell_type'')
        (json_obj_get_str args ''source'') = Some (msg, d', log)"
    using assms(1-4) by (auto simp: tool_edit_notebook_def split: option.splits)
  obtain ms' cells ed where p: "parse_notebook bytes = Inr (ms', cells)" "jailed env path True" "\<not> planning h"
      and ed: "edit_cells path act i (json_obj_get_str args ''cell_type'') (json_obj_get_str args ''source'') cells = Some ed"
      and st: "store_notebook env d path act ms' ed = (msg, d', log)"
    using b assms(2,5) by (auto simp: belya_harness_edit_notebook_def Let_def nonempty_def split: if_splits sum.splits option.splits)
  have m: "ms' = ms" "member_get ms ''cells'' = Some (JSON_ARRAY cells)"
    using parse_notebook_parts[OF p(1)] assms(6) by simp_all
  obtain cells' report ev where r: "ed = Inr (cells', report, ev)"
      and w: "d' = put_file env path (json_text (JSON_OBJECT (set_member ''cells'' (JSON_ARRAY cells') ms))) d"
    using st assms(2) unfolding m(1) by (auto simp: store_notebook_def split: sum.splits if_splits)
  note e = ed[unfolded r]
  from edited_notebook_parses[OF e m(2) assms(7,6) assms(8) assms(8)] edit_cells_edited[OF e] h p(2,3) m(2) w
  show ?thesis by fastforce
qed

definition sample_notebook :: JsonValue where
  "sample_notebook = JSON_OBJECT [(''cells'', JSON_ARRAY [JSON_OBJECT [(''source'', JSON_STRING ''a'')], JSON_NULL])]"

lemma sample_notebook_parses: "json_parse (Some (c_string (json_text sample_notebook))) = Some sample_notebook"
  unfolding sample_notebook_def by code_simp

lemma cell_args_get:
  "json_obj_get_num (Some (JSON_OBJECT [(''cell_index'', JSON_NUMBER n), (''path'', JSON_STRING p), (''action'', JSON_STRING a), (''source'', JSON_STRING s)]))
     ''cell_index'' dflt = n"
  "json_obj_get_str (Some (JSON_OBJECT [(''cell_index'', JSON_NUMBER n), (''path'', JSON_STRING p), (''action'', JSON_STRING a), (''source'', JSON_STRING s)])) key =
     (if key = ''path'' then Some p else if key = ''action'' then Some a else if key = ''source'' then Some s else None)"
  by (simp_all add: json_obj_get_num_def json_obj_get_str_def json_obj_get_def)

theorem notebook_edit_is_local_witness:
  "\<exists>msg d' log bytes'. tool_edit_notebook sample_tools
       (Some (JSON_OBJECT [(''cell_index'', JSON_NUMBER (DFin False 0 0)), (''path'', JSON_STRING ''/ws/src''), (''action'', JSON_STRING ''delete_cell''), (''source'', JSON_STRING [])]))
       [''/ws/src'' \<mapsto> json_text sample_notebook] = Some (msg, d', log) \<and>
     d' = [''/ws/src'' \<mapsto> bytes'] \<and> json_parse (Some (c_string bytes')) = Some (JSON_OBJECT [(''cells'', JSON_ARRAY [JSON_NULL])])"
proof -
  let ?args = "Some (JSON_OBJECT [(''cell_index'', JSON_NUMBER (DFin False 0 0)), (''path'', JSON_STRING ''/ws/src''), (''action'', JSON_STRING ''delete_cell''), (''source'', JSON_STRING [])])"
  let ?d = "[''/ws/src'' \<mapsto> json_text sample_notebook]"
  have i: "int_of_double (DFin False 0 0) = Some 0" by (simp add: int_of_double_def trunc_nat_def)
  have g: "guards sample_tools = Some \<lparr>router = False, planning = False\<rparr>" by (simp add: sample_tools_def)
  have l: "json_text sample_notebook \<noteq> []" "length (json_text sample_notebook) < 100"
    unfolding sample_notebook_def by code_simp+
  have l2: "\<not> NOTEBOOK_LIMIT < length (json_text sample_notebook)" using l(2) by (simp add: NOTEBOOK_LIMIT_def)
  have p: "parse_notebook (json_text sample_notebook) =
      Inr ([(''cells'', JSON_ARRAY [JSON_OBJECT [(''source'', JSON_STRING ''a'')], JSON_NULL])],
        [JSON_OBJECT [(''source'', JSON_STRING ''a'')], JSON_NULL])"
    using l(1) l2 sample_notebook_parses by (simp add: parse_notebook_def) (simp add: sample_notebook_def)
  have e: "edit_cells ''/ws/src'' ''delete_cell'' 0 None (Some []) [JSON_OBJECT [(''source'', JSON_STRING ''a'')], JSON_NULL] =
      Some (Inr ([JSON_NULL], ''Cell '' @ int_text 0 @ '' successfully deleted from notebook '' @ [SQ] @ ''/ws/src'' @ [SQ] @ ''.'', ''notebook_cell_deleted''))"
    by (simp add: edit_cells_def delete_cell_def index_ok_def)
  have f: "file_bytes sample_tools ?d ''/ws/src'' = Some (json_text sample_notebook)" by (simp add: file_bytes_def)
  have sp: "json_parse (Some (c_string (json_text sample_notebook))) =
      Some (JSON_OBJECT [(''cells'', JSON_ARRAY [JSON_OBJECT [(''source'', JSON_STRING ''a'')], JSON_NULL])])"
    unfolding sample_notebook_parses by (simp add: sample_notebook_def)
  have ne: "nonempty (Some ''/ws/src'') = Some ''/ws/src''" "nonempty (Some ''delete_cell'') = Some ''delete_cell''"
    "(''delete_cell'' \<noteq> ''read'') = True" "(''delete_cell'' = ''read'') = False" by (simp_all add: nonempty_def)
  have b: "belya_harness_edit_notebook sample_tools \<lparr>router = False, planning = False\<rparr> ?d (Some ''/ws/src'') (Some ''delete_cell'') 0 None (Some []) =
      Some (store_notebook sample_tools ?d ''/ws/src'' ''delete_cell'' [(''cells'', JSON_ARRAY [JSON_OBJECT [(''source'', JSON_STRING ''a'')], JSON_NULL])]
        (Inr ([JSON_NULL], ''Cell '' @ int_text 0 @ '' successfully deleted from notebook '' @ [SQ] @ ''/ws/src'' @ [SQ] @ ''.'', ''notebook_cell_deleted'')))"
    unfolding belya_harness_edit_notebook_def ne Let_def prod.case option.case f p sum.case e by (simp add: sample_jail)
  have a: "json_obj_get_num ?args ''cell_index'' (DFin True 1 0) = DFin False 0 0" "json_obj_get_str ?args ''path'' = Some ''/ws/src''"
    "json_obj_get_str ?args ''action'' = Some ''delete_cell''" "json_obj_get_str ?args ''cell_type'' = None" "json_obj_get_str ?args ''source'' = Some []"
    by (simp_all add: cell_args_get)
  obtain msg d' log where t: "tool_edit_notebook sample_tools ?args ?d = Some (msg, d', log)"
      and d': "d' = put_file sample_tools ''/ws/src'' (json_text (JSON_OBJECT [(''cells'', JSON_ARRAY [JSON_NULL])])) ?d"
    unfolding tool_edit_notebook_def g option.case a i b by (simp add: store_notebook_def)
  have "json_text (JSON_OBJECT [(''cells'', JSON_ARRAY [JSON_NULL])]) \<noteq> json_text sample_notebook"
    unfolding sample_notebook_def by code_simp
  then have n: "d' \<noteq> ?d" unfolding d' by (simp add: put_file_def fun_eq_iff)
  have "\<exists>i cells cells' bytes'.
      int_of_double (json_obj_get_num ?args ''cell_index'' (DFin True 1 0)) = Some i \<and>
      member_get [(''cells'', JSON_ARRAY [JSON_OBJECT [(''source'', JSON_STRING ''a'')], JSON_NULL])] ''cells'' = Some (JSON_ARRAY cells) \<and>
      cells_edited ''delete_cell'' i (case json_obj_get_str ?args ''source'' of None \<Rightarrow> [] | Some s \<Rightarrow> s) cells cells' \<and>
      d' = put_file sample_tools ''/ws/src'' bytes' ?d \<and>
      json_parse (Some (c_string bytes')) = Some (JSON_OBJECT (set_member ''cells'' (JSON_ARRAY cells')
        [(''cells'', JSON_ARRAY [JSON_OBJECT [(''source'', JSON_STRING ''a'')], JSON_NULL])]))"
    by (rule conjunct2[OF conjunct2[OF notebook_edit_is_local[OF t n _ _ f sp]]])
       (auto simp: cell_args_get nul_free_def split: if_splits)
  then obtain bytes' where "d' = put_file sample_tools ''/ws/src'' bytes' ?d"
      "json_parse (Some (c_string bytes')) = Some (JSON_OBJECT [(''cells'', JSON_ARRAY [JSON_NULL])])"
    by (auto simp: cell_args_get i cells_edited_def)
  with t show ?thesis by (auto simp: put_file_def)
qed

text \<open>A cell that is \<open>null\<close> is reported as replaced and stays as it is.\<close>

theorem replace_null_cell_does_nothing:
  assumes "index_ok i cells" and "cells ! nat i = JSON_NULL"
  shows "edit_cells path ''replace_cell'' i t (Some src) cells =
    Some (Inr (cells, ''Cell '' @ int_text i @ '' successfully replaced in notebook '' @ [SQ] @ path @ [SQ] @ ''.'', ''notebook_cell_replaced''))"
proof -
  have "cells[nat i := JSON_NULL] = cells" using assms(2) by (metis list_update_id)
  with assms show ?thesis by (simp add: edit_cells_def replace_cell_def replaced_cell_def)
qed

end
