(* ===== verification/Sandbox.thy ===== *)
theory Sandbox
  imports CInt
begin

text \<open>
  \<open>sandbox.c\<close> and \<open>apply_plan_mode_kernel_sandbox\<close> of \<open>belya_harness.c\<close>: the two Landlock policies a
  forked shell puts on itself, for a Linux build whose headers know the network rights. A policy is
  the rule set as it is handed to the kernel. What the kernel answers is a parameter: the version, the
  success of each call and the directory an \<open>open\<close> finds (its canonical path). What an enforced policy
  permits is Landlock's documented rule: a right that the policy handles is granted on a path only by
  a rule for a directory the path is in, and so is \<open>FS_REFER\<close> whether it is handled or not; policies
  put on top of each other must all permit it.
\<close>

section \<open>Policies\<close>

datatype fs_right =
    FS_EXECUTE | FS_WRITE_FILE | FS_READ_FILE | FS_READ_DIR | FS_REMOVE_DIR | FS_REMOVE_FILE
  | FS_MAKE_CHAR | FS_MAKE_DIR | FS_MAKE_REG | FS_MAKE_SOCK | FS_MAKE_FIFO | FS_MAKE_BLOCK
  | FS_MAKE_SYM | FS_REFER | FS_TRUNCATE

record ruleset =
  handled_access_fs :: "fs_right list"
  handles_connect :: bool
  path_rules :: "(cstr \<times> fs_right list) list"
  port_rules :: "nat list"

datatype errno = ENOSYS | EOPNOTSUPP | EINVAL | Other_Errno nat

record kernel =
  landlock_abi :: int
  refuses_ruleset :: "fs_right list \<Rightarrow> bool \<Rightarrow> errno option"
  opens :: "cstr \<Rightarrow> cstr option"
  takes_path_rule :: "cstr \<Rightarrow> fs_right list \<Rightarrow> bool"
  takes_port_rule :: "nat \<Rightarrow> bool"
  no_new_privs_ok :: bool
  restrict_ok :: bool

definition beneath :: "cstr \<Rightarrow> cstr \<Rightarrow> bool" where
  "beneath d p \<longleftrightarrow> p = d \<or> has_prefix (d @ ''/'') p \<or> (d = ''/'' \<and> has_prefix ''/'' p)"

definition permits :: "ruleset \<Rightarrow> fs_right \<Rightarrow> cstr \<Rightarrow> bool" where
  "permits rs r p \<longleftrightarrow>
     (r \<notin> set (handled_access_fs rs) \<and> r \<noteq> FS_REFER) \<or> list_ex (\<lambda>(d, rights). r \<in> set rights \<and> beneath d p) (path_rules rs)"

definition permits_all :: "ruleset list \<Rightarrow> fs_right \<Rightarrow> cstr \<Rightarrow> bool" where
  "permits_all stack r p \<longleftrightarrow> list_all (\<lambda>rs. permits rs r p) stack"

definition permits_connect :: "ruleset \<Rightarrow> nat \<Rightarrow> bool" where
  "permits_connect rs port \<longleftrightarrow> \<not> handles_connect rs \<or> port \<in> set (port_rules rs)"

section \<open>The ports\<close>

definition SB_MAX_ALLOW_PORTS :: nat where "SB_MAX_ALLOW_PORTS = 8"
definition SB_DEFAULT_PORTS :: cstr where "SB_DEFAULT_PORTS = ''22,80,443''"

definition port_gap :: "char \<Rightarrow> bool" where
  "port_gap c \<longleftrightarrow> c = CHR '','' \<or> c = CHR '' ''"

function port_loop :: "nat \<Rightarrow> cstr \<Rightarrow> nat list \<Rightarrow> nat list" where
  "port_loop limit p ports =
     (if p = [] \<or> length ports \<ge> limit \<or> strtol_end p = p then ports
      else port_loop limit (lskip port_gap (strtol_end p))
        (let v = strtol10 p in if v > 0 \<and> v < 65536 then ports @ [nat v] else ports))"
  by pat_completeness auto
termination
proof (relation "measure (\<lambda>(n, p, ps). length p)", goal_cases)
  case (2 limit p ports)
  then have "length (strtol_end p) < length p" using length_strtol_end by blast
  with length_lskip[of port_gap "strtol_end p"] have "length (lskip port_gap (strtol_end p)) < length p"
    by (rule le_less_trans)
  then show ?case by simp
qed simp

declare port_loop.simps [simp del]

definition parse_ports :: "cstr option \<Rightarrow> nat \<Rightarrow> nat list" where
  "parse_ports env limit =
     port_loop limit (case nonempty env of None \<Rightarrow> SB_DEFAULT_PORTS | Some e \<Rightarrow> e) []"

section \<open>The policy of a shell\<close>

definition SB_WRITE_RIGHTS :: "fs_right list" where
  "SB_WRITE_RIGHTS = [FS_WRITE_FILE, FS_REMOVE_DIR, FS_REMOVE_FILE, FS_MAKE_CHAR, FS_MAKE_DIR, FS_MAKE_REG,
     FS_MAKE_SOCK, FS_MAKE_FIFO, FS_MAKE_BLOCK, FS_MAKE_SYM, FS_REFER, FS_TRUNCATE]"

text \<open>The rule that \<open>allow_path\<close> adds, when the path opens and the kernel takes the rule.\<close>

definition allow_path :: "kernel \<Rightarrow> cstr \<Rightarrow> fs_right list \<Rightarrow> (cstr \<times> fs_right list) list" where
  "allow_path k path rights =
     (case opens k path of None \<Rightarrow> []
      | Some d \<Rightarrow> if takes_path_rule k d rights then [(d, rights)] else [])"

definition sandbox_supported :: "kernel \<Rightarrow> bool" where
  "sandbox_supported k \<longleftrightarrow> landlock_abi k > 0"

text \<open>Whether connections are handled, or the error that leaves the shell without a rule set.\<close>

definition new_ruleset :: "kernel \<Rightarrow> errno + bool" where
  "new_ruleset k =
     (let net = landlock_abi k \<ge> 4 in
      case refuses_ruleset k SB_WRITE_RIGHTS net of None \<Rightarrow> Inr net
      | Some e \<Rightarrow>
        if net then (case refuses_ruleset k SB_WRITE_RIGHTS False of None \<Rightarrow> Inr False | Some e \<Rightarrow> Inl e)
        else Inl e)"

definition shell_ruleset :: "(cstr \<Rightarrow> cstr option) \<Rightarrow> kernel \<Rightarrow> cstr \<Rightarrow> bool \<Rightarrow> ruleset" where
  "shell_ruleset env k workspace net =
     \<lparr>handled_access_fs = SB_WRITE_RIGHTS, handles_connect = net,
      path_rules = (if workspace \<noteq> [] then allow_path k workspace SB_WRITE_RIGHTS else []) @
        allow_path k ''/tmp'' SB_WRITE_RIGHTS @ allow_path k ''/dev'' [FS_WRITE_FILE],
      port_rules = (if net then filter (takes_port_rule k)
        (parse_ports (env ''BELYA_SANDBOX_ALLOW_PORTS'') SB_MAX_ALLOW_PORTS) else [])\<rparr>"

definition sandbox_off :: "(cstr \<Rightarrow> cstr option) \<Rightarrow> bool" where
  "sandbox_off env \<longleftrightarrow> (case env ''BELYA_SANDBOX'' of Some (c # _) \<Rightarrow> c = CHR ''0'' | _ \<Rightarrow> False)"

text \<open>The result of the call, and the policy that is enforced from then on.\<close>

definition sandbox_apply :: "(cstr \<Rightarrow> cstr option) \<Rightarrow> kernel \<Rightarrow> cstr \<Rightarrow> int \<times> ruleset option" where
  "sandbox_apply env k workspace =
     (if sandbox_off env then (1, None)
      else case new_ruleset k of
        Inl e \<Rightarrow> (if e = ENOSYS \<or> e = EOPNOTSUPP \<or> e = EINVAL then 1 else -1, None)
      | Inr net \<Rightarrow>
        if \<not> no_new_privs_ok k \<or> \<not> restrict_ok k then (-1, None)
        else (0, Some (shell_ruleset env k workspace net)))"

section \<open>The policy of plan mode\<close>

definition plan_handled :: "fs_right list" where
  "plan_handled = [FS_EXECUTE, FS_WRITE_FILE, FS_READ_FILE, FS_READ_DIR, FS_REMOVE_DIR, FS_REMOVE_FILE,
     FS_MAKE_CHAR, FS_MAKE_DIR, FS_MAKE_REG, FS_MAKE_SOCK, FS_MAKE_FIFO, FS_MAKE_BLOCK, FS_MAKE_SYM]"

definition plan_ruleset :: "kernel \<Rightarrow> ruleset" where
  "plan_ruleset k =
     \<lparr>handled_access_fs = plan_handled, handles_connect = False,
      path_rules = allow_path k ''/'' [FS_READ_FILE, FS_READ_DIR, FS_EXECUTE] @
        allow_path k ''/tmp'' plan_handled @ allow_path k ''/dev/null'' [FS_READ_FILE, FS_WRITE_FILE],
      port_rules = []\<rparr>"

definition apply_plan_mode_kernel_sandbox :: "kernel \<Rightarrow> ruleset option" where
  "apply_plan_mode_kernel_sandbox k =
     (if refuses_ruleset k plan_handled False = None \<and> restrict_ok k then Some (plan_ruleset k) else None)"

section \<open>What the policies permit\<close>

lemma beneath_refl [simp]: "beneath d d"
  by (simp add: beneath_def)

lemma permits_all_append [simp]: "permits_all (a @ b) r p \<longleftrightarrow> permits_all a r p \<and> permits_all b r p"
  by (simp add: permits_all_def)

lemma permits_all_simps [simp]: "permits_all [] r p" "permits_all (rs # s) r p \<longleftrightarrow> permits rs r p \<and> permits_all s r p"
  by (simp_all add: permits_all_def)

lemma permits_iff:
  "permits rs r p \<longleftrightarrow> (r \<notin> set (handled_access_fs rs) \<and> r \<noteq> FS_REFER) \<or>
    (\<exists>d rights. (d, rights) \<in> set (path_rules rs) \<and> r \<in> set rights \<and> beneath d p)"
  by (auto simp: permits_def list_ex_iff)

lemma allow_path_iff:
  "(d, rights) \<in> set (allow_path k path rs) \<longleftrightarrow> rights = rs \<and> opens k path = Some d \<and> takes_path_rule k d rs"
  by (auto simp: allow_path_def split: option.splits)

lemma sandbox_result: "fst (sandbox_apply env k ws) = 0 \<longleftrightarrow> snd (sandbox_apply env k ws) \<noteq> None"
  by (simp add: sandbox_apply_def split: sum.split)

lemma sandbox_policy: "snd (sandbox_apply env k ws) = Some rs \<Longrightarrow> \<exists>net. rs = shell_ruleset env k ws net"
  by (auto simp: sandbox_apply_def split: sum.splits if_splits)

lemma shell_permits:
  assumes "r \<in> set SB_WRITE_RIGHTS"
  shows "permits (shell_ruleset env k ws net) r p \<longleftrightarrow>
    (\<exists>d. beneath d p \<and>
      (ws \<noteq> [] \<and> (d, SB_WRITE_RIGHTS) \<in> set (allow_path k ws SB_WRITE_RIGHTS) \<or>
       (d, SB_WRITE_RIGHTS) \<in> set (allow_path k ''/tmp'' SB_WRITE_RIGHTS) \<or>
       r = FS_WRITE_FILE \<and> (d, [FS_WRITE_FILE]) \<in> set (allow_path k ''/dev'' [FS_WRITE_FILE])))"
  using assms by (fastforce simp: permits_iff shell_ruleset_def allow_path_iff)

lemma plan_permits:
  assumes "r \<in> set SB_WRITE_RIGHTS" and "r \<noteq> FS_TRUNCATE"
  shows "permits (plan_ruleset k) r p \<longleftrightarrow> r \<noteq> FS_REFER \<and>
    (\<exists>d. beneath d p \<and>
      ((d, plan_handled) \<in> set (allow_path k ''/tmp'' plan_handled) \<or>
       r = FS_WRITE_FILE \<and> (d, [FS_READ_FILE, FS_WRITE_FILE]) \<in> set (allow_path k ''/dev/null'' [FS_READ_FILE, FS_WRITE_FILE])))"
proof -
  have w: "r \<noteq> FS_REFER \<Longrightarrow> r \<in> set plan_handled" "r \<notin> {FS_READ_FILE, FS_READ_DIR, FS_EXECUTE}" "FS_REFER \<notin> set plan_handled"
    using assms by (auto simp: SB_WRITE_RIGHTS_def plan_handled_def)
  show ?thesis
  proof (cases "r = FS_REFER")
    case True
    then show ?thesis using w(3) by (auto simp: permits_iff plan_ruleset_def allow_path_iff)
  next
    case False
    then show ?thesis using w by (fastforce simp: permits_iff plan_ruleset_def allow_path_iff)
  qed
qed

lemma port_loop_valid:
  "list_all (\<lambda>v. 0 < v \<and> v < 65536) ports \<Longrightarrow> length ports \<le> limit \<Longrightarrow>
    list_all (\<lambda>v. 0 < v \<and> v < 65536) (port_loop limit p ports) \<and> length (port_loop limit p ports) \<le> limit"
proof (induction limit p ports rule: port_loop.induct)
  case (1 limit p ports)
  show ?case
  proof (cases "p = [] \<or> length ports \<ge> limit \<or> strtol_end p = p")
    case True
    then show ?thesis using 1(2,3) by (subst (1 2) port_loop.simps) auto
  next
    case False
    with 1 show ?thesis by (subst (1 2) port_loop.simps) (auto simp: Let_def nat_less_iff)
  qed
qed

lemma parse_ports_valid:
  "list_all (\<lambda>v. 0 < v \<and> v < 65536) (parse_ports env limit) \<and> length (parse_ports env limit) \<le> limit"
  using port_loop_valid[of "[]" limit] by (simp add: parse_ports_def)

end
