(* ===== verification/TaskTable.thy ===== *)
theory TaskTable
  imports AgentHistory CInt RecencyRing Sandbox
begin

text \<open>
  The background tasks of \<open>belya_harness.c\<close> (from \<open>belya_task_ring_write\<close> to
  \<open>belya_harness_task_kill\<close>) and the tool \<open>manage_task\<close>: sixteen slots, each with a process on a
  pseudo terminal and the ring of the last 64 KiB of its output. The operating system is a
  parameter over a state of its own: what the reads of a terminal return until one returns nothing,
  what waiting for a process reports, the clock. The code's buffer of 4095 bytes bounds the pieces
  of one read, which changes nothing, because the ring takes byte after byte. The id of a task is an
  \<open>int\<close>; handing out one above \<open>TASK_ID_MAX\<close> would overflow, which is undefined, so a call that does is
  no step of the table.
\<close>

section \<open>Data\<close>

definition BELYA_MAX_BACKGROUND_TASKS :: nat where "BELYA_MAX_BACKGROUND_TASKS = 16"
definition BELYA_TASK_RING_BUFFER_SIZE :: nat where "BELYA_TASK_RING_BUFFER_SIZE = 65536"
definition TASK_COMMAND_BUF :: nat where "TASK_COMMAND_BUF = 512"
definition TASK_ID_MAX :: int where "TASK_ID_MAX = 2 ^ 31 - 1"
definition STDERR_FILENO :: int where "STDERR_FILENO = 2"

datatype BelyaTaskState =
    BELYA_TASK_STATE_UNUSED | BELYA_TASK_STATE_RUNNING | BELYA_TASK_STATE_COMPLETED
  | BELYA_TASK_STATE_FAILED | BELYA_TASK_STATE_KILLED

record BelyaBackgroundTask =
  task_id :: int
  task_pid :: int
  task_pgid :: int
  master_fd :: int
  task_state :: BelyaTaskState
  exit_code :: int
  start_time :: int
  end_time :: int
  command :: cstr
  ring_buffer :: "char list option"
  ring_head :: nat
  ring_tail :: nat
  ring_count :: nat
  total_bytes_captured :: nat

record TaskHost =
  host_agent :: BelyaAgent
  task_slots :: "BelyaBackgroundTask list"
  next_task_id :: int
  host_cwd :: cstr

datatype child_status = Exited nat | Signaled nat
datatype wait_result = No_Change | Wait_Failed | Changed child_status
datatype signal = SIGTERM | SIGKILL

text \<open>What a forked child becomes: its arguments, and the policies it has put on itself.\<close>

record launch =
  launch_argv :: "cstr list"
  launch_policies :: "ruleset list"

record 'w task_os =
  pty_read :: "int \<Rightarrow> 'w \<Rightarrow> cstr list \<times> 'w"
  pty_write :: "int \<Rightarrow> cstr \<Rightarrow> 'w \<Rightarrow> 'w"
  open_pty :: "'w \<Rightarrow> int option \<times> 'w"
  fork_child :: "int \<Rightarrow> launch \<Rightarrow> 'w \<Rightarrow> int option \<times> 'w"
  wait_child :: "int \<Rightarrow> 'w \<Rightarrow> wait_result \<times> 'w"
  reap_child :: "int \<Rightarrow> 'w \<Rightarrow> 'w"
  signal_group :: "int \<Rightarrow> signal \<Rightarrow> 'w \<Rightarrow> 'w"
  close_fd :: "int \<Rightarrow> 'w \<Rightarrow> 'w"
  clock :: "'w \<Rightarrow> int"
  pause_us :: "nat \<Rightarrow> 'w \<Rightarrow> 'w"
  os_env :: "cstr \<Rightarrow> cstr option"
  os_kernel :: kernel

definition unused_task :: BelyaBackgroundTask where
  "unused_task = \<lparr>task_id = 0, task_pid = 0, task_pgid = 0, master_fd = -1,
     task_state = BELYA_TASK_STATE_UNUSED, exit_code = 0, start_time = 0, end_time = 0, command = [],
     ring_buffer = None, ring_head = 0, ring_tail = 0, ring_count = 0, total_bytes_captured = 0\<rparr>"

section \<open>The ring of the output\<close>

definition ring_push :: "char \<Rightarrow> BelyaBackgroundTask \<Rightarrow> BelyaBackgroundTask" where
  "ring_push c t =
     t\<lparr>ring_buffer := map_option (\<lambda>b. b[ring_head t := c]) (ring_buffer t),
       ring_head := (ring_head t + 1) mod BELYA_TASK_RING_BUFFER_SIZE,
       ring_count := (if ring_count t < BELYA_TASK_RING_BUFFER_SIZE then ring_count t + 1 else ring_count t),
       ring_tail := (if ring_count t < BELYA_TASK_RING_BUFFER_SIZE then ring_tail t
                     else (ring_tail t + 1) mod BELYA_TASK_RING_BUFFER_SIZE)\<rparr>"

definition belya_task_ring_write :: "cstr \<Rightarrow> BelyaBackgroundTask \<Rightarrow> BelyaBackgroundTask" where
  "belya_task_ring_write bytes t =
     (if ring_buffer t = None \<or> bytes = [] then t
      else (fold ring_push bytes t)\<lparr>total_bytes_captured := total_bytes_captured t + length bytes\<rparr>)"

definition belya_task_ring_read_all :: "BelyaBackgroundTask \<Rightarrow> cstr" where
  "belya_task_ring_read_all t =
     (case ring_buffer t of None \<Rightarrow> []
      | Some b \<Rightarrow> map (\<lambda>i. b ! ((ring_tail t + i) mod BELYA_TASK_RING_BUFFER_SIZE)) [0..<ring_count t])"

section \<open>Looking after a task\<close>

definition finished_task :: "child_status \<Rightarrow> int \<Rightarrow> BelyaBackgroundTask \<Rightarrow> BelyaBackgroundTask" where
  "finished_task st now t =
     (case st of
        Exited n \<Rightarrow> t\<lparr>end_time := now, exit_code := int n,
          task_state := (if n = 0 then BELYA_TASK_STATE_COMPLETED else BELYA_TASK_STATE_FAILED), master_fd := -1\<rparr>
      | Signaled s \<Rightarrow> t\<lparr>end_time := now, exit_code := 128 + int s,
          task_state := BELYA_TASK_STATE_KILLED, master_fd := -1\<rparr>)"

definition belya_task_drain_output ::
    "'w task_os \<Rightarrow> BelyaBackgroundTask \<Rightarrow> 'w \<Rightarrow> BelyaBackgroundTask \<times> 'w" where
  "belya_task_drain_output W t w =
     (if master_fd t \<le> STDERR_FILENO then (t, w)
      else let (chunks, w) = pty_read W (master_fd t) w;
               t = fold belya_task_ring_write chunks t in
        if task_state t = BELYA_TASK_STATE_RUNNING then
          let (res, w) = wait_child W (task_pid t) w in
          case res of Changed st \<Rightarrow> (finished_task st (clock W w) t, close_fd W (master_fd t) w)
          | _ \<Rightarrow> (t, w)
        else (t, w))"

fun drain_used :: "'w task_os \<Rightarrow> BelyaBackgroundTask list \<Rightarrow> 'w \<Rightarrow> BelyaBackgroundTask list \<times> 'w" where
  "drain_used W [] w = ([], w)"
| "drain_used W (t # ts) w =
     (let (t, w) = (if task_state t \<noteq> BELYA_TASK_STATE_UNUSED then belya_task_drain_output W t w else (t, w));
          (ts, w) = drain_used W ts w in (t # ts, w))"

section \<open>Spawning\<close>

fun first_index :: "('x \<Rightarrow> bool) \<Rightarrow> 'x list \<Rightarrow> nat option" where
  "first_index P [] = None"
| "first_index P (x # xs) = (if P x then Some 0 else map_option Suc (first_index P xs))"

definition free_slot :: "BelyaBackgroundTask list \<Rightarrow> nat option" where
  "free_slot ts =
     (case first_index (\<lambda>t. task_state t = BELYA_TASK_STATE_UNUSED) ts of Some i \<Rightarrow> Some i
      | None \<Rightarrow> first_index (\<lambda>t. task_state t \<noteq> BELYA_TASK_STATE_RUNNING) ts)"

definition background_launch :: "'w task_os \<Rightarrow> cstr \<Rightarrow> cstr \<Rightarrow> launch" where
  "background_launch W cwd cmd =
     \<lparr>launch_argv = [''bash'', ''-c'', cmd],
      launch_policies = (case snd (sandbox_apply (os_env W) (os_kernel W) cwd) of None \<Rightarrow> [] | Some rs \<Rightarrow> [rs])\<rparr>"

definition started_task :: "int \<Rightarrow> int \<Rightarrow> int \<Rightarrow> int \<Rightarrow> cstr \<Rightarrow> BelyaBackgroundTask \<Rightarrow> BelyaBackgroundTask" where
  "started_task tid pid fd now cmd t =
     t\<lparr>task_id := tid, task_pid := pid, task_pgid := pid, master_fd := fd,
       task_state := BELYA_TASK_STATE_RUNNING, exit_code := -1, start_time := now, end_time := 0,
       command := take (TASK_COMMAND_BUF - 1) cmd,
       ring_head := 0, ring_tail := 0, ring_count := 0, total_bytes_captured := 0\<rparr>"

definition with_ring :: "BelyaBackgroundTask \<Rightarrow> BelyaBackgroundTask" where
  "with_ring t =
     (case ring_buffer t of Some b \<Rightarrow> t
      | None \<Rightarrow> t\<lparr>ring_buffer := Some (replicate BELYA_TASK_RING_BUFFER_SIZE NUL)\<rparr>)"

definition belya_harness_spawn_task ::
    "'w task_os \<Rightarrow> cstr option \<Rightarrow> TaskHost \<Rightarrow> 'w \<Rightarrow> int \<times> TaskHost \<times> 'w" where
  "belya_harness_spawn_task W cmd h w =
     (case nonempty cmd of None \<Rightarrow> (-1, h, w)
      | Some cmd \<Rightarrow>
        let (ts, w) = drain_used W (task_slots h) w; h = h\<lparr>task_slots := ts\<rparr> in
        case free_slot ts of None \<Rightarrow> (-1, h, w)
        | Some slot \<Rightarrow>
          let t = with_ring (ts ! slot); h = h\<lparr>task_slots := ts[slot := t]\<rparr>; (fd, w) = open_pty W w in
          case fd of None \<Rightarrow> (-1, h, w)
          | Some fd \<Rightarrow>
            let (pid, w) = fork_child W fd (background_launch W (host_cwd h) cmd) w in
            case pid of None \<Rightarrow> (-1, h, close_fd W fd w)
            | Some pid \<Rightarrow>
              let tid = next_task_id h + 1;
                  t = started_task tid pid fd (clock W w) cmd t;
                  (t, w) = belya_task_drain_output W t (pause_us W 50000 w) in
              (tid, h\<lparr>task_slots := ts[slot := t], next_task_id := tid,
                 host_agent := belya_agent_log_timeline ''task_spawned'' cmd (host_agent h)\<rparr>, w))"

section \<open>Looking, writing, killing\<close>

definition find_task :: "int \<Rightarrow> BelyaBackgroundTask list \<Rightarrow> nat option" where
  "find_task tid = first_index (\<lambda>t. task_id t = tid \<and> task_state t \<noteq> BELYA_TASK_STATE_UNUSED)"

definition no_task :: "int \<Rightarrow> cstr" where
  "no_task tid = ''Error: Background task ID '' @ int_text tid @ '' not found.''"

definition state_word :: "BelyaTaskState \<Rightarrow> cstr" where
  "state_word s =
     (case s of BELYA_TASK_STATE_RUNNING \<Rightarrow> ''running'' | BELYA_TASK_STATE_COMPLETED \<Rightarrow> ''completed''
      | BELYA_TASK_STATE_FAILED \<Rightarrow> ''failed'' | BELYA_TASK_STATE_KILLED \<Rightarrow> ''killed''
      | BELYA_TASK_STATE_UNUSED \<Rightarrow> ''unknown'')"

definition coloured :: "cstr \<Rightarrow> cstr \<Rightarrow> cstr" where
  "coloured code t = [CHR 0x1B, CHR ''[''] @ code @ ''m'' @ t @ [CHR 0x1B, CHR ''[''] @ ''0m''"

definition state_cell :: "BelyaTaskState \<Rightarrow> cstr" where
  "state_cell s =
     (case s of BELYA_TASK_STATE_RUNNING \<Rightarrow> coloured ''1;32'' ''running''
      | BELYA_TASK_STATE_FAILED \<Rightarrow> coloured ''1;31'' ''failed''
      | BELYA_TASK_STATE_KILLED \<Rightarrow> coloured ''1;33'' ''killed''
      | _ \<Rightarrow> state_word s)"

definition elapsed :: "int \<Rightarrow> BelyaBackgroundTask \<Rightarrow> int" where
  "elapsed now t = max 0 ((if end_time t \<noteq> 0 then end_time t else now) - start_time t)"

definition left_cell :: "nat \<Rightarrow> cstr \<Rightarrow> cstr" where
  "left_cell n s = s @ replicate (n - length s) (CHR '' '')"

definition right_cell :: "nat \<Rightarrow> cstr \<Rightarrow> cstr" where
  "right_cell n s = replicate (n - length s) (CHR '' '') @ s"

definition task_row :: "int \<Rightarrow> BelyaBackgroundTask \<Rightarrow> cstr" where
  "task_row now t = left_cell 4 (int_text (task_id t)) @ '' | '' @ left_cell 6 (int_text (task_pid t)) @ '' | '' @
     left_cell 20 (state_cell (task_state t)) @ '' | '' @ right_cell 4 (int_text (elapsed now t)) @ ''s  | '' @
     right_cell 6 (dec_text (total_bytes_captured t)) @ '' B | '' @ command t @ [LF]"

definition list_head :: cstr where
  "list_head = ''=== Active & Background Tasks Table ==='' @ [LF] @
     ''ID   | PID    | State      | Elapsed | Output   | Command'' @ [LF] @
     ''-----+--------+------------+---------+----------+-----------------------------'' @ [LF]"

text \<open>The clock is read once, before the slots are looked at.\<close>

definition belya_harness_task_list :: "'w task_os \<Rightarrow> TaskHost \<Rightarrow> 'w \<Rightarrow> cstr \<times> TaskHost \<times> 'w" where
  "belya_harness_task_list W h w =
     (let now = clock W w;
          used = \<lambda>t. task_state t \<noteq> BELYA_TASK_STATE_UNUSED;
          (ts, w) = drain_used W (task_slots h) w;
          rows = map (task_row now) (filter used ts) in
      (list_head @ concat rows @
        (if rows = [] then ''(No background tasks currently registered)'' @ [LF] else []),
       h\<lparr>task_slots := ts\<rparr>, w))"

definition status_text :: "int \<Rightarrow> BelyaBackgroundTask \<Rightarrow> cstr" where
  "status_text now t =
     ''Task ID: '' @ int_text (task_id t) @ [LF] @
     ''PID: '' @ int_text (task_pid t) @ '' (PGID: '' @ int_text (task_pgid t) @ '')'' @ [LF] @
     ''Command: '' @ command t @ [LF] @ ''State: '' @ state_word (task_state t) @ [LF] @
     ''Exit Code: '' @ int_text (exit_code t) @ [LF] @ ''Elapsed: '' @ int_text (elapsed now t) @ ''s'' @ [LF] @
     ''Total Bytes Captured: '' @ dec_text (total_bytes_captured t) @ [LF, LF] @ ''Recent Output:'' @ [LF] @
     c_string (belya_task_ring_read_all t)"

definition belya_harness_task_status :: "'w task_os \<Rightarrow> int \<Rightarrow> TaskHost \<Rightarrow> 'w \<Rightarrow> cstr \<times> TaskHost \<times> 'w" where
  "belya_harness_task_status W tid h w =
     (case find_task tid (task_slots h) of None \<Rightarrow> (no_task tid, h, w)
      | Some i \<Rightarrow>
        let (t, w) = belya_task_drain_output W (task_slots h ! i) w in
        (status_text (clock W w) t, h\<lparr>task_slots := (task_slots h)[i := t]\<rparr>, w))"

definition belya_harness_task_send_input ::
    "'w task_os \<Rightarrow> int \<Rightarrow> cstr option \<Rightarrow> TaskHost \<Rightarrow> 'w \<Rightarrow> cstr \<times> TaskHost \<times> 'w" where
  "belya_harness_task_send_input W tid input h w =
     (case input of None \<Rightarrow> (''Error: Missing input text.'', h, w)
      | Some input \<Rightarrow>
        (case find_task tid (task_slots h) of None \<Rightarrow> (no_task tid, h, w)
         | Some i \<Rightarrow>
           let t = task_slots h ! i in
           if task_state t \<noteq> BELYA_TASK_STATE_RUNNING \<or> master_fd t < 0
           then (''Error: Cannot send input; task is not actively running.'', h, w)
           else let w = pty_write W (master_fd t) input w;
                    w = (if input \<noteq> [] \<and> last input \<noteq> LF then pty_write W (master_fd t) [LF] w else w);
                    (t, w) = belya_task_drain_output W t (pause_us W 50000 w) in
             (''Sent '' @ dec_text (length input) @ '' bytes of input to task '' @ int_text tid @ ''.'' @ [LF],
              h\<lparr>task_slots := (task_slots h)[i := t]\<rparr>, w)))"

definition killed_task :: "'w task_os \<Rightarrow> BelyaBackgroundTask \<Rightarrow> 'w \<Rightarrow> BelyaBackgroundTask \<times> 'w" where
  "killed_task W t w =
     (if task_state t = BELYA_TASK_STATE_RUNNING then
        let w = pause_us W 20000 (signal_group W (task_pgid t) SIGTERM w);
            (res, w) = wait_child W (task_pid t) w;
            w = (if res = No_Change
                 then reap_child W (task_pid t) (signal_group W (task_pgid t) SIGKILL w) else w);
            t' = t\<lparr>task_state := BELYA_TASK_STATE_KILLED, end_time := clock W w\<rparr> in
        if master_fd t > STDERR_FILENO then (t'\<lparr>master_fd := -1\<rparr>, close_fd W (master_fd t) w) else (t', w)
      else (t, w))"

definition belya_harness_task_kill :: "'w task_os \<Rightarrow> int \<Rightarrow> TaskHost \<Rightarrow> 'w \<Rightarrow> cstr \<times> TaskHost \<times> 'w" where
  "belya_harness_task_kill W tid h w =
     (case find_task tid (task_slots h) of None \<Rightarrow> (no_task tid, h, w)
      | Some i \<Rightarrow>
        let (t, w) = killed_task W (task_slots h ! i) w;
            msg = ''Task '' @ int_text tid @ '' (PID '' @ int_text (task_pid t) @ '', PGID '' @
              int_text (task_pgid t) @ '') terminated successfully.'' in
        (msg, h\<lparr>task_slots := (task_slots h)[i := t],
                host_agent := belya_agent_log_timeline ''task_killed'' msg (host_agent h)\<rparr>, w))"

section \<open>The tool\<close>

text \<open>The result is None when the cast of the id is undefined.\<close>

definition tool_manage_task ::
    "'w task_os \<Rightarrow> JsonValue option \<Rightarrow> TaskHost option \<Rightarrow> 'w \<Rightarrow> (cstr \<times> TaskHost option \<times> 'w) option" where
  "tool_manage_task W args host w =
     (let fails = (\<lambda>msg. Some (msg, host, w)); keeps = (\<lambda>(msg, h, w). Some (msg, Some h, w)) in
      case host of None \<Rightarrow> fails ''Error: Harness execution environment unavailable.''
      | Some h \<Rightarrow>
        case json_obj_get_str args ''action'' of
          None \<Rightarrow> fails (''Error: Missing action parameter ('' @ [SQ] @ ''list'' @ [SQ] @ '', '' @ [SQ] @ ''status'' @ [SQ] @
            '', '' @ [SQ] @ ''send_input'' @ [SQ] @ '', '' @ [SQ] @ ''kill'' @ [SQ] @ '').'')
        | Some action \<Rightarrow>
          if action = ''list'' then keeps (belya_harness_task_list W h w)
          else let id_num = json_obj_get_num args ''id'' (DFin True 1 0) in
            if double_lt0 id_num then fails ''Error: Missing or invalid task id parameter.''
            else (case int_of_double id_num of None \<Rightarrow> None
              | Some tid \<Rightarrow>
                if action = ''status'' then keeps (belya_harness_task_status W tid h w)
                else if action = ''send_input'' then
                  (case json_obj_get_str args ''input'' of
                     None \<Rightarrow> fails ''Error: Missing input parameter for send_input action.''
                   | Some input \<Rightarrow> keeps (belya_harness_task_send_input W tid (Some input) h w))
                else if action = ''kill'' then keeps (belya_harness_task_kill W tid h w)
                else fails ''Error: Unrecognized action. Supported: list, status, send_input, kill.''))"

section \<open>The ring holds the most recent output\<close>

abbreviation "RING \<equiv> BELYA_TASK_RING_BUFFER_SIZE"

lemma RING_pos [simp]: "0 < RING"
  by (simp add: BELYA_TASK_RING_BUFFER_SIZE_def)

definition ring_ok :: "BelyaBackgroundTask \<Rightarrow> bool" where
  "ring_ok t \<longleftrightarrow>
     (case ring_buffer t of None \<Rightarrow> False | Some b \<Rightarrow> length b = RING) \<and>
     ring_tail t < RING \<and> ring_count t \<le> RING \<and> ring_head t = (ring_tail t + ring_count t) mod RING"

definition recent_byte :: "BelyaBackgroundTask \<Rightarrow> nat \<Rightarrow> char" where
  "recent_byte t i =
     (case ring_buffer t of None \<Rightarrow> NUL | Some b \<Rightarrow> b ! ((ring_head t + RING - 1 - i) mod RING))"

lemma ring_push_ok: "ring_ok t \<Longrightarrow> ring_ok (ring_push c t)"
proof (cases "ring_count t < RING")
  case False
  assume ok: "ring_ok t"
  then have "ring_count t = RING" using False by (simp add: ring_ok_def)
  with ok show ?thesis by (auto simp: ring_ok_def ring_push_def mod_Suc_eq split: option.splits)
qed (auto simp: ring_ok_def ring_push_def mod_Suc_eq split: option.splits)

interpretation out_ring: recency_ring ring_push recent_byte ring_count BELYA_TASK_RING_BUFFER_SIZE ring_ok
proof (unfold_locales, goal_cases)
  case (1 r x)
  then show ?case by (rule ring_push_ok)
next
  case (2 r x)
  then show ?case by (auto simp: ring_push_def ring_ok_def)
next
  case (3 r x)
  then have "ring_head r < RING" by (simp add: ring_ok_def)
  with 3 show ?case using ring_index_new[of "ring_head r" RING]
    by (auto simp: recent_byte_def ring_push_def ring_ok_def split: option.splits)
next
  case (4 r i x)
  then have "ring_head r < RING" by (simp add: ring_ok_def)
  with 4 show ?case using ring_index_old[of "ring_head r" RING i]
    by (auto simp: recent_byte_def ring_push_def ring_ok_def split: option.splits)
qed

lemma read_all_recent:
  assumes "ring_ok t"
  shows "belya_task_ring_read_all t = rev (map (recent_byte t) [0..<ring_count t])"
proof -
  obtain b where b: "ring_buffer t = Some b" using assms by (auto simp: ring_ok_def split: option.splits)
  have "(ring_tail t + i) mod RING = (ring_head t + RING - 1 - (ring_count t - 1 - i)) mod RING"
    if "i < ring_count t" for i
  proof -
    have le: "ring_count t \<le> RING" and h: "ring_head t = (ring_tail t + ring_count t) mod RING"
      using assms by (simp_all add: ring_ok_def)
    define k where "k = RING - 1 - (ring_count t - 1 - i)"
    have k: "ring_count t + k = RING + i" using that le by (simp add: k_def)
    have "ring_head t + RING - 1 - (ring_count t - 1 - i) = ring_head t + k" using that le by (simp add: k_def)
    moreover have "(ring_head t + k) mod RING = (ring_tail t + (ring_count t + k)) mod RING"
      unfolding h by (simp add: mod_add_left_eq add.assoc)
    moreover have "(ring_tail t + (ring_count t + k)) mod RING = (ring_tail t + i) mod RING"
      unfolding k by (metis add.assoc add.commute mod_add_self1)
    ultimately show ?thesis by simp
  qed
  then show ?thesis
    by (intro nth_equalityI) (simp_all add: belya_task_ring_read_all_def b recent_byte_def rev_nth)
qed

lemma ring_push_total: "ring_push c (t\<lparr>total_bytes_captured := n\<rparr>) = (ring_push c t)\<lparr>total_bytes_captured := n\<rparr>"
  by (simp add: ring_push_def)

lemma fold_push_total:
  "fold ring_push cs (t\<lparr>total_bytes_captured := n\<rparr>) = (fold ring_push cs t)\<lparr>total_bytes_captured := n\<rparr>"
  by (induction cs arbitrary: t) (simp_all add: ring_push_total)

lemma fold_push_fields [simp]:
  "total_bytes_captured (fold ring_push cs t) = total_bytes_captured t"
  "task_state (fold ring_push cs t) = task_state t" "master_fd (fold ring_push cs t) = master_fd t"
  "task_id (fold ring_push cs t) = task_id t" "exit_code (fold ring_push cs t) = exit_code t"
  "task_pid (fold ring_push cs t) = task_pid t" "task_pgid (fold ring_push cs t) = task_pgid t"
  "end_time (fold ring_push cs t) = end_time t" "command (fold ring_push cs t) = command t"
  "ring_buffer (fold ring_push cs t) = None \<longleftrightarrow> ring_buffer t = None"
  by (induction cs arbitrary: t) (simp_all add: ring_push_def)

lemma ring_write_whole:
  "ring_buffer t \<noteq> None \<Longrightarrow> belya_task_ring_write bytes t =
    (fold ring_push bytes t)\<lparr>total_bytes_captured := total_bytes_captured t + length bytes\<rparr>"
  by (auto simp: belya_task_ring_write_def)

lemma ring_writes:
  "ring_buffer t \<noteq> None \<Longrightarrow> fold belya_task_ring_write chunks t =
    (fold ring_push (concat chunks) t)\<lparr>total_bytes_captured := total_bytes_captured t + length (concat chunks)\<rparr>"
proof (induction chunks arbitrary: t)
  case (Cons a chunks)
  let ?t = "(fold ring_push a t)\<lparr>total_bytes_captured := total_bytes_captured t + length a\<rparr>"
  have "ring_buffer ?t \<noteq> None" using Cons.prems by (simp del: not_None_eq)
  from Cons.IH[OF this] show ?case
    by (simp add: ring_write_whole[OF Cons.prems] fold_push_total add.assoc)
qed simp

lemma read_all_total [simp]:
  "belya_task_ring_read_all (t\<lparr>total_bytes_captured := n\<rparr>) = belya_task_ring_read_all t"
  by (simp add: belya_task_ring_read_all_def cong: option.case_cong split: option.split)

lemma ring_ok_total [simp]: "ring_ok (t\<lparr>total_bytes_captured := n\<rparr>) = ring_ok t"
  by (simp add: ring_ok_def)

lemma fold_push_ok: "ring_ok t \<Longrightarrow> ring_ok (fold ring_push cs t)"
  by (induction cs arbitrary: t) (simp_all add: ring_push_ok)

lemma writes_keep [simp]:
  "task_state (fold belya_task_ring_write chunks t) = task_state t"
  "master_fd (fold belya_task_ring_write chunks t) = master_fd t"
  "task_id (fold belya_task_ring_write chunks t) = task_id t"
  "exit_code (fold belya_task_ring_write chunks t) = exit_code t"
  "task_pid (fold belya_task_ring_write chunks t) = task_pid t"
  "task_pgid (fold belya_task_ring_write chunks t) = task_pgid t"
  "end_time (fold belya_task_ring_write chunks t) = end_time t"
  "command (fold belya_task_ring_write chunks t) = command t"
  by (induction chunks arbitrary: t) (simp_all add: belya_task_ring_write_def)

lemma writes_ok: "ring_ok t \<Longrightarrow> ring_ok (fold belya_task_ring_write chunks t)"
  by (induction chunks arbitrary: t) (simp_all add: belya_task_ring_write_def fold_push_ok)

lemma fresh_ring_content:
  assumes "ring_ok t" and "ring_count t = 0" and "total_bytes_captured t = 0"
  shows "belya_task_ring_read_all (fold belya_task_ring_write chunks t) =
      drop (length (concat chunks) - RING) (concat chunks) \<and>
    total_bytes_captured (fold belya_task_ring_write chunks t) = length (concat chunks)"
proof -
  define t' where "t' = fold ring_push (concat chunks) t"
  have buf: "ring_buffer t \<noteq> None" using assms(1) by (auto simp: ring_ok_def split: option.splits)
  have "belya_task_ring_read_all (fold belya_task_ring_write chunks t) = belya_task_ring_read_all t'"
    by (simp add: ring_writes[OF buf] t'_def)
  also have "\<dots> = rev (take RING (rev (concat chunks)))"
    using out_ring.recent_list[OF assms(1,2), of "concat chunks"] read_all_recent[OF fold_push_ok[OF assms(1)]]
    by (simp add: t'_def)
  finally show ?thesis using assms(3) by (simp add: ring_writes[OF buf] rev_take)
qed

section \<open>The table\<close>

text \<open>A task whose slot is in use, and the table as a whole.\<close>

definition task_ok :: "int \<Rightarrow> BelyaBackgroundTask \<Rightarrow> bool" where
  "task_ok last_id t \<longleftrightarrow>
     (case task_state t of
        BELYA_TASK_STATE_UNUSED \<Rightarrow> True
      | BELYA_TASK_STATE_RUNNING \<Rightarrow> 0 < task_id t \<and> task_id t \<le> last_id \<and> ring_ok t \<and> exit_code t = -1
      | BELYA_TASK_STATE_COMPLETED \<Rightarrow> 0 < task_id t \<and> task_id t \<le> last_id \<and> ring_ok t \<and> exit_code t = 0 \<and>
          master_fd t \<le> STDERR_FILENO
      | BELYA_TASK_STATE_FAILED \<Rightarrow> 0 < task_id t \<and> task_id t \<le> last_id \<and> ring_ok t \<and> 0 < exit_code t \<and>
          master_fd t \<le> STDERR_FILENO
      | BELYA_TASK_STATE_KILLED \<Rightarrow> 0 < task_id t \<and> task_id t \<le> last_id \<and> ring_ok t \<and> exit_code t \<noteq> 0 \<and>
          master_fd t \<le> STDERR_FILENO)"

abbreviation used :: "BelyaBackgroundTask \<Rightarrow> bool" where
  "used t \<equiv> task_state t \<noteq> BELYA_TASK_STATE_UNUSED"

definition buffer_ok :: "BelyaBackgroundTask \<Rightarrow> bool" where
  "buffer_ok t \<longleftrightarrow> (case ring_buffer t of None \<Rightarrow> True | Some b \<Rightarrow> length b = RING)"

definition table_ok :: "TaskHost \<Rightarrow> bool" where
  "table_ok h \<longleftrightarrow> length (task_slots h) = BELYA_MAX_BACKGROUND_TASKS \<and> 0 \<le> next_task_id h \<and>
     next_task_id h \<le> TASK_ID_MAX \<and> list_all (task_ok (next_task_id h)) (task_slots h) \<and> list_all buffer_ok (task_slots h) \<and>
     distinct (map task_id (filter used (task_slots h)))"

lemma used_iff: "used t \<longleftrightarrow> task_state t \<in> {BELYA_TASK_STATE_RUNNING, BELYA_TASK_STATE_COMPLETED,
    BELYA_TASK_STATE_FAILED, BELYA_TASK_STATE_KILLED}"
  by (cases "task_state t") auto

lemma task_ok_used: "task_ok n t \<Longrightarrow> used t \<Longrightarrow> 0 < task_id t \<and> task_id t \<le> n \<and> ring_ok t"
  by (cases "task_state t") (auto simp: task_ok_def)

lemma task_ok_mono: "task_ok n t \<Longrightarrow> n \<le> m \<Longrightarrow> task_ok m t"
  by (cases "task_state t") (auto simp: task_ok_def)

lemma ring_buffer_ok: "ring_ok t \<Longrightarrow> buffer_ok t"
  by (auto simp: ring_ok_def buffer_ok_def split: option.splits)

lemma ring_ok_other [simp]:
  "ring_ok (t\<lparr>end_time := a\<rparr>) = ring_ok t" "ring_ok (t\<lparr>exit_code := b\<rparr>) = ring_ok t"
  "ring_ok (t\<lparr>task_state := c\<rparr>) = ring_ok t" "ring_ok (t\<lparr>master_fd := d\<rparr>) = ring_ok t"
  by (simp_all add: ring_ok_def)

lemma finished_task_fields [simp]:
  "task_id (finished_task st now t) = task_id t" "task_pid (finished_task st now t) = task_pid t"
  "command (finished_task st now t) = command t" "ring_ok (finished_task st now t) = ring_ok t"
  "master_fd (finished_task st now t) = -1" "used (finished_task st now t)"
  "task_state (finished_task st now t) \<noteq> BELYA_TASK_STATE_RUNNING"
  by (simp_all add: finished_task_def split: child_status.split)

lemma drain_id [simp]: "task_id (fst (belya_task_drain_output W t w)) = task_id t"
  by (simp add: belya_task_drain_output_def Let_def case_prod_unfold split: wait_result.split)

lemma drain_used_iff: "used t \<Longrightarrow> used (fst (belya_task_drain_output W t w))"
  by (simp add: belya_task_drain_output_def Let_def case_prod_unfold split: wait_result.split)

lemma drain_still: "task_state t \<noteq> BELYA_TASK_STATE_RUNNING \<Longrightarrow>
    task_state (fst (belya_task_drain_output W t w)) = task_state t"
  by (simp add: belya_task_drain_output_def Let_def case_prod_unfold)

lemma drain_task_ok:
  assumes "task_ok n t" and "used t"
  shows "task_ok n (fst (belya_task_drain_output W t w))"
proof (cases "task_state t = BELYA_TASK_STATE_RUNNING")
  case True
  then show ?thesis using assms
    by (auto simp: belya_task_drain_output_def Let_def case_prod_unfold task_ok_def writes_ok finished_task_def
        STDERR_FILENO_def split: wait_result.split child_status.split)
next
  case False
  then have "master_fd t \<le> STDERR_FILENO" using assms by (cases "task_state t") (auto simp: task_ok_def)
  then show ?thesis using assms by (simp add: belya_task_drain_output_def)
qed

text \<open>Looking after all tasks in use.\<close>

definition looked :: "BelyaBackgroundTask \<Rightarrow> BelyaBackgroundTask \<Rightarrow> bool" where
  "looked t t' \<longleftrightarrow> task_id t' = task_id t \<and> (used t' \<longleftrightarrow> used t) \<and>
     (task_state t \<noteq> BELYA_TASK_STATE_RUNNING \<longrightarrow> task_state t' = task_state t) \<and>
     (\<forall>n. task_ok n t \<longrightarrow> task_ok n t') \<and> (buffer_ok t \<longrightarrow> buffer_ok t')"

lemma buffer_ok_other [simp]:
  "buffer_ok (t\<lparr>total_bytes_captured := n\<rparr>) = buffer_ok t" "buffer_ok (finished_task st now t) = buffer_ok t"
  by (simp_all add: buffer_ok_def finished_task_def split: child_status.split)

lemma ring_push_buffer: "buffer_ok t \<Longrightarrow> buffer_ok (ring_push c t)"
  by (auto simp: buffer_ok_def ring_push_def split: option.splits)

lemma writes_buffer: "buffer_ok t \<Longrightarrow> buffer_ok (fold belya_task_ring_write chunks t)"
proof (induction chunks arbitrary: t)
  case (Cons bytes chunks)
  have "buffer_ok t \<Longrightarrow> buffer_ok (fold ring_push bytes t)" for t
    by (induction bytes arbitrary: t) (simp_all add: ring_push_buffer)
  with Cons show ?case by (simp add: belya_task_ring_write_def)
qed simp

lemma drain_buffer: "buffer_ok t \<Longrightarrow> buffer_ok (fst (belya_task_drain_output W t w))"
  by (simp add: belya_task_drain_output_def Let_def case_prod_unfold writes_buffer split: wait_result.split)

lemma looked_refl [simp]: "looked t t"
  by (simp add: looked_def)

lemma looked_drain: "used t \<Longrightarrow> looked t (fst (belya_task_drain_output W t w))"
  by (simp add: looked_def drain_used_iff drain_still drain_task_ok drain_buffer)

lemma drain_used_looked: "list_all2 looked ts (fst (drain_used W ts w))"
  by (induction ts arbitrary: w) (simp_all add: Let_def case_prod_unfold looked_drain)

lemma looked_map_id:
  assumes "list_all2 looked ts ts'"
  shows "map task_id (filter used ts') = map task_id (filter used ts)"
  using assms by (induction rule: list_all2_induct) (auto simp: looked_def)

lemma looked_table:
  assumes "list_all2 looked (task_slots h) ts'" and "table_ok h"
  shows "table_ok (h\<lparr>task_slots := ts'\<rparr>)"
proof -
  have "list_all2 looked ts ts' \<Longrightarrow> list_all (task_ok n) ts \<Longrightarrow> list_all buffer_ok ts \<Longrightarrow>
      list_all (task_ok n) ts' \<and> list_all buffer_ok ts'" for ts ts' n
    by (induction rule: list_all2_induct) (auto simp: looked_def)
  then show ?thesis using assms list_all2_lengthD[OF assms(1)]
    by (auto simp: table_ok_def looked_map_id[OF assms(1)])
qed

lemma looked_update:
  assumes "looked (ts ! i) t'"
  shows "list_all2 looked ts (ts[i := t'])"
  using assms by (cases "i < length ts") (auto simp: list_all2_conv_all_nth nth_list_update)

lemma looked_slot: "table_ok h \<Longrightarrow> looked (task_slots h ! i) t' \<Longrightarrow> table_ok (h\<lparr>task_slots := (task_slots h)[i := t']\<rparr>)"
  by (rule looked_table[OF looked_update])

lemma looked_killed: "used t \<Longrightarrow> looked t (fst (killed_task W t w))"
  by (cases "task_state t")
    (auto simp: killed_task_def looked_def Let_def case_prod_unfold task_ok_def buffer_ok_def STDERR_FILENO_def)

lemma killed_not_running: "task_state (fst (killed_task W t w)) \<noteq> BELYA_TASK_STATE_RUNNING"
  by (simp add: killed_task_def Let_def case_prod_unfold)

lemma looked_with_ring: "looked t (with_ring t)"
proof (cases "ring_buffer t")
  case None
  then have "\<not> ring_ok t" by (simp add: ring_ok_def)
  with None show ?thesis
    by (auto simp: looked_def with_ring_def buffer_ok_def task_ok_def split: BelyaTaskState.splits)
qed (simp add: with_ring_def)

lemma first_index_Some:
  "first_index P xs = Some i \<Longrightarrow> i < length xs \<and> P (xs ! i)"
  by (induction xs arbitrary: i) (auto split: if_splits)

lemma first_index_None: "first_index P xs = None \<longleftrightarrow> list_all (\<lambda>x. \<not> P x) xs"
  by (induction xs) auto

lemma find_task_Some:
  "find_task tid ts = Some i \<Longrightarrow> i < length ts \<and> task_id (ts ! i) = tid \<and> used (ts ! i)"
  unfolding find_task_def by (drule first_index_Some) simp

lemma free_slot_Some: "free_slot ts = Some i \<Longrightarrow> i < length ts \<and> task_state (ts ! i) \<noteq> BELYA_TASK_STATE_RUNNING"
  by (auto simp: free_slot_def split: option.splits dest!: first_index_Some)

lemma free_slot_None: "free_slot ts = None \<longleftrightarrow> list_all (\<lambda>t. task_state t = BELYA_TASK_STATE_RUNNING) ts"
  by (auto simp: free_slot_def first_index_None list_all_iff split: option.splits dest!: first_index_Some
      intro!: bexI[OF _ nth_mem])

section \<open>Spawning keeps the table\<close>

lemma distinct_filter_update:
  assumes "distinct (map f (filter P xs))" and "f y \<notin> f ` set (filter P xs)"
  shows "distinct (map f (filter P (xs[i := y])))"
  using assms
proof (induction xs arbitrary: i)
  case (Cons x xs)
  have sub: "z \<in> set (xs[j := y]) \<Longrightarrow> z = y \<or> z \<in> set xs" for j z
    using set_update_subset_insert[of xs j y] by auto
  have "distinct (map f (filter P xs))" using Cons.prems(1) by (simp split: if_splits)
  then show ?case using Cons by (cases i) (auto split: if_splits dest!: sub)
qed simp

lemma started_ok:
  assumes "buffer_ok t" and "0 < tid"
  shows "task_ok tid (started_task tid pid fd now cmd (with_ring t))" and
    "buffer_ok (started_task tid pid fd now cmd (with_ring t))"
    "ring_ok (started_task tid pid fd now cmd (with_ring t))"
  using assms
  by (auto simp: task_ok_def started_task_def with_ring_def ring_ok_def buffer_ok_def split: option.splits)

lemma table_started:
  assumes "table_ok h" and "looked (started_task (next_task_id h + 1) pid fd now cmd (with_ring (task_slots h ! i))) t"
    and "i < length (task_slots h)" and "next_task_id h < TASK_ID_MAX"
  shows "table_ok (h\<lparr>task_slots := (task_slots h)[i := t], next_task_id := next_task_id h + 1, host_agent := a\<rparr>)"
proof -
  let ?n = "next_task_id h + 1"
  have n: "0 < ?n" and b: "buffer_ok (task_slots h ! i)"
    using assms(1,3) by (auto simp: table_ok_def list_all_length)
  have t: "task_ok ?n t" "buffer_ok t" "task_id t = ?n"
    using assms(2) started_ok[OF b n] by (auto simp: looked_def started_task_def)
  have "list_all (task_ok ?n) ((task_slots h)[i := t])"
    using assms(1) t(1) task_ok_mono[of "next_task_id h" _ ?n]
    by (auto simp: table_ok_def list_all_iff dest!: set_update_subset_insert[THEN subsetD])
  moreover have "list_all buffer_ok ((task_slots h)[i := t])"
    using assms(1) t(2) by (auto simp: table_ok_def list_all_iff dest!: set_update_subset_insert[THEN subsetD])
  moreover have "task_id t \<notin> task_id ` set (filter used (task_slots h))"
    using assms(1) task_ok_used[of "next_task_id h"] t(3) by (fastforce simp: table_ok_def list_all_iff)
  ultimately show ?thesis
    using assms(1,4) by (simp add: table_ok_def distinct_filter_update)
qed

lemma spawn_table:
  assumes "table_ok h" and "fst (belya_harness_spawn_task W cmd h w) \<le> TASK_ID_MAX"
  shows "table_ok (fst (snd (belya_harness_spawn_task W cmd h w)))"
proof (cases "nonempty cmd")
  case (Some c)
  obtain ts w1 where d: "drain_used W (task_slots h) w = (ts, w1)" by fastforce
  then have ok: "table_ok (h\<lparr>task_slots := ts\<rparr>)"
    using looked_table[OF drain_used_looked assms(1)] by (metis fst_conv)
  show ?thesis
  proof (cases "free_slot ts")
    case (Some i)
    note fs = free_slot_Some[OF Some]
    have wr: "table_ok (h\<lparr>task_slots := ts[i := with_ring (ts ! i)]\<rparr>)"
      using looked_slot[OF ok, of i "with_ring (ts ! i)"] by (simp add: looked_with_ring)
    have st: "table_ok (h\<lparr>task_slots := ts[i := fst (belya_task_drain_output W
        (started_task (next_task_id h + 1) pid fd now c (with_ring (ts ! i))) w')],
        next_task_id := next_task_id h + 1, host_agent := a\<rparr>)" if "next_task_id h < TASK_ID_MAX" for pid fd now w' a
      using that table_started[OF ok, where i = i and pid = pid and fd = fd and now = now and cmd = c and a = a, simplified,
          OF looked_drain] fs by (simp add: started_task_def)
    show ?thesis using \<open>nonempty cmd = Some c\<close> d Some wr st assms(2)
      by (auto simp: belya_harness_spawn_task_def Let_def case_prod_unfold split: option.splits)
  qed (use \<open>nonempty cmd = Some c\<close> d ok in \<open>simp add: belya_harness_spawn_task_def\<close>)
qed (use assms(1) in \<open>simp add: belya_harness_spawn_task_def\<close>)

lemma spawn_id_le: "0 \<le> next_task_id h \<Longrightarrow> fst (belya_harness_spawn_task W cmd h w) \<le> next_task_id h + 1"
  by (auto simp: belya_harness_spawn_task_def Let_def case_prod_unfold split: option.splits)

section \<open>Reachable tables\<close>

text \<open>
  The calls of the harness on its table, in any order; between them the rest of the program may
  change anything but the table, and the system may do what it likes.
\<close>

inductive task_step :: "'w task_os \<Rightarrow> TaskHost \<times> 'w \<Rightarrow> TaskHost \<times> 'w \<Rightarrow> bool" for W where
  spawns: "belya_harness_spawn_task W cmd h w = (r, h', w') \<Longrightarrow> r \<le> TASK_ID_MAX \<Longrightarrow> task_step W (h, w) (h', w')"
| lists: "belya_harness_task_list W h w = (msg, h', w') \<Longrightarrow> task_step W (h, w) (h', w')"
| looks: "belya_harness_task_status W tid h w = (msg, h', w') \<Longrightarrow> task_step W (h, w) (h', w')"
| sends: "belya_harness_task_send_input W tid input h w = (msg, h', w') \<Longrightarrow> task_step W (h, w) (h', w')"
| kills: "belya_harness_task_kill W tid h w = (msg, h', w') \<Longrightarrow> task_step W (h, w) (h', w')"
| other: "task_slots h' = task_slots h \<Longrightarrow> next_task_id h' = next_task_id h \<Longrightarrow> task_step W (h, w) (h', w')"

inductive task_reachable :: "'w task_os \<Rightarrow> TaskHost \<times> 'w \<Rightarrow> bool" for W where
  initial: "task_slots h = replicate BELYA_MAX_BACKGROUND_TASKS unused_task \<Longrightarrow> next_task_id h = 0 \<Longrightarrow>
    task_reachable W (h, w)"
| step: "task_reachable W s \<Longrightarrow> task_step W s s' \<Longrightarrow> task_reachable W s'"

inductive_cases task_stepE: "task_step W (h, w) (h', w')"

lemma table_agent [simp]: "table_ok (h\<lparr>host_agent := a\<rparr>) = table_ok h"
  by (simp add: table_ok_def)

lemma drained_slot:
  assumes "table_ok h" and "find_task tid (task_slots h) = Some i"
  shows "table_ok (h\<lparr>task_slots := (task_slots h)[i := fst (belya_task_drain_output W (task_slots h ! i) w)]\<rparr>)"
  using find_task_Some[OF assms(2)] by (intro looked_slot[OF assms(1)] looked_drain) simp

lemma killed_slot:
  assumes "table_ok h" and "find_task tid (task_slots h) = Some i"
  shows "table_ok (h\<lparr>task_slots := (task_slots h)[i := fst (killed_task W (task_slots h ! i) w)], host_agent := a\<rparr>)"
proof -
  have "table_ok (h\<lparr>task_slots := (task_slots h)[i := fst (killed_task W (task_slots h ! i) w)]\<rparr>)"
    using find_task_Some[OF assms(2)] by (intro looked_slot[OF assms(1)] looked_killed) simp
  then show ?thesis by (simp add: table_ok_def)
qed

lemma step_table:
  assumes "task_step W s s'" and "table_ok (fst s)"
  shows "table_ok (fst s')"
  using assms
proof (induction rule: task_step.induct)
  case (spawns cmd h w r h' w')
  then show ?case using spawn_table[of h W cmd w] by simp
next
  case (lists h w msg h' w')
  then show ?case using looked_table[OF drain_used_looked, of h W w]
    by (auto simp: belya_harness_task_list_def Let_def case_prod_unfold)
next
  case (looks tid h w msg h' w')
  then show ?case using drained_slot[of h tid _ W w]
    by (cases "find_task tid (task_slots h)") (auto simp: belya_harness_task_status_def Let_def case_prod_unfold)
next
  case (sends tid input h w msg h' w')
  have "table_ok (fst (snd (belya_harness_task_send_input W tid input h w)))"
    using sends(2) drained_slot[of h tid _ W]
    by (simp add: belya_harness_task_send_input_def Let_def case_prod_unfold del: append.simps split: option.split)
  with sends(1) show ?case by simp
next
  case (kills tid h w msg h' w')
  have "table_ok (fst (snd (belya_harness_task_kill W tid h w)))"
    using kills(2) killed_slot[where h = h and tid = tid and W = W and w = w]
    by (simp add: belya_harness_task_kill_def Let_def case_prod_unfold del: append.simps split: option.split)
  with kills(1) show ?case by simp
next
  case (other h' h w w')
  then show ?case by (simp add: table_ok_def)
qed

lemma initial_table:
  "task_slots h = replicate BELYA_MAX_BACKGROUND_TASKS unused_task \<Longrightarrow> next_task_id h = 0 \<Longrightarrow> table_ok h"
  by (simp add: table_ok_def list_all_iff task_ok_def buffer_ok_def unused_task_def TASK_ID_MAX_def)

section \<open>Looking at one task again and again\<close>

text \<open>What the terminal delivers to a task that is looked at in the states \<open>ws\<close>.\<close>

fun seen_output :: "'w task_os \<Rightarrow> BelyaBackgroundTask \<Rightarrow> 'w list \<Rightarrow> cstr" where
  "seen_output W t [] = []"
| "seen_output W t (w # ws) =
     (if master_fd t \<le> STDERR_FILENO then [] else concat (fst (pty_read W (master_fd t) w))) @
     seen_output W (fst (belya_task_drain_output W t w)) ws"

definition look_all :: "'w task_os \<Rightarrow> 'w list \<Rightarrow> BelyaBackgroundTask \<Rightarrow> BelyaBackgroundTask" where
  "look_all W ws t = fold (\<lambda>w t. fst (belya_task_drain_output W t w)) ws t"

definition same_ring :: "BelyaBackgroundTask \<Rightarrow> BelyaBackgroundTask \<Rightarrow> bool" where
  "same_ring a b \<longleftrightarrow> ring_buffer a = ring_buffer b \<and> ring_head a = ring_head b \<and> ring_tail a = ring_tail b \<and>
     ring_count a = ring_count b \<and> total_bytes_captured a = total_bytes_captured b"

lemma same_ring_push: "same_ring a b \<Longrightarrow> same_ring (ring_push c a) (ring_push c b)"
  by (simp add: same_ring_def ring_push_def)

lemma same_ring_pushes: "same_ring a b \<Longrightarrow> same_ring (fold ring_push cs a) (fold ring_push cs b)"
  by (induction cs arbitrary: a b) (simp_all add: same_ring_push)

lemma same_ring_write:
  assumes "same_ring a b"
  shows "same_ring (belya_task_ring_write bytes a) (belya_task_ring_write bytes b)"
proof -
  have "ring_buffer a = ring_buffer b" "total_bytes_captured a = total_bytes_captured b"
    using assms by (simp_all add: same_ring_def)
  then show ?thesis
    using assms same_ring_pushes[OF assms, of bytes] by (simp add: belya_task_ring_write_def) (simp add: same_ring_def)
qed

lemma same_ring_writes:
  "same_ring a b \<Longrightarrow> same_ring (fold belya_task_ring_write chunks a) (fold belya_task_ring_write chunks b)"
  by (induction chunks arbitrary: a b) (simp_all add: same_ring_write)

lemma same_ring_finished: "same_ring (finished_task st now t) t"
  by (simp add: same_ring_def finished_task_def split: child_status.split)

lemma same_ring_drain:
  "\<exists>chunks. concat chunks = (if master_fd t \<le> STDERR_FILENO then [] else concat (fst (pty_read W (master_fd t) w))) \<and>
    same_ring (fst (belya_task_drain_output W t w)) (fold belya_task_ring_write chunks t)"
proof (cases "master_fd t \<le> STDERR_FILENO")
  case True
  then show ?thesis by (intro exI[of _ "[]"]) (simp add: belya_task_drain_output_def same_ring_def)
next
  case False
  let ?t = "fold belya_task_ring_write (fst (pty_read W (master_fd t) w)) t"
  have "fst (belya_task_drain_output W t w) = ?t \<or> (\<exists>st now. fst (belya_task_drain_output W t w) = finished_task st now ?t)"
    using False by (simp add: belya_task_drain_output_def Let_def case_prod_unfold split: wait_result.split) blast
  then have "same_ring (fst (belya_task_drain_output W t w)) ?t"
  proof
    assume "\<exists>st now. fst (belya_task_drain_output W t w) = finished_task st now ?t"
    then show ?thesis using same_ring_finished by metis
  qed (simp add: same_ring_def)
  with False show ?thesis by auto
qed

lemma same_ring_trans: "same_ring a b \<Longrightarrow> same_ring b c \<Longrightarrow> same_ring a c"
  by (simp add: same_ring_def)

lemma look_all_writes:
  "\<exists>chunks. concat chunks = seen_output W t ws \<and> same_ring (look_all W ws t) (fold belya_task_ring_write chunks t)"
proof (induction ws arbitrary: t)
  case Nil
  show ?case by (intro exI[of _ "[]"]) (simp add: look_all_def same_ring_def)
next
  case (Cons w ws)
  let ?t = "fst (belya_task_drain_output W t w)"
  obtain cs where cs: "concat cs = (if master_fd t \<le> STDERR_FILENO then [] else concat (fst (pty_read W (master_fd t) w)))"
    "same_ring ?t (fold belya_task_ring_write cs t)" using same_ring_drain[of t W w] by metis
  obtain ds where ds: "concat ds = seen_output W ?t ws" "same_ring (look_all W ws ?t) (fold belya_task_ring_write ds ?t)"
    using Cons.IH[of ?t] by metis
  have "same_ring (look_all W (w # ws) t) (fold belya_task_ring_write (cs @ ds) t)"
    using same_ring_trans[OF ds(2) same_ring_writes[OF cs(2)]] by (simp add: look_all_def)
  moreover have "concat (cs @ ds) = seen_output W t (w # ws)" using cs(1) ds(1) by simp
  ultimately show ?case by blast
qed

lemma same_ring_read: "same_ring a b \<Longrightarrow> belya_task_ring_read_all a = belya_task_ring_read_all b"
  by (simp add: same_ring_def belya_task_ring_read_all_def cong: map_cong split: option.split)

lemma look_all_gone: "master_fd t \<le> STDERR_FILENO \<Longrightarrow> look_all W ws t = t"
  by (induction ws) (simp_all add: look_all_def belya_task_drain_output_def)

section \<open>Properties\<close>

text \<open>C24: Every table the harness can reach is well formed: sixteen slots; the ids of the slots in use are
  distinct, positive, were all handed out and fit an \<open>int\<close>; each has an intact ring; a running task has the exit code -1,
  a completed one 0, a failed one a positive one; and a task that is no longer running holds no terminal.\<close>

theorem task_table_invariant:
  assumes "task_reachable W (h, w)"
  shows "table_ok h"
proof -
  have "task_reachable W s \<Longrightarrow> table_ok (fst s)" for s
    by (induction rule: task_reachable.induct) (auto simp: initial_table dest: step_table)
  from this[OF assms] show ?thesis by simp
qed

text \<open>A system for the examples: its state counts the looks; the terminal delivers a line at the first
  look, and the process is found to have exited at the second.\<close>

definition sample_os :: "nat task_os" where
  "sample_os = \<lparr>pty_read = \<lambda>fd n. (if n = 0 then [''hello'' @ [LF]] else [], n + 1), pty_write = \<lambda>fd s n. n,
     open_pty = \<lambda>n. (Some 7, n), fork_child = \<lambda>fd l n. (Some 100, n),
     wait_child = \<lambda>pid n. (if n \<ge> 2 then Changed (Exited 0) else No_Change, n), reap_child = \<lambda>pid n. n,
     signal_group = \<lambda>g s n. n, close_fd = \<lambda>fd n. n, clock = \<lambda>n. 1000 + int n, pause_us = \<lambda>us n. n,
     os_env = \<lambda>name. None,
     os_kernel = \<lparr>landlock_abi = 0, refuses_ruleset = \<lambda>rs net. Some ENOSYS, opens = \<lambda>p. None,
       takes_path_rule = \<lambda>p rs. False, takes_port_rule = \<lambda>p. False, no_new_privs_ok = False, restrict_ok = False\<rparr>\<rparr>"

definition sample_host :: TaskHost where
  "sample_host = \<lparr>host_agent = sample_agent [], task_slots = replicate BELYA_MAX_BACKGROUND_TASKS unused_task,
     next_task_id = 0, host_cwd = ''/work''\<rparr>"

theorem task_table_invariant_witness:
  "table_ok (fst (snd (belya_harness_spawn_task sample_os (Some ''make'') sample_host 0)))"
proof -
  obtain r h' w' where s: "belya_harness_spawn_task sample_os (Some ''make'') sample_host 0 = (r, h', w')"
    by (cases "belya_harness_spawn_task sample_os (Some ''make'') sample_host 0") auto
  have "task_reachable sample_os (sample_host, 0)"
    by (rule task_reachable.initial) (simp_all add: sample_host_def)
  moreover have "r \<le> TASK_ID_MAX"
    using spawn_id_le[of sample_host sample_os "Some ''make''" 0, unfolded s fst_conv] by (simp add: sample_host_def TASK_ID_MAX_def)
  ultimately have "task_reachable sample_os (h', w')" by (blast intro: task_reachable.step task_step.spawns[OF s])
  from task_table_invariant[OF this] show ?thesis by (simp add: s)
qed

text \<open>C25: The output shown for a task is the end of what its terminal delivered: however often and
  whenever a new task is looked at, reading its ring gives exactly the last 65536 bytes of everything the
  terminal delivered to those looks, and the counter is the length of all of it.\<close>

theorem task_output_is_recent:
  assumes "buffer_ok t" and "0 < tid"
  shows "let t = started_task tid pid fd now cmd (with_ring t); all = seen_output W t ws in
    belya_task_ring_read_all (look_all W ws t) = drop (length all - 65536) all \<and>
    total_bytes_captured (look_all W ws t) = length all"
proof -
  let ?t = "started_task tid pid fd now cmd (with_ring t)"
  obtain chunks where c: "concat chunks = seen_output W ?t ws"
    "same_ring (look_all W ws ?t) (fold belya_task_ring_write chunks ?t)"
    using look_all_writes[of W ?t ws] by metis
  have "ring_ok ?t" by (rule started_ok(3)[OF assms])
  then have "belya_task_ring_read_all (fold belya_task_ring_write chunks ?t) =
      drop (length (concat chunks) - RING) (concat chunks) \<and>
    total_bytes_captured (fold belya_task_ring_write chunks ?t) = length (concat chunks)"
    by (rule fresh_ring_content) (simp_all add: started_task_def)
  then show ?thesis
    using c(1) same_ring_read[OF c(2)] c(2) by (simp add: BELYA_TASK_RING_BUFFER_SIZE_def same_ring_def)
qed

theorem task_output_is_recent_witness:
  "let t = started_task 1 100 7 1000 ''make'' (with_ring unused_task) in
    belya_task_ring_read_all (look_all sample_os [0, 1] t) = ''hello'' @ [LF] \<and>
    total_bytes_captured (look_all sample_os [0, 1] t) = 6"
proof -
  let ?t = "started_task 1 100 7 1000 ''make'' (with_ring unused_task)"
  have seen: "seen_output sample_os ?t [0, 1] = ''hello'' @ [LF]"
    by (simp add: sample_os_def started_task_def STDERR_FILENO_def belya_task_drain_output_def)
  have "buffer_ok unused_task" by (simp add: buffer_ok_def unused_task_def)
  from task_output_is_recent[OF this, of 1 100 7 1000 "''make''" sample_os "[0, 1]"] show ?thesis
    unfolding Let_def seen by simp
qed

text \<open>A new task never displaces a running one: a successful spawn hands out the next id, puts the
  task into a slot whose task was not running, and leaves all other slots as the look before it left
  them; and when the system grants a terminal and a process, it only fails when all slots are running.\<close>

theorem spawn_spares_running_tasks:
  assumes "belya_harness_spawn_task W (Some cmd) h w = (r, h', w')" and "cmd \<noteq> []" and "0 \<le> next_task_id h"
  shows "(r > 0 \<longrightarrow> r = next_task_id h + 1 \<and>
      (\<exists>i < length (task_slots h). task_state (fst (drain_used W (task_slots h) w) ! i) \<noteq> BELYA_TASK_STATE_RUNNING \<and>
        task_id (task_slots h' ! i) = r \<and> command (task_slots h' ! i) = take 511 cmd \<and>
        (\<forall>j. j \<noteq> i \<longrightarrow> task_slots h' ! j = fst (drain_used W (task_slots h) w) ! j))) \<and>
    (r \<le> 0 \<longrightarrow> (\<forall>v. fst (open_pty W v) \<noteq> None) \<longrightarrow> (\<forall>fd l v. fst (fork_child W fd l v) \<noteq> None) \<longrightarrow>
      list_all (\<lambda>t. task_state t = BELYA_TASK_STATE_RUNNING) (fst (drain_used W (task_slots h) w)))"
proof -
  let ?ts = "fst (drain_used W (task_slots h) w)"
  have len: "length ?ts = length (task_slots h)"
    using list_all2_lengthD[OF drain_used_looked[of "task_slots h" W w]] by simp
  have cmd_kept: "command (fst (belya_task_drain_output W t v)) = command t" for t v
    by (auto simp: belya_task_drain_output_def Let_def case_prod_unfold split: wait_result.split)
  show ?thesis
  proof (cases "free_slot ?ts")
    case None
    then have "list_all (\<lambda>t. task_state t = BELYA_TASK_STATE_RUNNING) ?ts" by (simp add: free_slot_None)
    moreover have "r = -1" using assms None
      by (simp add: belya_harness_spawn_task_def nonempty_def Let_def case_prod_unfold)
    ultimately show ?thesis by simp
  next
    case (Some i)
    note slot = free_slot_Some[OF Some]
    from assms(1,2) Some show ?thesis using assms(3) slot len
      by (auto simp: belya_harness_spawn_task_def nonempty_def Let_def case_prod_unfold cmd_kept started_task_def
          TASK_COMMAND_BUF_def split: option.splits intro!: exI[of _ i]) (metis option.distinct(1))+
  qed
qed

theorem spawn_spares_running_tasks_witness:
  "let (r, h', w') = belya_harness_spawn_task sample_os (Some ''make'') sample_host 0 in
    r > 0 \<and> (\<exists>i < 16. task_id (task_slots h' ! i) = r \<and> command (task_slots h' ! i) = ''make'')"
proof -
  obtain r h' w' where s: "belya_harness_spawn_task sample_os (Some ''make'') sample_host 0 = (r, h', w')"
    by (cases "belya_harness_spawn_task sample_os (Some ''make'') sample_host 0") auto
  have d: "drain_used sample_os (replicate n unused_task) w = (replicate n unused_task, w)" for n w
    by (induction n) (simp_all add: unused_task_def)
  have f: "free_slot (replicate BELYA_MAX_BACKGROUND_TASKS unused_task) = Some 0"
    by (simp add: free_slot_def BELYA_MAX_BACKGROUND_TASKS_def numeral_eq_Suc unused_task_def)
  have "open_pty sample_os v = (Some 7, v)" "fork_child sample_os fd l v = (Some 100, v)" for fd l v
    by (simp_all add: sample_os_def)
  then have "fst (belya_harness_spawn_task sample_os (Some ''make'') sample_host 0) = 1"
    by (simp add: belya_harness_spawn_task_def nonempty_def Let_def case_prod_unfold sample_host_def d f)
  then have "r = 1" by (simp add: s)
  moreover have "length (task_slots sample_host) = 16" "0 \<le> next_task_id sample_host"
    by (simp_all add: sample_host_def BELYA_MAX_BACKGROUND_TASKS_def)
  ultimately show ?thesis
    using spawn_spares_running_tasks[OF s] unfolding s prod.case by force
qed

text \<open>Output can be lost at the end: when the terminal has nothing to deliver at a look and the process is
  found to have ended right behind it, the terminal is closed, and what the process wrote in between
  is never shown, whatever the terminal would deliver then.\<close>

theorem late_output_lost:
  assumes "task_state t = BELYA_TASK_STATE_RUNNING" and "STDERR_FILENO < master_fd t"
    and "pty_read W (master_fd t) w = ([], w1)" and "wait_child W (task_pid t) w1 = (Changed st, w2)"
  shows "belya_task_ring_read_all (look_all W (w # ws) t) = belya_task_ring_read_all t"
proof -
  have d: "fst (belya_task_drain_output W t w) = finished_task st (clock W w2) t"
    using assms by (simp add: belya_task_drain_output_def)
  have "look_all W (w # ws) t = look_all W ws (finished_task st (clock W w2) t)" by (simp add: look_all_def d)
  also have "\<dots> = finished_task st (clock W w2) t" by (rule look_all_gone) (simp add: STDERR_FILENO_def)
  finally show ?thesis using same_ring_read[OF same_ring_finished] by simp
qed

end
