(* ===== verification/JevClient.thy ===== *)
theory JevClient
  imports ModelAdapter
begin

text \<open>
  The client of the decision service, \<open>jev_client.c\<close>: the requests it sends, what it makes of the
  replies, and the local rules that stand in when the service does not answer. The network is
  the record of the model adapter; a request's timeout is in the unit the code passes to libcurl,
  here milliseconds. Allocation does not fail.
\<close>

record JevClient =
  jev_key :: cstr
  base_url :: cstr
  timeout_ms :: int

record RiskVerdict =
  verdict_action :: cstr
  verdict_risk :: cdouble
  verdict_confidence :: cdouble

record JevContextFilterResult =
  filter_action :: cstr
  relevance :: cstr
  redundant :: bool
  filter_confidence :: cdouble

definition hundredths :: "nat \<Rightarrow> cdouble" where
  "hundredths n = round_double False n 100"

definition jev_client_init :: "cstr option \<Rightarrow> JevClient option" where
  "jev_client_init key =
     map_option (\<lambda>k. \<lparr>jev_key = k, base_url = ''https://jevtypesafeai.com/api/v1'', timeout_ms = 5000\<rparr>) (nonempty key)"

definition jev_request :: "JevClient \<Rightarrow> cstr \<Rightarrow> cstr \<Rightarrow> http_request" where
  "jev_request client endpoint_path json_body =
     \<lparr>req_url = Some (take 511 (base_url client @ endpoint_path)),
      req_agent = ''BelyaAgent/7.0 (Autonomous C99 Engine)'',
      req_headers = [''Content-Type: application/json'',
        take 511 (''Authorization: Bearer '' @ jev_key client)],
      req_body = json_body,
      req_timeout = (if timeout_ms client > 0 then timeout_ms client else 5000)\<rparr>"

definition jev_http_post ::
    "'w network \<Rightarrow> JevClient option \<Rightarrow> cstr \<Rightarrow> cstr \<Rightarrow> 'w \<Rightarrow> cstr option \<times> 'w" where
  "jev_http_post W client endpoint_path json_body w =
     (case client of None \<Rightarrow> (None, w)
      | Some c \<Rightarrow>
        if \<not> curl_ready W then (None, w)
        else let (out, w) = perform W (jev_request c endpoint_path json_body) w in
          if curl_code out \<noteq> CURLE_OK \<or> http_status out < 200 \<or> http_status out \<ge> 300 then (None, w)
          else (Some (c_string (concat (reply_chunks out))), w))"

section \<open>Routing\<close>

definition jev_parse_triage_response :: "cstr option \<Rightarrow> cstr option" where
  "jev_parse_triage_response json_str =
     Option.bind (json_parse json_str) (\<lambda>v. Option.bind (json_obj_get (Some v) ''answers'')
       (\<lambda>a. Option.bind (json_obj_get (Some a) ''route'') (\<lambda>r. json_obj_get_str (Some r) ''choice'')))"

definition triage_criteria :: JsonValue where
  "triage_criteria = JSON_OBJECT
    [(''architect'', JSON_STRING ''high-level planning, file exploration, research, architecture design''),
     (''builder'', JSON_STRING ''code editing, writing files, refactoring, fixing bugs, applying patches''),
     (''tester'', JSON_STRING ''running tests, build verification, executing benchmarks, syntax checks''),
     (''direct'', JSON_STRING ''conversational greeting, question about status, capability query'')]"

definition triage_question :: "cstr \<Rightarrow> JsonValue" where
  "triage_question user_prompt = JSON_OBJECT
    [(''state'', JSON_STRING user_prompt),
     (''questions'', JSON_OBJECT [(''route'', JSON_OBJECT
        [(''type'', JSON_STRING ''choice''),
         (''instructions'', JSON_STRING ''Select the best agent role for this task.''),
         (''criteria'', triage_criteria)])])]"

definition jev_decide_triage_role ::
    "'w network \<Rightarrow> JevClient option \<Rightarrow> cstr option \<Rightarrow> 'w \<Rightarrow> cstr option \<times> 'w" where
  "jev_decide_triage_role W client user_prompt w =
     (case (client, user_prompt) of
        (Some c, Some p) \<Rightarrow>
          let (resp, w) = jev_http_post W client ''/decide'' (json_text (triage_question p)) w in
          (jev_parse_triage_response resp, w)
      | _ \<Rightarrow> (None, w))"

section \<open>Risk\<close>

definition jev_parse_risk_response :: "cstr option \<Rightarrow> RiskVerdict option" where
  "jev_parse_risk_response json_str =
     map_option (\<lambda>v. \<lparr>
       verdict_action = (case json_obj_get_str (Some v) ''action'' of None \<Rightarrow> ''allow'' | Some a \<Rightarrow> a),
       verdict_risk = json_obj_get_num (Some v) ''risk'' (DFin False 0 0),
       verdict_confidence = json_obj_get_num (Some v) ''confidence'' (hundredths 100)\<rparr>) (json_parse json_str)"

definition risk_question :: "cstr option \<Rightarrow> cstr \<Rightarrow> cstr option \<Rightarrow> JsonValue" where
  "risk_question goal tool arguments = JSON_OBJECT
    [(''goal'', JSON_STRING (case goal of None \<Rightarrow> ''Autonomous execution'' | Some g \<Rightarrow> g)),
     (''tool'', JSON_STRING tool),
     (''arguments'', JSON_STRING (case arguments of None \<Rightarrow> [] | Some a \<Rightarrow> a)),
     (''context'', JSON_STRING ''Belya autonomous execution'')]"

definition jev_check_tool_risk_http ::
    "'w network \<Rightarrow> JevClient option \<Rightarrow> cstr option \<Rightarrow> cstr option \<Rightarrow> cstr option \<Rightarrow> 'w \<Rightarrow> RiskVerdict option \<times> 'w" where
  "jev_check_tool_risk_http W client goal tool arguments w =
     (case (client, tool) of
        (Some c, Some t) \<Rightarrow>
          let (resp, w) = jev_http_post W client ''/agent/risk'' (json_text (risk_question goal t arguments)) w in
          (jev_parse_risk_response resp, w)
      | _ \<Rightarrow> (None, w))"

definition block_words :: "cstr list" where
  "block_words = [''rm -rf /'', ''rm -fr /'', ''rm -rf ~'', ''rm -rf *'', '':(){ :|:& };:'', ''mkfs'',
     ''dd if=/dev/zero'', ''dd if=/dev/urandom'', ''chmod -R 777 /'', ''> /dev/sda'',
     ''/etc/passwd'', ''/etc/shadow'', ''DROP TABLE'', ''DROP DATABASE'']"

definition confirm_words :: "cstr list" where
  "confirm_words = [''sudo '', ''systemctl '', ''kill -9'', ''killall'', ''chmod '', ''chown '',
     ''git reset --hard'', ''git clean -f'', ''iptables'', ''ufw'']"

definition has_word :: "cstr \<Rightarrow> cstr \<Rightarrow> bool" where
  "has_word s p \<longleftrightarrow> strstr s p \<noteq> None"

definition is_blocked_command :: "cstr \<Rightarrow> bool" where
  "is_blocked_command a \<longleftrightarrow>
     list_ex (has_word a) block_words \<or>
     ((has_word a ''curl '' \<or> has_word a ''wget '') \<and> (has_word a ''| sh'' \<or> has_word a ''| bash''))"

definition jev_local_eval_risk :: "cstr option \<Rightarrow> cstr option \<Rightarrow> RiskVerdict" where
  "jev_local_eval_risk tool arguments =
     (let a = (case arguments of None \<Rightarrow> [] | Some t \<Rightarrow> t);
          is_bash = (tool = Some ''bash'' \<or> tool = Some ''exec'' \<or> tool = Some ''sh'') in
      if is_bash \<and> is_blocked_command a
      then \<lparr>verdict_action = ''block'', verdict_risk = hundredths 98, verdict_confidence = hundredths 99\<rparr>
      else if is_bash \<and> list_ex (has_word a) confirm_words
      then \<lparr>verdict_action = ''confirm'', verdict_risk = hundredths 65, verdict_confidence = hundredths 92\<rparr>
      else \<lparr>verdict_action = ''allow'', verdict_risk = hundredths 5, verdict_confidence = hundredths 95\<rparr>)"

definition jev_evaluate_command_risk ::
    "'w network \<Rightarrow> JevClient option \<Rightarrow> cstr option \<Rightarrow> cstr option \<Rightarrow> cstr option \<Rightarrow> 'w \<Rightarrow> RiskVerdict \<times> 'w" where
  "jev_evaluate_command_risk W client goal tool arguments w =
     (let (remote, w) =
        (case client of Some c \<Rightarrow>
             if jev_key c \<noteq> [] then jev_check_tool_risk_http W client goal tool arguments w else (None, w)
         | None \<Rightarrow> (None, w)) in
      case remote of Some r \<Rightarrow> (r, w) | None \<Rightarrow> (jev_local_eval_risk tool arguments, w))"

section \<open>Context items\<close>

definition jev_parse_filter_response :: "cstr option \<Rightarrow> JevContextFilterResult option" where
  "jev_parse_filter_response json_str =
     map_option (\<lambda>v. \<lparr>
       filter_action = (case json_obj_get_str (Some v) ''action'' of None \<Rightarrow> ''keep'' | Some a \<Rightarrow> a),
       relevance = (case json_obj_get_str (Some v) ''relevance'' of None \<Rightarrow> ''minor'' | Some a \<Rightarrow> a),
       redundant = json_obj_get_bool (Some v) ''redundant'' False,
       filter_confidence = json_obj_get_num (Some v) ''confidence'' (hundredths 100)\<rparr>) (json_parse json_str)"

definition jev_filter_context_item ::
    "'w network \<Rightarrow> JevClient option \<Rightarrow> cstr option \<Rightarrow> cstr option \<Rightarrow> 'w \<Rightarrow> JevContextFilterResult option \<times> 'w" where
  "jev_filter_context_item W client task item_text w =
     (case (client, item_text) of
        (Some c, Some t) \<Rightarrow>
          let (resp, w) = jev_http_post W client ''/context/filter'' (json_text (JSON_OBJECT
                [(''task'', JSON_STRING (case task of None \<Rightarrow> ''General task'' | Some x \<Rightarrow> x)),
                 (''item'', JSON_STRING t)])) w in
          (jev_parse_filter_response resp, w)
      | _ \<Rightarrow> (None, w))"

section \<open>Decisions\<close>

text \<open>The first option the state mentions, else the first option; with a fixed confidence.\<close>

definition jev_decide_choice :: "cstr option \<Rightarrow> cstr option list \<Rightarrow> (cstr \<times> cdouble) option" where
  "jev_decide_choice state options =
     (case options of [] \<Rightarrow> None
      | first_opt # others \<Rightarrow>
        let hit = (case nonempty state of None \<Rightarrow> first_opt
              | Some s \<Rightarrow> (case find (\<lambda>x. case x of None \<Rightarrow> False | Some p \<Rightarrow> has_word s p) options of
                  None \<Rightarrow> first_opt | Some h \<Rightarrow> h)) in
        Some (case hit of None \<Rightarrow> ''default'' | Some h \<Rightarrow> h, hundredths 90))"

definition jev_decide_noul :: "cstr option \<Rightarrow> cstr option \<Rightarrow> bool \<times> cdouble \<times> cdouble" where
  "jev_decide_noul state true_criteria =
     (let v = (case (state, nonempty true_criteria) of (Some s, Some c) \<Rightarrow> has_word s c | _ \<Rightarrow> False) in
      (v, hundredths (if v then 92 else 10), hundredths 88))"

text \<open>The level, the expected level, the distribution and the confidence.\<close>

definition jev_decide_score :: "cstr list \<Rightarrow> (nat \<times> cdouble \<times> cdouble list \<times> cdouble) option" where
  "jev_decide_score scale_labels =
     (let n = length scale_labels in
      if n = 0 then None
      else let k = (if n > 16 then 16 else n) in
        Some (0, DFin False 0 0, replicate k (round_double False 1 k), hundredths 85))"

section \<open>Properties\<close>

text \<open>Without an answer of the service, a blocked command is blocked.\<close>

lemma local_rules_apply:
  assumes "tool = Some ''bash''" and "is_blocked_command a"
    and "\<And>rq w. curl_code (fst (perform W rq w)) \<noteq> CURLE_OK"
  shows "verdict_action (fst (jev_evaluate_command_risk W client goal tool (Some a) w)) = ''block''"
  using assms
  by (auto simp: jev_evaluate_command_risk_def jev_check_tool_risk_http_def jev_http_post_def
      jev_parse_risk_response_def json_parse_def jev_local_eval_risk_def Let_def case_prod_unfold
      split: option.splits)

text \<open>An empty answer of the service overrides the local rules: a command the local rules block
  is allowed, with risk zero, when the service answers with a JSON value that has no \<open>action\<close>.\<close>

theorem empty_answer_overrides_block:
  assumes "curl_ready W" and "jev_key c \<noteq> []"
    and "\<And>rq w. perform W rq w = (out, w)" and "curl_code out = CURLE_OK" and "http_status out = 200"
    and "concat (reply_chunks out) = ''{}''"
  shows "fst (jev_evaluate_command_risk W (Some c) goal (Some ''bash'') (Some a) w) =
    \<lparr>verdict_action = ''allow'', verdict_risk = DFin False 0 0, verdict_confidence = hundredths 100\<rparr>"
proof -
  have p: "json_parse (Some (c_string ''{}'')) = Some (JSON_OBJECT [])" by code_simp
  show ?thesis
    by (simp add: jev_evaluate_command_risk_def jev_check_tool_risk_http_def jev_http_post_def assms Let_def
        jev_parse_risk_response_def p json_obj_get_str_def json_obj_get_num_def json_obj_get_def
        del: c_string_def)
qed

theorem empty_answer_overrides_block_witness:
  "is_blocked_command ''rm -rf /'' \<and>
   verdict_action (fst (jev_evaluate_command_risk
     ((down_network 200)\<lparr>perform := (\<lambda>rq w. (\<lparr>curl_code = CURLE_OK, http_status = 200, reply_headers = [], reply_chunks = [''{}'']\<rparr>, w))\<rparr>)
     (jev_client_init (Some ''k'')) None (Some ''bash'') (Some ''rm -rf /'') ())) = ''allow''"
proof -
  let ?W = "(down_network 200)\<lparr>perform := (\<lambda>rq w. (\<lparr>curl_code = CURLE_OK, http_status = 200, reply_headers = [], reply_chunks = [''{}'']\<rparr>, w))\<rparr>"
  have b: "is_blocked_command ''rm -rf /''" by code_simp
  have c: "jev_client_init (Some ''k'') = Some \<lparr>jev_key = ''k'', base_url = ''https://jevtypesafeai.com/api/v1'', timeout_ms = 5000\<rparr>"
    by (simp add: jev_client_init_def nonempty_def)
  show ?thesis unfolding c
    by (subst empty_answer_overrides_block[where out = "\<lparr>curl_code = CURLE_OK, http_status = 200, reply_headers = [], reply_chunks = [''{}'']\<rparr>"])
       (simp_all add: b down_network_def)
qed

end
