(* ===== verification/ShellTool.thy ===== *)
theory ShellTool
  imports TaskTable JevClient
begin

text \<open>
  The tool \<open>bash\<close> of \<open>belya_harness.c\<close> and its remote backend. \<open>bash_decide\<close> is the code up to the
  start of a process: the checks in their order and the \<open>cd\<close> builtin, which changes the harness; its
  result says what is answered or started. \<open>tool_bash\<close> then starts it and collects the output. What a
  started process does is a parameter: the list of what the polling loop sees, one entry for each
  round, with \<open>late\<close> for a round that finds the time limit exceeded. When the list ends before the loop
  does, the result is None. A remote command is written to the shell's standard input completely.
\<close>

section \<open>Data\<close>

datatype BelyaExecBackend = BELYA_BACKEND_LOCAL | BELYA_BACKEND_DOCKER | BELYA_BACKEND_SSH

text \<open>The fields of the harness the tool uses; its agent is always there.\<close>

record ShellHost =
  task_host :: TaskHost
  jev :: "JevClient option"
  is_router :: bool
  plan_mode :: bool
  bash_restricted :: bool
  exec_backend :: BelyaExecBackend
  docker_container :: cstr
  ssh_host :: cstr

record poll =
  got :: cstr
  over :: "(child_status \<times> cstr list) option"
  late :: bool

datatype child_run = No_Pipe | No_Fork | Ran "poll list"

record 'w shell_os =
  net :: "'w network"
  tasks_os :: "'w task_os"
  change_dir :: "cstr \<Rightarrow> 'w \<Rightarrow> cstr option \<times> 'w"
  current_dir :: "'w \<Rightarrow> cstr option"
  run_child :: "launch \<Rightarrow> cstr option \<Rightarrow> 'w \<Rightarrow> child_run \<times> 'w"

definition cwd :: "ShellHost option \<Rightarrow> cstr" where
  "cwd host = (case host of None \<Rightarrow> [] | Some h \<Rightarrow> host_cwd (task_host h))"

definition set_cwd :: "cstr \<Rightarrow> ShellHost \<Rightarrow> ShellHost" where
  "set_cwd d h = h\<lparr>task_host := (task_host h)\<lparr>host_cwd := d\<rparr>\<rparr>"

section \<open>The guards\<close>

definition plan_words :: "cstr list" where
  "plan_words = [''rm '', ''mv '', ''cp '', ''mkdir '', ''git commit'', ''git push'', ''sed -i'', ''>'', ''>>'',
     ''chmod '', ''chown '']"

definition plan_mutates :: "cstr \<Rightarrow> bool" where
  "plan_mutates cmd \<longleftrightarrow> list_ex (has_word cmd) plan_words"

definition allowed_cmds :: "cstr list" where
  "allowed_cmds = [''make'', ''./belya_test'', ''./almaz_test'', ''gcc'', ''clang'', ''ctest'', ''git'', ''cat'', ''ls'', ''pwd'',
     ''echo'', ''grep'', ''find'', ''wc'', ''diff'', ''head'', ''tail'', ''sort'', ''uniq'', ''md5sum'', ''sha256sum'', ''file'', ''stat'']"

definition tester_metas :: "char list" where
  "tester_metas = ''|&$`'' @ [BSL] @ ''<>(){};''"

definition FIRST_BUF :: nat where "FIRST_BUF = 128"

definition tester_allowed :: "cstr \<Rightarrow> bool" where
  "tester_allowed cmd \<longleftrightarrow>
     (let t = lskip (\<lambda>c. c = CHR '' '' \<or> c = TAB) cmd in
      list_all (\<lambda>c. c \<notin> set tester_metas) t \<and> LF \<notin> set t \<and>
      take (FIRST_BUF - 1) (takeWhile (\<lambda>c. \<not> isspace c) t) \<in> set allowed_cmds)"

definition tester_refusal :: "cstr \<Rightarrow> cstr" where
  "tester_refusal cmd = ''Error: Tester role bash execution is restricted to build/test validation targets (e.g. make test, make, ./belya_test). Unauthorized command rejected: '' @
     [SQ] @ cmd @ [SQ]"

section \<open>The cd builtin\<close>

text \<open>The text before the first \<open>;\<close> or \<open>&&\<close> outside quotes, and what stands behind it.\<close>

fun cd_split :: "char option \<Rightarrow> cstr \<Rightarrow> cstr \<times> cstr option" where
  "cd_split quote [] = ([], None)"
| "cd_split quote (c # p) =
     (if c = SQ \<or> c = DQ then
        (let (t, r) = cd_split (if quote = None then Some c else if quote = Some c then None else quote) p in (c # t, r))
      else if quote = None \<and> c = CHR '';'' then ([], Some p)
      else if quote = None \<and> c = CHR ''&'' \<and> p \<noteq> [] \<and> hd p = CHR ''&'' then ([], Some (tl p))
      else (let (t, r) = cd_split quote p in (c # t, r)))"

lemma cd_split_rest: "cd_split quote p = (t, Some r) \<Longrightarrow> length r < length p"
  by (induction quote p arbitrary: t rule: cd_split.induct) (force split: if_splits prod.splits)+

definition DIR_BUF :: nat where "DIR_BUF = 4096"

definition cd_after :: "cstr \<Rightarrow> cstr" where
  "cd_after cmd = lskip (\<lambda>c. c = CHR '' '') (if length cmd > 3 then drop 3 cmd else [])"

lemma cd_progress:
  assumes "(t, Some r) = cd_split None (cd_after cmd)"
  shows "length (lskip (\<lambda>c. c = CHR '' '') r) < length cmd"
proof -
  have "length (lskip (\<lambda>c. c = CHR '' '') r) \<le> length r" by (rule length_lskip)
  also have "\<dots> < length (cd_after cmd)" using cd_split_rest assms by metis
  also have "\<dots> \<le> length (if length cmd > 3 then drop 3 cmd else [])" unfolding cd_after_def by (rule length_lskip)
  also have "\<dots> \<le> length cmd" by simp
  finally show ?thesis .
qed

definition is_cd :: "cstr \<Rightarrow> bool" where
  "is_cd cmd \<longleftrightarrow> has_prefix ''cd '' cmd \<or> cmd = ''cd''"

definition cd_clean :: "(cstr \<Rightarrow> cstr option) \<Rightarrow> cstr \<Rightarrow> cstr" where
  "cd_clean env t =
     (let target_dir = rskip isspace (take (DIR_BUF - 1) t);
          dest = (if target_dir = [] then (case env ''HOME'' of None \<Rightarrow> ''.'' | Some d \<Rightarrow> d) else target_dir);
          quoted = (length dest \<ge> 2 \<and> (hd dest = DQ \<and> last dest = DQ \<or> hd dest = SQ \<and> last dest = SQ)) in
      take (DIR_BUF - 1) (if quoted then butlast (tl dest) else dest))"

definition cd_resolved :: "ShellHost option \<Rightarrow> cstr \<Rightarrow> cstr" where
  "cd_resolved host clean_path =
     (if has_prefix ''/'' clean_path \<or> cwd host = [] then clean_path
      else take (2 * DIR_BUF - 1) (cwd host @ ''/'' @ clean_path))"

definition cd_enter :: "'w shell_os \<Rightarrow> cstr \<Rightarrow> ShellHost option \<Rightarrow> 'w \<Rightarrow> ShellHost option" where
  "cd_enter W resolved host w =
     map_option (set_cwd (case current_dir W w of Some d \<Rightarrow> d | None \<Rightarrow> take (DIR_BUF - 1) resolved)) host"

definition cd_failed :: "cstr \<Rightarrow> cstr \<Rightarrow> cstr" where
  "cd_failed clean_path why = ''Error: Failed to change directory to '' @ [SQ] @ clean_path @ [SQ] @ '': '' @ why"

definition cd_notice :: "ShellHost option \<Rightarrow> cstr" where
  "cd_notice host =
     (if cwd host \<noteq> [] then ''Changed working directory to: '' @ cwd host else ''Directory changed successfully.'')"

text \<open>An answer, or the command that is left to run.\<close>

function cd_loop :: "'w shell_os \<Rightarrow> cstr \<Rightarrow> ShellHost option \<Rightarrow> 'w \<Rightarrow> (cstr + cstr) \<times> ShellHost option \<times> 'w" where
  "cd_loop W cmd host w =
     (if \<not> is_cd cmd then (Inr cmd, host, w)
      else case cd_split None (cd_after cmd) of (t, sep) \<Rightarrow>
        let clean_path = cd_clean (env_var (net W)) t; resolved = cd_resolved host clean_path;
            (failed, w) = change_dir W resolved w in
        case failed of Some why \<Rightarrow> (Inl (cd_failed clean_path why), host, w)
        | None \<Rightarrow>
          let host = cd_enter W resolved host w in
          case sep of None \<Rightarrow> (Inl (cd_notice host), host, w)
          | Some behind \<Rightarrow>
            let remainder = lskip (\<lambda>c. c = CHR '' '') behind in
            if remainder = []
            then (Inl (''Changed working directory to: '' @ (if host = None then resolved else cwd host)), host, w)
            else cd_loop W remainder host w)"
  by pat_completeness auto
termination
proof (relation "measure (\<lambda>(W, cmd, host, w). length cmd)", goal_cases)
  case 2
  then show ?case using cd_progress by simp
qed simp

declare cd_loop.simps [simp del]

section \<open>What is started\<close>

definition full_command :: "ShellHost option \<Rightarrow> cstr \<Rightarrow> cstr" where
  "full_command host cmd = ''export PAGER=cat SYSTEMD_PAGER=cat LESS=-R && '' @
     (if cwd host \<noteq> [] then ''cd '' @ [DQ] @ cwd host @ [DQ] @ '' && '' @ cmd else cmd)"

definition shell_policies :: "'w shell_os \<Rightarrow> ShellHost option \<Rightarrow> ruleset list" where
  "shell_policies W host =
     (case host of None \<Rightarrow> []
      | Some h \<Rightarrow>
        (case snd (sandbox_apply (env_var (net W)) (os_kernel (tasks_os W)) (cwd host)) of None \<Rightarrow> [] | Some rs \<Rightarrow> [rs]) @
        (if plan_mode h then
           (case apply_plan_mode_kernel_sandbox (os_kernel (tasks_os W)) of None \<Rightarrow> [] | Some rs \<Rightarrow> [rs])
         else []))"

definition shell_launch :: "'w shell_os \<Rightarrow> ShellHost option \<Rightarrow> cstr \<Rightarrow> launch" where
  "shell_launch W host cmd =
     \<lparr>launch_argv = [''sh'', ''-c'', full_command host cmd], launch_policies = shell_policies W host\<rparr>"

datatype bash_decision = Answer cstr | In_Background cstr | On_Backend cstr | Run_Local launch

definition risk_refusal :: "RiskVerdict \<Rightarrow> cstr" where
  "risk_refusal v = ''Blocked by Jev Decision Coprocessor: Command poses severe risk (score: '' @ fixed2 (verdict_risk v) @
     '', confidence: '' @ fixed2 (verdict_confidence v) @ ''). Execution denied.''"

definition jev_verdict :: "'w shell_os \<Rightarrow> ShellHost option \<Rightarrow> cstr \<Rightarrow> 'w \<Rightarrow> RiskVerdict option \<times> 'w" where
  "jev_verdict W host cmd w =
     (case host of None \<Rightarrow> (None, w)
      | Some h \<Rightarrow>
        let (v, w) = jev_evaluate_command_risk (net W) (jev h) (Some ''Execute shell command'') (Some ''bash'') (Some cmd) w in
        (Some v, w))"

definition wants_background :: "JsonValue option \<Rightarrow> bool" where
  "wants_background args = (case json_obj_get args ''background'' of Some (JSON_BOOL b) \<Rightarrow> b | _ \<Rightarrow> False)"

definition bash_decide ::
    "'w shell_os \<Rightarrow> JsonValue option \<Rightarrow> ShellHost option \<Rightarrow> 'w \<Rightarrow> bash_decision \<times> ShellHost option \<times> 'w" where
  "bash_decide W args host w =
     (let flag = (\<lambda>f. case host of None \<Rightarrow> False | Some h \<Rightarrow> f h) in
      if flag is_router
      then (Answer ''Physical security violation: execution tools are disabled in Router VTable.'', host, w)
      else case json_obj_get_str args ''command'' of
        None \<Rightarrow> (Answer ''Error: Missing command argument.'', host, w)
      | Some cmd \<Rightarrow>
        let (risk, w) = jev_verdict W host cmd w in
        case (case risk of Some v \<Rightarrow> if verdict_action v = ''block'' then Some v else None | None \<Rightarrow> None) of
          Some v \<Rightarrow> (Answer (risk_refusal v), host, w)
        | None \<Rightarrow>
          if flag plan_mode \<and> plan_mutates cmd
          then (Answer ''Blocked: Plan Mode is active (read-only execution). Shell commands with write/delete mutations are prohibited. Call exit_plan_mode first.'', host, w)
          else if wants_background args \<and> host \<noteq> None then (In_Background cmd, host, w)
          else if flag bash_restricted \<and> \<not> tester_allowed cmd then (Answer (tester_refusal cmd), host, w)
          else if flag (\<lambda>h. exec_backend h \<noteq> BELYA_BACKEND_LOCAL) then (On_Backend cmd, host, w)
          else case cd_loop W cmd host w of
            (Inl msg, host, w) \<Rightarrow> (Answer msg, host, w)
          | (Inr cmd, host, w) \<Rightarrow> (Run_Local (shell_launch W host cmd), host, w))"

section \<open>Collecting the output\<close>

fun drain_rest :: "cstr list \<Rightarrow> cstr \<Rightarrow> cstr" where
  "drain_rest [] out = out"
| "drain_rest (c # cs) out =
     (let out = out @ c_string c in if length out > 100000 then out else drain_rest cs out)"

datatype ending = Overflowed | Finished child_status | Timed_Out

text \<open>The polling loop: the output and why it ended; \<open>note\<close> is what is added to an output that is too long.\<close>

fun collect :: "cstr \<Rightarrow> poll list \<Rightarrow> cstr \<Rightarrow> (cstr \<times> ending) option" where
  "collect note [] out = None"
| "collect note (p # ps) out =
     (let out = out @ c_string (got p) in
      if got p \<noteq> [] \<and> length out > 100000 then Some (out @ note, Overflowed)
      else case over p of Some (st, rest) \<Rightarrow> Some (drain_rest rest out, Finished st)
      | None \<Rightarrow> if late p then Some (out, Timed_Out) else collect note ps out)"

definition bash_timeout :: "'w shell_os \<Rightarrow> cdouble" where
  "bash_timeout W =
     (case env_var (net W) ''BASH_TIMEOUT'' of None \<Rightarrow> double_of_nat 30
      | Some t \<Rightarrow> if double_gt0 (atof t) then atof t else double_of_nat 30)"

definition local_note :: cstr where
  "local_note = [LF] @ ''[Output Truncated by Belya Harness (100KB buffer limit)]''"

definition local_output :: "cdouble \<Rightarrow> cstr \<times> ending \<Rightarrow> cstr" where
  "local_output limit r =
     (case r of (out, e) \<Rightarrow>
        let out = out @ (if e = Timed_Out
              then [LF] @ ''[Process killed: Execution exceeded '' @ fixed0 limit @ ''s timeout]'' else []) in
        if out = [] then ''Command executed with no output.'' else out)"

section \<open>The remote backend\<close>

definition remote_note :: cstr where
  "remote_note = [LF] @ ''[Output Truncated by Belya Remote Backend (100KB buffer limit)]''"

definition remote_launch :: "BelyaExecBackend \<Rightarrow> cstr \<Rightarrow> cstr \<Rightarrow> launch" where
  "remote_launch backend target workdir =
     \<lparr>launch_argv =
        (case backend of
           BELYA_BACKEND_DOCKER \<Rightarrow> [''docker'', ''exec'', ''-i'', ''-w'', if workdir \<noteq> [] then workdir else ''/'', target, ''/bin/sh'']
         | BELYA_BACKEND_SSH \<Rightarrow> [''ssh'', ''-T'', ''-o'', ''ControlMaster=auto'', ''-o'', ''ControlPath=/tmp/belya_ssh_%r@%h:%p'',
             ''-o'', ''ControlPersist=600'', target, ''/bin/sh'']
         | BELYA_BACKEND_LOCAL \<Rightarrow> [''/bin/sh'']),
      launch_policies = []\<rparr>"

definition status_code :: "child_status \<Rightarrow> int" where
  "status_code st = (case st of Exited n \<Rightarrow> int n | Signaled s \<Rightarrow> 128 + int s)"

definition remote_output :: "cstr \<times> ending \<Rightarrow> cstr \<times> int" where
  "remote_output r =
     (case r of (out, Overflowed) \<Rightarrow> (out, 0)
      | (out, Finished st) \<Rightarrow> (out, status_code st)
      | (out, Timed_Out) \<Rightarrow> (out @ [LF] @ ''[Error: Command timed out]'', 124))"

definition belya_remote_exec_piped ::
    "'w shell_os \<Rightarrow> BelyaExecBackend \<Rightarrow> cstr \<Rightarrow> cstr \<Rightarrow> cstr \<Rightarrow> 'w \<Rightarrow> ((cstr \<times> int) \<times> 'w) option" where
  "belya_remote_exec_piped W backend target workdir cmd w =
     (if backend = BELYA_BACKEND_DOCKER \<and> target = [] then Some ((''Error: Missing Docker container target.'', 1), w)
      else if backend = BELYA_BACKEND_SSH \<and> target = [] then Some ((''Error: Missing SSH host target.'', 1), w)
      else case run_child W (remote_launch backend target workdir) (Some (cmd @ [LF])) w of
        (No_Pipe, w) \<Rightarrow> Some ((''Error: Failed to create stdin pipe.'', -1), w)
      | (No_Fork, w) \<Rightarrow> Some ((''Error: Subprocess fork failed.'', -1), w)
      | (Ran polls, w) \<Rightarrow> map_option (\<lambda>r. (remote_output r, w)) (collect remote_note polls []))"

definition belya_harness_set_exec_backend :: "BelyaExecBackend \<Rightarrow> cstr option \<Rightarrow> ShellHost \<Rightarrow> ShellHost" where
  "belya_harness_set_exec_backend backend target h =
     (let h = h\<lparr>exec_backend := backend\<rparr> in
      case target of None \<Rightarrow> h
      | Some t \<Rightarrow>
        (case backend of BELYA_BACKEND_DOCKER \<Rightarrow> h\<lparr>docker_container := take 127 t\<rparr>
         | BELYA_BACKEND_SSH \<Rightarrow> h\<lparr>ssh_host := take 127 t\<rparr>
         | BELYA_BACKEND_LOCAL \<Rightarrow> h))"

definition belya_harness_exec_remote :: "'w shell_os \<Rightarrow> ShellHost \<Rightarrow> cstr \<Rightarrow> 'w \<Rightarrow> ((cstr \<times> int) \<times> 'w) option" where
  "belya_harness_exec_remote W h cmd w =
     belya_remote_exec_piped W (exec_backend h)
       (if exec_backend h = BELYA_BACKEND_DOCKER then docker_container h else ssh_host h) (cwd (Some h)) cmd w"

section \<open>The tool\<close>

definition background_answer :: "int \<Rightarrow> cstr" where
  "background_answer tid =
     (if tid > 0 then ''Command launched in background PTY subshell [Task ID: '' @ int_text tid @
        '']. Use manage_task(action='' @ [DQ] @ ''status'' @ [DQ] @ '', id='' @ int_text tid @ '') to monitor output.''
      else ''Error: Failed to spawn background task (task table full or PTY allocation failed).'')"

definition tool_bash ::
    "'w shell_os \<Rightarrow> JsonValue option \<Rightarrow> ShellHost option \<Rightarrow> 'w \<Rightarrow> (cstr \<times> ShellHost option \<times> 'w) option" where
  "tool_bash W args host w =
     (case bash_decide W args host w of (d, host, w) \<Rightarrow>
      case (d, host) of
        (Answer msg, _) \<Rightarrow> Some (msg, host, w)
      | (In_Background cmd, Some h) \<Rightarrow>
          (case belya_harness_spawn_task (tasks_os W) (Some cmd) (task_host h) w of (tid, th, w) \<Rightarrow>
             Some (background_answer tid, Some (h\<lparr>task_host := th\<rparr>), w))
      | (On_Backend cmd, Some h) \<Rightarrow>
          map_option (\<lambda>((out, code), w). (out, host, w)) (belya_harness_exec_remote W h cmd w)
      | (Run_Local l, _) \<Rightarrow>
          (case run_child W l None w of
             (No_Pipe, w) \<Rightarrow> Some (''Error: Pipe creation failed.'', host, w)
           | (No_Fork, w) \<Rightarrow> Some (''Error: Subprocess fork failed.'', host, w)
           | (Ran polls, w) \<Rightarrow>
               map_option (\<lambda>r. (local_output (bash_timeout W) r, host, w)) (collect local_note polls []))
      | (_, None) \<Rightarrow> None)"

section \<open>What the decision keeps\<close>

lemma set_cwd_keeps [simp]:
  "plan_mode (set_cwd d h) = plan_mode h" "bash_restricted (set_cwd d h) = bash_restricted h"
  "is_router (set_cwd d h) = is_router h" "jev (set_cwd d h) = jev h" "exec_backend (set_cwd d h) = exec_backend h"
  "cwd (Some (set_cwd d h)) = d"
  by (simp_all add: set_cwd_def cwd_def)

lemma cd_enter_plan: "map_option plan_mode (cd_enter W r host w) = map_option plan_mode host"
  by (cases host) (simp_all add: cd_enter_def)

lemma cd_loop_plan:
  "cd_loop W cmd host w = (x, host', w') \<Longrightarrow> map_option plan_mode host' = map_option plan_mode host"
proof (induction W cmd host w arbitrary: x host' w' rule: cd_loop.induct)
  case (1 W cmd host w)
  show ?case
  proof (cases "is_cd cmd")
    case True
    obtain t sep where t: "cd_split None (cd_after cmd) = (t, sep)" by fastforce
    let ?clean = "cd_clean (env_var (net W)) t"
    let ?res = "cd_resolved host ?clean"
    obtain failed w1 where w1: "change_dir W ?res w = (failed, w1)" by fastforce
    note unf = 1(2)[unfolded cd_loop.simps[of W cmd] t prod.case Let_def w1, simplified True]
    show ?thesis
    proof (cases failed)
      case None
      show ?thesis
      proof (cases sep)
        case (Some behind)
        show ?thesis
        proof (cases "lskip (\<lambda>c. c = CHR '' '') behind = []")
          case False
          have "map_option plan_mode host' = map_option plan_mode (cd_enter W ?res host w1)"
            by (rule 1(1)[OF _ t[symmetric] refl refl w1[symmetric] refl None refl Some refl False])
              (use True unf None Some False in simp_all)
          then show ?thesis by (simp add: cd_enter_plan)
        qed (use unf None Some cd_enter_plan in auto)
      qed (use unf None cd_enter_plan in auto)
    qed (use unf in auto)
  qed (use 1(2) in \<open>simp add: cd_loop.simps\<close>)
qed

lemma cd_loop_plain: "\<not> is_cd cmd \<Longrightarrow> cd_loop W cmd host w = (Inr cmd, host, w)"
  by (simp add: cd_loop.simps)

lemma run_local_launch:
  assumes "bash_decide W args host w = (Run_Local l, host', w')"
  shows "\<exists>cmd. l = shell_launch W host' cmd \<and> map_option plan_mode host' = map_option plan_mode host"
  using assms by (auto simp: bash_decide_def Let_def split: if_splits option.splits prod.splits sum.splits dest: cd_loop_plan)

lemma shell_policies_permit:
  "permits_all (shell_policies W (Some h)) r p \<longleftrightarrow>
    (\<forall>rs. snd (sandbox_apply (env_var (net W)) (os_kernel (tasks_os W)) (cwd (Some h))) = Some rs \<longrightarrow> permits rs r p) \<and>
    (plan_mode h \<longrightarrow> apply_plan_mode_kernel_sandbox (os_kernel (tasks_os W)) \<noteq> None \<longrightarrow>
      permits (plan_ruleset (os_kernel (tasks_os W))) r p)"
  by (auto simp: shell_policies_def apply_plan_mode_kernel_sandbox_def split: option.split)

lemma tester_not_cd: "tester_allowed cmd \<Longrightarrow> \<not> is_cd cmd"
proof
  assume t: "tester_allowed cmd" and c: "is_cd cmd"
  from c obtain r where r: "cmd = ''cd'' @ r" "r = [] \<or> hd r = CHR '' ''"
    by (auto simp: is_cd_def has_prefix_iff)
  have "takeWhile (\<lambda>c. \<not> isspace c) (lskip (\<lambda>c. c = CHR '' '' \<or> c = TAB) cmd) = ''cd''"
    using r by (cases r) (auto simp: lskip_def isspace_def byte_def)
  with t show False by (simp add: tester_allowed_def Let_def FIRST_BUF_def allowed_cmds_def)
qed

lemma no_client_verdict:
  assumes "jev h = None"
  shows "jev_verdict W (Some h) cmd w = (Some (jev_local_eval_risk (Some ''bash'') (Some cmd)), w)"
  using assms by (simp add: jev_verdict_def jev_evaluate_command_risk_def)

lemma local_risk_action: "verdict_action (jev_local_eval_risk (Some ''bash'') (Some cmd)) = ''block'' \<longleftrightarrow> is_blocked_command cmd"
  by (simp add: jev_local_eval_risk_def Let_def)

section \<open>The output is bounded\<close>

lemma length_c_string: "length (c_string s) \<le> length s"
  by (simp add: c_string_def length_takeWhile_le)

lemma drain_rest_bound:
  "length out \<le> 100000 \<Longrightarrow> list_all (\<lambda>c. length c \<le> k) cs \<Longrightarrow> length (drain_rest cs out) \<le> 100000 + k"
proof (induction cs arbitrary: out)
  case (Cons c cs)
  have "length (c_string c) \<le> k" using Cons.prems(2) length_c_string[of c] by simp
  with Cons show ?case by (cases "length (out @ c_string c) > 100000") (auto simp: Let_def)
qed simp

text \<open>A poll as the code's buffer of 512 bytes makes it.\<close>

definition poll_ok :: "poll \<Rightarrow> bool" where
  "poll_ok p \<longleftrightarrow> length (got p) \<le> 511 \<and>
     (case over p of None \<Rightarrow> True | Some (st, rest) \<Rightarrow> list_all (\<lambda>c. length c \<le> 511) rest)"

lemma collect_bound:
  assumes "collect addendum ps out = Some (res, e)" and "list_all poll_ok ps" and "length out \<le> 100000"
  shows "length res \<le> 100511 + length addendum"
  using assms
proof (induction addendum ps out rule: collect.induct)
  case (2 addendum p ps out)
  let ?out = "out @ c_string (got p)"
  have g: "length (c_string (got p)) \<le> 511" "got p = [] \<Longrightarrow> c_string (got p) = []"
    using 2(3) length_c_string[of "got p"] by (simp_all add: poll_ok_def c_string_def)
  show ?case
  proof (cases "got p \<noteq> [] \<and> length ?out > 100000")
    case True
    then show ?thesis using 2(2,4) g(1) by (auto simp: Let_def)
  next
    case False
    then have small: "length ?out \<le> 100000" using g(2) 2(4) by (cases "got p = []") simp_all
    show ?thesis
    proof (cases "over p")
      case None
      then show ?thesis using 2 False small by (auto simp: Let_def split: if_splits)
    next
      case (Some ended)
      then have "list_all (\<lambda>c. length c \<le> 511) (snd ended)"
        using 2(3) by (simp add: poll_ok_def case_prod_unfold)
      moreover have "res = drain_rest (snd ended) ?out"
        using Some 2(2) False by (auto simp: Let_def case_prod_unfold split: if_splits)
      ultimately show ?thesis using drain_rest_bound[OF small] by fastforce
    qed
  qed
qed simp

section \<open>Properties\<close>

text \<open>C26: Where Landlock is enforced, a shell the tool starts in the foreground can change files only
  beneath the harness's current directory and \<open>/tmp\<close>, and write to the devices; in plan mode it can
  create, write, remove, link and move files only beneath \<open>/tmp\<close>, and write to \<open>/dev/null\<close>, whatever the
  command is. Truncating is the exception: the policy of plan mode leaves it out, and it stays
  possible beneath the current directory (\<open>plan_mode_allows_truncation\<close>).\<close>

theorem local_shell_confined:
  assumes "bash_decide W args (Some h) w = (Run_Local l, Some h', w')"
    and "k = os_kernel (tasks_os W)"
    and "fst (sandbox_apply (env_var (net W)) k (cwd (Some h'))) = 0"
    and "r \<in> set SB_WRITE_RIGHTS" and "permits_all (launch_policies l) r p"
  shows "(\<exists>d. beneath d p \<and> (opens k (cwd (Some h')) = Some d \<or> opens k ''/tmp'' = Some d \<or>
      r = FS_WRITE_FILE \<and> opens k ''/dev'' = Some d)) \<and>
    (plan_mode h \<and> apply_plan_mode_kernel_sandbox k \<noteq> None \<and> r \<noteq> FS_TRUNCATE \<longrightarrow>
      (\<exists>d. beneath d p \<and> (opens k ''/tmp'' = Some d \<or> r = FS_WRITE_FILE \<and> opens k ''/dev/null'' = Some d)))"
proof -
  obtain cmd where l: "l = shell_launch W (Some h') cmd" "plan_mode h' = plan_mode h"
    using run_local_launch[OF assms(1)] by auto
  have pol: "permits_all (shell_policies W (Some h')) r p" using assms(5) l(1) by (simp add: shell_launch_def)
  obtain rs where rs: "snd (sandbox_apply (env_var (net W)) k (cwd (Some h'))) = Some rs"
    using assms(3) sandbox_result by blast
  then obtain enet where shell: "rs = shell_ruleset (env_var (net W)) k (cwd (Some h')) enet"
    using sandbox_policy by blast
  have "permits rs r p" using pol rs assms(2) by (simp add: shell_policies_permit)
  from this[unfolded shell shell_permits[OF assms(4)]]
  have here: "\<exists>d. beneath d p \<and> (opens k (cwd (Some h')) = Some d \<or> opens k ''/tmp'' = Some d \<or>
      r = FS_WRITE_FILE \<and> opens k ''/dev'' = Some d)" by (auto simp: allow_path_iff)
  have "\<exists>d. beneath d p \<and> (opens k ''/tmp'' = Some d \<or> r = FS_WRITE_FILE \<and> opens k ''/dev/null'' = Some d)"
    if "plan_mode h" "apply_plan_mode_kernel_sandbox k \<noteq> None" "r \<noteq> FS_TRUNCATE"
  proof -
    have "permits (plan_ruleset k) r p" using pol l(2) assms(2) that by (auto simp: shell_policies_permit)
    from this[unfolded plan_permits[OF assms(4) that(3)]] show ?thesis by (auto simp: allow_path_iff)
  qed
  with here show ?thesis by blast
qed

text \<open>A system whose kernel enforces Landlock, whose current directory is where \<open>chdir\<close> went last.\<close>

definition sample_kernel :: kernel where
  "sample_kernel = \<lparr>landlock_abi = 4, refuses_ruleset = \<lambda>rs net. None, opens = Some,
     takes_path_rule = \<lambda>p rs. True, takes_port_rule = \<lambda>p. True, no_new_privs_ok = True, restrict_ok = True\<rparr>"

definition sample_shell :: "cstr shell_os" where
  "sample_shell =
     \<lparr>net = \<lparr>perform = \<lambda>rq w. (\<lparr>curl_code = CURLE_COULDNT_CONNECT, http_status = 0, reply_headers = [], reply_chunks = []\<rparr>, w),
              curl_ready = True, curl_strerror = \<lambda>c. [], env_var = \<lambda>name. None, stdout_tty = False\<rparr>,
      tasks_os = \<lparr>pty_read = \<lambda>fd w. ([], w), pty_write = \<lambda>fd s w. w, open_pty = \<lambda>w. (Some 7, w),
        fork_child = \<lambda>fd l w. (Some 100, w), wait_child = \<lambda>pid w. (No_Change, w), reap_child = \<lambda>pid w. w,
        signal_group = \<lambda>g s w. w, close_fd = \<lambda>fd w. w, clock = \<lambda>w. 1000, pause_us = \<lambda>us w. w,
        os_env = \<lambda>name. None, os_kernel = sample_kernel\<rparr>,
      change_dir = \<lambda>d w. (None, d), current_dir = Some,
      run_child = \<lambda>l input w. (Ran [\<lparr>got = ''ok'', over = Some (Exited 0, []), late = False\<rparr>], w)\<rparr>"

definition sample_shell_host :: "bool \<Rightarrow> bool \<Rightarrow> ShellHost" where
  "sample_shell_host plan restricted =
     \<lparr>task_host = sample_host, jev = None, is_router = False, plan_mode = plan, bash_restricted = restricted,
      exec_backend = BELYA_BACKEND_LOCAL, docker_container = [], ssh_host = []\<rparr>"

definition command_args :: "cstr \<Rightarrow> JsonValue option" where
  "command_args cmd = Some (JSON_OBJECT [(''command'', JSON_STRING cmd)])"

lemma command_args_simps [simp]:
  "json_obj_get_str (command_args cmd) ''command'' = Some cmd" "\<not> wants_background (command_args cmd)"
  by (simp_all add: command_args_def json_obj_get_str_def json_obj_get_def wants_background_def)

lemma plain_run:
  assumes "jev h = None" and "\<not> is_router h" and "\<not> is_blocked_command cmd" and "\<not> (plan_mode h \<and> plan_mutates cmd)"
    and "\<not> (bash_restricted h \<and> \<not> tester_allowed cmd)" and "exec_backend h = BELYA_BACKEND_LOCAL"
  shows "bash_decide W (command_args cmd) (Some h) w =
    (case cd_loop W cmd (Some h) w of (Inl msg, host, w) \<Rightarrow> (Answer msg, host, w)
     | (Inr cmd, host, w) \<Rightarrow> (Run_Local (shell_launch W host cmd), host, w))"
  using assms by (auto simp: bash_decide_def no_client_verdict Let_def local_risk_action)

text \<open>Outside plan mode the home directory is out of reach; in plan mode so is the current directory.\<close>

theorem local_shell_confined_witness:
  "\<not> permits_all (launch_policies (shell_launch sample_shell (Some (sample_shell_host False False)) ''ls''))
     FS_REMOVE_FILE ''/home/x'' \<and>
   \<not> permits_all (launch_policies (shell_launch sample_shell (Some (sample_shell_host True False)) ''ls''))
     FS_WRITE_FILE ''/work/x''"
proof -
  have b: "\<not> is_blocked_command ''ls''" "\<not> is_cd ''ls''" "\<not> plan_mutates ''ls''" by code_simp+
  have d: "bash_decide sample_shell (command_args ''ls'') (Some (sample_shell_host plan False)) ''/'' =
      (Run_Local (shell_launch sample_shell (Some (sample_shell_host plan False)) ''ls''), Some (sample_shell_host plan False), ''/'')" for plan
    using b by (subst plain_run) (simp_all add: sample_shell_host_def cd_loop_plain)
  note s = sample_shell_def sample_kernel_def sandbox_apply_def sandbox_off_def new_ruleset_def Let_def
    SB_WRITE_RIGHTS_def sample_shell_host_def cwd_def sample_host_def apply_plan_mode_kernel_sandbox_def
  have "\<exists>d. beneath d ''/home/x'' \<and> (d = ''/work'' \<or> d = ''/tmp'')"
    if "permits_all (launch_policies (shell_launch sample_shell (Some (sample_shell_host False False)) ''ls'')) FS_REMOVE_FILE ''/home/x''"
    using local_shell_confined[OF d refl _ _ that] by (auto simp: s)
  moreover have "\<exists>d. beneath d ''/work/x'' \<and> (d = ''/tmp'' \<or> d = ''/dev/null'')"
    if "permits_all (launch_policies (shell_launch sample_shell (Some (sample_shell_host True False)) ''ls'')) FS_WRITE_FILE ''/work/x''"
    using local_shell_confined[OF d refl _ _ that] by (auto simp: s)
  ultimately show ?thesis by (auto simp: beneath_def)
qed

text \<open>The confinement follows the command: \<open>cd\<close> to the root directory and then any command starts a
  shell whose policy permits every change of every file, because the directory the policy is built
  for is the one the model's command has just entered.\<close>

theorem cd_moves_the_sandbox:
  assumes "jev h = None" and "\<not> is_router h" and "\<not> plan_mode h" and "\<not> bash_restricted h"
    and "exec_backend h = BELYA_BACKEND_LOCAL"
    and "\<not> is_blocked_command (''cd / && '' @ cmd)" and "\<not> is_cd cmd" and "cmd \<noteq> []" and "hd cmd \<noteq> CHR '' ''"
    and "change_dir W ''/'' w = (None, w1)" and "current_dir W w1 = Some ''/''"
    and "opens (os_kernel (tasks_os W)) ''/'' = Some ''/''" and "takes_path_rule (os_kernel (tasks_os W)) ''/'' SB_WRITE_RIGHTS"
  shows "\<exists>l. bash_decide W (command_args (''cd / && '' @ cmd)) (Some h) w = (Run_Local l, Some (set_cwd ''/'' h), w1) \<and>
    (\<forall>r p. has_prefix ''/'' p \<longrightarrow> r \<in> set SB_WRITE_RIGHTS \<longrightarrow> permits_all (launch_policies l) r p)"
proof -
  define c where "c = ''cd / && '' @ cmd"
  have split: "cd_split None (cd_after c) = (''/ '', Some (CHR '' '' # cmd))"
    by (simp add: c_def cd_after_def lskip_def)
  have clean: "cd_clean (env_var (net W)) ''/ '' = ''/''"
    by (simp add: cd_clean_def DIR_BUF_def Let_def rskip_def isspace_def byte_def)
  have rest: "lskip (\<lambda>c. c = CHR '' '') (CHR '' '' # cmd) = cmd"
    using assms(8,9) by (cases cmd) (auto simp: lskip_def)
  have c: "is_cd c" "\<not> is_blocked_command c" using assms(6) by (simp_all add: c_def is_cd_def)
  then have "cd_loop W c (Some h) w = (Inr cmd, Some (set_cwd ''/'' h), w1)"
    using assms(7,8,10,11)
    by (subst cd_loop.simps) (simp add: split clean rest cd_resolved_def cd_enter_def Let_def cd_loop_plain)
  then have d: "bash_decide W (command_args (''cd / && '' @ cmd)) (Some h) w =
      (Run_Local (shell_launch W (Some (set_cwd ''/'' h)) cmd), Some (set_cwd ''/'' h), w1)"
    unfolding c_def[symmetric] using assms(1-5) c(2) by (simp add: plain_run)
  have "permits_all (launch_policies (shell_launch W (Some (set_cwd ''/'' h)) cmd)) r p"
    if p: "has_prefix ''/'' p" and r: "r \<in> set SB_WRITE_RIGHTS" for r p
  proof -
    have "beneath ''/'' p" using p by (simp add: beneath_def)
    then have "permits (shell_ruleset (env_var (net W)) (os_kernel (tasks_os W)) ''/'' enet) r p" for enet
      unfolding shell_permits[OF r] using assms(12,13) by (intro exI[of _ "''/''"]) (simp add: allow_path_iff)
    then show ?thesis using assms(3)
      by (auto simp: shell_launch_def shell_policies_permit dest!: sandbox_policy)
  qed
  with d show ?thesis by blast
qed

theorem cd_moves_the_sandbox_witness:
  "\<exists>l. bash_decide sample_shell (command_args (''cd / && '' @ ''touch x'')) (Some (sample_shell_host False False)) ''/work'' =
      (Run_Local l, Some (set_cwd ''/'' (sample_shell_host False False)), ''/'') \<and>
    permits_all (launch_policies l) FS_WRITE_FILE ''/home/x''"
proof -
  have "\<not> is_blocked_command (''cd / && '' @ ''touch x'')" "\<not> is_cd ''touch x''" by code_simp+
  from cd_moves_the_sandbox[OF _ _ _ _ _ this, of "sample_shell_host False False" sample_shell "''/work''" "''/''"]
  obtain l where "bash_decide sample_shell (command_args (''cd / && '' @ ''touch x'')) (Some (sample_shell_host False False)) ''/work'' =
      (Run_Local l, Some (set_cwd ''/'' (sample_shell_host False False)), ''/'')"
    "\<forall>r p. has_prefix ''/'' p \<longrightarrow> r \<in> set SB_WRITE_RIGHTS \<longrightarrow> permits_all (launch_policies l) r p"
    by (auto simp: sample_shell_host_def sample_shell_def sample_kernel_def)
  moreover have "has_prefix ''/'' ''/home/x''" "FS_WRITE_FILE \<in> set SB_WRITE_RIGHTS" by (simp_all add: SB_WRITE_RIGHTS_def)
  ultimately show ?thesis by blast
qed

text \<open>A background command escapes the guards behind the branch: with \<open>background\<close> set, a command the
  risk rules and the words of plan mode let pass is handed to the task table although the restricted
  tester may not run it; and in plan mode its process is not under the policy of plan mode: it may
  write every file beneath the current directory.\<close>

theorem background_escapes_guards:
  assumes "jev h = None" and "\<not> is_router h" and "wants_background args"
    and "json_obj_get_str args ''command'' = Some cmd" and "\<not> is_blocked_command cmd" and "\<not> plan_mutates cmd"
    and "opens (os_kernel (tasks_os W)) (cwd (Some h)) = Some d" and "cwd (Some h) \<noteq> []"
    and "takes_path_rule (os_kernel (tasks_os W)) d SB_WRITE_RIGHTS"
    and "beneath d p" and "r \<in> set SB_WRITE_RIGHTS"
  shows "bash_decide W args (Some h) w = (In_Background cmd, Some h, w) \<and>
    permits_all (launch_policies (background_launch (tasks_os W) (cwd (Some h)) cmd)) r p"
proof -
  have "permits (shell_ruleset env (os_kernel (tasks_os W)) (cwd (Some h)) enet) r p" for env enet
    unfolding shell_permits[OF assms(11)] using assms(7-10) by (intro exI[of _ d]) (simp add: allow_path_iff)
  then have "permits_all (launch_policies (background_launch (tasks_os W) (cwd (Some h)) cmd)) r p"
    by (auto simp: background_launch_def split: option.split dest!: sandbox_policy)
  with assms(1-6) show ?thesis
    by (simp add: bash_decide_def no_client_verdict Let_def local_risk_action)
qed

theorem background_escapes_guards_witness:
  "let h = sample_shell_host True True; cmd = ''python3 wipe.py'';
       args = Some (JSON_OBJECT [(''command'', JSON_STRING cmd), (''background'', JSON_BOOL True)]) in
    \<not> tester_allowed cmd \<and> bash_decide sample_shell args (Some h) ''/work'' = (In_Background cmd, Some h, ''/work'') \<and>
    permits_all (launch_policies (background_launch (tasks_os sample_shell) (cwd (Some h)) cmd)) FS_WRITE_FILE ''/work/a.c''"
proof -
  let ?h = "sample_shell_host True True"
  let ?args = "Some (JSON_OBJECT [(''command'', JSON_STRING ''python3 wipe.py''), (''background'', JSON_BOOL True)])"
  have c: "\<not> is_blocked_command ''python3 wipe.py''" "\<not> plan_mutates ''python3 wipe.py''"
    "\<not> tester_allowed ''python3 wipe.py''" by code_simp+
  have a: "wants_background ?args" "json_obj_get_str ?args ''command'' = Some ''python3 wipe.py''" by code_simp+
  have h: "jev ?h = None" "\<not> is_router ?h" "cwd (Some ?h) = ''/work''"
    by (simp_all add: sample_shell_host_def sample_host_def cwd_def)
  have k: "os_kernel (tasks_os sample_shell) = sample_kernel" by (simp add: sample_shell_def)
  have "FS_WRITE_FILE \<in> set SB_WRITE_RIGHTS" by (simp add: SB_WRITE_RIGHTS_def)
  from background_escapes_guards[OF h(1,2) a c(1,2) _ _ _ _ this, of sample_shell "''/work''" "''/work/a.c''" "''/work''"]
  show ?thesis unfolding Let_def h(3) k
    by (simp add: c(3) beneath_def sample_kernel_def h(3) k)
qed

text \<open>A restricted tester runs one plain command in the foreground: whatever is started, locally or on
  the backend, is a command without shell metacharacters and line breaks whose program is on the
  list, and the current directory stays.\<close>

theorem restricted_bash_is_plain:
  assumes "bash_decide W args (Some h) w = (d, host', w')" and "bash_restricted h" and "\<not> wants_background args"
    and "(\<exists>l. d = Run_Local l) \<or> (\<exists>c. d = On_Backend c)"
  shows "\<exists>cmd. json_obj_get_str args ''command'' = Some cmd \<and> tester_allowed cmd \<and> host' = Some h \<and>
    (d = Run_Local (shell_launch W (Some h) cmd) \<or> d = On_Backend cmd)"
  using assms
  by (auto simp: bash_decide_def Let_def cd_loop_plain tester_not_cd split: if_splits option.splits prod.splits sum.splits)

theorem restricted_bash_is_plain_witness:
  "bash_decide sample_shell (command_args ''make test'') (Some (sample_shell_host False True)) ''/work'' =
     (Run_Local (shell_launch sample_shell (Some (sample_shell_host False True)) ''make test''),
      Some (sample_shell_host False True), ''/work'') \<and> tester_allowed ''make test''"
proof -
  let ?h = "sample_shell_host False True"
  have "\<not> is_blocked_command ''make test''" "tester_allowed ''make test''" "\<not> is_cd ''make test''" by code_simp+
  then have d: "bash_decide sample_shell (command_args ''make test'') (Some ?h) ''/work'' =
      (Run_Local (shell_launch sample_shell (Some ?h) ''make test''), Some ?h, ''/work'')"
    by (subst plain_run) (simp_all add: sample_shell_host_def cd_loop_plain)
  have "\<exists>cmd. json_obj_get_str (command_args ''make test'') ''command'' = Some cmd \<and> tester_allowed cmd \<and> Some ?h = Some ?h \<and>
      (Run_Local (shell_launch sample_shell (Some ?h) ''make test'') = Run_Local (shell_launch sample_shell (Some ?h) cmd) \<or>
       Run_Local (shell_launch sample_shell (Some ?h) ''make test'') = On_Backend cmd)"
    by (rule restricted_bash_is_plain[OF d]) (simp_all add: sample_shell_host_def)
  with d show ?thesis by simp
qed

text \<open>The policy of plan mode does not handle the right to truncate: with both policies enforced a shell in
  plan mode may still truncate every file beneath its current directory.\<close>

lemma plan_mode_allows_truncation:
  assumes "plan_mode h" and "cwd (Some h) \<noteq> []"
    and "opens (os_kernel (tasks_os W)) (cwd (Some h)) = Some d"
    and "takes_path_rule (os_kernel (tasks_os W)) d SB_WRITE_RIGHTS" and "beneath d p"
  shows "permits_all (launch_policies (shell_launch W (Some h) cmd)) FS_TRUNCATE p"
proof -
  have t: "FS_TRUNCATE \<in> set SB_WRITE_RIGHTS" by (simp add: SB_WRITE_RIGHTS_def)
  have "permits (shell_ruleset env (os_kernel (tasks_os W)) (cwd (Some h)) enet) FS_TRUNCATE p" for env enet
    unfolding shell_permits[OF t] using assms(2-5) by (intro exI[of _ d]) (simp add: allow_path_iff)
  moreover have "permits (plan_ruleset (os_kernel (tasks_os W))) FS_TRUNCATE p"
    by (simp add: permits_def plan_ruleset_def plan_handled_def)
  ultimately show ?thesis by (auto simp: shell_launch_def shell_policies_permit dest!: sandbox_policy)
qed

end
