(* ===== verification/ToolForge.thy ===== *)
theory ToolForge
  imports Harness Notebook ShellTool
begin

text \<open>
  Tools the model makes for itself, in \<open>belya_harness.c\<close>: \<open>define_tool\<close> writes a script and a file that
  describes it and registers the tool, \<open>belya_harness_load_custom_tools\<close> registers what earlier runs
  wrote, and \<open>tool_custom_script_runner\<close> runs a script; and \<open>synthesize_mcp_server\<close>, which writes a
  server as a shell script. The disk is the one of the file tools; a directory is read as the list
  of its entries. What a script does is a parameter, seen through the polling loop as for \<open>bash\<close>.
\<close>

section \<open>Defining a tool\<close>

definition tool_script_path :: "cstr \<Rightarrow> cstr" where
  "tool_script_path name = take 511 (''.belya/tools/'' @ name @ ''.sh'')"

definition tool_meta_path :: "cstr \<Rightarrow> cstr" where
  "tool_meta_path name = take 511 (''.belya/tools/'' @ name @ ''.json'')"

definition script_text :: "cstr \<Rightarrow> cstr" where
  "script_text body = (if has_prefix ''#!'' body then [] else ''#!/bin/sh'' @ [LF]) @ body @ [LF]"

text \<open>\<open>json_obj_add\<close> ignores a value that is NULL.\<close>

definition tool_meta :: "cstr \<Rightarrow> cstr option \<Rightarrow> JsonValue option \<Rightarrow> JsonValue" where
  "tool_meta name desc params =
     JSON_OBJECT ([(''name'', JSON_STRING name), (''description'', JSON_STRING (case desc of None \<Rightarrow> [] | Some d \<Rightarrow> d))] @
       (case params of None \<Rightarrow> [] | Some p \<Rightarrow> [(''parameters'', p)]) @
       [(''script_path'', JSON_STRING (tool_script_path name))])"

definition MAX_TOOLS :: nat where "MAX_TOOLS = 64"

definition custom_tool :: "cstr \<Rightarrow> cstr \<Rightarrow> BelyaRegisteredTool" where
  "custom_tool name path = \<lparr>tool_name = name, security = PERM_ALLOW, has_callback = True, has_mcp_client = False,
     custom_script_path = Some path\<rparr>"

definition add_custom_tool :: "cstr \<Rightarrow> cstr \<Rightarrow> cstr \<Rightarrow> JsonValue option \<Rightarrow> BelyaHarness \<Rightarrow> BelyaHarness" where
  "add_custom_tool name path desc params h =
     h\<lparr>tools := tools h @ [custom_tool name path], agent := belya_agent_register_schema name desc params (agent h)\<rparr>"

definition write_if_open :: "tool_env \<Rightarrow> cstr \<Rightarrow> cstr \<Rightarrow> disk \<Rightarrow> disk" where
  "write_if_open env path bytes d = (if can_write env path then put_file env path bytes d else d)"

definition belya_harness_define_custom_tool ::
    "tool_env \<Rightarrow> cstr option \<Rightarrow> cstr option \<Rightarrow> JsonValue option \<Rightarrow> cstr option \<Rightarrow> BelyaHarness \<times> disk \<Rightarrow> bool \<times> BelyaHarness \<times> disk" where
  "belya_harness_define_custom_tool env name_arg desc params body_arg s =
     (case s of (h, d) \<Rightarrow>
      case (name_arg, body_arg) of
        (Some name, Some body) \<Rightarrow>
          if length (tools h) \<ge> MAX_TOOLS then (False, h, d)
          else if \<not> valid_ident (Some name) then (False, h, d)
          else if \<not> can_write env (tool_script_path name) then (False, h, d)
          else let d = put_file env (tool_script_path name) (script_text body) d;
                   d = write_if_open env (tool_meta_path name) (json_text (tool_meta name desc params)) d in
            (True, add_custom_tool name (tool_script_path name) (case desc of None \<Rightarrow> [] | Some t \<Rightarrow> t) params h, d)
      | _ \<Rightarrow> (False, h, d))"

definition cloned_params :: "JsonValue option \<Rightarrow> JsonValue option" where
  "cloned_params params =
     (case params of None \<Rightarrow> Some (JSON_OBJECT [(''type'', JSON_STRING ''object'')])
      | Some p \<Rightarrow> json_parse (Some (json_text p)))"

definition tool_define_tool :: "tool_env \<Rightarrow> JsonValue option \<Rightarrow> BelyaHarness option \<times> disk \<Rightarrow> cstr \<times> BelyaHarness option \<times> disk" where
  "tool_define_tool env args s =
     (case s of
        (None, d) \<Rightarrow> (''Error: Harness runtime not active.'', None, d)
      | (Some h, d) \<Rightarrow>
        let name = json_obj_get_str args ''name''; desc = json_obj_get_str args ''description'';
            body = json_obj_get_str args ''script_body'' in
        if name = None \<or> desc = None \<or> body = None
        then (''Error: Missing required fields (name, description, script_body).'', Some h, d)
        else let (ok, h, d) = belya_harness_define_custom_tool env name desc (cloned_params (json_obj_get args ''parameters'')) body (h, d) in
          (if ok then ''Tool '' @ [SQ] @ the name @ [SQ] @ '' successfully defined, persisted, and registered into active tool catalog.''
           else ''Error: Failed to register custom tool (max tool limit reached or disk write error).'', Some h, d))"

section \<open>Loading tools of earlier runs\<close>

definition is_meta_name :: "cstr \<Rightarrow> bool" where
  "is_meta_name d_name = (strrchr d_name (CHR ''.'') = Some ''.json'')"

definition loaded_schema :: "JsonValue option \<Rightarrow> JsonValue option" where
  "loaded_schema t_schema =
     json_parse (Some (case t_schema of None \<Rightarrow> ''{'' @ [DQ] @ ''type'' @ [DQ] @ '':'' @ [DQ] @ ''object'' @ [DQ] @ ''}'' | Some p \<Rightarrow> json_text p))"

definition load_meta :: "JsonValue \<Rightarrow> BelyaHarness \<Rightarrow> BelyaHarness" where
  "load_meta meta h =
     (case (json_obj_get_str (Some meta) ''name'', json_obj_get_str (Some meta) ''script_path'') of
        (Some t_name, Some s_path) \<Rightarrow>
          if length (tools h) < MAX_TOOLS \<and> find_tool t_name h = None
          then add_custom_tool t_name s_path
                 (case json_obj_get_str (Some meta) ''description'' of None \<Rightarrow> [] | Some t \<Rightarrow> t)
                 (loaded_schema (json_obj_get (Some meta) ''parameters'')) h
          else h
      | _ \<Rightarrow> h)"

definition load_entry :: "(cstr \<Rightarrow> cstr option) \<Rightarrow> cstr \<Rightarrow> BelyaHarness \<Rightarrow> BelyaHarness" where
  "load_entry read d_name h =
     (if is_meta_name d_name then
        case read (take 511 (''.belya/tools/'' @ d_name)) of None \<Rightarrow> h
        | Some bytes \<Rightarrow> (case json_parse (Some (c_string bytes)) of None \<Rightarrow> h | Some meta \<Rightarrow> load_meta meta h)
      else h)"

definition belya_harness_load_custom_tools :: "(cstr \<Rightarrow> cstr option) \<Rightarrow> cstr list option \<Rightarrow> BelyaHarness \<Rightarrow> BelyaHarness" where
  "belya_harness_load_custom_tools read entries h =
     (case entries of None \<Rightarrow> h | Some names \<Rightarrow> fold (load_entry read) names h)"

section \<open>Running a script\<close>

text \<open>\<open>active\<close> is \<open>g_active_custom_script_path\<close>, which only the two dispatchers set; without it the script
  of the last custom tool is taken.\<close>

definition runner_script :: "cstr option \<Rightarrow> BelyaHarness option \<Rightarrow> cstr option" where
  "runner_script active h =
     (case active of Some p \<Rightarrow> Some p
      | None \<Rightarrow> (case h of None \<Rightarrow> None
         | Some h \<Rightarrow> (case filter (\<lambda>t. custom_script_path t \<noteq> None) (tools h) of [] \<Rightarrow> None
            | ts \<Rightarrow> custom_script_path (last ts))))"

fun first_some :: "'a option list \<Rightarrow> 'a option" where
  "first_some [] = None"
| "first_some (x # xs) = (case x of None \<Rightarrow> first_some xs | Some v \<Rightarrow> Some v)"

definition first_value :: "JsonValue option \<Rightarrow> cstr \<Rightarrow> cstr" where
  "first_value args args_str =
     (case args of
        Some (JSON_OBJECT (m # ms)) \<Rightarrow>
          (case first_some (map (json_obj_get_str args) [''input'', ''arg'', ''value'', ''text'', ''command'', ''query''] @
             [case snd m of JSON_STRING s \<Rightarrow> Some s | _ \<Rightarrow> None]) of
             Some s \<Rightarrow> s | None \<Rightarrow> args_str)
      | _ \<Rightarrow> args_str)"

definition toupper :: "char \<Rightarrow> char" where
  "toupper c = (if 97 \<le> byte c \<and> byte c \<le> 122 then char_of (byte c - 32) else c)"

definition env_key :: "cstr \<Rightarrow> cstr \<Rightarrow> cstr" where
  "env_key prefix k = map toupper (take 255 (prefix @ k))"

definition env_value :: "JsonValue \<Rightarrow> cstr" where
  "env_value v = (case v of JSON_STRING s \<Rightarrow> s | _ \<Rightarrow> json_text v)"

text \<open>\<open>setenv\<close> refuses a name with an equals sign.\<close>

definition set_var :: "cstr \<Rightarrow> cstr \<Rightarrow> (cstr \<times> cstr) list" where
  "set_var k v = (if CHR ''='' \<in> set k then [] else [(k, v)])"

definition script_variables :: "JsonValue option \<Rightarrow> cstr \<Rightarrow> (cstr \<times> cstr) list" where
  "script_variables args args_str =
     set_var ''TOOL_ARGS_JSON'' args_str @
     (case args of
        Some (JSON_OBJECT ms) \<Rightarrow>
          concat (map (\<lambda>(k, v). set_var (env_key ''PARAM_'' k) (env_value v) @ set_var (env_key ''ARG_'' k) (env_value v)) ms)
      | _ \<Rightarrow> [])"

record script_start =
  script_argv :: "cstr list"
  script_env :: "(cstr \<times> cstr) list"
  script_input :: cstr

definition custom_start :: "cstr \<Rightarrow> JsonValue option \<Rightarrow> script_start" where
  "custom_start script_path args =
     (let args_str = (case args of None \<Rightarrow> ''{}'' | Some v \<Rightarrow> json_text v) in
      \<lparr>script_argv = [script_path, first_value args args_str, args_str],
       script_env = script_variables args args_str, script_input = args_str @ [LF]\<rparr>)"

definition SCRIPT_OUTPUT_LIMIT :: nat where "SCRIPT_OUTPUT_LIMIT = 100000"

text \<open>The output and whether the time limit of 15 seconds ended the script.\<close>

fun script_loop :: "poll list \<Rightarrow> cstr \<Rightarrow> (cstr \<times> bool) option" where
  "script_loop [] out = None"
| "script_loop (p # ps) out =
     (let out = out @ c_string (got p) in
      if got p \<noteq> [] \<and> length out > SCRIPT_OUTPUT_LIMIT then Some (out, False)
      else case over p of Some (st, rest) \<Rightarrow> Some (out @ concat (map c_string rest), False)
      | None \<Rightarrow> if late p then Some (out, True) else script_loop ps out)"

definition script_result :: "cstr \<times> bool \<Rightarrow> cstr" where
  "script_result r =
     (let out = fst r @ (if snd r then [LF] @ ''[Custom tool execution timed out after 15s]'' else []) in
      if out = [] then ''Custom tool executed successfully with no output.'' else out)"

definition tool_custom_script_runner ::
    "(script_start \<Rightarrow> 'w \<Rightarrow> child_run \<times> 'w) \<Rightarrow> cstr option \<Rightarrow> JsonValue option \<Rightarrow> BelyaHarness option \<Rightarrow> 'w \<Rightarrow> (cstr \<times> 'w) option" where
  "tool_custom_script_runner run active args h w =
     (case runner_script active h of None \<Rightarrow> Some (''Error: Custom script path not found.'', w)
      | Some path \<Rightarrow>
        (case run (custom_start path args) w of
           (No_Pipe, w) \<Rightarrow> Some (''Error: Failed to create pipes for custom tool execution.'', w)
         | (No_Fork, w) \<Rightarrow> Some (''Error: Failed to fork process for custom tool.'', w)
         | (child_run.Ran polls, w) \<Rightarrow> map_option (\<lambda>r. (script_result r, w)) (script_loop polls [])))"

section \<open>A server as a script\<close>

definition server_path :: "cstr \<Rightarrow> cstr" where
  "server_path server = take 511 (''.belya/mcp/'' @ server @ ''_server.sh'')"

definition server_script :: "cstr \<Rightarrow> cstr \<Rightarrow> cstr \<Rightarrow> cstr \<Rightarrow> cstr \<Rightarrow> cstr" where
  "server_script server tool desc cmd schema =
     ''#!/bin/sh'' @ [LF] @
     ''# Auto-synthesized Paper2Agent MCP Server: '' @ server @ [LF] @
     ''while IFS= read -r line; do'' @ [LF] @
     ''  [ -z '' @ [DQ] @ ''$line'' @ [DQ] @ '' ] && continue'' @ [LF] @
     ''  id=$(echo '' @ [DQ] @ ''$line'' @ [DQ] @ '' | sed -n '' @ [SQ] @ ''s/.*'' @ [DQ] @ ''id'' @ [DQ] @ '':'' @ [BSL] @ ''([0-9]*'' @ [BSL] @ '').*/'' @ [BSL] @ ''1/p'' @ [SQ] @ '')'' @ [LF] @
     ''  [ -z '' @ [DQ] @ ''$id'' @ [DQ] @ '' ] && id=1'' @ [LF] @
     ''  if echo '' @ [DQ] @ ''$line'' @ [DQ] @ '' | grep -q '' @ [SQ, DQ] @ ''method'' @ [DQ] @ '':'' @ [DQ] @ ''initialize'' @ [DQ, SQ] @ ''; then'' @ [LF] @
     ''    echo '' @ [DQ] @ ''{'' @ [BSL, DQ] @ ''jsonrpc'' @ [BSL, DQ] @ '':'' @ [BSL, DQ] @ ''2.0'' @ [BSL, DQ] @ '','' @ [BSL, DQ] @ ''id'' @ [BSL, DQ] @ '':$id,'' @ [BSL, DQ] @ ''result'' @ [BSL, DQ] @ '':{'' @ [BSL, DQ] @ ''protocolVersion'' @ [BSL, DQ] @ '':'' @ [BSL, DQ] @ ''2024-11-05'' @ [BSL, DQ] @ '','' @ [BSL, DQ] @ ''capabilities'' @ [BSL, DQ] @ '':{'' @ [BSL, DQ] @ ''tools'' @ [BSL, DQ] @ '':{}},'' @ [BSL, DQ] @ ''serverInfo'' @ [BSL, DQ] @ '':{'' @ [BSL, DQ] @ ''name'' @ [BSL, DQ] @ '':'' @ [BSL, DQ] @ server @ [BSL, DQ] @ '','' @ [BSL, DQ] @ ''version'' @ [BSL, DQ] @ '':'' @ [BSL, DQ] @ ''1.0.0'' @ [BSL, DQ] @ ''}}}'' @ [DQ, LF] @
     ''  elif echo '' @ [DQ] @ ''$line'' @ [DQ] @ '' | grep -q '' @ [SQ, DQ] @ ''method'' @ [DQ] @ '':'' @ [DQ] @ ''tools/list'' @ [DQ, SQ] @ ''; then'' @ [LF] @
     ''    echo '' @ [SQ] @ ''{'' @ [DQ] @ ''jsonrpc'' @ [DQ] @ '':'' @ [DQ] @ ''2.0'' @ [DQ] @ '','' @ [DQ] @ ''id'' @ [DQ] @ '':'' @ [SQ] @ ''$id'' @ [SQ] @ '','' @ [DQ] @ ''result'' @ [DQ] @ '':{'' @ [DQ] @ ''tools'' @ [DQ] @ '':[{'' @ [DQ] @ ''name'' @ [DQ] @ '':'' @ [DQ] @ tool @ [DQ] @ '','' @ [DQ] @ ''description'' @ [DQ] @ '':'' @ [DQ] @ desc @ [DQ] @ '','' @ [DQ] @ ''inputSchema'' @ [DQ] @ '':'' @ schema @ ''}]}}'' @ [SQ, LF] @
     ''  elif echo '' @ [DQ] @ ''$line'' @ [DQ] @ '' | grep -q '' @ [SQ, DQ] @ ''method'' @ [DQ] @ '':'' @ [DQ] @ ''tools/call'' @ [DQ, SQ] @ ''; then'' @ [LF] @
     ''    output=$('' @ cmd @ '' 2>&1)'' @ [LF] @
     ''    clean_out=$(printf '' @ [SQ] @ ''%'' @ ''s'' @ [SQ] @ '' '' @ [DQ] @ ''$output'' @ [DQ] @ '' | tr '' @ [SQ, BSL] @ ''n'' @ [SQ] @ '' '' @ [SQ] @ '' '' @ [SQ] @ '' | sed '' @ [SQ] @ ''s/'' @ [DQ] @ ''/'' @ [BSL, BSL, DQ] @ ''/g'' @ [SQ] @ '')'' @ [LF] @
     ''    echo '' @ [DQ] @ ''{'' @ [BSL, DQ] @ ''jsonrpc'' @ [BSL, DQ] @ '':'' @ [BSL, DQ] @ ''2.0'' @ [BSL, DQ] @ '','' @ [BSL, DQ] @ ''id'' @ [BSL, DQ] @ '':$id,'' @ [BSL, DQ] @ ''result'' @ [BSL, DQ] @ '':{'' @ [BSL, DQ] @ ''content'' @ [BSL, DQ] @ '':[{'' @ [BSL, DQ] @ ''type'' @ [BSL, DQ] @ '':'' @ [BSL, DQ] @ ''text'' @ [BSL, DQ] @ '','' @ [BSL, DQ] @ ''text'' @ [BSL, DQ] @ '':'' @ [BSL, DQ] @ ''$clean_out'' @ [BSL, DQ] @ ''}]}}'' @ [DQ, LF] @
     ''  elif echo '' @ [DQ] @ ''$line'' @ [DQ] @ '' | grep -q '' @ [SQ, DQ] @ ''method'' @ [DQ] @ '':'' @ [DQ] @ ''ping'' @ [DQ, SQ] @ ''; then'' @ [LF] @
     ''    echo '' @ [DQ] @ ''{'' @ [BSL, DQ] @ ''jsonrpc'' @ [BSL, DQ] @ '':'' @ [BSL, DQ] @ ''2.0'' @ [BSL, DQ] @ '','' @ [BSL, DQ] @ ''id'' @ [BSL, DQ] @ '':$id,'' @ [BSL, DQ] @ ''result'' @ [BSL, DQ] @ '':{}}'' @ [DQ, LF] @
     ''  fi'' @ [LF] @
     ''done'' @ [LF]"

definition validation_cmd :: "cstr \<Rightarrow> cstr \<Rightarrow> cstr" where
  "validation_cmd path tool = take 1023
     (''printf '' @ [SQ] @ ''{'' @ dquoted ''jsonrpc'' @ '':'' @ dquoted ''2.0'' @ '','' @ dquoted ''id'' @ '':1,'' @ dquoted ''method'' @ '':'' @
      dquoted ''tools/list'' @ ''}'' @ [BSL] @ ''n'' @ [SQ] @ '' | '' @ path @ '' 2>/dev/null | grep -q '' @ [SQ] @ dquoted ''name'' @ '':'' @
      dquoted tool @ [SQ])"

record 'w synth_os =
  shell_succeeds :: "cstr \<Rightarrow> disk \<Rightarrow> 'w \<Rightarrow> bool \<times> 'w"
  server_tools :: "cstr \<Rightarrow> disk \<Rightarrow> 'w \<Rightarrow> JsonValue option option \<times> 'w"

definition belya_harness_synthesize_mcp_server ::
    "tool_env \<Rightarrow> 'w synth_os \<Rightarrow> cstr option \<Rightarrow> cstr option \<Rightarrow> cstr option \<Rightarrow> cstr option \<Rightarrow> cstr option \<Rightarrow>
     BelyaHarness \<Rightarrow> disk \<Rightarrow> 'w \<Rightarrow> bool \<times> BelyaHarness \<times> disk \<times> 'w" where
  "belya_harness_synthesize_mcp_server env os server_arg tool_arg desc cmd_arg schema_json h d w =
     (case (server_arg, tool_arg, cmd_arg) of
        (Some server, Some tool, Some cmd) \<Rightarrow>
          let path = server_path server in
          if \<not> can_write env path then (False, h, d, w)
          else let schema = (case nonempty schema_json of None \<Rightarrow> ''{'' @ dquoted ''type'' @ '':'' @ dquoted ''object'' @ ''}'' | Some s \<Rightarrow> s);
                   d = put_file env path (server_script server tool (case desc of None \<Rightarrow> [] | Some t \<Rightarrow> t) cmd schema) d;
                   (ok, w) = shell_succeeds os (validation_cmd path tool) d w in
            if \<not> ok then (False, h, d(resolve env path := None), w)
            else let (listed, w) = server_tools os path d w; (ok, h) = belya_harness_connect_mcp listed h in (ok, h, d, w)
      | _ \<Rightarrow> (False, h, d, w))"

definition tool_synthesize_mcp_server ::
    "tool_env \<Rightarrow> 'w synth_os \<Rightarrow> JsonValue option \<Rightarrow> BelyaHarness option \<Rightarrow> disk \<Rightarrow> 'w \<Rightarrow> cstr \<times> BelyaHarness option \<times> disk \<times> 'w" where
  "tool_synthesize_mcp_server env os args host d w =
     (case host of None \<Rightarrow> (''Error: Harness runtime not active.'', None, d, w)
      | Some h \<Rightarrow>
        let srv = json_obj_get_str args ''server_name''; tl = json_obj_get_str args ''tool_name'';
            cmd = json_obj_get_str args ''script_cmd'' in
        if srv = None \<or> tl = None \<or> cmd = None
        then (''Error: Missing required arguments (server_name, tool_name, script_cmd).'', host, d, w)
        else let (ok, h, d, w) = belya_harness_synthesize_mcp_server env os srv tl (json_obj_get_str args ''description'') cmd
                   (json_obj_get_str args ''schema_json'') h d w in
          (if ok then ''Successfully synthesized and connected MCP server '' @ [SQ] @ the srv @ [SQ] @ '' exposing tool '' @
             [SQ] @ the tl @ [SQ] @ ''.''
           else ''Error: Failed to synthesize or validate MCP server.'', Some h, d, w))"

section \<open>Lemmas\<close>

lemma ident_loop_plain: "ident_loop n s \<Longrightarrow> list_all ident_char s \<and> n + length s \<le> 64"
  by (induction n s rule: ident_loop.induct) (auto split: if_splits)

lemma ident_plain: "valid_ident (Some name) \<Longrightarrow> list_all ident_char name \<and> length name \<le> 64"
  using ident_loop_plain[of 0 name] by (simp add: valid_ident_def)

lemma ident_chars: "list_all ident_char name \<Longrightarrow> NUL \<notin> set name \<and> CHR ''.'' \<notin> set name \<and> CHR ''/'' \<notin> set name"
proof -
  have "\<not> ident_char NUL" "\<not> ident_char (CHR ''.'')" "\<not> ident_char (CHR ''/'')" by code_simp+
  then show "list_all ident_char name \<Longrightarrow> ?thesis" unfolding list_all_iff by blast
qed

lemma paths_exact:
  assumes "length name \<le> 64"
  shows "tool_script_path name = ''.belya/tools/'' @ name @ ''.sh''" "tool_meta_path name = ''.belya/tools/'' @ name @ ''.json''"
  using assms by (simp_all add: tool_script_path_def tool_meta_path_def)

lemma strrchr_last: "c \<notin> set v \<Longrightarrow> strrchr (u @ c # v) c = Some (c # v)"
proof (induction u)
  case Nil
  have "c \<notin> set v \<Longrightarrow> strrchr v c = None" by (induction v) auto
  with Nil show ?case by simp
qed simp

lemma meta_name: "CHR ''.'' \<notin> set name \<Longrightarrow> is_meta_name (name @ ''.json'')"
  using strrchr_last[of "CHR ''.''" "''json''" name] by (simp add: is_meta_name_def)

lemma tool_meta_ok:
  assumes "nul_free name" and "nul_free desc" and "length name \<le> 64" and "json_ok p" and "jdepth p < JSON_MAX_DEPTH"
  shows "json_ok (tool_meta name (Some desc) (Some p)) \<and> jdepth (tool_meta name (Some desc) (Some p)) \<le> JSON_MAX_DEPTH"
  using assms by (simp add: tool_meta_def paths_exact nul_free_def)

lemma custom_tools_last:
  "filter (\<lambda>t. custom_script_path t \<noteq> None) (ts @ [custom_tool name path]) \<noteq> [] \<and>
   last (filter (\<lambda>t. custom_script_path t \<noteq> None) (ts @ [custom_tool name path])) = custom_tool name path"
  by (simp add: custom_tool_def)

section \<open>Properties\<close>

text \<open>C40: A tool the model defined is there after a restart: the script and the description that
  \<open>define_tool\<close> wrote make a later run, in which the name is not registered yet and the table has room,
  register a tool of the same name, description and parameters that runs the same script. The file of the
  description could be written.\<close>

theorem custom_tool_survives_restart:
  assumes "belya_harness_define_custom_tool env (Some name) (Some desc) (Some p) (Some body) (h, d) = (True, h1, d1)"
    and "can_write env (tool_meta_path name)" and "resolve env (tool_script_path name) \<noteq> resolve env (tool_meta_path name)"
    and "json_ok p" and "jdepth p < JSON_MAX_DEPTH" and "nul_free desc"
    and "length (tools h2) < MAX_TOOLS" and "find_tool name h2 = None"
  shows "load_entry (file_bytes env d1) (name @ ''.json'') h2 = add_custom_tool name (tool_script_path name) desc (Some p) h2 \<and>
    file_bytes env d1 (tool_script_path name) = Some (script_text body)"
proof -
  have v: "valid_ident (Some name)"
    and d1: "d1 = put_file env (tool_meta_path name) (json_text (tool_meta name (Some desc) (Some p)))
        (put_file env (tool_script_path name) (script_text body) d)"
    using assms(1,2) by (auto simp: belya_harness_define_custom_tool_def write_if_open_def Let_def split: if_splits)
  have n: "length name \<le> 64" "NUL \<notin> set name" "CHR ''.'' \<notin> set name"
    using ident_plain[OF v] ident_chars by blast+
  note ok = tool_meta_ok[OF _ assms(6) n(1) assms(4,5)]
  have m: "json_ok (tool_meta name (Some desc) (Some p))" "jdepth (tool_meta name (Some desc) (Some p)) \<le> JSON_MAX_DEPTH"
    using ok n(2) by (auto simp: nul_free_def)
  have mp: "take 511 (''.belya/tools/'' @ name @ ''.json'') = tool_meta_path name" by (simp add: tool_meta_path_def)
  have b: "file_bytes env d1 (tool_meta_path name) = Some (json_text (tool_meta name (Some desc) (Some p)))"
    by (simp add: d1 file_bytes_def put_file_def)
  have j: "json_parse (Some (c_string (json_text (tool_meta name (Some desc) (Some p))))) = Some (tool_meta name (Some desc) (Some p))"
    using json_parse_text[OF m] json_text_no_nul[OF m(1)] by simp
  have s: "loaded_schema (Some p) = Some p"
    using json_parse_text[OF assms(4)] assms(5) by (simp add: loaded_schema_def)
  have g: "json_obj_get_str (Some (tool_meta name (Some desc) (Some p))) ''name'' = Some name"
      "json_obj_get_str (Some (tool_meta name (Some desc) (Some p))) ''description'' = Some desc"
      "json_obj_get_str (Some (tool_meta name (Some desc) (Some p))) ''script_path'' = Some (tool_script_path name)"
      "json_obj_get (Some (tool_meta name (Some desc) (Some p))) ''parameters'' = Some p"
    by (simp_all add: tool_meta_def json_obj_get_str_def json_obj_get_def)
  have "load_entry (file_bytes env d1) (name @ ''.json'') h2 = load_meta (tool_meta name (Some desc) (Some p)) h2"
    unfolding load_entry_def mp b option.case j using meta_name[OF n(3)] by simp
  also have "\<dots> = add_custom_tool name (tool_script_path name) desc (Some p) h2"
    unfolding load_meta_def g option.case prod.case s using assms(7,8) by simp
  finally show ?thesis using assms(3) by (simp add: d1 file_bytes_def put_file_def)
qed

theorem custom_tool_survives_restart_witness:
  "\<exists>h1 d1. belya_harness_define_custom_tool sample_tools (Some ''t'') (Some ''d'') (Some (JSON_OBJECT [])) (Some ''echo'') (sample_harness, Map.empty) = (True, h1, d1) \<and>
     load_entry (file_bytes sample_tools d1) (''t'' @ ''.json'') sample_harness =
       add_custom_tool ''t'' (tool_script_path ''t'') ''d'' (Some (JSON_OBJECT [])) sample_harness"
proof -
  have v: "valid_ident (Some ''t'')" by code_simp
  obtain h1 d1 where r: "belya_harness_define_custom_tool sample_tools (Some ''t'') (Some ''d'') (Some (JSON_OBJECT [])) (Some ''echo'') (sample_harness, Map.empty) = (True, h1, d1)"
    by (simp add: belya_harness_define_custom_tool_def v Let_def sample_harness_def MAX_TOOLS_def)
  have "load_entry (file_bytes sample_tools d1) (''t'' @ ''.json'') sample_harness =
      add_custom_tool ''t'' (tool_script_path ''t'') ''d'' (Some (JSON_OBJECT [])) sample_harness"
    by (rule conjunct1[OF custom_tool_survives_restart[OF r]])
       (simp_all add: paths_exact JSON_MAX_DEPTH_def nul_free_def sample_harness_def MAX_TOOLS_def find_tool_def)
  with r show ?thesis by blast
qed

text \<open>The arguments of a call reach a script under names of their own: every variable that is set is
  \<open>TOOL_ARGS_JSON\<close> or begins with \<open>PARAM_\<close> or \<open>ARG_\<close>, so no argument can replace a variable such as
  \<open>PATH\<close> or \<open>LD_PRELOAD\<close>.\<close>

theorem script_variables_are_marked:
  "list_all (\<lambda>(k, v). k = ''TOOL_ARGS_JSON'' \<or> has_prefix ''PARAM_'' k \<or> has_prefix ''ARG_'' k) (script_variables args args_str)"
proof -
  have up: "map toupper ''PARAM_'' = ''PARAM_''" "map toupper ''ARG_'' = ''ARG_''" by code_simp+
  have "has_prefix ''PARAM_'' (env_key ''PARAM_'' k)" "has_prefix ''ARG_'' (env_key ''ARG_'' k)" for k
    using up by (simp_all add: env_key_def)
  then show ?thesis
    by (auto simp: script_variables_def set_var_def list_all_iff split: option.splits JsonValue.splits)
qed

text \<open>Outside the two dispatchers, which set the active script, a custom tool runs the script of the
  tool that was registered last, whichever was called.\<close>

theorem runner_takes_last_script:
  assumes "tools h = ts @ [custom_tool name path]"
  shows "tool_custom_script_runner run None args (Some h) w = tool_custom_script_runner run (Some path) args (Some h) w"
proof -
  obtain x xs where f: "filter (\<lambda>t. custom_script_path t \<noteq> None) (tools h) = x # xs"
    using custom_tools_last[of ts name path] unfolding assms by (cases "filter (\<lambda>t. custom_script_path t \<noteq> None) (ts @ [custom_tool name path])") auto
  then have "last (x # xs) = custom_tool name path" using custom_tools_last[of ts name path] unfolding assms by metis
  then have "runner_script None (Some h) = Some path"
    unfolding runner_script_def option.case f list.case by (simp add: custom_tool_def)
  moreover have "runner_script (Some path) (Some h) = Some path" by (simp add: runner_script_def)
  ultimately show ?thesis unfolding tool_custom_script_runner_def by simp
qed

theorem runner_takes_last_script_witness:
  "tool_custom_script_runner run None args (Some (sample_harness\<lparr>tools := [custom_tool ''a'' ''a.sh'', custom_tool ''b'' ''b.sh'']\<rparr>)) w =
   tool_custom_script_runner run (Some ''b.sh'') args (Some (sample_harness\<lparr>tools := [custom_tool ''a'' ''a.sh'', custom_tool ''b'' ''b.sh'']\<rparr>)) w"
  by (rule runner_takes_last_script[where ts = "[custom_tool ''a'' ''a.sh'']" and name = "''b''"]) simp

text \<open>A script may be called \<open>task\<close> or \<open>memory_save\<close>: these names are inert for the classifier, though
  the harness has no such tools, so such a script is never asked about.\<close>

theorem inert_name_is_never_asked:
  assumes "is_inert_tool name"
  shows "valid_ident (Some name) \<and> belya_harness_permission_gate h name args = PERM_TIER_ALLOW"
proof -
  let ?names = "[''todo_write'', ''todo_read'', ''memory_save'', ''memory_recall'', ''send_telegram'', ''enter_plan_mode'', ''task'', ''web_search'']"
  have n: "name \<in> set ?names" using assms unfolding is_inert_tool_def .
  have v: "list_all (\<lambda>n. valid_ident (Some n)) ?names" by code_simp
  have o: "list_all (\<lambda>n. n \<noteq> ''bash'' \<and> \<not> is_read_tool n \<and> \<not> is_write_tool n \<and> n \<noteq> ''fetch_url'' \<and> n \<noteq> ''define_tool'' \<and>
      n \<noteq> ''git'' \<and> n \<noteq> ''exit_plan_mode'') ?names" by code_simp
  have "valid_ident (Some name)" using v n unfolding list_all_iff by blast
  moreover have "name \<noteq> ''bash'' \<and> \<not> is_read_tool name \<and> \<not> is_write_tool name \<and> name \<noteq> ''fetch_url'' \<and> name \<noteq> ''define_tool'' \<and>
      name \<noteq> ''git'' \<and> name \<noteq> ''exit_plan_mode''" using o n unfolding list_all_iff by blast
  then have "permission_classify (Some name) (Some args) = PERM_TIER_ALLOW" using assms by (simp add: permission_classify_def)
  ultimately show ?thesis by (simp add: belya_harness_permission_gate_def)
qed

text \<open>The name of a synthesized server goes into the path of the file and into a shell command as it is.\<close>

theorem server_name_reaches_shell:
  assumes "length server \<le> 300" and "length tool \<le> 300"
  shows "server_path server = ''.belya/mcp/'' @ server @ ''_server.sh'' \<and>
    (\<exists>u v. validation_cmd (server_path server) tool = u @ server @ v)"
proof -
  have p: "server_path server = ''.belya/mcp/'' @ server @ ''_server.sh''" using assms(1) by (simp add: server_path_def)
  have "\<exists>u v. validation_cmd (server_path server) tool = u @ server @ v"
  proof (intro exI)
    show "validation_cmd (server_path server) tool =
      (''printf '' @ [SQ] @ ''{'' @ dquoted ''jsonrpc'' @ '':'' @ dquoted ''2.0'' @ '','' @ dquoted ''id'' @ '':1,'' @ dquoted ''method'' @ '':'' @
        dquoted ''tools/list'' @ ''}'' @ [BSL] @ ''n'' @ [SQ] @ '' | '' @ ''.belya/mcp/'') @ server @
      (''_server.sh'' @ '' 2>/dev/null | grep -q '' @ [SQ] @ dquoted ''name'' @ '':'' @ dquoted tool @ [SQ])"
      unfolding validation_cmd_def p using assms by (simp add: dquoted_def)
  qed
  with p show ?thesis by blast
qed

end
