(* ===== verification/ToolTable.thy ===== *)
theory ToolTable
  imports ToolForge
begin

text \<open>
  The construction of a harness in \<open>belya_harness.c\<close>: the table of the tools with the schemas the model
  is shown, \<open>belya_harness_init_bounded\<close> with its whitelist and role, and the two restricted kinds of
  harness, the router that may not act and the worker that may not ask. A schema is the value the
  calls of \<open>json_obj_add\<close> build, in their order. The mesh that is started, the virtual tables, which
  nothing calls through, and the display settings are left out.
\<close>

section \<open>Schemas\<close>

type_synonym registration = "cstr \<times> cstr \<times> JsonValue \<times> SecurityLevel"

definition typed :: "cstr \<Rightarrow> JsonValue" where
  "typed t = JSON_OBJECT [(''type'', JSON_STRING t)]"

definition described :: "cstr \<Rightarrow> cstr \<Rightarrow> JsonValue" where
  "described t desc = JSON_OBJECT [(''type'', JSON_STRING t), (''description'', JSON_STRING desc)]"

definition object_schema :: "(cstr \<times> JsonValue) list \<Rightarrow> JsonValue" where
  "object_schema props = JSON_OBJECT [(''type'', JSON_STRING ''object''), (''properties'', JSON_OBJECT props)]"

definition required_schema :: "(cstr \<times> JsonValue) list \<Rightarrow> cstr list \<Rightarrow> JsonValue" where
  "required_schema props req = JSON_OBJECT [(''type'', JSON_STRING ''object''), (''properties'', JSON_OBJECT props),
     (''required'', JSON_ARRAY (map JSON_STRING req))]"

definition build_string_param_schema :: "cstr \<Rightarrow> cstr \<Rightarrow> JsonValue" where
  "build_string_param_schema prop_name prop_desc = required_schema [(prop_name, described ''string'' prop_desc)] [prop_name]"

section \<open>The tools\<close>

definition reg_bash :: registration where
  "reg_bash = (''bash'',
     ''Execute a shell command. Use background:true for long-running processes or servers. Timeout: 30s.'',
     required_schema
     [(''command'', described ''string'' ''The bash command string to execute''),
      (''background'', described ''boolean'' ''Run command asynchronously in a persistent background PTY subshell'')]
     [''command''], PERM_ALLOW)"

definition reg_read_file :: registration where
  "reg_read_file = (''read_file'',
     ''Read file contents with line numbers. ALWAYS call before edit_file. Use offset+limit for files >200 lines.'',
     required_schema
     [(''path'', described ''string'' ''Path of file to read''),
      (''offset'', described ''number'' ''Optional start line number (1-indexed)''),
      (''limit'', described ''number'' ''Optional maximum number of lines to read'')]
     [''path''], PERM_ALLOW)"

definition reg_write_file :: registration where
  "reg_write_file = (''write_file'',
     ''Write or overwrite entire contents to a file path (runs pre-flight syntax check on C/C++ files)'',
     required_schema
     [(''path'', typed ''string''),
      (''content'', typed ''string'')]
     [''path'', ''content''], PERM_ALLOW)"

definition reg_edit_file :: registration where
  "reg_edit_file = (''edit_file'',
     ''Exact search-and-replace edit. old_text must match character-for-character including indentation. Always call read_file first.'',
     required_schema
     [(''path'', typed ''string''),
      (''old_text'', described ''string'' ''Existing text substring to replace (must match file contents character-for-character)''),
      (''new_text'', described ''string'' ''New replacement text''),
      (''verify_compile'', described ''boolean'' ''If true, verifies compilation with preflight watchdog and auto-reverts file if compilation fails'')]
     [''path'', ''old_text'', ''new_text''], PERM_ALLOW)"

definition reg_apply_patch :: registration where
  "reg_apply_patch = (''apply_patch'',
     ''Apply multi-hunk structured replacement patch. Atomic: all SEARCH hunks must match exactly or whole patch is rejected.'',
     required_schema
     [(''path'', typed ''string''),
      (''patch'', described ''string'' ''Patch block in <<<<<<< SEARCH ... ======= ... >>>>>>> REPLACE format'')]
     [''path'', ''patch''], PERM_ALLOW)"

definition reg_list_dir :: registration where
  "reg_list_dir = (''list_dir'',
     ''List files and directories in path'',
     build_string_param_schema ''path'' ''Directory path'', PERM_ALLOW)"

definition reg_search_files :: registration where
  "reg_search_files = (''search_files'',
     ''Search for text or patterns recursively across files (grep-like). Returns up to 50 matches.'',
     required_schema
     [(''pattern'', described ''string'' ''Text pattern to search for''),
      (''path'', described ''string'' ''Directory path to search in (default: current directory)''),
      (''file_glob'', described ''string'' ''Optional file glob pattern (e.g. *.c, *.h)''),
      (''regex'', described ''boolean'' ''Optional flag to treat pattern as POSIX extended regular expression'')]
     [''pattern''], PERM_ALLOW)"

definition reg_git_status :: registration where
  "reg_git_status = (''git_status'',
     ''Check Git repository branch, staged changes, and cleanliness status'',
     object_schema
     [(''path'', described ''string'' ''Optional target repository directory path (default: current workspace)'')], PERM_ALLOW)"

definition reg_git_diff :: registration where
  "reg_git_diff = (''git_diff'',
     ''View Git working copy or staged diffs'',
     object_schema
     [(''staged'', described ''boolean'' ''Whether to diff staged changes (--cached)''),
      (''path'', described ''string'' ''Optional specific file path to diff'')], PERM_ALLOW)"

definition reg_save_memory :: registration where
  "reg_save_memory = (''save_memory'',
     ''Save a verified skill or trajectory to SQLite memory'',
     object_schema
     [(''topic'', typed ''string''),
      (''content'', typed ''string'')], PERM_ALLOW)"

definition reg_recall_memory :: registration where
  "reg_recall_memory = (''recall_memory'',
     ''Search SQLite memory for past solutions and skills'',
     build_string_param_schema ''query'' ''Search term'', PERM_ALLOW)"

definition reg_spawn_subagent :: registration where
  "reg_spawn_subagent = (''spawn_subagent'',
     ''Spawn an autonomous subagent worker in an isolated sandbox context'',
     required_schema
     [(''task'', described ''string'' ''Clear task description for the subagent''),
      (''instructions'', described ''string'' ''Optional specialized instructions for the worker''),
      (''max_turns'', described ''number'' ''Max execution turns (default: 5)'')]
     [''task''], PERM_ALLOW)"

definition reg_define_tool :: registration where
  "reg_define_tool = (''define_tool'',
     ''Dynamically create, persist, and register a new executable tool (parameters mapped to $PARAM_<NAME>, $1, $2, and $TOOL_ARGS_JSON)'',
     required_schema
     [(''name'', described ''string'' ''Unique identifier name for the new tool''),
      (''description'', described ''string'' ''Clear explanation of what the tool does''),
      (''script_body'', described ''string'' ''Executable shell/python script body'')]
     [''name'', ''description'', ''script_body''], PERM_ALLOW)"

definition reg_fetch_url :: registration where
  "reg_fetch_url = (''fetch_url'',
     ''Send HTTP/REST requests (GET, POST, PUT, DELETE) with headers and payload'',
     required_schema
     [(''url'', described ''string'' ''Target web URL or API endpoint''),
      (''method'', described ''string'' ''HTTP method: GET, POST, PUT, DELETE, PATCH, HEAD (default: GET)''),
      (''body'', described ''string'' ''Request body or JSON payload for POST/PUT/PATCH''),
      (''headers'', described ''object'' (''Custom HTTP headers (e.g. {'' @ [DQ] @ ''Authorization'' @ [DQ] @ '': '' @ [DQ] @ ''Bearer ...'' @ [DQ] @ '', '' @ [DQ] @ ''Content-Type'' @ [DQ] @ '': '' @ [DQ] @ ''application/json'' @ [DQ] @ ''})''))]
     [''url''], PERM_ALLOW)"

definition reg_save_skill :: registration where
  "reg_save_skill = (''save_skill'',
     ''Save a reusable procedural workflow skill into agent memory'',
     required_schema
     [(''name'', described ''string'' ''Name of the procedural skill''),
      (''trigger'', described ''string'' ''Trigger phrase or keyword to activate the skill''),
      (''description'', described ''string'' ''Short explanation of what the skill accomplishes''),
      (''instructions'', described ''string'' ''Detailed step-by-step instructions for the agent to follow'')]
     [''name'', ''instructions''], PERM_ALLOW)"

definition reg_recall_skill :: registration where
  "reg_recall_skill = (''recall_skill'',
     ''Search and inspect saved procedural skills from memory'',
     build_string_param_schema ''query'' ''Search term or trigger keyword'', PERM_ALLOW)"

definition reg_recall_conversation :: registration where
  "reg_recall_conversation = (''recall_conversation'',
     ''Search past conversation messages and history across all historical sessions'',
     build_string_param_schema ''query'' ''Keywords or topics from past conversations'', PERM_ALLOW)"

definition reg_dispatch_agent :: registration where
  "reg_dispatch_agent = (''dispatch_agent'',
     ''Dispatch a specialized autonomous engineering subagent with least-privilege bounding and Git rollback guard'',
     required_schema
     [(''role'', described ''string'' ''Target subagent role (architect, builder, reviewer, tester, triage)''),
      (''task'', described ''string'' ''Clear actionable objective or mission''),
      (''context'', described ''string'' ''Optional architectural or technical context'')]
     [''role'', ''task''], PERM_ALLOW)"

definition reg_goto_definition :: registration where
  "reg_goto_definition = (''goto_definition'',
     ''Navigate to symbol definition (functions, structs, macros) using AST index'',
     build_string_param_schema ''symbol'' ''Function, struct, or macro name to resolve'', PERM_ALLOW)"

definition reg_find_callers :: registration where
  "reg_find_callers = (''find_callers'',
     ''Find all call sites and invocations of a symbol across codebase'',
     build_string_param_schema ''symbol'' ''Target function or symbol name'', PERM_ALLOW)"

definition reg_synthesize_mcp_server :: registration where
  "reg_synthesize_mcp_server = (''synthesize_mcp_server'',
     ''Synthesize a standalone Model Context Protocol (MCP) server from any executable script with validation gating'',
     required_schema
     [(''server_name'', described ''string'' ''Name of the MCP server''),
      (''tool_name'', described ''string'' ''Name of the exposed tool''),
      (''description'', described ''string'' ''Description of tool''),
      (''script_cmd'', described ''string'' ''Shell or Python script command to execute''),
      (''schema_json'', described ''string'' ''JSON Schema string for parameters'')]
     [''server_name'', ''tool_name'', ''script_cmd''], PERM_ALLOW)"

definition reg_audit_security_variants :: registration where
  "reg_audit_security_variants = (''audit_security_variants'',
     ''Run Mythos variant analysis across codebase to detect unsafe sinks, buffer overflows, and memory vulnerabilities'',
     JSON_OBJECT [(''type'', JSON_STRING ''object'')], PERM_ALLOW)"

definition reg_ask_user :: registration where
  "reg_ask_user = (''ask_user'',
     ''Ask the human operator a clarification question with optional numbered choices'',
     required_schema
     [(''question'', described ''string'' ''The clarification question or interview inquiry for the operator''),
      (''options'', described ''array'' ''Optional list of selectable answer options'')]
     [''question''], PERM_ALLOW)"

definition reg_task_create :: registration where
  "reg_task_create = (''task_create'',
     ''Create a structured tracking task on the SQLite task board'',
     required_schema
     [(''subject'', described ''string'' ''Short subject or title of the task''),
      (''description'', described ''string'' ''Detailed description or acceptance criteria''),
      (''dependencies'', described ''string'' ''Comma-separated list of prerequisite task IDs''),
      (''assigned_agent'', described ''string'' ''Target sub-agent or twin assigned to this task'')]
     [''subject''], PERM_ALLOW)"

definition reg_task_update :: registration where
  "reg_task_update = (''task_update'',
     ''Update task progress or status on the SQLite task board'',
     required_schema
     [(''id'', described ''integer'' ''ID of the task to update''),
      (''status'', described ''string'' ''New status: pending, in_progress, completed, failed, blocked''),
      (''description'', described ''string'' ''Updated description or progress note'')]
     [''id''], PERM_ALLOW)"

definition reg_task_list :: registration where
  "reg_task_list = (''task_list'',
     ''List tasks from the SQLite task board with optional status filter'',
     object_schema
     [(''status'', described ''string'' ''Optional status filter: pending, in_progress, completed, failed, blocked, or all'')], PERM_ALLOW)"

definition reg_task_get :: registration where
  "reg_task_get = (''task_get'',
     ''Retrieve full details and dependency graph of a specific task'',
     required_schema
     [(''id'', described ''integer'' ''ID of the task to retrieve'')]
     [''id''], PERM_ALLOW)"

definition reg_cron_create :: registration where
  "reg_cron_create = (''cron_create'',
     ''Register a recurring background cron job'',
     required_schema
     [(''name'', described ''string'' ''Unique name for the recurring job''),
      (''schedule'', described ''string'' ''Standard cron expression or interval specifier''),
      (''prompt'', described ''string'' ''Prompt instruction or action to execute when triggered'')]
     [''name'', ''schedule'', ''prompt''], PERM_ALLOW)"

definition reg_cron_list :: registration where
  "reg_cron_list = (''cron_list'',
     ''List all registered background cron jobs'',
     object_schema [], PERM_ALLOW)"

definition reg_cron_tick :: registration where
  "reg_cron_tick = (''cron_tick'',
     ''Evaluate and trigger due background cron jobs immediately'',
     object_schema [], PERM_ALLOW)"

definition reg_enter_plan_mode :: registration where
  "reg_enter_plan_mode = (''enter_plan_mode'',
     ''Enter read-only Plan Mode. Locks all mutating file and shell operations until exit_plan_mode is called'',
     object_schema [], PERM_ALLOW)"

definition reg_exit_plan_mode :: registration where
  "reg_exit_plan_mode = (''exit_plan_mode'',
     ''Exit read-only Plan Mode. Restores read-write filesystem and shell execution'',
     object_schema [], PERM_ALLOW)"

definition reg_enter_worktree :: registration where
  "reg_enter_worktree = (''enter_worktree'',
     ''Create and switch into an isolated git worktree sandbox'',
     object_schema
     [(''branch'', described ''string'' ''Branch or identifier name for the isolated git worktree'')], PERM_ALLOW)"

definition reg_leave_worktree :: registration where
  "reg_leave_worktree = (''leave_worktree'',
     ''Leave isolated git worktree sandbox and restore original working directory'',
     object_schema
     [(''keep'', described ''boolean'' ''Whether to keep the worktree branch instead of force-removing it'')], PERM_ALLOW)"

definition reg_manage_task :: registration where
  "reg_manage_task = (''manage_task'',
     ''Manage persistent background PTY subshell tasks (list, status, send_input, kill)'',
     required_schema
     [(''action'', described ''string'' (''Action to perform: '' @ [SQ] @ ''list'' @ [SQ] @ '', '' @ [SQ] @ ''status'' @ [SQ] @ '', '' @ [SQ] @ ''send_input'' @ [SQ] @ '', '' @ [SQ] @ ''kill'' @ [SQ])),
      (''id'', described ''integer'' ''ID of the background task''),
      (''input'', described ''string'' ''Input text to send to the task stdin (for send_input)'')]
     [''action''], PERM_ALLOW)"

definition reg_web_search :: registration where
  "reg_web_search = (''web_search'',
     ''Search the web for up-to-date documentation and information'',
     required_schema
     [(''query'', described ''string'' ''Search query string''),
      (''provider'', described ''string'' (''Search provider: '' @ [SQ] @ ''brave'' @ [SQ] @ '' (default), '' @ [SQ] @ ''tavily'' @ [SQ] @ '', or '' @ [SQ] @ ''searxng'' @ [SQ]))]
     [''query''], PERM_ALLOW)"

definition reg_web_fetch :: registration where
  "reg_web_fetch = (''web_fetch'',
     ''Fetch and extract clean markdown content from an HTTP/HTTPS URL (SSRF guarded, max 50KB)'',
     required_schema
     [(''url'', described ''string'' ''Target HTTP/HTTPS URL to fetch''),
      (''extract_mode'', described ''string'' (''Extraction mode: '' @ [SQ] @ ''markdown'' @ [SQ] @ '' (default) or '' @ [SQ] @ ''text'' @ [SQ]))]
     [''url''], PERM_ALLOW)"

definition reg_edit_notebook :: registration where
  "reg_edit_notebook = (''edit_notebook'',
     ''Inspect and manipulate Jupyter notebook (.ipynb) cells preserving outputs and metadata'',
     required_schema
     [(''path'', described ''string'' ''Path to .ipynb Jupyter notebook file''),
      (''action'', described ''string'' (''Action: '' @ [SQ] @ ''read'' @ [SQ] @ '', '' @ [SQ] @ ''replace_cell'' @ [SQ] @ '', '' @ [SQ] @ ''insert_cell'' @ [SQ] @ '', '' @ [SQ] @ ''delete_cell'' @ [SQ])),
      (''cell_index'', described ''integer'' ''Target cell index (0-indexed)''),
      (''cell_type'', described ''string'' (''Cell type: '' @ [SQ] @ ''code'' @ [SQ] @ '' or '' @ [SQ] @ ''markdown'' @ [SQ])),
      (''source'', described ''string'' ''Cell code or markdown content for insertion/replacement'')]
     [''path'', ''action''], PERM_ALLOW)"

definition reg_lsp_definition :: registration where
  "reg_lsp_definition = (''lsp_definition'',
     ''Go to symbol definition via LSP-over-MCP or native AST symbol graph'',
     object_schema
     [(''file'', described ''string'' ''Source file path''),
      (''line'', described ''integer'' ''Line number (1-based)''),
      (''character'', described ''integer'' ''Character offset (1-based)''),
      (''symbol'', described ''string'' ''Optional symbol name (e.g. function or type identifier)'')], PERM_ALLOW)"

definition reg_lsp_references :: registration where
  "reg_lsp_references = (''lsp_references'',
     ''Find all references to symbol via LSP-over-MCP or native AST call-tree'',
     object_schema
     [(''file'', described ''string'' ''Source file path''),
      (''line'', described ''integer'' ''Line number (1-based)''),
      (''character'', described ''integer'' ''Character offset (1-based)''),
      (''symbol'', described ''string'' ''Optional symbol name to search references for'')], PERM_ALLOW)"

definition reg_exec_backend :: registration where
  "reg_exec_backend = (''exec_backend'',
     ''Query or switch execution backend (local, Docker container, or SSH host)'',
     object_schema
     [(''action'', described ''string'' (''Action: '' @ [SQ] @ ''get'' @ [SQ] @ '' or '' @ [SQ] @ ''set'' @ [SQ] @ '' (default: get)'')),
      (''backend'', described ''string'' (''Backend type: '' @ [SQ] @ ''local'' @ [SQ] @ '', '' @ [SQ] @ ''docker'' @ [SQ] @ '', '' @ [SQ] @ ''ssh'' @ [SQ])),
      (''target'', described ''string'' ''Target container ID/name (docker) or host (ssh)'')], PERM_ALLOW)"

definition reg_run_test_cycle :: registration where
  "reg_run_test_cycle = (''run_test_cycle'',
     ''Run the project test suite autonomously (auto-detects make, pytest, cargo, npm, ctest, go test). Returns structured pass/fail trace.'',
     object_schema
     [(''target_test'', described ''string'' ''Optional specific test file, pattern, or test target name''),
      (''framework'', described ''string'' (''Optional framework: '' @ [SQ] @ ''auto'' @ [SQ] @ '', '' @ [SQ] @ ''make'' @ [SQ] @ '', '' @ [SQ] @ ''pytest'' @ [SQ] @ '', '' @ [SQ] @ ''cargo'' @ [SQ] @ '', '' @ [SQ] @ ''npm'' @ [SQ] @ '', '' @ [SQ] @ ''ctest'' @ [SQ] @ '', '' @ [SQ] @ ''go'' @ [SQ]))], PERM_ALLOW)"

definition reg_dispatch_worker_task :: registration where
  "reg_dispatch_worker_task = (''dispatch_worker_task'',
     ''Dispatch coding task to an ephemeral shadow git worktree worker. Slices AST and verifies before merge.'',
     required_schema
     [(''task'', described ''string'' ''Task specification for worker execution''),
      (''target_symbol'', described ''string'' ''Optional target symbol for AST dependency slicing''),
      (''test_cmd'', described ''string'' ''Optional verification test command'')]
     [''task''], PERM_ALLOW)"

definition reg_query_ast_graph :: registration where
  "reg_query_ast_graph = (''query_ast_graph'',
     ''Query AST symbol graph for definitions, callers, or bounded dependency slice'',
     required_schema
     [(''symbol'', described ''string'' ''Target symbol identifier''),
      (''action'', described ''string'' (''Action: '' @ [SQ] @ ''slice'' @ [SQ] @ '' (default), '' @ [SQ] @ ''definition'' @ [SQ] @ '', or '' @ [SQ] @ ''callers'' @ [SQ]))]
     [''symbol''], PERM_ALLOW)"

definition reg_ast_slice :: registration where
  "reg_ast_slice = (''ast_slice'',
     ''Extract bounded shallow transitive AST dependency slice (definition, parameter types, caller signatures)'',
     required_schema
     [(''symbol'', described ''string'' ''Target symbol to slice''),
      (''max_tokens'', described ''integer'' ''Maximum token budget (default 2000)'')]
     [''symbol''], PERM_ALLOW)"

definition reg_lsp_query :: registration where
  "reg_lsp_query = (''lsp_query'',
     ''Query native language server (clangd, pyright, rust-analyzer, gopls) for diagnostics, definition, or references'',
     required_schema
     [(''action'', described ''string'' (''LSP action: '' @ [SQ] @ ''diagnostics'' @ [SQ] @ '', '' @ [SQ] @ ''definition'' @ [SQ] @ '', or '' @ [SQ] @ ''references'' @ [SQ])),
      (''file'', described ''string'' ''Target source file path''),
      (''line'', described ''integer'' ''1-based line number''),
      (''character'', described ''integer'' ''1-based character column'')]
     [''file''], PERM_ALLOW)"

definition reg_mesh_collaborate :: registration where
  "reg_mesh_collaborate = (''mesh_collaborate'',
     ''Collaborate with peer agent over Unix domain socket mesh (/tmp/belya_almaz_mesh.sock)'',
     object_schema
     [(''target'', described ''string'' (''Target peer agent ('' @ [SQ] @ ''almaz'' @ [SQ] @ '' or '' @ [SQ] @ ''belya'' @ [SQ] @ '')'')),
      (''action'', described ''string'' (''Action: '' @ [SQ] @ ''consult'' @ [SQ] @ '', '' @ [SQ] @ ''pair_review'' @ [SQ] @ '', '' @ [SQ] @ ''ping'' @ [SQ])),
      (''message'', described ''string'' ''Message content or code snippet for peer consultation'')], PERM_ALLOW)"

definition registrations :: "registration list" where
  "registrations =
     [reg_bash, reg_read_file, reg_write_file, reg_edit_file, reg_apply_patch,
      reg_list_dir, reg_search_files, reg_git_status, reg_git_diff, reg_save_memory,
      reg_recall_memory, reg_spawn_subagent, reg_define_tool, reg_fetch_url, reg_save_skill,
      reg_recall_skill, reg_recall_conversation, reg_dispatch_agent, reg_goto_definition, reg_find_callers,
      reg_synthesize_mcp_server, reg_audit_security_variants, reg_ask_user, reg_task_create, reg_task_update,
      reg_task_list, reg_task_get, reg_cron_create, reg_cron_list, reg_cron_tick,
      reg_enter_plan_mode, reg_exit_plan_mode, reg_enter_worktree, reg_leave_worktree, reg_manage_task,
      reg_web_search, reg_web_fetch, reg_edit_notebook, reg_lsp_definition, reg_lsp_references,
      reg_exec_backend, reg_run_test_cycle, reg_dispatch_worker_task, reg_query_ast_graph, reg_ast_slice,
      reg_lsp_query, reg_mesh_collaborate]"

section \<open>A harness\<close>

text \<open>The two records of the other theories that a \<open>BelyaHarness\<close> of the code holds, and its role.\<close>

record RoleHarness =
  core :: BelyaHarness
  shell :: ShellHost
  active_role :: cstr
  is_worker :: bool
  harness_root :: "cstr option"

record init_os =
  env_value_of :: "cstr \<Rightarrow> cstr option"
  start_dir :: "cstr option"
  canonical :: "cstr \<Rightarrow> cstr option"
  tool_dir :: "cstr list option"
  read_file :: "cstr \<Rightarrow> cstr option"

definition register_if_permitted :: "cstr option \<Rightarrow> registration \<Rightarrow> BelyaHarness \<Rightarrow> BelyaHarness" where
  "register_if_permitted whitelist r h =
     (case r of (t_name, t_desc, t_schema, t_sec) \<Rightarrow>
        if belya_harness_is_tool_whitelisted whitelist (Some t_name)
        then belya_harness_register_tool t_name t_desc (Some t_schema) t_sec True h else h)"

definition blank_core :: "BelyaAgent \<Rightarrow> BelyaHarness" where
  "blank_core a = \<lparr>last_failed_tool = [], last_failed_args = [], consecutive_tool_failures = 0,
     files_modified_in_turn = False, verification_performed_in_turn = False, verification_guard_tripped = False,
     loop_detector = empty_detector, loop_breaker_tripped = False, agent = a, tools = [], mcp_server_count = 0,
     has_prompt_fn = False, permission_mode = BELYA_PERM_PERMISSIVE, tools_whitelist = [], plan_mode = False\<rparr>"

definition blank_shell :: "BelyaAgent \<Rightarrow> JevClient option \<Rightarrow> cstr \<Rightarrow> ShellHost" where
  "blank_shell a jev_client dir =
     \<lparr>task_host = \<lparr>host_agent = a, task_slots = replicate BELYA_MAX_BACKGROUND_TASKS unused_task, next_task_id = 0, host_cwd = dir\<rparr>,
      jev = jev_client, is_router = False, plan_mode = False, bash_restricted = False,
      exec_backend = BELYA_BACKEND_LOCAL, docker_container = [], ssh_host = []\<rparr>"

definition backend_from_env :: "(cstr \<Rightarrow> cstr option) \<Rightarrow> ShellHost \<Rightarrow> ShellHost" where
  "backend_from_env env h =
     (case env ''EXEC_BACKEND'' of None \<Rightarrow> h
      | Some eb \<Rightarrow>
        if ci_eq eb ''docker''
        then belya_harness_set_exec_backend BELYA_BACKEND_DOCKER
               (case nonempty (env ''DOCKER_CONTAINER'') of None \<Rightarrow> Some ''belya-sandbox'' | c \<Rightarrow> c) h
        else if ci_eq eb ''ssh'' \<and> nonempty (env ''SSH_HOST'') \<noteq> None
        then belya_harness_set_exec_backend BELYA_BACKEND_SSH (env ''SSH_HOST'') h
        else h)"

definition restricts_bash :: "cstr option \<Rightarrow> cstr option \<Rightarrow> bool" where
  "restricts_bash whitelist role_name \<longleftrightarrow>
     role_name = Some ''tester'' \<or> (case whitelist of None \<Rightarrow> False | Some w \<Rightarrow> strstr w ''restricted_bash'' \<noteq> None)"

text \<open>The root of the jail is captured by the first harness only.\<close>

definition captured_root :: "init_os \<Rightarrow> cstr option \<Rightarrow> cstr option" where
  "captured_root os root =
     (case root of Some r \<Rightarrow> Some r
      | None \<Rightarrow> map_option (\<lambda>d. case canonical os d of Some r \<Rightarrow> r | None \<Rightarrow> d) (start_dir os))"

definition belya_harness_init_bounded ::
    "init_os \<Rightarrow> BelyaAgent \<Rightarrow> JevClient option \<Rightarrow> cstr option \<Rightarrow> cstr option \<Rightarrow> cstr option \<Rightarrow> RoleHarness" where
  "belya_harness_init_bounded os a jev_client whitelist role_name root =
     (let c = (blank_core a)
            \<lparr>permission_mode := (if env_value_of os ''BELYA_PERMISSION_MODE'' = Some ''strict'' then BELYA_PERM_STRICT else BELYA_PERM_PERMISSIVE),
             tools_whitelist := (case whitelist of None \<Rightarrow> [] | Some w \<Rightarrow> take 511 w)\<rparr>;
          c = fold (register_if_permitted whitelist) registrations c;
          c = (if whitelist = None then belya_harness_load_custom_tools (read_file os) (tool_dir os) c else c) in
      \<lparr>core = c,
       shell = backend_from_env (env_value_of os)
         ((blank_shell a jev_client (case start_dir os of Some d \<Rightarrow> d | None \<Rightarrow> ''.''))\<lparr>bash_restricted := restricts_bash whitelist role_name\<rparr>),
       active_role = (case role_name of None \<Rightarrow> [] | Some r \<Rightarrow> take 63 r), is_worker = False,
       harness_root = captured_root os root\<rparr>)"

definition belya_harness_init :: "init_os \<Rightarrow> BelyaAgent \<Rightarrow> JevClient option \<Rightarrow> cstr option \<Rightarrow> RoleHarness" where
  "belya_harness_init os a jev_client root = belya_harness_init_bounded os a jev_client None None root"

definition router_whitelist :: cstr where
  "router_whitelist = ''dispatch_worker_task,query_ast_graph,recall_memory,save_memory,'' @
     ''read_file,list_dir,search_files,git_status,git_diff,ask_user,'' @
     ''web_search,web_fetch,lsp_definition,lsp_references,lsp_query,mesh_collaborate''"

definition belya_harness_init_router :: "init_os \<Rightarrow> BelyaAgent \<Rightarrow> JevClient option \<Rightarrow> cstr option \<Rightarrow> RoleHarness" where
  "belya_harness_init_router os a jev_client root =
     (let h = belya_harness_init_bounded os a jev_client (Some router_whitelist) (Some ''router'') root in
      h\<lparr>shell := (shell h)\<lparr>is_router := True\<rparr>, is_worker := False\<rparr>)"

definition worker_whitelist :: cstr where
  "worker_whitelist = ''read_file,write_file,edit_file,apply_patch,bash,'' @
     ''run_test_cycle,ast_slice,list_dir,search_files,'' @ ''lsp_definition,lsp_references,lsp_query''"

definition belya_harness_init_worker :: "init_os \<Rightarrow> BelyaAgent \<Rightarrow> JevClient option \<Rightarrow> cstr option \<Rightarrow> cstr option \<Rightarrow> RoleHarness" where
  "belya_harness_init_worker os a jev_client worktree_dir root =
     (let h = belya_harness_init_bounded os a jev_client (Some worker_whitelist) (Some ''worker'') root;
          sh = (shell h)\<lparr>is_router := False\<rparr> in
      h\<lparr>shell := (case nonempty worktree_dir of None \<Rightarrow> sh | Some d \<Rightarrow> set_cwd (take 4095 d) sh), is_worker := True\<rparr>)"

section \<open>Lemmas\<close>

definition schema_ok :: "JsonValue \<Rightarrow> bool" where
  "schema_ok s \<longleftrightarrow> json_ok s \<and> json_obj_get_str (Some s) ''type'' = Some ''object'' \<and>
     (case json_obj_get (Some s) ''required'' of
        None \<Rightarrow> True
      | Some (JSON_ARRAY req) \<Rightarrow> list_all (\<lambda>r. case r of JSON_STRING n \<Rightarrow>
          json_obj_get_str (json_obj_get (json_obj_get (Some s) ''properties'') n) ''type'' \<noteq> None | _ \<Rightarrow> False) req
      | Some _ \<Rightarrow> False)"

lemma registrations_ok:
  "list_all (\<lambda>(n, d, s, sec). schema_ok s \<and> nul_free d \<and> valid_ident (Some n) \<and> sec = PERM_ALLOW) registrations"
  by code_simp

lemma registrations_names: "distinct (map fst registrations)" "length registrations = 47"
  by code_simp+

lemma register_step:
  assumes "length (tools h) < MAX_TOOLS"
  shows "map tool_name (tools (register_if_permitted wl r h)) =
    map tool_name (tools h) @ filter (\<lambda>n. belya_harness_is_tool_whitelisted wl (Some n)) [fst r]"
  using assms by (auto simp: register_if_permitted_def belya_harness_register_tool_def MAX_TOOLS_def split: prod.split)

lemma register_all:
  assumes "length (tools h) + length rs \<le> MAX_TOOLS"
  shows "map tool_name (tools (fold (register_if_permitted wl) rs h)) =
    map tool_name (tools h) @ filter (\<lambda>n. belya_harness_is_tool_whitelisted wl (Some n)) (map fst rs)"
  using assms
proof (induction rs arbitrary: h)
  case (Cons r rs)
  have l: "length (tools h) < MAX_TOOLS" using Cons.prems by simp
  note s = register_step[OF l, of wl r]
  have "length (tools (register_if_permitted wl r h)) \<le> Suc (length (tools h))"
    using arg_cong[OF s, of length] by (simp split: if_splits)
  with Cons show ?case by (simp add: s)
qed simp

lemma init_names:
  "map tool_name (tools (core (belya_harness_init_bounded os a j (Some wl) role_name root))) =
   filter (\<lambda>n. belya_harness_is_tool_whitelisted (Some wl) (Some n)) (map fst registrations)"
  by (simp add: belya_harness_init_bounded_def Let_def register_all registrations_names MAX_TOOLS_def blank_core_def)

text \<open>On names in lower case without blanks around them, and without the three aliases, the whitelist is
  the list of its words.\<close>

definition plain_name :: "cstr \<Rightarrow> bool" where
  "plain_name t \<longleftrightarrow> list_all (\<lambda>c. tolower c = c \<and> \<not> isspace c) t \<and>
     t \<noteq> ''grep_search'' \<and> t \<noteq> ''find_by_name'' \<and> t \<noteq> ''replace_file_content''"

lemma plain_lower: "plain_name t \<Longrightarrow> map tolower t = t"
  by (simp add: plain_name_def list_all_iff map_idI)

lemma plain_trim:
  assumes "plain_name t"
  shows "rskip isspace (lskip (\<lambda>c. c = CHR '' '' \<or> c = TAB) t) = t"
proof -
  have n: "\<not> isspace c" "c \<noteq> CHR '' ''" "c \<noteq> TAB" if "c \<in> set t" for c
  proof -
    show s: "\<not> isspace c" using assms that by (simp add: plain_name_def list_all_iff)
    have "isspace (CHR '' '')" "isspace TAB" by code_simp+
    with s show "c \<noteq> CHR '' ''" "c \<noteq> TAB" by blast+
  qed
  have "dropWhile (\<lambda>c. c = CHR '' '' \<or> c = TAB) t = t" using n(2,3) by (cases t) force+
  moreover have "dropWhile isspace (rev t) = rev t"
  proof (cases "rev t")
    case (Cons a l)
    then have "a \<in> set t" by (metis list.set_intros(1) set_rev)
    with Cons n(1) show ?thesis by simp
  qed simp
  ultimately show ?thesis by (simp add: rskip_def lskip_def)
qed

lemma whitelist_words:
  assumes "strtok_all ('',; '' @ [TAB, CR, LF]) wl = ws" and "wl \<noteq> []" and "wl \<noteq> ''*''" and "wl \<noteq> ''all''"
    and "list_all plain_name ws" and "plain_name n"
  shows "belya_harness_is_tool_whitelisted (Some wl) (Some n) \<longleftrightarrow> n \<in> set ws"
proof -
  have tok: "plain_name t \<Longrightarrow> whitelist_token n t \<longleftrightarrow> t = n" for t
  proof -
    assume t: "plain_name t"
    have "map tolower ''grep_search'' = ''grep_search''" "map tolower ''find_by_name'' = ''find_by_name''"
      "map tolower ''replace_file_content'' = ''replace_file_content''" by code_simp+
    with t assms(6) plain_lower show ?thesis
      unfolding whitelist_token_def Let_def plain_trim[OF t] ci_eq_def by (simp add: plain_name_def)
  qed
  with assms(5) have "list_ex (whitelist_token n) ws \<longleftrightarrow> n \<in> set ws" by (auto simp: list_ex_iff list_all_iff)
  with assms(1-4) show ?thesis by (simp add: belya_harness_is_tool_whitelisted_def)
qed

lemma registration_names:
  "map fst registrations =
   [''bash'', ''read_file'', ''write_file'', ''edit_file'', ''apply_patch'', ''list_dir'', ''search_files'', ''git_status'',
    ''git_diff'', ''save_memory'', ''recall_memory'', ''spawn_subagent'', ''define_tool'', ''fetch_url'', ''save_skill'',
    ''recall_skill'', ''recall_conversation'', ''dispatch_agent'', ''goto_definition'', ''find_callers'',
    ''synthesize_mcp_server'', ''audit_security_variants'', ''ask_user'', ''task_create'', ''task_update'', ''task_list'',
    ''task_get'', ''cron_create'', ''cron_list'', ''cron_tick'', ''enter_plan_mode'', ''exit_plan_mode'', ''enter_worktree'',
    ''leave_worktree'', ''manage_task'', ''web_search'', ''web_fetch'', ''edit_notebook'', ''lsp_definition'',
    ''lsp_references'', ''exec_backend'', ''run_test_cycle'', ''dispatch_worker_task'', ''query_ast_graph'', ''ast_slice'',
    ''lsp_query'', ''mesh_collaborate'']"
  by code_simp

lemma registered_plain: "list_all plain_name (map fst registrations)"
  unfolding registration_names by code_simp

lemma whitelisted_names:
  assumes "strtok_all ('',; '' @ [TAB, CR, LF]) wl = ws" and "wl \<noteq> []" and "wl \<noteq> ''*''" and "wl \<noteq> ''all''"
    and "list_all plain_name ws"
  shows "filter (\<lambda>n. belya_harness_is_tool_whitelisted (Some wl) (Some n)) (map fst registrations) =
    filter (\<lambda>n. n \<in> set ws) (map fst registrations)"
  using whitelist_words[OF assms] registered_plain by (intro filter_cong) (auto simp: list_all_iff)

lemma router_words:
  "strtok_all ('',; '' @ [TAB, CR, LF]) router_whitelist =
   [''dispatch_worker_task'', ''query_ast_graph'', ''recall_memory'', ''save_memory'', ''read_file'', ''list_dir'',
    ''search_files'', ''git_status'', ''git_diff'', ''ask_user'', ''web_search'', ''web_fetch'', ''lsp_definition'',
    ''lsp_references'', ''lsp_query'', ''mesh_collaborate'']"
  unfolding router_whitelist_def by code_simp

lemma worker_words:
  "strtok_all ('',; '' @ [TAB, CR, LF]) worker_whitelist =
   [''read_file'', ''write_file'', ''edit_file'', ''apply_patch'', ''bash'', ''run_test_cycle'', ''ast_slice'', ''list_dir'',
    ''search_files'', ''lsp_definition'', ''lsp_references'', ''lsp_query'']"
  unfolding worker_whitelist_def by code_simp

lemma router_names:
  "filter (\<lambda>n. belya_harness_is_tool_whitelisted (Some router_whitelist) (Some n)) (map fst registrations) =
   [''read_file'', ''list_dir'', ''search_files'', ''git_status'', ''git_diff'', ''save_memory'', ''recall_memory'', ''ask_user'',
    ''web_search'', ''web_fetch'', ''lsp_definition'', ''lsp_references'', ''dispatch_worker_task'', ''query_ast_graph'',
    ''lsp_query'', ''mesh_collaborate'']"
  by (subst whitelisted_names[OF router_words]) (simp_all add: router_whitelist_def registration_names, code_simp)

lemma worker_names:
  "filter (\<lambda>n. belya_harness_is_tool_whitelisted (Some worker_whitelist) (Some n)) (map fst registrations) =
   [''bash'', ''read_file'', ''write_file'', ''edit_file'', ''apply_patch'', ''list_dir'', ''search_files'', ''lsp_definition'',
    ''lsp_references'', ''run_test_cycle'', ''ast_slice'', ''lsp_query'']"
  by (subst whitelisted_names[OF worker_words]) (simp_all add: worker_whitelist_def registration_names, code_simp)

section \<open>Properties\<close>

text \<open>A router can look and ask but not act: whatever the environment, the tools it registers are
  exactly these sixteen, in this order, of which none runs a command, writes a file or starts an
  agent of its own other than a worker.\<close>

theorem router_tools_exact:
  "map tool_name (tools (core (belya_harness_init_router os a j root))) =
   [''read_file'', ''list_dir'', ''search_files'', ''git_status'', ''git_diff'', ''save_memory'', ''recall_memory'', ''ask_user'',
    ''web_search'', ''web_fetch'', ''lsp_definition'', ''lsp_references'', ''dispatch_worker_task'', ''query_ast_graph'',
    ''lsp_query'', ''mesh_collaborate'']"
  by (simp add: belya_harness_init_router_def Let_def init_names router_names)

text \<open>A worker can act but not ask or delegate.\<close>

theorem worker_tools_exact:
  "map tool_name (tools (core (belya_harness_init_worker os a j dir root))) =
   [''bash'', ''read_file'', ''write_file'', ''edit_file'', ''apply_patch'', ''list_dir'', ''search_files'', ''lsp_definition'',
    ''lsp_references'', ''run_test_cycle'', ''ast_slice'', ''lsp_query'']"
  by (simp add: belya_harness_init_worker_def Let_def init_names worker_names)

text \<open>The table of tools is well typed: every tool has a name of identifier characters of its own and
  a schema that is an object, survives the serialiser, and requires only parameters it declares with a
  type; all are registered as allowed, and they leave room for seventeen more.\<close>

theorem tool_table_well_typed:
  "distinct (map fst registrations) \<and> length registrations + 17 = MAX_TOOLS \<and>
   list_all (\<lambda>(n, d, s, sec). schema_ok s \<and> nul_free d \<and> valid_ident (Some n) \<and> sec = PERM_ALLOW) registrations"
  using registrations_names registrations_ok by (simp add: MAX_TOOLS_def)

text \<open>A worker keeps the jail of the harness that started it: where the jail has a root, the worker's
  file tools may not write in the worktree the worker was made for.\<close>

theorem worker_cannot_write_its_worktree:
  assumes "workspace_root env = harness_root (belya_harness_init_worker os a j (Some dir) (Some r))"
    and "length r < PATH_BUF" and "realpath (jail_fs env) r = Some r"
    and "realpath (jail_fs env) path = Some p" and "\<not> inside r p"
  shows "\<not> jailed env path True"
proof -
  have "workspace_root env = Some r"
    using assms(1) by (simp add: belya_harness_init_worker_def belya_harness_init_bounded_def Let_def captured_root_def)
  then have "canonical_root (jail_fs env) (workspace_root env) None = Some r"
    using assms(2,3) by (simp add: canonical_root_def Let_def)
  with assms(4,5) show ?thesis by (auto simp: jailed_def is_path_jailed_def write_jailed_def)
qed

text \<open>A harness that is made for a subagent starts outside plan mode, whatever mode its parent is in.\<close>

theorem new_harness_is_not_planning:
  "\<not> BelyaHarness.plan_mode (core (belya_harness_init_bounded os a j whitelist role_name root)) \<and>
   \<not> ShellHost.plan_mode (shell (belya_harness_init_bounded os a j whitelist role_name root))"
proof -
  have r: "BelyaHarness.plan_mode (fold (register_if_permitted wl) rs h) = BelyaHarness.plan_mode h" for wl rs h
    by (induction rs arbitrary: h)
      (auto simp: register_if_permitted_def belya_harness_register_tool_def split: prod.split)
  have l: "BelyaHarness.plan_mode (fold (load_entry f) ns h) = BelyaHarness.plan_mode h" for f ns h
    by (induction ns arbitrary: h)
      (auto simp: load_entry_def load_meta_def add_custom_tool_def split: option.split)
  have b: "ShellHost.plan_mode (backend_from_env env h) = ShellHost.plan_mode h" for env h
    by (auto simp: backend_from_env_def belya_harness_set_exec_backend_def Let_def split: option.split)
  show ?thesis
    by (simp add: belya_harness_init_bounded_def Let_def b r belya_harness_load_custom_tools_def l blank_core_def blank_shell_def
        split: option.split)
qed

end
