(* ===== verification/Subagents.thy ===== *)
theory Subagents
  imports ToolTable Frontmatter
begin

text \<open>
  The agency: the declarative manifests of \<open>belya_agent.c\<close>, the construction of an agent, the two callbacks
  of \<open>belya_harness.c\<close> that run a subagent inside a tool call (\<open>spawn_subagent\<close>, \<open>dispatch_agent\<close>), the
  triage of a request into a pipeline of roles and the pipeline.

  A subagent is a harness of its own, made by \<open>belya_harness_init_bounded\<close>, and a loop of model calls that
  runs the callbacks of the tools it finds there: no classifier, no approval, no plan mode, no hook stands
  in front of them. Its events are put into its parent's trace as \<open>Delegated role e\<close>. The record \<open>agency\<close>
  holds what is outside: the model and the tools of a subagent (\<open>helper\<close>, by the harness it runs in and
  the name of its model; of the record only the gateway, the scavenger, the tools, the clock, the files and
  the output limit are used), git, and the two searches SQLite makes over the manifests, full-text and LIKE. The
  table of manifests is the list of its rows, by rowid. Rule packs and skills are texts. What is printed is left out.
\<close>

section \<open>Manifests\<close>

record BelyaAgentManifest =
  mf_name :: cstr
  mf_role :: cstr
  mf_tools :: cstr
  mf_model :: cstr
  mf_turns :: int
  mf_instructions :: cstr

text \<open>\<open>INSERT ... ON CONFLICT(name) DO UPDATE\<close>: a row with the name keeps its place.\<close>

fun upsert :: "BelyaAgentManifest \<Rightarrow> BelyaAgentManifest list \<Rightarrow> BelyaAgentManifest list" where
  "upsert m [] = [m]"
| "upsert m (r # rs) = (if mf_name r = mf_name m then m # rs else r # upsert m rs)"

definition belya_agent_save_manifest ::
    "cstr \<Rightarrow> cstr \<Rightarrow> cstr \<Rightarrow> cstr option \<Rightarrow> int \<Rightarrow> cstr \<Rightarrow> BelyaAgentManifest list \<Rightarrow> BelyaAgentManifest list" where
  "belya_agent_save_manifest name role_text tool_list model_name max_turns instructions rows =
     upsert \<lparr>mf_name = name, mf_role = role_text, mf_tools = tool_list,
       mf_model = (case nonempty model_name of None \<Rightarrow> ''inherit'' | Some m \<Rightarrow> m),
       mf_turns = (if max_turns > 0 then max_turns else 5), mf_instructions = instructions\<rparr> rows"

definition without_suffix :: "cstr \<Rightarrow> cstr" where
  "without_suffix s = (case strrchr s (CHR ''.'') of None \<Rightarrow> s | Some t \<Rightarrow> take (length s - length t) s)"

definition manifest_entry :: "cstr \<Rightarrow> Frontmatter \<Rightarrow> BelyaAgentManifest list \<Rightarrow> BelyaAgentManifest list" where
  "manifest_entry file_name fm rows =
     (let name = (case frontmatter_get_scalar fm ''name'' of Some n \<Rightarrow> n | None \<Rightarrow> without_suffix (take 255 file_name));
          role_text = (case frontmatter_get_scalar fm ''role'' of Some r \<Rightarrow> r | None \<Rightarrow> name);
          tool_list = (case frontmatter_get_list_as_string fm ''tools'' (Some '','') of Some t \<Rightarrow> t
                       | None \<Rightarrow> (case frontmatter_get_scalar fm ''tools'' of Some t \<Rightarrow> t | None \<Rightarrow> ''read_file''));
          turns = (case frontmatter_get_scalar fm ''max_turns'' of
                     Some t \<Rightarrow> if atoi t > 0 then atoi t else 5 | None \<Rightarrow> 5) in
      belya_agent_save_manifest name role_text tool_list
        (Some (case frontmatter_get_scalar fm ''model'' of Some m \<Rightarrow> m | None \<Rightarrow> ''inherit'')) turns (body fm) rows)"

definition load_manifest ::
    "(cstr \<Rightarrow> cstr option) \<Rightarrow> cstr \<Rightarrow> cstr \<Rightarrow> nat \<times> BelyaAgentManifest list \<Rightarrow> nat \<times> BelyaAgentManifest list" where
  "load_manifest read dir_path d_name x =
     (if strrchr d_name (CHR ''.'') \<noteq> Some ''.md'' then x
      else case read (take 511 (dir_path @ ''/'' @ d_name)) of None \<Rightarrow> x
        | Some bytes \<Rightarrow>
          if bytes = [] \<or> length bytes > 500000 then x
          else (case frontmatter_parse (Some (c_string bytes)) of None \<Rightarrow> x
                | Some fm \<Rightarrow> (fst x + 1, manifest_entry d_name fm (snd x))))"

text \<open>\<open>listing\<close> is \<open>opendir\<close> and \<open>readdir\<close>.\<close>

definition belya_agent_load_manifests ::
    "(cstr \<Rightarrow> cstr option) \<Rightarrow> (cstr \<Rightarrow> cstr list option) \<Rightarrow> cstr option \<Rightarrow> BelyaAgentManifest list \<Rightarrow>
       nat \<times> BelyaAgentManifest list" where
  "belya_agent_load_manifests read listing agents_dir rows =
     (let dir_path = (case nonempty agents_dir of None \<Rightarrow> ''agents'' | Some d \<Rightarrow> d) in
      case listing dir_path of None \<Rightarrow> (0, rows)
      | Some names \<Rightarrow> fold (load_manifest read dir_path) names (0, rows))"

definition belya_agent_get_manifest :: "BelyaAgentManifest list \<Rightarrow> cstr \<Rightarrow> BelyaAgentManifest option" where
  "belya_agent_get_manifest rows name =
     map_option (\<lambda>m. m\<lparr>mf_turns := (if mf_turns m > 0 then mf_turns m else 5)\<rparr>) (find (\<lambda>m. mf_name m = name) rows)"

definition agency_bullet :: cstr where "agency_bullet = [CHR 0xE2, CHR 0x80, CHR 0xA2]"

fun byte_less :: "cstr \<Rightarrow> cstr \<Rightarrow> bool" where
  "byte_less s [] = False"
| "byte_less [] (y # ys) = True"
| "byte_less (x # xs) (y # ys) = (byte x < byte y \<or> (x = y \<and> byte_less xs ys))"

fun insert_by_name :: "BelyaAgentManifest \<Rightarrow> BelyaAgentManifest list \<Rightarrow> BelyaAgentManifest list" where
  "insert_by_name m [] = [m]"
| "insert_by_name m (r # rs) = (if byte_less (mf_name m) (mf_name r) then m # r # rs else r # insert_by_name m rs)"

definition manifest_line :: "BelyaAgentManifest \<Rightarrow> cstr" where
  "manifest_line m = ''  '' @ agency_bullet @ '' ['' @ mf_name m @ ''] '' @ mf_role m @ '' (Turns: '' @ int_text (mf_turns m) @
     '', Tools: '' @ mf_tools m @ '')'' @ [LF]"

definition belya_agent_list_manifests :: "BelyaAgentManifest list \<Rightarrow> cstr" where
  "belya_agent_list_manifests rows =
     ''Registered Belya Agency Subagents:'' @ [LF] @
     (if rows = [] then ''  (No agent manifests registered)'' @ [LF]
      else concat (map manifest_line (fold insert_by_name rows [])))"

section \<open>The construction of an agent\<close>

definition closing_core :: cstr where
  "closing_core = ''You are BelyaAgent, an autonomous software engine. Use your tools when required to solve tasks, and respond directly in plain text for greetings and conversational inquiries.''"

definition default_core :: cstr where
  "default_core =
     ''Role & Objective:'' @ [LF] @
     ''Act as BelyaAgent, an expert systems engineer and autonomous execution engine running natively on the host system (macOS / Linux) with full POSIX, bash, and filesystem access. Your goal is to complete the task with absolute accuracy, zero assumptions, and strict verification.'' @ [LF] @ [LF] @
     ''Core Rules:'' @ [LF] @
     ''1. Host Access & Native Execution Mandate: You run natively on the host system with direct POSIX, bash, filesystem, and shell execution privileges. NEVER claim you lack access to the computer, terminal, files, GUI, or operating system. If a task requires terminal manipulation, system configuration, file operations, or running commands, invoke your '' @ [BQ] @ ''bash'' @ [BQ] @ '' or native tools immediately.'' @ [LF] @
     ''2. Verify Everything: Never assume facts, syntax, or outcomes. Treat every data point as unverified until proven otherwise.'' @ [LF] @
     ''3. Research Deeply: Conduct thorough research using primary sources, official documentation, and local source trees.'' @ [LF] @
     ''4. Test Continuously: Run tests at every critical stage. Verify that code, logic, or data works in practice, not just in theory.'' @ [LF] @
     ''5. Don'' @ [SQ] @ ''t reinvent the wheel; instead, leverage proven frameworks and best practices from past successes.'' @ [LF] @
     ''6. Zero-Tolerance Memory Safety: Always check allocation returns (malloc/calloc != NULL), validate pointer bounds, free every resource deterministically, and guarantee zero memory leaks or undefined behavior.'' @ [LF] @ [LF] @
     ''Execution Protocol:'' @ [LF] @
     ''1. OBSERVE & LOCATE: Search codebase symbols or read specific lines before modifying code. Never guess function signatures, line numbers, indentation, or whitespace.'' @ [LF] @
     ''2. HYPOTHESIZE: State a concise, falsifiable hypothesis in text BEFORE calling tools. Explain WHY the bug or task exists and WHAT minimal change addresses it.'' @ [LF] @
     ''3. SURGICAL MINIMAL EDITS: Execute surgical edits that touch ONLY the necessary functions. Preserve existing comments, docstrings, formatting, and surrounding logic.'' @ [LF] @
     ''4. CONTINUOUS VERIFICATION: After editing any code, immediately run the project'' @ [SQ] @ ''s build and test suite (e.g. make test, cargo test) via bash. If tests fail, inspect the exact compiler diagnostic or assertion failure and fix it autonomously.'' @ [LF] @
     ''5. REPETITIVE FAILURE CIRCUIT BREAKER: If an edit or test fails twice, STOP guessing. Re-read the neighborhood lines to see the actual file state, inspect diagnostics, and formulate a fresh hypothesis.'' @ [LF] @
     ''6. GIT DISCIPLINE: Work strictly within the Git repository. Create conventional commits and explicitly tag stable milestones to maintain reliable deployment history.'' @ [LF] @ [LF] @
     ''Tool Constraints:'' @ [LF] @
     ''- edit_file: old_text must EXACTLY match the file content character-for-character, including all leading spaces, tabs, and newlines. ALWAYS read_file first.'' @ [LF] @
     ''- bash: Do NOT run interactive commands (vim, nano, top, less, man, sudo). They will hang. Use cat, head, tail, sed, awk, grep instead.'' @ [LF] @
     ''- search_files: Fast ripgrep/grep search. Returns max 50 matches. Use file_glob or regex to narrow scope.'' @ [LF] @
     ''- For large files (>200 lines), use read_file with offset and limit parameters.'' @ [LF] @ [LF] @
     ''Conversational & Greeting Protocol:'' @ [LF] @
     ''- When the user sends a greeting (e.g., '' @ [SQ] @ ''hello'' @ [SQ] @ '', '' @ [SQ] @ ''hi'' @ [SQ] @ '', '' @ [SQ] @ ''hey'' @ [SQ] @ ''), pleasantry, or introductory question (e.g., '' @ [SQ] @ ''who are you'' @ [SQ] @ '', '' @ [SQ] @ ''what can you do'' @ [SQ] @ ''), respond conversationally, concisely, and naturally in plain text. DO NOT invoke any tools or output JSON function calls for simple greetings.'' @ [LF] @
     ''- Only invoke tools when an actual software engineering task, file modification, code inspection, shell command, or system action is requested.'' @ [LF] @ [LF] @
     closing_core"

definition rules_files :: "cstr list" where
  "rules_files = [''BELYARULES.md'', ''Belya.md'', ''BELYA.md'', ''belya.md'', ''.agentrules'', ''AGENT.md'', ''AGENTS.md'',
     ''GEMINI.md'', ''CLAUDE.md'']"

text \<open>The first file that can be opened counts, whether or not its size does.\<close>

fun guidelines :: "(cstr \<Rightarrow> cstr option) \<Rightarrow> cstr list \<Rightarrow> cstr" where
  "guidelines read [] = []"
| "guidelines read (f # fs) =
     (case read f of None \<Rightarrow> guidelines read fs
      | Some bytes \<Rightarrow>
        if bytes \<noteq> [] \<and> length bytes < 50000
        then [LF, LF] @ ''=== Repository Guidelines ('' @ f @ '') ==='' @ [LF] @ c_string bytes else [])"

definition env_positive :: "init_os \<Rightarrow> cstr \<Rightarrow> int \<Rightarrow> nat \<Rightarrow> nat" where
  "env_positive os name most d =
     (case env_value_of os name of None \<Rightarrow> d | Some t \<Rightarrow> if atoi t > 0 \<and> atoi t \<le> most then nat (atoi t) else d)"

text \<open>\<open>opened\<close>: whether SQLite could open the database; \<open>packs\<close> and \<open>skills\<close>: what the rule packs and the
  skills manifest add to the instructions.\<close>

definition belya_agent_init :: "init_os \<Rightarrow> cstr \<Rightarrow> bool \<Rightarrow> cstr \<Rightarrow> cstr option \<Rightarrow> cstr option \<Rightarrow> BelyaAgent" where
  "belya_agent_init os model_name opened packs skills system_instructions =
     (let sys = (case nonempty system_instructions of None \<Rightarrow> default_core | Some i \<Rightarrow> i @ [LF, LF] @ closing_core);
          sys = sys @ guidelines (read_file os) rules_files @ packs;
          sys = (case nonempty skills of None \<Rightarrow> sys
                 | Some t \<Rightarrow> sys @ [LF, LF] @ ''=== Available Procedural Skills ==='' @ [LF] @ t) in
      belya_agent_add_message ''system'' (Some sys)
        \<lparr>messages = [], schemas = [], model = model_name, db = (if opened then Some [] else None),
         max_context_messages = 80, max_context_tokens = env_positive os ''MAX_CONTEXT_TOKENS'' (2 ^ 31) 128000,
         turn_count = 0, auto_save_interval = 5, turns_since_save = 0,
         compaction_percent = env_positive os ''COMPACTION_PERCENT'' 100 80,
         compaction_keep = env_positive os ''COMPACTION_KEEP'' (2 ^ 31) 20,
         total_prompt_tokens = 0, total_completion_tokens = 0, total_cached_tokens = 0\<rparr>)"

section \<open>Outside\<close>

record 'w agency =
  boot :: init_os
  captured :: "cstr option"
  packs_text :: cstr
  skills_text :: "cstr option"
  workspace :: cstr
  parent_endpoint :: "cstr option"
  agency_net :: "'w network"
  agency_jev :: "JevClient option"
  fts_route :: "cstr \<Rightarrow> cstr option"
  like_route :: "cstr \<Rightarrow> cstr option"
  helper :: "RoleHarness \<Rightarrow> cstr \<Rightarrow> 'w outside"
  head_sha :: "'w \<Rightarrow> cstr \<times> 'w"
  restore_tracked :: "cstr \<Rightarrow> 'w \<Rightarrow> 'w"

text \<open>A full-text hit ends the search even when its row is gone.\<close>

definition belya_agent_route_manifest :: "'w agency \<Rightarrow> BelyaAgentManifest list \<Rightarrow> cstr \<Rightarrow> BelyaAgentManifest option" where
  "belya_agent_route_manifest A rows query =
     (if query = [] then None
      else case belya_agent_get_manifest rows query of Some m \<Rightarrow> Some m
      | None \<Rightarrow>
        let clean_q = filter (\<lambda>c. isalnum c \<or> c = CHR '' '') query in
        case (if clean_q = [] then None else fts_route A clean_q) of Some n \<Rightarrow> belya_agent_get_manifest rows n
        | None \<Rightarrow> Option.bind (like_route A query) (belya_agent_get_manifest rows))"

section \<open>The loop of a subagent\<close>

record 'w sub_run =
  sub :: "'w turn"
  tool_log :: cstr
  final_ans :: cstr
  tool_executions :: nat
  subagent_failed :: bool
  still_running :: bool

definition starters :: "cstr list" where
  "starters = [''spawn_subagent'', ''dispatch_agent'']"

definition sub_tool :: "cstr \<Rightarrow> BelyaHarness \<Rightarrow> BelyaRegisteredTool option" where
  "sub_tool name h =
     (if name \<in> set starters then None
      else case find_tool name h of None \<Rightarrow> None | Some t \<Rightarrow> if has_callback t then Some t else None)"

definition give_result :: "'w outside \<Rightarrow> ReplyCall \<Rightarrow> cstr option \<Rightarrow> 'w turn \<Rightarrow> 'w turn" where
  "give_result W tc obs s =
     log_event (Result (rc_id tc) (case obs of None \<Rightarrow> [] | Some t \<Rightarrow> t))
       (s\<lparr>hs := (hs s)\<lparr>agent := belya_agent_add_tool_result (output_limit W) (rc_id tc) (rc_name tc) obs (agent (hs s))\<rparr>\<rparr>)"

definition log_line :: "ReplyCall \<Rightarrow> cstr \<Rightarrow> cstr" where
  "log_line tc obs = agency_bullet @ '' ['' @ rc_name tc @ '']('' @ rc_args tc @ '') => '' @ obs @ [LF]"

definition spawn_call :: "'w outside \<Rightarrow> ReplyCall \<Rightarrow> 'w sub_run \<Rightarrow> 'w sub_run" where
  "spawn_call W tc r =
     (let s = sub r; name = rc_name tc; args = rc_args tc in
      case sub_tool name (hs s) of
        None \<Rightarrow> r\<lparr>sub := give_result W tc (Some ''Tool not available in subagent sandbox.'') s\<rparr>
      | Some matched \<Rightarrow>
        let (obs, h, w) = run_tool W matched name (json_parse (Some args)) (hs s) (world s) in
        r\<lparr>sub := give_result W tc obs (log_event (event.Ran name args) (s\<lparr>hs := h, world := w\<rparr>)),
          tool_log := tool_log r @ log_line tc (case obs of None \<Rightarrow> [] | Some t \<Rightarrow> t),
          tool_executions := tool_executions r + 1\<rparr>)"

definition dispatch_call :: "'w outside \<Rightarrow> ReplyCall \<Rightarrow> 'w sub_run \<Rightarrow> 'w sub_run" where
  "dispatch_call W tc r =
     (let s = sub r; name = rc_name tc; args = rc_args tc in
      case sub_tool name (hs s) of
        None \<Rightarrow> r\<lparr>sub := give_result W tc (Some ''Error: Tool not permitted by role security policy.'') s,
                  tool_log := tool_log r @ agency_bullet @ '' ['' @ name @ ''] => BLOCKED by role whitelist'' @ [LF]\<rparr>
      | Some matched \<Rightarrow>
        let (obs, h, w) = run_tool W matched name (json_parse (Some args)) (hs s) (world s);
            (tripped, breaker_alert, h) =
              belya_harness_record_tool_observation (files W w) (now W w) name (Some args) obs h;
            final_obs = (case breaker_alert of Some t \<Rightarrow> t
                         | None \<Rightarrow> (case obs of Some t \<Rightarrow> t | None \<Rightarrow> ''Error: tool returned no result'')) in
        r\<lparr>sub := give_result W tc (Some final_obs) (log_event (event.Ran name args) (s\<lparr>hs := h, world := w\<rparr>)),
          tool_log := tool_log r @ log_line tc final_obs,
          tool_executions := tool_executions r + 1, subagent_failed := subagent_failed r \<or> tripped\<rparr>)"

definition conclude_sub :: "ModelGatewayResponse \<Rightarrow> 'w sub_run \<Rightarrow> 'w sub_run" where
  "conclude_sub resp r =
     (case resp_content resp of None \<Rightarrow> r\<lparr>still_running := False\<rparr>
      | Some t \<Rightarrow> r\<lparr>still_running := False, final_ans := final_ans r @ t,
          subagent_failed := subagent_failed r \<or> has_prefix ''API Error'' t \<or> has_prefix ''Network Error'' t\<rparr>)"

text \<open>Both kinds of subagent run this loop, each with its own way of handling a call; the spawned one does
  not look at \<open>subagent_failed\<close>.\<close>

fun sub_loop :: "nat \<Rightarrow> 'w outside \<Rightarrow> (ReplyCall \<Rightarrow> 'w sub_run \<Rightarrow> 'w sub_run) \<Rightarrow> 'w sub_run \<Rightarrow> 'w sub_run" where
  "sub_loop 0 W call r = r"
| "sub_loop (Suc turns) W call r =
     (let (resp, s) = model_step W (sub r); r = r\<lparr>sub := s\<rparr> in
      if \<not> has_tool_call resp then conclude_sub resp r
      else sub_loop turns W call (fold call (resp_calls resp) r))"

definition start_sub :: "RoleHarness \<Rightarrow> cstr \<Rightarrow> 'w \<Rightarrow> 'w sub_run" where
  "start_sub h task w =
     \<lparr>sub = \<lparr>hs = (core h)\<lparr>agent := belya_agent_add_message ''user'' (Some task) (agent (core h))\<rparr>, world = w, trace = []\<rparr>,
      tool_log = [], final_ans = [], tool_executions = 0, subagent_failed = False, still_running = True\<rparr>"

definition back_to_parent :: "cstr \<Rightarrow> 'w sub_run \<Rightarrow> 'w turn \<Rightarrow> 'w turn" where
  "back_to_parent role_name r s =
     s\<lparr>world := world (sub r), trace := trace s @ map (Delegated role_name) (trace (sub r))\<rparr>"

section \<open>spawn_subagent\<close>

definition workspace_note :: "cstr \<Rightarrow> cstr" where
  "workspace_note dir = ''Workspace Root: '' @ dir @ [LF] @
     ''IMPORTANT: Use current directory or relative paths for all file tools.'' @ [LF]"

definition spawn_instructions :: "cstr \<Rightarrow> cstr option \<Rightarrow> cstr" where
  "spawn_instructions dir instructions =
     ''You are a specialized subagent worker. Execute the assigned task and provide a concise, direct answer.'' @
     (if dir \<noteq> [] then [LF, LF] @ workspace_note dir else []) @
     (case nonempty instructions of None \<Rightarrow> [] | Some i \<Rightarrow> [LF] @ ''Task instructions:'' @ [LF] @ i)"

definition sub_agent :: "'w agency \<Rightarrow> cstr \<Rightarrow> cstr \<Rightarrow> BelyaAgent" where
  "sub_agent A model_name sys = belya_agent_init (boot A) model_name True (packs_text A) (skills_text A) (Some sys)"

definition own_jev :: "'w agency \<Rightarrow> JevClient option" where
  "own_jev A = jev_client_init (env_value_of (boot A) ''JEV_API_KEY'')"

definition spawn_turns :: "int \<Rightarrow> nat" where
  "spawn_turns n = (if n \<le> 0 \<or> n > 10 then 5 else nat n)"

definition spawn_envelope :: "cstr \<Rightarrow> 'w sub_run \<Rightarrow> cstr" where
  "spawn_envelope task r =
     ''=== Subagent Task Execution Envelope ==='' @ [LF] @ ''Task: '' @ task @ [LF] @ ''Tools Executed: '' @
     dec_text (tool_executions r) @ [LF, LF] @
     (if tool_log r \<noteq> [] then ''Execution Trace:'' @ [LF] @ tool_log r @ [LF] else []) @
     ''Final Output:'' @ [LF] @ (if final_ans r \<noteq> [] then final_ans r else ''(Completed without final text)'')"

text \<open>\<open>None\<close>: \<open>max_turns\<close> is a number the cast to \<open>int\<close> is undefined for.\<close>

definition tool_spawn_subagent :: "'w agency \<Rightarrow> JsonValue option \<Rightarrow> 'w turn \<Rightarrow> (cstr \<times> 'w turn) option" where
  "tool_spawn_subagent A args s =
     (if parent_endpoint A = None then Some (''Error: Model gateway is offline or unconfigured.'', s)
      else case json_obj_get_str args ''task'' of None \<Rightarrow> Some (''Error: Missing subagent task argument.'', s)
      | Some task \<Rightarrow>
        let model_name = model (agent (hs s));
            a = sub_agent A model_name (spawn_instructions (workspace A) (json_obj_get_str args ''instructions''));
            h = belya_harness_init (boot A) a (own_jev A) (captured A);
            h = (if workspace A \<noteq> [] then h\<lparr>shell := set_cwd (take 4095 (workspace A)) (shell h)\<rparr> else h);
            W = helper A h model_name in
        map_option (\<lambda>n. let r = sub_loop (spawn_turns n) W (spawn_call W) (start_sub h task (world s)) in
            (spawn_envelope task r, back_to_parent ''subagent'' r s))
          (int_of_double (json_obj_get_num args ''max_turns'' (double_of_int 5))))"

section \<open>dispatch_agent\<close>

definition dispatch_instructions :: "cstr \<Rightarrow> cstr \<Rightarrow> cstr \<Rightarrow> cstr \<Rightarrow> cstr option \<Rightarrow> cstr" where
  "dispatch_instructions role_name role_text inst dir extra_context =
     ''Role: '' @ role_name @ '' Subagent ('' @ role_text @ '')'' @ [LF] @ inst @ [LF, LF] @ workspace_note dir @
     (case nonempty extra_context of None \<Rightarrow> [] | Some c \<Rightarrow> [LF, LF] @ ''Additional Technical Context:'' @ [LF] @ c)"

definition writes :: "cstr \<Rightarrow> bool" where
  "writes whitelist \<longleftrightarrow> list_ex (\<lambda>n. belya_harness_is_tool_whitelisted (Some whitelist) (Some n))
     [''write_file'', ''edit_file'', ''apply_patch'']"

text \<open>The snapshot is the first line git prints, in a buffer of 128 bytes, without its end of line.\<close>

definition snapshot :: "'w agency \<Rightarrow> bool \<Rightarrow> 'w \<Rightarrow> cstr \<times> 'w" where
  "snapshot A has_write w =
     (if has_write then let (t, w) = head_sha A w in (takeWhile (\<lambda>c. c \<noteq> CR \<and> c \<noteq> LF) (take 127 t), w) else ([], w))"

definition failed_run :: "'w sub_run \<Rightarrow> bool" where
  "failed_run r \<longleftrightarrow> subagent_failed r \<or> still_running r \<or> consecutive_tool_failures (hs (sub r)) \<ge> 3 \<or>
     (final_ans r = [] \<and> tool_executions r = 0)"

definition log_parent :: "cstr \<Rightarrow> cstr \<Rightarrow> 'w turn \<Rightarrow> 'w turn" where
  "log_parent event_type msg s =
     s\<lparr>hs := (hs s)\<lparr>agent := belya_agent_log_timeline event_type (take 255 msg) (agent (hs s))\<rparr>\<rparr>"

definition rollback_guard :: "'w agency \<Rightarrow> cstr \<Rightarrow> bool \<Rightarrow> bool \<Rightarrow> cstr \<Rightarrow> 'w turn \<Rightarrow> bool \<times> 'w turn" where
  "rollback_guard A role_name has_write failed sha s =
     (if has_write \<and> length sha = 40 \<and> is_valid_hex_sha (Some sha) then
        if failed then
          (True, log_parent ''subagent_rollback'' (''Subagent '' @ [SQ] @ role_name @ [SQ] @
             '' failed; restored tracked files to snapshot '' @ take 8 sha @ '' (untracked preserved)'')
             (s\<lparr>world := restore_tracked A (workspace A) (world s)\<rparr>))
        else (False, log_parent ''subagent_commit'' (''Subagent '' @ [SQ] @ role_name @ [SQ] @
                '' completed successfully; changes preserved'') s)
      else (False, s))"

definition dispatch_envelope :: "cstr \<Rightarrow> cstr \<Rightarrow> bool \<Rightarrow> bool \<Rightarrow> cstr \<Rightarrow> 'w sub_run \<Rightarrow> cstr" where
  "dispatch_envelope role_name whitelist failed rolled_back sha r =
     ''=== Belya Agency Subagent Execution Envelope ==='' @ [LF] @
     ''Role: '' @ role_name @ '' | Permitted Tools: ['' @ whitelist @ '']'' @ [LF] @
     ''Status: '' @ (if failed then ''FAILED (Rolled Back)'' else ''SUCCESS'') @ [LF] @
     ''Tools Executed: '' @ dec_text (tool_executions r) @ [LF] @
     (if rolled_back then ''Git Rollback Guard: ACTIVATED (Reverted working tree to snapshot '' @ take 8 sha @ '')'' @ [LF]
      else []) @
     ''ROMA Context Firewall: Child execution trace isolated ('' @ dec_text (length (tool_log r)) @
     '' bytes scrubbed from parent context)'' @ [LF] @ [LF] @ ''Final Output:'' @ [LF] @
     (if final_ans r \<noteq> [] then final_ans r else ''(Subagent completed without output text)'')"

definition resolve_manifest :: "'w agency \<Rightarrow> BelyaAgentManifest list \<Rightarrow> cstr \<Rightarrow> BelyaAgentManifest option" where
  "resolve_manifest A rows role_name =
     (case belya_agent_get_manifest rows role_name of Some m \<Rightarrow> Some m
      | None \<Rightarrow> belya_agent_route_manifest A rows role_name)"

definition permitted_tools :: "BelyaAgentManifest option \<Rightarrow> cstr" where
  "permitted_tools m = (case m of None \<Rightarrow> ''read_file'' | Some m \<Rightarrow> mf_tools m)"

definition turns_of :: "BelyaAgentManifest option \<Rightarrow> nat" where
  "turns_of m = (case m of Some m \<Rightarrow> if mf_turns m > 0 then nat (mf_turns m) else 5 | None \<Rightarrow> 5)"

definition model_of :: "BelyaAgentManifest option \<Rightarrow> cstr \<Rightarrow> cstr" where
  "model_of m inherited =
     (case m of Some m \<Rightarrow> if mf_model m \<noteq> ''inherit'' \<and> mf_model m \<noteq> [] then mf_model m else inherited
      | None \<Rightarrow> inherited)"

text \<open>The harness a subagent of a role runs in.\<close>

definition role_harness ::
    "'w agency \<Rightarrow> BelyaAgentManifest option \<Rightarrow> cstr \<Rightarrow> cstr \<Rightarrow> cstr option \<Rightarrow> RoleHarness" where
  "role_harness A m role_name model_name extra_context =
     (let sys = dispatch_instructions role_name (case m of Some m \<Rightarrow> mf_role m | None \<Rightarrow> role_name)
            (case m of Some m \<Rightarrow> mf_instructions m
             | None \<Rightarrow> ''You are a specialized autonomous engineering subagent.'') (workspace A) extra_context;
          h = belya_harness_init_bounded (boot A) (sub_agent A model_name sys) (own_jev A)
                (Some (permitted_tools m)) (Some role_name) (captured A) in
      h\<lparr>shell := set_cwd (take 4095 (workspace A)) (shell h)\<rparr>)"

definition run_role ::
    "'w agency \<Rightarrow> BelyaAgentManifest option \<Rightarrow> cstr \<Rightarrow> cstr \<Rightarrow> cstr \<Rightarrow> cstr option \<Rightarrow> 'w \<Rightarrow> 'w sub_run" where
  "run_role A m role_name model_name task extra_context w =
     (let h = role_harness A m role_name model_name extra_context; W = helper A h model_name in
      sub_loop (turns_of m) W (dispatch_call W) (start_sub h task w))"

definition belya_agency_dispatch_subagent ::
    "'w agency \<Rightarrow> BelyaAgentManifest list \<Rightarrow> cstr \<Rightarrow> cstr \<Rightarrow> cstr option \<Rightarrow> 'w turn \<Rightarrow> cstr \<times> 'w turn" where
  "belya_agency_dispatch_subagent A rows role_name task extra_context s =
     (if parent_endpoint A = None
      then (''Error: Invalid arguments or model gateway offline for subagent dispatch.'', s)
      else
        let m = resolve_manifest A rows role_name;
            has_write = writes (permitted_tools m);
            (sha, w) = snapshot A has_write (world s);
            r = run_role A m role_name (model_of m (model (agent (hs s)))) task extra_context w;
            failed = failed_run r;
            (rolled_back, s) = rollback_guard A role_name has_write failed sha (back_to_parent role_name r s) in
        (dispatch_envelope role_name (permitted_tools m) failed rolled_back sha r, s))"

definition tool_dispatch_agent ::
    "'w agency \<Rightarrow> BelyaAgentManifest list \<Rightarrow> JsonValue option \<Rightarrow> 'w turn \<Rightarrow> cstr \<times> 'w turn" where
  "tool_dispatch_agent A rows args s =
     (case (json_obj_get_str args ''role'', json_obj_get_str args ''task'') of
        (Some role_name, Some task) \<Rightarrow>
          belya_agency_dispatch_subagent A rows role_name task (json_obj_get_str args ''context'') s
      | _ \<Rightarrow> (''Error: Missing role or task argument for dispatch_agent.'', s))"

section \<open>Triage and pipelines\<close>

definition agency_greeting :: cstr where
  "agency_greeting = ''Hello! I am Belya Agency, an autonomous multi-agent engineering harness. I coordinate Architect, Builder, '' @
     ''Reviewer, and Tester subagents to solve complex engineering tasks.''"

definition greetings :: "cstr list" where
  "greetings = [''hi'', ''hello'', ''hey'', ''good morning'', ''good evening'', ''status'', ''who are you'', ''help'', ''/help'']"

definition contains_any :: "cstr \<Rightarrow> cstr list \<Rightarrow> bool" where
  "contains_any p needles \<longleftrightarrow> list_ex (str_contains_ci p) needles"

definition classify_request :: "cstr \<Rightarrow> cstr list" where
  "classify_request p =
     (let is_test = contains_any p [''test'', ''benchmark'', ''verify''];
          is_review = contains_any p [''review'', ''audit'', ''diff''];
          is_research = contains_any p [''explain'', ''how does'', ''what is'', ''investigate'', ''research'', ''find ''];
          acts = contains_any p [''fix'', ''implement''] in
      if contains_any p [''software company'', ''enterprise company'', ''sdlc project'', ''simulate company'', ''company simulation'']
      then [''account_executive'', ''product_manager'', ''ui_ux_designer'', ''frontend_engineer'', ''backend_engineer'',
            ''cybersecurity_engineer'', ''qa_test_engineer'', ''devops_cloud_engineer'', ''technical_writer'', ''delivery_monitor'']
      else if contains_any p [''frontend flow'', ''ui component pipeline'', ''client ui feature''] \<and> \<not> is_test \<and> \<not> is_review
      then [''product_manager'', ''ui_ux_designer'', ''frontend_engineer'', ''qa_test_engineer'', ''delivery_monitor'']
      else if contains_any p [''backend flow'', ''microservice pipeline'', ''rest api endpoint pipeline''] \<and> \<not> is_test \<and> \<not> is_review
      then [''product_manager'', ''backend_engineer'', ''data_engineer'', ''cybersecurity_engineer'', ''qa_test_engineer'',
            ''delivery_monitor'']
      else if contains_any p [''agent wellbeing'', ''evolution officer'', ''health monitor''] then [''capability_evolver'']
      else if contains_any p [''delivery digest'', ''customer progress report'', ''executive client report'']
      then [''delivery_monitor'']
      else if is_review \<and> \<not> acts then [''reviewer'']
      else if is_test \<and> \<not> acts then [''tester'']
      else if is_research \<and> \<not> acts then [''architect'']
      else [''architect'', ''builder'', ''tester''])"

text \<open>\<open>Inl\<close> the direct reply, \<open>Inr\<close> the pipeline.\<close>

definition belya_agency_triage :: "'w agency \<Rightarrow> cstr \<Rightarrow> 'w \<Rightarrow> (cstr + cstr list) \<times> 'w" where
  "belya_agency_triage A user_input w =
     (let p = lskip is_json_ws user_input in
      if list_ex (ci_eq p) greetings then (Inl agency_greeting, w)
      else
        let (jev_role, w) = jev_decide_triage_role (agency_net A) (agency_jev A) (Some p) w in
        (case jev_role of None \<Rightarrow> Inr (classify_request p)
         | Some role_name \<Rightarrow>
           if role_name = ''direct'' then Inl agency_greeting
           else if role_name \<in> set [''architect'', ''builder'', ''tester'', ''reviewer''] then Inr [role_name]
           else Inr (classify_request p), w))"

definition rocket :: cstr where "rocket = [CHR 0xF0, CHR 0x9F, CHR 0x9A, CHR 0x80]"

fun role_chain :: "cstr \<Rightarrow> cstr list \<Rightarrow> cstr" where
  "role_chain sep [] = []"
| "role_chain sep [x] = x"
| "role_chain sep (x # y # ys) = x @ sep @ role_chain sep (y # ys)"

text \<open>The stages from number \<open>i\<close> on, with the report and the context so far.\<close>

fun run_stages ::
    "'w agency \<Rightarrow> BelyaAgentManifest list \<Rightarrow> cstr \<Rightarrow> nat \<Rightarrow> cstr list \<Rightarrow> cstr \<Rightarrow> cstr \<Rightarrow> 'w turn \<Rightarrow> cstr \<times> 'w turn" where
  "run_stages A rows prompt i [] report ctx s = (report, s)"
| "run_stages A rows prompt i (role_name # roles) report ctx s =
     (let (out, s) = belya_agency_dispatch_subagent A rows role_name prompt (Some ctx) s in
      run_stages A rows prompt (i + 1) roles
        (report @ ''--- Stage '' @ dec_text i @ '': '' @ role_name @ '' ---'' @ [LF] @ out @ [LF, LF])
        (ctx @ [LF] @ ''--- Stage '' @ dec_text i @ '' ('' @ role_name @ '') Output ---'' @ [LF] @ out @ [LF]) s)"

definition belya_agency_execute_pipeline ::
    "'w agency \<Rightarrow> BelyaAgentManifest list \<Rightarrow> cstr \<Rightarrow> cstr list \<Rightarrow> 'w turn \<Rightarrow> cstr option \<times> 'w turn" where
  "belya_agency_execute_pipeline A rows prompt pipeline s =
     (if pipeline = [] then (None, s)
      else let (report, s) = run_stages A rows prompt 1 pipeline
                 (rocket @ '' [Belya Agency Multi-Agent Pipeline: '' @ dec_text (length pipeline) @ '' Stages]'' @ [LF] @
                  ''Sequence: '' @ role_chain '' -> '' pipeline @ [LF, LF])
                 (''Original Mission: '' @ prompt @ [LF]) s in
        (Some report, s))"

section \<open>Lemmas: what a subagent adds to the trace\<close>

definition tool_names :: "BelyaHarness \<Rightarrow> cstr set" where
  "tool_names h = set (map tool_name (tools h))"

text \<open>\<open>keeps_names N W\<close>: no tool registers a tool whose name is not in \<open>N\<close>.\<close>

definition keeps_names :: "cstr set \<Rightarrow> 'w outside \<Rightarrow> bool" where
  "keeps_names N W \<longleftrightarrow>
     (\<forall>t n v h w. tool_names h \<subseteq> N \<longrightarrow> tool_names (fst (snd (run_tool W t n v h w))) \<subseteq> N)"

definition own_event :: "cstr set \<Rightarrow> event \<Rightarrow> bool" where
  "own_event N e = (case e of event.Ran n a \<Rightarrow> n \<in> N \<and> n \<notin> set starters | Delegated r d \<Rightarrow> False | _ \<Rightarrow> True)"

text \<open>\<open>within N s s'\<close>: the harness has only tools of \<open>N\<close> again, and the events added are calls of those.\<close>

definition within :: "cstr set \<Rightarrow> 'w turn \<Rightarrow> 'w turn \<Rightarrow> bool" where
  "within N s s' \<longleftrightarrow>
     (tool_names (hs s) \<subseteq> N \<longrightarrow>
        tool_names (hs s') \<subseteq> N \<and> (\<exists>es. trace s' = trace s @ es \<and> list_all (own_event N) es))"

lemma within_refl: "within N s s"
  by (simp add: within_def)

lemma within_trans [trans]: "within N s t \<Longrightarrow> within N t u \<Longrightarrow> within N s u"
  by (auto simp: within_def)

lemma tools_track [simp]: "tools (track_actions n h) = tools h"
  by (simp add: track_actions_def Let_def)

lemma tools_count [simp]: "tools (count_failure n a h) = tools h"
  by (simp add: count_failure_def Let_def)

lemma tools_note [simp]: "tools (note_cycle k h) = tools h"
  by (simp add: note_cycle_def)

lemma tools_record [simp]:
  "tools (snd (snd (belya_harness_record_tool_observation fs t name args obs h))) = tools h"
  unfolding belya_harness_record_tool_observation_def Let_def by (simp split: option.splits)

lemma within_result: "within N s (give_result W tc obs s)"
  by (simp add: within_def give_result_def log_event_def tool_names_def own_event_def)

lemma within_ran:
  assumes "n \<in> N" "n \<notin> set starters" "tool_names (hs s) \<subseteq> N \<Longrightarrow> tool_names h \<subseteq> N"
  shows "within N s (log_event (event.Ran n a) (s\<lparr>hs := h, world := w\<rparr>))"
  using assms by (simp add: within_def log_event_def own_event_def)

lemma within_model_step: "within N s (snd (model_step W s))"
  by (simp add: within_def model_step_def case_prod_unfold Let_def log_event_def tool_names_def own_event_def)

lemma sub_tool_found:
  assumes "sub_tool name h = Some t"
  shows "name \<in> tool_names h" "name \<notin> set starters"
proof -
  have f: "find_tool name h = Some t" and n: "name \<notin> set starters"
    using assms by (auto simp: sub_tool_def split: if_splits option.splits)
  then show "name \<in> tool_names h" "name \<notin> set starters"
    by (auto simp: find_tool_def find_Some_iff tool_names_def)
qed

lemma within_spawn_call:
  assumes "keeps_names N W"
  shows "within N (sub r) (sub (spawn_call W tc r))"
proof (cases "sub_tool (rc_name tc) (hs (sub r)) \<noteq> None \<and> tool_names (hs (sub r)) \<subseteq> N")
  case True
  then obtain t where t: "sub_tool (rc_name tc) (hs (sub r)) = Some t" by blast
  obtain obs h w where o: "run_tool W t (rc_name tc) (json_parse (Some (rc_args tc))) (hs (sub r)) (world (sub r)) = (obs, h, w)"
    by (metis prod_cases3)
  have "tool_names h \<subseteq> N"
    using assms True o unfolding keeps_names_def by (metis fst_conv snd_conv)
  then have "within N (sub r) (log_event (event.Ran (rc_name tc) (rc_args tc)) ((sub r)\<lparr>hs := h, world := w\<rparr>))"
    using sub_tool_found[OF t] True by (intro within_ran) auto
  from within_trans[OF this within_result] show ?thesis by (simp add: spawn_call_def t o)
next
  case False
  then show ?thesis using within_result[of N "sub r" W tc]
    by (cases "sub_tool (rc_name tc) (hs (sub r))") (simp_all add: spawn_call_def within_def)
qed

lemma within_dispatch_call:
  assumes "keeps_names N W"
  shows "within N (sub r) (sub (dispatch_call W tc r))"
proof (cases "sub_tool (rc_name tc) (hs (sub r)) \<noteq> None \<and> tool_names (hs (sub r)) \<subseteq> N")
  case True
  then obtain t where t: "sub_tool (rc_name tc) (hs (sub r)) = Some t" by blast
  obtain obs h w where o: "run_tool W t (rc_name tc) (json_parse (Some (rc_args tc))) (hs (sub r)) (world (sub r)) = (obs, h, w)"
    by (metis prod_cases3)
  obtain tripped alert h' where b:
    "belya_harness_record_tool_observation (files W w) (now W w) (rc_name tc) (Some (rc_args tc)) obs h = (tripped, alert, h')"
    by (metis prod_cases3)
  have "tool_names h \<subseteq> N"
    using assms True o unfolding keeps_names_def by (metis fst_conv snd_conv)
  then have "tool_names h' \<subseteq> N"
    using tools_record[of "files W w" "now W w" "rc_name tc" "Some (rc_args tc)" obs h] b by (simp add: tool_names_def)
  then have "within N (sub r) (log_event (event.Ran (rc_name tc) (rc_args tc)) ((sub r)\<lparr>hs := h', world := w\<rparr>))"
    using sub_tool_found[OF t] True by (intro within_ran) auto
  from within_trans[OF this within_result] show ?thesis by (simp add: dispatch_call_def t o b Let_def)
next
  case False
  then show ?thesis using within_result[of N "sub r" W tc]
    by (cases "sub_tool (rc_name tc) (hs (sub r))") (simp_all add: dispatch_call_def within_def)
qed

lemma within_calls:
  assumes "\<And>tc r. within N (sub r) (sub (call tc r))"
  shows "within N (sub r) (sub (fold call tcs r))"
proof (induction tcs arbitrary: r)
  case (Cons tc tcs)
  show ?case using within_trans[OF assms Cons.IH] by simp
qed (simp add: within_refl)

lemma sub_conclude [simp]: "sub (conclude_sub resp r) = sub r"
  by (simp add: conclude_sub_def split: option.split)

lemma within_loop:
  assumes "\<And>tc r. within N (sub r) (sub (call tc r))"
  shows "within N (sub r) (sub (sub_loop n W call r))"
proof (induction n arbitrary: r)
  case (Suc n)
  obtain resp s where m: "model_step W (sub r) = (resp, s)" by fastforce
  have s: "within N (sub r) s" using within_model_step[of N "sub r" W] by (simp add: m)
  have "within N s (sub (fold call tcs (r\<lparr>sub := s\<rparr>)))" for tcs
    using within_calls[where r = "r\<lparr>sub := s\<rparr>" and tcs = tcs, OF assms] by simp
  from within_trans[OF s within_trans[OF this Suc.IH]] s show ?case by (simp add: m Let_def)
qed (simp add: within_refl)

text \<open>What a subagent adds to its parent's trace.\<close>

definition delegated_event :: "cstr set \<Rightarrow> event \<Rightarrow> bool" where
  "delegated_event N e = (case e of Delegated r d \<Rightarrow> own_event N d | _ \<Rightarrow> False)"

definition delegates :: "cstr set \<Rightarrow> 'w turn \<Rightarrow> 'w turn \<Rightarrow> bool" where
  "delegates N s s' \<longleftrightarrow> (\<exists>es. trace s' = trace s @ es \<and> list_all (delegated_event N) es)"

lemma delegates_refl: "trace s' = trace s \<Longrightarrow> delegates N s s'"
  by (simp add: delegates_def)

lemma delegates_trans [trans]: "delegates N s t \<Longrightarrow> delegates N t u \<Longrightarrow> delegates N s u"
  by (auto simp: delegates_def)

lemma delegates_back:
  assumes "within N (sub (start_sub h task w)) (sub r)" "tool_names (core h) \<subseteq> N"
  shows "delegates N s (back_to_parent role_name r s)"
proof -
  have "tool_names (hs (sub (start_sub h task w))) \<subseteq> N" using assms(2) by (simp add: start_sub_def tool_names_def)
  with assms(1) obtain es where "trace (sub r) = es" "list_all (own_event N) es"
    by (auto simp: within_def start_sub_def)
  then have "list_all (delegated_event N) (map (Delegated role_name) (trace (sub r)))"
    by (simp add: list_all_iff delegated_event_def)
  then show ?thesis by (simp add: delegates_def back_to_parent_def)
qed

lemma rollback_trace [simp]: "trace (snd (rollback_guard A n hw f sha s)) = trace s"
  by (simp add: rollback_guard_def log_parent_def)

lemma dispatch_delegates:
  assumes "\<And>h m. keeps_names N (helper A h m)"
    and "\<And>m x. tool_names (core (role_harness A (resolve_manifest A rows role_name) role_name m x)) \<subseteq> N"
  shows "delegates N s (snd (belya_agency_dispatch_subagent A rows role_name task ctx s))"
proof (cases "parent_endpoint A = None")
  case False
  let ?m = "resolve_manifest A rows role_name"
  obtain sha w where sn: "snapshot A (writes (permitted_tools ?m)) (world s) = (sha, w)" by fastforce
  let ?r = "run_role A ?m role_name (model_of ?m (model (agent (hs s)))) task ctx w"
  have "within N (sub (start_sub (role_harness A ?m role_name (model_of ?m (model (agent (hs s)))) ctx) task w)) (sub ?r)"
    unfolding run_role_def Let_def by (intro within_loop within_dispatch_call assms(1))
  from delegates_back[OF this assms(2)] have "delegates N s (back_to_parent role_name ?r s)" .
  then show ?thesis using False
    by (simp add: belya_agency_dispatch_subagent_def sn Let_def case_prod_unfold delegates_def)
qed (simp add: belya_agency_dispatch_subagent_def delegates_refl)

lemma all_names: "keeps_names UNIV W" "tool_names h \<subseteq> UNIV"
  by (simp_all add: keeps_names_def)

lemma stages_delegate: "delegates UNIV s (snd (run_stages A rows prompt i roles report ctx s))"
proof (induction roles arbitrary: i report ctx s)
  case (Cons role_name roles)
  have "delegates UNIV s (snd (belya_agency_dispatch_subagent A rows role_name prompt (Some ctx) s))"
    by (rule dispatch_delegates) (simp_all add: all_names)
  from delegates_trans[OF this Cons.IH] show ?case by (simp add: case_prod_unfold Let_def)
qed (simp add: delegates_refl)

lemma pipeline_delegates: "delegates UNIV s (snd (belya_agency_execute_pipeline A rows prompt pipeline s))"
  by (simp add: belya_agency_execute_pipeline_def case_prod_unfold Let_def stages_delegate delegates_refl)

lemma pipeline_keeps:
  "messages (agent (hs (snd (belya_agency_execute_pipeline A rows prompt pipeline s)))) = messages (agent (hs s))"
proof -
  have d: "messages (agent (hs (snd (belya_agency_dispatch_subagent A rows n task ctx s)))) = messages (agent (hs s))" for n task ctx s
    by (simp add: belya_agency_dispatch_subagent_def case_prod_unfold Let_def rollback_guard_def log_parent_def
        back_to_parent_def belya_agent_log_timeline_def db_exec_def)
  have "messages (agent (hs (snd (run_stages A rows prompt i roles report ctx s)))) = messages (agent (hs s))" for i roles report ctx s
    by (induction roles arbitrary: i report ctx s) (simp_all add: d case_prod_unfold Let_def)
  then show ?thesis by (simp add: belya_agency_execute_pipeline_def case_prod_unfold Let_def)
qed


lemma core_role:
  "\<exists>a. core (role_harness A m role_name model_name ctx) = core (belya_harness_init_bounded (boot A) a (own_jev A)
     (Some (permitted_tools m)) (Some role_name) (captured A))"
  unfolding role_harness_def Let_def by (intro exI) simp

lemma role_names:
  "tool_names (core (role_harness A m role_name model_name ctx)) =
   {n \<in> set (map fst registrations). belya_harness_is_tool_whitelisted (Some (permitted_tools m)) (Some n)}"
proof -
  obtain a where "core (role_harness A m role_name model_name ctx) = core (belya_harness_init_bounded (boot A) a (own_jev A)
     (Some (permitted_tools m)) (Some role_name) (captured A))" using core_role by blast
  then have "map tool_name (tools (core (role_harness A m role_name model_name ctx))) =
      filter (\<lambda>n. belya_harness_is_tool_whitelisted (Some (permitted_tools m)) (Some n)) (map fst registrations)"
    using init_names by metis
  then have "tool_names (core (role_harness A m role_name model_name ctx)) =
      set (filter (\<lambda>n. belya_harness_is_tool_whitelisted (Some (permitted_tools m)) (Some n)) (map fst registrations))"
    unfolding tool_names_def set_map[symmetric] by (rule arg_cong)
  then show ?thesis by auto
qed

lemma registered_callbacks:
  "list_all has_callback (tools h) \<Longrightarrow> list_all has_callback (tools (fold (register_if_permitted wl) rs h))"
  by (induction rs arbitrary: h)
    (auto simp: register_if_permitted_def belya_harness_register_tool_def split: prod.split)

lemma role_callbacks: "list_all has_callback (tools (core (role_harness A m role_name model_name ctx)))"
proof -
  obtain a where "core (role_harness A m role_name model_name ctx) = core (belya_harness_init_bounded (boot A) a (own_jev A)
     (Some (permitted_tools m)) (Some role_name) (captured A))" using core_role by blast
  then show ?thesis by (simp add: belya_harness_init_bounded_def Let_def registered_callbacks blank_core_def)
qed

lemma role_finds:
  assumes "n \<in> set (map fst registrations)" "belya_harness_is_tool_whitelisted (Some (permitted_tools m)) (Some n)"
    and "n \<notin> set starters"
  shows "\<exists>t. sub_tool n (hs (sub (start_sub (role_harness A m role_name model_name ctx) task w))) = Some t"
proof -
  let ?h = "core (role_harness A m role_name model_name ctx)"
  have "n \<in> tool_names ?h" using assms(1,2) by (simp add: role_names)
  then obtain t where t: "find (\<lambda>t. tool_name t = n) (tools ?h) = Some t"
    by (cases "find (\<lambda>t. tool_name t = n) (tools ?h)") (auto simp: tool_names_def find_None_iff)
  then have "t \<in> set (tools ?h)" by (auto simp: find_Some_iff)
  then have "has_callback t" using role_callbacks[of A m role_name model_name ctx] by (auto simp: list_all_iff)
  with t assms(3) show ?thesis by (simp add: sub_tool_def find_tool_def start_sub_def)
qed

lemma calls_made:
  "model_calls (sub (spawn_call W tc r)) = model_calls (sub r)"
  "model_calls (sub (dispatch_call W tc r)) = model_calls (sub r)"
  by (simp_all add: spawn_call_def dispatch_call_def case_prod_unfold Let_def give_result_def log_event_def
      model_calls_def split: option.split)

lemma loop_calls:
  assumes "\<And>tc r. model_calls (sub (call tc r)) = model_calls (sub r)"
  shows "model_calls (sub (sub_loop n W call r)) \<le> model_calls (sub r) + n"
proof (induction n arbitrary: r)
  case (Suc n)
  obtain resp s where m: "model_step W (sub r) = (resp, s)" by fastforce
  have s: "model_calls s = Suc (model_calls (sub r))"
    using model_step_trace[of W "sub r"] by (simp add: m model_calls_def)
  have f: "model_calls (sub (fold call tcs r)) = model_calls (sub r)" for tcs r
    by (induction tcs arbitrary: r) (simp_all add: assms)
  show ?case using Suc.IH[of "fold call (resp_calls resp) (r\<lparr>sub := s\<rparr>)"] s f[of "resp_calls resp" "r\<lparr>sub := s\<rparr>"]
    by (simp add: m Let_def)
qed simp

section \<open>Properties\<close>

text \<open>A dispatched subagent stays in its role: where no tool registers a tool of another name, every call it
  makes is of a tool its manifest's whitelist permits, and none starts another subagent.\<close>

theorem subagent_stays_in_role:
  fixes A :: "'w agency" and rows role_name
  defines "wl \<equiv> Some (permitted_tools (resolve_manifest A rows role_name))"
  assumes "\<And>h m. keeps_names {n \<in> set (map fst registrations). belya_harness_is_tool_whitelisted wl (Some n)} (helper A h m)"
    and "trace (snd (belya_agency_dispatch_subagent A rows role_name task ctx s)) = trace s @ es"
    and "Delegated r (event.Ran n a) \<in> set es"
  shows "belya_harness_is_tool_whitelisted wl (Some n) \<and> n \<noteq> ''spawn_subagent'' \<and> n \<noteq> ''dispatch_agent''"
proof -
  have "delegates {n \<in> set (map fst registrations). belya_harness_is_tool_whitelisted wl (Some n)} s
      (snd (belya_agency_dispatch_subagent A rows role_name task ctx s))"
    by (rule dispatch_delegates[OF assms(2)]) (simp add: role_names wl_def)
  with assms(3) have "list_all (delegated_event {n \<in> set (map fst registrations). belya_harness_is_tool_whitelisted wl (Some n)}) es"
    by (auto simp: delegates_def)
  with assms(4) show ?thesis by (auto simp: list_all_iff delegated_event_def own_event_def starters_def)
qed

text \<open>An empty list of tools is no restriction: a role whose manifest names no tool gets all of them.\<close>

theorem empty_manifest_permits_all:
  assumes "permitted_tools m = []"
  shows "tool_names (core (role_harness A m role_name model_name ctx)) = set (map fst registrations)"
  using assms by (simp add: role_names belya_harness_is_tool_whitelisted_def)

lemma toolless_manifest:
  "map_option (\<lambda>fm. map mf_tools (manifest_entry ''critic.md'' fm []))
     (frontmatter_parse (Some (''---'' @ [LF] @ ''name: critic'' @ [LF] @ ''tools:'' @ [LF] @ ''---'' @ [LF] @ ''Look.''))) =
   Some [[]]"
  by code_simp

text \<open>A subagent runs what the classifier denies: a call of a tool the subagent's harness has runs in both
  kinds of loop whatever its arguments are.\<close>

theorem subagent_runs_any_call:
  assumes "sub_tool (rc_name tc) (hs (sub r)) = Some t"
  shows "event.Ran (rc_name tc) (rc_args tc) \<in> set (trace (sub (spawn_call W tc r))) \<and>
    event.Ran (rc_name tc) (rc_args tc) \<in> set (trace (sub (dispatch_call W tc r)))"
  using assms
  by (simp add: spawn_call_def dispatch_call_def case_prod_unfold Let_def give_result_def log_event_def)

definition wipe_call :: ReplyCall where
  "wipe_call = \<lparr>rc_id = Some ''c1'', rc_name = ''bash'',
     rc_args = ''{'' @ [DQ] @ ''command'' @ [DQ] @ '':'' @ [DQ] @ ''rm -rf /'' @ [DQ] @ ''}''\<rparr>"

theorem subagent_runs_denied_call:
  assumes "belya_harness_is_tool_whitelisted (Some (permitted_tools m)) (Some ''bash'')"
  shows "permission_classify (Some (rc_name wipe_call)) (Some (rc_args wipe_call)) = PERM_TIER_DENY \<and>
    event.Ran (rc_name wipe_call) (rc_args wipe_call) \<in>
      set (trace (sub (dispatch_call W wipe_call (start_sub (role_harness A m role_name model_name ctx) task w))))"
proof -
  have d: "permission_classify (Some (rc_name wipe_call)) (Some (rc_args wipe_call)) = PERM_TIER_DENY"
    unfolding wipe_call_def by code_simp
  have n: "rc_name wipe_call = ''bash''" by (simp add: wipe_call_def)
  have "''bash'' \<in> set (map fst registrations)" unfolding registration_names by simp
  then obtain t where "sub_tool (rc_name wipe_call) (hs (sub (start_sub (role_harness A m role_name model_name ctx) task w))) = Some t"
    using role_finds[OF _ assms, of A role_name model_name ctx task w] unfolding n by (auto simp: starters_def)
  with subagent_runs_any_call d show ?thesis by blast
qed

text \<open>A spawned subagent makes at most ten model calls, whatever number of turns the call asks for.\<close>

theorem spawned_subagent_is_bounded:
  "model_calls (sub (sub_loop (spawn_turns k) W (spawn_call W) (start_sub h task w))) \<le> 10"
proof -
  have "spawn_turns k \<le> 10" unfolding spawn_turns_def by simp linarith
  moreover have "model_calls (sub (start_sub h task w)) = 0" by (simp add: start_sub_def model_calls_def)
  ultimately show ?thesis
    using loop_calls[of "spawn_call W" "spawn_turns k" W "start_sub h task w"] calls_made(1) by fastforce
qed

end
