(* ===== verification/Channel.thy ===== *)
theory Channel
  imports Harness ModelAdapter JsonInt
begin

text \<open>
  The other channels, \<open>belya_channel.c\<close>: the Discord and Slack adapters, the routing of a message of a
  channel to the agent, and the polls the Telegram daemon makes for them before its own.

  The network is the record of the model adapter; a request without a body is a GET, its timeout is in
  seconds. A message's buffers hold 31, 127 and 4095 bytes. The static adapters of \<open>belya_omnichannel_poll_env\<close>
  and the static time stamp of the Slack poll are the record \<open>omni\<close>. A step of a channel runs on the turn of
  the harness model. The time stamp of a message, which nothing reads, and what is printed are left out.
\<close>

section \<open>Adapters\<close>

record BelyaDiscordAdapter =
  dc_token :: cstr
  dc_channel :: "cstr option"
  dc_session :: cstr
  heartbeat_interval_ms :: int
  last_sequence :: int
  dc_connected :: bool

record BelyaSlackAdapter =
  sl_token :: cstr
  sl_app_token :: "cstr option"
  sl_channel :: "cstr option"
  sl_connected :: bool

record BelyaChannelMessage =
  platform :: cstr
  channel_id :: cstr
  thread_id :: cstr
  user_id :: cstr
  user_name :: cstr
  msg_text :: cstr

datatype BelyaOmniChannel = BELYA_CHAN_DISCORD BelyaDiscordAdapter | BELYA_CHAN_SLACK BelyaSlackAdapter

definition belya_discord_init :: "cstr option \<Rightarrow> cstr option \<Rightarrow> BelyaDiscordAdapter option" where
  "belya_discord_init token allowed =
     map_option (\<lambda>t. \<lparr>dc_token = t, dc_channel = allowed, dc_session = [], heartbeat_interval_ms = 41250,
       last_sequence = 0, dc_connected = False\<rparr>) (nonempty token)"

definition belya_slack_init :: "cstr option \<Rightarrow> cstr option \<Rightarrow> cstr option \<Rightarrow> BelyaSlackAdapter option" where
  "belya_slack_init token app_token allowed =
     map_option (\<lambda>t. \<lparr>sl_token = t, sl_app_token = app_token, sl_channel = allowed, sl_connected = False\<rparr>) (nonempty token)"

definition mock_token :: "cstr \<Rightarrow> bool" where
  "mock_token t \<longleftrightarrow> has_prefix ''mock_'' t \<or> has_prefix ''test_'' t"

definition channel_post :: "'w network \<Rightarrow> http_request \<Rightarrow> 'w \<Rightarrow> bool \<times> 'w" where
  "channel_post W rq w =
     (if \<not> curl_ready W then (False, w)
      else let (out, w) = perform W rq w in
        (curl_code out = CURLE_OK \<and> 200 \<le> http_status out \<and> http_status out < 300, w))"

definition belya_discord_send_message ::
    "'w network \<Rightarrow> BelyaDiscordAdapter \<Rightarrow> cstr \<Rightarrow> cstr \<Rightarrow> 'w \<Rightarrow> bool \<times> 'w" where
  "belya_discord_send_message W tb chan msg w =
     (if mock_token (dc_token tb) then (True, w)
      else channel_post W
        \<lparr>req_url = Some (take 511 (''https://discord.com/api/v10/channels/'' @ chan @ ''/messages'')), req_agent = [],
         req_headers = [''Content-Type: application/json'', take 511 (''Authorization: Bot '' @ dc_token tb)],
         req_body = json_text (json_obj_add json_create_object ''content'' (json_create_string (Some msg))),
         req_timeout = 10\<rparr> w)"

definition belya_slack_send_message ::
    "'w network \<Rightarrow> BelyaSlackAdapter \<Rightarrow> cstr \<Rightarrow> cstr \<Rightarrow> 'w \<Rightarrow> bool \<times> 'w" where
  "belya_slack_send_message W tb chan msg w =
     (if mock_token (sl_token tb) then (True, w)
      else channel_post W
        \<lparr>req_url = Some ''https://slack.com/api/chat.postMessage'', req_agent = [],
         req_headers = [''Content-Type: application/json; charset=utf-8'', take 511 (''Authorization: Bearer '' @ sl_token tb)],
         req_body = json_text (json_obj_add (json_obj_add json_create_object ''channel'' (json_create_string (Some chan)))
                      ''text'' (json_create_string (Some msg))),
         req_timeout = 10\<rparr> w)"

definition belya_channel_create_discord :: "cstr option \<Rightarrow> cstr option \<Rightarrow> BelyaOmniChannel option" where
  "belya_channel_create_discord token chan = map_option BELYA_CHAN_DISCORD (belya_discord_init token chan)"

definition belya_channel_create_slack :: "cstr option \<Rightarrow> cstr option \<Rightarrow> cstr option \<Rightarrow> BelyaOmniChannel option" where
  "belya_channel_create_slack token app_token chan = map_option BELYA_CHAN_SLACK (belya_slack_init token app_token chan)"

definition belya_channel_send :: "'w network \<Rightarrow> BelyaOmniChannel option \<Rightarrow> cstr \<Rightarrow> cstr \<Rightarrow> 'w \<Rightarrow> bool \<times> 'w" where
  "belya_channel_send W chan target msg w =
     (case chan of None \<Rightarrow> (False, w)
      | Some (BELYA_CHAN_DISCORD tb) \<Rightarrow> belya_discord_send_message W tb target msg w
      | Some (BELYA_CHAN_SLACK tb) \<Rightarrow> belya_slack_send_message W tb target msg w)"

section \<open>Events\<close>

definition blank_message :: "cstr \<Rightarrow> BelyaChannelMessage" where
  "blank_message p = \<lparr>platform = p, channel_id = [], thread_id = [], user_id = [], user_name = [], msg_text = []\<rparr>"

text \<open>\<open>snprintf\<close> into a buffer of \<open>n + 1\<close> bytes that is empty so far, when the member is there.\<close>

definition field :: "nat \<Rightarrow> JsonValue option \<Rightarrow> cstr \<Rightarrow> cstr" where
  "field n obj key = (case json_obj_get_str obj key of None \<Rightarrow> [] | Some t \<Rightarrow> take n t)"

text \<open>\<open>None\<close>: a cast of a number that the type cannot hold, which is undefined. Else the message, when the
  event is one.\<close>

definition belya_discord_handle_event ::
    "BelyaDiscordAdapter \<Rightarrow> cstr \<Rightarrow> (BelyaChannelMessage option \<times> BelyaDiscordAdapter) option" where
  "belya_discord_handle_event tb event_json =
     (case json_parse (Some event_json) of None \<Rightarrow> Some (None, tb)
      | Some root \<Rightarrow>
        Option.bind (int_of_double (json_obj_get_num (Some root) ''op'' (double_of_int (-1)))) (\<lambda>op_code.
        Option.bind (long_of_double (json_obj_get_num (Some root) ''s'' (double_of_int 0))) (\<lambda>seq_no.
          let tb = (if seq_no > 0 then tb\<lparr>last_sequence := seq_no\<rparr> else tb); d = json_obj_get (Some root) ''d'' in
          if op_code = 10 then
            (if d = None then Some (None, tb)
             else map_option (\<lambda>ms. (None, tb\<lparr>heartbeat_interval_ms := ms, dc_connected := True\<rparr>))
                    (int_of_double (json_obj_get_num d ''heartbeat_interval'' (double_of_int 41250))))
          else if op_code = 0 \<and> json_obj_get_str (Some root) ''t'' = Some ''MESSAGE_CREATE'' \<and> d \<noteq> None then
            let author = json_obj_get d ''author'' in
            Some (Some \<lparr>platform = ''discord'', channel_id = field 127 d ''channel_id'',
                thread_id = field 127 (json_obj_get d ''thread'') ''id'', user_id = field 127 author ''id'',
                user_name = field 127 author ''username'', msg_text = field 4095 d ''content''\<rparr>, tb)
          else Some (None, tb))))"

definition ok_ack :: cstr where
  "ok_ack = ''{'' @ [DQ] @ ''ok'' @ [DQ] @ '':true}''"

text \<open>The acknowledgement is \<open>None\<close> where the code leaves the buffer alone; \<open>ack_sz\<close> is at least one.\<close>

definition belya_slack_handle_webhook :: "cstr \<Rightarrow> nat \<Rightarrow> BelyaChannelMessage option \<times> cstr option" where
  "belya_slack_handle_webhook payload_json ack_sz =
     (case json_parse (Some payload_json) of None \<Rightarrow> (None, None)
      | Some root \<Rightarrow>
        (case json_obj_get_str (Some root) ''type'' of None \<Rightarrow> (None, None)
         | Some kind \<Rightarrow>
           if kind = ''url_verification'' then
             (None, Some (take (ack_sz - 1) (''{'' @ [DQ] @ ''challenge'' @ [DQ] @ '':'' @ [DQ] @
                (case json_obj_get_str (Some root) ''challenge'' of None \<Rightarrow> [] | Some c \<Rightarrow> c) @ [DQ] @ ''}'')))
           else
             (if kind = ''event_callback''
              then map_option (\<lambda>e. \<lparr>platform = ''slack'', channel_id = field 127 (Some e) ''channel'',
                     thread_id = field 127 (Some e) ''thread_ts'', user_id = field 127 (Some e) ''user'', user_name = [],
                     msg_text = field 4095 (Some e) ''text''\<rparr>) (json_obj_get (Some root) ''event'')
              else None,
              Some (take (ack_sz - 1) ok_ack))))"

section \<open>Routing\<close>

definition belya_channel_get_session_id :: "BelyaChannelMessage \<Rightarrow> nat \<Rightarrow> cstr" where
  "belya_channel_get_session_id m out_sz =
     take (out_sz - 1)
       (platform m @ ''_'' @ channel_id m @ (if thread_id m \<noteq> [] then ''_'' @ thread_id m else []))"

definition channel_prompt :: "BelyaChannelMessage \<Rightarrow> cstr" where
  "channel_prompt m =
     take 8191 (''[User: '' @ (if user_name m \<noteq> [] then user_name m else ''anonymous'') @ '' (id: '' @
       (if user_id m \<noteq> [] then user_id m else ''unknown'') @ '')] '' @ msg_text m)"

definition change_agent :: "(BelyaAgent \<Rightarrow> BelyaAgent) \<Rightarrow> 'w turn \<Rightarrow> 'w turn" where
  "change_agent f s = s\<lparr>hs := (hs s)\<lparr>agent := f (agent (hs s))\<rparr>\<rparr>"

text \<open>One step of the model: its tool calls are stored with its reply and dropped.\<close>

definition belya_channel_route_message ::
    "'w network \<Rightarrow> 'w outside \<Rightarrow> (db_cmd list \<Rightarrow> cstr \<Rightarrow> session_row list) \<Rightarrow> BelyaOmniChannel option \<Rightarrow>
       BelyaChannelMessage \<Rightarrow> nat \<Rightarrow> 'w turn \<Rightarrow> cstr \<times> 'w turn" where
  "belya_channel_route_message N W rows chan m reply_sz s =
     (let sid = belya_channel_get_session_id m 256;
          s = change_agent (\<lambda>a. snd (belya_agent_load_session rows sid a)) s;
          s = change_agent (belya_agent_add_message ''user'' (Some (channel_prompt m))) s;
          (resp, s) = model_step W s;
          reply = take (reply_sz - 1) (case nonempty (resp_content resp) of Some t \<Rightarrow> t
            | None \<Rightarrow> ''I have received your request from '' @ platform m @ ''.'');
          s = change_agent (\<lambda>a. snd (belya_agent_save_session sid (Some sid) a)) s;
          w = (if chan \<noteq> None \<and> channel_id m \<noteq> [] then snd (belya_channel_send N chan (channel_id m) reply (world s))
               else world s) in
      (reply, s\<lparr>world := w\<rparr>))"

section \<open>Polling\<close>

definition channel_get :: "'w network \<Rightarrow> cstr \<Rightarrow> cstr \<Rightarrow> 'w \<Rightarrow> http_outcome option \<times> 'w" where
  "channel_get N url auth w =
     (if \<not> curl_ready N then (None, w)
      else let (out, w) = perform N \<lparr>req_url = Some (take 511 url), req_agent = [], req_headers = [take 511 auth],
                                     req_body = [], req_timeout = 8\<rparr> w in
        (if curl_code out = CURLE_OK then Some out else None, w))"

definition body_of :: "http_outcome \<Rightarrow> JsonValue option" where
  "body_of out = json_parse (Some (c_string (concat (reply_chunks out))))"

definition bot_header :: "cstr \<Rightarrow> cstr" where
  "bot_header tok = ''Authorization: Bot '' @ tok"

definition bearer_header :: "cstr \<Rightarrow> cstr" where
  "bearer_header tok = ''Authorization: Bearer '' @ tok"

definition discord_url :: "cstr \<Rightarrow> cstr \<Rightarrow> cstr" where
  "discord_url chan last_id = ''https://discord.com/api/v10/channels/'' @ chan @ ''/messages?'' @
     (if last_id \<noteq> [] then ''after='' @ last_id @ ''&limit=5'' else ''limit=1'')"

definition slack_url :: "cstr \<Rightarrow> cstr \<Rightarrow> cstr" where
  "slack_url chan last_ts = ''https://slack.com/api/conversations.history?channel='' @ chan @
     (if last_ts \<noteq> [] then ''&oldest='' @ last_ts @ ''&limit=5'' else ''&limit=1'')"

definition discord_message :: "cstr \<Rightarrow> JsonValue \<Rightarrow> BelyaChannelMessage" where
  "discord_message chan m =
     (let author = json_obj_get (Some m) ''author'' in
      \<lparr>platform = ''discord'', channel_id = take 127 chan, thread_id = [], user_id = field 127 author ''id'',
       user_name = field 127 author ''username'', msg_text = field 4095 (Some m) ''content''\<rparr>)"

definition discord_item ::
    "'w network \<Rightarrow> 'w outside \<Rightarrow> (db_cmd list \<Rightarrow> cstr \<Rightarrow> session_row list) \<Rightarrow> cstr \<Rightarrow> bool \<Rightarrow> JsonValue \<Rightarrow>
       bool \<times> BelyaDiscordAdapter \<times> 'w turn \<Rightarrow> bool \<times> BelyaDiscordAdapter \<times> 'w turn" where
  "discord_item N W rows chan first_seed m x =
     (case x of (handled, tb, s) \<Rightarrow>
        let tb = (case nonempty (json_obj_get_str (Some m) ''id'') of None \<Rightarrow> tb | Some i \<Rightarrow> tb\<lparr>dc_session := take 127 i\<rparr>);
            author = json_obj_get (Some m) ''author'' in
        if first_seed \<or> (author \<noteq> None \<and> json_obj_get_bool author ''bot'' False) \<or>
           nonempty (json_obj_get_str (Some m) ''content'') = None
        then (handled, tb, s)
        else (True, tb, snd (belya_channel_route_message N W rows (Some (BELYA_CHAN_DISCORD tb)) (discord_message chan m) 8192 s)))"

definition belya_discord_poll_once ::
    "'w network \<Rightarrow> 'w outside \<Rightarrow> (db_cmd list \<Rightarrow> cstr \<Rightarrow> session_row list) \<Rightarrow> BelyaDiscordAdapter \<times> 'w turn \<Rightarrow>
       bool \<times> BelyaDiscordAdapter \<times> 'w turn" where
  "belya_discord_poll_once N W rows x =
     (case x of (tb, s) \<Rightarrow>
        case nonempty (dc_channel tb) of None \<Rightarrow> (False, tb, s)
        | Some chan \<Rightarrow>
          if mock_token (dc_token tb) then (False, tb, s)
          else
            let (out, w) = channel_get N (discord_url chan (dc_session tb)) (bot_header (dc_token tb)) (world s);
                s = s\<lparr>world := w\<rparr> in
            case out of None \<Rightarrow> (False, tb, s)
            | Some reply \<Rightarrow>
              if http_status reply < 200 \<or> http_status reply \<ge> 300 then (False, tb, s)
              else (case body_of reply of
                  Some (JSON_ARRAY items) \<Rightarrow>
                    fold (discord_item N W rows chan (dc_session tb = [])) (rev items) (False, tb, s)
                | _ \<Rightarrow> (False, tb, s)))"

definition slack_message :: "cstr \<Rightarrow> JsonValue \<Rightarrow> BelyaChannelMessage" where
  "slack_message chan m =
     (let uid = take 127 (case json_obj_get_str (Some m) ''user'' of None \<Rightarrow> ''slack_user'' | Some u \<Rightarrow> u) in
      \<lparr>platform = ''slack'', channel_id = take 127 chan, thread_id = [], user_id = uid, user_name = uid,
       msg_text = field 4095 (Some m) ''text''\<rparr>)"

text \<open>The state is the last time stamp seen. A message with that time stamp is skipped at once.\<close>

definition slack_item ::
    "'w network \<Rightarrow> 'w outside \<Rightarrow> (db_cmd list \<Rightarrow> cstr \<Rightarrow> session_row list) \<Rightarrow> BelyaSlackAdapter \<Rightarrow> cstr \<Rightarrow> bool \<Rightarrow>
       JsonValue \<Rightarrow> bool \<times> cstr \<times> 'w turn \<Rightarrow> bool \<times> cstr \<times> 'w turn" where
  "slack_item N W rows tb chan first_seed m x =
     (case x of (handled, last_ts, s) \<Rightarrow>
        let ts = nonempty (json_obj_get_str (Some m) ''ts'') in
        if ts = Some last_ts then x
        else
          let last_ts = (case ts of None \<Rightarrow> last_ts | Some t \<Rightarrow> take 63 t) in
          if first_seed \<or> json_obj_get_str (Some m) ''bot_id'' \<noteq> None \<or> json_obj_get_str (Some m) ''subtype'' \<noteq> None \<or>
             nonempty (json_obj_get_str (Some m) ''text'') = None
          then (handled, last_ts, s)
          else (True, last_ts, snd (belya_channel_route_message N W rows (Some (BELYA_CHAN_SLACK tb)) (slack_message chan m) 8192 s)))"

definition belya_slack_poll_once ::
    "'w network \<Rightarrow> 'w outside \<Rightarrow> (db_cmd list \<Rightarrow> cstr \<Rightarrow> session_row list) \<Rightarrow> BelyaSlackAdapter \<Rightarrow> cstr \<times> 'w turn \<Rightarrow>
       bool \<times> cstr \<times> 'w turn" where
  "belya_slack_poll_once N W rows tb x =
     (case x of (last_ts, s) \<Rightarrow>
        case nonempty (sl_channel tb) of None \<Rightarrow> (False, last_ts, s)
        | Some chan \<Rightarrow>
          if mock_token (sl_token tb) then (False, last_ts, s)
          else
            let (out, w) = channel_get N (slack_url chan last_ts) (bearer_header (sl_token tb)) (world s);
                s = s\<lparr>world := w\<rparr>;
                root = Option.bind out body_of in
            if \<not> json_obj_get_bool root ''ok'' False then (False, last_ts, s)
            else (case json_obj_get root ''messages'' of
                Some (JSON_ARRAY items) \<Rightarrow>
                  fold (slack_item N W rows tb chan (last_ts = [])) (rev items) (False, last_ts, s)
              | _ \<Rightarrow> (False, last_ts, s)))"

record omni =
  omni_initialized :: bool
  s_discord :: "BelyaDiscordAdapter option"
  s_slack :: "BelyaSlackAdapter option"
  s_last_slack_ts :: cstr

definition new_omni :: omni where
  "new_omni = \<lparr>omni_initialized = False, s_discord = None, s_slack = None, s_last_slack_ts = []\<rparr>"

definition omni_start :: "(cstr \<Rightarrow> cstr option) \<Rightarrow> omni \<Rightarrow> omni" where
  "omni_start env om =
     (if omni_initialized om then om
      else om\<lparr>omni_initialized := True,
         s_discord := (case nonempty (env ''DISCORD_CHANNEL_ID'') of None \<Rightarrow> None
                       | c \<Rightarrow> belya_discord_init (env ''DISCORD_BOT_TOKEN'') c),
         s_slack := (case nonempty (env ''SLACK_CHANNEL_ID'') of None \<Rightarrow> None
                     | c \<Rightarrow> belya_slack_init (env ''SLACK_BOT_TOKEN'') (env ''SLACK_APP_TOKEN'') c)\<rparr>)"

definition belya_omnichannel_poll_env ::
    "'w network \<Rightarrow> 'w outside \<Rightarrow> (db_cmd list \<Rightarrow> cstr \<Rightarrow> session_row list) \<Rightarrow> omni \<times> 'w turn \<Rightarrow> omni \<times> 'w turn" where
  "belya_omnichannel_poll_env N W rows x =
     (let (om, s) = x; om = omni_start (env_var N) om;
          (om, s) = (case s_discord om of None \<Rightarrow> (om, s)
             | Some tb \<Rightarrow> let (_, tb, s) = belya_discord_poll_once N W rows (tb, s) in (om\<lparr>s_discord := Some tb\<rparr>, s)) in
      case s_slack om of None \<Rightarrow> (om, s)
      | Some tb \<Rightarrow> let (_, ts, s) = belya_slack_poll_once N W rows tb (s_last_slack_ts om, s) in
          (om\<lparr>s_last_slack_ts := ts\<rparr>, s))"

section \<open>Lemmas\<close>

text \<open>\<open>asks s s'\<close>: the trace grew by model calls only.\<close>

definition asks :: "'w turn \<Rightarrow> 'w turn \<Rightarrow> bool" where
  "asks s s' \<longleftrightarrow> (\<exists>k. trace s' = trace s @ replicate k Model_Call)"

lemma asks_same: "trace s' = trace s \<Longrightarrow> asks s s'"
  unfolding asks_def by (intro exI[of _ 0]) simp

lemma asks_plain [simp]: "asks s s" "asks s (s\<lparr>world := w\<rparr>)"
  by (simp_all add: asks_same)

lemma asks_trans [trans]: "asks s t \<Longrightarrow> asks t u \<Longrightarrow> asks s u"
  unfolding asks_def by (metis append.assoc replicate_add)

lemma change_agent_keeps [simp]:
  "trace (change_agent f s) = trace s" "world (change_agent f s) = world s"
  "agent (hs (change_agent f s)) = f (agent (hs s))"
  by (simp_all add: change_agent_def)

lemma route_trace: "trace (snd (belya_channel_route_message N W rows chan m n s)) = trace s @ [Model_Call]"
  by (simp add: belya_channel_route_message_def case_prod_unfold Let_def model_step_trace)

lemma route_asks: "asks s (snd (belya_channel_route_message N W rows chan m n s))"
  unfolding asks_def route_trace by (intro exI[of _ 1]) simp

lemma discord_item_asks: "asks (snd (snd x)) (snd (snd (discord_item N W rows chan seed m x)))"
  by (simp add: discord_item_def case_prod_unfold Let_def route_asks)

lemma discord_items_ask: "asks (snd (snd x)) (snd (snd (fold (discord_item N W rows chan seed) ms x)))"
proof (induction ms arbitrary: x)
  case (Cons m ms)
  from asks_trans[OF discord_item_asks Cons.IH] show ?case by simp
qed simp

lemma discord_poll_asks: "asks (snd x) (snd (snd (belya_discord_poll_once N W rows x)))"
proof -
  obtain tb s where x: "x = (tb, s)" by fastforce
  have i: "asks s (snd (snd (fold (discord_item N W rows chan seed) ms (False, tb, s\<lparr>world := w\<rparr>))))" for chan seed ms w
    using discord_items_ask[of "(False, tb, s\<lparr>world := w\<rparr>)"] by (simp add: asks_def)
  show ?thesis
    by (simp add: x belya_discord_poll_once_def case_prod_unfold Let_def i split: option.split JsonValue.split)
qed

lemma slack_item_asks: "asks (snd (snd x)) (snd (snd (slack_item N W rows tb chan seed m x)))"
  by (simp add: slack_item_def case_prod_unfold Let_def route_asks)

lemma slack_items_ask: "asks (snd (snd x)) (snd (snd (fold (slack_item N W rows tb chan seed) ms x)))"
proof (induction ms arbitrary: x)
  case (Cons m ms)
  from asks_trans[OF slack_item_asks Cons.IH] show ?case by simp
qed simp

lemma slack_poll_asks: "asks (snd x) (snd (snd (belya_slack_poll_once N W rows tb x)))"
proof -
  obtain ts s where x: "x = (ts, s)" by fastforce
  have i: "asks s (snd (snd (fold (slack_item N W rows tb chan seed) ms (False, ts, s\<lparr>world := w\<rparr>))))" for chan seed ms w
    using slack_items_ask[of "(False, ts, s\<lparr>world := w\<rparr>)"] by (simp add: asks_def)
  show ?thesis
    by (simp add: x belya_slack_poll_once_def case_prod_unfold Let_def i split: option.split JsonValue.split)
qed

lemma omni_poll_asks: "asks (snd x) (snd (belya_omnichannel_poll_env N W rows x))"
proof -
  obtain om s where x: "x = (om, s)" by fastforce
  have d: "asks s (snd (snd (belya_discord_poll_once N W rows (tb, s))))" for tb
    using discord_poll_asks[of "(tb, s)"] by simp
  have l: "asks u (snd (snd (belya_slack_poll_once N W rows tb (ts, u))))" for tb ts u
    using slack_poll_asks[of "(ts, u)"] by simp
  have "asks s (snd (snd (belya_slack_poll_once N W rows tb (ts, snd (snd (belya_discord_poll_once N W rows (tc, s)))))))" for tb ts tc
    by (rule asks_trans[OF d l])
  then show ?thesis
    by (simp add: x belya_omnichannel_poll_env_def case_prod_unfold Let_def d l split: option.split)
qed

text \<open>Without tokens in the environment no adapter is made and a poll does nothing.\<close>

lemma omni_poll_without_tokens:
  assumes "nonempty (env_var N ''DISCORD_BOT_TOKEN'') = None" "nonempty (env_var N ''SLACK_BOT_TOKEN'') = None"
    and "s_discord om = None" "s_slack om = None"
  shows "belya_omnichannel_poll_env N W rows (om, s) = (omni_start (env_var N) om, s)"
proof -
  have "s_discord (omni_start (env_var N) om) = None" "s_slack (omni_start (env_var N) om) = None"
    using assms by (simp_all add: omni_start_def belya_discord_init_def belya_slack_init_def split: option.split)
  then show ?thesis by (simp add: belya_omnichannel_poll_env_def)
qed

section \<open>Properties\<close>

text \<open>A message of a channel runs no tool: whatever the channels bring and the model asks for, a poll of all
  of them adds model calls to the trace and nothing else.\<close>

theorem channels_run_no_tool:
  "\<exists>k. trace (snd (belya_omnichannel_poll_env N W rows (om, s))) = trace s @ replicate k Model_Call"
  using omni_poll_asks[of "(om, s)" N W rows] by (simp add: asks_def)

text \<open>The calls a reply asks for stay unanswered in the conversation: after a message that the model wants to
  use a tool for, the history is one that providers reject, and it is saved as the session of the channel.\<close>

theorem channel_leaves_calls_pending:
  assumes "wellformed_replies W" and "sendable (messages (agent (hs s)))" and "pinned (messages (agent (hs s)))"
    and "messages (agent (hs s)) \<noteq> []" and "\<And>log i. rows log i = []"
    and "\<And>u. has_tool_call (fst (model_step W u)) \<and> resp_calls (fst (model_step W u)) \<noteq> []"
  shows "\<not> sendable (messages (agent (hs (snd (belya_channel_route_message N W rows chan m n s)))))"
proof -
  let ?u = "change_agent (belya_agent_add_message ''user'' (Some (channel_prompt m)))
     (change_agent (\<lambda>a. snd (belya_agent_load_session rows (belya_channel_get_session_id m 256) a)) s)"
  have "snd (belya_agent_load_session rows i a) = a" for i a
    by (simp add: belya_agent_load_session_def assms(5) split: option.split)
  then have c: "conv ?u = conv s @ [plain_message ''user'' (channel_prompt m)]"
    by (simp add: belya_agent_add_message_def)
  obtain resp u where ms: "model_step W ?u = (resp, u)" by fastforce
  have "conv_ok (conv ?u)" unfolding c by (rule conv_ok_add_user[OF assms(2-4)])
  from model_step_conv[OF this assms(1)] assms(6)[of ?u]
  have "pending [] (conv u) = Some (map call_ref (resp_calls resp))" "resp_calls resp \<noteq> []" by (simp_all add: ms)
  then have "\<not> sendable (conv u)" by (simp add: sendable_def)
  moreover have "messages (snd (belya_agent_save_session i t a)) = messages a" for i t a
    by (simp add: belya_agent_save_session_def belya_agent_log_timeline_def db_exec_def Let_def)
  ultimately show ?thesis by (simp add: belya_channel_route_message_def ms case_prod_unfold Let_def)
qed

definition asking_outside :: "ModelGatewayResponse list outside" where
  "asking_outside = sample_outside\<lparr>next_gateway := (\<lambda>w. (sample_gateway call_reply, sample_env, w))\<rparr>"

lemma asking_step: "fst (model_step asking_outside s) = call_reply"
proof -
  have "fst (belya_agent_step sample_env (sample_gateway call_reply) (\<lambda>_ _ _. []) a) = call_reply" for a
    by (simp add: belya_agent_step_def sample_gateway_def scavenge_fallback_def case_prod_unfold Let_def call_reply_def
        write_call_def transport_failure_def)
  then show ?thesis by (simp add: model_step_def asking_outside_def sample_outside_def case_prod_unfold Let_def)
qed

theorem channel_leaves_calls_pending_witness:
  "\<not> sendable (messages (agent (hs (snd (belya_channel_route_message N asking_outside (\<lambda>l i. []) None m n sample_turn)))))"
proof (rule channel_leaves_calls_pending)
  show "wellformed_replies asking_outside"
    by (auto simp: wellformed_replies_def asking_outside_def sample_outside_def belya_agent_step_def
        sample_gateway_def scavenge_fallback_def case_prod_unfold Let_def call_reply_def
        write_call_def transport_failure_def)
qed (simp_all add: asking_step call_reply_def sample_turn_def sample_harness_def sample_agent_def sendable_def pinned_def
    plain_message_def is_tool_def)

text \<open>The first poll of a channel only takes note of where it stands: no message is routed.\<close>

theorem first_discord_poll_only_seeds:
  assumes "dc_session tb = []"
  shows "fst (belya_discord_poll_once N W rows (tb, s)) = False \<and>
    hs (snd (snd (belya_discord_poll_once N W rows (tb, s)))) = hs s \<and>
    trace (snd (snd (belya_discord_poll_once N W rows (tb, s)))) = trace s"
proof -
  have f: "fst (fold (discord_item N W rows chan True) ms x) = fst x \<and>
      snd (snd (fold (discord_item N W rows chan True) ms x)) = snd (snd x)" for chan ms x
    by (induction ms arbitrary: x) (simp_all add: discord_item_def case_prod_unfold Let_def)
  show ?thesis
    by (simp add: belya_discord_poll_once_def assms case_prod_unfold Let_def f split: option.split JsonValue.split)
qed

end
