(* ===== verification/TelegramDaemon.thy ===== *)
theory TelegramDaemon
  imports Harness TelegramBot Subagents Channel
begin

text \<open>
  The Telegram daemon, \<open>telegram_bot_run\<close> of \<open>telegram_adapter.c\<close>: polling, the check of the sender, the
  commands, and the turn of a message with its live display, its approvals and its forced conclusion.

  The daemon's state is the world the harness model runs in: \<open>daemon_state\<close> over the world of the Bot API, with
  the static adapters of the other channels. The approver of the harness is \<open>telegram_permission_prompt\<close>. What a
  model call streams is the parameter \<open>deltas\<close>: pieces of text, each with what happens to the clock before
  it. \<open>/agency\<close> runs the subagents of Subagents, and each poll first runs the channels of Channel. The other commands
  (/start, /status, /cache, /skills, /checkpoint, /rollback, /timeline, /sessions, /reflect, /tools) read and report, or
  call git and the database, and none of them runs a tool of the harness: they are the parameter \<open>obey\<close>, which
  changes the harness and the state and leaves the trace. \<open>exit\<close> is the flag \<open>exited\<close>. \<open>cast_failed\<close> records that an
  identifier was cast that a \<open>long\<close> cannot hold, which is undefined.
\<close>

section \<open>State\<close>

record 'v daemon_state =
  the_bot :: TelegramBot
  turbo :: Turbo
  current_chat_id :: cstr
  live :: TelegramStream
  api :: 'v
  exited :: bool
  cast_failed :: bool
  omni_state :: omni

definition daemon_prompt ::
    "'v telegram_os \<Rightarrow> cstr \<Rightarrow> cstr \<Rightarrow> BelyaHarness \<Rightarrow> 'v daemon_state \<Rightarrow> bool \<times> BelyaHarness \<times> 'v daemon_state" where
  "daemon_prompt T name args h d =
     (case telegram_permission_prompt T (current_chat_id d) name args (the_bot d) (api d) of
        None \<Rightarrow> (False, h, d\<lparr>cast_failed := True\<rparr>)
      | Some (ok, tb, v) \<Rightarrow> (ok, h, d\<lparr>the_bot := tb, api := v\<rparr>))"

definition with_buttons :: "'v telegram_os \<Rightarrow> 'v daemon_state outside \<Rightarrow> 'v daemon_state outside" where
  "with_buttons T W = W\<lparr>prompt_fn := daemon_prompt T\<rparr>"

text \<open>An operation of the bot inside a turn.\<close>

definition by_bot :: "(TelegramBot \<Rightarrow> 'v \<Rightarrow> 'r \<times> 'v) \<Rightarrow> 'v daemon_state \<Rightarrow> 'r \<times> 'v daemon_state" where
  "by_bot f d = (let (r, v) = f (the_bot d) (api d) in (r, d\<lparr>api := v\<rparr>))"

definition in_world :: "('w \<Rightarrow> 'r \<times> 'w) \<Rightarrow> 'w turn \<Rightarrow> 'r \<times> 'w turn" where
  "in_world f s = (let (r, w) = f (world s) in (r, s\<lparr>world := w\<rparr>))"

section \<open>One tool call\<close>

definition zap :: cstr where "zap = [CHR 0xE2, CHR 0x9A, CHR 0xA1]"

type_synonym status = "cdouble \<times> cstr"

definition show_status ::
    "'v telegram_os \<Rightarrow> cstr \<Rightarrow> cstr \<Rightarrow> status \<Rightarrow> 'v daemon_state \<Rightarrow> status \<times> 'v daemon_state" where
  "show_status T chat name st d =
     (let (mid, shown) = st; msg = take 255 (zap @ '' Running '' @ [BQ] @ name @ [BQ] @ ''...'') in
      if double_is0 mid then
        let (mid, d) = by_bot (\<lambda>tb. telegram_bot_send_status_message T tb chat msg) d in ((mid, msg), d)
      else if shown \<noteq> msg then
        let (_, d) = by_bot (\<lambda>tb. telegram_bot_edit_message T tb chat mid msg) d in ((mid, msg), d)
      else (st, d))"

definition daemon_call ::
    "'v telegram_os \<Rightarrow> 'v daemon_state outside \<Rightarrow> cstr \<Rightarrow> ReplyCall \<Rightarrow> status \<times> 'v daemon_state turn \<Rightarrow>
       status \<times> 'v daemon_state turn" where
  "daemon_call T W chat tc x =
     (let (st, s) = x;
          (st, s) = in_world (show_status T chat (rc_name tc) st) s in
      if find_tool (rc_name tc) (hs s) = None then (st, telegram_handle_call W 0 tc s)
      else
        let (on, t) = turbo_active T (api (world s)) (turbo (world s)) in
        (st, telegram_handle_call W (if on then 1 else 0) tc (s\<lparr>world := (world s)\<lparr>turbo := t\<rparr>\<rparr>)))"

section \<open>A turn\<close>

record 'v stage =
  deltas :: "'v daemon_state \<Rightarrow> (('v \<Rightarrow> 'v) \<times> cstr \<times> bool) list"
  synthesis :: "'v daemon_state \<Rightarrow> ModelGateway \<times> step_env \<times> 'v daemon_state"

definition stream_delta ::
    "'v telegram_os \<Rightarrow> ('v \<Rightarrow> 'v) \<times> cstr \<times> bool \<Rightarrow> 'v daemon_state \<Rightarrow> 'v daemon_state" where
  "stream_delta T x d =
     (case x of (wait, chunk, is_reasoning) \<Rightarrow>
        let (s, v) = telegram_stream_cb T (the_bot d) chunk is_reasoning (live d) (wait (api d)) in
        d\<lparr>live := s, api := v\<rparr>)"

definition daemon_step ::
    "'v telegram_os \<Rightarrow> 'v stage \<Rightarrow> 'v daemon_state outside \<Rightarrow> cstr \<Rightarrow> 'v daemon_state turn \<Rightarrow>
       ModelGatewayResponse \<times> 'v daemon_state turn" where
  "daemon_step T G W chat s =
     (let (_, s) = in_world (by_bot (\<lambda>tb. telegram_bot_send_chat_action T tb chat ''typing'')) s;
          (resp, s) = model_step W s in
      (resp, s\<lparr>world := fold (stream_delta T) (deltas G (world s)) (world s)\<rparr>))"

definition synthesis_request :: cstr where
  "synthesis_request =
     ''Synthesize your complete, detailed answer and findings to the user now without calling any more tools.''"

definition daemon_conclude ::
    "'v telegram_os \<Rightarrow> 'v stage \<Rightarrow> cstr \<Rightarrow> 'v daemon_state turn \<Rightarrow> cstr option \<times> 'v daemon_state turn" where
  "daemon_conclude T G chat s =
     (let (_, s) = in_world (by_bot (\<lambda>tb. telegram_bot_send_chat_action T tb chat ''typing'')) s;
          (gw, env, w) = synthesis G (world s);
          (resp, a) = belya_agent_step_forced_text env gw synthesis_request (agent (hs s));
          w = fold (stream_delta T) (deltas G w) w in
      (nonempty (resp_content resp), log_event Model_Call (s\<lparr>hs := (hs s)\<lparr>agent := a\<rparr>, world := w\<rparr>)))"

definition guard_due :: "BelyaHarness \<Rightarrow> bool" where
  "guard_due h \<longleftrightarrow> files_modified_in_turn h \<and> \<not> verification_performed_in_turn h \<and> \<not> verification_guard_tripped h"

definition add_partial :: "cstr \<Rightarrow> cstr option \<Rightarrow> cstr" where
  "add_partial acc c = (case nonempty c of None \<Rightarrow> acc | Some t \<Rightarrow> (if acc \<noteq> [] then acc @ [LF, LF] else []) @ t)"

text \<open>The loop: \<open>Suc n\<close> steps may be made, so \<open>n\<close> is \<open>max_steps\<close> inside. The result is the final text, the
  partial explanations and the status message.\<close>

fun daemon_loop ::
    "nat \<Rightarrow> 'v telegram_os \<Rightarrow> 'v stage \<Rightarrow> 'v daemon_state outside \<Rightarrow> cstr \<Rightarrow> cstr \<Rightarrow> status \<Rightarrow> 'v daemon_state turn \<Rightarrow>
       (cstr option \<times> cstr \<times> status) \<times> 'v daemon_state turn" where
  "daemon_loop 0 T G W chat acc st s = ((None, acc, st), s)"
| "daemon_loop (Suc n) T G W chat acc st s =
     (let (resp, s) = daemon_step T G W chat s in
      if \<not> has_tool_call resp then
        if guard_due (hs s) \<and> n > 1
        then daemon_loop n T G W chat acc st
               (s\<lparr>hs := (hs s)\<lparr>verification_guard_tripped := True,
                  agent := belya_agent_add_message ''user'' (Some guard_nudge) (agent (hs s))\<rparr>\<rparr>)
        else ((nonempty (resp_content resp), acc, st), s)
      else
        let acc = add_partial acc (resp_content resp);
            (st, s) = fold (daemon_call T W chat) (resp_calls resp) (st, s) in
        if n \<le> 1
        then let (final, s) = daemon_conclude T G chat s in ((final, acc, st), s)
        else daemon_loop n T G W chat acc st s)"

definition MAX_STEPS :: nat where "MAX_STEPS = 10"

definition save_active :: "BelyaAgent \<Rightarrow> BelyaAgent" where
  "save_active a =
     (if db a = None then a else snd (belya_agent_save_session ''telegram_active'' (Some ''Active Telegram Session'') a))"

definition daemon_turn ::
    "'v telegram_os \<Rightarrow> 'v stage \<Rightarrow> 'v daemon_state outside \<Rightarrow> cstr \<Rightarrow> cstr \<Rightarrow> 'v daemon_state turn \<Rightarrow> 'v daemon_state turn" where
  "daemon_turn T G W chat msg s =
     (let h = (hs s)\<lparr>agent := belya_agent_add_message ''user'' (Some msg) (agent (hs s))\<rparr>;
          s = s\<lparr>hs := belya_harness_reset_turn_state h, world := (world s)\<lparr>live := new_live chat\<rparr>\<rparr>;
          ((final, acc, mid, _), s) = daemon_loop MAX_STEPS T G W chat [] (zero, []) s;
          s = (if double_gt0 mid
               then snd (in_world (by_bot (\<lambda>tb. telegram_bot_delete_message T tb chat mid)) s) else s);
          final_text = (case final of Some t \<Rightarrow> Some t | None \<Rightarrow> nonempty (Some acc));
          s = s\<lparr>world := (world s)\<lparr>api := telegram_deliver T (the_bot (world s)) chat (live (world s)) final_text
                  (api (world s))\<rparr>\<rparr> in
      s\<lparr>hs := (hs s)\<lparr>agent := save_active (agent (hs s))\<rparr>\<rparr>)"

section \<open>Commands\<close>

datatype tg_action =
    TStart | TTurbo cstr | TStatus | TCache | TSkills cstr | TCheckpoint cstr | TRollback "cstr option" | TTimeline
  | TSessions | TSave cstr | TResume cstr | TReflect | TTools | TClear | TCompact | TRestart | TAgency cstr | TTurn

definition argument :: "nat \<Rightarrow> cstr \<Rightarrow> cstr" where
  "argument n s = dropWhile (\<lambda>c. c = CHR '' '') (drop n s)"

definition or_else :: "cstr \<Rightarrow> cstr \<Rightarrow> cstr" where
  "or_else d s = (if s = [] then d else s)"

definition telegram_dispatch :: "cstr \<Rightarrow> tg_action" where
  "telegram_dispatch s =
     (if s = ''/start'' \<or> s = ''/help'' then TStart
      else if has_prefix ''/turbo'' s then TTurbo (argument 6 s)
      else if s = ''/status'' then TStatus
      else if s = ''/cache'' then TCache
      else if has_prefix ''/skills'' s then TSkills (argument 7 s)
      else if has_prefix ''/checkpoint'' s then TCheckpoint (or_else ''telegram_manual'' (argument 11 s))
      else if has_prefix ''/rollback'' s then TRollback (nonempty (Some (argument 9 s)))
      else if s = ''/timeline'' then TTimeline
      else if s = ''/sessions'' then TSessions
      else if has_prefix ''/save'' s then TSave (or_else ''telegram_session'' (argument 5 s))
      else if has_prefix ''/resume'' s then TResume (argument 7 s)
      else if s = ''/reflect'' then TReflect
      else if s = ''/tools'' then TTools
      else if s = ''/clear'' \<or> s = ''/reset'' \<or> s = ''/new'' then TClear
      else if s = ''/compact'' then TCompact
      else if s = ''/restart'' then TRestart
      else if has_prefix ''/agency'' s then TAgency (argument 7 s)
      else TTurn)"

record 'v commands =
  obey :: "tg_action \<Rightarrow> cstr \<Rightarrow> BelyaHarness \<Rightarrow> 'v daemon_state \<Rightarrow> BelyaHarness \<times> 'v daemon_state"
  stored_rows :: "db_cmd list \<Rightarrow> cstr \<Rightarrow> session_row list"
  agency_of :: "'v daemon_state agency"
  manifest_rows :: "BelyaAgentManifest list"

definition reply_to :: "'v telegram_os \<Rightarrow> cstr \<Rightarrow> cstr \<Rightarrow> 'v daemon_state turn \<Rightarrow> 'v daemon_state turn" where
  "reply_to T chat msg s = snd (in_world (by_bot (\<lambda>tb. telegram_bot_send_message T tb chat msg)) s)"

definition floppy :: cstr where "floppy = [CHR 0xF0, CHR 0x9F, CHR 0x92, CHR 0xBE]"
definition folder :: cstr where "folder = [CHR 0xF0, CHR 0x9F, CHR 0x93, CHR 0x82]"
definition broom :: cstr where "broom = [CHR 0xF0, CHR 0x9F, CHR 0xA7, CHR 0xB9]"
definition package :: cstr where "package = [CHR 0xF0, CHR 0x9F, CHR 0x93, CHR 0xA6]"
definition cycle :: cstr where "cycle = [CHR 0xF0, CHR 0x9F, CHR 0x94, CHR 0x84]"

definition daemon_save :: "'v telegram_os \<Rightarrow> cstr \<Rightarrow> cstr \<Rightarrow> 'v daemon_state turn \<Rightarrow> 'v daemon_state turn" where
  "daemon_save T chat sid s =
     (let (ok, a) = belya_agent_save_session sid (Some sid) (agent (hs s)); s = change_agent (\<lambda>_. a) s in
      reply_to T chat
        (if ok then take 255 (floppy @ '' Session <code>'' @ take 128 sid @ ''</code> saved to database.'')
         else cross @ '' Failed to save session.'') s)"

definition daemon_resume ::
    "'v telegram_os \<Rightarrow> 'v commands \<Rightarrow> cstr \<Rightarrow> cstr \<Rightarrow> 'v daemon_state turn \<Rightarrow> 'v daemon_state turn" where
  "daemon_resume T C chat sid s =
     (if sid = [] then reply_to T chat ''Usage: /resume <session_id>'' s
      else let (ok, a) = belya_agent_load_session (stored_rows C) sid (agent (hs s)); s = change_agent (\<lambda>_. a) s in
        reply_to T chat
          (if ok then take 255 (folder @ '' Session <code>'' @ take 128 sid @ ''</code> loaded ('' @
                 dec_text (length (messages a)) @ '' messages restored).'')
           else cross @ '' Session not found.'') s)"

definition classical_building :: cstr where
  "classical_building = [CHR 0xF0, CHR 0x9F, CHR 0x8F, CHR 0x9B, CHR 0xEF, CHR 0xB8, CHR 0x8F]"

definition agency_help :: "BelyaAgentManifest list \<Rightarrow> cstr" where
  "agency_help rows = classical_building @ '' <b>Belya Agency Architecture:</b>'' @ [LF, LF] @ belya_agent_list_manifests rows @
     [LF] @ ''Usage: <code>/agency &lt;task description&gt;</code>''"

definition chunks_to :: "'v telegram_os \<Rightarrow> cstr \<Rightarrow> cstr \<Rightarrow> 'v daemon_state turn \<Rightarrow> 'v daemon_state turn" where
  "chunks_to T chat msg s = snd (in_world (by_bot (\<lambda>tb. telegram_bot_send_chunks T tb chat msg)) s)"

text \<open>\<open>/agency\<close>: the subagents run inside this command; no approval is asked for what they do.\<close>

definition daemon_agency ::
    "'v telegram_os \<Rightarrow> 'v commands \<Rightarrow> cstr \<Rightarrow> cstr \<Rightarrow> 'v daemon_state turn \<Rightarrow> 'v daemon_state turn" where
  "daemon_agency T C chat task s =
     (if task = [] then chunks_to T chat
          (if db (agent (hs s)) = None
           then classical_building @ '' <b>Belya Agency Architecture:</b>'' @ [LF, LF] @ ''No subagents registered.'' @ [LF] @
             [LF] @ ''Usage: <code>/agency &lt;task description&gt;</code>''
           else agency_help (manifest_rows C)) s
      else
        let s = reply_to T chat (rocket @ '' Dispatching Belya Agency Chief-of-Staff triage and pipeline...'') s;
            (verdict, d) = belya_agency_triage (agency_of C) task (world s); s = s\<lparr>world := d\<rparr> in
        case verdict of
          Inl direct \<Rightarrow> reply_to T chat direct s
        | Inr pipeline \<Rightarrow>
            let (report, s) = belya_agency_execute_pipeline (agency_of C) (manifest_rows C) task pipeline s in
            (case report of None \<Rightarrow> s | Some t \<Rightarrow> chunks_to T chat t s))"

definition daemon_obey ::
    "'v telegram_os \<Rightarrow> 'v stage \<Rightarrow> 'v commands \<Rightarrow> 'v daemon_state outside \<Rightarrow> cstr \<Rightarrow> cstr \<Rightarrow> 'v daemon_state turn \<Rightarrow>
       'v daemon_state turn" where
  "daemon_obey T G C W chat msg s =
     (case telegram_dispatch msg of
        TTurn \<Rightarrow> daemon_turn T G W chat msg s
      | TTurbo arg \<Rightarrow>
          let d = world s; (answer_text, t, v) = turbo_command T arg (turbo d) (api d) in
          reply_to T chat answer_text (s\<lparr>world := d\<lparr>turbo := t, api := v\<rparr>\<rparr>)
      | TSave sid \<Rightarrow> daemon_save T chat sid s
      | TResume sid \<Rightarrow> daemon_resume T C chat sid s
      | TClear \<Rightarrow> reply_to T chat
          (broom @ '' Session reset. Conversation history cleared (system prompt and persistent SQLite memory preserved).'')
          (change_agent (\<lambda>a. snd (belya_agent_save_session ''telegram_active'' (Some ''Active Telegram Session'')
             (belya_agent_clear_history a))) s)
      | TCompact \<Rightarrow>
          let s = change_agent (belya_agent_compact_history 10) s in
          reply_to T chat (take 127 (package @ '' History compacted to '' @ dec_text (length (messages (agent (hs s)))) @
            '' messages.'')) s
      | TRestart \<Rightarrow>
          let s = reply_to T chat (cycle @ '' Reloading Belya service via systemd (launching updated binary)...'') s in
          s\<lparr>world := (world s)\<lparr>exited := True\<rparr>\<rparr>
      | TAgency task \<Rightarrow> daemon_agency T C chat task s
      | act \<Rightarrow> let (h, d) = obey C act chat (hs s) (world s) in s\<lparr>hs := h, world := d\<rparr>)"

section \<open>Updates\<close>

definition refusal_text :: "cstr \<Rightarrow> cstr" where
  "refusal_text chat = take 255 (no_entry @ '' <b>Access Denied:</b> Your Telegram Chat ID (<code>'' @ chat @
     ''</code>) is not authorized on this VPS.'')"

definition chat_of :: "JsonValue \<Rightarrow> cstr" where
  "chat_of chat = take 63 (fixed0 (json_obj_get_num (Some chat) ''id'' zero))"

definition note_update :: "JsonValue \<Rightarrow> 'v daemon_state \<Rightarrow> 'v daemon_state" where
  "note_update up d =
     (case update_id up of None \<Rightarrow> d\<lparr>cast_failed := True\<rparr>
      | Some u \<Rightarrow> if u > last_update_id (the_bot d) then d\<lparr>the_bot := (the_bot d)\<lparr>last_update_id := u\<rparr>\<rparr> else d)"

definition handle_update ::
    "'v telegram_os \<Rightarrow> 'v stage \<Rightarrow> 'v commands \<Rightarrow> 'v daemon_state outside \<Rightarrow> JsonValue \<Rightarrow> 'v daemon_state turn \<Rightarrow>
       'v daemon_state turn" where
  "handle_update T G C W up s =
     (if exited (world s) then s
      else
        let s = s\<lparr>world := note_update up (world s)\<rparr>; msg = json_obj_get (Some up) ''message'' in
        case json_obj_get msg ''chat'' of None \<Rightarrow> s
        | Some chat_obj \<Rightarrow>
          let chat = chat_of chat_obj in
          (case nonempty (json_obj_get_str msg ''text'') of None \<Rightarrow> s
           | Some txt \<Rightarrow>
             if \<not> telegram_is_authorized (the_bot (world s)) chat then reply_to T chat (refusal_text chat) s
             else daemon_obey T G C W chat txt (s\<lparr>world := (world s)\<lparr>current_chat_id := chat\<rparr>\<rparr>)))"

text \<open>The channels use the network the bot uses.\<close>

definition over_api :: "'v telegram_os \<Rightarrow> 'v daemon_state network" where
  "over_api T = \<lparr>perform = (\<lambda>rq d. let (out, v) = perform T rq (api d) in (out, d\<lparr>api := v\<rparr>)), curl_ready = curl_ready T,
     curl_strerror = curl_strerror T, env_var = env_var T, stdout_tty = stdout_tty T\<rparr>"

definition poll_channels ::
    "'v telegram_os \<Rightarrow> 'v commands \<Rightarrow> 'v daemon_state outside \<Rightarrow> 'v daemon_state turn \<Rightarrow> 'v daemon_state turn" where
  "poll_channels T C W s =
     (let (om, s) = belya_omnichannel_poll_env (over_api T) W (stored_rows C) (omni_state (world s), s) in
      s\<lparr>world := (world s)\<lparr>omni_state := om\<rparr>\<rparr>)"

definition poll_round ::
    "'v telegram_os \<Rightarrow> 'v stage \<Rightarrow> 'v commands \<Rightarrow> 'v daemon_state outside \<Rightarrow> 'v daemon_state turn \<Rightarrow> 'v daemon_state turn" where
  "poll_round T G C W s =
     (let s = poll_channels T C W s;
          (resp, s) = in_world (by_bot (\<lambda>tb. telegram_http_post T tb ''getUpdates'' (updates_payload tb 5))) s in
      fold (handle_update T G C W) (received resp) s)"

text \<open>The daemon for at most \<open>n\<close> polls; it stops when a command exits the process.\<close>

fun poll_rounds ::
    "nat \<Rightarrow> 'v telegram_os \<Rightarrow> 'v stage \<Rightarrow> 'v commands \<Rightarrow> 'v daemon_state outside \<Rightarrow> 'v daemon_state turn \<Rightarrow> 'v daemon_state turn" where
  "poll_rounds 0 T G C W s = s"
| "poll_rounds (Suc n) T G C W s =
     (if exited (world s) then s else poll_rounds n T G C W (poll_round T G C W s))"

definition telegram_bot_run ::
    "nat \<Rightarrow> 'v telegram_os \<Rightarrow> 'v stage \<Rightarrow> 'v commands \<Rightarrow> 'v daemon_state outside \<Rightarrow> 'v daemon_state turn \<Rightarrow> 'v daemon_state turn" where
  "telegram_bot_run n T G C W s =
     (let d = world s in
      poll_rounds n T G C (with_buttons T W)
        (s\<lparr>hs := (hs s)\<lparr>has_prompt_fn := True\<rparr>,
           world := d\<lparr>the_bot := (the_bot d)\<lparr>running := True\<rparr>, current_chat_id := []\<rparr>\<rparr>))"

section \<open>Lemmas: what an operation leaves alone\<close>

lemma in_world_keeps [simp]:
  "hs (snd (in_world f s)) = hs s" "trace (snd (in_world f s)) = trace s"
  by (simp_all add: in_world_def case_prod_unfold Let_def)

lemma in_world_world: "world (snd (in_world f s)) = snd (f (world s))"
  by (simp add: in_world_def case_prod_unfold Let_def)

lemma by_bot_keeps [simp]:
  "the_bot (snd (by_bot f d)) = the_bot d" "turbo (snd (by_bot f d)) = turbo d"
  "current_chat_id (snd (by_bot f d)) = current_chat_id d" "live (snd (by_bot f d)) = live d"
  "exited (snd (by_bot f d)) = exited d"
  by (simp_all add: by_bot_def case_prod_unfold Let_def)

lemma reply_to_keeps [simp]:
  "hs (reply_to T chat msg s) = hs s" "trace (reply_to T chat msg s) = trace s"
  "the_bot (world (reply_to T chat msg s)) = the_bot (world s)" "turbo (world (reply_to T chat msg s)) = turbo (world s)"
  "current_chat_id (world (reply_to T chat msg s)) = current_chat_id (world s)"
  "exited (world (reply_to T chat msg s)) = exited (world s)"
  by (simp_all add: reply_to_def in_world_world)

lemma note_update_keeps [simp]:
  "turbo (note_update up d) = turbo d" "current_chat_id (note_update up d) = current_chat_id d"
  "exited (note_update up d) = exited d" "allowed_chat_id (the_bot (note_update up d)) = allowed_chat_id (the_bot d)"
  "bot_token (the_bot (note_update up d)) = bot_token (the_bot d)" "api (note_update up d) = api d"
  by (auto simp: note_update_def split: option.splits)

lemma authorized_same: "allowed_chat_id a = allowed_chat_id b \<Longrightarrow> telegram_is_authorized a c = telegram_is_authorized b c"
  by (simp add: telegram_is_authorized_def)

lemma daemon_step_parts:
  "hs (snd (daemon_step T G W chat s)) = hs (snd (model_step W (snd (in_world (by_bot
     (\<lambda>tb. telegram_bot_send_chat_action T tb chat ''typing'')) s))))"
  "trace (snd (daemon_step T G W chat s)) = trace s @ [Model_Call]"
  "fst (daemon_step T G W chat s) = fst (model_step W (snd (in_world (by_bot
     (\<lambda>tb. telegram_bot_send_chat_action T tb chat ''typing'')) s)))"
  by (simp_all add: daemon_step_def case_prod_unfold Let_def model_step_trace)

lemma daemon_call_shape:
  "\<exists>t s1. snd (daemon_call T W chat tc (st, s)) = telegram_handle_call W t tc s1 \<and> hs s1 = hs s \<and> trace s1 = trace s"
proof -
  have h: "hs (snd (in_world (show_status T chat (rc_name tc) st) s)) = hs s"
    "trace (snd (in_world (show_status T chat (rc_name tc) st) s)) = trace s" by simp_all
  show ?thesis
    by (simp add: daemon_call_def case_prod_unfold Let_def) (use h in \<open>force\<close>)
qed

lemma daemon_conclude_trace: "trace (snd (daemon_conclude T G chat s)) = trace s @ [Model_Call]"
  by (simp add: daemon_conclude_def case_prod_unfold Let_def log_event_def)

section \<open>Lemmas: the trace\<close>

definition safe_event :: "event \<Rightarrow> bool" where
  "safe_event e = (case e of event.Ran n a \<Rightarrow> not_denied n a | Delegated r d \<Rightarrow> own_event UNIV d | _ \<Rightarrow> True)"

definition safe_trace :: "'w turn \<Rightarrow> bool" where
  "safe_trace s \<longleftrightarrow> list_all safe_event (trace s)"

lemma safe_extends: "extends not_denied s s' \<Longrightarrow> safe_trace s \<Longrightarrow> safe_trace s'"
proof -
  assume "extends not_denied s s'" and s: "safe_trace s"
  then obtain es where es: "trace s' = trace s @ es" "\<forall>r d. Delegated r d \<notin> set es"
      "\<forall>n a. event.Ran n a \<in> set es \<longrightarrow> not_denied n a" by (auto simp: extends_def)
  have "safe_event e" if "e \<in> set es" for e using es(2,3) that by (cases e) (auto simp: safe_event_def)
  with s es(1) show ?thesis by (auto simp: safe_trace_def list_all_iff)
qed

lemma safe_delegates: "delegates UNIV s s' \<Longrightarrow> safe_trace s \<Longrightarrow> safe_trace s'"
proof -
  have "delegated_event UNIV e \<Longrightarrow> safe_event e" for e by (cases e) (simp_all add: delegated_event_def safe_event_def)
  then show "delegates UNIV s s' \<Longrightarrow> safe_trace s \<Longrightarrow> safe_trace s'"
    by (auto simp: delegates_def safe_trace_def list_all_iff)
qed

lemma safe_asks: "asks s s' \<Longrightarrow> safe_trace s \<Longrightarrow> safe_trace s'"
  by (auto simp: asks_def safe_trace_def list_all_iff safe_event_def)

lemma safe_same: "trace s' = trace s \<Longrightarrow> safe_trace s' = safe_trace s"
  by (simp add: safe_trace_def)

lemma safe_model_call: "trace s' = trace s @ [Model_Call] \<Longrightarrow> safe_trace s' = safe_trace s"
  by (simp add: safe_trace_def safe_event_def)

lemma extends_daemon_call: "extends not_denied s (snd (daemon_call T W chat tc (st, s)))"
proof -
  obtain t s1 where "snd (daemon_call T W chat tc (st, s)) = telegram_handle_call W t tc s1" "trace s1 = trace s"
    using daemon_call_shape by blast
  then show ?thesis using extends_telegram[of s1 W t tc] by (simp add: extends_def)
qed

lemma extends_daemon_calls: "extends not_denied s (snd (fold (daemon_call T W chat) tcs (st, s)))"
proof (induction tcs arbitrary: st s)
  case (Cons tc tcs)
  obtain st1 s1 where d: "daemon_call T W chat tc (st, s) = (st1, s1)" by fastforce
  have "extends not_denied s s1" using extends_daemon_call[of s T W chat tc st] by (simp add: d)
  also have "extends not_denied s1 (snd (fold (daemon_call T W chat) tcs (st1, s1)))" by (rule Cons.IH)
  finally show ?case by (simp add: d)
qed simp

lemma daemon_loop_trace:
  "(safe_trace s \<longrightarrow> safe_trace (snd (daemon_loop n T G W chat acc st s))) \<and>
   (n \<ge> 2 \<longrightarrow> model_calls (snd (daemon_loop n T G W chat acc st s)) \<le> model_calls s + n)"
proof (induction n arbitrary: acc st s)
  case (Suc n)
  obtain resp s1 where ds: "daemon_step T G W chat s = (resp, s1)" by fastforce
  have t1: "trace s1 = trace s @ [Model_Call]" using daemon_step_parts(2)[of T G W chat s] by (simp add: ds)
  then have m1: "model_calls s1 = Suc (model_calls s)" "safe_trace s1 = safe_trace s"
    using safe_model_call[OF t1] by (simp_all add: model_calls_def)
  obtain st2 s2 where f: "fold (daemon_call T W chat) (resp_calls resp) (st, s1) = (st2, s2)" by fastforce
  have e: "extends not_denied s1 s2" using extends_daemon_calls[of s1 T W chat "resp_calls resp" st] by (simp add: f)
  obtain final s3 where c: "daemon_conclude T G chat s2 = (final, s3)" by fastforce
  have t3: "trace s3 = trace s2 @ [Model_Call]" using daemon_conclude_trace[of T G chat s2] by (simp add: c)
  let ?n = "s1\<lparr>hs := (hs s1)\<lparr>verification_guard_tripped := True,
    agent := belya_agent_add_message ''user'' (Some guard_nudge) (agent (hs s1))\<rparr>\<rparr>"
  have n: "safe_trace ?n = safe_trace s1" "model_calls ?n = model_calls s1" by (simp_all add: safe_trace_def model_calls_def)
  have e2: "model_calls s2 = model_calls s1" "safe_trace s1 \<Longrightarrow> safe_trace s2"
    using model_calls_extends[OF e] safe_extends[OF e] by auto
  have e3: "model_calls s3 = Suc (model_calls s2)" "safe_trace s3 = safe_trace s2"
    using t3 safe_model_call[OF t3] by (simp_all add: model_calls_def)
  show ?case
    using Suc.IH[where acc = acc and st = st and s = ?n]
      Suc.IH[where acc = "add_partial acc (resp_content resp)" and st = st2 and s = s2] n m1 e2 e3
    by (auto simp: ds f c Let_def)
qed simp

lemma deliver_keeps [simp]:
  "trace (s\<lparr>world := w\<rparr>) = trace s" "trace (s\<lparr>hs := h\<rparr>) = trace s" "trace (chunks_to T chat msg s) = trace s"
  by (simp_all add: chunks_to_def)

lemma daemon_turn_trace:
  "(safe_trace s \<longrightarrow> safe_trace (daemon_turn T G W chat msg s)) \<and>
   model_calls (daemon_turn T G W chat msg s) \<le> model_calls s + 10"
proof -
  let ?h = "(hs s)\<lparr>agent := belya_agent_add_message ''user'' (Some msg) (agent (hs s))\<rparr>"
  let ?s = "s\<lparr>hs := belya_harness_reset_turn_state ?h, world := (world s)\<lparr>live := new_live chat\<rparr>\<rparr>"
  obtain final acc mid shown s1 where l:
    "daemon_loop MAX_STEPS T G W chat [] (zero, []) ?s = ((final, acc, mid, shown), s1)" by (metis prod.exhaust)
  have t: "trace (daemon_turn T G W chat msg s) = trace s1"
    by (simp add: daemon_turn_def Let_def l)
  have "(safe_trace ?s \<longrightarrow> safe_trace s1) \<and> model_calls s1 \<le> model_calls ?s + 10"
    using daemon_loop_trace[of ?s MAX_STEPS T G W chat "[]" "(zero, [])", unfolded l snd_conv] by (simp add: MAX_STEPS_def)
  then show ?thesis using t by (simp add: safe_trace_def model_calls_def)
qed

lemma daemon_agency_safe: "safe_trace s \<Longrightarrow> safe_trace (daemon_agency T C chat task s)"
proof -
  assume s: "safe_trace s"
  have p: "safe_trace (snd (belya_agency_execute_pipeline A rows task pl u))" if "trace u = trace s" for A rows pl and u :: "'a daemon_state turn"
    by (rule safe_delegates[OF pipeline_delegates]) (use s safe_same[OF that] in simp)
  show ?thesis
    using s p by (simp add: daemon_agency_def case_prod_unfold Let_def safe_trace_def split: sum.split option.split)
qed

lemma daemon_obey_safe: "safe_trace s \<Longrightarrow> safe_trace (daemon_obey T G C W chat msg s)"
proof (cases "telegram_dispatch msg")
  case TTurn
  assume "safe_trace s"
  then show ?thesis using daemon_turn_trace[of s T G W chat msg] by (simp add: daemon_obey_def TTurn)
next
  case (TAgency task)
  assume "safe_trace s"
  then show ?thesis by (simp add: daemon_obey_def TAgency daemon_agency_safe)
qed (simp_all add: daemon_obey_def daemon_save_def daemon_resume_def case_prod_unfold Let_def safe_trace_def)

lemma handle_update_safe: "safe_trace s \<Longrightarrow> safe_trace (handle_update T G C W up s)"
  by (auto simp: handle_update_def Let_def safe_trace_def[of "reply_to _ _ _ _"] split: option.split
      intro!: daemon_obey_safe) (simp_all add: safe_trace_def)

lemma handle_updates_safe: "safe_trace s \<Longrightarrow> safe_trace (fold (handle_update T G C W) ups s)"
  by (induction ups arbitrary: s) (simp_all add: handle_update_safe)

lemma poll_channels_safe: "safe_trace s \<Longrightarrow> safe_trace (poll_channels T C W s)"
proof -
  assume "safe_trace s"
  moreover have "asks s (snd (belya_omnichannel_poll_env (over_api T) W (stored_rows C) (omni_state (world s), s)))"
    using omni_poll_asks[of "(omni_state (world s), s)"] by simp
  ultimately have "safe_trace (snd (belya_omnichannel_poll_env (over_api T) W (stored_rows C) (omni_state (world s), s)))"
    by (rule safe_asks[rotated])
  then show ?thesis by (simp add: poll_channels_def case_prod_unfold Let_def safe_trace_def)
qed

lemma poll_round_safe: "safe_trace s \<Longrightarrow> safe_trace (poll_round T G C W s)"
  unfolding poll_round_def Let_def case_prod_unfold
  by (rule handle_updates_safe) (use poll_channels_safe in \<open>simp add: safe_trace_def\<close>)

lemma poll_rounds_safe: "safe_trace s \<Longrightarrow> safe_trace (poll_rounds n T G C W s)"
  by (induction n arbitrary: s) (simp_all add: poll_round_safe)

section \<open>Lemmas: the conversation\<close>

lemma buttons_leave_history: "leaves_history W \<Longrightarrow> leaves_history (with_buttons T W)"
  by (auto simp: leaves_history_def with_buttons_def daemon_prompt_def split: option.split)

lemma buttons_wellformed: "wellformed_replies (with_buttons T W) = wellformed_replies W"
  by (simp add: wellformed_replies_def with_buttons_def)

lemma answers_telegram_run: "answers tc s (telegram_run W m tc s')" if "leaves_history W" "conv s' = conv s"
proof (cases "json_parse (Some (rc_args tc))")
  case None
  then show ?thesis by (simp add: telegram_run_def answers_add_result that)
next
  case (Some v)
  show ?thesis unfolding telegram_run_def Let_def case_prod_unfold Some option.case
    by (rule answers_add_result) (use that in \<open>simp add: log_event_def leaves_history_def\<close>)
qed

lemma answers_telegram: "answers tc s (telegram_handle_call W t tc s')" if "leaves_history W" "conv s' = conv s"
proof -
  have p: "conv (log_event e (s'\<lparr>hs := fst (snd (prompt_fn W n a (hs s') w)), world := w'\<rparr>)) = conv s" for e n a w w'
    using that by (simp add: log_event_def leaves_history_def)
  have q: "conv (log_event e s') = conv s" for e
    using that by (simp add: log_event_def)
  show ?thesis
  proof (cases "find_tool (rc_name tc) (hs s')")
    case None
    then show ?thesis by (simp add: telegram_handle_call_def Let_def answers_add_result that)
  next
    case (Some m)
    then show ?thesis
      by (simp add: telegram_handle_call_def case_prod_unfold Let_def answers_add_result
          answers_telegram_run[OF that(1)] p q that(2))
  qed
qed

lemma answers_daemon_call:
  assumes "leaves_history W"
  shows "answers tc s (snd (daemon_call T W chat tc (st, s)))"
proof -
  obtain t s1 where "snd (daemon_call T W chat tc (st, s)) = telegram_handle_call W t tc s1" "hs s1 = hs s"
    using daemon_call_shape by blast
  then show ?thesis using answers_telegram[OF assms, of s1 s tc t] by simp
qed

lemma answers_daemon_calls:
  assumes "leaves_history W" and "pending [] (conv s) = Some (map call_ref tcs)"
  shows "sendable (conv (snd (fold (daemon_call T W chat) tcs (st, s)))) \<and>
    (\<exists>ms. conv (snd (fold (daemon_call T W chat) tcs (st, s))) = conv s @ ms)"
  using assms(2)
proof (induction tcs arbitrary: st s)
  case (Cons tc tcs)
  obtain st1 s1 where d: "daemon_call T W chat tc (st, s) = (st1, s1)" by fastforce
  have a: "answers tc s s1" using answers_daemon_call[OF assms(1), of tc s T chat st] by (simp add: d)
  have "pending [] (conv s1) = Some (map call_ref tcs)"
    by (rule pending_answers[OF a]) (use Cons.prems in simp)
  from Cons.IH[OF this, of st1] a show ?case by (auto simp: d answers_def)
qed (simp add: sendable_def)

lemma daemon_step_conv:
  assumes "conv_ok (conv s)" "wellformed_replies W" "daemon_step T G W chat s = (resp, s')"
  shows "2 \<le> length (conv s') \<and> pinned (conv s') \<and>
    (if has_tool_call resp then pending [] (conv s') = Some (map call_ref (resp_calls resp)) else sendable (conv s'))"
proof -
  let ?s = "snd (in_world (by_bot (\<lambda>tb. telegram_bot_send_chat_action T tb chat ''typing'')) s)"
  have "hs s' = hs (snd (model_step W ?s))" "resp = fst (model_step W ?s)"
    using daemon_step_parts(1,3)[of T G W chat s] assms(3) by simp_all
  moreover have "conv_ok (conv ?s)" using assms(1) by simp
  ultimately show ?thesis using model_step_conv[of ?s W] assms(2) by (simp add: case_prod_unfold)
qed

lemma conclude_conv:
  assumes "conv_ok (conv s)"
  shows "conv_ok (conv (snd (daemon_conclude T G chat s)))"
proof -
  let ?s = "snd (in_world (by_bot (\<lambda>tb. telegram_bot_send_chat_action T tb chat ''typing'')) s)"
  obtain gw env w where g: "synthesis G (world ?s) = (gw, env, w)" by (metis prod_cases3)
  have "synthesis_request \<noteq> []" by (simp add: synthesis_request_def)
  then obtain t where "conv (snd (daemon_conclude T G chat s)) =
      conv s @ [plain_message ''user'' synthesis_request, plain_message ''assistant'' t]"
    by (simp add: daemon_conclude_def case_prod_unfold Let_def log_event_def forced_text_messages)
  then show ?thesis using assms
    by (simp add: conv_ok_def sendable_def pending_append plain_message_def is_tool_def pinned_append)
qed

lemma daemon_loop_conv:
  assumes "leaves_history W" "wellformed_replies W"
  shows "conv_ok (conv s) \<Longrightarrow> conv_ok (conv (snd (daemon_loop n T G W chat acc st s)))"
proof (induction n arbitrary: acc st s)
  case (Suc n)
  obtain resp s' where ms: "daemon_step T G W chat s = (resp, s')" by fastforce
  with daemon_step_conv[OF Suc.prems assms(2)] have m: "2 \<le> length (conv s')" "pinned (conv s')"
    "has_tool_call resp \<Longrightarrow> pending [] (conv s') = Some (map call_ref (resp_calls resp))"
    "\<not> has_tool_call resp \<Longrightarrow> sendable (conv s')"
    by auto
  show ?case
  proof (cases "has_tool_call resp")
    case True
    obtain st2 s2 where f: "fold (daemon_call T W chat) (resp_calls resp) (st, s') = (st2, s2)" by fastforce
    from answers_daemon_calls[OF assms(1) m(3)[OF True], of T chat st] obtain xs
      where "sendable (conv s2)" "conv s2 = conv s' @ xs" by (auto simp: f)
    with m(1,2) have ok: "conv_ok (conv s2)" by (simp add: conv_ok_def pinned_append)
    then show ?thesis using Suc.IH[OF ok] conclude_conv[OF ok, of T G chat] True ms f
      by (simp add: case_prod_unfold Let_def)
  next
    case False
    have "conv_ok (conv s' @ [plain_message ''user'' guard_nudge])"
      using m(1,2) m(4)[OF False] by (intro conv_ok_add_user) auto
    moreover have "conv_ok (conv s')" using m(1,2) m(4)[OF False] by (simp add: conv_ok_def)
    ultimately show ?thesis using Suc.IH False ms by (simp add: belya_agent_add_message_def)
  qed
qed simp

section \<open>Lemmas: restarting\<close>

text \<open>\<open>awaiting T up P\<close>: while \<open>P\<close> holds of the Bot API, a bot that has acknowledged nothing is given \<open>up\<close>
  first, and neither polling nor sending a message changes that. An update is acknowledged by the offset of a
  later poll only, which is what the API documents.\<close>

definition awaiting :: "'v telegram_os \<Rightarrow> JsonValue \<Rightarrow> ('v \<Rightarrow> bool) \<Rightarrow> bool" where
  "awaiting T up P \<longleftrightarrow>
     (\<forall>tb v. P v \<and> last_update_id tb = 0 \<longrightarrow>
        (case telegram_http_post T tb ''getUpdates'' (updates_payload tb 5) v of
           (r, v') \<Rightarrow> (\<exists>ups. received r = up # ups) \<and> P v')) \<and>
     (\<forall>tb v p. P v \<longrightarrow> P (snd (telegram_http_post T tb ''sendMessage'' p v)))"

definition restart_update :: "JsonValue \<Rightarrow> TelegramBot \<Rightarrow> bool" where
  "restart_update up tb \<longleftrightarrow>
     (\<exists>c. json_obj_get (json_obj_get (Some up) ''message'') ''chat'' = Some c \<and> telegram_is_authorized tb (chat_of c) \<and>
        json_obj_get_str (json_obj_get (Some up) ''message'') ''text'' = Some ''/restart'')"

text \<open>A new process: the bot has acknowledged nothing.\<close>

definition new_process :: "TelegramBot \<Rightarrow> 'v daemon_state turn \<Rightarrow> 'v daemon_state turn" where
  "new_process tb s =
     s\<lparr>world := (world s)\<lparr>the_bot := tb\<lparr>last_update_id := 0\<rparr>, exited := False, omni_state := new_omni\<rparr>\<rparr>"

lemma send_message_keeps:
  assumes "awaiting T up P" "P v"
  shows "P (snd (telegram_bot_send_message T tb chat msg v))"
proof -
  have k: "P v1 \<Longrightarrow> P (snd (telegram_http_post T tb ''sendMessage'' p v1))" for v1 p
    using assms(1) by (auto simp: awaiting_def)
  from assms(2) show ?thesis
    by (auto simp: telegram_bot_send_message_def case_prod_unfold Let_def intro!: k)
qed

lemma handle_updates_exited: "exited (world s) \<Longrightarrow> fold (handle_update T G C W) ups s = s"
  by (induction ups) (simp_all add: handle_update_def)

lemma restart_dispatch: "telegram_dispatch ''/restart'' = TRestart"
  by code_simp

lemma handle_restart:
  assumes "awaiting T up P" "P (api (world s))" "restart_update up (the_bot (world s))" "\<not> exited (world s)"
  shows "exited (world (handle_update T G C W up s)) \<and> P (api (world (handle_update T G C W up s))) \<and>
    hs (handle_update T G C W up s) = hs s"
proof -
  obtain c where c: "json_obj_get (json_obj_get (Some up) ''message'') ''chat'' = Some c"
      "telegram_is_authorized (the_bot (world s)) (chat_of c)"
      "json_obj_get_str (json_obj_get (Some up) ''message'') ''text'' = Some ''/restart''"
    using assms(3) by (auto simp: restart_update_def)
  have a: "telegram_is_authorized (the_bot (note_update up (world s))) (chat_of c)"
    using c(2) authorized_same[of "the_bot (note_update up (world s))" "the_bot (world s)"] by simp
  let ?s = "s\<lparr>world := (note_update up (world s))\<lparr>current_chat_id := chat_of c\<rparr>\<rparr>"
  have "handle_update T G C W up s = daemon_obey T G C W (chat_of c) ''/restart'' ?s"
    using assms(4) c(1,3) a by (simp add: handle_update_def nonempty_def Let_def)
  then show ?thesis
    using send_message_keeps[OF assms(1), of "api (world s)"] assms(2)
    by (simp add: daemon_obey_def restart_dispatch Let_def reply_to_def in_world_world by_bot_def case_prod_unfold)
qed

text \<open>Neither Discord nor Slack is configured.\<close>

definition no_channels :: "'v telegram_os \<Rightarrow> bool" where
  "no_channels T \<longleftrightarrow>
     nonempty (env_var T ''DISCORD_BOT_TOKEN'') = None \<and> nonempty (env_var T ''SLACK_BOT_TOKEN'') = None"

lemma poll_channels_idle:
  assumes "no_channels T" "s_discord (omni_state (world s)) = None" "s_slack (omni_state (world s)) = None"
  shows "poll_channels T C W s = s\<lparr>world := (world s)\<lparr>omni_state := omni_start (env_var T) (omni_state (world s))\<rparr>\<rparr>"
proof -
  have e: "env_var (over_api T) = env_var T" by (simp add: over_api_def)
  show ?thesis using assms
    by (simp add: poll_channels_def no_channels_def omni_poll_without_tokens[of "over_api T"] e)
qed

lemma poll_restart:
  assumes "awaiting T up P" "P (api (world s))" "restart_update up (the_bot (world s))" "\<not> exited (world s)"
    and "last_update_id (the_bot (world s)) = 0" and "no_channels T"
    and "s_discord (omni_state (world s)) = None" and "s_slack (omni_state (world s)) = None"
  shows "exited (world (poll_round T G C W s)) \<and> P (api (world (poll_round T G C W s))) \<and> hs (poll_round T G C W s) = hs s"
proof -
  let ?tb = "the_bot (world s)"
  obtain r v where r: "telegram_http_post T ?tb ''getUpdates'' (updates_payload ?tb 5) (api (world s)) = (r, v)" by fastforce
  then obtain ups where ups: "received r = up # ups" "P v"
    using assms(1,2,5) by (fastforce simp: awaiting_def)
  let ?s = "s\<lparr>world := (world s)\<lparr>omni_state := omni_start (env_var T) (omni_state (world s)), api := v\<rparr>\<rparr>"
  have "poll_round T G C W s = fold (handle_update T G C W) (up # ups) ?s"
    by (simp add: poll_round_def poll_channels_idle[OF assms(6-8)] in_world_def by_bot_def r ups(1))
  moreover have h: "exited (world (handle_update T G C W up ?s)) \<and> P (api (world (handle_update T G C W up ?s))) \<and>
      hs (handle_update T G C W up ?s) = hs ?s"
    by (rule handle_restart[OF assms(1)]) (use ups(2) assms(3,4) in simp_all)
  ultimately show ?thesis by (simp add: handle_updates_exited)
qed

text \<open>A daemon for examples.\<close>

definition restart_message :: "nat \<Rightarrow> JsonValue" where
  "restart_message chat = JSON_OBJECT [(''update_id'', number 9), (''message'', JSON_OBJECT
     [(''chat'', JSON_OBJECT [(''id'', number chat)]), (''text'', JSON_STRING ''/restart'')])]"

definition restart_reply :: JsonValue where
  "restart_reply = JSON_OBJECT [(''ok'', JSON_BOOL True), (''result'', JSON_ARRAY [restart_message 42])]"

definition quiet_stage :: "nat stage" where
  "quiet_stage = \<lparr>deltas = (\<lambda>d. []), synthesis = (\<lambda>d. (sample_gateway (text_reply ''done''), sample_env, d))\<rparr>"

text \<open>A model that asks for the same call for ever.\<close>

definition eager_outside :: "nat daemon_state outside" where
  "eager_outside = \<lparr>next_gateway = (\<lambda>w. (sample_gateway call_reply, sample_env, w)),
     scavenge = (\<lambda>_ _ _. []), prompt_fn = (\<lambda>_ _ h w. (True, h, w)),
     terminal = (\<lambda>_ _ w. (True, TUI_ACTION_APPLY, w)), has_jev = False,
     jev_check_tool_risk = (\<lambda>_ _ w. (None, w)), pre_tool_hook = (\<lambda>_ _ w. ((False, None), w)),
     post_tool_hook = (\<lambda>_ _ _ w. w), run_tool = (\<lambda>_ _ _ h w. (Some ''ok'', h, w)),
     now = (\<lambda>_. 0), files = (\<lambda>_ _. None), output_limit = None\<rparr>"

definition bare_boot :: init_os where
  "bare_boot = \<lparr>env_value_of = (\<lambda>_. None), start_dir = None, canonical = (\<lambda>_. None), tool_dir = None, read_file = (\<lambda>_. None)\<rparr>"

definition sample_agency :: "nat daemon_state outside \<Rightarrow> nat daemon_state agency" where
  "sample_agency W = \<lparr>boot = bare_boot, captured = None, packs_text = [], skills_text = None, workspace = ''/w'',
     parent_endpoint = Some ''https://openrouter.ai/api'', agency_net = over_api (scripted JSON_NULL JSON_NULL), agency_jev = None,
     fts_route = (\<lambda>_. None), like_route = (\<lambda>_. None), helper = (\<lambda>_ _. W), head_sha = (\<lambda>d. ([], d)),
     restore_tracked = (\<lambda>_ d. d)\<rparr>"

definition reviewer_row :: BelyaAgentManifest where
  "reviewer_row = \<lparr>mf_name = ''reviewer'', mf_role = ''Reviewer'', mf_tools = ''bash,read_file'', mf_model = ''inherit'',
     mf_turns = 5, mf_instructions = ''Review.''\<rparr>"

definition commands_with :: "nat daemon_state outside \<Rightarrow> nat commands" where
  "commands_with W = \<lparr>obey = (\<lambda>act chat h d. (h, d)), stored_rows = (\<lambda>l i. []), agency_of = sample_agency W,
     manifest_rows = [reviewer_row]\<rparr>"

definition plain_commands :: "nat commands" where "plain_commands = commands_with eager_outside"

definition idle_turn :: "nat daemon_state turn" where
  "idle_turn = \<lparr>hs = sample_harness, world = \<lparr>the_bot = owner,
     turbo = \<lparr>turbo_until = 0, turbo_forever = False, turbo_loaded = False\<rparr>, current_chat_id = [], live = new_live [],
     api = 0, exited = False, cast_failed = False, omni_state = new_omni\<rparr>, trace = []\<rparr>"

lemma eager_ok: "leaves_history eager_outside" "wellformed_replies eager_outside"
  by (auto simp: leaves_history_def wellformed_replies_def eager_outside_def belya_agent_step_def
      sample_gateway_def scavenge_fallback_def case_prod_unfold Let_def call_reply_def
      write_call_def transport_failure_def)

lemma restart_text: "json_obj_get_str (json_obj_get (Some (restart_message n)) ''message'') ''text'' = Some ''/restart''"
  "json_obj_get (json_obj_get (Some (restart_message n)) ''message'') ''chat'' = Some (JSON_OBJECT [(''id'', number n)])"
  by (simp_all add: restart_message_def json_obj_get_str_def json_obj_get_def)

lemma chat_of_number: "n < 2 ^ 53 \<Longrightarrow> chat_of (JSON_OBJECT [(''id'', number n)]) = take 63 (dec_text n)"
  by (simp add: chat_of_def number_def json_obj_get_num_def json_obj_get_def)

section \<open>Lemmas: a run that dispatches a call\<close>

definition grows :: "'w turn \<Rightarrow> 'w turn \<Rightarrow> bool" where
  "grows s s' \<longleftrightarrow> (\<exists>es. trace s' = trace s @ es)"

lemma grows_same: "trace s' = trace s \<Longrightarrow> grows s s'"
  by (simp add: grows_def)

lemma grows_trans [trans]: "grows s t \<Longrightarrow> grows t u \<Longrightarrow> grows s u"
  by (auto simp: grows_def)

lemma grows_extends: "extends P s s' \<Longrightarrow> grows s s'"
  by (auto simp: extends_def grows_def)

lemma grows_keeps: "grows s s' \<Longrightarrow> e \<in> set (trace s) \<Longrightarrow> e \<in> set (trace s')"
  by (auto simp: grows_def)

lemma grows_conclude: "grows s (snd (daemon_conclude T G chat s))"
  by (simp add: grows_def daemon_conclude_trace)

lemma grows_loop: "grows s (snd (daemon_loop n T G W chat acc st s))"
proof (induction n arbitrary: acc st s)
  case (Suc n)
  obtain resp s1 where ds: "daemon_step T G W chat s = (resp, s1)" by fastforce
  have g1: "grows s s1" using daemon_step_parts(2)[of T G W chat s] by (simp add: ds grows_def)
  obtain st2 s2 where f: "fold (daemon_call T W chat) (resp_calls resp) (st, s1) = (st2, s2)" by fastforce
  have g2: "grows s s2"
    using grows_trans[OF g1 grows_extends[OF extends_daemon_calls[of s1 T W chat "resp_calls resp" st]]] by (simp add: f)
  have n: "grows s (s1\<lparr>hs := h\<rparr>)" for h using g1 by (simp add: grows_def)
  show ?case
    using g1 grows_trans[OF n Suc.IH] grows_trans[OF g2 Suc.IH] grows_trans[OF g2 grows_conclude]
    by (simp add: ds f Let_def case_prod_unfold)
qed (simp add: grows_same)

text \<open>A step whose reply is one call puts that call into the trace of the loop, if it is dispatched.\<close>

lemma loop_runs_call:
  assumes "daemon_step T G W chat s = (resp, s1)" "has_tool_call resp" "resp_calls resp = [tc]"
    and "\<And>t u. hs u = hs s1 \<Longrightarrow> e \<in> set (trace (telegram_handle_call W t tc u))"
  shows "e \<in> set (trace (snd (daemon_loop (Suc n) T G W chat acc st s)))"
proof -
  obtain st2 s2 where f: "daemon_call T W chat tc (st, s1) = (st2, s2)" by fastforce
  have e: "e \<in> set (trace s2)" using daemon_call_shape[of T W chat tc st s1] assms(4) by (auto simp: f)
  show ?thesis
    using grows_keeps[OF grows_loop e] grows_keeps[OF grows_conclude e] assms(1-3)
    by (simp add: f Let_def case_prod_unfold)
qed

lemma handle_runs_allowed:
  assumes "find_tool (rc_name tc) (hs s) = Some m" "security m = PERM_ALLOW" "json_parse (Some (rc_args tc)) \<noteq> None"
    and "permission_classify (Some (rc_name tc)) (Some (rc_args tc)) = PERM_TIER_ALLOW"
  shows "event.Ran (rc_name tc) (rc_args tc) \<in> set (trace (telegram_handle_call W t tc s))"
proof -
  obtain v where "json_parse (Some (rc_args tc)) = Some v" using assms(3) by blast
  with assms show ?thesis
    by (simp add: telegram_handle_call_def belya_harness_permission_gate_def permission_apply_turbo_def
        telegram_run_def case_prod_unfold Let_def add_result_def log_event_def)
qed

lemma eager_step:
  assumes "daemon_step T quiet_stage (with_buttons T eager_outside) chat s = (resp, s1)"
  shows "resp = call_reply" "tools (hs s1) = tools (hs s)"
proof -
  let ?s = "snd (in_world (by_bot (\<lambda>tb. telegram_bot_send_chat_action T tb chat ''typing'')) s)"
  have g: "next_gateway (with_buttons T eager_outside) w = (sample_gateway call_reply, sample_env, w)" for w
    by (simp add: with_buttons_def eager_outside_def)
  have "fst (belya_agent_step sample_env (sample_gateway call_reply) (\<lambda>_ _ _. []) a) = call_reply" for a
    by (simp add: belya_agent_step_def sample_gateway_def scavenge_fallback_def case_prod_unfold Let_def call_reply_def
        write_call_def transport_failure_def)
  then have "fst (model_step (with_buttons T eager_outside) ?s) = call_reply"
    by (simp add: model_step_def g case_prod_unfold Let_def) (simp add: with_buttons_def eager_outside_def)
  moreover have "tools (hs (snd (model_step (with_buttons T eager_outside) ?s))) = tools (hs s)"
    by (simp add: model_step_def case_prod_unfold Let_def log_event_def)
  ultimately show "resp = call_reply" "tools (hs s1) = tools (hs s)"
    using daemon_step_parts(1,3)[of T quiet_stage "with_buttons T eager_outside" chat s] assms by simp_all
qed

lemma turn_runs_write:
  assumes "tools (hs s) = tools sample_harness"
  shows "event.Ran (rc_name write_call) (rc_args write_call) \<in>
    set (trace (daemon_turn T quiet_stage (with_buttons T eager_outside) chat msg s))"
proof -
  let ?W = "with_buttons T eager_outside"
  let ?h = "(hs s)\<lparr>agent := belya_agent_add_message ''user'' (Some msg) (agent (hs s))\<rparr>"
  let ?s = "s\<lparr>hs := belya_harness_reset_turn_state ?h, world := (world s)\<lparr>live := new_live chat\<rparr>\<rparr>"
  obtain resp s1 where d: "daemon_step T quiet_stage ?W chat ?s = (resp, s1)" by fastforce
  have "tools (hs s1) = tools sample_harness"
    using eager_step(2)[OF d] assms by (simp add: belya_harness_reset_turn_state_def)
  then have f: "find_tool (rc_name write_call) h = Some \<lparr>tool_name = ''write_file'', security = PERM_ALLOW,
      has_callback = True, has_mcp_client = False, custom_script_path = None\<rparr>" if "h = hs s1" for h
    using that by (simp add: find_tool_def sample_harness_def write_call_def)
  have p: "json_parse (Some (rc_args write_call)) \<noteq> None"
    and c: "permission_classify (Some (rc_name write_call)) (Some (rc_args write_call)) = PERM_TIER_ALLOW"
    by code_simp+
  have "event.Ran (rc_name write_call) (rc_args write_call) \<in>
      set (trace (snd (daemon_loop (Suc 9) T quiet_stage ?W chat [] (zero, []) ?s)))"
    by (rule loop_runs_call[OF d]) (use eager_step(1)[OF d] handle_runs_allowed[OF f _ p c] in \<open>simp_all add: call_reply_def\<close>)
  moreover obtain final acc mid shown s2 where l:
    "daemon_loop (Suc 9) T quiet_stage ?W chat [] (zero, []) ?s = ((final, acc, mid, shown), s2)" by (metis prod.exhaust)
  ultimately show ?thesis by (simp add: daemon_turn_def MAX_STEPS_def Let_def l del: daemon_loop.simps)
qed

definition go_reply :: JsonValue where
  "go_reply = JSON_OBJECT [(''ok'', JSON_BOOL True), (''result'', JSON_ARRAY [JSON_OBJECT [(''update_id'', number 9),
     (''message'', JSON_OBJECT [(''chat'', JSON_OBJECT [(''id'', number 42)]), (''text'', JSON_STRING ''go'')])]])]"

abbreviation busy_run :: "nat daemon_state turn" where
  "busy_run \<equiv> telegram_bot_run 1 (scripted go_reply go_reply) quiet_stage plain_commands eager_outside idle_turn"

lemma busy_run_runs: "event.Ran (rc_name write_call) (rc_args write_call) \<in> set (trace busy_run)"
proof -
  let ?T = "scripted go_reply go_reply"
  let ?W = "with_buttons ?T eager_outside"
  have ok: "json_ok go_reply" "jdepth go_reply \<le> 128" by (simp_all add: go_reply_def number_def)
  have n: "no_channels ?T" by (simp add: no_channels_def scripted_def nonempty_def)
  have d: "dec_text 42 = ''42''" "strtok_all '', '' ''7, 42'' = [''7'', ''42'']" "telegram_dispatch ''go'' = TTurn" by code_simp+
  define up where "up = JSON_OBJECT [(''update_id'', number 9), (''message'', JSON_OBJECT [(''chat'', JSON_OBJECT [(''id'', number 42)]),
    (''text'', JSON_STRING ''go'')])]"
  have r: "received (Some go_reply) = [up]" by (simp add: received_def go_reply_def json_obj_get_def up_def)
  have u: "json_obj_get (json_obj_get (Some up) ''message'') ''chat'' = Some (JSON_OBJECT [(''id'', number 42)])"
    "json_obj_get_str (json_obj_get (Some up) ''message'') ''text'' = Some ''go''"
    by (simp_all add: up_def json_obj_get_str_def json_obj_get_def)
  have a: "telegram_is_authorized tb (chat_of (JSON_OBJECT [(''id'', number 42)]))" if "allowed_chat_id tb = ''7, 42''" for tb
    using that by (simp add: chat_of_number telegram_is_authorized_def d)
  define s1 where "s1 = idle_turn\<lparr>hs := (hs idle_turn)\<lparr>has_prompt_fn := True\<rparr>,
      world := (world idle_turn)\<lparr>the_bot := (the_bot (world idle_turn))\<lparr>running := True\<rparr>, current_chat_id := []\<rparr>\<rparr>"
  have s1: "s_discord (omni_state (world s1)) = None" "s_slack (omni_state (world s1)) = None" "\<not> exited (world s1)"
    "allowed_chat_id (the_bot (world s1)) = ''7, 42''" "tools (hs s1) = tools sample_harness"
    by (simp_all add: s1_def idle_turn_def new_omni_def owner_def)
  have "busy_run = poll_round ?T quiet_stage plain_commands ?W s1"
    using s1(3) by (simp add: telegram_bot_run_def s1_def Let_def)
  also obtain v where "\<dots> = handle_update ?T quiet_stage plain_commands ?W up
      (s1\<lparr>world := (world s1)\<lparr>omni_state := omni_start (env_var ?T) (omni_state (world s1)), api := v\<rparr>\<rparr>)"
    by (simp add: poll_round_def poll_channels_idle[OF n s1(1,2)] in_world_def by_bot_def scripted_post[OF ok ok] r)
  finally have b: "busy_run = handle_update ?T quiet_stage plain_commands ?W up
      (s1\<lparr>world := (world s1)\<lparr>omni_state := omni_start (env_var ?T) (omni_state (world s1)), api := v\<rparr>\<rparr>)" .
  show ?thesis unfolding b
    by (simp add: handle_update_def Let_def s1(3) u a s1(4) nonempty_def daemon_obey_def d(3) turn_runs_write s1(5))
qed

section \<open>Properties\<close>

text \<open>C34: No call that the classifier denies is ever run by the daemon's own dispatcher: over any number of
  polls, whatever the updates, the channels, the model, the buttons and turbo mode bring, every call the daemon
  dispatches is one that \<open>permission_classify\<close> does not deny. The calls of the subagents that an /agency command
  starts are in the trace as delegated events and are not classified; of them it holds only that none starts another
  subagent. The calls that a subagent of a \<open>spawn_subagent\<close> or \<open>dispatch_agent\<close> call makes are not in the trace.\<close>

theorem daemon_never_runs_denied:
  assumes "trace s = []"
  shows "list_all (\<lambda>e. case e of
      event.Ran name args \<Rightarrow> permission_classify (Some name) (Some args) \<noteq> PERM_TIER_DENY
    | Delegated role_name (event.Ran name args) \<Rightarrow> name \<noteq> ''spawn_subagent'' \<and> name \<noteq> ''dispatch_agent''
    | _ \<Rightarrow> True) (trace (telegram_bot_run n T G C W s))"
proof -
  have "safe_trace (telegram_bot_run n T G C W s)"
    unfolding telegram_bot_run_def Let_def by (rule poll_rounds_safe) (simp add: safe_trace_def assms)
  then show ?thesis
    by (auto simp: safe_trace_def safe_event_def own_event_def starters_def not_denied_def list_all_iff split: event.split)
qed

theorem daemon_never_runs_denied_witness:
  "list_all (\<lambda>e. case e of
      event.Ran name args \<Rightarrow> permission_classify (Some name) (Some args) \<noteq> PERM_TIER_DENY
    | Delegated role_name (event.Ran name args) \<Rightarrow> name \<noteq> ''spawn_subagent'' \<and> name \<noteq> ''dispatch_agent''
    | _ \<Rightarrow> True) (trace busy_run) \<and>
   event.Ran (rc_name write_call) (rc_args write_call) \<in> set (trace busy_run)"
  using daemon_never_runs_denied[of idle_turn 1 "scripted go_reply go_reply" quiet_stage plain_commands eager_outside] busy_run_runs
  by (simp add: idle_turn_def)

text \<open>C35: A message over Telegram makes at most ten model calls and keeps the conversation one a provider
  accepts: every tool call in the history is answered by one tool message, in order, and the instructions and the
  objective stay in front.\<close>

theorem daemon_turn_keeps_conversation:
  assumes "leaves_history W" and "wellformed_replies W"
    and "sendable (messages (agent (hs s)))" and "pinned (messages (agent (hs s)))" and "messages (agent (hs s)) \<noteq> []"
  shows "sendable (messages (agent (hs (daemon_turn T G (with_buttons T W) chat msg s)))) \<and>
    pinned (messages (agent (hs (daemon_turn T G (with_buttons T W) chat msg s)))) \<and>
    model_calls (daemon_turn T G (with_buttons T W) chat msg s) \<le> model_calls s + 10"
proof -
  let ?W = "with_buttons T W"
  let ?h = "(hs s)\<lparr>agent := belya_agent_add_message ''user'' (Some msg) (agent (hs s))\<rparr>"
  let ?s = "s\<lparr>hs := belya_harness_reset_turn_state ?h, world := (world s)\<lparr>live := new_live chat\<rparr>\<rparr>"
  obtain final acc mid shown s1 where l:
    "daemon_loop MAX_STEPS T G ?W chat [] (zero, []) ?s = ((final, acc, mid, shown), s1)" by (metis prod.exhaust)
  have "agent (belya_harness_reset_turn_state ?h) = agent ?h" by (simp add: belya_harness_reset_turn_state_def)
  then have "conv_ok (conv ?s)" using conv_ok_add_user[OF assms(3-5), of msg] by (simp add: belya_agent_add_message_def)
  from daemon_loop_conv[OF buttons_leave_history[OF assms(1)] _ this] assms(2)
  have "conv_ok (conv s1)" using l buttons_wellformed[of T W] by (metis snd_conv)
  moreover have "messages (save_active a) = messages a" for a by (simp add: save_active_def)
  then have "conv (daemon_turn T G ?W chat msg s) = conv s1" by (simp add: daemon_turn_def Let_def l)
  ultimately show ?thesis using daemon_turn_trace[of s T G ?W chat msg] by (simp add: conv_ok_def)
qed

theorem daemon_turn_keeps_conversation_witness:
  "let s' = daemon_turn (scripted prompted pressed) quiet_stage (with_buttons (scripted prompted pressed) eager_outside)
     ''42'' ''go'' idle_turn
   in sendable (messages (agent (hs s'))) \<and> pinned (messages (agent (hs s'))) \<and> model_calls s' \<le> 10"
proof -
  have "sendable (messages (agent (hs idle_turn)))" "pinned (messages (agent (hs idle_turn)))"
    "messages (agent (hs idle_turn)) \<noteq> []" "model_calls idle_turn = 0"
    by (simp_all add: idle_turn_def sample_harness_def sample_agent_def sendable_def pinned_def plain_message_def
        is_tool_def model_calls_def)
  then show ?thesis
    using daemon_turn_keeps_conversation[OF eager_ok, of idle_turn "scripted prompted pressed" quiet_stage "''42''" "''go''"]
    by (simp add: Let_def)
qed

text \<open>C36: A message from a chat that is not on the list changes nothing but the record of what was received: no
  turn, no command, no change of the harness, of turbo mode or of the chat that approvals are asked in.\<close>

theorem strangers_change_nothing:
  assumes "\<not> telegram_is_authorized (the_bot (world s)) (chat_of c)"
    and "json_obj_get (json_obj_get (Some up) ''message'') ''chat'' = Some c"
  shows "hs (handle_update T G C W up s) = hs s \<and> trace (handle_update T G C W up s) = trace s \<and>
    turbo (world (handle_update T G C W up s)) = turbo (world s) \<and>
    current_chat_id (world (handle_update T G C W up s)) = current_chat_id (world s) \<and>
    exited (world (handle_update T G C W up s)) = exited (world s)"
proof -
  have "\<not> telegram_is_authorized (the_bot (note_update up (world s))) (chat_of c)"
    using assms(1) authorized_same[of "the_bot (note_update up (world s))" "the_bot (world s)"] by simp
  then show ?thesis using assms(2) by (auto simp: handle_update_def Let_def split: option.split)
qed

theorem strangers_change_nothing_witness:
  "let s' = handle_update (scripted prompted pressed) quiet_stage plain_commands eager_outside (restart_message 13) idle_turn
   in hs s' = hs idle_turn \<and> trace s' = trace idle_turn \<and> turbo (world s') = turbo (world idle_turn) \<and>
     current_chat_id (world s') = current_chat_id (world idle_turn) \<and> exited (world s') = exited (world idle_turn)"
proof -
  have d: "dec_text 13 = ''13''" "strtok_all '', '' ''7, 42'' = [''7'', ''42'']" by code_simp+
  have n: "\<not> telegram_is_authorized (the_bot (world idle_turn)) (chat_of (JSON_OBJECT [(''id'', number 13)]))"
    by (simp add: chat_of_number idle_turn_def owner_def telegram_is_authorized_def d)
  show ?thesis unfolding Let_def by (rule strangers_change_nothing[OF n restart_text(2)])
qed

text \<open>C37: A /restart is acknowledged only by a poll that is never made, because the process exits first: every
  process the service manager starts in its place is given the same update and exits as well, for as long as
  the API keeps the update. The daemon polls Telegram only: neither Discord nor Slack is configured.\<close>

theorem restart_never_ends:
  assumes "awaiting T up P" and "P (api (world s))" and "restart_update up tb"
    and "no_channels T"
  shows "exited (world (((\<lambda>s. telegram_bot_run (Suc k) T G C W (new_process tb s)) ^^ Suc n) s))"
proof -
  let ?f = "\<lambda>s. telegram_bot_run (Suc k) T G C W (new_process tb s)"
  have step: "exited (world (?f s)) \<and> P (api (world (?f s)))" if "P (api (world s))" for s
  proof -
    define s1 where "s1 = (new_process tb s)\<lparr>hs := (hs s)\<lparr>has_prompt_fn := True\<rparr>,
      world := (world (new_process tb s))\<lparr>the_bot := (the_bot (world (new_process tb s)))\<lparr>running := True\<rparr>,
        current_chat_id := []\<rparr>\<rparr>"
    have "restart_update up (the_bot (world s1))"
      using assms(3) authorized_same[of "the_bot (world s1)" tb]
      by (simp add: restart_update_def s1_def new_process_def)
    moreover have "P (api (world s1))" "\<not> exited (world s1)" "last_update_id (the_bot (world s1)) = 0"
        "s_discord (omni_state (world s1)) = None" "s_slack (omni_state (world s1)) = None"
      using that by (simp_all add: s1_def new_process_def new_omni_def)
    ultimately have p: "exited (world (poll_round T G C (with_buttons T W) s1))" "P (api (world (poll_round T G C (with_buttons T W) s1)))"
      using poll_restart[where s = s1 and C = C and G = G and W = "with_buttons T W", OF assms(1)] assms(4) by simp_all
    have "?f s = poll_rounds (Suc k) T G C (with_buttons T W) s1"
      by (simp add: telegram_bot_run_def s1_def new_process_def Let_def)
    also have "\<dots> = poll_rounds k T G C (with_buttons T W) (poll_round T G C (with_buttons T W) s1)"
      by (simp add: s1_def new_process_def)
    also have "\<dots> = poll_round T G C (with_buttons T W) s1" using p(1) by (cases k) simp_all
    finally show ?thesis using p by simp
  qed
  have "P (api (world ((?f ^^ n) s)))" for n by (induction n) (use assms(2) step in auto)
  then show ?thesis using step by simp
qed

theorem restart_never_ends_witness:
  "exited (world (((\<lambda>s. telegram_bot_run (Suc 4) (scripted restart_reply restart_reply) quiet_stage plain_commands
     eager_outside (new_process owner s)) ^^ Suc 2) idle_turn))"
proof -
  have ok: "json_ok restart_reply" "jdepth restart_reply \<le> 128"
    by (simp_all add: restart_reply_def restart_message_def number_def)
  have "received (Some restart_reply) = [restart_message 42]"
    by (simp add: received_def restart_reply_def json_obj_get_def)
  then have a: "awaiting (scripted restart_reply restart_reply) (restart_message 42) (\<lambda>_. True)"
    by (simp add: awaiting_def scripted_post[OF ok ok])
  have d: "dec_text 42 = ''42''" "strtok_all '', '' ''7, 42'' = [''7'', ''42'']" by code_simp+
  have "telegram_is_authorized owner (chat_of (JSON_OBJECT [(''id'', number 42)]))"
    by (simp add: chat_of_number owner_def telegram_is_authorized_def d)
  then have r: "restart_update (restart_message 42) owner" using restart_text[of 42] by (simp add: restart_update_def)
  show ?thesis by (rule restart_never_ends[OF a _ r]) (simp_all add: no_channels_def scripted_def nonempty_def)
qed

section \<open>The agency is outside the gate\<close>

definition wipe_reply :: ModelGatewayResponse where
  "wipe_reply = call_reply\<lparr>resp_calls := [wipe_call]\<rparr>"

definition wiping_outside :: "nat daemon_state outside" where
  "wiping_outside = eager_outside\<lparr>next_gateway := (\<lambda>w. (sample_gateway wipe_reply, sample_env, w))\<rparr>"

lemma wiping_step: "fst (model_step wiping_outside s) = wipe_reply" "tools (hs (snd (model_step wiping_outside s))) = tools (hs s)"
proof -
  have g: "next_gateway wiping_outside w = (sample_gateway wipe_reply, sample_env, w)" for w
    by (simp add: wiping_outside_def)
  have "fst (belya_agent_step sample_env (sample_gateway wipe_reply) (\<lambda>_ _ _. []) a) = wipe_reply" for a
    by (simp add: belya_agent_step_def sample_gateway_def scavenge_fallback_def case_prod_unfold Let_def wipe_reply_def call_reply_def
        wipe_call_def transport_failure_def)
  then show "fst (model_step wiping_outside s) = wipe_reply"
    by (simp add: model_step_def g case_prod_unfold Let_def) (simp add: wiping_outside_def eager_outside_def)
  show "tools (hs (snd (model_step wiping_outside s))) = tools (hs s)"
    by (simp add: model_step_def case_prod_unfold Let_def log_event_def)
qed

lemma sub_loop_grows: "\<exists>es. trace (sub (sub_loop n W (dispatch_call W) r)) = trace (sub r) @ es"
proof -
  have "within UNIV (sub r) (sub (sub_loop n W (dispatch_call W) r))"
    by (intro within_loop within_dispatch_call all_names)
  then show ?thesis by (auto simp: within_def)
qed

lemma sub_tool_same: "tools h = tools h' \<Longrightarrow> sub_tool n h = sub_tool n h'"
  by (simp add: sub_tool_def find_tool_def)

lemma wiping_role_runs:
  assumes "belya_harness_is_tool_whitelisted (Some (permitted_tools m)) (Some ''bash'')" "turns_of m > 0"
    and "\<And>h x. helper A h x = wiping_outside"
  shows "event.Ran (rc_name wipe_call) (rc_args wipe_call) \<in> set (trace (sub (run_role A m role_name model_name task ctx w)))"
proof -
  obtain k where k: "turns_of m = Suc k" using assms(2) gr0_implies_Suc by blast
  let ?r = "start_sub (role_harness A m role_name model_name ctx) task w"
  obtain resp s where ms: "model_step wiping_outside (sub ?r) = (resp, s)" by fastforce
  have r: "resp = wipe_reply" "tools (hs s) = tools (hs (sub ?r))" using wiping_step[of "sub ?r"] by (simp_all add: ms)
  have n: "rc_name wipe_call = ''bash''" by (simp add: wipe_call_def)
  have "''bash'' \<in> set (map fst registrations)" unfolding registration_names by simp
  then obtain t where "sub_tool ''bash'' (hs (sub ?r)) = Some t"
    using role_finds[OF _ assms(1), of A role_name model_name ctx task w] by (auto simp: starters_def)
  then have "sub_tool (rc_name wipe_call) (hs (sub (?r\<lparr>sub := s\<rparr>))) = Some t"
    using sub_tool_same[OF r(2)] by (simp add: n)
  from subagent_runs_any_call[OF this]
  have "event.Ran (rc_name wipe_call) (rc_args wipe_call) \<in>
      set (trace (sub (dispatch_call wiping_outside wipe_call (?r\<lparr>sub := s\<rparr>))))" by blast
  moreover have "resp_calls resp = [wipe_call]" "has_tool_call resp" by (simp_all add: r(1) wipe_reply_def call_reply_def)
  moreover obtain es where "trace (sub (sub_loop k wiping_outside (dispatch_call wiping_outside)
      (dispatch_call wiping_outside wipe_call (?r\<lparr>sub := s\<rparr>)))) =
      trace (sub (dispatch_call wiping_outside wipe_call (?r\<lparr>sub := s\<rparr>))) @ es" using sub_loop_grows by blast
  ultimately show ?thesis by (simp add: run_role_def Let_def assms(3) k ms)
qed

text \<open>What C34 leaves out: an /agency command of an authorised chat runs, through a subagent, a call that the
  classifier denies, whatever the mode, the approver and turbo are.\<close>

theorem agency_runs_denied_call:
  "permission_classify (Some (rc_name wipe_call)) (Some (rc_args wipe_call)) = PERM_TIER_DENY \<and>
   Delegated ''reviewer'' (event.Ran (rc_name wipe_call) (rc_args wipe_call)) \<in>
     set (trace (daemon_obey T G (commands_with wiping_outside) W chat ''/agency audit'' s))"
proof
  show "permission_classify (Some (rc_name wipe_call)) (Some (rc_args wipe_call)) = PERM_TIER_DENY"
    unfolding wipe_call_def by code_simp
  let ?C = "commands_with wiping_outside" and ?A = "sample_agency wiping_outside"
  have d: "telegram_dispatch ''/agency audit'' = TAgency ''audit''" by code_simp
  have g: "\<not> list_ex (ci_eq ''audit'') greetings" "classify_request ''audit'' = [''reviewer'']" "lskip is_json_ws ''audit'' = ''audit''"
    by code_simp+
  have t: "belya_agency_triage ?A ''audit'' w = (Inr [''reviewer''], w)" for w
    by (simp add: belya_agency_triage_def g sample_agency_def jev_decide_triage_role_def)
  have m: "resolve_manifest ?A [reviewer_row] ''reviewer'' = Some reviewer_row"
    by (simp add: resolve_manifest_def belya_agent_get_manifest_def reviewer_row_def)
  have b: "belya_harness_is_tool_whitelisted (Some (permitted_tools (Some reviewer_row))) (Some ''bash'')" "turns_of (Some reviewer_row) > 0"
    unfolding permitted_tools_def reviewer_row_def by (code_simp, simp add: turns_of_def)
  have h: "helper ?A x y = wiping_outside" "parent_endpoint ?A \<noteq> None" for x y by (simp_all add: sample_agency_def)
  note run = wiping_role_runs[OF b h(1)]
  have p: "Delegated ''reviewer'' (event.Ran (rc_name wipe_call) (rc_args wipe_call)) \<in>
      set (trace (snd (belya_agency_execute_pipeline ?A [reviewer_row] ''audit'' [''reviewer''] u)))" for u
    using run h(2)
    by (auto simp: belya_agency_execute_pipeline_def belya_agency_dispatch_subagent_def m case_prod_unfold Let_def
        back_to_parent_def)
  have c: "agency_of ?C = ?A" "manifest_rows ?C = [reviewer_row]" by (simp_all add: commands_with_def)
  show "Delegated ''reviewer'' (event.Ran (rc_name wipe_call) (rc_args wipe_call)) \<in>
      set (trace (daemon_obey T G ?C W chat ''/agency audit'' s))"
    by (simp add: daemon_obey_def d daemon_agency_def c t p case_prod_unfold Let_def split: option.split)
qed

end
