(* ===== verification/McpClient.thy ===== *)
theory McpClient
  imports ModelAdapter JsonInt
begin

text \<open>
  The clients of the Model Context Protocol: JSON-RPC over the pipes of a child process
  (\<open>mcp_client.c\<close>) and over HTTP (\<open>mcp_http.c\<close>), with the negotiation of the protocol version.

  A child process is what it writes: a list of events, bytes and expired deadlines. An expired
  deadline is a read that finds no byte while the time of the current call of \<open>read_line_timeout\<close> is
  over; behind the last event nothing comes any more, and the call that waits there runs into its
  deadline too. The bytes offered to the child are collected in \<open>mcp_stdin\<close>. The network is the record
  of the model adapter. Allocation does not fail and the request counter stays below \<open>2 ^ 31\<close>.
\<close>

section \<open>Clients\<close>

datatype MCPTransport = MCP_TRANSPORT_STDIO | MCP_TRANSPORT_HTTP

datatype mcp_event = Got char | Deadline

record MCPClient =
  mcp_transport :: MCPTransport
  mcp_command :: "cstr option"
  mcp_stdin :: cstr
  mcp_stdout :: "mcp_event list"
  mcp_request_id :: int
  mcp_connected :: bool
  mcp_url :: "cstr option"
  mcp_bearer_token :: "cstr option"
  mcp_timeout_ms :: int
  mcp_session_id :: "cstr option"
  mcp_negotiated_version :: "cstr option"
  mcp_negotiated :: bool
  mcp_legacy :: bool

section \<open>Child processes\<close>

text \<open>A line ends at its line feed, at the deadline, or never; carriage returns and NUL bytes are dropped.\<close>

fun read_line :: "mcp_event list \<Rightarrow> cstr \<times> mcp_event list" where
  "read_line [] = ([], [])"
| "read_line (Deadline # es) = ([], es)"
| "read_line (Got c # es) =
     (if c = LF then ([], es)
      else let (line, rest) = read_line es in
        (if c = CR \<or> c = NUL then (line, rest) else (c # line, rest)))"

definition read_line_timeout :: "mcp_event list \<Rightarrow> cstr option \<times> mcp_event list" where
  "read_line_timeout es = (let (line, rest) = read_line es in (nonempty (Some line), rest))"

definition safe_write :: "cstr \<Rightarrow> MCPClient \<Rightarrow> MCPClient" where
  "safe_write bytes c = c\<lparr>mcp_stdin := mcp_stdin c @ bytes\<rparr>"

definition next_id :: "MCPClient \<Rightarrow> MCPClient" where
  "next_id c = c\<lparr>mcp_request_id := mcp_request_id c + 1\<rparr>"

definition init_request :: "int \<Rightarrow> JsonValue" where
  "init_request i =
     (let cinfo = json_obj_add (json_obj_add json_create_object ''name'' (json_create_string (Some ''belya'')))
            ''version'' (json_create_string (Some ''1.0''));
          params = json_obj_add (json_obj_add (json_obj_add json_create_object
            ''protocolVersion'' (json_create_string (Some ''2024-11-05'')))
            ''capabilities'' json_create_object) ''clientInfo'' cinfo in
      json_obj_add (json_obj_add (json_obj_add (json_obj_add json_create_object
        ''jsonrpc'' (json_create_string (Some ''2.0''))) ''id'' (json_create_number (double_of_int i)))
        ''method'' (json_create_string (Some ''initialize''))) ''params'' params)"

definition initialized_note :: cstr where
  "initialized_note = ''{'' @ [DQ] @ ''jsonrpc'' @ [DQ] @ '':'' @ [DQ] @ ''2.0'' @ [DQ] @ '','' @
     [DQ] @ ''method'' @ [DQ] @ '':'' @ [DQ] @ ''notifications/initialized'' @ [DQ] @ ''}'' @ [LF]"

text \<open>\<open>spawn\<close> is the output of the child that \<open>fork\<close> and \<open>execl\<close> start, or \<open>None\<close> when pipes or process
  cannot be made. A failed handshake closes the client.\<close>

definition mcp_client_start :: "(cstr \<Rightarrow> mcp_event list option) \<Rightarrow> cstr option \<Rightarrow> MCPClient option" where
  "mcp_client_start spawn command_line =
     Option.bind (nonempty command_line) (\<lambda>cmd. Option.bind (spawn cmd) (\<lambda>out.
       let client = \<lparr>mcp_transport = MCP_TRANSPORT_STDIO, mcp_command = Some cmd, mcp_stdin = [], mcp_stdout = out,
             mcp_request_id = 1, mcp_connected = False, mcp_url = None, mcp_bearer_token = None, mcp_timeout_ms = 0,
             mcp_session_id = None, mcp_negotiated_version = None, mcp_negotiated = False, mcp_legacy = False\<rparr>;
           req = init_request (mcp_request_id client);
           client = safe_write [LF] (safe_write (json_text req) (next_id client));
           (resp, out) = read_line_timeout (mcp_stdout client);
           client = client\<lparr>mcp_stdout := out\<rparr> in
       if json_parse resp = None then None
       else Some ((safe_write initialized_note client)\<lparr>mcp_connected := True\<rparr>)))"

definition json_deep_copy :: "JsonValue \<Rightarrow> JsonValue option" where
  "json_deep_copy v = json_parse (Some (json_text v))"

definition stdio_request :: "int \<Rightarrow> cstr \<Rightarrow> JsonValue option \<Rightarrow> JsonValue" where
  "stdio_request i method params =
     (let req = json_obj_add (json_obj_add (json_obj_add json_create_object
        ''jsonrpc'' (json_create_string (Some ''2.0''))) ''id'' (json_create_number (double_of_int i)))
        ''method'' (json_create_string (Some method)) in
      case params of None \<Rightarrow> req | Some p \<Rightarrow> json_obj_add req ''params'' p)"

definition mcp_stdio_request :: "cstr \<Rightarrow> JsonValue option \<Rightarrow> MCPClient \<Rightarrow> JsonValue option \<times> MCPClient" where
  "mcp_stdio_request method params c =
     (let i = mcp_request_id c; c = next_id c;
          copied = (case params of None \<Rightarrow> Some None | Some p \<Rightarrow> map_option Some (json_deep_copy p)) in
      case copied of None \<Rightarrow> (None, c)
      | Some ps \<Rightarrow>
        let c = safe_write [LF] (safe_write (json_text (stdio_request i method ps)) c);
            (resp, out) = read_line_timeout (mcp_stdout c) in
        (json_parse resp, c\<lparr>mcp_stdout := out\<rparr>))"

section \<open>HTTP\<close>

definition MCP_HTTP_PROTOCOL_VERSION :: cstr where "MCP_HTTP_PROTOCOL_VERSION = ''2026-07-28''"
definition MCP_LEGACY_PROTOCOL_VERSION :: cstr where "MCP_LEGACY_PROTOCOL_VERSION = ''2025-11-25''"
definition MCP_HTTP_DEFAULT_TIMEOUT_MS :: int where "MCP_HTTP_DEFAULT_TIMEOUT_MS = 15000"

definition blank :: "char \<Rightarrow> bool" where "blank c \<longleftrightarrow> c = CHR '' '' \<or> c = TAB"

definition http_header_cb :: "cstr \<Rightarrow> cstr option \<Rightarrow> cstr option" where
  "http_header_cb h out =
     (let key = ''mcp-session-id:'' in
      if length h > length key \<and> map tolower (take (length key) h) = key
      then let v = rskip (\<lambda>c. c = CR \<or> c = LF \<or> blank c) (dropWhile blank (drop (length key) h)) in
        (if v \<noteq> [] then Some (c_string v) else out)
      else out)"

definition clone_object :: "JsonValue option \<Rightarrow> JsonValue" where
  "clone_object params =
     (case Option.bind params (\<lambda>p. json_parse (Some (json_text p))) of
        Some (JSON_OBJECT ms) \<Rightarrow> JSON_OBJECT ms
      | _ \<Rightarrow> json_create_object)"

definition client_meta :: "cstr \<Rightarrow> JsonValue" where
  "client_meta version =
     (let ci = json_obj_add (json_obj_add json_create_object ''name'' (json_create_string (Some ''belya'')))
            ''version'' (json_create_string (Some ''2.1.0'')) in
      json_obj_add (json_obj_add (json_obj_add json_create_object
        ''io.modelcontextprotocol/protocolVersion'' (json_create_string (Some version)))
        ''io.modelcontextprotocol/clientInfo'' ci)
        ''io.modelcontextprotocol/clientCapabilities'' json_create_object)"

definition request_object ::
    "cstr \<Rightarrow> cstr \<Rightarrow> JsonValue option \<Rightarrow> int \<Rightarrow> bool \<Rightarrow> bool \<Rightarrow> JsonValue" where
  "request_object version method params i include_meta is_notification =
     (let req = json_obj_add json_create_object ''jsonrpc'' (json_create_string (Some ''2.0''));
          req = (if is_notification then req else json_obj_add req ''id'' (json_create_number (double_of_int i)));
          req = json_obj_add req ''method'' (json_create_string (Some method));
          p = clone_object params;
          p = (if include_meta then json_obj_add p ''_meta'' (client_meta version) else p) in
      json_obj_add req ''params'' p)"

definition build_body :: "cstr \<Rightarrow> cstr \<Rightarrow> JsonValue option \<Rightarrow> int \<Rightarrow> bool \<Rightarrow> bool \<Rightarrow> cstr" where
  "build_body version method params i include_meta is_notification =
     json_text (request_object version method params i include_meta is_notification)"

definition mcp_http_build_body :: "cstr \<Rightarrow> JsonValue option \<Rightarrow> int \<Rightarrow> cstr" where
  "mcp_http_build_body method params i = build_body MCP_HTTP_PROTOCOL_VERSION method params i True False"

definition parse_json_slice :: "cstr \<Rightarrow> JsonValue option" where
  "parse_json_slice s = (if s = [] then None else json_parse (Some s))"

text \<open>The line at \<open>p\<close> without its end, and \<open>p\<close> behind it; \<open>None\<close> when no line feed follows.\<close>

definition body_line :: "cstr \<Rightarrow> cstr \<times> cstr option" where
  "body_line p =
     (let raw = takeWhile (\<lambda>c. c \<noteq> LF) p in
      (if raw \<noteq> [] \<and> last raw = CR then butlast raw else raw, map_option (drop 1) (strchr p LF)))"

lemma body_line_shorter: "body_line p = (line, Some r) \<Longrightarrow> length r < length p"
  by (auto simp: body_line_def Let_def dest!: strchr_SomeD)

definition flush_event :: "cstr \<Rightarrow> JsonValue option \<Rightarrow> JsonValue option" where
  "flush_event acc latest = (case parse_json_slice acc of None \<Rightarrow> latest | Some v \<Rightarrow> Some v)"

definition sse_line :: "cstr \<Rightarrow> cstr \<times> JsonValue option \<Rightarrow> cstr \<times> JsonValue option" where
  "sse_line line st =
     (let (acc, latest) = st in
      if has_prefix ''data:'' line
      then ((if acc \<noteq> [] then acc @ [LF] else acc) @ dropWhile blank (drop 5 line), latest)
      else if line = [] \<and> acc \<noteq> [] then ([], flush_event acc latest)
      else (acc, latest))"

function sse_loop :: "cstr \<Rightarrow> cstr \<times> JsonValue option \<Rightarrow> cstr \<times> JsonValue option" where
  "sse_loop p st =
     (if p = [] then st
      else case body_line p of
        (line, None) \<Rightarrow> sse_line line st
      | (line, Some r) \<Rightarrow> sse_loop r (sse_line line st))"
  by pat_completeness auto
termination
  by (relation "measure (\<lambda>(p, st). length p)") (auto dest: body_line_shorter[OF sym])

declare sse_loop.simps [simp del]

definition mcp_http_parse_body :: "cstr option \<Rightarrow> JsonValue option" where
  "mcp_http_parse_body body =
     (case nonempty body of None \<Rightarrow> None
      | Some b \<Rightarrow>
        if strstr b ''data:'' = None then parse_json_slice b
        else let (acc, latest) = sse_loop b ([], None) in flush_event acc latest)"

definition rpc_error :: "int \<Rightarrow> cstr \<Rightarrow> JsonValue" where
  "rpc_error code msg = json_obj_add json_create_object ''error''
     (json_obj_add (json_obj_add json_create_object ''code'' (json_create_number (double_of_int code)))
       ''message'' (json_create_string (Some msg)))"

definition mcp_http_error_for_status :: "int \<Rightarrow> cstr \<Rightarrow> JsonValue" where
  "mcp_http_error_for_status status body =
     (let code = (if status = 401 then - 32001 else if status = 403 then - 32003 else - 32603);
          label = (if status = 401 then ''Unauthorized'' else if status = 403 then ''Forbidden'' else ''HTTP error'') in
      rpc_error code (take 599 (''HTTP '' @ int_text status @ '' '' @ label @ '': '' @ take 400 body)))"

definition post_request ::
    "cstr \<Rightarrow> cstr \<Rightarrow> JsonValue option \<Rightarrow> cstr option \<Rightarrow> bool \<Rightarrow> bool \<Rightarrow> MCPClient \<Rightarrow> http_request" where
  "post_request version method params session include_meta is_notification client =
     \<lparr>req_url = mcp_url client,
      req_agent = ''belya-mcp-http/1.1'',
      req_headers = [''Content-Type: application/json'', ''Accept: application/json, text/event-stream'',
          take 127 (''MCP-Protocol-Version: '' @ take 64 version),
          take 191 (''Mcp-Method: '' @ take 120 method)] @
        (case nonempty (json_obj_get_str params ''name'') of None \<Rightarrow> []
         | Some n \<Rightarrow> [''Mcp-Name: '' @ take 400 n]) @
        (case nonempty session of None \<Rightarrow> [] | Some s \<Rightarrow> [''Mcp-Session-Id: '' @ take 400 s]) @
        (case nonempty (mcp_bearer_token client) of None \<Rightarrow> []
         | Some t \<Rightarrow> [''Authorization: Bearer '' @ take 400 t]),
      req_body = build_body version method params (mcp_request_id client) include_meta is_notification,
      req_timeout = mcp_timeout_ms client\<rparr>"

text \<open>One POST: the reply, its status, the session it names, and the client with its next request id.\<close>

definition post_reply :: "'w network \<Rightarrow> bool \<Rightarrow> http_outcome \<Rightarrow> JsonValue option" where
  "post_reply W is_notification out =
     (let status = http_status out; body = c_string (concat (reply_chunks out)) in
      if curl_code out \<noteq> CURLE_OK
      then Some (rpc_error (- 32603) (take 399 (''MCP HTTP transport error: '' @ curl_strerror W (curl_code out))))
      else if status \<ge> 400 then Some (mcp_http_error_for_status status body)
      else if is_notification \<or> body = [] then None
      else mcp_http_parse_body (Some body))"

definition post_once ::
    "'w network \<Rightarrow> cstr \<Rightarrow> cstr \<Rightarrow> JsonValue option \<Rightarrow> cstr option \<Rightarrow> bool \<Rightarrow> bool \<Rightarrow> MCPClient \<Rightarrow> 'w \<Rightarrow>
       (JsonValue option \<times> int \<times> cstr option) \<times> MCPClient \<times> 'w" where
  "post_once W version method params session include_meta is_notification client w =
     (let req = post_request version method params session include_meta is_notification client;
          client = next_id client in
      if \<not> curl_ready W then ((None, 0, None), client, w)
      else let (out, w) = perform W req w in
        ((post_reply W is_notification out, http_status out, foldl (\<lambda>s h. http_header_cb h s) None (reply_headers out)),
         client, w))"

definition legacy_params :: JsonValue where
  "legacy_params =
     (let ci = json_obj_add (json_obj_add json_create_object ''name'' (json_create_string (Some ''belya'')))
            ''version'' (json_create_string (Some ''2.1.0'')) in
      json_obj_add (json_obj_add (json_obj_add json_create_object
        ''protocolVersion'' (json_create_string (Some MCP_LEGACY_PROTOCOL_VERSION)))
        ''capabilities'' json_create_object) ''clientInfo'' ci)"

definition negotiate_legacy :: "'w network \<Rightarrow> MCPClient \<Rightarrow> 'w \<Rightarrow> bool \<times> MCPClient \<times> 'w" where
  "negotiate_legacy W client w =
     (let ((resp, status, session), client, w) =
        post_once W MCP_LEGACY_PROTOCOL_VERSION ''initialize'' (Some legacy_params) None False False client w in
      if resp = None \<or> status < 200 \<or> status \<ge> 300 then (False, client, w)
      else
        let pv = nonempty (json_obj_get_str (json_obj_get resp ''result'') ''protocolVersion'');
            v = (case pv of None \<Rightarrow> MCP_LEGACY_PROTOCOL_VERSION | Some p \<Rightarrow> p);
            client = client\<lparr>mcp_session_id := session, mcp_negotiated_version := Some v,
              mcp_legacy := True, mcp_negotiated := True\<rparr>;
            (_, client, w) = post_once W v ''notifications/initialized'' (Some json_create_object)
              session False True client w in
        (True, client, w))"

definition mcp_client_start_http :: "'w network \<Rightarrow> cstr option \<Rightarrow> MCPClient option" where
  "mcp_client_start_http W url =
     Option.bind url (\<lambda>u.
       if \<not> has_prefix ''http://'' u \<and> \<not> has_prefix ''https://'' u then None
       else
         let t = (case nonempty (env_var W ''MCP_HTTP_TIMEOUT_MS'') of
                    None \<Rightarrow> MCP_HTTP_DEFAULT_TIMEOUT_MS | Some s \<Rightarrow> strtol10 s) in
         Some \<lparr>mcp_transport = MCP_TRANSPORT_HTTP, mcp_command = None, mcp_stdin = [], mcp_stdout = [],
           mcp_request_id = 1, mcp_connected = True, mcp_url = Some u,
           mcp_bearer_token = nonempty (env_var W ''MCP_HTTP_TOKEN''),
           mcp_timeout_ms = (if t \<le> 0 then MCP_HTTP_DEFAULT_TIMEOUT_MS else t),
           mcp_session_id = None, mcp_negotiated_version = None, mcp_negotiated = False, mcp_legacy = False\<rparr>)"

definition version_text :: "MCPClient \<Rightarrow> cstr" where
  "version_text client = (case mcp_negotiated_version client of None \<Rightarrow> [] | Some v \<Rightarrow> v)"

definition mcp_http_request ::
    "'w network \<Rightarrow> cstr \<Rightarrow> JsonValue option \<Rightarrow> MCPClient \<Rightarrow> 'w \<Rightarrow> JsonValue option \<times> MCPClient \<times> 'w" where
  "mcp_http_request W method params client w =
     (if mcp_url client = None then (None, client, w)
      else if \<not> mcp_negotiated client then
        let ((first, status, _), client, w) =
              post_once W MCP_HTTP_PROTOCOL_VERSION method params None True False client w;
            (agreed, client, w) = (if status = 400 then negotiate_legacy W client w else (False, client, w)) in
        if agreed
        then let ((reply, _), client, w) =
               post_once W (version_text client) method params (mcp_session_id client) False False client w in
          (reply, client, w)
        else (first, client\<lparr>mcp_negotiated := True, mcp_negotiated_version := Some MCP_HTTP_PROTOCOL_VERSION\<rparr>, w)
      else let ((reply, _), client, w) =
             post_once W (version_text client) method params (mcp_session_id client) (\<not> mcp_legacy client) False client w in
        (reply, client, w))"

section \<open>Requests of either transport\<close>

definition mcp_client_request ::
    "'w network \<Rightarrow> cstr \<Rightarrow> JsonValue option \<Rightarrow> MCPClient \<Rightarrow> 'w \<Rightarrow> JsonValue option \<times> MCPClient \<times> 'w" where
  "mcp_client_request W method params c w =
     (if \<not> mcp_connected c then (None, c, w)
      else case mcp_transport c of
        MCP_TRANSPORT_HTTP \<Rightarrow> mcp_http_request W method params c w
      | MCP_TRANSPORT_STDIO \<Rightarrow> let (r, c) = mcp_stdio_request method params c in (r, c, w))"

definition mcp_client_list_tools ::
    "'w network \<Rightarrow> MCPClient \<Rightarrow> 'w \<Rightarrow> JsonValue option \<times> MCPClient \<times> 'w" where
  "mcp_client_list_tools W c w =
     (let (resp, c, w) = mcp_client_request W ''tools/list'' None c w in
      (Option.bind (json_obj_get (json_obj_get resp ''result'') ''tools'') json_deep_copy, c, w))"

definition tool_reply :: "JsonValue \<Rightarrow> cstr" where
  "tool_reply resp =
     (case json_obj_get (Some resp) ''error'' of
        Some err \<Rightarrow> ''MCP Error: '' @ (case json_obj_get_str (Some err) ''message'' of None \<Rightarrow> ''Unknown error'' | Some m \<Rightarrow> m)
      | None \<Rightarrow> (case json_obj_get (Some resp) ''result'' of
          None \<Rightarrow> ''Error: Missing result in MCP response.''
        | Some result \<Rightarrow>
          let out = (case json_obj_get (Some result) ''content'' of
                Some (JSON_ARRAY items) \<Rightarrow>
                  concat (map (\<lambda>item. case json_obj_get_str (Some item) ''text'' of None \<Rightarrow> [] | Some t \<Rightarrow> t) items)
              | _ \<Rightarrow> json_text result) in
          if out = [] then ''Tool execution completed with empty result.'' else out))"

definition call_params :: "cstr \<Rightarrow> JsonValue \<Rightarrow> JsonValue" where
  "call_params tool args = json_obj_add (json_obj_add json_create_object
     ''name'' (json_create_string (Some tool))) ''arguments'' args"

definition mcp_client_call_tool ::
    "'w network \<Rightarrow> cstr \<Rightarrow> JsonValue option \<Rightarrow> MCPClient \<Rightarrow> 'w \<Rightarrow> cstr \<times> MCPClient \<times> 'w" where
  "mcp_client_call_tool W tool arguments c w =
     (if \<not> mcp_connected c then (''Error: MCP client not connected.'', c, w)
      else case (case arguments of None \<Rightarrow> Some json_create_object | Some a \<Rightarrow> json_deep_copy a) of
        None \<Rightarrow> (''Error: failed to copy MCP tool arguments.'', c, w)
      | Some args \<Rightarrow>
        let (resp, c, w) = mcp_client_request W ''tools/call'' (Some (call_params tool args)) c w in
        (case resp of None \<Rightarrow> ''Error: MCP server request timed out or returned empty response.''
         | Some r \<Rightarrow> tool_reply r, c, w))"

datatype close_action = Close_Stdin | Close_Stdout | Send_SIGTERM | Reap_Child

definition mcp_client_close :: "MCPClient \<Rightarrow> close_action list" where
  "mcp_client_close client =
     (case mcp_transport client of
        MCP_TRANSPORT_STDIO \<Rightarrow> [Close_Stdin, Close_Stdout, Send_SIGTERM, Reap_Child]
      | MCP_TRANSPORT_HTTP \<Rightarrow> [])"

section \<open>Lemmas: lines of a child process\<close>

definition mcp_wire :: "JsonValue list \<Rightarrow> mcp_event list" where
  "mcp_wire vs = concat (map (\<lambda>v. map Got (json_text v @ [LF])) vs)"

definition parseable :: "JsonValue \<Rightarrow> bool" where
  "parseable v \<longleftrightarrow> json_ok v \<and> jdepth v \<le> JSON_MAX_DEPTH"

lemma parseable_copy [simp]: "parseable v \<Longrightarrow> json_parse (Some (json_text v)) = Some v"
  by (simp add: parseable_def json_parse_text)

lemma read_line_text:
  "LF \<notin> set s \<Longrightarrow> CR \<notin> set s \<Longrightarrow> NUL \<notin> set s \<Longrightarrow> read_line (map Got s @ Got LF # es) = (s, es)"
  by (induction s) auto

lemma read_reply:
  assumes "parseable v"
  shows "read_line_timeout (mcp_wire (v # vs) @ es) = (Some (json_text v), mcp_wire vs @ es)"
proof -
  obtain c t where "json_text v = c # t" using json_text_head[of v] assms by (auto simp: parseable_def)
  moreover have "read_line (map Got (json_text v) @ Got LF # mcp_wire vs @ es) = (json_text v, mcp_wire vs @ es)"
    using json_text_no_lf[of v] json_text_no_cr[of v] json_text_no_nul[of v] assms
    by (intro read_line_text) (auto simp: parseable_def nul_free_def)
  ultimately show ?thesis by (simp add: read_line_timeout_def mcp_wire_def nonempty_def)
qed

text \<open>A sequence of requests over one pair of pipes.\<close>

fun stdio_requests :: "(cstr \<times> JsonValue option) list \<Rightarrow> MCPClient \<Rightarrow> JsonValue option list \<times> MCPClient" where
  "stdio_requests [] c = ([], c)"
| "stdio_requests ((m, p) # ms) c =
     (let (r, c) = mcp_stdio_request m p c; (rs, c) = stdio_requests ms c in (r # rs, c))"

definition copyable :: "JsonValue option \<Rightarrow> bool" where
  "copyable p \<longleftrightarrow> (case p of None \<Rightarrow> True | Some v \<Rightarrow> parseable v)"

lemma stdio_request_step:
  assumes "copyable p" and "read_line_timeout (mcp_stdout c) = (line, es)"
  shows "mcp_stdio_request m p c = (json_parse line, c\<lparr>mcp_request_id := mcp_request_id c + 1,
    mcp_stdin := mcp_stdin c @ json_text (stdio_request (mcp_request_id c) m p) @ [LF], mcp_stdout := es\<rparr>)"
  using assms by (cases p) (simp_all add: mcp_stdio_request_def copyable_def json_deep_copy_def next_id_def safe_write_def)

lemma stdio_requests_run:
  assumes "length ms = length vs" and "\<forall>(m, p) \<in> set ms. copyable p" and "\<forall>v \<in> set vs. parseable v"
    and "mcp_stdout c = mcp_wire vs @ es"
  shows "fst (stdio_requests ms c) = map Some vs \<and> mcp_stdout (snd (stdio_requests ms c)) = es"
  using assms
proof (induction ms vs arbitrary: c rule: list_induct2)
  case Nil
  then show ?case by (simp add: mcp_wire_def)
next
  case (Cons mp ms v vs)
  obtain m p where mp: "mp = (m, p)" by (cases mp)
  have r: "read_line_timeout (mcp_stdout c) = (Some (json_text v), mcp_wire vs @ es)"
    using Cons.prems read_reply by simp
  have k: "copyable p" "parseable v" using Cons.prems(1,2) mp by auto
  show ?case
    using Cons.IH[of "snd (mcp_stdio_request m p c)"] Cons.prems(1,2) k
    by (simp add: mp stdio_request_step[OF k(1) r] case_prod_unfold)
qed

fun request_lines :: "int \<Rightarrow> (cstr \<times> JsonValue option) list \<Rightarrow> cstr" where
  "request_lines i [] = []"
| "request_lines i ((m, p) # ms) = json_text (stdio_request i m p) @ [LF] @ request_lines (i + 1) ms"

lemma request_ids_run:
  assumes "\<forall>(m, p) \<in> set ms. copyable p"
  shows "mcp_stdin (snd (stdio_requests ms c)) = mcp_stdin c @ request_lines (mcp_request_id c) ms"
  using assms
proof (induction ms arbitrary: c)
  case (Cons mp ms)
  obtain m p where mp: "mp = (m, p)" by (cases mp)
  obtain line es where r: "read_line_timeout (mcp_stdout c) = (line, es)" by (cases "read_line_timeout (mcp_stdout c)")
  have k: "copyable p" using Cons.prems mp by auto
  show ?case
    using Cons.IH[of "snd (mcp_stdio_request m p c)"] Cons.prems
    by (simp add: mp stdio_request_step[OF k r] case_prod_unfold Let_def)
qed simp

definition rpc_reply :: "int \<Rightarrow> JsonValue \<Rightarrow> JsonValue" where
  "rpc_reply i result = JSON_OBJECT [(''jsonrpc'', JSON_STRING ''2.0''), (''id'', JSON_NUMBER (double_of_int i)),
     (''result'', result)]"

definition text_item :: "cstr \<Rightarrow> JsonValue" where
  "text_item t = JSON_OBJECT [(''type'', JSON_STRING ''text''), (''text'', JSON_STRING t)]"

definition text_result :: "cstr list \<Rightarrow> JsonValue" where
  "text_result ts = JSON_OBJECT [(''content'', JSON_ARRAY (map text_item ts))]"

lemma tool_reply_texts:
  "tool_reply (rpc_reply i (text_result ts)) =
     (if concat ts = [] then ''Tool execution completed with empty result.'' else concat ts)"
  by (simp add: tool_reply_def rpc_reply_def text_result_def json_obj_get_def json_obj_get_str_def text_item_def o_def)

lemma text_result_depth: "jdepth (text_result ts) \<le> 3"
proof -
  have "foldr max (map (\<lambda>t. jdepth (text_item t)) ts) 0 \<le> 1" by (induction ts) (simp_all add: text_item_def)
  then show ?thesis by (simp add: text_result_def o_def)
qed

lemma parseable_text_reply:
  assumes "0 \<le> i" "i < 2 ^ 53" and "\<forall>t \<in> set ts. nul_free t"
  shows "parseable (rpc_reply i (text_result ts))"
proof -
  have "double_of_int i = double_of_nat (nat i)" using assms(1) double_of_int_nat[of "nat i"] by simp
  moreover have "nat i < 2 ^ 53" using assms(1,2) by (simp add: nat_less_iff)
  moreover have "json_ok (text_result ts)" using assms(3) by (auto simp: text_result_def text_item_def list_all_iff)
  ultimately show ?thesis
    using text_result_depth[of ts] by (simp add: parseable_def rpc_reply_def JSON_MAX_DEPTH_def)
qed

section \<open>Lemmas: event streams\<close>

definition field_line :: "cstr \<Rightarrow> bool" where
  "field_line h \<longleftrightarrow> h \<noteq> [] \<and> LF \<notin> set h \<and> last h \<noteq> CR \<and> \<not> has_prefix ''data:'' h"

text \<open>An event: field lines such as \<open>event: message\<close>, then the value as its data.\<close>

definition sse_event :: "cstr list \<Rightarrow> JsonValue \<Rightarrow> cstr" where
  "sse_event hs v = concat (map (\<lambda>h. h @ [CR, LF]) hs) @ ''data: '' @ json_text v @ [CR, LF, CR, LF]"

lemma body_line_crlf:
  assumes "LF \<notin> set l"
  shows "body_line (l @ CR # LF # r) = (l, Some r)"
proof -
  have t: "takeWhile (\<lambda>c. c \<noteq> LF) (l @ CR # LF # r) = l @ [CR]" using assms by (induction l) auto
  have "strchr (l @ CR # LF # r) LF = Some (LF # r)" using assms by (induction l) auto
  with t show ?thesis by (simp add: body_line_def)
qed

lemma sse_loop_line:
  assumes "LF \<notin> set l"
  shows "sse_loop (l @ CR # LF # r) st = sse_loop r (sse_line l st)"
  by (subst sse_loop.simps) (simp add: body_line_crlf[OF assms])

lemma sse_loop_fields:
  "\<forall>h \<in> set hs. field_line h \<Longrightarrow> sse_loop (concat (map (\<lambda>h. h @ [CR, LF]) hs) @ r) st = sse_loop r st"
proof (induction hs)
  case (Cons h hs)
  have "sse_line h st = st" using Cons.prems by (auto simp: sse_line_def field_line_def split: prod.split)
  with Cons show ?case using sse_loop_line[of h] by (simp add: field_line_def)
qed simp

lemma sse_loop_event:
  assumes "\<forall>h \<in> set hs. field_line h" and "parseable v"
  shows "sse_loop (sse_event hs v @ r) ([], latest) = sse_loop r ([], Some v)"
proof -
  obtain c t where ct: "json_text v = c # t" "\<not> is_json_ws c"
    using json_text_head[of v] assms(2) by (auto simp: parseable_def)
  have "\<not> blank c" using ct(2) by (simp add: blank_def is_json_ws_def)
  then have d: "dropWhile blank (CHR '' '' # json_text v) = json_text v" by (simp add: ct(1)) (simp add: blank_def)
  have l: "LF \<notin> set (''data: '' @ json_text v)" using json_text_no_lf[of v] by simp
  have a: "sse_line (''data: '' @ json_text v) ([], latest) = (json_text v, latest)"
    using d by (simp add: sse_line_def)
  have f: "sse_line [] (json_text v, latest) = ([], Some v)"
    using assms(2) ct(1) parseable_copy[of v] by (simp add: sse_line_def flush_event_def parse_json_slice_def)
  have "sse_loop (sse_event hs v @ r) ([], latest) = sse_loop ((''data: '' @ json_text v) @ CR # LF # [] @ CR # LF # r) ([], latest)"
    using sse_loop_fields[OF assms(1)] by (simp add: sse_event_def)
  also have "\<dots> = sse_loop ([] @ CR # LF # r) (json_text v, latest)" using sse_loop_line[OF l] a by simp
  also have "\<dots> = sse_loop r ([], Some v)" using sse_loop_line[of "[]"] f by simp
  finally show ?thesis .
qed

lemma sse_loop_events:
  "\<forall>(hs, v) \<in> set evs. (\<forall>h \<in> set hs. field_line h) \<and> parseable v \<Longrightarrow>
     sse_loop (concat (map (\<lambda>(hs, v). sse_event hs v) evs)) ([], latest) =
       ([], if evs = [] then latest else Some (snd (last evs)))"
proof (induction evs arbitrary: latest)
  case Nil
  then show ?case by (simp add: sse_loop.simps)
next
  case (Cons e evs)
  then show ?case by (cases e) (simp add: sse_loop_event)
qed

lemma sse_loop_one_line:
  assumes "LF \<notin> set s" "s \<noteq> []" "\<not> has_prefix ''data:'' s" "last s \<noteq> CR"
  shows "sse_loop s ([], None) = ([], None)"
proof -
  have t: "takeWhile (\<lambda>c. c \<noteq> LF) s = s" using assms(1) by (induction s) auto
  have "body_line s = (s, None)" using assms unfolding body_line_def t by simp
  then show ?thesis using assms by (subst sse_loop.simps) (simp add: sse_line_def)
qed

section \<open>Lemmas: negotiation\<close>

text \<open>A network that also records the requests it is given.\<close>

definition logged :: "'w network \<Rightarrow> ('w \<times> http_request list) network" where
  "logged W = \<lparr>perform = \<lambda>r (w, l). let (out, w) = perform W r w in (out, (w, l @ [r])),
     curl_ready = curl_ready W, curl_strerror = curl_strerror W, env_var = env_var W, stdout_tty = stdout_tty W\<rparr>"

definition fresh :: "MCPClient \<Rightarrow> bool" where
  "fresh c \<longleftrightarrow> mcp_url c \<noteq> None \<and> \<not> mcp_negotiated c \<and> \<not> mcp_legacy c \<and> mcp_session_id c = None"

definition pinned :: "MCPClient \<Rightarrow> bool" where
  "pinned c \<longleftrightarrow> mcp_url c \<noteq> None \<and> mcp_negotiated c \<and> \<not> mcp_legacy c \<and> mcp_session_id c = None \<and>
     mcp_negotiated_version c = Some MCP_HTTP_PROTOCOL_VERSION"

definition modern_request :: "cstr \<Rightarrow> JsonValue option \<Rightarrow> MCPClient \<Rightarrow> http_request" where
  "modern_request m p c = post_request MCP_HTTP_PROTOCOL_VERSION m p None True False c"

fun http_requests ::
    "'w network \<Rightarrow> (cstr \<times> JsonValue option) list \<Rightarrow> MCPClient \<Rightarrow> 'w \<Rightarrow> JsonValue option list \<times> MCPClient \<times> 'w" where
  "http_requests W [] c w = ([], c, w)"
| "http_requests W ((m, p) # ms) c w =
     (let (r, c, w) = mcp_http_request W m p c w; (rs, c, w) = http_requests W ms c w in (r # rs, c, w))"

fun modern_requests :: "(cstr \<times> JsonValue option) list \<Rightarrow> MCPClient \<Rightarrow> http_request list" where
  "modern_requests [] c = []"
| "modern_requests ((m, p) # ms) c = modern_request m p c # modern_requests ms (next_id c)"

lemma logged_simps [simp]:
  "perform (logged W) r (w, l) = (let (out, w) = perform W r w in (out, (w, l @ [r])))"
  "curl_ready (logged W) = curl_ready W"
  by (simp_all add: logged_def)

lemma next_id_simps [simp]:
  "mcp_url (next_id c) = mcp_url c" "mcp_negotiated (next_id c) = mcp_negotiated c"
  "mcp_legacy (next_id c) = mcp_legacy c" "mcp_session_id (next_id c) = mcp_session_id c"
  "mcp_negotiated_version (next_id c) = mcp_negotiated_version c" "mcp_bearer_token (next_id c) = mcp_bearer_token c"
  "mcp_request_id (next_id c) = mcp_request_id c + 1" "mcp_transport (next_id c) = mcp_transport c"
  "mcp_connected (next_id c) = mcp_connected c" "mcp_timeout_ms (next_id c) = mcp_timeout_ms c"
  by (simp_all add: next_id_def)

lemma post_once_client: "fst (snd (post_once W v m p s meta note c w)) = next_id c"
  by (simp add: post_once_def Let_def split: prod.split)

lemma post_once_log:
  "curl_ready W \<Longrightarrow> snd (snd (snd (post_once (logged W) v m p s meta note c (w, l)))) = l @ [post_request v m p s meta note c]"
  by (simp add: post_once_def Let_def split: prod.split)

lemma pinned_next [simp]: "pinned (next_id c) = pinned c"
  by (simp add: pinned_def)

lemma pinned_request:
  assumes "pinned c"
  shows "mcp_http_request W m p c w =
    (fst (fst (post_once W MCP_HTTP_PROTOCOL_VERSION m p None True False c w)), next_id c,
     snd (snd (post_once W MCP_HTTP_PROTOCOL_VERSION m p None True False c w)))"
  using assms post_once_client[of W MCP_HTTP_PROTOCOL_VERSION m p None True False c w]
  by (auto simp: mcp_http_request_def pinned_def version_text_def split: prod.split)

lemma pinned_run:
  assumes "curl_ready W" and "pinned c"
  shows "snd (snd (snd (http_requests (logged W) ms c (w, l)))) = l @ modern_requests ms c"
  using assms(2)
proof (induction ms arbitrary: c w l)
  case (Cons mp ms)
  obtain m p where mp: "mp = (m, p)" by (cases mp)
  let ?post = "post_once (logged W) MCP_HTTP_PROTOCOL_VERSION m p None True False c (w, l)"
  obtain w1 l1 where wl: "snd (snd ?post) = (w1, l1)" by (cases "snd (snd ?post)")
  have "l1 = l @ [modern_request m p c]"
    using post_once_log[OF assms(1), of MCP_HTTP_PROTOCOL_VERSION m p None True False c w l] wl
    by (simp add: modern_request_def)
  then show ?case
    using Cons.IH[of "next_id c" w1 l1] Cons.prems wl
    by (simp add: mp pinned_request[OF Cons.prems] case_prod_unfold Let_def)
qed simp

lemma first_request_pins:
  assumes "fresh c" and "http_status (fst (perform W (modern_request m p c) w)) \<noteq> 400"
  shows "\<exists>r. mcp_http_request W m p c w =
     (r, (next_id c)\<lparr>mcp_negotiated := True, mcp_negotiated_version := Some MCP_HTTP_PROTOCOL_VERSION\<rparr>,
      snd (snd (post_once W MCP_HTTP_PROTOCOL_VERSION m p None True False c w)))"
  using assms
  by (auto simp: mcp_http_request_def fresh_def modern_request_def post_once_def Let_def split: prod.split)

definition pipe_client :: "mcp_event list \<Rightarrow> MCPClient" where
  "pipe_client out = \<lparr>mcp_transport = MCP_TRANSPORT_STDIO, mcp_command = Some ''server'', mcp_stdin = [], mcp_stdout = out,
     mcp_request_id = 2, mcp_connected = True, mcp_url = None, mcp_bearer_token = None, mcp_timeout_ms = 0,
     mcp_session_id = None, mcp_negotiated_version = None, mcp_negotiated = False, mcp_legacy = False\<rparr>"

definition http_client :: "bool \<Rightarrow> MCPClient" where
  "http_client agreed = \<lparr>mcp_transport = MCP_TRANSPORT_HTTP, mcp_command = None, mcp_stdin = [], mcp_stdout = [],
     mcp_request_id = 1, mcp_connected = True, mcp_url = Some ''https://tools.example'', mcp_bearer_token = Some ''t0ken'',
     mcp_timeout_ms = 15000, mcp_session_id = None,
     mcp_negotiated_version = (if agreed then Some MCP_HTTP_PROTOCOL_VERSION else None),
     mcp_negotiated = agreed, mcp_legacy = False\<rparr>"

definition answering :: "http_outcome \<Rightarrow> unit network" where
  "answering out = \<lparr>perform = \<lambda>r w. (out, w), curl_ready = True, curl_strerror = (\<lambda>e. ''Timeout''),
     env_var = (\<lambda>v. None), stdout_tty = False\<rparr>"

section \<open>Properties\<close>

text \<open>A tool call over the pipes of a child process: the child is sent exactly one line, which parses
  to a request for the tool with the arguments given; and when it answers with texts, the caller gets
  these texts, whatever the child writes behind its answer staying unread.\<close>

theorem stdio_call_roundtrip:
  assumes "mcp_transport c = MCP_TRANSPORT_STDIO" and "mcp_connected c"
    and "0 \<le> mcp_request_id c" and "mcp_request_id c < 2 ^ 31"
    and "nul_free tool" and "json_ok args" and "jdepth args \<le> 126" and "\<forall>t \<in> set ts. nul_free t" and "concat ts \<noteq> []"
    and "mcp_stdout c = mcp_wire [rpc_reply (mcp_request_id c) (text_result ts)] @ es"
  shows "\<exists>line c'. mcp_client_call_tool W tool (Some args) c w = (concat ts, c', w) \<and> mcp_stdout c' = es \<and>
    mcp_stdin c' = mcp_stdin c @ line @ [LF] \<and> LF \<notin> set line \<and>
    json_parse (Some line) = Some (stdio_request (mcp_request_id c) ''tools/call''
      (Some (JSON_OBJECT [(''name'', JSON_STRING tool), (''arguments'', args)])))"
proof -
  let ?i = "mcp_request_id c" and ?p = "call_params tool args"
  have i: "double_of_int ?i = double_of_nat (nat ?i)" "nat ?i < 2 ^ 53"
    using assms(3,4) double_of_int_nat[of "nat ?i"] by (auto simp: nat_less_iff)
  have a: "parseable args" using assms(6,7) by (simp add: parseable_def JSON_MAX_DEPTH_def)
  have p: "?p = JSON_OBJECT [(''name'', JSON_STRING tool), (''arguments'', args)]"
    by (simp add: call_params_def json_create_object_def json_create_string_def)
  have pp: "parseable ?p" and c: "copyable (Some ?p)"
    using assms(5-7) by (auto simp: p parseable_def copyable_def JSON_MAX_DEPTH_def)
  have r: "parseable (rpc_reply ?i (text_result ts))"
    by (rule parseable_text_reply) (use assms(3,4,8) in auto)
  have q: "parseable (stdio_request ?i ''tools/call'' (Some ?p))"
    using i assms(5-7) by (simp add: p stdio_request_def parseable_def JSON_MAX_DEPTH_def json_create_object_def
        json_create_string_def json_create_number_def)
  have e: "read_line_timeout (mcp_stdout c) = (Some (json_text (rpc_reply ?i (text_result ts))), es)"
    using read_reply[OF r, of "[]" es] assms(10) by (simp add: mcp_wire_def)
  let ?line = "json_text (stdio_request ?i ''tools/call'' (Some ?p))"
  let ?c' = "c\<lparr>mcp_request_id := ?i + 1, mcp_stdin := mcp_stdin c @ ?line @ [LF], mcp_stdout := es\<rparr>"
  have "mcp_client_call_tool W tool (Some args) c w = (concat ts, ?c', w)"
    using assms(1,2,9) a
    by (auto simp: mcp_client_call_tool_def mcp_client_request_def json_deep_copy_def stdio_request_step[OF c e]
        parseable_copy[OF r] tool_reply_texts)
  then show ?thesis using json_text_no_lf[of "stdio_request ?i ''tools/call'' (Some ?p)"] parseable_copy[OF q]
    by (intro exI[of _ ?line] exI[of _ ?c']) (simp add: p)
qed

theorem stdio_call_roundtrip_witness:
  "let args = JSON_OBJECT [(''path'', JSON_STRING ''a.txt'')];
       c = pipe_client (mcp_wire [rpc_reply 2 (text_result [''one '', ''two''])] @ [Got (CHR ''x'')])
   in \<exists>line c'. mcp_client_call_tool (answering undefined) ''read'' (Some args) c () = (''one two'', c', ()) \<and>
     mcp_stdout c' = [Got (CHR ''x'')] \<and> mcp_stdin c' = mcp_stdin c @ line @ [LF] \<and> LF \<notin> set line \<and>
     json_parse (Some line) = Some (stdio_request 2 ''tools/call''
      (Some (JSON_OBJECT [(''name'', JSON_STRING ''read''), (''arguments'', args)])))"
proof -
  let ?c = "pipe_client (mcp_wire [rpc_reply 2 (text_result [''one '', ''two''])] @ [Got (CHR ''x'')])"
  have i: "mcp_request_id ?c = 2" by (simp add: pipe_client_def)
  have "concat [''one '', ''two''] = ''one two''" by simp
  then show ?thesis
    using stdio_call_roundtrip[of ?c "''read''" "JSON_OBJECT [(''path'', JSON_STRING ''a.txt'')]" "[''one '', ''two'']"
        "[Got (CHR ''x'')]" "answering undefined" "()"] i
    by (simp add: pipe_client_def)
qed

text \<open>The pipe client takes the next line for the answer, whatever its id: once one request has run
  into its deadline and the child answers it later, every following request is given the answer to the
  request before it, for as long as the child answers in order.\<close>

theorem late_replies_cross:
  assumes "\<forall>(m, p) \<in> set ((m0, p0) # ms). copyable p" and "\<forall>v \<in> set results. parseable (rpc_reply 0 v)"
    and "length results = length ms" and "i = mcp_request_id c" and "0 \<le> i" and "i + int (length ms) < 2 ^ 53"
    and "mcp_stdout c = Deadline # mcp_wire (map (\<lambda>k. rpc_reply (i + int k) (results ! k)) [0..<length ms]) @ es"
  shows "fst (stdio_requests ((m0, p0) # ms) c) =
      None # map (\<lambda>k. Some (rpc_reply (i + int k) (results ! k))) [0..<length ms] \<and>
    mcp_stdin (snd (stdio_requests ((m0, p0) # ms) c)) =
      mcp_stdin c @ json_text (stdio_request i m0 p0) @ [LF] @ request_lines (i + 1) ms"
proof -
  let ?vs = "map (\<lambda>k. rpc_reply (i + int k) (results ! k)) [0..<length ms]"
  let ?c = "snd (mcp_stdio_request m0 p0 c)"
  have "parseable v" if "v \<in> set ?vs" for v
  proof -
    from that obtain k where k: "k < length ms" "v = rpc_reply (i + int k) (results ! k)" by auto
    have "double_of_int (i + int k) = double_of_nat (nat (i + int k))" "nat (i + int k) < 2 ^ 53"
      using k(1) assms(5,6) double_of_int_nat[of "nat (i + int k)"] by (auto simp: nat_less_iff)
    moreover have "parseable (rpc_reply 0 (results ! k))" using assms(2,3) k(1) by simp
    ultimately show ?thesis by (simp add: k(2) parseable_def rpc_reply_def)
  qed
  then have vs: "\<forall>v \<in> set ?vs. parseable v" by blast
  have c0: "copyable p0" "\<forall>(m, p) \<in> set ms. copyable p" using assms(1) by auto
  have r: "read_line_timeout (mcp_stdout c) = (None, mcp_wire ?vs @ es)"
    using assms(7) by (simp add: read_line_timeout_def nonempty_def)
  note step = stdio_request_step[OF c0(1) r]
  have "fst (stdio_requests ms ?c) = map Some ?vs"
    using stdio_requests_run[OF _ c0(2) vs, of ?c es] by (simp add: step)
  moreover have "mcp_stdin (snd (stdio_requests ms ?c)) = mcp_stdin ?c @ request_lines (i + 1) ms"
    using request_ids_run[OF c0(2), of ?c] by (simp add: step assms(4))
  moreover have "json_parse None = None" by (simp add: json_parse_def)
  ultimately show ?thesis by (simp add: step assms(4) case_prod_unfold Let_def o_def)
qed

theorem late_replies_cross_witness:
  "let ms = [(''a'', None), (''b'', None)]; results = [JSON_NULL, JSON_BOOL True];
       c = pipe_client (Deadline # mcp_wire (map (\<lambda>k. rpc_reply (2 + int k) (results ! k)) [0..<length ms]) @ [])
   in fst (stdio_requests ((''slow'', None) # ms) c) =
        None # map (\<lambda>k. Some (rpc_reply (2 + int k) (results ! k))) [0..<length ms] \<and>
      mcp_stdin (snd (stdio_requests ((''slow'', None) # ms) c)) =
        mcp_stdin c @ json_text (stdio_request 2 ''slow'' None) @ [LF] @ request_lines (2 + 1) ms"
proof -
  have z: "json_ok (JSON_NUMBER (double_of_int 0))" using double_of_int_nat[of 0] by simp
  show ?thesis unfolding Let_def
    by (rule late_replies_cross)
      (use z in \<open>simp_all add: copyable_def parseable_def rpc_reply_def JSON_MAX_DEPTH_def pipe_client_def\<close>)
qed

text \<open>Values sent as server-sent events, each behind any field lines, are read back: the reply is the
  value of the last event.\<close>

theorem event_stream_roundtrip:
  assumes "\<forall>(hs, v) \<in> set evs. (\<forall>h \<in> set hs. field_line h) \<and> parseable v" and "evs \<noteq> []"
  shows "mcp_http_parse_body (Some (concat (map (\<lambda>(hs, v). sse_event hs v) evs))) = Some (snd (last evs))"
proof -
  obtain hs v evs' where e: "evs = (hs, v) # evs'" using assms(2) by (cases evs) auto
  let ?b = "concat (map (\<lambda>(hs, v). sse_event hs v) evs)"
  obtain u t where "?b = u @ ''data:'' @ t" by (simp add: e sse_event_def)
  then have "strstr ?b ''data:'' \<noteq> None" "?b \<noteq> []" using strstr_hit[of u "''data:''" t] by auto
  moreover have "sse_loop ?b ([], None) = ([], Some (snd (last evs)))"
    using sse_loop_events[OF assms(1), of None] assms(2) by simp
  ultimately show ?thesis
    by (auto simp: mcp_http_parse_body_def nonempty_def flush_event_def parse_json_slice_def)
qed

theorem event_stream_roundtrip_witness:
  "mcp_http_parse_body (Some (concat (map (\<lambda>(hs, v). sse_event hs v)
     [([], JSON_STRING ''progress''), ([''event: message'', ''id: 7''], JSON_OBJECT [(''result'', JSON_STRING ''data: x'')])]))) =
   Some (snd (last [([], JSON_STRING ''progress''), ([''event: message'', ''id: 7''], JSON_OBJECT [(''result'', JSON_STRING ''data: x'')])]))"
  by (rule event_stream_roundtrip) (simp_all add: field_line_def parseable_def JSON_MAX_DEPTH_def)

text \<open>A plain JSON reply that mentions \<open>data:\<close> anywhere is taken for an event stream and lost: the
  caller is told that the server did not answer.\<close>

theorem reply_with_data_is_lost:
  assumes "mcp_transport c = MCP_TRANSPORT_HTTP" and "mcp_connected c" and "pinned c" and "curl_ready W"
    and "json_deep_copy args = Some args'"
    and "\<And>req. perform W req w = (\<lparr>curl_code = CURLE_OK, http_status = 200, reply_headers = [],
            reply_chunks = [json_text (JSON_OBJECT reply)]\<rparr>, w')"
    and "json_ok (JSON_OBJECT reply)" and "strstr (json_text (JSON_OBJECT reply)) ''data:'' \<noteq> None"
  shows "fst (mcp_client_call_tool W tool (Some args) c w) =
    ''Error: MCP server request timed out or returned empty response.''"
proof -
  let ?s = "json_text (JSON_OBJECT reply)"
  obtain t where s: "?s = CHR ''{'' # t @ [CHR ''}'']" by (simp add: json_text_def)
  have "sse_loop ?s ([], None) = ([], None)"
    using json_text_no_lf[of "JSON_OBJECT reply"] by (intro sse_loop_one_line) (simp_all add: s)
  then have lost: "mcp_http_parse_body (Some ?s) = None"
    using assms(8) by (auto simp: mcp_http_parse_body_def nonempty_def flush_event_def parse_json_slice_def s)
  have "takeWhile (\<lambda>c. c \<noteq> NUL) ?s = ?s"
    using json_text_no_nul[OF assms(7)] by (simp add: takeWhile_eq_all_conv nul_free_def) blast
  then have "c_string ?s = ?s" by (simp add: c_string_def)
  then show ?thesis using assms(1-6) lost
    by (simp add: mcp_client_call_tool_def mcp_client_request_def pinned_request post_once_def post_reply_def Let_def)
qed

theorem reply_with_data_is_lost_witness:
  "let reply = [(''result'', JSON_STRING ''metadata: none'')];
       W = answering \<lparr>curl_code = CURLE_OK, http_status = 200, reply_headers = [], reply_chunks = [json_text (JSON_OBJECT reply)]\<rparr>
   in fst (mcp_client_call_tool W ''look'' (Some (JSON_OBJECT [])) (http_client True) ()) =
     ''Error: MCP server request timed out or returned empty response.''"
proof -
  let ?reply = "[(''result'', JSON_STRING ''metadata: none'')]"
  let ?W = "answering \<lparr>curl_code = CURLE_OK, http_status = 200, reply_headers = [], reply_chunks = [json_text (JSON_OBJECT ?reply)]\<rparr>"
  have d: "strstr (json_text (JSON_OBJECT ?reply)) ''data:'' \<noteq> None" by code_simp
  have "fst (mcp_client_call_tool ?W ''look'' (Some (JSON_OBJECT [])) (http_client True) ()) =
     ''Error: MCP server request timed out or returned empty response.''"
    by (rule reply_with_data_is_lost[where reply = ?reply and args' = "JSON_OBJECT []" and w' = "()"])
      (use d in \<open>simp_all add: http_client_def pinned_def answering_def json_deep_copy_def json_parse_text JSON_MAX_DEPTH_def\<close>)
  then show ?thesis by simp
qed

text \<open>The protocol version is settled by the first request unless it is answered with status 400, a
  failed transport included: from then on every request is sent once, in the new protocol and without
  a session, whatever the server answers.\<close>

theorem first_failure_pins_version:
  assumes "fresh c" and "curl_ready W" and "http_status (fst (perform W (modern_request m p c) w)) \<noteq> 400"
  shows "snd (snd (snd (http_requests (logged W) ((m, p) # ms) c (w, [])))) = modern_requests ((m, p) # ms) c"
proof -
  have "http_status (fst (perform (logged W) (modern_request m p c) (w, []))) \<noteq> 400"
    using assms(3) by (cases "perform W (modern_request m p c) w") simp
  from first_request_pins[OF assms(1) this] obtain r where
    r: "mcp_http_request (logged W) m p c (w, []) =
      (r, (next_id c)\<lparr>mcp_negotiated := True, mcp_negotiated_version := Some MCP_HTTP_PROTOCOL_VERSION\<rparr>,
       snd (snd (post_once (logged W) MCP_HTTP_PROTOCOL_VERSION m p None True False c (w, []))))" by blast
  let ?c = "(next_id c)\<lparr>mcp_negotiated := True, mcp_negotiated_version := Some MCP_HTTP_PROTOCOL_VERSION\<rparr>"
  have pin: "pinned ?c" using assms(1) by (simp add: pinned_def fresh_def)
  have same: "modern_requests ms ?c = modern_requests ms (next_id c)"
  proof -
    have "modern_requests ms a = modern_requests ms b"
      if "mcp_url a = mcp_url b" "mcp_bearer_token a = mcp_bearer_token b" "mcp_timeout_ms a = mcp_timeout_ms b"
        "mcp_request_id a = mcp_request_id b" for a b
      using that by (induction ms arbitrary: a b rule: list.induct)
        (auto simp: modern_request_def post_request_def split: prod.splits)
    then show ?thesis by simp
  qed
  obtain w1 l1 where wl: "snd (snd (post_once (logged W) MCP_HTTP_PROTOCOL_VERSION m p None True False c (w, []))) = (w1, l1)"
    by (cases "snd (snd (post_once (logged W) MCP_HTTP_PROTOCOL_VERSION m p None True False c (w, [])))")
  have "l1 = [modern_request m p c]"
    using post_once_log[OF assms(2), of MCP_HTTP_PROTOCOL_VERSION m p None True False c w "[]"] wl
    by (simp add: modern_request_def)
  then show ?thesis
    using pinned_run[OF assms(2) pin, of ms w1 l1] wl same by (simp add: r case_prod_unfold Let_def)
qed

theorem first_failure_pins_version_witness:
  "let W = answering \<lparr>curl_code = CURLE_OPERATION_TIMEDOUT, http_status = 0, reply_headers = [], reply_chunks = []\<rparr>
   in snd (snd (snd (http_requests (logged W) [(''tools/list'', None), (''tools/list'', None)] (http_client False) ((), [])))) =
     modern_requests [(''tools/list'', None), (''tools/list'', None)] (http_client False)"
proof -
  let ?W = "answering \<lparr>curl_code = CURLE_OPERATION_TIMEDOUT, http_status = 0, reply_headers = [], reply_chunks = []\<rparr>"
  have "snd (snd (snd (http_requests (logged ?W) ((''tools/list'', None) # [(''tools/list'', None)]) (http_client False) ((), [])))) =
     modern_requests ((''tools/list'', None) # [(''tools/list'', None)]) (http_client False)"
    by (rule first_failure_pins_version) (simp_all add: fresh_def http_client_def answering_def)
  then show ?thesis by simp
qed

end
