(* ===== verification/Scavenger.thy ===== *)
theory Scavenger
  imports ModelAdapter
begin

text \<open>
  \<open>model_gateway_scavenge_tool_calls\<close>: a model that does not use the API's tool calls writes them
  into its text. The scavenger looks, in the reasoning and then in the content, for \<open>invoke\<close>
  elements, \<open>tool_call\<close> elements, bare JSON objects and, last, fenced shell code.

  A pointer into the text is the suffix it points to, so a pointer is behind another when its
  suffix is shorter. Every call found is appended by \<open>add_call\<close> with an id that counts all calls.
  The list of known tools has no NULL entries.
\<close>

section \<open>Calls found so far\<close>

definition is_known_tool :: "cstr list \<Rightarrow> cstr \<Rightarrow> bool" where
  "is_known_tool known name \<longleftrightarrow> name \<noteq> [] \<and> (known = [] \<or> name \<in> set known)"

definition add_call :: "cstr \<Rightarrow> cstr \<Rightarrow> cstr \<Rightarrow> ReplyCall list \<Rightarrow> ReplyCall list" where
  "add_call pre name args calls =
     calls @ [\<lparr>rc_id = Some (pre @ dec_text (length calls + 1)), rc_name = name, rc_args = args\<rparr>]"

section \<open>A JSON object as a call\<close>

text \<open>The name of the tool, and whether the object itself is its arguments.\<close>

definition guessed_name :: "JsonValue \<Rightarrow> (cstr \<times> bool) option" where
  "guessed_name root =
     (case first_str root [''name'', ''tool'', ''action''] of Some t \<Rightarrow> Some (t, False)
      | None \<Rightarrow>
        let has = (\<lambda>k. json_obj_get_str (Some root) k \<noteq> None) in
        if has ''command'' then Some (''bash'', True)
        else if has ''new_text'' \<and> has ''path'' then Some (''edit_file'', True)
        else if has ''content'' \<and> has ''path'' then Some (''write_file'', True)
        else if has ''pattern'' then Some (''search_files'', True)
        else None)"

fun first_member :: "JsonValue \<Rightarrow> cstr list \<Rightarrow> JsonValue option" where
  "first_member obj [] = None"
| "first_member obj (key # keys) =
     (case json_obj_get (Some obj) key of Some v \<Rightarrow> Some v | None \<Rightarrow> first_member obj keys)"

definition call_args :: "JsonValue \<Rightarrow> bool \<Rightarrow> cstr" where
  "call_args root self_args =
     (let v = (if self_args then root
               else case first_member root [''arguments'', ''parameters'', ''args'', ''action_input''] of
                 Some v \<Rightarrow> v | None \<Rightarrow> root) in
      case v of JSON_STRING s \<Rightarrow> s | _ \<Rightarrow> json_text v)"

definition try_add_scavenged_call :: "cstr \<Rightarrow> cstr list \<Rightarrow> ReplyCall list \<Rightarrow> ReplyCall list" where
  "try_add_scavenged_call json_str known calls =
     (case json_parse (Some json_str) of
        Some (JSON_OBJECT ms) \<Rightarrow>
          (case guessed_name (JSON_OBJECT ms) of None \<Rightarrow> calls
           | Some (tname, self_args) \<Rightarrow>
             if is_known_tool known tname
             then add_call ''scavenged_'' tname (call_args (JSON_OBJECT ms) self_args) calls
             else calls)
      | _ \<Rightarrow> calls)"

section \<open>invoke elements\<close>

definition invoke_tag :: cstr where "invoke_tag = ''invoke name='' @ [DQ]"
definition param_tag :: cstr where "param_tag = ''parameter name='' @ [DQ]"

definition TNAME_BUF :: nat where "TNAME_BUF = 64"

text \<open>A name that does not fit its buffer of 64 bytes is left empty.\<close>

definition fitted :: "cstr \<Rightarrow> cstr" where
  "fitted s = (if length s < TNAME_BUF then s else [])"

definition param_value :: "cstr \<Rightarrow> cstr" where
  "param_value raw = (let r = rskip (\<lambda>c. c \<noteq> CHR ''<'') raw in butlast r)"

function dsml_params :: "cstr \<Rightarrow> cstr \<Rightarrow> JsonValue \<Rightarrow> JsonValue" where
  "dsml_params param_p inv_end args =
     (case strstr param_p param_tag of None \<Rightarrow> args
      | Some q \<Rightarrow>
        if length q \<le> length inv_end then args
        else let pk_start = drop (length param_tag) q in
        case strchr pk_start DQ of None \<Rightarrow> args
        | Some pk_end \<Rightarrow>
          if length pk_end < length inv_end then args
          else case strchr pk_end (CHR ''>'') of None \<Rightarrow> args
          | Some gt \<Rightarrow>
            if length gt < length inv_end then args
            else let val_start = drop 1 gt in
            case strstr val_start ''parameter>'' of None \<Rightarrow> args
            | Some val_end \<Rightarrow>
              if length val_end < length inv_end then args
              else dsml_params (drop 10 val_end) inv_end
                (json_obj_add args (fitted (between pk_start pk_end))
                  (json_create_string (Some (param_value (between val_start val_end))))))"
  by pat_completeness auto
termination
proof (relation "measure (\<lambda>(p, i, a). length p)", goal_cases)
  case (2 param_p inv_end args q pk_start pk_end gt val_start val_end)
  have "length q \<le> length param_p" using 2 strstr_le by blast
  moreover have "length pk_end \<le> length pk_start" using 2 strchr_le by blast
  moreover have "length gt \<le> length pk_end" using 2 strchr_le by blast
  moreover have "length val_end \<le> length val_start" using 2 strstr_le by blast
  moreover have "length pk_start < length param_p"
    using strstr_rest[OF 2(1)] 2(3) by (simp add: param_tag_def)
  ultimately show ?case using 2(8) by simp
qed simp

declare dsml_params.simps [simp del]

function dsml_loop :: "cstr list \<Rightarrow> cstr \<Rightarrow> ReplyCall list \<Rightarrow> ReplyCall list" where
  "dsml_loop known p calls =
     (case strstr p invoke_tag of None \<Rightarrow> calls
      | Some q \<Rightarrow>
        let name_start = drop (length invoke_tag) q in
        case strchr name_start DQ of None \<Rightarrow> calls
        | Some name_end \<Rightarrow>
          (case strstr name_end ''invoke>'' of None \<Rightarrow> calls
           | Some inv_end \<Rightarrow>
             let tname = fitted (between name_start name_end);
                 args_obj = dsml_params name_end inv_end json_create_object;
                 calls = (if is_known_tool known tname
                          then add_call ''dsml_'' tname (json_text args_obj) calls else calls) in
             dsml_loop known (drop 7 inv_end) calls))"
  by pat_completeness auto
termination
proof (relation "measure (\<lambda>(k, p, c). length p)", goal_cases)
  case (2 known p calls q name_start name_end inv_end)
  have "length name_start < length p" using strstr_rest[OF 2(1)] 2(2) by (simp add: invoke_tag_def)
  moreover have "length name_end \<le> length name_start" using 2 strchr_le by blast
  moreover have "length inv_end \<le> length name_end" using 2 strstr_le by blast
  ultimately show ?case by simp
qed simp

declare dsml_loop.simps [simp del]

section \<open>tool_call elements\<close>

function tag_loop :: "cstr list \<Rightarrow> cstr \<Rightarrow> ReplyCall list \<Rightarrow> ReplyCall list" where
  "tag_loop known p calls =
     (case strstr p ''<tool_call>'' of None \<Rightarrow> calls
      | Some q \<Rightarrow>
        let p = drop 11 q in
        case strstr p ''</tool_call>'' of None \<Rightarrow> calls
        | Some end_tag \<Rightarrow>
          let sub = between p end_tag;
              text = (case extract_json_object (Some sub) of Some (t, off) \<Rightarrow> t | None \<Rightarrow> sub) in
          tag_loop known (drop 12 end_tag) (try_add_scavenged_call text known calls))"
  by pat_completeness auto
termination
proof (relation "measure (\<lambda>(k, p, c). length p)", goal_cases)
  case (2 known p calls q p' end_tag)
  have "length p' < length p" using strstr_rest[OF 2(1)] 2(2) by simp
  moreover have "length end_tag \<le> length p'" using 2 strstr_le by blast
  ultimately show ?case by simp
qed simp

declare tag_loop.simps [simp del]

section \<open>Bare JSON objects\<close>

function json_loop :: "cstr list \<Rightarrow> cstr \<Rightarrow> ReplyCall list \<Rightarrow> ReplyCall list" where
  "json_loop known p calls =
     (case strchr p (CHR ''{'') of None \<Rightarrow> calls
      | Some p1 \<Rightarrow>
        (case extract_json_object (Some p1) of
           Some (t, next_off) \<Rightarrow>
             let calls' = (if next_off > 0 then try_add_scavenged_call t known calls else calls) in
             if next_off > 0 \<and> length calls' > length calls
             then json_loop known (drop next_off p1) calls'
             else json_loop known (drop 1 p1) calls'
         | None \<Rightarrow> json_loop known (drop 1 p1) calls))"
  by pat_completeness auto
termination
  by (relation "measure (\<lambda>(k, p, c). length p)") (auto intro: strchr_step simp del: length_drop)

declare json_loop.simps [simp del]

section \<open>Fenced shell code\<close>

definition fence :: cstr where "fence = [BQ, BQ, BQ]"

text \<open>Behind an opening fence: the code, when the fence is one of a shell.\<close>

definition shell_code :: "cstr \<Rightarrow> cstr option" where
  "shell_code cb =
     (if has_prefix (''bash'' @ [LF]) cb \<or> has_prefix (''bash'' @ [CR, LF]) cb \<or>
         has_prefix (''sh'' @ [LF]) cb \<or> has_prefix (''sh'' @ [CR, LF]) cb
      then map_option (drop 1) (strchr cb LF) else None)"

function fence_loop :: "cstr \<Rightarrow> ReplyCall list \<Rightarrow> ReplyCall list" where
  "fence_loop cb calls =
     (case strstr cb fence of None \<Rightarrow> calls
      | Some q \<Rightarrow>
        let cb = drop (length fence) q in
        case shell_code cb of None \<Rightarrow> fence_loop cb calls
        | Some code \<Rightarrow>
          (case strstr code fence of None \<Rightarrow> fence_loop code calls
           | Some cb_end \<Rightarrow>
             if length cb_end < length code then
               let cmd = rskip is_blank (between code cb_end);
                   calls = (if cmd \<noteq> [] then add_call ''codeblock_'' ''bash''
                              (json_text (json_obj_add json_create_object ''command'' (json_create_string (Some cmd)))) calls
                            else calls) in
               fence_loop (drop (length fence) cb_end) calls
             else fence_loop code calls))"
  by pat_completeness auto
termination
proof (relation "measure (\<lambda>(p, c). length p)", goal_cases)
  case (2 cb calls q cb')
  then show ?case using strstr_rest[OF 2(1)] by (simp add: fence_def)
next
  case (3 cb calls q cb' code)
  have "length code \<le> length cb'" using 3(3)
    by (auto simp: shell_code_def split: if_splits dest!: strchr_le)
  moreover have "length cb' < length cb" using strstr_rest[OF 3(1)] 3(2) by (simp add: fence_def)
  ultimately show ?case by simp
next
  case (4 cb calls q cb' code cb_end cmd calls')
  have "length code \<le> length cb'" using 4(3)
    by (auto simp: shell_code_def split: if_splits dest!: strchr_le)
  moreover have "length cb' < length cb" using strstr_rest[OF 4(1)] 4(2) by (simp add: fence_def)
  ultimately show ?case using 4(5) by simp
next
  case (5 cb calls q cb' code cb_end)
  have "length code \<le> length cb'" using 5(3)
    by (auto simp: shell_code_def split: if_splits dest!: strchr_le)
  moreover have "length cb' < length cb" using strstr_rest[OF 5(1)] 5(2) by (simp add: fence_def)
  ultimately show ?case by simp
qed simp

declare fence_loop.simps [simp del]

section \<open>The scavenger\<close>

definition scavenge_source :: "cstr list \<Rightarrow> cstr \<Rightarrow> ReplyCall list \<Rightarrow> ReplyCall list" where
  "scavenge_source known src calls =
     (let found = tag_loop known src (dsml_loop known src calls);
          found = (if length found = length calls then json_loop known src found else found) in
      if length found = length calls \<and> is_known_tool known ''bash'' then fence_loop src found else found)"

definition model_gateway_scavenge_tool_calls :: scavenger where
  "model_gateway_scavenge_tool_calls text reasoning known =
     foldl (\<lambda>calls src. case nonempty src of None \<Rightarrow> calls | Some t \<Rightarrow> scavenge_source known t calls)
       [] [reasoning, text]"

section \<open>Every call is numbered and known\<close>

definition id_prefixes :: "cstr list" where
  "id_prefixes = [''scavenged_'', ''dsml_'', ''codeblock_'']"

definition numbered :: "cstr list \<Rightarrow> ReplyCall list \<Rightarrow> bool" where
  "numbered known cs \<longleftrightarrow>
     (\<forall>i < length cs. (\<exists>pre \<in> set id_prefixes. rc_id (cs ! i) = Some (pre @ dec_text (i + 1))) \<and>
        is_known_tool known (rc_name (cs ! i)))"

lemma numbered_Nil [intro!]: "numbered known []"
  by (simp add: numbered_def)

lemma numbered_add [intro]:
  "numbered known cs \<Longrightarrow> pre \<in> set id_prefixes \<Longrightarrow> is_known_tool known name \<Longrightarrow>
     numbered known (add_call pre name args cs)"
  by (auto simp: numbered_def add_call_def nth_append less_Suc_eq)

lemma prefixes_in [simp]:
  "''scavenged_'' \<in> set id_prefixes" "''dsml_'' \<in> set id_prefixes" "''codeblock_'' \<in> set id_prefixes"
  by (simp_all add: id_prefixes_def)

lemma numbered_try [intro]: "numbered known cs \<Longrightarrow> numbered known (try_add_scavenged_call t known cs)"
  by (auto simp: try_add_scavenged_call_def split: option.split JsonValue.split)

lemma numbered_dsml: "numbered known cs \<Longrightarrow> numbered known (dsml_loop known p cs)"
proof (induction known p cs rule: dsml_loop.induct)
  case (1 known p cs)
  show ?case
    by (subst dsml_loop.simps) (auto simp: Let_def intro!: 1 split: option.split)
qed

lemma numbered_tag: "numbered known cs \<Longrightarrow> numbered known (tag_loop known p cs)"
proof (induction known p cs rule: tag_loop.induct)
  case (1 known p cs)
  show ?case
    by (subst tag_loop.simps) (auto simp: Let_def intro!: 1 split: option.split)
qed

lemma numbered_json: "numbered known cs \<Longrightarrow> numbered known (json_loop known p cs)"
proof (induction known p cs rule: json_loop.induct)
  case (1 known p cs)
  show ?case
  proof (cases "strchr p (CHR ''{'')")
    case None
    with 1(4) show ?thesis by (simp add: json_loop.simps[of known p])
  next
    case (Some p1)
    show ?thesis
    proof (cases "extract_json_object (Some p1)")
      case None
      with Some 1(1)[OF Some None 1(4)] show ?thesis by (simp add: json_loop.simps[of known p])
    next
      case e: (Some x)
      obtain t off where x: "x = (t, off)" by (cases x)
      let ?c = "if off > 0 then try_add_scavenged_call t known cs else cs"
      have "numbered known ?c" using 1(4) by auto
      then have "0 < off \<and> length cs < length ?c \<Longrightarrow> numbered known (json_loop known (drop off p1) ?c)"
        "\<not> (0 < off \<and> length cs < length ?c) \<Longrightarrow> numbered known (json_loop known (drop 1 p1) ?c)"
        using 1(2)[OF Some e x[symmetric] refl] 1(3)[OF Some e x[symmetric] refl] by blast+
      with Some e x show ?thesis
        by (subst json_loop.simps) (cases "0 < off"; auto simp: Let_def)
    qed
  qed
qed

lemma numbered_fence: "numbered known cs \<Longrightarrow> is_known_tool known ''bash'' \<Longrightarrow> numbered known (fence_loop p cs)"
proof (induction p cs rule: fence_loop.induct)
  case (1 p cs)
  show ?case
  proof (cases "strstr p fence")
    case None
    with 1(5) show ?thesis by (simp add: fence_loop.simps[of p])
  next
    case q: (Some q)
    show ?thesis
    proof (cases "shell_code (drop (length fence) q)")
      case None
      with q 1(1)[OF q refl None 1(5,6)] show ?thesis by (simp add: fence_loop.simps[of p] Let_def)
    next
      case c: (Some code)
      show ?thesis
      proof (cases "strstr code fence")
        case None
        with q c 1(2)[OF q refl c None 1(5,6)] show ?thesis by (simp add: fence_loop.simps[of p] Let_def)
      next
        case e: (Some cb_end)
        let ?cmd = "rskip is_blank (between code cb_end)"
        let ?c = "if ?cmd \<noteq> [] then add_call ''codeblock_'' ''bash''
            (json_text (json_obj_add json_create_object ''command'' (json_create_string (Some ?cmd)))) cs else cs"
        have n: "numbered known ?c" using 1(5,6) by auto
        have "length cb_end < length code \<Longrightarrow> numbered known (fence_loop (drop (length fence) cb_end) ?c)"
          using 1(3)[OF q refl c e _ refl refl n 1(6)] by blast
        moreover have "\<not> length cb_end < length code \<Longrightarrow> numbered known (fence_loop code cs)"
          using 1(4)[OF q refl c e _ 1(5,6)] by blast
        ultimately show ?thesis
          using q c e by (subst fence_loop.simps) (auto simp: Let_def)
      qed
    qed
  qed
qed

lemma numbered_source: "numbered known cs \<Longrightarrow> numbered known (scavenge_source known src cs)"
  by (simp add: scavenge_source_def Let_def numbered_fence numbered_json numbered_tag numbered_dsml)

lemma numbered_scavenged: "numbered known (model_gateway_scavenge_tool_calls text reasoning known)"
  by (auto simp: model_gateway_scavenge_tool_calls_def intro!: numbered_source split: option.split)

section \<open>The ids are distinct\<close>

lemma dec_text_no_bar: "CHR ''_'' \<notin> set (dec_text n)"
  using dec_text_digits[of n] by auto

lemma prefix_split:
  assumes "p \<in> set id_prefixes" and "q \<in> set id_prefixes" and "p @ dec_text i = q @ dec_text j"
  shows "i = j"
proof -
  have last_bar: "\<exists>u. p = u @ ''_''" if "p \<in> set id_prefixes" for p
    using that by (auto simp: id_prefixes_def)
  obtain u v where "p = u @ ''_''" "q = v @ ''_''" using last_bar assms(1,2) by blast
  have t: "takeWhile (\<lambda>c. c \<noteq> CHR ''_'') (rev (w @ ''_'' @ dec_text k)) = rev (dec_text k)" for w k
  proof -
    have "\<forall>x \<in> set (rev (dec_text k)). x \<noteq> CHR ''_''" using dec_text_no_bar[of k] by auto
    then show ?thesis by (simp add: takeWhile_append)
  qed
  from \<open>p = u @ ''_''\<close> \<open>q = v @ ''_''\<close> assms(3) have "u @ ''_'' @ dec_text i = v @ ''_'' @ dec_text j" by simp
  then have "rev (dec_text i) = rev (dec_text j)" using t[of u i] t[of v j] by simp
  then have "dec_text i = dec_text j" by simp
  then show ?thesis using digits_dec_text by metis
qed

lemma numbered_distinct:
  assumes "numbered known cs"
  shows "distinct (map rc_id cs)"
  unfolding distinct_conv_nth
proof (intro allI impI)
  fix i j
  assume ij: "i < length (map rc_id cs)" "j < length (map rc_id cs)" "i \<noteq> j"
  then have "i < length cs" "j < length cs" by simp_all
  then obtain p q where "p \<in> set id_prefixes" "rc_id (cs ! i) = Some (p @ dec_text (i + 1))"
    "q \<in> set id_prefixes" "rc_id (cs ! j) = Some (q @ dec_text (j + 1))"
    using assms unfolding numbered_def by blast
  with ij prefix_split[of p q "i + 1" "j + 1"] show "map rc_id cs ! i \<noteq> map rc_id cs ! j" by auto
qed

section \<open>The interface of the agent step\<close>

text \<open>What the agent step relies on in a scavenger: each call has an id, no two have the same, and when
  tools are known, only those are named.\<close>

locale call_source =
  fixes scav :: scavenger
  assumes has_id: "c \<in> set (scav t r names) \<Longrightarrow> rc_id c \<noteq> None"
    and ids_differ: "distinct (map rc_id (scav t r names))"
    and known_name: "c \<in> set (scav t r names) \<Longrightarrow> names \<noteq> [] \<Longrightarrow> rc_name c \<in> set names"
begin

lemma scavenged_reply:
  assumes "scavenge_fallback scav resp a = (resp', a')" and "has_tool_call resp'" and "\<not> has_tool_call resp"
  shows "resp_calls resp' \<noteq> [] \<and> distinct (map rc_id (resp_calls resp')) \<and>
    (\<forall>c \<in> set (resp_calls resp'). rc_id c \<noteq> None \<and> rc_name c \<in> schema_name ` set (schemas a))"
proof -
  let ?names = "map schema_name (take 64 (schemas a))"
  obtain t r where c: "resp_calls resp' = scav t r ?names" "scav t r ?names \<noteq> []" "schemas a \<noteq> []"
    using assms by (auto simp: scavenge_fallback_def Let_def split: if_splits)
  have n: "?names \<noteq> []" using c(3) by simp
  have "set ?names \<subseteq> schema_name ` set (schemas a)" by (auto dest: in_set_takeD)
  with c n ids_differ show ?thesis using has_id known_name by (metis subsetD)
qed

end

interpretation gateway_scavenger: call_source model_gateway_scavenge_tool_calls
proof (unfold_locales, goal_cases)
  case (1 c t r names)
  then show ?case using numbered_scavenged[of names t r] by (fastforce simp: numbered_def in_set_conv_nth)
next
  case (2 t r names)
  show ?case by (rule numbered_distinct[OF numbered_scavenged])
next
  case (3 c t r names)
  then show ?case using numbered_scavenged[of names t r]
    by (fastforce simp: numbered_def in_set_conv_nth is_known_tool_def)
qed

section \<open>Finding a tagged call\<close>

definition call_object :: "cstr \<Rightarrow> JsonValue \<Rightarrow> JsonValue" where
  "call_object name args = JSON_OBJECT [(''name'', JSON_STRING name), (''arguments'', args)]"

lemma tag_loop_step:
  assumes "CHR ''<'' \<notin> set a" and "CHR ''<'' \<notin> set t"
  shows "tag_loop known (a @ ''<tool_call>'' @ t @ ''</tool_call>'' @ b) calls =
    tag_loop known b (try_add_scavenged_call
      (case extract_json_object (Some t) of Some (u, off) \<Rightarrow> u | None \<Rightarrow> t) known calls)"
proof -
  have "strstr (a @ ''<tool_call>'' @ t @ ''</tool_call>'' @ b) ''<tool_call>'' =
      Some (''<tool_call>'' @ t @ ''</tool_call>'' @ b)"
    using assms(1) strstr_here[of "''<tool_call>''" "t @ ''</tool_call>'' @ b"] by (subst strstr_skip) simp_all
  moreover have "strstr (t @ ''</tool_call>'' @ b) ''</tool_call>'' = Some (''</tool_call>'' @ b)"
    using assms(2) strstr_here[of "''</tool_call>''" b] by (subst strstr_skip) simp_all
  ultimately show ?thesis
    using between_append[of t "''</tool_call>'' @ b"] by (subst tag_loop.simps) (simp add: Let_def)
qed

lemma tag_loop_done: "CHR ''<'' \<notin> set b \<Longrightarrow> tag_loop known b calls = calls"
  by (subst tag_loop.simps) (simp add: strstr_absent)

lemma try_add_call_object:
  assumes "json_ok (call_object name (JSON_OBJECT ms))" and "jdepth (JSON_OBJECT ms) < JSON_MAX_DEPTH"
    and "is_known_tool known name"
  shows "try_add_scavenged_call (json_text (call_object name (JSON_OBJECT ms))) known calls =
    add_call ''scavenged_'' name (json_text (JSON_OBJECT ms)) calls"
proof -
  have "json_parse (Some (json_text (call_object name (JSON_OBJECT ms)))) = Some (call_object name (JSON_OBJECT ms))"
    using parse_json_text[OF assms(1), of 0 "[]"] assms(2) by (simp add: json_parse_def call_object_def)
  with assms(3) show ?thesis
    by (simp add: try_add_scavenged_call_def call_object_def guessed_name_def call_args_def
        json_obj_get_str_def json_obj_get_def)
qed

lemma strchr_found: "c \<notin> set a \<Longrightarrow> strchr (a @ c # v) c = Some (c # v)"
  by (induction a) auto

lemma command_object_found:
  assumes "nul_free cmd" and "is_known_tool known ''bash''" and "CHR ''{'' \<notin> set a"
    and "strstr (a @ json_text (JSON_OBJECT [(''command'', JSON_STRING cmd)])) invoke_tag = None"
    and "strstr (a @ json_text (JSON_OBJECT [(''command'', JSON_STRING cmd)])) ''<tool_call>'' = None"
  shows "model_gateway_scavenge_tool_calls
      (Some (a @ json_text (JSON_OBJECT [(''command'', JSON_STRING cmd)]))) None known =
    [\<lparr>rc_id = Some ''scavenged_1'', rc_name = ''bash'',
      rc_args = json_text (JSON_OBJECT [(''command'', JSON_STRING cmd)])\<rparr>]"
proof -
  let ?v = "JSON_OBJECT [(''command'', JSON_STRING cmd)]"
  define src where "src = a @ json_text ?v"
  define found where "found = add_call ''scavenged_'' ''bash'' (json_text ?v) []"
  obtain u where u: "json_text ?v = CHR ''{'' # u" by (simp add: json_text_def)
  have sc: "strchr src (CHR ''{'') = Some (json_text ?v)" using assms(3) by (simp add: src_def u strchr_found)
  have e: "extract_json_object (Some (json_text ?v)) = Some (json_text ?v, length (json_text ?v))"
    using extract_serialised[of "[]" "[(''command'', JSON_STRING cmd)]" "[]"] by simp
  have "json_parse (Some (json_text ?v)) = Some ?v"
    using assms(1) parse_json_text[of ?v 0 "[]"] by (simp add: json_parse_def JSON_MAX_DEPTH_def)
  then have t: "try_add_scavenged_call (json_text ?v) known [] = found"
    using assms(2) by (simp add: found_def try_add_scavenged_call_def guessed_name_def json_obj_get_str_def
        json_obj_get_def call_args_def)
  have l: "length (json_text ?v) > 0" "length found = 1" by (simp_all add: u found_def add_call_def)
  have "json_loop known src [] = json_loop known (drop (length (json_text ?v)) (json_text ?v)) found"
    using l by (subst json_loop.simps) (simp only: sc e t option.case prod.case Let_def if_True simp_thms list.size, simp)
  also have "\<dots> = found" by (simp add: json_loop.simps)
  finally have j: "json_loop known src [] = found" .
  have d: "dsml_loop known src [] = []" using assms(4) unfolding src_def[symmetric] by (simp add: dsml_loop.simps)
  have g: "tag_loop known src [] = []" using assms(5) unfolding src_def[symmetric] by (simp add: tag_loop.simps)
  have n: "nonempty (Some src) = Some src" using u by (simp add: nonempty_def src_def)
  have "model_gateway_scavenge_tool_calls (Some src) None known = found"
    unfolding model_gateway_scavenge_tool_calls_def foldl.simps n option.case scavenge_source_def Let_def
    using l(2) by (simp add: nonempty_def d g j)
  moreover have "dec_text 1 = ''1''" by code_simp
  ultimately show ?thesis unfolding src_def[symmetric] by (simp add: found_def add_call_def)
qed

section \<open>Properties\<close>

text \<open>C19: What the step takes from the model's text is fit to be dispatched: when a reply without tool
  calls gets calls by scavenging, every one of them has an id, no two have the same id, and each
  names a tool that is registered with the agent.\<close>

theorem scavenged_calls_are_registered:
  assumes "scavenge_fallback model_gateway_scavenge_tool_calls resp a = (resp', a')"
    and "has_tool_call resp'" and "\<not> has_tool_call resp"
  shows "resp_calls resp' \<noteq> [] \<and> distinct (map rc_id (resp_calls resp')) \<and>
    (\<forall>c \<in> set (resp_calls resp'). rc_id c \<noteq> None \<and> rc_name c \<in> schema_name ` set (schemas a))"
  using assms by (rule gateway_scavenger.scavenged_reply)

definition offering_reply :: ModelGatewayResponse where
  "offering_reply = \<lparr>resp_content = Some (''run '' @ json_text (JSON_OBJECT [(''command'', JSON_STRING ''ls'')])),
     reasoning_content = None, resp_calls = [], has_tool_call = False,
     prompt_tokens = 0, completion_tokens = 0, cached_tokens = 0\<rparr>"

definition bash_agent :: BelyaAgent where
  "bash_agent = (sample_agent [])\<lparr>schemas := [\<lparr>schema_name = ''bash'', schema_desc = [], schema_params = None\<rparr>]\<rparr>"

theorem scavenged_calls_are_registered_witness:
  "let resp' = fst (scavenge_fallback model_gateway_scavenge_tool_calls offering_reply bash_agent) in
    resp_calls resp' \<noteq> [] \<and> distinct (map rc_id (resp_calls resp')) \<and>
    (\<forall>c \<in> set (resp_calls resp'). rc_id c \<noteq> None \<and> rc_name c \<in> schema_name ` set (schemas bash_agent))"
proof -
  obtain resp' a' where s: "scavenge_fallback model_gateway_scavenge_tool_calls offering_reply bash_agent = (resp', a')"
    by fastforce
  have "model_gateway_scavenge_tool_calls (resp_content offering_reply) None [''bash''] \<noteq> []"
    by (simp only: offering_reply_def ModelGatewayResponse.simps, subst command_object_found) (simp_all, code_simp+)
  with s have "has_tool_call resp'"
    by (auto simp: scavenge_fallback_def bash_agent_def offering_reply_def scan_reasoning_def Let_def sample_agent_def
        split: if_splits)
  moreover have "\<not> has_tool_call offering_reply" by (simp add: offering_reply_def)
  ultimately show ?thesis using scavenged_calls_are_registered[OF s] by (simp add: s)
qed

text \<open>A tool call the model writes as a JSON object between \<open>tool_call\<close> tags is found, exactly once
  and with its name and arguments, whatever text without tags stands around it.\<close>

theorem tagged_call_is_found:
  assumes "json_ok (call_object name (JSON_OBJECT ms))" and "jdepth (JSON_OBJECT ms) < JSON_MAX_DEPTH"
    and "is_known_tool known name"
    and "CHR ''<'' \<notin> set a" and "CHR ''<'' \<notin> set b"
    and "CHR ''<'' \<notin> set (json_text (call_object name (JSON_OBJECT ms)))"
    and "strstr (a @ ''<tool_call>'' @ json_text (call_object name (JSON_OBJECT ms)) @ ''</tool_call>'' @ b) invoke_tag = None"
  shows "model_gateway_scavenge_tool_calls
      (Some (a @ ''<tool_call>'' @ json_text (call_object name (JSON_OBJECT ms)) @ ''</tool_call>'' @ b)) None known =
    [\<lparr>rc_id = Some ''scavenged_1'', rc_name = name, rc_args = json_text (JSON_OBJECT ms)\<rparr>]"
proof -
  let ?t = "json_text (call_object name (JSON_OBJECT ms))"
  let ?src = "a @ ''<tool_call>'' @ ?t @ ''</tool_call>'' @ b"
  have "extract_json_object (Some ?t) = Some (?t, length ?t)"
    using extract_serialised[of "[]" "[(''name'', JSON_STRING name), (''arguments'', JSON_OBJECT ms)]" "[]"]
    by (simp add: call_object_def)
  then have "tag_loop known ?src [] = add_call ''scavenged_'' name (json_text (JSON_OBJECT ms)) []"
    by (subst tag_loop_step[OF assms(4,6)]) (simp add: try_add_call_object[OF assms(1-3)] tag_loop_done[OF assms(5)])
  moreover have "dsml_loop known ?src [] = []" using assms(7) by (simp add: dsml_loop.simps)
  moreover have "dec_text 1 = ''1''" by code_simp
  ultimately show ?thesis
    by (simp add: model_gateway_scavenge_tool_calls_def scavenge_source_def nonempty_def Let_def add_call_def)
qed

theorem tagged_call_is_found_witness:
  "model_gateway_scavenge_tool_calls
      (Some (''ok '' @ ''<tool_call>'' @ json_text (call_object ''bash'' (JSON_OBJECT [(''command'', JSON_STRING ''ls'')]))
        @ ''</tool_call>'' @ '' done'')) None [''bash''] =
    [\<lparr>rc_id = Some ''scavenged_1'', rc_name = ''bash'',
      rc_args = json_text (JSON_OBJECT [(''command'', JSON_STRING ''ls'')])\<rparr>]"
  by (rule tagged_call_is_found) (simp_all add: call_object_def JSON_MAX_DEPTH_def, code_simp+)

text \<open>An error text of the provider is searched for tool calls like a model's answer: an API error
  whose message is a JSON object with a \<open>command\<close> becomes a call of \<open>bash\<close>.\<close>

theorem error_text_becomes_call:
  assumes "nul_free cmd" and "is_known_tool known ''bash''"
    and "strstr (''API Error (HTTP 400): '' @ json_text (JSON_OBJECT [(''command'', JSON_STRING cmd)])) invoke_tag = None"
    and "strstr (''API Error (HTTP 400): '' @ json_text (JSON_OBJECT [(''command'', JSON_STRING cmd)])) ''<tool_call>'' = None"
  shows "model_gateway_scavenge_tool_calls
      (Some (''API Error (HTTP 400): '' @ json_text (JSON_OBJECT [(''command'', JSON_STRING cmd)]))) None known =
    [\<lparr>rc_id = Some ''scavenged_1'', rc_name = ''bash'',
      rc_args = json_text (JSON_OBJECT [(''command'', JSON_STRING cmd)])\<rparr>]"
  by (rule command_object_found) (use assms in simp_all)

theorem error_text_becomes_call_witness:
  "model_gateway_scavenge_tool_calls
      (Some (''API Error (HTTP 400): '' @ json_text (JSON_OBJECT [(''command'', JSON_STRING ''ls'')]))) None [''bash''] =
    [\<lparr>rc_id = Some ''scavenged_1'', rc_name = ''bash'',
      rc_args = json_text (JSON_OBJECT [(''command'', JSON_STRING ''ls'')])\<rparr>]"
  by (rule error_text_becomes_call) code_simp+

end
