(* ===== verification/ModelProbe.thy ===== *)
theory ModelProbe
  imports ModelAdapter
begin

text \<open>
  The pre-flight probe of \<open>model_adapter.c\<close> and its table of model presets. The probe asks one
  address per endpoint, chosen by what the endpoint's text mentions, and judges the key by the HTTP
  status. The measured latency and the coloured report are not modelled.
\<close>

record GatewayEndpointProbe =
  probe_endpoint :: "cstr option"
  probe_model :: "cstr option"
  probe_provider :: "cstr option"
  reachable :: bool
  auth_valid :: bool
  http_code :: int
  details :: cstr

datatype provider_kind = Is_OpenRouter | Is_Ollama | Is_Anthropic | Is_Vllm | Is_Other

definition kind_of :: "cstr \<Rightarrow> provider_kind" where
  "kind_of ep =
     (let m = (\<lambda>p. strstr ep p \<noteq> None) in
      if m ''openrouter.ai'' then Is_OpenRouter
      else if m ''11434'' \<or> m ''localhost'' \<or> m ''127.0.0.1'' then Is_Ollama
      else if m ''anthropic.com'' then Is_Anthropic
      else if m '':8000'' then Is_Vllm else Is_Other)"

definition is_falcon :: "cstr option \<Rightarrow> bool" where
  "is_falcon mod_name = (mentions mod_name ''falcon'' \<or> mentions mod_name ''Falcon'')"

definition URL_BUF :: nat where "URL_BUF = 1024"

text \<open>The models list beside the completions path; otherwise the endpoint itself.\<close>

definition models_url :: "cstr \<Rightarrow> cstr" where
  "models_url ep =
     (case strstr ep ''/chat/completions'' of
        Some cc \<Rightarrow> take (length ep - length cc) ep @ ''/models'' | None \<Rightarrow> ep)"

definition tags_url :: "cstr \<Rightarrow> cstr" where
  "tags_url ep =
     (let host_start = (case strstr ep ''://'' of Some slash \<Rightarrow> drop 3 slash | None \<Rightarrow> ep) in
      case strchr host_start (CHR ''/'') of
        Some path_start \<Rightarrow> take (length ep - length path_start) ep @ ''/api/tags''
      | None \<Rightarrow> ep @ ''/api/tags'')"

definition probe_target :: "cstr \<Rightarrow> cstr option \<Rightarrow> cstr \<times> cstr" where
  "probe_target ep mod_name =
     (let (p, url) =
        (case kind_of ep of
           Is_OpenRouter \<Rightarrow> (''OpenRouter'', ''https://openrouter.ai/api/v1/auth/key'')
         | Is_Ollama \<Rightarrow> (if is_falcon mod_name then ''UAE TII Falcon (Local Ollama)'' else ''Local Ollama'', tags_url ep)
         | Is_Anthropic \<Rightarrow> (''Anthropic'', ''https://api.anthropic.com/v1/models'')
         | Is_Vllm \<Rightarrow> (if is_falcon mod_name then ''UAE TII Falcon (Local vLLM)'' else ''Local vLLM'', models_url ep)
         | Is_Other \<Rightarrow> (''OpenAI-Compatible'', models_url ep)) in
      (p, take (URL_BUF - 1) url))"

text \<open>The code tests for Anthropic by its own flag, which an endpoint of another kind can carry too.\<close>

definition probe_headers :: "cstr \<Rightarrow> cstr option \<Rightarrow> cstr list" where
  "probe_headers ep key =
     ''Accept: application/json'' #
     (case key of None \<Rightarrow> []
      | Some k \<Rightarrow>
        if k \<noteq> [] \<and> k \<noteq> ''none'' \<and> k \<noteq> ''ollama'' then
          (if strstr ep ''anthropic.com'' \<noteq> None
           then [take (HDR_BUF - 1) (''x-api-key: '' @ k), ''anthropic-version: 2023-06-01'']
           else [take (HDR_BUF - 1) (''Authorization: Bearer '' @ k)])
        else []) @
     (if kind_of ep = Is_OpenRouter
      then [''HTTP-Referer: https://github.com/M4F-S/Belya'', ''X-Title: Belya Agent Preflight''] else [])"

definition openrouter_details :: "cstr \<Rightarrow> cstr" where
  "openrouter_details body =
     (case Option.bind (json_parse (Some body)) (\<lambda>root. json_obj_get (Some root) ''data'') of
        None \<Rightarrow> ''Auth Verified (HTTP 200 OK).''
      | Some dat \<Rightarrow>
        let usage = json_obj_get_num (Some dat) ''usage'' (DFin True 1 0) in
        ''Auth Verified. Account usage: $'' @ fixed2 (if double_ge0 usage then usage else DFin False 0 0) @
        (if json_obj_get_bool (Some dat) ''is_free_tier'' False then '' (Free Tier)'' else []))"

definition names_model :: "cstr \<Rightarrow> JsonValue \<Rightarrow> cstr \<Rightarrow> bool" where
  "names_model m item key =
     (case json_obj_get_str (Some item) key of None \<Rightarrow> False | Some n \<Rightarrow> n = m \<or> strstr n m \<noteq> None)"

definition list_items :: "cstr \<Rightarrow> cstr \<Rightarrow> JsonValue list" where
  "list_items body key =
     (case Option.bind (json_parse (Some body)) (\<lambda>root. json_obj_get (Some root) key) of
        Some (JSON_ARRAY xs) \<Rightarrow> xs | _ \<Rightarrow> [])"

definition or_empty :: "cstr option \<Rightarrow> cstr" where
  "or_empty s = (case s of None \<Rightarrow> [] | Some t \<Rightarrow> t)"

definition ollama_details :: "cstr \<Rightarrow> cstr option \<Rightarrow> cstr" where
  "ollama_details body mod_name =
     (let found = (case mod_name of None \<Rightarrow> False
          | Some m \<Rightarrow> list_ex (\<lambda>x. names_model m x ''name'' \<or> names_model m x ''model'') (list_items body ''models''));
          m = or_empty mod_name in
      if found then ''Online & Verified. Model '' @ [SQ] @ m @ [SQ] @ '' confirmed loaded.''
      else ''Online, but model '' @ [SQ] @ m @ [SQ] @ '' not listed in '' @ [SQ] @ ''ollama list'' @ [SQ] @
        '' (run '' @ [SQ] @ ''ollama pull '' @ m @ [SQ] @ '').'')"

definition vllm_details :: "cstr \<Rightarrow> cstr option \<Rightarrow> cstr" where
  "vllm_details body mod_name =
     (let found = (case mod_name of None \<Rightarrow> False
          | Some m \<Rightarrow> list_ex (\<lambda>x. case json_obj_get_str (Some x) ''id'' of None \<Rightarrow> False
              | Some d \<Rightarrow> d = m \<or> strstr d m \<noteq> None \<or> strstr m d \<noteq> None) (list_items body ''data'')) in
      if found then ''Online & Verified. UAE Model '' @ [SQ] @ or_empty mod_name @ [SQ] @ '' confirmed loaded.''
      else ''vLLM online (HTTP 200 OK). Target model: '' @ [SQ] @
        (case mod_name of None \<Rightarrow> ''default'' | Some m \<Rightarrow> m) @ [SQ] @ ''.'')"

definition denied_details :: "int \<Rightarrow> cstr \<Rightarrow> cstr" where
  "denied_details st body =
     ''AUTHENTICATION FAILED (HTTP '' @ int_text st @ ''): '' @
     (case Option.bind (json_parse (Some body)) (\<lambda>root. json_obj_get (Some root) ''error'') of
        None \<Rightarrow> ''Invalid or expired key''
      | Some err \<Rightarrow> (case json_obj_get_str (Some err) ''message'' of None \<Rightarrow> ''Invalid or expired key'' | Some m \<Rightarrow> m)) @
     ''. Check API key!''"

text \<open>The verdict on an outcome: reachable, authorised, and the text.\<close>

definition probe_verdict ::
    "'w network \<Rightarrow> cstr \<Rightarrow> cstr option \<Rightarrow> http_outcome \<Rightarrow> bool \<times> bool \<times> cstr" where
  "probe_verdict W ep mod_name out =
     (let st = http_status out; body = c_string (concat (reply_chunks out)); k = kind_of ep in
      if curl_code out = CURLE_COULDNT_CONNECT then
        (False, False, if k = Is_Ollama \<or> (k = Is_OpenRouter \<and> (strstr ep ''11434'' \<noteq> None \<or>
             strstr ep ''localhost'' \<noteq> None \<or> strstr ep ''127.0.0.1'' \<noteq> None))
           then ''Ollama daemon offline (Connection refused). Start with '' @ [SQ] @ ''ollama serve'' @ [SQ] @ ''.''
           else ''Server unreachable (Connection refused).'')
      else if curl_code out = CURLE_OPERATION_TIMEDOUT then (False, False, ''Connection timed out (>5000ms).'')
      else if curl_code out \<noteq> CURLE_OK
      then (False, False, ''Curl transport error: '' @ curl_strerror W (curl_code out))
      else if st = 200 then
        (True, True,
         case k of Is_OpenRouter \<Rightarrow> openrouter_details body
         | Is_Ollama \<Rightarrow> ollama_details body mod_name
         | Is_Anthropic \<Rightarrow> (if strstr ep '':8000'' \<noteq> None then vllm_details body mod_name
             else ''Endpoint verified & authorized (HTTP 200 OK).'')
         | Is_Vllm \<Rightarrow> vllm_details body mod_name
         | Is_Other \<Rightarrow> ''Endpoint verified & authorized (HTTP 200 OK).'')
      else if st = 401 \<or> st = 403 then (True, False, denied_details st body)
      else if st = 404 then
        (True, True, ''Endpoint online (HTTP 404 on probe path; completions endpoint active).'')
      else (True, False, ''Gateway responded with HTTP '' @ int_text st @ ''.''))"

definition unconfigured_probe :: GatewayEndpointProbe where
  "unconfigured_probe = \<lparr>probe_endpoint = None, probe_model = None, probe_provider = None,
     reachable = False, auth_valid = False, http_code = 0, details = ''Endpoint not configured''\<rparr>"

definition probe_request :: "cstr \<Rightarrow> cstr option \<Rightarrow> cstr option \<Rightarrow> cstr option \<Rightarrow> http_request" where
  "probe_request e key mod_name agent_name =
     \<lparr>req_url = Some (snd (probe_target e mod_name)),
      req_agent = (case agent_name of None \<Rightarrow> ''BelyaAgent/4.0 Preflight-Probe'' | Some a \<Rightarrow> a),
      req_headers = probe_headers e key, req_body = [], req_timeout = 5\<rparr>"

definition probe_single_endpoint ::
    "'w network \<Rightarrow> cstr option \<Rightarrow> cstr option \<Rightarrow> cstr option \<Rightarrow> cstr option \<Rightarrow> 'w \<Rightarrow>
     GatewayEndpointProbe \<times> 'w" where
  "probe_single_endpoint W ep key mod_name agent_name w =
     (case nonempty ep of None \<Rightarrow> (unconfigured_probe, w)
      | Some e \<Rightarrow>
        let prov = fst (probe_target e mod_name);
            m = (case mod_name of None \<Rightarrow> ''default'' | Some m \<Rightarrow> m);
            p = \<lparr>probe_endpoint = Some e, probe_model = Some m, probe_provider = Some prov,
                 reachable = False, auth_valid = False, http_code = 0, details = []\<rparr> in
        if \<not> curl_ready W then (p\<lparr>details := ''Failed to initialize libcurl''\<rparr>, w)
        else
          let (out, w) = perform W (probe_request e key mod_name agent_name) w;
              (r, a, t) = probe_verdict W e mod_name out in
          (p\<lparr>reachable := r, auth_valid := a, http_code := http_status out, details := t\<rparr>, w))"

record ModelGatewayProbeResult =
  primary :: GatewayEndpointProbe
  fallback :: "GatewayEndpointProbe option"
  all_ok :: bool

definition healthy :: "GatewayEndpointProbe \<Rightarrow> bool" where
  "healthy p \<longleftrightarrow> reachable p \<and> auth_valid p"

definition model_gateway_preflight_probe ::
    "'w network \<Rightarrow> GatewayConfig \<Rightarrow> 'w \<Rightarrow> ModelGatewayProbeResult \<times> 'w" where
  "model_gateway_preflight_probe W gw w =
     (let (p, w) = probe_single_endpoint W (endpoint gw) (api_key gw) (gw_model gw) (user_agent gw) w;
          (f, w) = (case nonempty (fallback_endpoint gw) of None \<Rightarrow> (None, w)
                    | Some e \<Rightarrow> (let (f, w) = probe_single_endpoint W (Some e) (fallback_api_key gw)
                        (fallback_model gw) (user_agent gw) w in (Some f, w))) in
      (\<lparr>primary = p, fallback = f,
        all_ok = (healthy p \<or> (case f of None \<Rightarrow> False | Some f \<Rightarrow> healthy f))\<rparr>, w))"

section \<open>Presets\<close>

record ModelPresetConfig =
  preset_name :: cstr
  preset_model :: cstr
  preset_endpoint :: cstr
  preset_description :: cstr
  is_airgap :: bool

definition ollama_url :: cstr where "ollama_url = ''http://localhost:11434/v1/chat/completions''"

definition g_model_presets :: "ModelPresetConfig list" where
  "g_model_presets =
    [\<lparr>preset_name = ''falcon'', preset_model = ''falcon3:7b'', preset_endpoint = ollama_url,
      preset_description = ''UAE TII Falcon-3 (7B Instruct - Sovereign UAE Model via Ollama)'', is_airgap = True\<rparr>,
     \<lparr>preset_name = ''falcon3'', preset_model = ''falcon3:7b'', preset_endpoint = ollama_url,
      preset_description = ''UAE TII Falcon-3 (7B Instruct - Sovereign UAE Model via Ollama)'', is_airgap = True\<rparr>,
     \<lparr>preset_name = ''falcon-vllm'', preset_model = ''tiiuae/Falcon3-7B-Instruct'',
      preset_endpoint = ''http://localhost:8000/v1/chat/completions'',
      preset_description = ''UAE TII Falcon-3 (High-Throughput Local vLLM Inference Engine)'', is_airgap = True\<rparr>,
     \<lparr>preset_name = ''falcon2'', preset_model = ''falcon2:11b'', preset_endpoint = ollama_url,
      preset_description = ''UAE TII Falcon-2 (11B Foundation Model - Local Ollama)'', is_airgap = True\<rparr>,
     \<lparr>preset_name = ''qwen'', preset_model = ''qwen2.5-coder:7b'', preset_endpoint = ollama_url,
      preset_description = ''Qwen 2.5 Coder (7B Instruct - Local Air-Gapped Ollama)'', is_airgap = True\<rparr>,
     \<lparr>preset_name = ''deepseek'', preset_model = ''deepseek-r1:8b'', preset_endpoint = ollama_url,
      preset_description = ''DeepSeek R1 (8B Distill - Local Ollama Reasoning Engine)'', is_airgap = True\<rparr>,
     \<lparr>preset_name = ''airgap'', preset_model = ''falcon3:7b'', preset_endpoint = ollama_url,
      preset_description = ''Strict Air-Gapped Zero-Egress Local Mode (UAE TII Falcon-3 Sovereign)'', is_airgap = True\<rparr>]"

definition model_preset_get :: "cstr option \<Rightarrow> ModelPresetConfig option" where
  "model_preset_get name =
     (case nonempty name of None \<Rightarrow> None
      | Some n \<Rightarrow> find (\<lambda>p. map tolower (preset_name p) = map tolower n) g_model_presets)"

section \<open>Facts\<close>

text \<open>A preset marked as air-gapped is served from the local host.\<close>

lemma presets_local:
  "model_preset_get name = Some p \<Longrightarrow> is_airgap p \<Longrightarrow> has_prefix ''http://localhost:'' (preset_endpoint p)"
proof -
  have "list_all (\<lambda>p. is_airgap p \<longrightarrow> has_prefix ''http://localhost:'' (preset_endpoint p)) g_model_presets"
    by code_simp
  then show "model_preset_get name = Some p \<Longrightarrow> is_airgap p \<Longrightarrow> has_prefix ''http://localhost:'' (preset_endpoint p)"
    by (auto simp: model_preset_get_def list_all_iff find_Some_iff split: option.splits)
qed

text \<open>An endpoint is healthy when its probe address answers 200 or 404.\<close>

lemma healthy_iff:
  "healthy (fst (probe_single_endpoint W ep key m ua w)) \<longleftrightarrow>
     (case nonempty ep of None \<Rightarrow> False
      | Some e \<Rightarrow> curl_ready W \<and>
          (let out = fst (perform W (probe_request e key m ua) w) in
           curl_code out = CURLE_OK \<and> (http_status out = 200 \<or> http_status out = 404)))"
  by (auto simp: healthy_def probe_single_endpoint_def unconfigured_probe_def case_prod_unfold Let_def
      probe_verdict_def split: option.split)

end
