(* ===== verification/Workspace.thy ===== *)
theory Workspace
  imports PathJail TaskTable
begin

text \<open>
  Lifecycle hooks and worktrees of \<open>belya_harness.c\<close>: \<open>belya_run_lifecycle_hook\<close>,
  \<open>belya_harness_enter_worktree\<close>, \<open>belya_harness_leave_worktree\<close>, and the table of shadow worktrees that
  \<open>atexit\<close> cleans up. What a hook's process does is a script of what the reading loop sees, and its
  status when it is waited for; None is a wait that does not end. The shell commands that are run are
  recorded in order; whether one succeeds is a parameter.
\<close>

section \<open>Hooks\<close>

datatype BelyaHookType =
    BELYA_HOOK_PRE_TOOL_USE | BELYA_HOOK_POST_TOOL_USE | BELYA_HOOK_STOP | BELYA_HOOK_PRE_COMPACT

record BelyaHookResult =
  blocked :: bool
  exit_code :: int
  hook_output :: "cstr option"

definition no_result :: BelyaHookResult where
  "no_result = \<lparr>blocked = False, exit_code = 0, hook_output = None\<rparr>"

definition event_name :: "BelyaHookType \<Rightarrow> cstr" where
  "event_name t = (case t of BELYA_HOOK_PRE_TOOL_USE \<Rightarrow> ''PreToolUse'' | BELYA_HOOK_POST_TOOL_USE \<Rightarrow> ''PostToolUse''
     | BELYA_HOOK_STOP \<Rightarrow> ''Stop'' | BELYA_HOOK_PRE_COMPACT \<Rightarrow> ''PreCompact'')"

definition script_base :: "BelyaHookType \<Rightarrow> cstr" where
  "script_base t = (case t of BELYA_HOOK_PRE_TOOL_USE \<Rightarrow> ''pre_tool_use'' | BELYA_HOOK_POST_TOOL_USE \<Rightarrow> ''post_tool_use''
     | BELYA_HOOK_STOP \<Rightarrow> ''stop'' | BELYA_HOOK_PRE_COMPACT \<Rightarrow> ''pre_compact'')"

definition hook_script :: "(cstr \<Rightarrow> bool) \<Rightarrow> BelyaHookType \<Rightarrow> cstr option" where
  "hook_script executable t =
     (let base = ''.belya/hooks/'' @ script_base t in
      if executable (base @ ''.sh'') then Some (base @ ''.sh'')
      else if executable base then Some base else None)"

text \<open>One round of the reading loop: bytes, the end of the pipe, or 3 seconds of silence.\<close>

datatype hook_read = Output cstr | Pipe_End | Silence

text \<open>A started hook: what is read, and how the process ends if it is left alone (None: it does not).\<close>

record hook_process =
  hook_reads :: "hook_read list"
  hook_status :: "child_status option"

type_synonym hook_env = "(cstr \<times> cstr) list"

record hook_os =
  executable :: "cstr \<Rightarrow> bool"
  start_hook :: "cstr \<Rightarrow> hook_env \<Rightarrow> hook_process option"

definition hook_variables :: "BelyaHookType \<Rightarrow> cstr option \<Rightarrow> cstr option \<Rightarrow> cstr option \<Rightarrow> cstr \<Rightarrow> cstr \<Rightarrow> hook_env" where
  "hook_variables t tool args observation db_path cwd =
     [(''BELYA_HOOK_EVENT'', event_name t)] @
     (case tool of None \<Rightarrow> [] | Some n \<Rightarrow> [(''BELYA_TOOL_NAME'', n)]) @
     (case args of None \<Rightarrow> [] | Some a \<Rightarrow> [(''BELYA_TOOL_ARGS'', a)]) @
     (case observation of None \<Rightarrow> [] | Some b \<Rightarrow> [(''BELYA_TOOL_OBSERVATION'', b)]) @
     (if db_path \<noteq> [] then [(''BELYA_SESSION_ID'', db_path)] else []) @
     (if cwd \<noteq> [] then [(''BELYA_CWD'', cwd)] else [])"

definition HOOK_OUTPUT_LIMIT :: nat where "HOOK_OUTPUT_LIMIT = 16384"

text \<open>The output that is read and whether the hook was killed for its silence.\<close>

fun hook_loop :: "hook_read list \<Rightarrow> cstr \<Rightarrow> (cstr \<times> bool) option" where
  "hook_loop [] out = None"
| "hook_loop (Pipe_End # rs) out = Some (out, False)"
| "hook_loop (Silence # rs) out = Some (out, True)"
| "hook_loop (Output b # rs) out =
     (let out = out @ c_string b in
      if length out > HOOK_OUTPUT_LIMIT then Some (out, False) else hook_loop rs out)"

definition without_newline :: "cstr \<Rightarrow> cstr" where
  "without_newline out = (if out \<noteq> [] \<and> last out = LF then butlast out else out)"

definition hook_verdict :: "cstr \<Rightarrow> child_status \<Rightarrow> BelyaHookResult" where
  "hook_verdict out st =
     (case st of
        Exited n \<Rightarrow> \<lparr>blocked = (n = 2), exit_code = int n, hook_output = Some (without_newline out)\<rparr>
      | Signaled s \<Rightarrow> \<lparr>blocked = False, exit_code = -1, hook_output = Some (without_newline out)\<rparr>)"

definition timed_out_result :: "cstr \<Rightarrow> BelyaHookResult" where
  "timed_out_result out = \<lparr>blocked = False, exit_code = -1, hook_output = Some (out @ '' [Hook timed out]'')\<rparr>"

text \<open>None: the harness waits for the hook's process for ever.\<close>

definition belya_run_lifecycle_hook ::
    "hook_os \<Rightarrow> BelyaHookType \<Rightarrow> cstr option \<Rightarrow> cstr option \<Rightarrow> cstr option \<Rightarrow> cstr \<Rightarrow> cstr \<Rightarrow> BelyaHookResult option" where
  "belya_run_lifecycle_hook os t tool args observation db_path cwd =
     (case hook_script (executable os) t of None \<Rightarrow> Some no_result
      | Some path \<Rightarrow>
        (case start_hook os path (hook_variables t tool args observation db_path cwd) of None \<Rightarrow> Some no_result
         | Some p \<Rightarrow>
           (case hook_loop (hook_reads p) [] of None \<Rightarrow> None
            | Some (out, timed_out) \<Rightarrow>
              if timed_out then Some (timed_out_result out)
              else map_option (hook_verdict out) (hook_status p))))"

section \<open>Worktrees\<close>

record Worktrees =
  wt_cwd :: cstr
  original_worktree_cwd :: cstr
  active_worktree_path :: cstr
  in_worktree :: bool
  jail_root :: "cstr option"
  ran :: "cstr list"
  timeline :: "(cstr \<times> cstr) list"

record 'w wt_os =
  shell_ok :: "cstr \<Rightarrow> 'w \<Rightarrow> bool \<times> 'w"
  enter_dir :: "cstr \<Rightarrow> 'w \<Rightarrow> bool \<times> 'w"
  get_cwd :: "'w \<Rightarrow> cstr option"
  real_path :: "cstr \<Rightarrow> 'w \<Rightarrow> cstr option"
  unix_time :: "'w \<Rightarrow> int"

definition run_shell :: "'w wt_os \<Rightarrow> cstr \<Rightarrow> Worktrees \<times> 'w \<Rightarrow> bool \<times> Worktrees \<times> 'w" where
  "run_shell os cmd s = (let (ok, w) = shell_ok os cmd (snd s) in (ok, (fst s)\<lparr>ran := ran (fst s) @ [cmd]\<rparr>, w))"

definition worktree_char :: "char \<Rightarrow> bool" where
  "worktree_char c \<longleftrightarrow> isalnum c \<or> c = CHR ''_'' \<or> c = CHR ''-'' \<or> c = CHR ''.'' \<or> c = CHR ''/''"

definition name_refusal :: "cstr \<Rightarrow> cstr option" where
  "name_refusal name =
     (if name = [] then None
      else if length name > 64 \<or> hd name = CHR ''/'' \<or> strstr name ''..'' \<noteq> None
      then Some ''Error: Invalid worktree name.''
      else if \<not> list_all worktree_char name
      then Some ''Error: Invalid worktree name (allowed: A-Z a-z 0-9 _ - . /).''
      else None)"

definition worktree_id :: "cstr \<Rightarrow> int \<Rightarrow> cstr" where
  "worktree_id name t = (if name \<noteq> [] then ''wt_'' @ name else ''wt_agent_'' @ int_text t)"

definition worktree_path :: "cstr \<Rightarrow> cstr" where
  "worktree_path wt_id = ''.belya/worktrees/'' @ wt_id"

definition quoted :: "cstr \<Rightarrow> cstr" where "quoted s = [DQ] @ s @ [DQ]"

definition silent :: cstr where "silent = '' >/dev/null 2>&1''"

definition remove_worktree_cmd :: "cstr \<Rightarrow> cstr" where
  "remove_worktree_cmd path = ''git worktree remove --force '' @ quoted (take 2000 path) @ silent"

definition remove_tree_cmd :: "cstr \<Rightarrow> cstr" where
  "remove_tree_cmd path = ''rm -rf '' @ quoted (take 2000 path)"

definition add_branch_cmd :: "cstr \<Rightarrow> cstr \<Rightarrow> cstr" where
  "add_branch_cmd wt_id path = ''git worktree add -B '' @ quoted (take 256 wt_id) @ '' '' @ quoted (take 2000 path) @ '' HEAD'' @ silent"

definition add_existing_cmd :: "cstr \<Rightarrow> cstr \<Rightarrow> cstr" where
  "add_existing_cmd wt_id path = ''git worktree add '' @ quoted (take 2000 path) @ '' '' @ quoted (take 256 wt_id) @ silent"

definition set_root :: "'w wt_os \<Rightarrow> Worktrees \<times> 'w \<Rightarrow> Worktrees \<times> 'w" where
  "set_root os s =
     (let h = fst s in
      (h\<lparr>jail_root := Some (case real_path os (wt_cwd h) (snd s) of Some r \<Rightarrow> r | None \<Rightarrow> wt_cwd h)\<rparr>, snd s))"

text \<open>The stale tree is removed before the new one is made.\<close>

definition make_worktree :: "'w wt_os \<Rightarrow> cstr \<Rightarrow> cstr \<Rightarrow> Worktrees \<times> 'w \<Rightarrow> bool \<times> Worktrees \<times> 'w" where
  "make_worktree os wt_id path s =
     (let (_, s) = run_shell os ''mkdir -p .belya/worktrees'' s;
          (_, s) = run_shell os (remove_worktree_cmd path) s;
          (_, s) = run_shell os (remove_tree_cmd path) s;
          (ok, s) = run_shell os (add_branch_cmd wt_id path) s in
      if ok then (True, s) else run_shell os (add_existing_cmd wt_id path) s)"

definition belya_harness_enter_worktree :: "'w wt_os \<Rightarrow> cstr option \<Rightarrow> Worktrees \<times> 'w \<Rightarrow> cstr \<times> Worktrees \<times> 'w" where
  "belya_harness_enter_worktree os branch s =
     (let h = fst s; w = snd s; name = (case branch of None \<Rightarrow> [] | Some b \<Rightarrow> b) in
      if in_worktree h then (''Error: Already active inside an isolated worktree.'', s)
      else case name_refusal name of Some m \<Rightarrow> (m, s)
      | None \<Rightarrow>
        let h = h\<lparr>original_worktree_cwd := (case get_cwd os w of Some d \<Rightarrow> d | None \<Rightarrow> wt_cwd h)\<rparr>;
            wt_id = worktree_id name (unix_time os w); path = worktree_path wt_id;
            (ok, s) = make_worktree os wt_id path (h, w) in
        if \<not> ok then (''Error: Failed to create isolated git worktree (ensure repository has commits).'', s)
        else let (entered, w) = enter_dir os path (snd s); h = fst s in
          if \<not> entered then (''Error: Failed to enter newly created worktree directory.'', (h, w))
          else let h = h\<lparr>wt_cwd := (case get_cwd os w of Some d \<Rightarrow> d | None \<Rightarrow> path)\<rparr>;
                   h = (fst (set_root os (h, w)))\<lparr>active_worktree_path := path, in_worktree := True,
                          timeline := timeline h @ [(''worktree_entered'', path)]\<rparr> in
            (''Entered isolated git worktree at '' @ [SQ] @ path @ [SQ] @
               ''. Working directory shifted to isolated workspace.'', (h, w)))"

definition belya_harness_leave_worktree :: "'w wt_os \<Rightarrow> bool \<Rightarrow> Worktrees \<times> 'w \<Rightarrow> cstr \<times> Worktrees \<times> 'w" where
  "belya_harness_leave_worktree os keep s =
     (let h = fst s in
      if \<not> in_worktree h then (''Error: Not currently in a worktree.'', s)
      else let prev = active_worktree_path h; (back, w) = enter_dir os (original_worktree_cwd h) (snd s) in
        if \<not> back then (''Error: Failed to restore original working directory.'', (h, w))
        else let s = set_root os (h\<lparr>wt_cwd := original_worktree_cwd h\<rparr>, w);
                 s = ((fst s)\<lparr>in_worktree := False\<rparr>, snd s);
                 s = (if keep then s else snd (run_shell os (remove_worktree_cmd prev) s));
                 h = fst s in
          (''Left git worktree. Restored workspace to '' @ [SQ] @ wt_cwd h @ [SQ] @ '' (worktree '' @
             (if keep then ''preserved'' else ''reaped'') @ '').'',
           (h\<lparr>timeline := timeline h @ [(''worktree_left'', wt_cwd h)]\<rparr>, snd s)))"

definition tool_enter_worktree :: "'w wt_os \<Rightarrow> JsonValue option \<Rightarrow> Worktrees \<times> 'w \<Rightarrow> cstr \<times> Worktrees \<times> 'w" where
  "tool_enter_worktree os args s = belya_harness_enter_worktree os (json_obj_get_str args ''branch'') s"

definition tool_leave_worktree :: "'w wt_os \<Rightarrow> JsonValue option \<Rightarrow> Worktrees \<times> 'w \<Rightarrow> cstr \<times> Worktrees \<times> 'w" where
  "tool_leave_worktree os args s =
     belya_harness_leave_worktree os (case json_obj_get args ''keep'' of Some (JSON_BOOL b) \<Rightarrow> b | _ \<Rightarrow> False) s"

section \<open>Shadow worktrees\<close>

text \<open>Sixteen slots; an empty path is a free one.\<close>

definition BELYA_MAX_SHADOW_WORKTREES :: nat where "BELYA_MAX_SHADOW_WORKTREES = 16"

definition no_shadows :: "cstr list" where "no_shadows = replicate BELYA_MAX_SHADOW_WORKTREES []"

fun belya_shadow_worktree_register :: "cstr \<Rightarrow> cstr list \<Rightarrow> cstr list" where
  "belya_shadow_worktree_register path [] = []"
| "belya_shadow_worktree_register path (p # ps) =
     (if p = [] then take 4095 path # ps else p # belya_shadow_worktree_register path ps)"

fun belya_shadow_worktree_unregister :: "cstr \<Rightarrow> cstr list \<Rightarrow> cstr list" where
  "belya_shadow_worktree_unregister path [] = []"
| "belya_shadow_worktree_unregister path (p # ps) =
     (if p = path then [] # ps else p # belya_shadow_worktree_unregister path ps)"

text \<open>The commands of the clean-up at exit, and the table behind it.\<close>

definition belya_shadow_worktree_cleanup_all :: "cstr list \<Rightarrow> cstr list \<times> cstr list" where
  "belya_shadow_worktree_cleanup_all ps =
     (concat (map (\<lambda>p. [remove_worktree_cmd p, remove_tree_cmd p]) (filter (\<lambda>p. p \<noteq> []) ps)) @
        [''git worktree prune'' @ silent],
      map (\<lambda>p. []) ps)"

section \<open>Lemmas\<close>

lemma worktree_id_plain: "name_refusal name = None \<Longrightarrow> list_all worktree_char (worktree_id name t)"
proof -
  assume n: "name_refusal name = None"
  have d: "list_all worktree_char (dec_text k)" for k
  proof (induction k rule: dec_text.induct)
    case (1 k)
    have "list_all (\<lambda>i. worktree_char (dec_digit i)) [0..<10]" by code_simp
    then have "worktree_char (dec_digit (k mod 10))" by (simp add: list_all_iff)
    with 1 show ?case by (subst dec_text.simps) auto
  qed
  have "list_all worktree_char (''wt_'' :: cstr)" "list_all worktree_char (''wt_agent_'' :: cstr)" "worktree_char (CHR ''-'')"
    by code_simp+
  with n d show ?thesis by (auto simp: worktree_id_def int_text_def name_refusal_def split: if_splits)
qed

lemma run_shell_ran: "run_shell os cmd s = (ok, s') \<Longrightarrow> ran (fst s') = ran (fst s) @ [cmd]"
  by (auto simp: run_shell_def split: prod.splits)

lemma run_shell_same:
  "run_shell os cmd s = (ok, s') \<Longrightarrow> original_worktree_cwd (fst s') = original_worktree_cwd (fst s) \<and> wt_cwd (fst s') = wt_cwd (fst s)"
  by (auto simp: run_shell_def split: prod.splits)

definition worktree_commands :: "cstr \<Rightarrow> cstr list" where
  "worktree_commands wt_id =
     (let path = worktree_path wt_id in
      [''mkdir -p .belya/worktrees'', remove_worktree_cmd path, remove_tree_cmd path, add_branch_cmd wt_id path])"

lemma make_worktree_ran:
  assumes "make_worktree os wt_id (worktree_path wt_id) s = (ok, s')"
  shows "ran (fst s') = ran (fst s) @ worktree_commands wt_id \<or>
    ran (fst s') = ran (fst s) @ worktree_commands wt_id @ [add_existing_cmd wt_id (worktree_path wt_id)]"
  using assms unfolding make_worktree_def worktree_commands_def Let_def
  by (auto split: prod.splits if_splits dest!: run_shell_ran)

lemma make_worktree_same:
  assumes "make_worktree os wt_id path s = (ok, s')"
  shows "original_worktree_cwd (fst s') = original_worktree_cwd (fst s) \<and> wt_cwd (fst s') = wt_cwd (fst s)"
  using assms unfolding make_worktree_def Let_def by (auto split: prod.splits if_splits dest!: run_shell_same)

lemma enter_worktree_ran:
  assumes "belya_harness_enter_worktree os branch (h, w) = (m, h', w')"
  shows "ran h' = ran h \<or> (let wt_id = worktree_id (case branch of None \<Rightarrow> [] | Some b \<Rightarrow> b) (unix_time os w) in
    name_refusal (case branch of None \<Rightarrow> [] | Some b \<Rightarrow> b) = None \<and>
    (ran h' = ran h @ worktree_commands wt_id \<or>
     ran h' = ran h @ worktree_commands wt_id @ [add_existing_cmd wt_id (worktree_path wt_id)]))"
  using assms unfolding belya_harness_enter_worktree_def Let_def set_root_def
  by (auto split: prod.splits if_splits option.splits dest!: make_worktree_ran)

lemma run_shell_in: "run_shell os cmd s = (ok, s') \<Longrightarrow> in_worktree (fst s') = in_worktree (fst s)"
  by (auto simp: run_shell_def split: prod.splits)

lemma make_worktree_in: "make_worktree os wt_id path s = (ok, s') \<Longrightarrow> in_worktree (fst s') = in_worktree (fst s)"
  unfolding make_worktree_def Let_def by (auto split: prod.splits if_splits dest!: run_shell_in)

lemma enter_worktree_original:
  assumes "belya_harness_enter_worktree os branch (h, w) = (m, h', w')" and "\<not> in_worktree h" and "in_worktree h'"
  shows "original_worktree_cwd h' = (case get_cwd os w of Some d \<Rightarrow> d | None \<Rightarrow> wt_cwd h) \<and>
    active_worktree_path h' = worktree_path (worktree_id (case branch of None \<Rightarrow> [] | Some b \<Rightarrow> b) (unix_time os w))"
proof -
  let ?name = "case branch of None \<Rightarrow> [] | Some b \<Rightarrow> b"
  let ?h = "h\<lparr>original_worktree_cwd := (case get_cwd os w of Some d \<Rightarrow> d | None \<Rightarrow> wt_cwd h)\<rparr>"
  let ?id = "worktree_id ?name (unix_time os w)"
  obtain ok h1 w1 where m: "make_worktree os ?id (worktree_path ?id) (?h, w) = (ok, h1, w1)"
    by (cases "make_worktree os ?id (worktree_path ?id) (?h, w)") auto
  have k: "in_worktree h1 = in_worktree h" "original_worktree_cwd h1 = original_worktree_cwd ?h"
    using make_worktree_in[OF m] make_worktree_same[OF m] by simp_all
  show ?thesis
    using assms k unfolding belya_harness_enter_worktree_def Let_def fst_conv snd_conv m prod.case set_root_def
    by (auto split: prod.splits if_splits option.splits)
qed

lemma run_shell_back:
  "wt_cwd (fst (snd (run_shell os cmd s))) = wt_cwd (fst s)"
  "jail_root (fst (snd (run_shell os cmd s))) = jail_root (fst s)"
  "in_worktree (fst (snd (run_shell os cmd s))) = in_worktree (fst s)"
  by (simp_all add: run_shell_def split: prod.split)

lemma leave_worktree_back:
  assumes "belya_harness_leave_worktree os keep (h, w) = (m, h', w')" and "in_worktree h" and "\<not> in_worktree h'"
  shows "wt_cwd h' = original_worktree_cwd h \<and>
    jail_root h' = Some (case real_path os (original_worktree_cwd h) (snd (enter_dir os (original_worktree_cwd h) w)) of
      Some r \<Rightarrow> r | None \<Rightarrow> original_worktree_cwd h)"
  using assms unfolding belya_harness_leave_worktree_def Let_def set_root_def
  by (auto simp: run_shell_back split: prod.splits if_splits option.splits)

section \<open>Properties\<close>

text \<open>C39: Whatever name the model gives, every shell command that entering a worktree runs is one of
  five fixed commands around an identifier of letters, digits, \<open>_\<close>, \<open>-\<close>, \<open>.\<close> and \<open>/\<close>, so a name cannot
  inject a command.\<close>

theorem worktree_commands_fixed:
  assumes "belya_harness_enter_worktree os branch (h, w) = (m, h', w')" and "cmd \<in> set (drop (length (ran h)) (ran h'))"
  shows "\<exists>wt_id. list_all worktree_char wt_id \<and>
    cmd \<in> set (worktree_commands wt_id @ [add_existing_cmd wt_id (worktree_path wt_id)])"
proof -
  let ?id = "worktree_id (case branch of None \<Rightarrow> [] | Some b \<Rightarrow> b) (unix_time os w)"
  from enter_worktree_ran[OF assms(1)] assms(2) have n: "name_refusal (case branch of None \<Rightarrow> [] | Some b \<Rightarrow> b) = None"
    and c: "cmd \<in> set (worktree_commands ?id @ [add_existing_cmd ?id (worktree_path ?id)])"
    by (auto simp: Let_def)
  from worktree_id_plain[OF n] c show ?thesis by blast
qed

definition calm_os :: "unit wt_os" where
  "calm_os = \<lparr>shell_ok = (\<lambda>c w. (True, w)), enter_dir = (\<lambda>d w. (True, w)), get_cwd = (\<lambda>w. Some ''/ws''),
     real_path = (\<lambda>p w. Some p), unix_time = (\<lambda>w. 5)\<rparr>"

definition at_home :: Worktrees where
  "at_home = \<lparr>wt_cwd = ''/ws'', original_worktree_cwd = [], active_worktree_path = [], in_worktree = False,
     jail_root = Some ''/ws'', ran = [], timeline = []\<rparr>"

definition in_tree :: Worktrees where
  "in_tree = fst (snd (belya_harness_enter_worktree calm_os (Some ''a'') (at_home, ())))"

lemma in_tree_entered:
  "\<exists>m. belya_harness_enter_worktree calm_os (Some ''a'') (at_home, ()) = (m, in_tree, ())"
  unfolding in_tree_def by (metis (full_types) prod.collapse old.unit.exhaust)

lemma in_tree_state: "in_worktree in_tree" "ran in_tree = worktree_commands ''wt_a''"
  unfolding in_tree_def at_home_def calm_os_def by code_simp+

theorem worktree_commands_fixed_witness:
  "\<exists>wt_id. list_all worktree_char wt_id \<and>
    ''mkdir -p .belya/worktrees'' \<in> set (worktree_commands wt_id @ [add_existing_cmd wt_id (worktree_path wt_id)])"
proof -
  obtain m where e: "belya_harness_enter_worktree calm_os (Some ''a'') (at_home, ()) = (m, in_tree, ())"
    using in_tree_entered by blast
  have "''mkdir -p .belya/worktrees'' \<in> set (drop (length (ran at_home)) (ran in_tree))"
    by (simp add: in_tree_state at_home_def worktree_commands_def Let_def)
  from worktree_commands_fixed[OF e this] show ?thesis .
qed

text \<open>Leaving a worktree brings the harness back to where it entered: the working directory is the
  one the process had, and the root of the path jail is this directory.\<close>

theorem worktree_returns:
  assumes "belya_harness_enter_worktree os branch (h, w) = (m, h1, w1)" and "\<not> in_worktree h" and "in_worktree h1"
    and "belya_harness_leave_worktree os keep (h1, w2) = (m2, h2, w3)" and "\<not> in_worktree h2"
    and "get_cwd os w = Some d"
  shows "wt_cwd h2 = d \<and>
    jail_root h2 = Some (case real_path os d (snd (enter_dir os d w2)) of Some r \<Rightarrow> r | None \<Rightarrow> d)"
proof -
  have d: "original_worktree_cwd h1 = d" using enter_worktree_original[OF assms(1-3)] assms(6) by simp
  show ?thesis using leave_worktree_back[OF assms(4,3,5)] unfolding d .
qed

theorem worktree_returns_witness:
  "\<exists>m h. belya_harness_leave_worktree calm_os True (in_tree, ()) = (m, h, ()) \<and> wt_cwd h = ''/ws'' \<and> jail_root h = Some ''/ws''"
proof -
  obtain m where e: "belya_harness_enter_worktree calm_os (Some ''a'') (at_home, ()) = (m, in_tree, ())"
    using in_tree_entered by blast
  obtain m2 h where l: "belya_harness_leave_worktree calm_os True (in_tree, ()) = (m2, h, ())"
    by (metis (full_types) prod.collapse old.unit.exhaust)
  then have "\<not> in_worktree h"
    using in_tree_state(1) by (auto simp: belya_harness_leave_worktree_def Let_def calm_os_def set_root_def split: if_splits)
  from worktree_returns[OF e _ in_tree_state(1) l this] l show ?thesis by (auto simp: at_home_def calm_os_def)
qed

text \<open>A worktree that was kept is not safe: entering one of the same name first removes the tree it
  left, with whatever was not committed in it.\<close>

theorem kept_worktree_is_removed:
  assumes "belya_harness_enter_worktree os (Some name) (h, w) = (m, h1, w1)" and "name \<noteq> []" and "\<not> in_worktree h" and "in_worktree h1"
    and "belya_harness_leave_worktree os True (h1, w2) = (m2, h2, w3)"
    and "belya_harness_enter_worktree os (Some name) (h2, w4) = (m3, h3, w5)" and "in_worktree h3" and "\<not> in_worktree h2"
  shows "remove_tree_cmd (active_worktree_path h1) \<in> set (drop (length (ran h2)) (ran h3))"
proof -
  have p: "active_worktree_path h1 = worktree_path (worktree_id name (unix_time os w4))"
    using enter_worktree_original[OF assms(1,3,4)] assms(2) by (simp add: worktree_id_def)
  have "ran h3 \<noteq> ran h2"
  proof
    assume s: "ran h3 = ran h2"
    let ?h = "h2\<lparr>original_worktree_cwd := (case get_cwd os w4 of Some d \<Rightarrow> d | None \<Rightarrow> wt_cwd h2)\<rparr>"
    let ?id = "worktree_id name (unix_time os w4)"
    obtain ok h' w' where mk: "make_worktree os ?id (worktree_path ?id) (?h, w4) = (ok, h', w')"
      by (cases "make_worktree os ?id (worktree_path ?id) (?h, w4)") auto
    have "ran h' \<noteq> ran h2" using make_worktree_ran[OF mk] by (auto simp: worktree_commands_def Let_def)
    with assms(6-8) s mk show False
      unfolding belya_harness_enter_worktree_def Let_def fst_conv snd_conv option.case mk prod.case set_root_def
      by (auto split: prod.splits if_splits option.splits)
  qed
  with enter_worktree_ran[OF assms(6)] show ?thesis by (auto simp: p Let_def worktree_commands_def)
qed

text \<open>A hook blocks a call only if its script is there, was started, was not silent for three
  seconds, and exited with status 2; every other outcome lets the call run.\<close>

theorem hook_blocks_only_by_exit_2:
  assumes "belya_run_lifecycle_hook os t tool args observation db_path cwd = Some r" and "blocked r"
  shows "\<exists>path p out. hook_script (executable os) t = Some path \<and>
    start_hook os path (hook_variables t tool args observation db_path cwd) = Some p \<and>
    hook_loop (hook_reads p) [] = Some (out, False) \<and> hook_status p = Some (Exited 2) \<and> exit_code r = 2 \<and>
    hook_output r = Some (without_newline out)"
proof -
  obtain path p out where h: "hook_script (executable os) t = Some path"
      "start_hook os path (hook_variables t tool args observation db_path cwd) = Some p"
      "hook_loop (hook_reads p) [] = Some (out, False)" and v: "map_option (hook_verdict out) (hook_status p) = Some r"
    using assms by (auto simp: belya_run_lifecycle_hook_def no_result_def timed_out_result_def split: option.splits if_splits)
  from v obtain st where s: "hook_status p = Some st" "r = hook_verdict out st" by auto
  have "st = Exited 2" using assms(2) s(2) by (cases st) (auto simp: hook_verdict_def)
  with h s show ?thesis by (simp add: hook_verdict_def)
qed

definition strict_hook :: hook_os where
  "strict_hook = \<lparr>executable = (\<lambda>p. True),
     start_hook = (\<lambda>p env. Some \<lparr>hook_reads = [Output (''no'' @ [LF]), Pipe_End], hook_status = Some (Exited 2)\<rparr>)\<rparr>"

theorem hook_blocks_only_by_exit_2_witness:
  "\<exists>r out. belya_run_lifecycle_hook strict_hook BELYA_HOOK_PRE_TOOL_USE (Some ''bash'') (Some ''{}'') None [] [] = Some r \<and>
     blocked r \<and> hook_output r = Some (without_newline out)"
proof -
  obtain r where r: "belya_run_lifecycle_hook strict_hook BELYA_HOOK_PRE_TOOL_USE (Some ''bash'') (Some ''{}'') None [] [] = Some r"
      and b: "blocked r"
    by (simp add: belya_run_lifecycle_hook_def strict_hook_def hook_script_def hook_verdict_def Let_def HOOK_OUTPUT_LIMIT_def c_string_def)
  from hook_blocks_only_by_exit_2[OF r b] r b show ?thesis by blast
qed

text \<open>A guard that takes more than three seconds without output lets the call run, whatever it would
  have answered.\<close>

theorem slow_hook_allows:
  assumes "hook_script (executable os) t = Some path"
    and "start_hook os path (hook_variables t tool args observation db_path cwd) = Some p" and "hook_reads p = Silence # rs"
  shows "belya_run_lifecycle_hook os t tool args observation db_path cwd = Some (timed_out_result [])"
  using assms by (simp add: belya_run_lifecycle_hook_def)

text \<open>The time limit is on silence only: a hook that closes its output and does not end holds the
  harness for ever.\<close>

theorem quiet_hook_hangs:
  assumes "hook_script (executable os) t = Some path"
    and "start_hook os path (hook_variables t tool args observation db_path cwd) = Some p"
    and "hook_reads p = Pipe_End # rs" and "hook_status p = None"
  shows "belya_run_lifecycle_hook os t tool args observation db_path cwd = None"
  using assms by (simp add: belya_run_lifecycle_hook_def)

text \<open>Registering a shadow worktree and unregistering it leaves the table as it was; when all sixteen
  slots are taken, a worktree is not recorded and the clean-up at exit misses it.\<close>

lemma unregister_register:
  assumes "path \<noteq> []" and "path \<notin> set ps" and "length path < 4096"
  shows "belya_shadow_worktree_unregister path (belya_shadow_worktree_register path ps) = ps"
  using assms by (induction path ps rule: belya_shadow_worktree_register.induct) auto

lemma register_full: "[] \<notin> set ps \<Longrightarrow> belya_shadow_worktree_register path ps = ps"
  by (induction path ps rule: belya_shadow_worktree_register.induct) auto

lemma registered_is_cleaned:
  assumes "[] \<in> set ps" and "path \<noteq> []" and "length path < 4096"
  shows "remove_worktree_cmd path \<in> set (fst (belya_shadow_worktree_cleanup_all (belya_shadow_worktree_register path ps)))"
  using assms by (induction path ps rule: belya_shadow_worktree_register.induct)
    (auto simp: belya_shadow_worktree_cleanup_all_def)

end
