(* ===== verification/LineEdit.thy ===== *)
theory LineEdit
  imports CNumber "HOL-Library.Monad_Syntax"
begin

text \<open>
  The terminal line editor of \<open>linenoise.c\<close>: the editing operations on the line buffer, the
  redraw after each of them, history and its file, TAB completion, the key loop
  \<open>linenoiseEdit\<close> and the entry point \<open>linenoise\<close>.

  The state record has the fields of \<open>struct linenoiseState\<close>; the line \<open>l_buf\<close> is the list
  of the bytes \<open>buf[0..len-1]\<close>, so \<open>len\<close> is its length. The file descriptors are streams:
  \<open>ifd\<close> the bytes still to be read, with end of file behind the last one, and \<open>ofd\<close> the bytes
  written, every write succeeding. \<open>history\<close>, \<open>history_max_len\<close> and the completion callback
  are the statics of the file; the answers of the terminal driver (\<open>isatty\<close>, raw mode, the
  window width) are inputs. A read or write outside a buffer is \<open>Undefined\<close>, or \<open>None\<close> in
  the operations.
\<close>

section \<open>State\<close>

abbreviation ESC :: char where "ESC \<equiv> CHR 0x1B"

record console =
  ifd :: cstr
  ofd :: cstr
  history :: "cstr list"
  history_max_len :: nat
  completionCallback :: "(cstr \<Rightarrow> cstr list) option"
  is_tty :: bool
  raw_ok :: bool
  ws_col :: nat

record linenoiseState = console +
  l_buf :: cstr
  l_buflen :: nat
  l_prompt :: cstr
  l_plen :: nat
  l_pos :: nat
  l_cols :: nat
  l_history_index :: nat

definition LINENOISE_DEFAULT_HISTORY_MAX_LEN :: nat where
  "LINENOISE_DEFAULT_HISTORY_MAX_LEN = 100"

definition LINENOISE_MAX_LINE :: nat where
  "LINENOISE_MAX_LINE = 4096"

text \<open>\<open>getColumns\<close>: the window width, or 80 where the terminal does not know it.\<close>

definition getColumns :: "nat \<Rightarrow> nat" where
  "getColumns ws = (if ws = 0 then 80 else ws)"

text \<open>
  \<open>linenoisePromptLen\<close> counts the bytes of the prompt that are not part of an escape sequence;
  \<open>csi_skip\<close> is its inner loop with the final byte, which is skipped too.
\<close>

definition csi_param :: "char \<Rightarrow> bool" where
  "csi_param c \<longleftrightarrow> isdigit c \<or> c = CHR '';'' \<or> c = CHR ''?''"

definition csi_skip :: "cstr \<Rightarrow> cstr" where
  "csi_skip s = drop 1 (dropWhile csi_param s)"

lemma csi_skip_le: "length (csi_skip s) \<le> length s"
  unfolding csi_skip_def by (metis diff_le_self le_trans length_drop length_dropWhile_le)

function linenoisePromptLen :: "cstr \<Rightarrow> nat" where
  "linenoisePromptLen [] = 0"
| "linenoisePromptLen (c # s) =
     (if c = ESC then linenoisePromptLen (case s of d # t \<Rightarrow> if d = CHR ''['' then csi_skip t else s | [] \<Rightarrow> s)
      else Suc (linenoisePromptLen s))"
  by pat_completeness auto
termination
  by (relation "measure length") (auto split: list.split simp: le_imp_less_Suc csi_skip_le le_SucI)

section \<open>Redraw\<close>

text \<open>
  The first loop of \<open>refreshLine\<close> advances \<open>buf\<close> until the cursor is inside the window; with a
  prompt as wide as the window \<open>pos\<close> would wrap below zero and \<open>buf\<close> leave the line. The second
  loop shortens the line to the window.
\<close>

fun scroll :: "nat \<Rightarrow> nat \<Rightarrow> cstr \<Rightarrow> nat \<Rightarrow> (cstr \<times> nat) option" where
  "scroll plen cols b pos =
     (if plen + pos \<ge> cols then
        (case pos of 0 \<Rightarrow> None | Suc p \<Rightarrow> scroll plen cols (tl b) p)
      else Some (b, pos))"

declare scroll.simps [simp del]

fun clip :: "nat \<Rightarrow> nat \<Rightarrow> nat \<Rightarrow> nat" where
  "clip plen cols 0 = 0"
| "clip plen cols (Suc n) = (if plen + Suc n > cols then clip plen cols n else Suc n)"

definition refreshLine :: "linenoiseState \<Rightarrow> linenoiseState option" where
  "refreshLine l =
     (case scroll (l_plen l) (l_cols l) (l_buf l) (l_pos l) of
        None \<Rightarrow> None
      | Some (b, p) \<Rightarrow>
          Some (l\<lparr>ofd := ofd l @ [CR] @ l_prompt l @ take (clip (l_plen l) (l_cols l) (length b)) b @
                 [ESC] @ ''[0K'' @ [CR, ESC] @ ''['' @ dec_text (p + l_plen l) @ ''C''\<rparr>))"

section \<open>Editing operations\<close>

definition linenoiseEditInsert :: "char \<Rightarrow> linenoiseState \<Rightarrow> linenoiseState option" where
  "linenoiseEditInsert c l =
     (if length (l_buf l) < l_buflen l then
        if length (l_buf l) = l_pos l then
          refreshLine (l\<lparr>l_buf := l_buf l @ [c], l_pos := l_pos l + 1\<rparr>)
        else
          refreshLine (l\<lparr>l_buf := take (l_pos l) (l_buf l) @ c # drop (l_pos l) (l_buf l), l_pos := l_pos l + 1\<rparr>)
      else Some l)"

definition linenoiseEditMoveLeft :: "linenoiseState \<Rightarrow> linenoiseState option" where
  "linenoiseEditMoveLeft l = (if l_pos l > 0 then refreshLine (l\<lparr>l_pos := l_pos l - 1\<rparr>) else Some l)"

definition linenoiseEditMoveRight :: "linenoiseState \<Rightarrow> linenoiseState option" where
  "linenoiseEditMoveRight l =
     (if l_pos l \<noteq> length (l_buf l) then refreshLine (l\<lparr>l_pos := l_pos l + 1\<rparr>) else Some l)"

definition linenoiseEditMoveHome :: "linenoiseState \<Rightarrow> linenoiseState option" where
  "linenoiseEditMoveHome l = (if l_pos l \<noteq> 0 then refreshLine (l\<lparr>l_pos := 0\<rparr>) else Some l)"

definition linenoiseEditMoveEnd :: "linenoiseState \<Rightarrow> linenoiseState option" where
  "linenoiseEditMoveEnd l =
     (if l_pos l \<noteq> length (l_buf l) then refreshLine (l\<lparr>l_pos := length (l_buf l)\<rparr>) else Some l)"

definition linenoiseEditBackspace :: "linenoiseState \<Rightarrow> linenoiseState option" where
  "linenoiseEditBackspace l =
     (if l_pos l > 0 \<and> length (l_buf l) > 0 then
        refreshLine (l\<lparr>l_buf := take (l_pos l - 1) (l_buf l) @ drop (l_pos l) (l_buf l), l_pos := l_pos l - 1\<rparr>)
      else Some l)"

definition linenoiseEditDelete :: "linenoiseState \<Rightarrow> linenoiseState option" where
  "linenoiseEditDelete l =
     (if length (l_buf l) > 0 \<and> l_pos l < length (l_buf l) then
        refreshLine (l\<lparr>l_buf := take (l_pos l) (l_buf l) @ drop (l_pos l + 1) (l_buf l)\<rparr>)
      else Some l)"

text \<open>
  \<open>linenoiseEditHistoryNext\<close>: the line is stored back into the history entry it came from, then
  the entry one step older (\<open>dir\<close>) or newer is copied into the buffer.
\<close>

definition history_load :: "nat \<Rightarrow> linenoiseState \<Rightarrow> linenoiseState option" where
  "history_load i l =
     (let b = take (l_buflen l - 1) (history l ! (length (history l) - 1 - i)) in
      refreshLine (l\<lparr>l_history_index := i, l_buf := b, l_pos := length b\<rparr>))"

definition linenoiseEditHistoryNext :: "bool \<Rightarrow> linenoiseState \<Rightarrow> linenoiseState option" where
  "linenoiseEditHistoryNext older l =
     (if length (history l) > 1 then
        if l_history_index l \<ge> length (history l) then None
        else
          let n = length (history l);
              l = l\<lparr>history := (history l)[n - 1 - l_history_index l := c_string (l_buf l)]\<rparr>
          in if older then
               if l_history_index l + 1 \<ge> n then Some (l\<lparr>l_history_index := n - 1\<rparr>)
               else history_load (l_history_index l + 1) l
             else
               if l_history_index l = 0 then Some l else history_load (l_history_index l - 1) l
      else Some l)"

text \<open>CTRL-T swaps the bytes around the cursor; CTRL-W rubs out the word before it.\<close>

definition edit_transpose :: "linenoiseState \<Rightarrow> linenoiseState option" where
  "edit_transpose l =
     (if l_pos l > 0 \<and> l_pos l < length (l_buf l) then
        let p = l_pos l; b = l_buf l in
        refreshLine (l\<lparr>l_buf := b[p - 1 := b ! p, p := b ! (p - 1)],
                       l_pos := (if p \<noteq> length b - 1 then p + 1 else p)\<rparr>)
      else Some l)"

fun backspace_while :: "(char \<Rightarrow> bool) \<Rightarrow> nat \<Rightarrow> linenoiseState \<Rightarrow> linenoiseState option" where
  "backspace_while P 0 l = Some l"
| "backspace_while P (Suc n) l =
     (if l_pos l > 0 \<and> P (l_buf l ! (l_pos l - 1)) then
        linenoiseEditBackspace l \<bind> backspace_while P n
      else Some l)"

definition edit_rubout_word :: "linenoiseState \<Rightarrow> linenoiseState option" where
  "edit_rubout_word l =
     backspace_while (\<lambda>c. c = CHR '' '') (l_pos l) l \<bind>
     (\<lambda>l. backspace_while (\<lambda>c. c \<noteq> CHR '' '') (l_pos l) l)"

section \<open>Completion\<close>

text \<open>
  \<open>completeLine\<close> shows the candidates one after the other. Its loop reads one byte per round, so
  it recurses on the unread input. The byte it stops at is returned; 0 means that none was read.
  Copying a candidate that does not fit would set \<open>len\<close> behind the buffer.
\<close>

definition show_candidate :: "cstr list \<Rightarrow> nat \<Rightarrow> linenoiseState \<Rightarrow> linenoiseState option" where
  "show_candidate lc i l =
     (if i < length lc then
        map_option (\<lambda>l'. l\<lparr>ofd := ofd l'\<rparr>) (refreshLine (l\<lparr>l_buf := lc ! i, l_pos := length (lc ! i)\<rparr>))
      else refreshLine l)"

definition take_candidate :: "cstr list \<Rightarrow> nat \<Rightarrow> linenoiseState \<Rightarrow> linenoiseState option" where
  "take_candidate lc i l =
     (if i < length lc then
        if length (lc ! i) \<ge> l_buflen l then None
        else Some (l\<lparr>l_buf := lc ! i, l_pos := length (lc ! i)\<rparr>)
      else Some l)"

fun complete_loop :: "cstr list \<Rightarrow> cstr \<Rightarrow> nat \<Rightarrow> char \<Rightarrow> linenoiseState \<Rightarrow> (linenoiseState \<times> char) option" where
  "complete_loop lc [] i c l = map_option (\<lambda>l. (l\<lparr>ifd := []\<rparr>, c)) (show_candidate lc i l)"
| "complete_loop lc (k # inp) i c l =
     (case show_candidate lc i l of
        None \<Rightarrow> None
      | Some l \<Rightarrow>
          if k = TAB then complete_loop lc inp ((i + 1) mod (length lc + 1)) k l
          else if k = ESC then
            map_option (\<lambda>l. (l\<lparr>ifd := inp\<rparr>, k)) (if i < length lc then refreshLine l else Some l)
          else map_option (\<lambda>l. (l\<lparr>ifd := inp\<rparr>, k)) (take_candidate lc i l))"

definition completeLine :: "(cstr \<Rightarrow> cstr list) \<Rightarrow> linenoiseState \<Rightarrow> (linenoiseState \<times> char) option" where
  "completeLine cb l =
     (let lc = cb (c_string (l_buf l)) in
      if lc = [] then Some (l, NUL) else complete_loop lc (ifd l) 0 NUL l)"

section \<open>History\<close>

definition linenoiseHistoryAdd :: "cstr \<Rightarrow> 'a console_scheme \<Rightarrow> 'a console_scheme" where
  "linenoiseHistoryAdd line h =
     (if history_max_len h = 0 then h
      else if history h \<noteq> [] \<and> last (history h) = line then h
      else if length (history h) = history_max_len h then h\<lparr>history := tl (history h) @ [line]\<rparr>
      else h\<lparr>history := history h @ [line]\<rparr>)"

definition linenoiseHistorySetMaxLen :: "nat \<Rightarrow> 'a console_scheme \<Rightarrow> 'a console_scheme" where
  "linenoiseHistorySetMaxLen n h =
     (if n < 1 then h
      else h\<lparr>history := drop (length (history h) - min n (length (history h))) (history h), history_max_len := n\<rparr>)"

definition linenoiseHistoryFree :: "'a console_scheme \<Rightarrow> 'a console_scheme" where
  "linenoiseHistoryFree h = h\<lparr>history := []\<rparr>"

text \<open>\<open>linenoiseHistorySave\<close> is the text of the file it writes, \<open>linenoiseHistoryLoad\<close> reads one.\<close>

definition linenoiseHistorySave :: "'a console_scheme \<Rightarrow> cstr" where
  "linenoiseHistorySave h = concat (map (\<lambda>e. if e \<noteq> [] then e @ [LF] else []) (history h))"

definition history_line :: "cstr \<Rightarrow> cstr" where
  "history_line chunk =
     (let s = c_string chunk in
      case strchr s CR of
        Some p \<Rightarrow> between s p
      | None \<Rightarrow> (case strchr s LF of Some p \<Rightarrow> between s p | None \<Rightarrow> s))"

definition linenoiseHistoryLoad :: "cstr \<Rightarrow> 'a console_scheme \<Rightarrow> 'a console_scheme" where
  "linenoiseHistoryLoad file h =
     foldl (\<lambda>h chunk. if history_line chunk \<noteq> [] then linenoiseHistoryAdd (history_line chunk) h else h)
       h (fgets_chunks LINENOISE_MAX_LINE file)"

section \<open>The key loop\<close>

text \<open>
  One round of the loop of \<open>linenoiseEdit\<close>: \<open>Continue\<close> with the next key, \<open>Return\<close> the value the
  function returns, or \<open>Undefined\<close>. Every round that continues reads at least one byte.
\<close>

datatype edit_result = Continue linenoiseState | Return int linenoiseState | Undefined

definition edit_done :: "linenoiseState option \<Rightarrow> edit_result" where
  "edit_done r = (case r of Some l \<Rightarrow> Continue l | None \<Rightarrow> Undefined)"

definition pop_history :: "int \<Rightarrow> linenoiseState \<Rightarrow> edit_result" where
  "pop_history r l = (if history l = [] then Undefined else Return r (l\<lparr>history := butlast (history l)\<rparr>))"

text \<open>The bytes behind an escape: \<open>seq\<close> is read byte by byte, and a missing byte ends the case.\<close>

definition edit_escape :: "linenoiseState \<Rightarrow> linenoiseState option" where
  "edit_escape l =
     (case ifd l of
        s0 # s1 # r \<Rightarrow>
          if s0 = CHR ''['' then
            if isdigit s1 then
              (case r of
                 s2 # r' \<Rightarrow>
                   if s2 = CHR ''~'' \<and> s1 = CHR ''3'' then linenoiseEditDelete (l\<lparr>ifd := r'\<rparr>)
                   else Some (l\<lparr>ifd := r'\<rparr>)
               | [] \<Rightarrow> Some (l\<lparr>ifd := []\<rparr>))
            else
              let l = l\<lparr>ifd := r\<rparr> in
              if s1 = CHR ''A'' then linenoiseEditHistoryNext True l
              else if s1 = CHR ''B'' then linenoiseEditHistoryNext False l
              else if s1 = CHR ''C'' then linenoiseEditMoveRight l
              else if s1 = CHR ''D'' then linenoiseEditMoveLeft l
              else if s1 = CHR ''H'' then linenoiseEditMoveHome l
              else if s1 = CHR ''F'' then linenoiseEditMoveEnd l
              else Some l
          else Some (l\<lparr>ifd := r\<rparr>)
      | _ \<Rightarrow> Some (l\<lparr>ifd := []\<rparr>))"

definition clear_sequence :: cstr where
  "clear_sequence = [ESC] @ ''[H'' @ [ESC] @ ''[2J''"

definition edit_key :: "char \<Rightarrow> linenoiseState \<Rightarrow> edit_result" where
  "edit_key c l =
     (if c = CHR 0x0D then pop_history (int (length (l_buf l))) l
      else if c = CHR 0x03 then Return (-1) l
      else if c = CHR 0x7F \<or> c = CHR 0x08 then edit_done (linenoiseEditBackspace l)
      else if c = CHR 0x04 then
        (if length (l_buf l) > 0 then edit_done (linenoiseEditDelete l) else pop_history (-1) l)
      else if c = CHR 0x14 then edit_done (edit_transpose l)
      else if c = CHR 0x02 then edit_done (linenoiseEditMoveLeft l)
      else if c = CHR 0x06 then edit_done (linenoiseEditMoveRight l)
      else if c = CHR 0x10 then edit_done (linenoiseEditHistoryNext True l)
      else if c = CHR 0x0E then edit_done (linenoiseEditHistoryNext False l)
      else if c = ESC then edit_done (edit_escape l)
      else if c = CHR 0x15 then edit_done (refreshLine (l\<lparr>l_buf := [], l_pos := 0\<rparr>))
      else if c = CHR 0x0B then edit_done (refreshLine (l\<lparr>l_buf := take (l_pos l) (l_buf l)\<rparr>))
      else if c = CHR 0x01 then edit_done (linenoiseEditMoveHome l)
      else if c = CHR 0x05 then edit_done (linenoiseEditMoveEnd l)
      else if c = CHR 0x0C then edit_done (refreshLine (l\<lparr>ofd := ofd l @ clear_sequence\<rparr>))
      else if c = CHR 0x17 then edit_done (edit_rubout_word l)
      else edit_done (linenoiseEditInsert c l))"

definition edit_step :: "linenoiseState \<Rightarrow> edit_result" where
  "edit_step l =
     (case ifd l of
        [] \<Rightarrow> Return (int (length (l_buf l))) l
      | c # r \<Rightarrow>
          let l = l\<lparr>ifd := r\<rparr> in
          case completionCallback l of
            None \<Rightarrow> edit_key c l
          | Some cb \<Rightarrow>
              if c = TAB then
                (case completeLine cb l of
                   None \<Rightarrow> Undefined
                 | Some (l, k) \<Rightarrow>
                     if byte k \<ge> 128 then Return (int (length (l_buf l))) l
                     else if k = NUL then Continue l
                     else edit_key k l)
              else edit_key c l)"

fun edit_loop :: "nat \<Rightarrow> linenoiseState \<Rightarrow> edit_result" where
  "edit_loop 0 l = Continue l"
| "edit_loop (Suc n) l = (case edit_step l of Continue l' \<Rightarrow> edit_loop n l' | r \<Rightarrow> r)"

definition edit_start :: "cstr \<Rightarrow> console \<Rightarrow> linenoiseState" where
  "edit_start prompt t =
     (let t = linenoiseHistoryAdd [] t in
      console.extend (t\<lparr>ofd := ofd t @ prompt\<rparr>)
        (linenoiseState.fields [] (LINENOISE_MAX_LINE - 1) prompt (linenoisePromptLen prompt) 0
           (getColumns (ws_col t)) 0))"

definition linenoiseEdit :: "cstr \<Rightarrow> console \<Rightarrow> edit_result" where
  "linenoiseEdit prompt t = edit_loop (Suc (length (ifd t))) (edit_start prompt t)"

text \<open>
  \<open>linenoise\<close> returns the line, or NULL; without a terminal it reads a line with \<open>fgets\<close>, and the
  prompt is not written.
\<close>

definition linenoiseRaw :: "cstr \<Rightarrow> console \<Rightarrow> (cstr option \<times> console) option" where
  "linenoiseRaw prompt t =
     (if \<not> is_tty t then
        if ifd t = [] then Some (None, t)
        else
          let chunk = fgets_chunk LINENOISE_MAX_LINE (ifd t) in
          Some (Some (rskip (\<lambda>c. c = LF \<or> c = CR) (c_string chunk)), t\<lparr>ifd := drop (length chunk) (ifd t)\<rparr>)
      else if \<not> raw_ok t then Some (None, t)
      else
        case linenoiseEdit prompt t of
          Return r l \<Rightarrow>
            (let t' = console.truncate l in
             Some (if r = -1 then None else Some (c_string (l_buf l)), t'\<lparr>ofd := ofd t' @ [LF]\<rparr>))
        | _ \<Rightarrow> None)"

definition linenoise :: "cstr \<Rightarrow> console \<Rightarrow> (cstr option \<times> console) option" where
  "linenoise prompt t = linenoiseRaw prompt t"

section \<open>The redraw shows the cursor\<close>

lemma scroll_closed:
  "plen < cols \<Longrightarrow>
   scroll plen cols b p = Some (drop (p - (cols - 1 - plen)) b, min p (cols - 1 - plen))"
proof (induction p arbitrary: b)
  case 0
  then show ?case by (simp add: scroll.simps)
next
  case (Suc p)
  show ?case
  proof (cases "cols \<le> plen + Suc p")
    case True
    then have "scroll plen cols b (Suc p) = scroll plen cols (tl b) p" by (simp add: scroll.simps[of _ _ b])
    moreover have "Suc p - (cols - 1 - plen) = Suc (p - (cols - 1 - plen))" using True Suc.prems by simp
    moreover have "min (Suc p) (cols - 1 - plen) = min p (cols - 1 - plen)" using True by simp
    ultimately show ?thesis using Suc by (simp add: drop_Suc)
  next
    case False
    then show ?thesis by (simp add: scroll.simps min_def)
  qed
qed

lemma clip_closed: "plen < cols \<Longrightarrow> clip plen cols n = min n (cols - plen)"
  by (induction n) auto

definition redraw :: "linenoiseState \<Rightarrow> cstr" where
  "redraw l =
     (let k = l_pos l - (l_cols l - 1 - l_plen l) in
      [CR] @ l_prompt l @ take (l_cols l - l_plen l) (drop k (l_buf l)) @ [ESC] @ ''[0K'' @ [CR, ESC] @ ''['' @
        dec_text (min (l_pos l) (l_cols l - 1 - l_plen l) + l_plen l) @ ''C'')"

lemma take_clip: "take (min (length b - k) n) (drop k b) = take n (drop k b)"
  by (simp add: min_def)

lemma refreshLine_Some:
  "l_plen l < l_cols l \<Longrightarrow> refreshLine l = Some (l\<lparr>ofd := ofd l @ redraw l\<rparr>)"
  by (simp add: refreshLine_def scroll_closed clip_closed redraw_def Let_def take_clip del: append.simps)

section \<open>The invariant\<close>

definition fits :: "linenoiseState \<Rightarrow> bool" where
  "fits l \<longleftrightarrow> l_plen l < l_cols l"

definition line_ok :: "linenoiseState \<Rightarrow> bool" where
  "line_ok l \<longleftrightarrow> l_plen l < l_cols l \<and> l_pos l \<le> length (l_buf l) \<and> length (l_buf l) \<le> l_buflen l \<and>
     l_buflen l = LINENOISE_MAX_LINE - 1 \<and> history l \<noteq> [] \<and> length (history l) \<le> history_max_len l \<and>
     l_history_index l < length (history l) \<and>
     (\<forall>cb \<in> set_option (completionCallback l). \<forall>s. \<forall>t \<in> set (cb s). length t < LINENOISE_MAX_LINE - 1)"

definition kept :: "linenoiseState \<Rightarrow> linenoiseState option \<Rightarrow> bool" where
  "kept l r \<longleftrightarrow> (\<exists>l'. r = Some l' \<and> line_ok l' \<and> ifd l' = ifd l)"

lemma keptI: "line_ok l' \<Longrightarrow> ifd l' = ifd l \<Longrightarrow> kept l (Some l')"
  by (simp add: kept_def)

lemma kept_refresh: "line_ok l' \<Longrightarrow> ifd l' = ifd l \<Longrightarrow> kept l (refreshLine l')"
  by (simp add: kept_def refreshLine_Some line_ok_def)

lemmas line_ops = linenoiseEditInsert_def linenoiseEditMoveLeft_def linenoiseEditMoveRight_def
  linenoiseEditMoveHome_def linenoiseEditMoveEnd_def linenoiseEditBackspace_def linenoiseEditDelete_def
  edit_transpose_def Let_def

lemma kept_insert: "line_ok l \<Longrightarrow> kept l (linenoiseEditInsert c l)"
  unfolding line_ops by (auto intro!: keptI kept_refresh simp: line_ok_def min_def)

lemma kept_moves:
  assumes "line_ok l"
  shows kept_left: "kept l (linenoiseEditMoveLeft l)" and kept_right: "kept l (linenoiseEditMoveRight l)"
    and kept_home: "kept l (linenoiseEditMoveHome l)" and kept_end: "kept l (linenoiseEditMoveEnd l)"
    and kept_backspace: "kept l (linenoiseEditBackspace l)" and kept_delete: "kept l (linenoiseEditDelete l)"
    and kept_transpose: "kept l (edit_transpose l)"
  using assms unfolding line_ops by (auto intro!: keptI kept_refresh simp: line_ok_def min_def)

lemma kept_history:
  assumes "line_ok l"
  shows "kept l (linenoiseEditHistoryNext older l)"
  using assms unfolding linenoiseEditHistoryNext_def history_load_def Let_def
  by (auto intro!: keptI kept_refresh simp: line_ok_def)

lemma kept_bind:
  "kept l r \<Longrightarrow> (\<And>l'. line_ok l' \<Longrightarrow> kept l' (f l')) \<Longrightarrow> kept l (r \<bind> f)"
  by (fastforce simp: kept_def)

lemma kept_backspace_while: "line_ok l \<Longrightarrow> kept l (backspace_while P n l)"
  by (induction n arbitrary: l) (auto intro: kept_bind kept_backspace keptI)

lemma kept_rubout: "line_ok l \<Longrightarrow> kept l (edit_rubout_word l)"
  unfolding edit_rubout_word_def by (intro kept_bind kept_backspace_while)

text \<open>A round either continues with the invariant and less input, or returns.\<close>

definition round_ok :: "nat \<Rightarrow> edit_result \<Rightarrow> bool" where
  "round_ok n r =
     (case r of Continue l' \<Rightarrow> line_ok l' \<and> length (ifd l') \<le> n
      | Return k l' \<Rightarrow> (k = -1 \<or> k = int (length (l_buf l'))) \<and> length (l_buf l') < LINENOISE_MAX_LINE \<and>
          length (history l') \<le> history_max_len l'
      | Undefined \<Rightarrow> False)"

lemma round_kept: "kept l r \<Longrightarrow> length (ifd l) \<le> n \<Longrightarrow> round_ok n (edit_done r)"
  by (auto simp: kept_def round_ok_def edit_done_def)

lemma line_ok_ifd [simp]: "line_ok (l\<lparr>ifd := x\<rparr>) = line_ok l"
  by (simp add: line_ok_def)

lemma line_ok_ofd [simp]: "line_ok (l\<lparr>ofd := x\<rparr>) = line_ok l"
  by (simp add: line_ok_def)

lemma round_if:
  "(b \<Longrightarrow> round_ok n x) \<Longrightarrow> (\<not> b \<Longrightarrow> round_ok n y) \<Longrightarrow> round_ok n (if b then x else y)"
  by simp

lemma escape_ok:
  assumes "line_ok l"
  shows "round_ok (length (ifd l)) (edit_done (edit_escape l))"
proof -
  have s: "round_ok n (edit_done (Some (l\<lparr>ifd := x\<rparr>)))" if "length x \<le> n" for x n
    using that assms by (simp add: round_ok_def edit_done_def)
  have k: "round_ok n (edit_done (f (l\<lparr>ifd := x\<rparr>)))"
    if "\<And>l. line_ok l \<Longrightarrow> kept l (f l)" "length x \<le> n" for f x n
    using that assms by (intro round_kept[where l = "l\<lparr>ifd := x\<rparr>"]) simp_all
  note ks = k[OF kept_left] k[OF kept_right] k[OF kept_home] k[OF kept_end] k[OF kept_delete]
    k[OF kept_history[where older = True]] k[OF kept_history[where older = False]]
  have r: "round_ok (length (ifd l))
      (edit_done (case r of s2 # r' \<Rightarrow> if s2 = CHR ''~'' \<and> s1 = CHR ''3'' then linenoiseEditDelete (l\<lparr>ifd := r'\<rparr>)
           else Some (l\<lparr>ifd := r'\<rparr>) | [] \<Rightarrow> Some (l\<lparr>ifd := []\<rparr>)))"
    if "ifd l = s0 # s1 # r" for s0 s1 r
    using that by (cases r) (simp_all add: s ks)
  show ?thesis
  proof (cases "\<exists>s0 s1 r. ifd l = s0 # s1 # r")
    case True
    then obtain s0 s1 r' where i: "ifd l = s0 # s1 # r'" by blast
    then have n: "length r' \<le> length (ifd l)" by simp
    have d: "edit_done (if b then x else y) = (if b then edit_done x else edit_done y)" for b x y by simp
    show ?thesis
      unfolding edit_escape_def i list.case Let_def d
      using r[OF i] unfolding i by (intro round_if s ks n[unfolded i])
  next
    case False
    then have "edit_escape l = Some (l\<lparr>ifd := []\<rparr>)"
      by (auto simp: edit_escape_def split: list.split)
    then show ?thesis by (simp add: s)
  qed
qed

lemma edit_key_ok:
  assumes "line_ok l"
  shows "round_ok (length (ifd l)) (edit_key c l)"
proof -
  note k = round_kept[where l = l and n = "length (ifd l)", OF _ order_refl]
  have p: "round_ok (length (ifd l)) (pop_history (int (length (l_buf l))) l)"
      "round_ok (length (ifd l)) (pop_history (-1) l)"
      "round_ok (length (ifd l)) (Return (-1) l)"
    using assms by (auto simp: pop_history_def round_ok_def line_ok_def LINENOISE_MAX_LINE_def)
  have r: "round_ok (length (ifd l)) (edit_done (refreshLine l'))" if "line_ok l'" "ifd l' = ifd l" for l'
    using that kept_refresh[of l' l] k by simp
  show ?thesis
    unfolding edit_key_def
    by (intro round_if p k[OF kept_insert] k[OF kept_left] k[OF kept_right] k[OF kept_home] k[OF kept_end]
        k[OF kept_backspace] k[OF kept_delete] k[OF kept_transpose] k[OF kept_history] k[OF kept_rubout]
        escape_ok r assms)
      (use assms in \<open>auto simp: line_ok_def min_def\<close>)
qed

lemma candidate_shown:
  assumes "line_ok l"
  shows "\<exists>l'. show_candidate lc i l = Some l' \<and> line_ok l'"
  using assms by (auto simp: show_candidate_def refreshLine_Some line_ok_def)

lemma complete_loop_ok:
  assumes "line_ok l" "\<forall>t \<in> set lc. length t < LINENOISE_MAX_LINE - 1"
  shows "\<exists>l' k. complete_loop lc inp i c l = Some (l', k) \<and> line_ok l' \<and> length (ifd l') \<le> length inp"
  using assms
proof (induction lc inp i c l rule: complete_loop.induct)
  case (1 lc i c l)
  then obtain l' where "show_candidate lc i l = Some l'" "line_ok l'" using candidate_shown by blast
  then show ?case by simp
next
  case (2 lc k inp i c l)
  then obtain m where m: "show_candidate lc i l = Some m" "line_ok m" using candidate_shown by blast
  then have f: "l_plen m < l_cols m" by (simp add: line_ok_def)
  have t: "\<exists>l'. take_candidate lc i m = Some l' \<and> line_ok l'"
  proof (cases "i < length lc")
    case True
    then have "length (lc ! i) < LINENOISE_MAX_LINE - 1" using "2.prems"(2) nth_mem by blast
    then show ?thesis using m(2) by (simp add: take_candidate_def line_ok_def)
  qed (simp add: take_candidate_def m(2))
  show ?case
  proof (cases "k = TAB")
    case True
    with "2.IH"[OF m(1) True m(2) "2.prems"(2)] m(1) show ?thesis by fastforce
  next
    case False
    with m t show ?thesis by (auto simp: refreshLine_Some[OF f])
  qed
qed

lemma completeLine_ok:
  assumes "line_ok l" "completionCallback l = Some cb"
  shows "\<exists>l' k. completeLine cb l = Some (l', k) \<and> line_ok l' \<and> length (ifd l') \<le> length (ifd l)"
  using assms complete_loop_ok[of l "cb (c_string (l_buf l))" "ifd l" 0 NUL]
  by (auto simp: completeLine_def Let_def line_ok_def)

lemma edit_step_ok:
  assumes "line_ok l"
  shows "round_ok (length (ifd l) - 1) (edit_step l) \<and> (ifd l = [] \<longrightarrow> (\<exists>k l'. edit_step l = Return k l'))"
proof (cases "ifd l")
  case Nil
  with assms show ?thesis by (auto simp: edit_step_def round_ok_def line_ok_def LINENOISE_MAX_LINE_def)
next
  case (Cons c r)
  define m where "m = l\<lparr>ifd := r\<rparr>"
  have m: "line_ok m" "ifd m = r" using assms by (simp_all add: m_def)
  have key: "round_ok (length r) (edit_key c m)" using edit_key_ok[OF m(1), of c] m(2) by simp
  have comp: "round_ok (length r)
      (case completeLine cb m of None \<Rightarrow> Undefined
       | Some (l, k) \<Rightarrow> if byte k \<ge> 128 then Return (int (length (l_buf l))) l
                      else if k = NUL then Continue l else edit_key k l)"
    if cb: "completionCallback m = Some cb" for cb
  proof -
    obtain l' k where lk: "completeLine cb m = Some (l', k)" "line_ok l'" "length (ifd l') \<le> length r"
      using completeLine_ok[OF m(1) cb] m(2) by auto
    have "round_ok (length (ifd l')) (edit_key k l')" by (rule edit_key_ok[OF lk(2)])
    then have "round_ok (length r) (edit_key k l')"
      using lk(3) by (auto simp: round_ok_def split: edit_result.splits)
    with lk show ?thesis by (auto simp: round_ok_def line_ok_def LINENOISE_MAX_LINE_def)
  qed
  have "edit_step l = (case completionCallback m of None \<Rightarrow> edit_key c m
      | Some cb \<Rightarrow> if c = TAB then (case completeLine cb m of None \<Rightarrow> Undefined
       | Some (l, k) \<Rightarrow> if byte k \<ge> 128 then Return (int (length (l_buf l))) l
                      else if k = NUL then Continue l else edit_key k l) else edit_key c m)"
    unfolding edit_step_def Cons list.case Let_def m_def by simp
  with key comp Cons show ?thesis by (auto split: option.splits)
qed

lemma edit_loop_ok:
  "line_ok l \<Longrightarrow> length (ifd l) < n \<Longrightarrow>
   \<exists>k l'. edit_loop n l = Return k l' \<and> (k = -1 \<or> k = int (length (l_buf l'))) \<and> length (l_buf l') < LINENOISE_MAX_LINE \<and>
     length (history l') \<le> history_max_len l'"
proof (induction n arbitrary: l)
  case (Suc n)
  note s = edit_step_ok[OF Suc.prems(1)]
  show ?case
  proof (cases "edit_step l")
    case (Continue l')
    with s have "line_ok l'" "length (ifd l') \<le> length (ifd l) - 1" "ifd l \<noteq> []" by (auto simp: round_ok_def)
    with Suc.IH[of l'] Suc.prems(2) Continue show ?thesis by (cases "ifd l") auto
  next
    case (Return k l')
    with s show ?thesis by (simp add: round_ok_def)
  next
    case Undefined
    with s show ?thesis by (simp add: round_ok_def)
  qed
qed simp

text \<open>The console as the caller sets it up: a history that keeps something and candidates that fit.\<close>

definition console_ok :: "console \<Rightarrow> bool" where
  "console_ok t \<longleftrightarrow> 0 < history_max_len t \<and> length (history t) \<le> history_max_len t \<and>
     (\<forall>cb \<in> set_option (completionCallback t). \<forall>s. \<forall>c \<in> set (cb s). length c < LINENOISE_MAX_LINE - 1)"

lemma history_add_ok:
  assumes "0 < history_max_len t" "length (history t) \<le> history_max_len t"
  shows "history (linenoiseHistoryAdd s t) \<noteq> [] \<and> length (history (linenoiseHistoryAdd s t)) \<le> history_max_len t
    \<and> history_max_len (linenoiseHistoryAdd s t) = history_max_len t \<and> ifd (linenoiseHistoryAdd s t) = ifd t
    \<and> completionCallback (linenoiseHistoryAdd s t) = completionCallback t \<and> ws_col (linenoiseHistoryAdd s t) = ws_col t"
  using assms by (auto simp: linenoiseHistoryAdd_def)

lemma edit_start_ok:
  assumes "console_ok t" "linenoisePromptLen prompt < getColumns (ws_col t)"
  shows "line_ok (edit_start prompt t)" "ifd (edit_start prompt t) = ifd t"
  using assms history_add_ok[of t "[]"]
  by (auto simp: console_ok_def line_ok_def edit_start_def Let_def console.defs linenoiseState.defs)

text \<open>What the editor never changes: the statics other than the history, and the terminal.\<close>

definition tty_env :: "'a console_scheme \<Rightarrow> nat \<times> (cstr \<Rightarrow> cstr list) option \<times> bool \<times> bool \<times> nat" where
  "tty_env l = (history_max_len l, completionCallback l, is_tty l, raw_ok l, ws_col l)"

definition same_env :: "linenoiseState \<Rightarrow> linenoiseState option \<Rightarrow> bool" where
  "same_env l r \<longleftrightarrow> (\<forall>l'. r = Some l' \<longrightarrow> tty_env l' = tty_env l)"

lemma same_env_Some [simp]: "same_env l (Some l') \<longleftrightarrow> tty_env l' = tty_env l" "same_env l None"
  by (simp_all add: same_env_def)

lemma same_env_refresh [simp]: "same_env l (refreshLine l') \<longleftrightarrow> refreshLine l' = None \<or> tty_env l' = tty_env l"
  by (auto simp: same_env_def refreshLine_def tty_env_def split: option.splits prod.splits)

lemma tty_env_upd [simp]:
  "tty_env (l\<lparr>l_buf := x\<rparr>) = tty_env l" "tty_env (l\<lparr>l_pos := y\<rparr>) = tty_env l" "tty_env (l\<lparr>l_history_index := z\<rparr>) = tty_env l"
  "tty_env (c\<lparr>ifd := u\<rparr>) = tty_env c" "tty_env (c\<lparr>ofd := u\<rparr>) = tty_env c" "tty_env (c\<lparr>history := v\<rparr>) = tty_env c"
  by (simp_all add: tty_env_def)

lemma same_env_ops [simp]:
  "same_env l (linenoiseEditInsert c l)" "same_env l (linenoiseEditMoveLeft l)" "same_env l (linenoiseEditMoveRight l)"
  "same_env l (linenoiseEditMoveHome l)" "same_env l (linenoiseEditMoveEnd l)" "same_env l (linenoiseEditBackspace l)"
  "same_env l (linenoiseEditDelete l)" "same_env l (edit_transpose l)" "same_env l (linenoiseEditHistoryNext older l)"
  unfolding line_ops linenoiseEditHistoryNext_def history_load_def by (simp_all add: Let_def)

lemma same_env_bind: "same_env l r \<Longrightarrow> (\<And>l'. same_env l' (f l')) \<Longrightarrow> same_env l (r \<bind> f)"
  by (cases r) (auto simp: same_env_def)

lemma same_env_backspace_while: "same_env l (backspace_while P n l)"
  by (induction n arbitrary: l) (auto intro: same_env_bind)

lemma same_env_rubout [simp]: "same_env l (edit_rubout_word l)"
  unfolding edit_rubout_word_def by (intro same_env_bind same_env_backspace_while)

lemma same_env_ifd: "(\<And>l. same_env l (f l)) \<Longrightarrow> same_env l (f (l\<lparr>ifd := x\<rparr>))"
  unfolding same_env_def by force

lemma same_env_escape [simp]: "same_env l (edit_escape l)"
  unfolding edit_escape_def Let_def
  by (simp split: list.split add: same_env_ifd[of linenoiseEditDelete] same_env_ifd[of linenoiseEditMoveLeft]
      same_env_ifd[of linenoiseEditMoveRight] same_env_ifd[of linenoiseEditMoveHome] same_env_ifd[of linenoiseEditMoveEnd]
      same_env_ifd[of "linenoiseEditHistoryNext True"] same_env_ifd[of "linenoiseEditHistoryNext False"])

definition result_env :: "linenoiseState \<Rightarrow> edit_result \<Rightarrow> bool" where
  "result_env l r = (case r of Continue l' \<Rightarrow> tty_env l' = tty_env l | Return k l' \<Rightarrow> tty_env l' = tty_env l | Undefined \<Rightarrow> True)"

lemma result_env_done [simp]: "same_env l r \<Longrightarrow> result_env l (edit_done r)"
  by (auto simp: same_env_def result_env_def edit_done_def split: option.splits)

lemma result_env_key: "result_env l (edit_key c l)"
  unfolding edit_key_def by (simp add: result_env_def[of _ "Return _ _"] result_env_def[of _ Undefined] pop_history_def)

lemma complete_loop_env: "complete_loop lc inp i c l = Some (l', k) \<Longrightarrow> tty_env l' = tty_env l"
proof (induction lc inp i c l rule: complete_loop.induct)
  case (1 lc i c l)
  then show ?case by (auto simp: show_candidate_def refreshLine_def split: if_splits option.splits)
next
  case (2 lc a inp i c l)
  from "2.prems" obtain m where m: "show_candidate lc i l = Some m" by (auto split: option.splits)
  then have e: "tty_env m = tty_env l"
    by (auto simp: show_candidate_def refreshLine_def split: if_splits option.splits)
  show ?case
  proof (cases "a = TAB")
    case True
    with 2 m e show ?thesis by simp
  next
    case False
    with "2.prems" m e show ?thesis
      by (auto simp: take_candidate_def refreshLine_def split: if_splits option.splits)
  qed
qed

lemma result_env_step: "result_env l (edit_step l)"
proof (cases "ifd l")
  case Nil
  then show ?thesis by (simp add: edit_step_def result_env_def)
next
  case (Cons c r)
  have k: "result_env l (edit_key k l')" if "tty_env l' = tty_env l" for k l'
    using result_env_key[of l' k] that by (simp add: result_env_def split: edit_result.splits)
  have c: "tty_env l' = tty_env l" if "completeLine cb (l\<lparr>ifd := r\<rparr>) = Some (l', k)" for cb l' k
    using that complete_loop_env by (fastforce simp: completeLine_def Let_def split: if_splits)
  show ?thesis
    unfolding edit_step_def Cons list.case Let_def
    by (auto split: option.split dest: c intro!: k simp: result_env_def[of _ "Return _ _"] result_env_def[of _ Undefined]
        result_env_def[of _ "Continue _"])
qed

lemma edit_loop_env: "result_env l (edit_loop n l)"
proof (induction n arbitrary: l)
  case (Suc n)
  show ?case
  proof (cases "edit_step l")
    case (Continue l')
    with result_env_step[of l] Suc[of l'] show ?thesis by (simp add: result_env_def split: edit_result.splits)
  next
    case (Return k l')
    with result_env_step[of l] show ?thesis by (simp add: result_env_def)
  next
    case Undefined
    then show ?thesis by (simp add: result_env_def)
  qed
qed (simp add: result_env_def)

lemma linenoise_keeps_console:
  assumes "console_ok t" "linenoisePromptLen prompt < getColumns (ws_col t)" "linenoise prompt t = Some (line, t')"
  shows "console_ok t' \<and> tty_env t' = tty_env t"
proof (cases "is_tty t \<and> raw_ok t")
  case True
  obtain k l' where l': "linenoiseEdit prompt t = Return k l'" "length (history l') \<le> history_max_len l'"
    using edit_loop_ok[OF edit_start_ok(1)[OF assms(1,2)], of "Suc (length (ifd t))"] edit_start_ok(2)[OF assms(1,2)]
    by (auto simp: linenoiseEdit_def)
  have "tty_env l' = tty_env (edit_start prompt t)"
    using edit_loop_env[of "edit_start prompt t" "Suc (length (ifd t))"] l'(1) by (simp add: linenoiseEdit_def result_env_def)
  also have "\<dots> = tty_env t"
    by (simp add: edit_start_def tty_env_def Let_def console.defs linenoiseHistoryAdd_def)
  finally have e: "tty_env l' = tty_env t" .
  have "t' = (console.truncate l')\<lparr>ofd := ofd l' @ [LF]\<rparr>"
    using assms(3) True l'(1) by (auto simp: linenoise_def linenoiseRaw_def Let_def console.defs)
  then have "tty_env t' = tty_env t" "history t' = history l'" "history_max_len t' = history_max_len l'"
    using e by (simp_all add: tty_env_def console.defs)
  then show ?thesis using assms(1) l'(2) by (auto simp: console_ok_def tty_env_def)
next
  case False
  with assms show ?thesis
    by (auto simp: linenoise_def linenoiseRaw_def Let_def console_ok_def split: if_splits)
qed

section \<open>The abstract editor\<close>

text \<open>
  What the editor promises: a cursor in a text, given by the bytes before it (last one first) and
  the bytes behind it, and what each command does to them. \<open>codes\<close> lists the byte sequences that
  a terminal sends for a command.
\<close>

type_synonym zipper = "cstr \<times> cstr"

datatype edit_command = Type char | Rubout | Delete | GoLeft | GoRight | GoHome | GoEnd | Transpose
  | KillLine | KillRest | RuboutWord | Redraw

definition typable :: "char \<Rightarrow> bool" where
  "typable c \<longleftrightarrow> byte c \<ge> 32 \<and> byte c \<noteq> 127"

fun codes :: "edit_command \<Rightarrow> cstr list" where
  "codes (Type c) = (if typable c then [[c]] else [])"
| "codes Rubout = [[CHR 0x7F], [CHR 0x08]]"
| "codes Delete = [[ESC] @ ''[3~'']"
| "codes GoLeft = [[CHR 0x02], [ESC] @ ''[D'']"
| "codes GoRight = [[CHR 0x06], [ESC] @ ''[C'']"
| "codes GoHome = [[CHR 0x01], [ESC] @ ''[H'']"
| "codes GoEnd = [[CHR 0x05], [ESC] @ ''[F'']"
| "codes Transpose = [[CHR 0x14]]"
| "codes KillLine = [[CHR 0x15]]"
| "codes KillRest = [[CHR 0x0B]]"
| "codes RuboutWord = [[CHR 0x17]]"
| "codes Redraw = [[CHR 0x0C]]"

fun apply_command :: "edit_command \<Rightarrow> zipper \<Rightarrow> zipper" where
  "apply_command (Type c) (L, R) = (if length L + length R < LINENOISE_MAX_LINE - 1 then (c # L, R) else (L, R))"
| "apply_command Rubout (L, R) = (tl L, R)"
| "apply_command Delete (L, R) = (L, tl R)"
| "apply_command GoLeft (L, R) = (case L of [] \<Rightarrow> (L, R) | c # L' \<Rightarrow> (L', c # R))"
| "apply_command GoRight (L, R) = (case R of [] \<Rightarrow> (L, R) | c # R' \<Rightarrow> (c # L, R'))"
| "apply_command GoHome (L, R) = ([], rev L @ R)"
| "apply_command GoEnd (L, R) = (rev R @ L, [])"
| "apply_command Transpose (L, R) =
     (case (L, R) of
        (a # L', [b]) \<Rightarrow> (b # L', [a])
      | (a # L', b # R') \<Rightarrow> (a # b # L', R')
      | _ \<Rightarrow> (L, R))"
| "apply_command KillLine (L, R) = ([], [])"
| "apply_command KillRest (L, R) = (L, [])"
| "apply_command RuboutWord (L, R) =
     (dropWhile (\<lambda>c. c \<noteq> CHR '' '') (dropWhile (\<lambda>c. c = CHR '' '') L), R)"
| "apply_command Redraw (L, R) = (L, R)"

definition zip_of :: "linenoiseState \<Rightarrow> zipper" where
  "zip_of l = (rev (take (l_pos l) (l_buf l)), drop (l_pos l) (l_buf l))"

lemma zip_of_iff:
  "l_pos l \<le> length (l_buf l) \<Longrightarrow> zip_of l = (L, R) \<longleftrightarrow> l_buf l = rev L @ R \<and> l_pos l = length L"
  by (auto simp: zip_of_def min_def)

definition steps_to :: "linenoiseState \<Rightarrow> zipper \<Rightarrow> linenoiseState option \<Rightarrow> bool" where
  "steps_to l z r \<longleftrightarrow> (\<exists>l'. r = Some l' \<and> line_ok l' \<and> ifd l' = ifd l \<and> history l' = history l \<and> zip_of l' = z)"

lemma steps_toI:
  assumes "line_ok l'" "ifd l' = ifd l" "history l' = history l" "zip_of l' = z"
  shows "steps_to l z (Some l')" "steps_to l z (refreshLine l')"
  using assms by (auto simp: steps_to_def refreshLine_Some line_ok_def zip_of_def)

lemma steps_to_bind:
  "steps_to l z r \<Longrightarrow> (\<And>l'. line_ok l' \<Longrightarrow> zip_of l' = z \<Longrightarrow> steps_to l' z' (f l')) \<Longrightarrow> steps_to l z' (r \<bind> f)"
  by (fastforce simp: steps_to_def)

lemma edit_ops_refine:
  assumes "line_ok l" "zip_of l = (L, R)"
  shows "steps_to l (apply_command (Type c) (L, R)) (linenoiseEditInsert c l)"
    "steps_to l (apply_command Rubout (L, R)) (linenoiseEditBackspace l)"
    "steps_to l (apply_command Delete (L, R)) (linenoiseEditDelete l)"
    "steps_to l (apply_command GoLeft (L, R)) (linenoiseEditMoveLeft l)"
    "steps_to l (apply_command GoRight (L, R)) (linenoiseEditMoveRight l)"
    "steps_to l (apply_command GoHome (L, R)) (linenoiseEditMoveHome l)"
    "steps_to l (apply_command GoEnd (L, R)) (linenoiseEditMoveEnd l)"
    "steps_to l (apply_command KillLine (L, R)) (refreshLine (l\<lparr>l_buf := [], l_pos := 0\<rparr>))"
    "steps_to l (apply_command KillRest (L, R)) (refreshLine (l\<lparr>l_buf := take (l_pos l) (l_buf l)\<rparr>))"
    "steps_to l (apply_command Redraw (L, R)) (refreshLine (l\<lparr>ofd := x\<rparr>))"
proof -
  have p: "l_buf l = rev L @ R" "l_pos l = length L"
    using assms zip_of_iff[of l L R] by (simp_all add: line_ok_def)
  note i = steps_toI and d = line_ok_def zip_of_def p
  have ok: "line_ok l" by fact
  show "steps_to l (apply_command (Type c) (L, R)) (linenoiseEditInsert c l)"
    using ok unfolding linenoiseEditInsert_def by (auto intro!: i simp: d)
  show "steps_to l (apply_command Rubout (L, R)) (linenoiseEditBackspace l)"
    using ok unfolding linenoiseEditBackspace_def by (cases L) (auto intro!: i simp: d)
  show "steps_to l (apply_command Delete (L, R)) (linenoiseEditDelete l)"
    using ok unfolding linenoiseEditDelete_def by (cases R) (auto intro!: i simp: d)
  show "steps_to l (apply_command GoLeft (L, R)) (linenoiseEditMoveLeft l)"
    using ok unfolding linenoiseEditMoveLeft_def by (cases L) (auto intro!: i simp: d)
  show "steps_to l (apply_command GoRight (L, R)) (linenoiseEditMoveRight l)"
    using ok unfolding linenoiseEditMoveRight_def by (cases R) (auto intro!: i simp: d)
  show "steps_to l (apply_command GoHome (L, R)) (linenoiseEditMoveHome l)"
    using ok unfolding linenoiseEditMoveHome_def by (auto intro!: i simp: d)
  show "steps_to l (apply_command GoEnd (L, R)) (linenoiseEditMoveEnd l)"
    using ok unfolding linenoiseEditMoveEnd_def by (auto intro!: i simp: d)
  show "steps_to l (apply_command KillLine (L, R)) (refreshLine (l\<lparr>l_buf := [], l_pos := 0\<rparr>))"
    using ok by (auto intro!: i simp: d)
  show "steps_to l (apply_command KillRest (L, R)) (refreshLine (l\<lparr>l_buf := take (l_pos l) (l_buf l)\<rparr>))"
    using ok by (auto intro!: i simp: d)
  show "steps_to l (apply_command Redraw (L, R)) (refreshLine (l\<lparr>ofd := x\<rparr>))"
    using ok by (auto intro!: i simp: d)
qed

lemma transpose_refines:
  assumes "line_ok l" "zip_of l = (L, R)"
  shows "steps_to l (apply_command Transpose (L, R)) (edit_transpose l)"
proof -
  have p: "l_buf l = rev L @ R" "l_pos l = length L"
    using assms zip_of_iff[of l L R] by (simp_all add: line_ok_def)
  show ?thesis
  proof (cases "L = [] \<or> R = []")
    case True
    then have "edit_transpose l = Some l" by (auto simp: edit_transpose_def p)
    moreover have "apply_command Transpose (L, R) = (L, R)" using True by (cases L; cases R) auto
    ultimately show ?thesis using assms by (simp add: steps_toI)
  next
    case False
    then obtain a L' b R' where lr: "L = a # L'" "R = b # R'" by (cases L; cases R) auto
    have u: "(l_buf l)[length L' := b, Suc (length L') := a] = rev L' @ b # a # R'"
      by (simp add: p lr list_update_append nth_append)
    have n: "l_buf l ! length L = b" "l_buf l ! length L' = a"
      by (simp_all add: p lr nth_append)
    have e: "edit_transpose l = refreshLine (l\<lparr>l_buf := rev L' @ b # a # R',
        l_pos := (if R' = [] then length L else length L + 1)\<rparr>)"
      using u n by (simp add: edit_transpose_def p(2) lr Let_def) (simp add: p lr)
    show ?thesis
      unfolding e using assms(1)
      by (cases R') (auto intro!: steps_toI simp: line_ok_def zip_of_def p lr)
  qed
qed

lemma backspace_while_refines:
  "line_ok l \<Longrightarrow> zip_of l = (L, R) \<Longrightarrow> n = length L \<Longrightarrow> steps_to l (dropWhile P L, R) (backspace_while P n l)"
proof (induction L arbitrary: l n)
  case Nil
  then show ?case by (simp add: steps_toI)
next
  case (Cons a L)
  have p: "l_buf l = rev (a # L) @ R" "l_pos l = length (a # L)"
    using Cons.prems zip_of_iff[of l "a # L" R] by (simp_all add: line_ok_def)
  have h: "l_buf l ! (l_pos l - 1) = a" by (simp add: p nth_append)
  show ?case
  proof (cases "P a")
    case True
    have "steps_to l (dropWhile P L, R) (linenoiseEditBackspace l \<bind> backspace_while P (length L))"
      using edit_ops_refine(2)[OF Cons.prems(1,2)] by (rule steps_to_bind) (simp add: Cons.IH)
    with True h p(2) show ?thesis by (simp add: Cons.prems)
  next
    case False
    with h p(2) Cons.prems show ?thesis by (simp add: steps_toI)
  qed
qed

lemma rubout_refines:
  assumes "line_ok l" "zip_of l = (L, R)"
  shows "steps_to l (apply_command RuboutWord (L, R)) (edit_rubout_word l)"
proof -
  have n: "l_pos m = length M" if "line_ok m" "zip_of m = (M, S)" for m M S
    using that zip_of_iff[of m M S] by (simp add: line_ok_def)
  have w: "steps_to m (dropWhile P M, S) (backspace_while P (l_pos m) m)"
    if "line_ok m" "zip_of m = (M, S)" for m M S P
    using backspace_while_refines[OF that] n[OF that] by blast
  show ?thesis
    unfolding edit_rubout_word_def apply_command.simps by (rule steps_to_bind[OF w[OF assms]]) (rule w)
qed

lemma controls_not_typable:
  "list_all (\<lambda>c. \<not> typable c) [CHR 0x0D, CHR 0x03, CHR 0x7F, CHR 0x08, CHR 0x04, CHR 0x14, CHR 0x02, CHR 0x06,
     CHR 0x10, CHR 0x0E, ESC, CHR 0x15, CHR 0x0B, CHR 0x01, CHR 0x05, CHR 0x0C, CHR 0x17, TAB, NUL]"
  by code_simp

lemma typable_key:
  assumes "typable c"
  shows "edit_key c l = edit_done (linenoiseEditInsert c l)" "c \<noteq> TAB" "c \<noteq> NUL"
proof -
  have n: "c \<notin> set [CHR 0x0D, CHR 0x03, CHR 0x7F, CHR 0x08, CHR 0x04, CHR 0x14, CHR 0x02, CHR 0x06,
      CHR 0x10, CHR 0x0E, ESC, CHR 0x15, CHR 0x0B, CHR 0x01, CHR 0x05, CHR 0x0C, CHR 0x17, TAB, NUL]"
    using controls_not_typable assms unfolding list_all_iff by blast
  then show "edit_key c l = edit_done (linenoiseEditInsert c l)" "c \<noteq> TAB" "c \<noteq> NUL"
    by (simp_all add: edit_key_def)
qed

lemma edit_step_key:
  "ifd l = c # r \<Longrightarrow> c \<noteq> TAB \<Longrightarrow> edit_step l = edit_key c (l\<lparr>ifd := r\<rparr>)"
  by (simp add: edit_step_def Let_def split: option.split)

lemma steps_to_done:
  "steps_to l z r \<Longrightarrow> \<exists>l'. edit_done r = Continue l' \<and> line_ok l' \<and> ifd l' = ifd l \<and> history l' = history l \<and> zip_of l' = z"
  by (auto simp: steps_to_def edit_done_def)

lemma command_step:
  assumes "line_ok l" "ifd l = bs @ r" "bs \<in> set (codes k)"
  shows "\<exists>l'. edit_step l = Continue l' \<and> line_ok l' \<and> ifd l' = r \<and> history l' = history l \<and>
    zip_of l' = apply_command k (zip_of l)"
proof -
  obtain L R where z: "zip_of l = (L, R)" by (cases "zip_of l")
  define m where "m = l\<lparr>ifd := r\<rparr>"
  have m: "line_ok m" "zip_of m = (L, R)" "ifd m = r" "history m = history l"
    using assms(1) z by (simp_all add: m_def zip_of_def)
  note ops = edit_ops_refine[OF m(1,2), THEN steps_to_done] transpose_refines[OF m(1,2), THEN steps_to_done]
    rubout_refines[OF m(1,2), THEN steps_to_done]
  show ?thesis
  proof (cases k)
    case (Type c)
    then have "typable c" "bs = [c]" using assms(3) by (auto split: if_splits)
    then have "edit_step l = edit_done (linenoiseEditInsert c m)"
      using assms(2) typable_key[of c] by (simp add: edit_step_key m_def)
    with ops(1)[of c] Type m z show ?thesis by simp
  next
    case Rubout
    then have "edit_step l = edit_done (linenoiseEditBackspace m)"
      using assms(2,3) by (auto simp: edit_step_key m_def edit_key_def)
    with ops(2) Rubout m z show ?thesis by simp
  next
    case Delete
    then have "edit_step l = edit_done (linenoiseEditDelete m)"
      using assms(2,3) by (simp add: edit_step_key m_def edit_key_def edit_escape_def isdigit_def byte_def)
    with ops(3) Delete m z show ?thesis by simp
  next
    case GoLeft
    then have "edit_step l = edit_done (linenoiseEditMoveLeft m)"
      using assms(2,3) by (auto simp: edit_step_key m_def edit_key_def edit_escape_def isdigit_def byte_def)
    with ops(4) GoLeft m z show ?thesis by simp
  next
    case GoRight
    then have "edit_step l = edit_done (linenoiseEditMoveRight m)"
      using assms(2,3) by (auto simp: edit_step_key m_def edit_key_def edit_escape_def isdigit_def byte_def)
    with ops(5) GoRight m z show ?thesis by simp
  next
    case GoHome
    then have "edit_step l = edit_done (linenoiseEditMoveHome m)"
      using assms(2,3) by (auto simp: edit_step_key m_def edit_key_def edit_escape_def isdigit_def byte_def)
    with ops(6) GoHome m z show ?thesis by simp
  next
    case GoEnd
    then have "edit_step l = edit_done (linenoiseEditMoveEnd m)"
      using assms(2,3) by (auto simp: edit_step_key m_def edit_key_def edit_escape_def isdigit_def byte_def)
    with ops(7) GoEnd m z show ?thesis by simp
  next
    case Transpose
    then have "edit_step l = edit_done (edit_transpose m)"
      using assms(2,3) by (auto simp: edit_step_key m_def edit_key_def)
    with ops(11) Transpose m z show ?thesis by simp
  next
    case KillLine
    then have "edit_step l = edit_done (refreshLine (m\<lparr>l_buf := [], l_pos := 0\<rparr>))"
      using assms(2,3) by (auto simp: edit_step_key m_def edit_key_def)
    with ops(8) KillLine m z show ?thesis by simp
  next
    case KillRest
    then have "edit_step l = edit_done (refreshLine (m\<lparr>l_buf := take (l_pos m) (l_buf m)\<rparr>))"
      using assms(2,3) by (auto simp: edit_step_key m_def edit_key_def)
    with ops(9) KillRest m z show ?thesis by simp
  next
    case RuboutWord
    then have "edit_step l = edit_done (edit_rubout_word m)"
      using assms(2,3) by (auto simp: edit_step_key m_def edit_key_def)
    with ops(12) RuboutWord m z show ?thesis by simp
  next
    case Redraw
    then have "edit_step l = edit_done (refreshLine (m\<lparr>ofd := ofd m @ clear_sequence\<rparr>))"
      using assms(2,3) by (auto simp: edit_step_key m_def edit_key_def)
    with ops(10)[of "ofd m @ clear_sequence"] Redraw m z show ?thesis by simp
  qed
qed

lemma enter_step:
  assumes "line_ok l" "ifd l = CR # r"
  shows "edit_step l = Return (int (length (l_buf l))) (l\<lparr>ifd := r, history := butlast (history l)\<rparr>)"
  using assms by (simp add: edit_step_key edit_key_def pop_history_def line_ok_def)

definition zip_text :: "zipper \<Rightarrow> cstr" where
  "zip_text z = rev (fst z) @ snd z"

lemma commands_loop:
  "line_ok l \<Longrightarrow> ifd l = concat bss @ CR # r \<Longrightarrow> list_all2 (\<lambda>k bs. bs \<in> set (codes k)) ks bss \<Longrightarrow>
   length ks < n \<Longrightarrow>
   \<exists>l'. edit_loop n l = Return (int (length (l_buf l'))) l' \<and> ifd l' = r \<and> history l' = butlast (history l) \<and>
     l_buf l' = zip_text (foldl (\<lambda>z k. apply_command k z) (zip_of l) ks)"
proof (induction ks arbitrary: l bss n)
  case Nil
  then obtain m where n: "n = Suc m" by (cases n) auto
  have "l_buf l = zip_text (zip_of l)"
    by (simp add: zip_text_def zip_of_def)
  with Nil n show ?case by (simp add: enter_step)
next
  case (Cons k ks)
  then obtain bs bss' m where b: "bss = bs # bss'" "bs \<in> set (codes k)"
      "list_all2 (\<lambda>k bs. bs \<in> set (codes k)) ks bss'" and n: "n = Suc m"
    by (cases n) (auto simp: list_all2_Cons1)
  have i: "ifd l = bs @ (concat bss' @ CR # r)" using Cons.prems(2) b(1) by simp
  obtain l1 where l1: "edit_step l = Continue l1" "line_ok l1" "ifd l1 = concat bss' @ CR # r"
      "history l1 = history l" "zip_of l1 = apply_command k (zip_of l)"
    using command_step[OF Cons.prems(1) i b(2)] by blast
  from Cons.IH[OF l1(2,3) b(3)] Cons.prems(4) n l1 show ?case by simp
qed

lemma codes_nonempty: "bs \<in> set (codes k) \<Longrightarrow> bs \<noteq> []"
  by (cases k) (auto split: if_splits)

lemma commands_le: "list_all2 (\<lambda>k bs. bs \<in> set (codes k)) ks bss \<Longrightarrow> length ks \<le> length (concat bss)"
proof (induction ks bss rule: list_all2_induct)
  case (Cons k ks bs bss)
  then have "1 \<le> length bs" using codes_nonempty[of bs k] by (simp add: Suc_le_eq)
  with Cons show ?case by simp
qed simp

lemma truncate_extend [simp]: "console.truncate (console.extend t x) = t"
  by (simp add: console.defs)

section \<open>Properties of the editor\<close>

definition sample_console :: "cstr \<Rightarrow> cstr list \<Rightarrow> console" where
  "sample_console inp hs =
     \<lparr>ifd = inp, ofd = [], history = hs, history_max_len = 200, completionCallback = None,
      is_tty = True, raw_ok = True, ws_col = 80\<rparr>"

lemma sample_ok: "length hs \<le> 200 \<Longrightarrow> console_ok (sample_console inp hs)"
  by (simp add: console_ok_def sample_console_def)

lemma c_string_length: "length (c_string s) \<le> length s"
  by (simp add: c_string_def length_takeWhile_le)

lemma c_string_no_nul: "NUL \<notin> set (c_string s)"
  by (auto simp: c_string_def dest: set_takeWhileD)

lemma c_string_nul_free [simp]: "nul_free s \<Longrightarrow> c_string s = s"
  unfolding c_string_def nul_free_def by (auto simp: takeWhile_eq_all_conv)

lemma set_c_string: "set (c_string s) \<subseteq> set s"
  unfolding c_string_def by (auto dest: set_takeWhileD)

lemma fgets_chunk_le: "length (fgets_chunk n s) \<le> n - 1"
proof -
  have "length (takeWhile (\<lambda>c. c \<noteq> LF) t) < length t" if "LF \<in> set t" for t
  proof -
    obtain u v where "t = u @ LF # v" "LF \<notin> set u" using split_list_first[OF \<open>LF \<in> set t\<close>] by blast
    then show ?thesis by (simp add: takeWhile_append)
  qed
  from this[of "take (n - 1) s"] show ?thesis by (auto simp: fgets_chunk_def Let_def)
qed

lemma line_returns:
  assumes "console_ok t" "linenoisePromptLen prompt < getColumns (ws_col t)"
  shows "\<exists>line t'. linenoise prompt t = Some (line, t') \<and>
    (\<forall>s \<in> set_option line. length s < LINENOISE_MAX_LINE \<and> NUL \<notin> set s)"
proof (cases "is_tty t")
  case True
  have r: "\<exists>k l'. linenoiseEdit prompt t = Return k l' \<and> length (l_buf l') < LINENOISE_MAX_LINE"
    using edit_loop_ok[OF edit_start_ok(1)[OF assms], of "Suc (length (ifd t))"] edit_start_ok(2)[OF assms]
    by (auto simp: linenoiseEdit_def)
  have b: "length (c_string s) < LINENOISE_MAX_LINE" if "length s < LINENOISE_MAX_LINE" for s
    using c_string_length[of s] that by simp
  from True r show ?thesis
    by (auto simp: linenoise_def linenoiseRaw_def Let_def c_string_no_nul b)
next
  case False
  have "length (rskip P (c_string (fgets_chunk LINENOISE_MAX_LINE s))) < LINENOISE_MAX_LINE" for P s
  proof -
    have "length (rskip P (c_string (fgets_chunk LINENOISE_MAX_LINE s))) \<le> LINENOISE_MAX_LINE - 1"
      by (meson length_rskip c_string_length fgets_chunk_le le_trans)
    then show ?thesis by (simp add: LINENOISE_MAX_LINE_def)
  qed
  moreover have "NUL \<notin> set (rskip P (c_string s))" for P s
    using set_rskip[of P "c_string s"] c_string_no_nul[of s] by blast
  ultimately show ?thesis using False by (auto simp: linenoise_def linenoiseRaw_def Let_def)
qed

text \<open>Whatever bytes arrive, \<open>linenoise\<close> never reads or writes outside the line buffer and
  always returns, with NULL or with a line of fewer than 4096 bytes, provided the visible prompt is
  narrower than the window, the history keeps at least one entry and every completion fits the buffer.\<close>

theorem line_editor_returns:
  assumes "console_ok t" "linenoisePromptLen prompt < getColumns (ws_col t)"
  shows "\<exists>line t'. linenoise prompt t = Some (line, t') \<and>
    (\<forall>s \<in> set_option line. length s < LINENOISE_MAX_LINE \<and> NUL \<notin> set s)"
  by (rule line_returns[OF assms])

theorem line_editor_returns_witness:
  "\<exists>line t'. linenoise ''> '' (sample_console [CHR 0x1B, CHR ''['', CHR ''A'', CHR 0x17, TAB] [''ls'']) = Some (line, t')"
proof -
  have "linenoisePromptLen ''> '' < getColumns 80" by (simp add: getColumns_def)
  then show ?thesis
    using line_editor_returns[OF sample_ok, where prompt = "''> ''"]
    by (force simp: sample_console_def)
qed

lemma commands_return:
  assumes "console_ok t" "linenoisePromptLen prompt < getColumns (ws_col t)" "is_tty t" "raw_ok t"
    and "list_all2 (\<lambda>k bs. bs \<in> set (codes k)) ks bss" "ifd t = concat bss @ CR # rest"
  shows "\<exists>t'. linenoise prompt t =
      Some (Some (c_string (zip_text (foldl (\<lambda>z k. apply_command k z) ([], []) ks))), t') \<and>
    ifd t' = rest \<and> history t' = butlast (history (linenoiseHistoryAdd [] t))"
proof -
  let ?l = "edit_start prompt t"
  have l: "line_ok ?l" "ifd ?l = concat bss @ CR # rest"
    using edit_start_ok[OF assms(1,2)] assms(6) by simp_all
  have z: "zip_of ?l = ([], [])" "history ?l = history (linenoiseHistoryAdd [] t)"
    by (simp_all add: zip_of_def edit_start_def Let_def console.defs linenoiseState.defs)
  have "length ks < Suc (length (ifd t))" using commands_le[OF assms(5)] by (simp add: assms(6))
  from commands_loop[OF l assms(5) this] z obtain l' where l':
      "linenoiseEdit prompt t = Return (int (length (l_buf l'))) l'" "ifd l' = rest"
      "history l' = butlast (history (linenoiseHistoryAdd [] t))"
      "l_buf l' = zip_text (foldl (\<lambda>z k. apply_command k z) ([], []) ks)"
    by (auto simp: linenoiseEdit_def)
  then show ?thesis
    using assms(3,4) by (simp add: linenoise_def linenoiseRaw_def Let_def console.defs)
qed

lemma type_fold:
  "length L + length s < LINENOISE_MAX_LINE \<Longrightarrow>
   foldl (\<lambda>z k. apply_command k z) (L, []) (map Type s) = (rev s @ L, [])"
  by (induction s arbitrary: L) auto

lemma typed_text:
  assumes "console_ok t" "linenoisePromptLen prompt < getColumns (ws_col t)" "is_tty t" "raw_ok t"
    and "list_all typable s" "length s < LINENOISE_MAX_LINE" "ifd t = s @ CR # rest"
  shows "\<exists>t'. linenoise prompt t = Some (Some s, t') \<and> ifd t' = rest \<and>
    history t' = butlast (history (linenoiseHistoryAdd [] t))"
proof -
  have l: "list_all2 (\<lambda>k bs. bs \<in> set (codes k)) (map Type s) (map (\<lambda>c. [c]) s)"
    using assms(5) by (auto simp: list_all2_conv_all_nth list_all_length)
  have c: "concat (map (\<lambda>c. [c]) s) = s" by (induction s) auto
  have n: "c_string s = s"
    using assms(5) typable_key(3) unfolding c_string_def list_all_iff by (auto simp: takeWhile_eq_all_conv)
  show ?thesis
    using commands_return[OF assms(1-4) l, where rest = rest] assms(6,7) type_fold[of "[]" s]
    by (simp add: c n zip_text_def)
qed

text \<open>What one edited line leaves of the history: the entry of the draft is added in front and removed at
  ENTER, so the history is as it was, unless it was full, and then its oldest entry is gone, or ended in
  an empty entry (which CTRL-C leaves), and then that entry is gone.\<close>

definition history_after_line :: "console \<Rightarrow> cstr list" where
  "history_after_line t =
     (if history t \<noteq> [] \<and> last (history t) = [] then butlast (history t)
      else if length (history t) = history_max_len t then tl (history t)
      else history t)"

lemma draft_removed: "console_ok t \<Longrightarrow> butlast (history (linenoiseHistoryAdd [] t)) = history_after_line t"
  by (auto simp: console_ok_def linenoiseHistoryAdd_def history_after_line_def)

text \<open>C27: The editor implements the cursor-in-a-text editor: on a terminal wider than the prompt, whatever
  commands the user gives, in whatever encoding the terminal sends them, ENTER returns exactly the text
  the abstract commands build and leaves the input behind it unread. The history is left as
  \<open>history_after_line\<close> says: unchanged while it is not full and its last entry is not empty.\<close>

theorem commands_build_the_line:
  assumes "console_ok t" "linenoisePromptLen prompt < getColumns (ws_col t)" "is_tty t" "raw_ok t"
    and "list_all2 (\<lambda>k bs. bs \<in> set (codes k)) ks bss" "ifd t = concat bss @ CR # rest"
  shows "\<exists>t'. linenoise prompt t =
      Some (Some (c_string (zip_text (foldl (\<lambda>z k. apply_command k z) ([], []) ks))), t') \<and>
    ifd t' = rest \<and> history t' = history_after_line t"
  using commands_return[OF assms] unfolding draft_removed[OF assms(1)] .

theorem commands_build_the_line_witness:
  "\<exists>t'. linenoise ''> '' (sample_console (''ac'' @ [ESC] @ ''[Db'' @ [CHR 0x05, CHR ''d'', CR, CHR ''x'']) [''ls'']) =
     Some (Some ''abcd'', t') \<and> ifd t' = ''x'' \<and> history t' = [''ls'']"
proof -
  let ?i = "''ac'' @ [ESC] @ ''[Db'' @ [CHR 0x05, CHR ''d'', CR, CHR ''x'']"
  let ?ks = "[Type (CHR ''a''), Type (CHR ''c''), GoLeft, Type (CHR ''b''), GoEnd, Type (CHR ''d'')]"
  let ?bs = "[''a'', ''c'', [ESC] @ ''[D'', ''b'', [CHR 0x05], ''d'']"
  have c: "list_all2 (\<lambda>k bs. bs \<in> set (codes k)) ?ks ?bs" by code_simp
  have t: "c_string (zip_text (foldl (\<lambda>z k. apply_command k z) ([], []) ?ks)) = ''abcd''"
    by (simp add: LINENOISE_MAX_LINE_def zip_text_def c_string_def)
  have ok: "console_ok (sample_console ?i [''ls''])" by (simp add: console_ok_def sample_console_def)
  have "linenoisePromptLen ''> '' < getColumns (ws_col (sample_console ?i [''ls'']))"
    by (simp add: getColumns_def sample_console_def)
  from commands_build_the_line[OF ok this _ _ c, where rest = "''x''"] t show ?thesis
    by (simp add: sample_console_def history_after_line_def)
qed

text \<open>At a full history the draft takes the place of the oldest entry: editing a line loses that entry, also
  when the line that is entered is not kept.\<close>

lemma full_history_loses_oldest:
  "map_option (\<lambda>(r, t). (r, history t))
     (linenoise ''> '' ((sample_console [CHR ''a'', CR] [''ls'', ''pwd''])\<lparr>history_max_len := 2\<rparr>)) = Some (Some ''a'', [''pwd''])"
  by code_simp

text \<open>Every redraw shows the cursor inside the window: what is written is the prompt, a window of
  the line that contains the cursor and fits behind the prompt, and the column the cursor is put at
  is that of its byte.\<close>

theorem redraw_shows_cursor:
  assumes "l_plen l < l_cols l" "l_pos l \<le> length (l_buf l)"
  shows "\<exists>k shown col. refreshLine l = Some (l\<lparr>ofd := ofd l @ [CR] @ l_prompt l @ shown @ [ESC] @ ''[0K'' @ [CR, ESC] @
      ''['' @ dec_text col @ ''C''\<rparr>) \<and>
    shown = take (l_cols l - l_plen l) (drop k (l_buf l)) \<and> k \<le> l_pos l \<and> col = l_plen l + (l_pos l - k) \<and>
    col < l_cols l \<and> l_plen l + length shown \<le> l_cols l"
proof -
  let ?k = "l_pos l - (l_cols l - 1 - l_plen l)"
  let ?col = "min (l_pos l) (l_cols l - 1 - l_plen l) + l_plen l"
  have "refreshLine l = Some (l\<lparr>ofd := ofd l @ redraw l\<rparr>)" by (rule refreshLine_Some[OF assms(1)])
  moreover have "?k \<le> l_pos l" "?col = l_plen l + (l_pos l - ?k)" "?col < l_cols l"
    "l_plen l + length (take (l_cols l - l_plen l) (drop ?k (l_buf l))) \<le> l_cols l"
    using assms by auto
  ultimately show ?thesis unfolding redraw_def Let_def by blast
qed

definition sample_line :: linenoiseState where
  "sample_line = edit_start ''> '' (sample_console [] [])"

lemma sample_line_fields:
  "l_plen sample_line = 2" "l_cols sample_line = 80" "l_pos sample_line = 0" "l_buf sample_line = []"
  by (simp_all add: sample_line_def edit_start_def sample_console_def linenoiseHistoryAdd_def console.defs
      linenoiseState.defs getColumns_def Let_def)

theorem redraw_shows_cursor_witness:
  "\<exists>shown. \<exists>col < 80. refreshLine sample_line = Some (sample_line\<lparr>ofd := ofd sample_line @ [CR] @ l_prompt sample_line @
     shown @ [ESC] @ ''[0K'' @ [CR, ESC] @ ''['' @ dec_text col @ ''C''\<rparr>) \<and> shown = [] \<and> col = 2"
  using redraw_shows_cursor[of sample_line, unfolded sample_line_fields] by force

section \<open>History\<close>

definition clean_entry :: "cstr \<Rightarrow> bool" where
  "clean_entry e \<longleftrightarrow> e \<noteq> [] \<and> LF \<notin> set e \<and> CR \<notin> set e \<and> NUL \<notin> set e \<and> length e < LINENOISE_MAX_LINE - 1"

lemma fgets_chunk_line:
  "LF \<notin> set e \<Longrightarrow> length e + 1 < n \<Longrightarrow> fgets_chunk n (e @ LF # s) = e @ [LF]"
  by (simp add: fgets_chunk_def Let_def take_Cons' takeWhile_append)

lemma fgets_chunks_lines:
  "\<forall>e \<in> set es. LF \<notin> set e \<and> length e + 1 < n \<Longrightarrow>
   fgets_chunks n (concat (map (\<lambda>e. e @ [LF]) es)) = map (\<lambda>e. e @ [LF]) es"
proof (induction es)
  case Nil
  then show ?case by (simp add: fgets_chunks.simps)
next
  case (Cons e es)
  then have c: "fgets_chunk n (e @ LF # concat (map (\<lambda>e. e @ [LF]) es)) = e @ [LF]" and n: "\<not> n \<le> 1"
    by (auto intro: fgets_chunk_line)
  with Cons show ?case
    by (simp add: fgets_chunks.simps[of n "e @ LF # concat (map (\<lambda>e. e @ [LF]) es)"])
qed

lemma strchr_append_absent: "c \<notin> set s \<Longrightarrow> strchr (s @ c # t) c = Some (c # t)"
  by (induction s) auto

lemma history_line_clean: "clean_entry e \<Longrightarrow> history_line (e @ [LF]) = e"
proof -
  assume e: "clean_entry e"
  then have "c_string (e @ [LF]) = e @ [LF]"
    unfolding c_string_def clean_entry_def by (auto simp: takeWhile_eq_all_conv)
  with e show ?thesis
    using between_append[of e "[LF]"]
    by (simp add: history_line_def clean_entry_def strchr_append_absent)
qed

lemma load_entries:
  assumes "distinct_adj (done @ es)" "length (done @ es) \<le> history_max_len h" "\<forall>e \<in> set es. clean_entry e"
  shows "foldl (\<lambda>h chunk. if history_line chunk \<noteq> [] then linenoiseHistoryAdd (history_line chunk) h else h)
      (h\<lparr>history := done\<rparr>) (map (\<lambda>e. e @ [LF]) es) = h\<lparr>history := done @ es\<rparr>"
  using assms
proof (induction es arbitrary: "done")
  case (Cons e es)
  have e: "clean_entry e" "history_line (e @ [LF]) = e" "e \<noteq> []"
    using Cons.prems(3) history_line_clean by (auto simp: clean_entry_def)
  have a: "linenoiseHistoryAdd e (h\<lparr>history := done\<rparr>) = h\<lparr>history := done @ [e]\<rparr>"
  proof -
    have "done \<noteq> [] \<longrightarrow> last done \<noteq> e" using Cons.prems(1) by (auto simp: distinct_adj_append_iff)
    then show ?thesis using Cons.prems(2) by (auto simp: linenoiseHistoryAdd_def)
  qed
  show ?case using Cons.IH[of "done @ [e]"] Cons.prems e a by simp
qed simp

text \<open>The history file keeps the history: loading what was saved, in a later run, gives back the
  same entries in the same order, for a history within the limit whose entries are lines as the
  editor returns them.\<close>

theorem history_file_roundtrip:
  assumes "\<forall>e \<in> set (history h). clean_entry e" "distinct_adj (history h)" "length (history h) \<le> history_max_len h"
  shows "linenoiseHistoryLoad (linenoiseHistorySave h) (h\<lparr>history := []\<rparr>) = h"
proof -
  have "linenoiseHistorySave h = concat (map (\<lambda>e. e @ [LF]) (history h))"
    unfolding linenoiseHistorySave_def using assms(1)
    by (intro arg_cong[where f = concat] map_cong) (auto simp: clean_entry_def)
  moreover have "\<forall>e \<in> set (history h). LF \<notin> set e \<and> length e + 1 < LINENOISE_MAX_LINE"
    using assms(1) by (auto simp: clean_entry_def)
  ultimately have "fgets_chunks LINENOISE_MAX_LINE (linenoiseHistorySave h) = map (\<lambda>e. e @ [LF]) (history h)"
    by (simp add: fgets_chunks_lines)
  then show ?thesis
    using load_entries[of "[]" "history h" h] assms by (simp add: linenoiseHistoryLoad_def)
qed

theorem history_file_roundtrip_witness:
  "linenoiseHistoryLoad (linenoiseHistorySave (sample_console [] [''ls'', ''cd /tmp''])) (sample_console [] []) =
   sample_console [] [''ls'', ''cd /tmp'']"
  using history_file_roundtrip[of "sample_console [] [''ls'', ''cd /tmp'']"]
  by (simp add: sample_console_def clean_entry_def LINENOISE_MAX_LINE_def)

lemma edit_start_history:
  assumes "history_max_len t \<noteq> 0"
  shows "history (edit_start p t) = history (linenoiseHistoryAdd [] t)"
  by (simp add: edit_start_def Let_def console.defs linenoiseState.defs)

lemma recall_step:
  assumes "line_ok l" "history l = hs @ [line, []]" "l_history_index l = 0" "l_buf l = []" "ifd l = [ESC] @ ''[A'' @ r"
    and "length line < LINENOISE_MAX_LINE - 1"
  shows "\<exists>l'. edit_step l = Continue l' \<and> line_ok l' \<and> ifd l' = r \<and> l_buf l' = line \<and> history l' = history l"
proof -
  define m where "m = l\<lparr>ifd := r\<rparr>"
  have m: "line_ok m" "history m = hs @ [line, []]" "l_history_index m = 0" "l_buf m = []"
    using assms by (simp_all add: m_def)
  have "edit_step l = edit_done (linenoiseEditHistoryNext True m)"
    using assms(5) by (simp add: edit_step_key m_def edit_key_def edit_escape_def isdigit_def byte_def)
  moreover obtain l' where l': "linenoiseEditHistoryNext True m = Some l'" "line_ok l'" "ifd l' = ifd m"
    using kept_history[OF m(1), of True] by (auto simp: kept_def)
  moreover have "l_buf l' = line \<and> history l' = history m"
  proof -
    have u: "(hs @ [line, []])[Suc (length hs) := []] = hs @ [line, []]"
      using list_update_id[of "hs @ [line, []]" "Suc (length hs)"] by (simp add: nth_append)
    have n: "(hs @ [line, []]) ! length hs = line" by simp
    have "linenoiseEditHistoryNext True m = history_load 1 m"
      using m u by (simp add: linenoiseEditHistoryNext_def c_string_def Let_def)
        (simp flip: m(2))
    moreover have "history_load 1 m =
        refreshLine (m\<lparr>l_history_index := 1, l_buf := take (l_buflen m - 1) line, l_pos := length (take (l_buflen m - 1) line)\<rparr>)"
      by (simp add: history_load_def m(2) n Let_def)
    moreover have "take (l_buflen m - 1) line = line" using m(1) assms(6) by (simp add: line_ok_def)
    ultimately have "l' = (let x = m\<lparr>l_history_index := 1, l_buf := line, l_pos := length line\<rparr> in x\<lparr>ofd := ofd x @ redraw x\<rparr>)"
      using l'(1) m(1) by (simp add: refreshLine_Some line_ok_def Let_def)
    then show ?thesis by (simp add: Let_def)
  qed
  ultimately show ?thesis by (simp add: edit_done_def m_def)
qed

text \<open>A line that was entered and added to the history is what the up arrow brings back at the
  next prompt, byte for byte.\<close>

theorem entered_line_is_recalled:
  assumes "console_ok t" "2 \<le> history_max_len t" "linenoisePromptLen prompt < getColumns (ws_col t)"
    and "is_tty t" "raw_ok t" "line \<noteq> []" "nul_free line" "length line < LINENOISE_MAX_LINE - 1"
    and "ifd t = [ESC] @ ''[A'' @ CR # rest"
  shows "\<exists>t'. linenoise prompt (linenoiseHistoryAdd line t) = Some (Some line, t') \<and> ifd t' = rest"
proof -
  define u where "u = linenoiseHistoryAdd line t"
  have u: "console_ok u" "ws_col u = ws_col t" "is_tty u" "raw_ok u" "ifd u = ifd t" "history u \<noteq> []"
      "last (history u) = line" "2 \<le> history_max_len u"
    using assms history_add_ok[of t line]
    by (auto simp: u_def console_ok_def linenoiseHistoryAdd_def)
  let ?l = "edit_start prompt u"
  have l: "line_ok ?l" "ifd ?l = [ESC] @ ''[A'' @ CR # rest"
    using edit_start_ok[OF u(1)] assms(3,9) u(2,5) by simp_all
  obtain hs where hs: "history u = hs @ [line]" using u(6,7) by (metis append_butlast_last_id)
  have "history (linenoiseHistoryAdd [] u) = (if length (history u) = history_max_len u then tl hs else hs) @ [line, []]"
    using assms(6) u(8) hs by (auto simp: linenoiseHistoryAdd_def tl_append split: list.split)
  then obtain hs' where h: "history ?l = hs' @ [line, []]"
    using edit_start_history[of u prompt] u(8) by fastforce
  have b: "l_history_index ?l = 0" "l_buf ?l = []"
    by (simp_all add: edit_start_def Let_def console.defs linenoiseState.defs)
  obtain l1 where l1: "edit_step ?l = Continue l1" "line_ok l1" "ifd l1 = CR # rest" "l_buf l1 = line"
    using recall_step[OF l(1) h b l(2) assms(8)] by blast
  have "linenoiseEdit prompt u = edit_loop (Suc (length (ifd u))) ?l" by (simp add: linenoiseEdit_def)
  also have "\<dots> = Return (int (length line)) (l1\<lparr>ifd := rest, history := butlast (history l1)\<rparr>)"
    using l1 enter_step[OF l1(2,3)] assms(9) u(5) by simp
  finally show ?thesis
    using u(3,4) assms(7) l1(4) by (simp add: u_def[symmetric] linenoise_def linenoiseRaw_def Let_def console.defs)
qed

theorem entered_line_is_recalled_witness:
  "\<exists>t'. linenoise ''> '' (linenoiseHistoryAdd ''make'' (sample_console ([ESC] @ ''[A'' @ CR # ''x'') [])) = Some (Some ''make'', t') \<and>
     ifd t' = ''x''"
proof -
  have "linenoisePromptLen ''> '' < getColumns 80" by (simp add: getColumns_def)
  then show ?thesis
    using entered_line_is_recalled[OF sample_ok, of "[]" "[ESC] @ ''[A'' @ CR # ''x''" "''> ''" "''make''" "''x''"]
    by (simp add: sample_console_def LINENOISE_MAX_LINE_def)
qed

section \<open>What the editor does not promise\<close>

text \<open>A prompt as wide as the window makes the redraw run off the line.\<close>

lemma wide_prompt_leaves_the_line:
  assumes "l_cols l \<le> l_plen l"
  shows "refreshLine l = None"
proof -
  have "scroll (l_plen l) (l_cols l) b p = None" for b p
    using assms by (induction p arbitrary: b) (simp_all add: scroll.simps)
  then show ?thesis by (simp add: refreshLine_def)
qed

text \<open>End of file at an empty prompt is an empty line, not NULL.\<close>

lemma eof_is_an_empty_line:
  assumes "is_tty t" "raw_ok t" "ifd t = []"
  shows "\<exists>t'. linenoise prompt t = Some (Some [], t') \<and> ifd t' = [] \<and> is_tty t' \<and> raw_ok t'"
  using assms
  by (simp add: linenoise_def linenoiseRaw_def linenoiseEdit_def edit_step_def edit_start_def Let_def console.defs
      linenoiseState.defs linenoiseHistoryAdd_def c_string_def)

text \<open>A byte above 127 behind a TAB ends the line, as if ENTER had been pressed.\<close>

lemma high_byte_after_tab_enters:
  assumes "line_ok l" "completionCallback l = Some cb" "cb (c_string (l_buf l)) = [[]]" "ifd l = TAB # k # r" "byte k \<ge> 128"
  shows "\<exists>l'. edit_step l = Return 0 l'"
proof -
  have k: "k \<noteq> TAB" "k \<noteq> ESC" using assms(5) by (auto simp: byte_def)
  have "l_plen l < l_cols l" "0 < l_buflen l" using assms(1) by (simp_all add: line_ok_def LINENOISE_MAX_LINE_def)
  with assms k show ?thesis
    by (simp add: edit_step_def completeLine_def show_candidate_def take_candidate_def refreshLine_Some Let_def)
qed

text \<open>A NUL typed in the middle of a line hides what is behind it.\<close>

lemma nul_key_cuts_the_line:
  "map_option fst (linenoise ''> '' (sample_console [CHR ''a'', NUL, CHR ''b'', CR] [])) = Some (Some ''a'')"
  by code_simp

text \<open>CTRL-C leaves the entry of the abandoned line in the history.\<close>

lemma interrupt_keeps_the_draft:
  "map_option (\<lambda>(r, t). (r, history t)) (linenoise ''> '' (sample_console [CHR 0x03] [''ls''])) = Some (None, [''ls'', []])"
  by code_simp

end
