(* ===== verification/Repl.thy ===== *)
theory Repl
  imports LineEdit ModelAdapter
begin

text \<open>
  The interactive loop of \<open>belya_harness_repl\<close> (\<open>belya_harness.c\<close>): the completion hook, the
  prompt, one line per round with its history file, the dispatch of slash commands, and the commands
  that switch the model gateway.

  \<open>repl_dispatch\<close> is the chain of comparisons on the input line; it gives the command and the
  arguments its branch extracts. What a command does is modelled here for the gateway switches
  (\<open>/openrouter\<close>, \<open>/ollama\<close>, \<open>/key\<close>, \<open>/model\<close>); the other commands call into the agent,
  the harness and the company module, and are handed to the parameter \<open>obey\<close> of the loop, which acts on
  a world of its own and says what is printed. The environment is a map of its variables.
\<close>

section \<open>Completion\<close>

definition repl_commands :: "cstr list" where
  "repl_commands =
     [''/help'', ''/status'', ''/tools'', ''/rules'', ''/timeline'',
      ''/sessions'', ''/save'', ''/resume'', ''/skills'', ''/checkpoint'',
      ''/rollback'', ''/export'', ''/export-sharegpt'', ''/export-dpo'', ''/cache'', ''/reflect'', ''/clear'',
      ''/compact'', ''/memory'', ''/model'', ''/diff'', ''/doctor'', ''/probe'', ''/cost'',
      ''/tasks'', ''/cron'', ''/dream'', ''/plan'', ''/bg'',
      ''/openrouter'', ''/ollama'', ''/key'', ''/cwd'', ''/mcp'', ''/agency'', ''/company'']"

definition harness_completion_hook :: "cstr \<Rightarrow> cstr list" where
  "harness_completion_hook buf =
     (case buf of
        c # _ \<Rightarrow> if c = CHR ''/'' then filter (\<lambda>cmd. has_prefix buf cmd) repl_commands else []
      | [] \<Rightarrow> [])"

section \<open>The prompt\<close>

definition repl_prompt :: "cstr option \<Rightarrow> nat \<Rightarrow> cstr" where
  "repl_prompt model_name msgs =
     (let m = (case model_name of Some m \<Rightarrow> m | None \<Rightarrow> ''unknown'');
          m_disp = (case strrchr m (CHR ''/'') of Some p \<Rightarrow> drop 1 p | None \<Rightarrow> m)
      in take 127 ([ESC] @ ''[1;35mbelya ('' @ [ESC] @ ''[1;36m'' @ m_disp @ [ESC] @ ''[1;35m) ['' @ dec_text msgs @
           '' msgs]>'' @ [ESC] @ ''[0m ''))"

section \<open>Dispatch\<close>

datatype repl_action =
    RHelp | RStatus | RDiff bool cstr | RDoctor | RProbe | RCost | RMeshPing | RMeshConsult cstr | RHud | RTools
  | RRules | RTimeline int | RSessions | RSave cstr | RResume cstr | RSkills cstr | RCheckpoints
  | RCheckpoint cstr | RRollback "cstr option" | RExportShareGpt "cstr option" "cstr option"
  | RExportDpo "cstr option" "cstr option" | RExport "cstr option" "cstr option" | RCache | RReflect | RClear
  | RCompact u64 | RMemory cstr | RTasks cstr | RCron | RDream | RPlan | RBg | ROpenRouter cstr | ROllama cstr
  | RKey cstr | RModel cstr | RCwd cstr | RMcp cstr | RAgencyList | RAgency cstr | RCompany cstr
  | RUnknown cstr | RTurn cstr

text \<open>The argument behind the first \<open>n\<close> bytes: \<open>strlen(input) > n ? input + n : ""\<close>, spaces skipped.\<close>

definition slash_arg :: "nat \<Rightarrow> cstr \<Rightarrow> cstr" where
  "slash_arg n s = lskip (\<lambda>c. c = CHR '' '') (if length s > n then drop n s else [])"

definition or_default :: "cstr \<Rightarrow> cstr \<Rightarrow> cstr" where
  "or_default d s = (if s = [] then d else s)"

text \<open>\<open>sscanf(args, "%127s %255s", session, file)\<close> into zeroed buffers; an empty buffer becomes NULL.\<close>

definition scan_word :: "nat \<Rightarrow> cstr \<Rightarrow> cstr \<times> cstr" where
  "scan_word width s =
     (let t = lskip isspace s; w = take width (takeWhile (\<lambda>c. \<not> isspace c) t) in (w, drop (length w) t))"

definition export_args :: "nat \<Rightarrow> cstr \<Rightarrow> cstr option \<times> cstr option" where
  "export_args n s =
     (let (sid, r) = scan_word 127 (slash_arg n s); (file, _) = scan_word 255 r
      in (if sid = [] then None else Some sid, if sid = [] \<or> file = [] then None else Some file))"

definition diff_action :: "cstr \<Rightarrow> repl_action" where
  "diff_action s =
     (let d = slash_arg 5 s in
      if has_prefix ''--side'' d then RDiff True (lskip (\<lambda>c. c = CHR '' '') (drop 6 d))
      else if has_prefix ''-s'' d then RDiff True (lskip (\<lambda>c. c = CHR '' '') (drop 2 d))
      else RDiff False d)"

definition mesh_action :: "cstr \<Rightarrow> repl_action" where
  "mesh_action s =
     (let a = slash_arg 5 s in
      if has_prefix ''ping'' a then RMeshPing else RMeshConsult (or_default (''{'' @ [DQ] @ ''ping'' @ [DQ] @ '':true}'') a))"

definition timeline_action :: "cstr \<Rightarrow> repl_action" where
  "timeline_action s =
     RTimeline (if length s > 9 then (let n = atoi (drop 9 s) in if n \<le> 0 then 15 else n) else 15)"

definition compact_action :: "cstr \<Rightarrow> repl_action" where
  "compact_action s =
     RCompact (if length s > 8 then (let k = (word_of_int (atoi (drop 8 s)) :: u64) in if k = 0 then 10 else k) else 10)"

definition agency_action :: "cstr \<Rightarrow> repl_action" where
  "agency_action s = (let a = slash_arg 7 s in if a = [] then RAgencyList else RAgency a)"

definition slash_gateway :: "cstr \<Rightarrow> repl_action" where
  "slash_gateway s =
     (if has_prefix ''/openrouter'' s then ROpenRouter (or_default ''anthropic/claude-3.7-sonnet'' (slash_arg 11 s))
      else if has_prefix ''/ollama'' s then ROllama (slash_arg 7 s)
      else if has_prefix ''/key'' s then RKey (slash_arg 4 s)
      else if has_prefix ''/model'' s then RModel (slash_arg 6 s)
      else if has_prefix ''/cwd'' s then RCwd (slash_arg 4 s)
      else if has_prefix ''/mcp'' s then RMcp (slash_arg 4 s)
      else if has_prefix ''/agency'' s then agency_action s
      else if has_prefix ''/company'' s then RCompany (slash_arg 8 s)
      else RUnknown s)"

definition slash_memory :: "cstr \<Rightarrow> repl_action" where
  "slash_memory s =
     (if s = ''/cache'' then RCache
      else if s = ''/reflect'' then RReflect
      else if s = ''/clear'' \<or> s = ''/reset'' \<or> s = ''/new'' then RClear
      else if has_prefix ''/compact'' s then compact_action s
      else if has_prefix ''/memory'' s then RMemory (slash_arg 7 s)
      else if has_prefix ''/tasks'' s then RTasks (or_default ''all'' (slash_arg 6 s))
      else if s = ''/cron'' then RCron
      else if s = ''/dream'' then RDream
      else if s = ''/plan'' then RPlan
      else if s = ''/bg'' then RBg
      else slash_gateway s)"

definition slash_session :: "cstr \<Rightarrow> repl_action" where
  "slash_session s =
     (if has_prefix ''/timeline'' s then timeline_action s
      else if s = ''/sessions'' then RSessions
      else if has_prefix ''/save'' s then RSave (or_default ''default_session'' (slash_arg 5 s))
      else if has_prefix ''/resume'' s then RResume (slash_arg 7 s)
      else if has_prefix ''/skills'' s then RSkills (slash_arg 7 s)
      else if s = ''/checkpoints'' then RCheckpoints
      else if has_prefix ''/checkpoint'' s then RCheckpoint (or_default ''manual'' (slash_arg 11 s))
      else if has_prefix ''/rollback'' s then RRollback (let a = slash_arg 9 s in if a = [] then None else Some a)
      else if has_prefix ''/export-sharegpt'' s then (case export_args 16 s of (a, b) \<Rightarrow> RExportShareGpt a b)
      else if has_prefix ''/export-dpo'' s then (case export_args 11 s of (a, b) \<Rightarrow> RExportDpo a b)
      else if has_prefix ''/export'' s then (case export_args 7 s of (a, b) \<Rightarrow> RExport a b)
      else slash_memory s)"

definition slash_dispatch :: "cstr \<Rightarrow> repl_action" where
  "slash_dispatch s =
     (if s = ''/help'' then RHelp
      else if s = ''/status'' then RStatus
      else if has_prefix ''/diff'' s then diff_action s
      else if s = ''/doctor'' then RDoctor
      else if s = ''/probe'' \<or> s = ''/health'' then RProbe
      else if s = ''/cost'' then RCost
      else if has_prefix ''/mesh'' s then mesh_action s
      else if s = ''/hud'' then RHud
      else if s = ''/tools'' then RTools
      else if s = ''/rules'' then RRules
      else slash_session s)"

definition repl_dispatch :: "cstr \<Rightarrow> repl_action" where
  "repl_dispatch s = (case s of c # _ \<Rightarrow> if c = CHR ''/'' then slash_dispatch s else RTurn s | [] \<Rightarrow> RTurn s)"

section \<open>Switching the gateway\<close>

type_synonym env = "cstr \<Rightarrow> cstr option"

definition OPENROUTER_URL :: cstr where
  "OPENROUTER_URL = ''https://openrouter.ai/api/v1/chat/completions''"

definition OLLAMA_URL :: cstr where
  "OLLAMA_URL = ''http://localhost:11434/v1/chat/completions''"

definition use_openrouter :: "env \<Rightarrow> cstr \<Rightarrow> 'a GatewayConfig_scheme \<Rightarrow> 'a GatewayConfig_scheme" where
  "use_openrouter e new_m g =
     (let or_key = (case nonempty (e ''OPENROUTER_API_KEY'') of Some k \<Rightarrow> Some k | None \<Rightarrow> e ''MODEL_API_KEY'');
          g = g\<lparr>endpoint := Some OPENROUTER_URL, gw_model := Some new_m\<rparr>
      in case nonempty or_key of
           Some k \<Rightarrow> if k \<noteq> ''ollama'' \<and> k \<noteq> ''none'' then g\<lparr>api_key := Some k\<rparr> else g
         | None \<Rightarrow> g)"

definition clean_model :: "cstr \<Rightarrow> cstr" where
  "clean_model new_m =
     or_default ''qwen2.5-coder:7b'' (take 127 (filter (\<lambda>c. c \<notin> {CHR '' '', TAB, CR, LF}) new_m))"

definition use_ollama :: "cstr \<Rightarrow> 'a GatewayConfig_scheme \<Rightarrow> 'a GatewayConfig_scheme" where
  "use_ollama new_m g =
     g\<lparr>endpoint := Some OLLAMA_URL, gw_model := Some (clean_model new_m), api_key := Some ''ollama''\<rparr>"

definition use_model :: "env \<Rightarrow> cstr \<Rightarrow> 'a GatewayConfig_scheme \<Rightarrow> 'a GatewayConfig_scheme" where
  "use_model e new_m g =
     (if new_m = [] then g
      else
        let g' = g\<lparr>gw_model := Some new_m\<rparr> in
        if strchr new_m (CHR ''/'') \<noteq> None \<and> mentions (endpoint g) ''localhost'' then
          let g' = g'\<lparr>endpoint := Some OPENROUTER_URL\<rparr> in
          (case nonempty (e ''OPENROUTER_API_KEY'') of
             Some k \<Rightarrow> if k \<noteq> ''ollama'' then g'\<lparr>api_key := Some k\<rparr> else g'
           | None \<Rightarrow> g')
        else g')"

definition switch_gateway ::
    "repl_action \<Rightarrow> env \<times> 'a GatewayConfig_scheme \<Rightarrow> env \<times> 'a GatewayConfig_scheme" where
  "switch_gateway act eg =
     (case eg of (e, g) \<Rightarrow>
       (case act of
          ROpenRouter m \<Rightarrow> (e, use_openrouter e m g)
        | ROllama m \<Rightarrow> (e, use_ollama m g)
        | RKey k \<Rightarrow>
            if k \<noteq> [] then (e(''OPENROUTER_API_KEY'' \<mapsto> k, ''MODEL_API_KEY'' \<mapsto> k), g\<lparr>api_key := Some k\<rparr>) else (e, g)
        | RModel m \<Rightarrow> (e, use_model e m g)
        | _ \<Rightarrow> (e, g)))"

section \<open>The loop\<close>

record 'w repl_state =
  rp_console :: console
  rp_history_file :: "cstr option"
  rp_gateway :: "env \<times> GatewayConfig"
  rp_world :: 'w

record 'w repl_world =
  obey :: "repl_action \<Rightarrow> env \<times> GatewayConfig \<Rightarrow> 'w \<Rightarrow> 'w \<times> cstr"
  count_msgs :: "'w \<Rightarrow> nat"

datatype 'w repl_result = Next "'w repl_state" | Stop "'w repl_state" | Repl_Undefined

definition repl_input :: "cstr \<Rightarrow> cstr" where
  "repl_input line = takeWhile (\<lambda>c. c \<noteq> CR \<and> c \<noteq> LF) (take 4095 line)"

definition remember_line :: "cstr \<Rightarrow> 'w repl_state \<Rightarrow> 'w repl_state" where
  "remember_line inp s =
     (if inp \<noteq> [] then
        let t = linenoiseHistoryAdd inp (rp_console s) in
        s\<lparr>rp_console := t, rp_history_file := Some (linenoiseHistorySave t)\<rparr>
      else s)"

definition repl_obey :: "'w repl_world \<Rightarrow> repl_action \<Rightarrow> 'w repl_state \<Rightarrow> 'w repl_state" where
  "repl_obey W act s =
     (let g = switch_gateway act (rp_gateway s); (w, out) = obey W act g (rp_world s); t = rp_console s in
      s\<lparr>rp_gateway := g, rp_world := w, rp_console := t\<lparr>ofd := ofd t @ out\<rparr>\<rparr>)"

definition repl_round :: "'w repl_world \<Rightarrow> 'w repl_state \<Rightarrow> 'w repl_result" where
  "repl_round W s =
     (case linenoise (repl_prompt (gw_model (snd (rp_gateway s))) (count_msgs W (rp_world s))) (rp_console s) of
        None \<Rightarrow> Repl_Undefined
      | Some (None, t) \<Rightarrow> Stop (s\<lparr>rp_console := t\<rparr>)
      | Some (Some line, t) \<Rightarrow>
          let inp = repl_input line; s = remember_line inp (s\<lparr>rp_console := t\<rparr>) in
          if inp = ''exit'' then Stop s
          else if inp = [] then Next s
          else Next (repl_obey W (repl_dispatch inp) s))"

fun repl_loop :: "'w repl_world \<Rightarrow> nat \<Rightarrow> 'w repl_state \<Rightarrow> 'w repl_result" where
  "repl_loop W 0 s = Next s"
| "repl_loop W (Suc n) s = (case repl_round W s of Next s' \<Rightarrow> repl_loop W n s' | r \<Rightarrow> r)"

definition repl_start :: "'w repl_state \<Rightarrow> 'w repl_state" where
  "repl_start s =
     (let t = linenoiseHistorySetMaxLen 200 (rp_console s);
          t = (case rp_history_file s of Some file \<Rightarrow> linenoiseHistoryLoad file t | None \<Rightarrow> t)
      in s\<lparr>rp_console := t\<lparr>completionCallback := Some harness_completion_hook\<rparr>\<rparr>)"

section \<open>Properties of the dispatch\<close>

definition recognised :: "repl_action \<Rightarrow> bool" where
  "recognised a \<longleftrightarrow> (case a of RUnknown _ \<Rightarrow> False | RTurn _ \<Rightarrow> False | _ \<Rightarrow> True)"

lemma repl_commands_recognised:
  "list_all (\<lambda>c. recognised (repl_dispatch c) \<and> length c < 100) repl_commands"
  by code_simp

lemma hook_offers_commands: "c \<in> set (harness_completion_hook s) \<Longrightarrow> c \<in> set repl_commands \<and> has_prefix s c"
  by (auto simp: harness_completion_hook_def split: list.splits if_splits)

lemma completions_recognised: "c \<in> set (harness_completion_hook s) \<Longrightarrow> recognised (repl_dispatch c)"
  using repl_commands_recognised hook_offers_commands unfolding list_all_iff by blast

lemma hook_short: "c \<in> set (harness_completion_hook s) \<Longrightarrow> length c < LINENOISE_MAX_LINE - 1"
  using repl_commands_recognised hook_offers_commands unfolding list_all_iff LINENOISE_MAX_LINE_def by fastforce

lemma slash_never_turn: "slash_dispatch s \<noteq> RTurn x"
  by (simp add: slash_dispatch_def slash_session_def slash_memory_def slash_gateway_def diff_action_def mesh_action_def
      timeline_action_def compact_action_def agency_action_def Let_def split: prod.split)

lemma turn_is_plain_text: "repl_dispatch s = RTurn x \<Longrightarrow> x = s \<and> \<not> has_prefix ''/'' s"
  by (auto simp: repl_dispatch_def slash_never_turn split: list.splits if_splits)

text \<open>Commands are matched by prefix, so a longer word is a shorter command with an argument.\<close>

lemma longer_word_sets_the_key: "repl_dispatch ''/keyboard'' = RKey ''board''"
  by code_simp

lemma old_key_goes_to_openrouter:
  assumes "e ''OPENROUTER_API_KEY'' = None" "e ''MODEL_API_KEY'' = None"
  shows "api_key (use_openrouter e m g) = api_key g \<and> endpoint (use_openrouter e m g) = Some OPENROUTER_URL"
  using assms by (simp add: use_openrouter_def nonempty_def)

lemma ollama_gets_no_key: "api_key (use_ollama m g) = Some ''ollama'' \<and> endpoint (use_ollama m g) = Some OLLAMA_URL"
  by (simp add: use_ollama_def)

lemma long_model_name_overflows_80_columns:
  "linenoisePromptLen (repl_prompt (Some (''a/'' @ replicate 62 (CHR ''m''))) 10) \<ge> getColumns 80"
  by code_simp

section \<open>Properties of the loop\<close>

lemma prompt_len_le: "linenoisePromptLen s \<le> length s"
proof (induction s rule: linenoisePromptLen.induct)
  case (2 c s)
  show ?case
  proof (cases "c = ESC")
    case True
    have "length (case s of d # t \<Rightarrow> if d = CHR ''['' then csi_skip t else s | [] \<Rightarrow> s) \<le> length s"
      using csi_skip_le by (auto split: list.split simp: le_SucI)
    with 2(1)[OF True] True show ?thesis by simp
  next
    case False
    with 2(2) show ?thesis by simp
  qed
qed simp

lemma prompt_fits: "128 \<le> w \<Longrightarrow> linenoisePromptLen (repl_prompt m n) < getColumns w"
  using prompt_len_le[of "repl_prompt m n"] by (simp add: repl_prompt_def getColumns_def Let_def)

definition repl_ok :: "'w repl_state \<Rightarrow> bool" where
  "repl_ok s \<longleftrightarrow> console_ok (rp_console s) \<and> 128 \<le> ws_col (rp_console s)"

lemma add_keeps_console:
  "console_ok t \<Longrightarrow> console_ok (linenoiseHistoryAdd x t) \<and> tty_env (linenoiseHistoryAdd x t) = tty_env t"
  by (auto simp: console_ok_def linenoiseHistoryAdd_def tty_env_def)

lemma repl_round_ok:
  assumes "repl_ok s"
  shows "\<exists>s'. (repl_round W s = Next s' \<or> repl_round W s = Stop s') \<and> repl_ok s'"
proof -
  let ?p = "repl_prompt (gw_model (snd (rp_gateway s))) (count_msgs W (rp_world s))"
  have c: "console_ok (rp_console s)" and p: "linenoisePromptLen ?p < getColumns (ws_col (rp_console s))"
    using assms prompt_fits by (simp_all add: repl_ok_def)
  obtain line t where l: "linenoise ?p (rp_console s) = Some (line, t)" using line_returns[OF c p] by blast
  have t: "console_ok t" "tty_env t = tty_env (rp_console s)" using linenoise_keeps_console[OF c p l] by simp_all
  have a: "console_ok (rp_console (remember_line x (s\<lparr>rp_console := t\<rparr>)))
      \<and> tty_env (rp_console (remember_line x (s\<lparr>rp_console := t\<rparr>))) = tty_env t" for x
    using add_keeps_console[OF t(1)] t(1) by (simp add: remember_line_def Let_def)
  have o: "repl_ok (repl_obey W act s') = repl_ok s'" for act and s' :: "'a repl_state"
    by (simp add: repl_obey_def repl_ok_def console_ok_def Let_def split: prod.split)
  have k: "repl_ok s'" if "console_ok (rp_console s') \<and> tty_env (rp_console s') = tty_env t" for s' :: "'a repl_state"
    using that t(2) assms by (simp add: repl_ok_def tty_env_def)
  show ?thesis
  proof (cases line)
    case None
    with l t k[of "s\<lparr>rp_console := t\<rparr>"] show ?thesis by (simp add: repl_round_def)
  next
    case (Some x)
    with l k[OF a] o show ?thesis by (simp add: repl_round_def Let_def)
  qed
qed

lemma repl_start_ok:
  assumes "128 \<le> ws_col (rp_console s)"
  shows "repl_ok (repl_start s)"
proof -
  define t0 where "t0 = linenoiseHistorySetMaxLen 200 (rp_console s)"
  have t0: "history_max_len t0 = 200" "length (history t0) \<le> 200" "ws_col t0 = ws_col (rp_console s)"
    by (simp_all add: t0_def linenoiseHistorySetMaxLen_def)
  have f: "history_max_len (foldl g u xs) = 200 \<and> length (history (foldl g u xs)) \<le> 200 \<and> ws_col (foldl g u xs) = ws_col u"
    if "history_max_len u = 200" "length (history u) \<le> 200"
      "g = (\<lambda>h chunk. if history_line chunk \<noteq> [] then linenoiseHistoryAdd (history_line chunk) h else h)"
    for g xs and u :: console
    using that by (induction xs arbitrary: u) (auto simp: linenoiseHistoryAdd_def)
  have "history_max_len (linenoiseHistoryLoad x t0) = 200 \<and> length (history (linenoiseHistoryLoad x t0)) \<le> 200
      \<and> ws_col (linenoiseHistoryLoad x t0) = ws_col t0" for x
    unfolding linenoiseHistoryLoad_def by (rule f[OF t0(1,2) refl])
  with t0 assms show ?thesis
    by (auto simp: repl_ok_def repl_start_def console_ok_def Let_def simp flip: t0_def One_nat_def split: option.split
        dest: hook_short)
qed

lemma repl_loop_ok: "repl_ok s \<Longrightarrow> repl_loop W n s \<noteq> Repl_Undefined"
proof (induction n arbitrary: s)
  case (Suc n)
  with repl_round_ok[of s W] show ?case by (auto split: repl_result.split)
qed simp

section \<open>Properties\<close>

definition quiet_world :: "nat repl_world" where
  "quiet_world = \<lparr>obey = (\<lambda>act g n. (n + 1, [])), count_msgs = (\<lambda>n. n)\<rparr>"

definition sample_repl :: "cstr \<Rightarrow> nat repl_state" where
  "sample_repl inp =
     \<lparr>rp_console = (sample_console inp [])\<lparr>ws_col := 132\<rparr>, rp_history_file = None,
      rp_gateway = (Map.empty, \<lparr>endpoint = Some OLLAMA_URL, prompt_caching = False, chat_complete = None,
        api_key = Some ''ollama'', gw_model = Some ''m'', user_agent = None, fallback_endpoint = None,
        fallback_api_key = None, fallback_model = None, timeout_sec = 60, max_retries = 3, streaming = False,
        protocol = PROTOCOL_AUTO, thinking_budget_tokens = 0, has_stream_cb = False\<rparr>),
      rp_world = 0\<rparr>"

text \<open>C28: In a window of at least 128 columns the interactive loop stays inside its buffers for ever:
  whatever keys arrive, whatever history file it starts from and whatever the commands do, no number
  of rounds reaches an undefined state; its own completions fit the line buffer and its prompt the window.\<close>

theorem repl_stays_defined:
  assumes "128 \<le> ws_col (rp_console s)"
  shows "repl_loop W n (repl_start s) \<noteq> Repl_Undefined"
  by (rule repl_loop_ok[OF repl_start_ok[OF assms]])

theorem repl_stays_defined_witness:
  "repl_loop quiet_world 3 (repl_start (sample_repl (''/h'' @ [TAB, TAB, CR]))) \<noteq> Repl_Undefined"
  by (rule repl_stays_defined) (simp add: sample_repl_def)

lemma eof_round:
  assumes "is_tty (rp_console s)" "raw_ok (rp_console s)" "ifd (rp_console s) = []"
  shows "\<exists>t'. repl_round W s = Next (s\<lparr>rp_console := t'\<rparr>) \<and> ifd t' = [] \<and> is_tty t' \<and> raw_ok t'"
proof -
  obtain t' where "linenoise (repl_prompt (gw_model (snd (rp_gateway s))) (count_msgs W (rp_world s))) (rp_console s) =
      Some (Some [], t')" "ifd t' = [] \<and> is_tty t' \<and> raw_ok t'"
    using eof_is_an_empty_line[OF assms] by blast
  then show ?thesis by (intro exI[of _ t']) (simp add: repl_round_def repl_input_def remember_line_def)
qed

text \<open>When the terminal hangs up, the interactive loop never ends: end of file is read as an
  empty line, so every round goes on to the next one, reading nothing and changing nothing but the
  console.\<close>

theorem repl_spins_at_eof:
  assumes "is_tty (rp_console s)" "raw_ok (rp_console s)" "ifd (rp_console s) = []"
  shows "\<exists>t'. repl_loop W n s = Next (s\<lparr>rp_console := t'\<rparr>)"
proof -
  have "\<exists>t'. repl_loop W n s = Next (s\<lparr>rp_console := t'\<rparr>)"
    if "is_tty (rp_console s) \<and> raw_ok (rp_console s) \<and> ifd (rp_console s) = []" for s :: "'a repl_state"
    using that
  proof (induction n arbitrary: s)
    case 0
    have "s = s\<lparr>rp_console := rp_console s\<rparr>" by simp
    then show ?case by (metis repl_loop.simps(1))
  next
    case (Suc n)
    obtain t1 where t1: "repl_round W s = Next (s\<lparr>rp_console := t1\<rparr>)" "ifd t1 = []" "is_tty t1" "raw_ok t1"
      using eof_round[of s W] Suc.prems by blast
    with Suc.IH[of "s\<lparr>rp_console := t1\<rparr>"] show ?case by auto
  qed
  with assms show ?thesis by blast
qed

theorem repl_spins_at_eof_witness:
  "\<exists>t'. repl_loop quiet_world 1000 (sample_repl []) = Next ((sample_repl [])\<lparr>rp_console := t'\<rparr>)"
  by (rule repl_spins_at_eof) (simp_all add: sample_repl_def sample_console_def)

lemma saved_lines: "x \<in> set (history h) \<Longrightarrow> x \<noteq> [] \<Longrightarrow> \<exists>u v. linenoiseHistorySave h = u @ x @ v"
proof -
  assume x: "x \<in> set (history h)" "x \<noteq> []"
  then obtain a b where "history h = a @ x # b" by (meson split_list)
  with x(2) show ?thesis unfolding linenoiseHistorySave_def by auto
qed

lemma added_is_last: "history_max_len h \<noteq> 0 \<Longrightarrow> x \<in> set (history (linenoiseHistoryAdd x h))"
  by (auto simp: linenoiseHistoryAdd_def)

lemma key_line:
  assumes "key \<noteq> []" "hd key \<noteq> CHR '' ''"
  shows "repl_dispatch (''/key '' @ key) = RKey key"
  using assms
  by (simp add: repl_dispatch_def slash_dispatch_def slash_session_def slash_memory_def slash_gateway_def
      slash_arg_def lskip_def dropWhile_eq_self_iff)

text \<open>A key given with \<open>/key\<close> is in clear text in the history file as soon as it is entered,
  and it becomes the key of the gateway in use and of both environment variables.\<close>

theorem key_is_written_to_history:
  assumes "linenoise (repl_prompt (gw_model (snd (rp_gateway s))) (count_msgs W (rp_world s))) (rp_console s) =
      Some (Some (''/key '' @ key), t)"
    and "history_max_len t \<noteq> 0" "key \<noteq> []" "hd key \<noteq> CHR '' ''" "CR \<notin> set key" "LF \<notin> set key" "length key < 4000"
  shows "\<exists>s' u v. repl_round W s = Next s' \<and> rp_history_file s' = Some (u @ key @ v) \<and>
    api_key (snd (rp_gateway s')) = Some key \<and> fst (rp_gateway s') ''OPENROUTER_API_KEY'' = Some key"
proof -
  define line where "line = ''/key '' @ key"
  have i: "repl_input line = line" "line \<noteq> []" "line \<noteq> ''exit''"
    using assms(5,6,7) by (auto simp: repl_input_def line_def)
  obtain u v where "linenoiseHistorySave (linenoiseHistoryAdd line t) = u @ line @ v"
    using saved_lines[OF added_is_last[OF assms(2)] i(2)] by blast
  then have f: "linenoiseHistorySave (linenoiseHistoryAdd line t) = (u @ ''/key '') @ key @ v"
    by (simp add: line_def)
  have d: "repl_dispatch line = RKey key" unfolding line_def by (rule key_line[OF assms(3,4)])
  obtain e g where eg: "rp_gateway s = (e, g)" by (cases "rp_gateway s")
  have l: "linenoise (repl_prompt (gw_model (snd (rp_gateway s))) (count_msgs W (rp_world s))) (rp_console s) = Some (Some line, t)"
    unfolding line_def by (rule assms(1))
  have "repl_round W s = Next (repl_obey W (RKey key) (remember_line line (s\<lparr>rp_console := t\<rparr>)))"
    using i d by (simp add: repl_round_def Let_def l)
  moreover have "rp_history_file (repl_obey W (RKey key) (remember_line line (s\<lparr>rp_console := t\<rparr>))) =
      Some ((u @ ''/key '') @ key @ v)"
    using i(2) f by (simp add: repl_obey_def remember_line_def Let_def split: prod.split)
  moreover have "rp_gateway (repl_obey W (RKey key) (remember_line line (s\<lparr>rp_console := t\<rparr>))) =
      (e(''OPENROUTER_API_KEY'' \<mapsto> key, ''MODEL_API_KEY'' \<mapsto> key), g\<lparr>api_key := Some key\<rparr>)"
    using assms(3) eg by (simp add: repl_obey_def remember_line_def switch_gateway_def Let_def split: prod.split)
  ultimately show ?thesis by (auto simp del: append_assoc)
qed

theorem key_is_written_to_history_witness:
  "\<exists>s' u v. repl_round quiet_world (sample_repl (''/key s3'' @ [CR])) = Next s' \<and>
     rp_history_file s' = Some (u @ ''s3'' @ v)"
proof -
  let ?t = "rp_console (sample_repl (''/key s3'' @ [CR]))" and ?p = "repl_prompt (Some ''m'') 0"
  have c: "console_ok ?t" by (simp add: sample_repl_def sample_console_def console_ok_def)
  have p: "linenoisePromptLen ?p < getColumns (ws_col ?t)" by (rule prompt_fits) (simp add: sample_repl_def)
  have i: "is_tty ?t" "raw_ok ?t" "ifd ?t = ''/key s3'' @ CR # []"
    by (simp_all add: sample_repl_def sample_console_def)
  have "list_all typable ''/key s3''" by code_simp
  from typed_text[OF c p i(1,2) this _ i(3)] obtain t where t: "linenoise ?p ?t = Some (Some ''/key s3'', t)"
    by (auto simp: LINENOISE_MAX_LINE_def)
  have "tty_env t = tty_env ?t" using linenoise_keeps_console[OF c p t] by blast
  then have "history_max_len t \<noteq> 0" by (simp add: tty_env_def sample_repl_def sample_console_def)
  with t obtain t where "linenoise (repl_prompt (Some ''m'') 0) (rp_console (sample_repl (''/key s3'' @ [CR]))) =
      Some (Some (''/key '' @ ''s3''), t)" "history_max_len t \<noteq> 0"
    by auto
  then show ?thesis
    using key_is_written_to_history[where W = quiet_world and s = "sample_repl (''/key s3'' @ [CR])" and t = t
        and key = "''s3''"]
    by (fastforce simp: sample_repl_def quiet_world_def)
qed

end
