(* ===== verification/AgentMesh.thy ===== *)
theory AgentMesh
  imports JsonInt
begin

text \<open>
  The socket between two agents, \<open>agent_mesh.c\<close>: the line framing of the reader threads, the
  handling of one message, building and sending a request, and the consultation that waits for the
  reply to its request, with its life cycle.

  A file descriptor is whether it is open, and what is written to it is returned as bytes. The
  functions that hold \<open>mesh->lock\<close> are atomic; \<open>agent_mesh_consult\<close> is the sequence of its three
  locked sections, and the relation \<open>mesh_step\<close> lets the sections of several threads and of the
  listener interleave. Ids are \<open>int\<close>s: taking one at \<open>MSG_ID_MAX\<close> would overflow, which is undefined,
  so it is no step of the relation. \<open>None\<close> is undefined behaviour (the cast of an id that is out of range, the join
  of a thread that was never created). The message handler is a parameter on a world of its own.
\<close>

section \<open>State\<close>

text \<open>
  The fields of \<open>AgentMeshMessage\<close> that \<open>strncpy\<close> fills without a terminator behind 63 bytes are
  options: \<open>None\<close> when the last byte of the uninitialised array decides where the string ends.
\<close>

record AgentMeshMessage =
  msg_source :: "cstr option"
  msg_target :: "cstr option"
  msg_action :: "cstr option"
  msg_payload :: "cstr option"
  msg_request_id :: int

record 'w AgentMesh =
  agent_name :: cstr
  socket_path :: cstr
  is_server :: bool
  listen_fd :: bool
  peer_fd :: bool
  mesh_running :: bool
  listener_thread :: bool
  next_msg_id :: int
  handler :: "(AgentMeshMessage \<Rightarrow> 'w \<Rightarrow> cstr option \<times> 'w) option"
  pending_req_id :: int
  pending_response :: "cstr option"
  pending_arrived :: bool

definition AGENT_MESH_DEFAULT_SOCK_PATH :: cstr where
  "AGENT_MESH_DEFAULT_SOCK_PATH = ''/tmp/belya_almaz_mesh.sock''"

definition MSG_ID_MAX :: int where "MSG_ID_MAX = 2 ^ 31 - 1"

section \<open>Messages\<close>

definition copied63 :: "cstr \<Rightarrow> cstr option" where
  "copied63 s = (if length s < 63 then Some s else None)"

definition or_else :: "cstr option \<Rightarrow> cstr \<Rightarrow> cstr" where
  "or_else s d = (case s of Some t \<Rightarrow> t | None \<Rightarrow> d)"

text \<open>Requests and replies have the same members.\<close>

definition mesh_message :: "int \<Rightarrow> cstr \<Rightarrow> cstr \<Rightarrow> cstr \<Rightarrow> bool \<Rightarrow> JsonValue \<Rightarrow> JsonValue" where
  "mesh_message msg_id src dst action resp payload =
     (let jv = json_obj_add json_create_object ''mesh'' (json_create_string (Some ''1.0''));
          jv = json_obj_add jv ''id'' (json_create_number (double_of_int msg_id));
          jv = json_obj_add jv ''src'' (json_create_string (Some src));
          jv = json_obj_add jv ''dst'' (json_create_string (Some dst));
          jv = json_obj_add jv ''action'' (json_create_string (Some action));
          jv = json_obj_add jv ''resp'' (json_create_bool resp)
      in json_obj_add jv ''payload'' payload)"

definition mesh_line :: "JsonValue \<Rightarrow> cstr" where
  "mesh_line jv = json_text jv @ [LF]"

text \<open>The branch for a response: it counts only when its id is the pending one.\<close>

definition response_arrives :: "int \<Rightarrow> cstr option \<Rightarrow> 'w AgentMesh \<Rightarrow> 'w AgentMesh" where
  "response_arrives msg_id payload_str mesh =
     (if msg_id = pending_req_id mesh then
        mesh\<lparr>pending_response := Some (or_else payload_str ''{}''), pending_arrived := True\<rparr>
      else mesh)"

definition pong_reply :: "cstr \<Rightarrow> int \<Rightarrow> cstr option \<Rightarrow> JsonValue" where
  "pong_reply name msg_id src =
     mesh_message msg_id name (or_else src ''peer'') ''pong'' True (json_create_string (Some ''pong''))"

definition handler_reply :: "cstr \<Rightarrow> int \<Rightarrow> cstr option \<Rightarrow> cstr option \<Rightarrow> cstr option \<Rightarrow> JsonValue" where
  "handler_reply name msg_id src action resp_payload =
     mesh_message msg_id name (or_else src ''peer'') (or_else action ''reply'') True
       (json_create_string (Some (or_else resp_payload ''ok'')))"

text \<open>\<open>mesh_handle_incoming_line\<close>: the new state, the bytes written to the connection, the world.\<close>

definition mesh_handle_incoming_line ::
    "cstr \<Rightarrow> 'w AgentMesh \<Rightarrow> 'w \<Rightarrow> ('w AgentMesh \<times> cstr \<times> 'w) option" where
  "mesh_handle_incoming_line line mesh w =
     (if line = [] then Some (mesh, [], w)
      else
        case json_parse (Some line) of
          None \<Rightarrow> Some (mesh, [], w)
        | Some v \<Rightarrow>
            let jv = Some v;
                src = json_obj_get_str jv ''src'';
                dst = json_obj_get_str jv ''dst'';
                action = json_obj_get_str jv ''action'';
                is_resp = json_obj_get_bool jv ''resp'' False;
                payload_str = map_option json_text (json_obj_get jv ''payload'')
            in case int_of_double (json_obj_get_num jv ''id'' (double_of_int 0)) of
                 None \<Rightarrow> None
               | Some msg_id \<Rightarrow>
                   if is_resp then Some (response_arrives msg_id payload_str mesh, [], w)
                   else if action = Some ''ping'' then
                     Some (mesh, mesh_line (pong_reply (agent_name mesh) msg_id src), w)
                   else
                     case handler mesh of
                       None \<Rightarrow> Some (mesh, [], w)
                     | Some f \<Rightarrow>
                         (case f \<lparr>msg_source = copied63 (or_else src []), msg_target = copied63 (or_else dst []),
                                  msg_action = copied63 (or_else action []), msg_payload = payload_str,
                                  msg_request_id = msg_id\<rparr> w of
                            (resp, w') \<Rightarrow>
                              Some (mesh, mesh_line (handler_reply (agent_name mesh) msg_id src action resp), w')))"

section \<open>The reader threads\<close>

text \<open>
  Both worker threads read into a buffer of 4096 bytes, of which one is kept for the terminator, and
  cut what is in it into lines. \<open>buffer_lines\<close> is the inner loop: \<open>strchr\<close> sees the buffer as a C
  string, so it stops at a NUL. A connection is the list of the pieces that are available at its
  reads; a read takes at most the room that is left, and with no room it returns 0, as at end of file,
  and the connection is closed. The result is the lines that are handled, in order.
\<close>

definition MESH_BUF :: nat where "MESH_BUF = 4096"

function buffer_lines :: "cstr \<Rightarrow> cstr list \<times> cstr" where
  "buffer_lines s =
     (if LF \<in> set (c_string s) then
        (case buffer_lines (drop (length (takeWhile (\<lambda>c. c \<noteq> LF) s) + 1) s) of
           (ls, r) \<Rightarrow> (takeWhile (\<lambda>c. c \<noteq> LF) s # ls, r))
      else ([], s))"
  by pat_completeness auto
termination
proof (relation "measure length")
  fix s assume "LF \<in> set (c_string s)"
  then have "s \<noteq> []" by (auto simp: c_string_def)
  then show "(drop (length (takeWhile (\<lambda>c. c \<noteq> LF) s) + 1) s, s) \<in> measure length" by simp
qed simp

declare buffer_lines.simps [simp del]

lemma buffer_lines_le: "length (snd (buffer_lines s)) \<le> length s"
proof (induction s rule: buffer_lines.induct)
  case (1 s)
  then show ?case
    by (subst buffer_lines.simps) (auto split: prod.split intro: le_trans)
qed

function mesh_receive :: "cstr \<Rightarrow> cstr list \<Rightarrow> cstr list" where
  "mesh_receive buf [] = []"
| "mesh_receive buf (chunk # chunks) =
     (let room = MESH_BUF - length buf - 1; nr = min room (length chunk) in
      if nr = 0 then []
      else
        case buffer_lines (buf @ take nr chunk) of
          (ls, buf') \<Rightarrow>
            ls @ mesh_receive buf' (if nr < length chunk then drop nr chunk # chunks else chunks))"
  by pat_completeness auto
termination
  by (relation "measure (\<lambda>(buf, chunks). length (concat chunks) + length chunks)") auto

declare mesh_receive.simps(2) [simp del]

definition prepend_out :: "cstr \<Rightarrow> ('m \<times> cstr \<times> 'w) option \<Rightarrow> ('m \<times> cstr \<times> 'w) option" where
  "prepend_out t r = map_option (\<lambda>(m, out, w). (m, t @ out, w)) r"

fun mesh_handle_lines :: "cstr list \<Rightarrow> 'w AgentMesh \<Rightarrow> 'w \<Rightarrow> ('w AgentMesh \<times> cstr \<times> 'w) option" where
  "mesh_handle_lines [] mesh w = Some (mesh, [], w)"
| "mesh_handle_lines (l # ls) mesh w =
     (case mesh_handle_incoming_line l mesh w of
        None \<Rightarrow> None
      | Some (mesh, out, w) \<Rightarrow> prepend_out out (mesh_handle_lines ls mesh w))"

section \<open>Life cycle\<close>

definition agent_mesh_init :: "cstr option \<Rightarrow> cstr option \<Rightarrow> 'w AgentMesh" where
  "agent_mesh_init name path =
     \<lparr>agent_name = take 63 (or_else name ''agent''),
      socket_path = take 103 (case nonempty path of Some p \<Rightarrow> p | None \<Rightarrow> AGENT_MESH_DEFAULT_SOCK_PATH),
      is_server = False, listen_fd = False, peer_fd = False, mesh_running = False, listener_thread = False,
      next_msg_id = 1, handler = None, pending_req_id = 0, pending_response = None, pending_arrived = False\<rparr>"

definition agent_mesh_set_handler ::
    "(AgentMeshMessage \<Rightarrow> 'w \<Rightarrow> cstr option \<times> 'w) option \<Rightarrow> 'w AgentMesh \<Rightarrow> 'w AgentMesh" where
  "agent_mesh_set_handler f mesh = mesh\<lparr>handler := f\<rparr>"

text \<open>What the system calls of \<open>agent_mesh_start\<close> answer.\<close>

record socket_answers =
  can_connect :: bool
  can_listen :: bool

definition agent_mesh_start :: "socket_answers \<Rightarrow> 'w AgentMesh \<Rightarrow> bool \<times> 'w AgentMesh" where
  "agent_mesh_start sys mesh =
     (if can_connect sys then
        (True, mesh\<lparr>is_server := False, peer_fd := True, mesh_running := True, listener_thread := True\<rparr>)
      else if \<not> can_listen sys then (False, mesh)
      else (True, mesh\<lparr>is_server := True, listen_fd := True, mesh_running := True, listener_thread := True\<rparr>))"

definition agent_mesh_is_online :: "'w AgentMesh \<Rightarrow> bool" where
  "agent_mesh_is_online mesh \<longleftrightarrow> peer_fd mesh \<or> listen_fd mesh"

text \<open>\<open>pthread_join\<close> on the zeroed thread of a mesh that never started is undefined.\<close>

definition agent_mesh_stop :: "'w AgentMesh \<Rightarrow> 'w AgentMesh option" where
  "agent_mesh_stop mesh =
     (if \<not> listener_thread mesh then None
      else Some (mesh\<lparr>mesh_running := False, peer_fd := False, listen_fd := False\<rparr>))"

definition agent_mesh_free :: "'w AgentMesh \<Rightarrow> unit option" where
  "agent_mesh_free mesh = (case agent_mesh_stop mesh of None \<Rightarrow> None | Some _ \<Rightarrow> Some ())"

section \<open>Sending and consulting\<close>

definition request_payload_value :: "cstr option \<Rightarrow> JsonValue" where
  "request_payload_value payload_json =
     (case nonempty payload_json of
        Some p \<Rightarrow> (case json_parse (Some p) of Some v \<Rightarrow> v | None \<Rightarrow> json_create_string (Some p))
      | None \<Rightarrow> json_create_object)"

definition mesh_request :: "cstr \<Rightarrow> int \<Rightarrow> cstr option \<Rightarrow> cstr option \<Rightarrow> cstr option \<Rightarrow> JsonValue" where
  "mesh_request name req_id target action payload_json =
     mesh_message req_id name (or_else target ''peer'') (or_else action ''message'') False
       (request_payload_value payload_json)"

text \<open>
  \<open>agent_mesh_send\<close>, one locked section: whether it succeeded, the id of the request, the bytes put on
  the socket and the new state. \<open>wr\<close> is whether the writes succeed.
\<close>

definition agent_mesh_send ::
    "bool \<Rightarrow> cstr option \<Rightarrow> cstr option \<Rightarrow> cstr option \<Rightarrow> 'w AgentMesh \<Rightarrow> bool \<times> int \<times> cstr \<times> 'w AgentMesh" where
  "agent_mesh_send wr target action payload_json mesh =
     (if \<not> peer_fd mesh then (False, 0, [], mesh)
      else
        let req_id = next_msg_id mesh;
            out = mesh_line (mesh_request (agent_name mesh) req_id target action payload_json)
        in (wr, req_id, if wr then out else [], mesh\<lparr>next_msg_id := req_id + 1\<rparr>))"

text \<open>The first and the last locked section of \<open>agent_mesh_consult\<close>, and the reconnection before them.\<close>

definition consult_connect :: "bool \<Rightarrow> 'w AgentMesh \<Rightarrow> 'w AgentMesh" where
  "consult_connect ok mesh =
     (if \<not> peer_fd mesh \<and> \<not> is_server mesh \<and> ok then
        mesh\<lparr>peer_fd := True, mesh_running := True, listener_thread := True\<rparr>
      else mesh)"

definition consult_begin :: "'w AgentMesh \<Rightarrow> 'w AgentMesh" where
  "consult_begin mesh = mesh\<lparr>pending_req_id := next_msg_id mesh, pending_arrived := False, pending_response := None\<rparr>"

definition consult_finish :: "'w AgentMesh \<Rightarrow> cstr option \<times> 'w AgentMesh" where
  "consult_finish mesh =
     (if pending_arrived mesh \<and> pending_response mesh \<noteq> None then
        (pending_response mesh, mesh\<lparr>pending_response := None, pending_req_id := 0, pending_arrived := False\<rparr>)
      else (None, mesh\<lparr>pending_req_id := 0, pending_arrived := False\<rparr>))"

text \<open>
  A consultation with nothing else going on: \<open>answer\<close> is what the listener does with the bytes that
  come back before the timeout.
\<close>

definition agent_mesh_consult ::
    "bool \<Rightarrow> bool \<Rightarrow> (cstr \<Rightarrow> 'w AgentMesh \<Rightarrow> 'w AgentMesh) \<Rightarrow> cstr option \<Rightarrow> cstr option \<Rightarrow> cstr option \<Rightarrow> 'w AgentMesh \<Rightarrow>
     cstr option \<times> 'w AgentMesh" where
  "agent_mesh_consult reconnect wr answer target action query_json mesh =
     (let mesh = consult_connect reconnect mesh in
      if \<not> peer_fd mesh then (None, mesh)
      else
        case agent_mesh_send wr target action query_json (consult_begin mesh) of
          (ok, req_id, out, mesh) \<Rightarrow>
            if \<not> ok then (None, mesh) else consult_finish (answer out mesh))"

definition agent_mesh_ping ::
    "bool \<Rightarrow> bool \<Rightarrow> (cstr \<Rightarrow> 'w AgentMesh \<Rightarrow> 'w AgentMesh) \<Rightarrow> cstr option \<Rightarrow> 'w AgentMesh \<Rightarrow> bool \<times> 'w AgentMesh" where
  "agent_mesh_ping reconnect wr answer target mesh =
     (case agent_mesh_consult reconnect wr answer target (Some ''ping'') (Some ''{}'') mesh of
        (res, mesh) \<Rightarrow> (res \<noteq> None, mesh))"

text \<open>\<open>belya_mesh_collaborate\<close> of the harness, behind the tool and \<open>/mesh\<close>.\<close>

definition belya_mesh_collaborate ::
    "(cstr option \<Rightarrow> cstr option \<Rightarrow> cstr option \<Rightarrow> cstr option) \<Rightarrow> cstr option \<Rightarrow> cstr option \<Rightarrow> cstr option \<Rightarrow> cstr" where
  "belya_mesh_collaborate consult target action msg =
     (let tgt = or_else (nonempty target) ''almaz''; act = or_else (nonempty action) ''consult'' in
      case consult (Some tgt) (Some act) (Some (or_else msg ''{}'')) of
        Some r \<Rightarrow> r
      | None \<Rightarrow> ''[Agent Mesh IPC]: Peer '' @ [SQ] @ tgt @ [SQ] @
          '' offline or did not reply within timeout. Socket: '' @ AGENT_MESH_DEFAULT_SOCK_PATH)"

section \<open>Threads\<close>

text \<open>
  The interleaving of the locked sections. A thread that consults is before its request, waiting for
  the reply to the request it sent, or done with a result; \<open>Notify\<close> is a plain \<open>agent_mesh_send\<close> of
  any thread, and \<open>Arrive\<close> the listener handling a response. A waiting thread finishes when a response
  has arrived, or by its timeout at any time. The connection changes between the sections: a consulting
  client makes one when it has none, the listener of a server accepts a new one in place of the old and
  drops it at end of file, and a thread that finds none gives up.
\<close>

datatype consulter = Idle | Begun | Waiting int | Finished "int" "cstr option"

record 'w mesh_system =
  the_mesh :: "'w AgentMesh"
  consulters :: "nat \<Rightarrow> consulter"
  answers :: "(int \<times> cstr) list"

inductive mesh_step :: "'w mesh_system \<Rightarrow> 'w mesh_system \<Rightarrow> bool" where
  Connect: "mesh_step s (s\<lparr>the_mesh := consult_connect ok (the_mesh s)\<rparr>)"
| Accept: "is_server (the_mesh s) \<Longrightarrow> mesh_step s (s\<lparr>the_mesh := (the_mesh s)\<lparr>peer_fd := True\<rparr>\<rparr>)"
| Lose: "is_server (the_mesh s) \<Longrightarrow> mesh_step s (s\<lparr>the_mesh := (the_mesh s)\<lparr>peer_fd := False\<rparr>\<rparr>)"
| Offline: "consulters s t = Idle \<or> consulters s t = Finished i r \<Longrightarrow> \<not> peer_fd (the_mesh s) \<Longrightarrow>
     mesh_step s (s\<lparr>consulters := (consulters s)(t := Finished 0 None)\<rparr>)"
| Begin: "consulters s t = Idle \<or> consulters s t = Finished i r \<Longrightarrow>
     mesh_step s (s\<lparr>the_mesh := consult_begin (the_mesh s), consulters := (consulters s)(t := Begun)\<rparr>)"
| Send: "consulters s t = Begun \<Longrightarrow> agent_mesh_send True a b c (the_mesh s) = (True, i, out, m) \<Longrightarrow>
     i < MSG_ID_MAX \<Longrightarrow> mesh_step s (s\<lparr>the_mesh := m, consulters := (consulters s)(t := Waiting i)\<rparr>)"
| SendFails: "consulters s t = Begun \<Longrightarrow> agent_mesh_send wr a b c (the_mesh s) = (False, i, out, m) \<Longrightarrow>
     i < MSG_ID_MAX \<Longrightarrow> mesh_step s (s\<lparr>the_mesh := m, consulters := (consulters s)(t := Finished i None)\<rparr>)"
| Notify: "agent_mesh_send wr a b c (the_mesh s) = (ok, i, out, m) \<Longrightarrow> i < MSG_ID_MAX \<Longrightarrow> mesh_step s (s\<lparr>the_mesh := m\<rparr>)"
| Arrive: "mesh_step s (s\<lparr>the_mesh := response_arrives i p (the_mesh s), answers := answers s @ [(i, or_else p ''{}'')]\<rparr>)"
| Finish: "consulters s t = Waiting i \<Longrightarrow> consult_finish (the_mesh s) = (r, m) \<Longrightarrow>
     mesh_step s (s\<lparr>the_mesh := m, consulters := (consulters s)(t := Finished i r)\<rparr>)"

inductive_cases mesh_stepE: "mesh_step s s'"

definition mesh_idle :: "'w AgentMesh \<Rightarrow> 'w mesh_system" where
  "mesh_idle m = \<lparr>the_mesh = m, consulters = (\<lambda>_. Idle), answers = []\<rparr>"

inductive mesh_reachable :: "'w AgentMesh \<Rightarrow> 'w mesh_system \<Rightarrow> bool" for m where
  Start: "mesh_reachable m (mesh_idle m)"
| Step: "mesh_reachable m s \<Longrightarrow> mesh_step s s' \<Longrightarrow> mesh_reachable m s'"

text \<open>Consultations that do not overlap: no second thread begins while one is between begin and finish,
  and no plain send falls between the begin and the request of one.\<close>

definition busy :: "consulter \<Rightarrow> bool" where
  "busy c \<longleftrightarrow> c = Begun \<or> (\<exists>i. c = Waiting i)"

inductive exclusive_reachable :: "'w AgentMesh \<Rightarrow> 'w mesh_system \<Rightarrow> bool" for m where
  Start: "exclusive_reachable m (mesh_idle m)"
| Step: "exclusive_reachable m s \<Longrightarrow> mesh_step s s' \<Longrightarrow>
    (\<forall>t u. busy (consulters s' t) \<and> busy (consulters s' u) \<longrightarrow> t = u) \<Longrightarrow>
    (\<forall>t. consulters s t = Begun \<and> consulters s' t = Begun \<longrightarrow> next_msg_id (the_mesh s') = next_msg_id (the_mesh s)) \<Longrightarrow>
    exclusive_reachable m s'"

section \<open>Framing\<close>

lemma takeWhile_to_lf: "LF \<notin> set l \<Longrightarrow> takeWhile (\<lambda>c. c \<noteq> LF) (l @ LF # s) = l"
  by (simp add: takeWhile_append)

lemma buffer_lines_none: "LF \<notin> set s \<Longrightarrow> buffer_lines s = ([], s)"
  using set_takeWhileD[of LF "\<lambda>c. c \<noteq> NUL" s] by (subst buffer_lines.simps) (auto simp: c_string_def)

lemma buffer_lines_line:
  assumes "LF \<notin> set l" "nul_free l"
  shows "buffer_lines (l @ LF # s) = (l # fst (buffer_lines s), snd (buffer_lines s))"
proof -
  have "LF \<in> set (c_string (l @ LF # s))"
    using assms(2) unfolding c_string_def nul_free_def by (auto simp: takeWhile_append)
  then show ?thesis
    by (subst buffer_lines.simps) (simp add: takeWhile_to_lf[OF assms(1)] split: prod.split)
qed

lemma buffer_lines_append:
  "nul_free a \<Longrightarrow> buffer_lines (a @ b) =
    (fst (buffer_lines a) @ fst (buffer_lines (snd (buffer_lines a) @ b)), snd (buffer_lines (snd (buffer_lines a) @ b)))"
proof (induction a rule: length_induct)
  case (1 a)
  show ?case
  proof (cases "LF \<in> set a")
    case True
    then obtain l u where a: "a = l @ LF # u" "LF \<notin> set l" using split_list_first by metis
    with 1 show ?thesis by (simp add: buffer_lines_line)
  next
    case False
    then show ?thesis by (simp add: buffer_lines_none)
  qed
qed

lemma buffer_lines_rest: "nul_free s \<Longrightarrow> LF \<notin> set (snd (buffer_lines s)) \<and> nul_free (snd (buffer_lines s))"
proof (induction s rule: length_induct)
  case (1 s)
  show ?case
  proof (cases "LF \<in> set s")
    case True
    then obtain l u where "s = l @ LF # u" "LF \<notin> set l" using split_list_first by metis
    with 1 show ?thesis by (simp add: buffer_lines_line)
  next
    case False
    with 1 show ?thesis by (simp add: buffer_lines_none)
  qed
qed

definition short_lines :: "cstr \<Rightarrow> bool" where
  "short_lines s \<longleftrightarrow> (\<forall>l \<in> insert (snd (buffer_lines s)) (set (fst (buffer_lines s))). length l < MESH_BUF - 1)"

lemma short_prefix:
  assumes "short_lines (b @ s)" "LF \<notin> set b" "nul_free (b @ s)"
  shows "length b < MESH_BUF - 1"
proof (cases "LF \<in> set s")
  case True
  then obtain l u where s: "s = l @ LF # u" "LF \<notin> set l" using split_list_first by metis
  then have "buffer_lines ((b @ l) @ LF # u) = ((b @ l) # fst (buffer_lines u), snd (buffer_lines u))"
    using assms(2,3) by (intro buffer_lines_line) auto
  with assms(1) s(1) show ?thesis by (simp add: short_lines_def)
next
  case False
  then have "buffer_lines (b @ s) = ([], b @ s)" using assms(2) by (intro buffer_lines_none) simp
  with assms(1) show ?thesis by (simp add: short_lines_def)
qed

lemma receive_all:
  "LF \<notin> set buf \<Longrightarrow> nul_free (buf @ concat chunks) \<Longrightarrow> short_lines (buf @ concat chunks) \<Longrightarrow> [] \<notin> set chunks \<Longrightarrow>
   mesh_receive buf chunks = fst (buffer_lines (buf @ concat chunks))"
proof (induction buf chunks rule: mesh_receive.induct)
  case (1 buf)
  then show ?case by (simp add: buffer_lines_none)
next
  case (2 buf chunk chunks)
  define nr where "nr = min (MESH_BUF - length buf - 1) (length chunk)"
  have len: "length buf < MESH_BUF - 1" using short_prefix[OF "2.prems"(3,1,2)] .
  moreover have "0 < length chunk" using "2.prems"(4) by auto
  ultimately have nr: "nr \<noteq> 0" by (simp add: nr_def)
  obtain ls b where lb: "buffer_lines (buf @ take nr chunk) = (ls, b)" by fastforce
  define rest where "rest = (if nr < length chunk then drop nr chunk # chunks else chunks)"
  have cat: "take nr chunk @ concat rest = chunk @ concat chunks"
    by (auto simp: rest_def nr_def)
  have nf: "nul_free (buf @ take nr chunk)" "nul_free (concat rest)"
  proof -
    have "buf @ concat (chunk # chunks) = (buf @ take nr chunk) @ concat rest" using cat by simp
    then have "nul_free ((buf @ take nr chunk) @ concat rest)" using "2.prems"(2) by simp
    then show "nul_free (buf @ take nr chunk)" "nul_free (concat rest)" by simp_all
  qed
  have split: "buffer_lines (buf @ concat (chunk # chunks)) =
      (ls @ fst (buffer_lines (b @ concat rest)), snd (buffer_lines (b @ concat rest)))"
    using buffer_lines_append[OF nf(1), of "concat rest"] lb cat by simp
  have b: "LF \<notin> set b" "nul_free b" using buffer_lines_rest[OF nf(1)] lb by simp_all
  have "mesh_receive b rest = fst (buffer_lines (b @ concat rest))"
    unfolding rest_def
  proof (rule "2.IH"[OF refl nr_def nr])
    show "(ls, b) = buffer_lines (buf @ take nr chunk)" using lb by simp
    show "LF \<notin> set b" by (rule b)
    show "nul_free (b @ concat (if nr < length chunk then drop nr chunk # chunks else chunks))"
      using b nf(2) unfolding rest_def by simp
    show "short_lines (b @ concat (if nr < length chunk then drop nr chunk # chunks else chunks))"
      using "2.prems"(3) split unfolding short_lines_def rest_def by auto
    show "[] \<notin> set (if nr < length chunk then drop nr chunk # chunks else chunks)"
      using "2.prems"(4) by auto
  qed
  moreover have "mesh_receive buf (chunk # chunks) = ls @ mesh_receive b rest"
    unfolding rest_def
    by (subst mesh_receive.simps(2)) (simp only: Let_def nr_def[symmetric] nr if_False lb prod.case)
  ultimately show ?case using split by simp
qed

section \<open>One message there and back\<close>

lemma mesh_message_value:
  "mesh_message i src dst act resp payload =
    JSON_OBJECT [(''mesh'', JSON_STRING ''1.0''), (''id'', JSON_NUMBER (double_of_int i)), (''src'', JSON_STRING src),
      (''dst'', JSON_STRING dst), (''action'', JSON_STRING act), (''resp'', JSON_BOOL resp), (''payload'', payload)]"
  by (simp add: mesh_message_def json_create_object_def json_create_string_def json_create_number_def
      json_create_bool_def Let_def)

lemma mesh_message_ok:
  assumes "nul_free src" "nul_free dst" "nul_free act" "json_ok payload" "jdepth payload < JSON_MAX_DEPTH" "n < 2 ^ 31"
  shows "json_ok (mesh_message (int n) src dst act resp payload)"
    "jdepth (mesh_message (int n) src dst act resp payload) \<le> JSON_MAX_DEPTH"
  using assms by (simp_all add: mesh_message_value)

lemma mesh_line_received:
  assumes "json_ok v" "length (mesh_line v) < MESH_BUF"
  shows "mesh_receive [] [mesh_line v] = [json_text v]"
proof -
  have l: "LF \<notin> set (json_text v)" "nul_free (json_text v)"
    using json_text_no_lf json_text_no_nul[OF assms(1)] by simp_all
  have b: "buffer_lines (json_text v @ [LF]) = ([json_text v], [])"
    using buffer_lines_line[OF l, of "[]"] by (simp add: buffer_lines_none)
  have "mesh_receive [] [json_text v @ [LF]] = fst (buffer_lines ([] @ concat [json_text v @ [LF]]))"
    using l assms(2) b by (intro receive_all) (auto simp: short_lines_def mesh_line_def MESH_BUF_def)
  with b show ?thesis by (simp add: mesh_line_def)
qed

lemma handle_request:
  assumes "json_ok (mesh_message (int n) src dst act False payload)"
    "jdepth (mesh_message (int n) src dst act False payload) \<le> JSON_MAX_DEPTH" "n < 2 ^ 31"
    and "act \<noteq> ''ping''" "handler b = Some f"
    and "f \<lparr>msg_source = copied63 src, msg_target = copied63 dst, msg_action = copied63 act,
            msg_payload = Some (json_text payload), msg_request_id = int n\<rparr> w = (reply, w')"
  shows "mesh_handle_incoming_line (json_text (mesh_message (int n) src dst act False payload)) b w =
    Some (b, mesh_line (handler_reply (agent_name b) (int n) (Some src) (Some act) reply), w')"
proof -
  let ?v = "mesh_message (int n) src dst act False payload"
  have ne: "json_text ?v \<noteq> []" using json_text_head[OF assms(1)] by auto
  have p: "json_parse (Some (json_text ?v)) = Some ?v" by (rule json_parse_text[OF assms(1,2)])
  have "int_of_double (json_obj_get_num (Some ?v) ''id'' (double_of_int 0)) = Some (int n)"
    using assms(3) by (simp add: mesh_message_value json_obj_get_num_def json_obj_get_def)
  with ne p assms(4-6) show ?thesis
    by (simp add: mesh_handle_incoming_line_def Let_def or_else_def mesh_message_value json_obj_get_def
        json_obj_get_str_def json_obj_get_bool_def)
qed

lemma handle_reply:
  assumes "json_ok (mesh_message (int n) src dst act True payload)"
    "jdepth (mesh_message (int n) src dst act True payload) \<le> JSON_MAX_DEPTH" "n < 2 ^ 31"
  shows "mesh_handle_incoming_line (json_text (mesh_message (int n) src dst act True payload)) a w =
    Some (response_arrives (int n) (Some (json_text payload)) a, [], w)"
proof -
  let ?v = "mesh_message (int n) src dst act True payload"
  have ne: "json_text ?v \<noteq> []" using json_text_head[OF assms(1)] by auto
  have p: "json_parse (Some (json_text ?v)) = Some ?v" by (rule json_parse_text[OF assms(1,2)])
  have "int_of_double (json_obj_get_num (Some ?v) ''id'' (double_of_int 0)) = Some (int n)"
    using assms(3) by (simp add: mesh_message_value json_obj_get_num_def json_obj_get_def)
  with ne p show ?thesis
    by (simp add: mesh_handle_incoming_line_def Let_def mesh_message_value json_obj_get_def json_obj_get_bool_def)
qed

text \<open>What a peer writes when it receives some bytes, and what the node does with bytes it receives.\<close>

definition peer_writes :: "'w AgentMesh \<Rightarrow> 'w \<Rightarrow> cstr \<Rightarrow> cstr" where
  "peer_writes b w bytes =
     (case mesh_handle_lines (mesh_receive [] [bytes]) b w of Some (_, out, _) \<Rightarrow> out | None \<Rightarrow> [])"

definition node_reads :: "'w \<Rightarrow> cstr \<Rightarrow> 'w AgentMesh \<Rightarrow> 'w AgentMesh" where
  "node_reads w bytes a =
     (case mesh_handle_lines (mesh_receive [] [bytes]) a w of Some (a', _, _) \<Rightarrow> a' | None \<Rightarrow> a)"

text \<open>A consultation gets its answer: between two nodes that run this code, the caller of
  \<open>agent_mesh_consult\<close> receives the JSON text of exactly the string the peer's handler returned for
  the query, provided both lines fit the 4096-byte buffers of the readers.\<close>

theorem consult_roundtrip:
  fixes a b :: "'w AgentMesh" and query :: "cstr option"
  defines "v \<equiv> request_payload_value query"
  assumes "peer_fd a" "next_msg_id a = int n" "n < 2 ^ 31" "nul_free (agent_name a)" "nul_free (agent_name b)"
    and "nul_free tgt" "nul_free act" "act \<noteq> ''ping''" "json_ok v" "jdepth v < JSON_MAX_DEPTH"
    and "handler b = Some f"
    and "f \<lparr>msg_source = copied63 (agent_name a), msg_target = copied63 tgt, msg_action = copied63 act,
            msg_payload = Some (json_text v), msg_request_id = int n\<rparr> w = (Some reply, w')" "nul_free reply"
    and "length (mesh_line (mesh_request (agent_name a) (int n) (Some tgt) (Some act) query)) < MESH_BUF"
    and "length (mesh_line (handler_reply (agent_name b) (int n) (Some (agent_name a)) (Some act) (Some reply))) < MESH_BUF"
  shows "fst (agent_mesh_consult reconnect True (\<lambda>out m. node_reads w (peer_writes b w out) m) (Some tgt) (Some act) query a) =
    Some (json_text (JSON_STRING reply))"
proof -
  let ?q = "mesh_message (int n) (agent_name a) tgt act False v"
  let ?r = "mesh_message (int n) (agent_name b) (agent_name a) act True (JSON_STRING reply)"
  have q: "mesh_request (agent_name a) (int n) (Some tgt) (Some act) query = ?q"
    by (simp add: mesh_request_def v_def or_else_def)
  have r: "handler_reply (agent_name b) (int n) (Some (agent_name a)) (Some act) (Some reply) = ?r"
    by (simp add: handler_reply_def or_else_def json_create_string_def)
  note qok = mesh_message_ok[OF assms(5,7,8,10,11,4), of False]
  have rok: "json_ok ?r" "jdepth ?r \<le> JSON_MAX_DEPTH"
    using mesh_message_ok[of "agent_name b" "agent_name a" act "JSON_STRING reply" n True] assms(4,5,6,8,14)
    by (simp_all add: JSON_MAX_DEPTH_def)
  have pw: "peer_writes b w (mesh_line ?q) = mesh_line ?r"
    using mesh_line_received[OF qok(1)] assms(15) handle_request[OF qok assms(4,9,12,13)]
    by (simp add: peer_writes_def prepend_out_def q r)
  have nr: "node_reads w (mesh_line ?r) m = response_arrives (int n) (Some (json_text (JSON_STRING reply))) m" for m
    using mesh_line_received[OF rok(1)] assms(16)
    by (simp add: node_reads_def prepend_out_def r handle_reply[OF rok assms(4)])
  show ?thesis
    using assms(2,3)
    by (simp add: agent_mesh_consult_def consult_connect_def agent_mesh_send_def consult_begin_def q pw nr Let_def
        response_arrives_def or_else_def consult_finish_def)
qed

definition echo_handler :: "AgentMeshMessage \<Rightarrow> nat \<Rightarrow> cstr option \<times> nat" where
  "echo_handler msg n = (Some ''got it'', n + 1)"

definition node_a :: "nat AgentMesh" where
  "node_a = snd (agent_mesh_start \<lparr>can_connect = True, can_listen = True\<rparr> (agent_mesh_init (Some ''belya'') None))"

definition node_b :: "nat AgentMesh" where
  "node_b = agent_mesh_set_handler (Some echo_handler) (agent_mesh_init (Some ''almaz'') None)"

lemma node_fields:
  "peer_fd node_a" "next_msg_id node_a = 1" "agent_name node_a = ''belya''" "agent_name node_b = ''almaz''"
  "handler node_b = Some echo_handler"
  by (simp_all add: node_a_def node_b_def agent_mesh_start_def agent_mesh_init_def agent_mesh_set_handler_def or_else_def)

theorem consult_roundtrip_witness:
  "fst (agent_mesh_consult False True (\<lambda>out m. node_reads 0 (peer_writes node_b 0 out) m) (Some ''almaz'') (Some ''ask'') None node_a) =
    Some (json_text (JSON_STRING ''got it''))"
proof (rule consult_roundtrip[where n = 1 and f = echo_handler and w' = 1], goal_cases)
  case 14
  have n: "number_text (double_of_nat 1) = dec_text 1" by (rule number_text_nat) simp
  show ?case
    using n by (simp add: node_fields mesh_line_def mesh_request_def request_payload_value_def nonempty_def json_create_object_def
        mesh_message_value or_else_def json_text_def quoted_pieces_def escape_char_def byte_def MESH_BUF_def
        double_of_int_nat[of 1, simplified] dec_text.simps)
next
  case 15
  have n: "number_text (double_of_nat 1) = dec_text 1" by (rule number_text_nat) simp
  show ?case
    using n by (simp add: node_fields mesh_line_def handler_reply_def json_create_string_def
        mesh_message_value or_else_def json_text_def quoted_pieces_def escape_char_def byte_def MESH_BUF_def
        double_of_int_nat[of 1, simplified] dec_text.simps)
qed (simp_all add: node_fields request_payload_value_def nonempty_def json_create_object_def echo_handler_def JSON_MAX_DEPTH_def)

lemma buffer_lines_messages:
  "\<forall>v \<in> set ms. json_ok v \<Longrightarrow> buffer_lines (concat (map mesh_line ms)) = (map json_text ms, [])"
proof (induction ms)
  case Nil
  then show ?case by (simp add: buffer_lines_none)
next
  case (Cons v ms)
  then show ?case
    using buffer_lines_line[OF json_text_no_lf json_text_no_nul, of v "concat (map mesh_line ms)"]
    by (simp add: mesh_line_def[of v])
qed

text \<open>The framing delivers exactly the messages that were sent, one by one and in order, however
  the socket cuts the bytes into reads, provided each line with its end fits the reader's buffer.\<close>

theorem framing_delivers_messages:
  assumes "concat chunks = concat (map mesh_line ms)" "[] \<notin> set chunks"
    and "\<forall>v \<in> set ms. json_ok v \<and> length (mesh_line v) < MESH_BUF"
  shows "mesh_receive [] chunks = map json_text ms"
proof -
  have b: "buffer_lines (concat (map mesh_line ms)) = (map json_text ms, [])"
    using assms(3) by (intro buffer_lines_messages) blast
  have "nul_free (concat (map mesh_line ms))"
    using assms(3) json_text_no_nul by (induction ms) (auto simp: mesh_line_def)
  moreover have "short_lines (concat (map mesh_line ms))"
    using assms(3) by (auto simp: short_lines_def b mesh_line_def MESH_BUF_def)
  ultimately show ?thesis using receive_all[of "[]" chunks] assms(1,2) b by simp
qed

theorem framing_delivers_messages_witness:
  "mesh_receive [] [''{'', ''}'' @ [LF] @ ''nu'', ''ll'' @ [LF]] = map json_text [JSON_OBJECT [], JSON_NULL]"
  by (rule framing_delivers_messages) (simp_all add: mesh_line_def json_text_def MESH_BUF_def)

section \<open>Threads and the pending slot\<close>

text \<open>The invariant of the slot, and of the threads when their consultations do not overlap.\<close>

definition slot_inv :: "'w mesh_system \<Rightarrow> bool" where
  "slot_inv s \<longleftrightarrow> (\<forall>p. pending_response (the_mesh s) = Some p \<longrightarrow>
     pending_arrived (the_mesh s) \<and> (pending_req_id (the_mesh s), p) \<in> set (answers s))"

definition turn_inv :: "'w mesh_system \<Rightarrow> bool" where
  "turn_inv s \<longleftrightarrow>
     (\<forall>t u. busy (consulters s t) \<and> busy (consulters s u) \<longrightarrow> t = u) \<and>
     (\<forall>t. consulters s t = Begun \<longrightarrow> pending_req_id (the_mesh s) = next_msg_id (the_mesh s)) \<and>
     (\<forall>t i. consulters s t = Waiting i \<longrightarrow> pending_req_id (the_mesh s) = i) \<and>
     (\<forall>t i p. consulters s t = Finished i (Some p) \<longrightarrow> (i, p) \<in> set (answers s))"

lemma send_frame:
  "agent_mesh_send wr a b c m = (ok, i, out, m') \<Longrightarrow>
    pending_response m' = pending_response m \<and> pending_arrived m' = pending_arrived m \<and> pending_req_id m' = pending_req_id m \<and>
    (ok \<longrightarrow> i = next_msg_id m)"
  by (auto simp: agent_mesh_send_def Let_def split: if_splits)

lemma busy_simps [simp]: "\<not> busy Idle" "busy Begun" "busy (Waiting i)" "\<not> busy (Finished i r)"
  by (simp_all add: busy_def)

lemma slot_inv_step:
  assumes "slot_inv s" "mesh_step s s'"
  shows "slot_inv s'"
  using assms(2)
proof cases
  case (Connect ok)
  with assms(1) show ?thesis by (simp add: slot_inv_def consult_connect_def)
next
  case Accept
  with assms(1) show ?thesis by (simp add: slot_inv_def)
next
  case Lose
  with assms(1) show ?thesis by (simp add: slot_inv_def)
next
  case (Offline t i r)
  with assms(1) show ?thesis by (simp add: slot_inv_def)
next
  case (Begin t i r)
  then show ?thesis by (simp add: slot_inv_def consult_begin_def)
next
  case (Send t a b c i out m)
  with assms(1) send_frame[OF Send(3)] show ?thesis by (simp add: slot_inv_def)
next
  case (SendFails t wr a b c i out m)
  with assms(1) send_frame[OF SendFails(3)] show ?thesis by (simp add: slot_inv_def)
next
  case (Notify wr a b c ok i out m)
  with assms(1) send_frame[OF Notify(2)] show ?thesis by (simp add: slot_inv_def)
next
  case (Arrive i p)
  with assms(1) show ?thesis by (auto simp: slot_inv_def response_arrives_def)
next
  case (Finish t i r m)
  with assms(1) show ?thesis by (auto simp: slot_inv_def consult_finish_def split: if_splits)
qed

lemma turn_inv_alone:
  assumes "turn_inv s" "\<And>u. u \<noteq> t \<Longrightarrow> \<not> busy (consulters s u)" "consulters s' = (consulters s)(t := c)" "answers s' = answers s"
    and "c = Begun \<Longrightarrow> pending_req_id (the_mesh s') = next_msg_id (the_mesh s')"
    and "\<And>i. c = Waiting i \<Longrightarrow> pending_req_id (the_mesh s') = i"
    and "\<And>i p. c = Finished i (Some p) \<Longrightarrow> (i, p) \<in> set (answers s)"
  shows "turn_inv s'"
proof -
  have o: "consulters s u \<noteq> Begun" "consulters s u \<noteq> Waiting i" if "u \<noteq> t" for u i
    using assms(2)[OF that] by (auto simp: busy_def)
  have "u = t" if "busy (consulters s' u)" for u
    using that assms(2)[of u] by (auto simp: assms(3) split: if_splits)
  moreover have "consulters s' u = Finished i (Some p) \<Longrightarrow> (i, p) \<in> set (answers s')" for u i p
    using assms(1,4,7) by (auto simp: assms(3) turn_inv_def split: if_splits)
  moreover have "consulters s' u = Begun \<Longrightarrow> pending_req_id (the_mesh s') = next_msg_id (the_mesh s')" for u
    using assms(5) o by (auto simp: assms(3) split: if_splits)
  moreover have "consulters s' u = Waiting i \<Longrightarrow> pending_req_id (the_mesh s') = i" for u i
    using assms(6) o by (auto simp: assms(3) split: if_splits)
  ultimately show ?thesis unfolding turn_inv_def by blast
qed

lemma turn_inv_step:
  assumes "turn_inv s" "slot_inv s" "mesh_step s s'"
    and ex: "\<forall>t u. busy (consulters s' t) \<and> busy (consulters s' u) \<longrightarrow> t = u"
    and nx: "\<forall>t. consulters s t = Begun \<and> consulters s' t = Begun \<longrightarrow> next_msg_id (the_mesh s') = next_msg_id (the_mesh s)"
  shows "turn_inv s'"
  using assms(3)
proof cases
  case (Connect ok)
  with assms(1) show ?thesis by (simp add: turn_inv_def consult_connect_def)
next
  case Accept
  with assms(1) show ?thesis by (simp add: turn_inv_def)
next
  case Lose
  with assms(1) show ?thesis by (simp add: turn_inv_def)
next
  case (Offline t i r)
  then have t: "\<not> busy (consulters s t)" by (auto simp: busy_def)
  show ?thesis
  proof (cases "\<exists>u. busy (consulters s u)")
    case True
    then obtain u where u: "busy (consulters s u)" "u \<noteq> t" using t by blast
    with assms(1) t show ?thesis unfolding Offline(1) turn_inv_def by (auto simp: busy_def)
  next
    case False
    then show ?thesis
      by (intro turn_inv_alone[OF assms(1), where t = t and c = "Finished 0 None"]) (auto simp: Offline(1))
  qed
next
  case (Begin t i r)
  have "\<not> busy (consulters s u)" if "u \<noteq> t" for u
  proof
    assume "busy (consulters s u)"
    then have "busy (consulters s' u) \<and> busy (consulters s' t)" using Begin(1) that by simp
    with ex that show False by blast
  qed
  then show ?thesis
    by (rule turn_inv_alone[OF assms(1), where t = t and c = Begun]) (auto simp: Begin(1) consult_begin_def)
next
  case (Send t a b c i out m)
  have "\<not> busy (consulters s u)" if "u \<noteq> t" for u
    using assms(1) Send(2) that unfolding turn_inv_def by (metis busy_simps(2))
  moreover have "pending_req_id m = i"
    using assms(1) Send(2) send_frame[OF Send(3)] by (auto simp: turn_inv_def)
  ultimately show ?thesis
    by (intro turn_inv_alone[OF assms(1), where t = t and c = "Waiting i"]) (auto simp: Send(1))
next
  case (SendFails t wr a b c i out m)
  have "\<not> busy (consulters s u)" if "u \<noteq> t" for u
    using assms(1) SendFails(2) that unfolding turn_inv_def by (metis busy_simps(2))
  then show ?thesis
    by (rule turn_inv_alone[OF assms(1), where t = t and c = "Finished i None"]) (auto simp: SendFails(1))
next
  case (Notify wr a b c ok i out m)
  with assms(1) nx send_frame[OF Notify(2)] show ?thesis by (auto simp: turn_inv_def)
next
  case (Arrive i p)
  with assms(1) show ?thesis by (auto simp: turn_inv_def response_arrives_def)
next
  case (Finish t i r m)
  have o: "\<not> busy (consulters s u)" if "u \<noteq> t" for u
    using assms(1) Finish(2) that unfolding turn_inv_def by (metis busy_simps(3))
  have w: "pending_req_id (the_mesh s) = i" using assms(1) Finish(2) by (simp add: turn_inv_def)
  have "(i, p) \<in> set (answers s)" if "r = Some p" for p
    using Finish(3) that assms(2) w by (auto simp: slot_inv_def consult_finish_def split: if_splits)
  then show ?thesis
    by (intro turn_inv_alone[OF assms(1), where t = t and c = "Finished i r"] o) (auto simp: Finish(1))
qed

lemma exclusive_inv: "exclusive_reachable m s \<Longrightarrow> pending_response m = None \<Longrightarrow> slot_inv s \<and> turn_inv s"
proof (induction rule: exclusive_reachable.induct)
  case Start
  then show ?case by (simp add: slot_inv_def turn_inv_def mesh_idle_def)
next
  case (Step s s')
  then show ?case using slot_inv_step turn_inv_step by blast
qed

text \<open>C29: As long as consultations do not overlap, a consultation that returns a payload returns one
  that arrived in a response with the id of its own request: replies to earlier requests that timed
  out, unsolicited responses and replies to plain sends are never mistaken for its answer.\<close>

theorem consult_answers_match:
  assumes "exclusive_reachable m s" "pending_response m = None" "consulters s t = Finished i (Some p)"
  shows "(i, p) \<in> set (answers s)"
  using exclusive_inv[OF assms(1,2)] assms(3) by (simp add: turn_inv_def)

lemma send_connected:
  "peer_fd m \<Longrightarrow> agent_mesh_send True a b c m =
    (True, next_msg_id m, mesh_line (mesh_request (agent_name m) (next_msg_id m) a b c), m\<lparr>next_msg_id := next_msg_id m + 1\<rparr>)"
  by (simp add: agent_mesh_send_def Let_def)

lemma exclusive_one:
  assumes "exclusive_reachable m s" "mesh_step s s'" "\<And>u. u \<noteq> t \<Longrightarrow> \<not> busy (consulters s' u)"
    and "next_msg_id (the_mesh s') = next_msg_id (the_mesh s) \<or> (\<forall>u. consulters s' u \<noteq> Begun)"
  shows "exclusive_reachable m s'"
proof (rule exclusive_reachable.Step[OF assms(1,2)])
  show "\<forall>u v. busy (consulters s' u) \<and> busy (consulters s' v) \<longrightarrow> u = v" using assms(3) by metis
  show "\<forall>u. consulters s u = Begun \<and> consulters s' u = Begun \<longrightarrow> next_msg_id (the_mesh s') = next_msg_id (the_mesh s)"
    using assms(4) by blast
qed

lemma single_consult_run:
  fixes m :: "'w AgentMesh"
  assumes "peer_fd m" "next_msg_id m = 1"
  shows "\<exists>s. exclusive_reachable m s \<and> consulters s 0 = Finished 1 (Some p)"
proof -
  define c0 :: "nat \<Rightarrow> consulter" where "c0 = (\<lambda>_. Idle)"
  define m1 where "m1 = consult_begin m"
  define m2 where "m2 = m1\<lparr>next_msg_id := 2\<rparr>"
  define m3 where "m3 = response_arrives 1 (Some p) m2"
  define m4 where "m4 = snd (consult_finish m3)"
  define S where "S = (\<lambda>(x :: 'w AgentMesh) c a. \<lparr>the_mesh = x, consulters = c, answers = a\<rparr>)"
  have n: "next_msg_id m1 = 1" "peer_fd m1" "next_msg_id m1 = next_msg_id m" "next_msg_id m3 = next_msg_id m2"
    using assms by (simp_all add: m3_def m2_def m1_def consult_begin_def response_arrives_def)
  have s0: "exclusive_reachable m (S m c0 [])"
    using exclusive_reachable.Start[of m] by (simp add: mesh_idle_def S_def c0_def)
  have "mesh_step (S m c0 []) (S m1 (c0(0 := Begun)) [])"
    using mesh_step.Begin[of "S m c0 []" 0] by (simp add: S_def c0_def m1_def)
  then have s1: "exclusive_reachable m (S m1 (c0(0 := Begun)) [])"
    by (rule exclusive_one[OF s0, where t = 0]) (simp_all add: S_def c0_def n m1_def consult_begin_def)
  have "mesh_step (S m1 (c0(0 := Begun)) []) (S m2 (c0(0 := Waiting 1)) [])"
    using mesh_step.Send[of "S m1 (c0(0 := Begun)) []" 0 None None None, OF _ send_connected] n
    by (simp add: MSG_ID_MAX_def S_def m2_def)
  then have s2: "exclusive_reachable m (S m2 (c0(0 := Waiting 1)) [])"
    by (rule exclusive_one[OF s1, where t = 0]) (simp_all add: S_def c0_def)
  have "mesh_step (S m2 (c0(0 := Waiting 1)) []) (S m3 (c0(0 := Waiting 1)) [(1, p)])"
    using mesh_step.Arrive[of "S m2 (c0(0 := Waiting 1)) []" 1 "Some p"] by (simp add: S_def m3_def or_else_def)
  then have s3: "exclusive_reachable m (S m3 (c0(0 := Waiting 1)) [(1, p)])"
    by (rule exclusive_one[OF s2, where t = 0]) (simp_all add: S_def c0_def n)
  have f: "consult_finish m3 = (Some p, m4)"
    using assms(2) by (simp add: m4_def m3_def m2_def m1_def consult_begin_def response_arrives_def consult_finish_def or_else_def)
  have "mesh_step (S m3 (c0(0 := Waiting 1)) [(1, p)]) (S m4 (c0(0 := Finished 1 (Some p))) [(1, p)])"
    using mesh_step.Finish[of "S m3 (c0(0 := Waiting 1)) [(1, p)]" 0 1] f by (simp add: S_def)
  then have "exclusive_reachable m (S m4 (c0(0 := Finished 1 (Some p))) [(1, p)])"
    by (rule exclusive_one[OF s3, where t = 0]) (simp_all add: S_def c0_def)
  then show ?thesis by (fastforce simp: S_def)
qed

theorem consult_answers_match_witness:
  "\<exists>s. exclusive_reachable node_a s \<and> consulters s 0 = Finished 1 (Some ''x'') \<and> (1, ''x'') \<in> set (answers s)"
proof -
  have p: "pending_response node_a = None" by (simp add: node_a_def agent_mesh_start_def agent_mesh_init_def)
  obtain s where "exclusive_reachable node_a s" "consulters s 0 = Finished 1 (Some ''x'')"
    using single_consult_run[OF node_fields(1,2), of "''x''"] by blast
  with consult_answers_match[OF _ p, of s 0 1 "''x''"] show ?thesis by blast
qed

text \<open>Two overlapping consultations: both put the same next id into the slot before either sends.\<close>

lemma overlapping_consults_run:
  fixes m :: "'w AgentMesh"
  assumes "peer_fd m" "next_msg_id m = 1"
  shows "\<exists>s. mesh_reachable m s \<and> consulters s 1 = Finished 2 (Some p) \<and> consulters s 0 = Waiting 1 \<and> answers s = [(1, p)] \<and>
    pending_req_id (the_mesh s) = 0"
proof -
  define c0 :: "nat \<Rightarrow> consulter" where "c0 = (\<lambda>_. Idle)"
  define m1 where "m1 = consult_begin m"
  define m2 where "m2 = consult_begin m1"
  define m3 where "m3 = m2\<lparr>next_msg_id := 2\<rparr>"
  define m4 where "m4 = m3\<lparr>next_msg_id := 3\<rparr>"
  define m5 where "m5 = response_arrives 1 (Some p) m4"
  define m6 where "m6 = snd (consult_finish m5)"
  define S where "S = (\<lambda>(x :: 'w AgentMesh) c a. \<lparr>the_mesh = x, consulters = c, answers = a\<rparr>)"
  have n: "next_msg_id m2 = 1" "peer_fd m2" "next_msg_id m3 = 2" "peer_fd m3"
    using assms by (simp_all add: m3_def m2_def m1_def consult_begin_def)
  have s0: "mesh_reachable m (S m c0 [])" using mesh_reachable.Start[of m] by (simp add: mesh_idle_def S_def c0_def)
  have "mesh_step (S m c0 []) (S m1 (c0(0 := Begun)) [])"
    using mesh_step.Begin[of "S m c0 []" 0] by (simp add: S_def c0_def m1_def)
  then have s1: "mesh_reachable m (S m1 (c0(0 := Begun)) [])" using s0 mesh_reachable.Step by blast
  have "mesh_step (S m1 (c0(0 := Begun)) []) (S m2 (c0(0 := Begun, 1 := Begun)) [])"
    using mesh_step.Begin[of "S m1 (c0(0 := Begun)) []" 1] by (simp add: S_def c0_def m2_def)
  then have s2: "mesh_reachable m (S m2 (c0(0 := Begun, 1 := Begun)) [])" using s1 mesh_reachable.Step by blast
  have "mesh_step (S m2 (c0(0 := Begun, 1 := Begun)) []) (S m3 ((c0(0 := Begun, 1 := Begun))(0 := Waiting 1)) [])"
    using mesh_step.Send[of "S m2 (c0(0 := Begun, 1 := Begun)) []" 0 None None None, OF _ send_connected] n
    by (simp add: MSG_ID_MAX_def S_def m3_def)
  then have s3: "mesh_reachable m (S m3 ((c0(0 := Begun, 1 := Begun))(0 := Waiting 1)) [])"
    using s2 mesh_reachable.Step by blast
  have "mesh_step (S m3 ((c0(0 := Begun, 1 := Begun))(0 := Waiting 1)) [])
      (S m4 ((c0(0 := Begun, 1 := Begun))(0 := Waiting 1, 1 := Waiting 2)) [])"
    using mesh_step.Send[of "S m3 ((c0(0 := Begun, 1 := Begun))(0 := Waiting 1)) []" 1 None None None, OF _ send_connected] n
    by (simp add: MSG_ID_MAX_def S_def m4_def)
  then have s4: "mesh_reachable m (S m4 ((c0(0 := Begun, 1 := Begun))(0 := Waiting 1, 1 := Waiting 2)) [])"
    using s3 mesh_reachable.Step by blast
  have "mesh_step (S m4 ((c0(0 := Begun, 1 := Begun))(0 := Waiting 1, 1 := Waiting 2)) [])
      (S m5 ((c0(0 := Begun, 1 := Begun))(0 := Waiting 1, 1 := Waiting 2)) [(1, p)])"
    using mesh_step.Arrive[of "S m4 ((c0(0 := Begun, 1 := Begun))(0 := Waiting 1, 1 := Waiting 2)) []" 1 "Some p"]
    by (simp add: S_def m5_def or_else_def)
  then have s5: "mesh_reachable m (S m5 ((c0(0 := Begun, 1 := Begun))(0 := Waiting 1, 1 := Waiting 2)) [(1, p)])"
    using s4 mesh_reachable.Step by blast
  have f: "consult_finish m5 = (Some p, m6)" "pending_req_id m6 = 0"
    using assms(2) by (simp_all add: m6_def m5_def m4_def m3_def m2_def m1_def consult_begin_def response_arrives_def
        consult_finish_def or_else_def)
  have "mesh_step (S m5 ((c0(0 := Begun, 1 := Begun))(0 := Waiting 1, 1 := Waiting 2)) [(1, p)])
      (S m6 (((c0(0 := Begun, 1 := Begun))(0 := Waiting 1, 1 := Waiting 2))(1 := Finished 2 (Some p))) [(1, p)])"
    using mesh_step.Finish[of "S m5 ((c0(0 := Begun, 1 := Begun))(0 := Waiting 1, 1 := Waiting 2)) [(1, p)]" 1 2] f
    by (simp add: S_def)
  then have "mesh_reachable m
      (S m6 (((c0(0 := Begun, 1 := Begun))(0 := Waiting 1, 1 := Waiting 2))(1 := Finished 2 (Some p))) [(1, p)])"
    using s5 mesh_reachable.Step by blast
  then show ?thesis using f(2) by (fastforce simp: S_def)
qed

text \<open>When two consultations overlap, one caller can be given the answer to the other's request
  and the other waits in vain: both put the same next id into the only slot before either request is
  sent.\<close>

theorem overlapping_consults_cross:
  assumes "peer_fd m" "next_msg_id m = 1"
  shows "\<exists>s. mesh_reachable m s \<and> consulters s 1 = Finished 2 (Some p) \<and> consulters s 0 = Waiting 1 \<and> answers s = [(1, p)] \<and>
    pending_req_id (the_mesh s) = 0"
  by (rule overlapping_consults_run[OF assms])

theorem overlapping_consults_cross_witness:
  "\<exists>s. mesh_reachable node_a s \<and> consulters s 1 = Finished 2 (Some ''x'') \<and> answers s = [(1, ''x'')]"
  using overlapping_consults_cross[OF node_fields(1,2), of "''x''"] by blast

section \<open>What the mesh does not promise\<close>

text \<open>A line that fills the buffer makes the reader close the connection; nothing behind it is read.\<close>

lemma overlong_line_closes:
  assumes "length chunk = MESH_BUF - 1" "LF \<notin> set chunk"
  shows "mesh_receive [] (chunk # next # chunks) = []"
  using assms by (simp add: mesh_receive.simps(2) buffer_lines_none Let_def MESH_BUF_def)

text \<open>Releasing a mesh whose start failed joins a thread that was never created.\<close>

lemma free_without_start_is_undefined:
  "agent_mesh_free (snd (agent_mesh_start \<lparr>can_connect = False, can_listen = False\<rparr> (agent_mesh_init name path))) = None"
  by (simp add: agent_mesh_free_def agent_mesh_stop_def agent_mesh_start_def agent_mesh_init_def)

text \<open>A source name of 63 bytes or more reaches the handler without a terminator.\<close>

lemma long_names_unterminated: "63 \<le> length s \<Longrightarrow> copied63 s = None"
  by (simp add: copied63_def)

end
