(* ===== verification/LspClient.thy ===== *)
theory LspClient
  imports JsonInt
begin

text \<open>
  The language server client, \<open>lsp_client.c\<close>: the choice of the server, the Content-Length framing,
  the handshake and the requests, and the diagnostics report that the harness puts behind an edit, with
  the tool \<open>lsp_query\<close> of \<open>belya_harness.c\<close>.

  The server is what it writes: its output is a list of events, bytes and silences, where a silence is a
  wait longer than the timeout of the \<open>poll\<close> that meets it; behind the last event is end of file. The
  bytes written to the server are collected in \<open>lsp_stdin\<close>; \<open>lsp_writable\<close> says whether the writes
  succeed. Starting a process and reading the opened file are parameters. A cast of a number that an
  \<open>int\<close> cannot hold, and a read behind an array, are \<open>None\<close>.
\<close>

datatype LspServerType = LSP_SERVER_NONE | LSP_SERVER_CLANGD | LSP_SERVER_PYRIGHT | LSP_SERVER_RUST_ANALYZER
  | LSP_SERVER_GOPLS | LSP_SERVER_TYPESCRIPT | LSP_SERVER_CUSTOM

datatype lsp_event = Data char | Silence

record LspClient =
  lsp_stdin :: cstr
  lsp_writable :: bool
  lsp_stdout :: "lsp_event list"
  root_dir :: cstr
  next_request_id :: int
  lsp_initialized :: bool
  server_type :: LspServerType

section \<open>The choice of the server\<close>

definition lsp_detect_server_for_file :: "cstr option \<Rightarrow> LspServerType" where
  "lsp_detect_server_for_file file_path =
     (case file_path of None \<Rightarrow> LSP_SERVER_NONE
      | Some f \<Rightarrow>
          case strrchr f (CHR ''.'') of None \<Rightarrow> LSP_SERVER_NONE
          | Some ext \<Rightarrow>
              if ext \<in> {''.c'', ''.h'', ''.cpp'', ''.cc'', ''.cxx'', ''.hpp''} then LSP_SERVER_CLANGD
              else if ext = ''.py'' then LSP_SERVER_PYRIGHT
              else if ext = ''.rs'' then LSP_SERVER_RUST_ANALYZER
              else if ext = ''.go'' then LSP_SERVER_GOPLS
              else if ext \<in> {''.ts'', ''.tsx'', ''.js'', ''.jsx''} then LSP_SERVER_TYPESCRIPT
              else LSP_SERVER_NONE)"

definition lsp_server_command :: "LspServerType \<Rightarrow> cstr option" where
  "lsp_server_command t =
     (case t of LSP_SERVER_CLANGD \<Rightarrow> Some ''clangd''
      | LSP_SERVER_PYRIGHT \<Rightarrow> Some ''pyright-langserver''
      | LSP_SERVER_RUST_ANALYZER \<Rightarrow> Some ''rust-analyzer''
      | LSP_SERVER_GOPLS \<Rightarrow> Some ''gopls''
      | LSP_SERVER_TYPESCRIPT \<Rightarrow> Some ''typescript-language-server''
      | _ \<Rightarrow> None)"

text \<open>\<open>lsp_client_spawn\<close>, given whether the binary is found and the process starts, the working
  directory if \<open>getcwd\<close> knows it, and what the server will write.\<close>

definition lsp_client_spawn ::
    "bool \<Rightarrow> cstr option \<Rightarrow> lsp_event list \<Rightarrow> LspServerType \<Rightarrow> cstr option \<Rightarrow> LspClient option" where
  "lsp_client_spawn started cwd out type dir =
     (case lsp_server_command type of None \<Rightarrow> None
      | Some cmd \<Rightarrow>
          if \<not> started then None
          else Some \<lparr>lsp_stdin = [], lsp_writable = True, lsp_stdout = out,
            root_dir = take 1023 (case dir of Some d \<Rightarrow> d | None \<Rightarrow> (case cwd of Some d \<Rightarrow> d | None \<Rightarrow> ''.'')),
            next_request_id = 1, lsp_initialized = False, server_type = type\<rparr>)"

section \<open>Framing\<close>

definition lsp_frame :: "cstr \<Rightarrow> cstr" where
  "lsp_frame payload = ''Content-Length: '' @ dec_text (length payload) @ [CR, LF, CR, LF] @ payload"

definition lsp_send_payload :: "cstr \<Rightarrow> LspClient \<Rightarrow> bool \<times> LspClient" where
  "lsp_send_payload payload c =
     (if lsp_writable c then (True, c\<lparr>lsp_stdin := lsp_stdin c @ lsp_frame payload\<rparr>) else (False, c))"

text \<open>
  The header is read byte by byte until a blank line or until 1023 bytes are read; \<open>header\<close> is what
  was read, \<open>None\<close> after a silence or at end of file.
\<close>

definition ends_blank :: "cstr \<Rightarrow> bool" where
  "ends_blank h \<longleftrightarrow> length h \<ge> 4 \<and> drop (length h - 4) h = [CR, LF, CR, LF]"

fun recv_header :: "cstr \<Rightarrow> lsp_event list \<Rightarrow> cstr option \<times> lsp_event list" where
  "recv_header h [] = (if length h < 1023 then (None, []) else (Some h, []))"
| "recv_header h (e # es) =
     (if length h < 1023 then
        (case e of
           Silence \<Rightarrow> (None, es)
         | Data c \<Rightarrow> if ends_blank (h @ [c]) then (Some (h @ [c]), es) else recv_header (h @ [c]) es)
      else (Some h, e # es))"

fun recv_body :: "nat \<Rightarrow> lsp_event list \<Rightarrow> cstr option \<times> lsp_event list" where
  "recv_body 0 es = (Some [], es)"
| "recv_body (Suc n) [] = (None, [])"
| "recv_body (Suc n) (Silence # es) = (None, es)"
| "recv_body (Suc n) (Data c # es) = (case recv_body n es of (b, r) \<Rightarrow> (map_option (\<lambda>b. c # b) b, r))"

definition content_length :: "cstr \<Rightarrow> int" where
  "content_length header =
     (let h = c_string header;
          cl = (case strstr h ''Content-Length:'' of Some p \<Rightarrow> Some p | None \<Rightarrow> strstr h ''content-length:'')
      in case cl of None \<Rightarrow> -1
         | Some p \<Rightarrow> strtol10 (lskip (\<lambda>c. c = CHR '' '') (drop 15 p)))"

definition LSP_MAX_BODY :: int where "LSP_MAX_BODY = 10 * 1024 * 1024"

definition recv_payload :: "lsp_event list \<Rightarrow> cstr option \<times> lsp_event list" where
  "recv_payload es =
     (case recv_header [] es of
        (None, es) \<Rightarrow> (None, es)
      | (Some h, es) \<Rightarrow>
          let n = content_length h in
          if n \<le> 0 \<or> n > LSP_MAX_BODY then (None, es)
          else (case recv_body (nat n) es of (b, es) \<Rightarrow> (map_option c_string b, es)))"

definition lsp_recv_payload :: "LspClient \<Rightarrow> cstr option \<times> LspClient" where
  "lsp_recv_payload c = (case recv_payload (lsp_stdout c) of (p, es) \<Rightarrow> (p, c\<lparr>lsp_stdout := es\<rparr>))"

section \<open>The handshake\<close>

definition rpc_request :: "int \<Rightarrow> cstr \<Rightarrow> JsonValue" where
  "rpc_request req_id method_name =
     (let req = json_obj_add json_create_object ''jsonrpc'' (json_create_string (Some ''2.0''));
          req = json_obj_add req ''id'' (json_create_number (double_of_int req_id))
      in json_obj_add req ''method'' (json_create_string (Some method_name)))"

definition rpc_notification :: "cstr \<Rightarrow> JsonValue" where
  "rpc_notification method_name =
     (let req = json_obj_add json_create_object ''jsonrpc'' (json_create_string (Some ''2.0''))
      in json_obj_add req ''method'' (json_create_string (Some method_name)))"

definition initialize_params :: "nat \<Rightarrow> cstr \<Rightarrow> JsonValue" where
  "initialize_params pid dir =
     (let params = json_obj_add json_create_object ''processId'' (json_create_number (double_of_nat pid));
          params = json_obj_add params ''rootUri'' (json_create_string (Some (take 1099 (''file://'' @ dir))));
          publish_diag = json_obj_add json_create_object ''relatedInformation'' (json_create_bool True);
          text_doc = json_obj_add json_create_object ''publishDiagnostics'' publish_diag;
          caps = json_obj_add json_create_object ''textDocument'' text_doc
      in json_obj_add params ''capabilities'' caps)"

definition lsp_client_initialize :: "nat \<Rightarrow> LspClient \<Rightarrow> bool \<times> LspClient" where
  "lsp_client_initialize pid c =
     (if lsp_initialized c then (False, c)
      else
        let req = json_obj_add (rpc_request (next_request_id c) ''initialize'') ''params''
                    (initialize_params pid (root_dir c));
            c = c\<lparr>next_request_id := next_request_id c + 1\<rparr>
        in case lsp_send_payload (json_text req) c of
             (False, c) \<Rightarrow> (False, c)
           | (True, c) \<Rightarrow>
               (case lsp_recv_payload c of
                  (None, c) \<Rightarrow> (False, c)
                | (Some _, c) \<Rightarrow>
                    let notif = json_obj_add (rpc_notification ''initialized'') ''params'' json_create_object;
                        c = snd (lsp_send_payload (json_text notif) c)
                    in (True, c\<lparr>lsp_initialized := True\<rparr>)))"

section \<open>Opening a file\<close>

definition lsp_file_uri :: "LspClient \<Rightarrow> cstr \<Rightarrow> cstr" where
  "lsp_file_uri c file_path =
     take 2047 (if has_prefix ''/'' file_path then ''file://'' @ file_path
                else ''file://'' @ root_dir c @ ''/'' @ file_path)"

definition lang_id :: "cstr \<Rightarrow> cstr" where
  "lang_id file_path =
     (case strrchr file_path (CHR ''.'') of None \<Rightarrow> ''c''
      | Some ext \<Rightarrow>
          if ext = ''.cpp'' \<or> ext = ''.cc'' then ''cpp''
          else if ext = ''.py'' then ''python''
          else if ext = ''.rs'' then ''rust''
          else if ext = ''.go'' then ''go''
          else if ext = ''.ts'' then ''typescript''
          else if ext = ''.js'' then ''javascript''
          else ''c'')"

text \<open>The content given, or that of the file, which must be below 5 MB; \<open>disk\<close> is its bytes.\<close>

definition opened_content :: "cstr option \<Rightarrow> cstr option \<Rightarrow> cstr option" where
  "opened_content disk given =
     (case given of Some s \<Rightarrow> Some s
      | None \<Rightarrow> (case disk of Some b \<Rightarrow> if length b < 5 * 1024 * 1024 then Some (c_string b) else None | None \<Rightarrow> None))"

definition did_open_message :: "cstr \<Rightarrow> cstr \<Rightarrow> cstr \<Rightarrow> JsonValue" where
  "did_open_message uri lang cont =
     (let td = json_obj_add json_create_object ''uri'' (json_create_string (Some uri));
          td = json_obj_add td ''languageId'' (json_create_string (Some lang));
          td = json_obj_add td ''version'' (json_create_number (double_of_nat 1));
          td = json_obj_add td ''text'' (json_create_string (Some cont))
      in json_obj_add (rpc_notification ''textDocument/didOpen'') ''params''
           (json_obj_add json_create_object ''textDocument'' td))"

definition lsp_client_did_open :: "cstr option \<Rightarrow> cstr option \<Rightarrow> cstr option \<Rightarrow> LspClient \<Rightarrow> bool \<times> LspClient" where
  "lsp_client_did_open disk file_path given c =
     (case file_path of None \<Rightarrow> (False, c)
      | Some f \<Rightarrow>
          if \<not> lsp_initialized c then (False, c)
          else case opened_content disk given of None \<Rightarrow> (False, c)
            | Some t \<Rightarrow> lsp_send_payload (json_text (did_open_message (lsp_file_uri c f) (lang_id f) t)) c)"

section \<open>Requests and replies\<close>

definition is_diagnostics :: "JsonValue \<Rightarrow> JsonValue option" where
  "is_diagnostics v =
     (if json_obj_get_str (Some v) ''method'' = Some ''textDocument/publishDiagnostics'' then
        (case json_obj_get (json_obj_get (Some v) ''params'') ''diagnostics'' of
           Some (JSON_ARRAY xs) \<Rightarrow> if xs \<noteq> [] then Some (JSON_ARRAY xs) else None
         | _ \<Rightarrow> None)
      else None)"

text \<open>
  Both loops subtract 300 from the remaining time for every message and for every silence. The first
  component of \<open>await_reply\<close> is \<open>None\<close> when an id cannot be cast to \<open>int\<close>.
\<close>

function get_diagnostics_loop :: "int \<Rightarrow> lsp_event list \<Rightarrow> cstr option \<times> lsp_event list" where
  "get_diagnostics_loop remaining es =
     (if remaining > 0 then
        (case recv_payload es of
           (None, es) \<Rightarrow> get_diagnostics_loop (remaining - 300) es
         | (Some m, es) \<Rightarrow>
             (case json_parse (Some m) of
                None \<Rightarrow> get_diagnostics_loop (remaining - 300) es
              | Some v \<Rightarrow>
                  (case is_diagnostics v of
                     Some d \<Rightarrow> (Some (json_text d), es)
                   | None \<Rightarrow> get_diagnostics_loop (remaining - 300) es)))
      else (None, es))"
  by pat_completeness auto
termination
  by (relation "measure (\<lambda>(r, es). nat r)") auto

declare get_diagnostics_loop.simps [simp del]

definition lsp_client_get_diagnostics :: "cstr option \<Rightarrow> int \<Rightarrow> LspClient \<Rightarrow> cstr option \<times> LspClient" where
  "lsp_client_get_diagnostics file_path timeout_ms c =
     (if \<not> lsp_initialized c \<or> file_path = None then (None, c)
      else case get_diagnostics_loop timeout_ms (lsp_stdout c) of (r, es) \<Rightarrow> (r, c\<lparr>lsp_stdout := es\<rparr>))"

function await_reply :: "int \<Rightarrow> int \<Rightarrow> lsp_event list \<Rightarrow> (cstr option \<times> lsp_event list) option" where
  "await_reply req_id remaining es =
     (if remaining > 0 then
        (case recv_payload es of
           (None, es) \<Rightarrow> await_reply req_id (remaining - 300) es
         | (Some m, es) \<Rightarrow>
             (case json_parse (Some m) of
                None \<Rightarrow> await_reply req_id (remaining - 300) es
              | Some v \<Rightarrow>
                  (case int_of_double (json_obj_get_num (Some v) ''id'' (double_of_int (-1))) of
                     None \<Rightarrow> None
                   | Some i \<Rightarrow>
                       if i = req_id then Some (map_option json_text (json_obj_get (Some v) ''result''), es)
                       else await_reply req_id (remaining - 300) es)))
      else Some (None, es))"
  by pat_completeness auto
termination
  by (relation "measure (\<lambda>(i, r, es). nat r)") auto

declare await_reply.simps [simp del]

definition position_json :: "int \<Rightarrow> int \<Rightarrow> JsonValue" where
  "position_json line character =
     json_obj_add
       (json_obj_add json_create_object ''line'' (json_create_number (double_of_int (if line > 0 then line - 1 else 0))))
       ''character'' (json_create_number (double_of_int (if character > 0 then character - 1 else 0)))"

definition position_params :: "cstr \<Rightarrow> int \<Rightarrow> int \<Rightarrow> JsonValue" where
  "position_params uri line character =
     (let td = json_obj_add json_create_object ''uri'' (json_create_string (Some uri));
          params = json_obj_add json_create_object ''textDocument'' td
      in json_obj_add params ''position'' (position_json line character))"

definition lsp_ask :: "cstr \<Rightarrow> JsonValue \<Rightarrow> int \<Rightarrow> LspClient \<Rightarrow> (cstr option \<times> LspClient) option" where
  "lsp_ask method_name params timeout_ms c =
     (let req_id = next_request_id c;
          c = c\<lparr>next_request_id := req_id + 1\<rparr>
      in case lsp_send_payload (json_text (json_obj_add (rpc_request req_id method_name) ''params'' params)) c of
           (False, c) \<Rightarrow> Some (None, c)
         | (True, c) \<Rightarrow>
             (case await_reply req_id timeout_ms (lsp_stdout c) of
                None \<Rightarrow> None
              | Some (r, es) \<Rightarrow> Some (r, c\<lparr>lsp_stdout := es\<rparr>)))"

definition lsp_client_definition ::
    "cstr option \<Rightarrow> int \<Rightarrow> int \<Rightarrow> int \<Rightarrow> LspClient \<Rightarrow> (cstr option \<times> LspClient) option" where
  "lsp_client_definition file_path line character timeout_ms c =
     (case file_path of None \<Rightarrow> Some (None, c)
      | Some f \<Rightarrow>
          if \<not> lsp_initialized c then Some (None, c)
          else lsp_ask ''textDocument/definition'' (position_params (lsp_file_uri c f) line character) timeout_ms c)"

definition lsp_client_references ::
    "cstr option \<Rightarrow> int \<Rightarrow> int \<Rightarrow> int \<Rightarrow> LspClient \<Rightarrow> (cstr option \<times> LspClient) option" where
  "lsp_client_references file_path line character timeout_ms c =
     (case file_path of None \<Rightarrow> Some (None, c)
      | Some f \<Rightarrow>
          if \<not> lsp_initialized c then Some (None, c)
          else
            let ctx = json_obj_add json_create_object ''includeDeclaration'' (json_create_bool True)
            in lsp_ask ''textDocument/references''
                 (json_obj_add (position_params (lsp_file_uri c f) line character) ''context'' ctx) timeout_ms c)"

text \<open>\<open>lsp_client_shutdown\<close> up to the closing of the pipes: what is still said to the server.\<close>

definition lsp_client_shutdown :: "LspClient \<Rightarrow> LspClient" where
  "lsp_client_shutdown c =
     (if lsp_initialized c then
        let req_id = next_request_id c;
            c = snd (lsp_send_payload (json_text (rpc_request req_id ''shutdown'')) (c\<lparr>next_request_id := req_id + 1\<rparr>));
            c = snd (lsp_recv_payload c)
        in snd (lsp_send_payload (json_text (rpc_notification ''exit'')) c)
      else c)"

section \<open>The diagnostics report\<close>

text \<open>
  \<open>report\<close> is a buffer of 4096 bytes filled by \<open>snprintf\<close>, whose result, the length of the text
  before it is cut, is added to \<open>pos\<close>. The state is \<open>pos\<close> and the text that is in the buffer.
\<close>

definition REPORT_SIZE :: nat where "REPORT_SIZE = 4096"

definition report_put :: "cstr \<Rightarrow> nat \<times> cstr \<Rightarrow> nat \<times> cstr" where
  "report_put t st = (case st of (pos, rep) \<Rightarrow> (pos + length t, rep @ take (REPORT_SIZE - pos - 1) t))"

definition bullet :: cstr where
  "bullet = [CHR 0xE2, CHR 0x80, CHR 0xA2]"

text \<open>One number of a position, plus one: \<open>None\<close> where the cast or the addition is undefined.\<close>

definition position_number :: "JsonValue option \<Rightarrow> cstr \<Rightarrow> int option" where
  "position_number start key =
     (case start of None \<Rightarrow> Some 1
      | Some v \<Rightarrow>
          (case int_of_double (json_obj_get_num (Some v) key (double_of_nat 0)) of
             Some i \<Rightarrow> if i = 2 ^ 31 - 1 then None else Some (i + 1)
           | None \<Rightarrow> None))"

definition severity_text :: "cdouble \<Rightarrow> cstr" where
  "severity_text sev =
     (if sev = double_of_nat 1 then ''ERROR'' else if sev = double_of_nat 2 then ''WARNING'' else ''INFO'')"

definition diagnostic_line :: "JsonValue \<Rightarrow> (bool \<times> cstr) option" where
  "diagnostic_line item =
     (let sev = json_obj_get_num (Some item) ''severity'' (double_of_nat 1);
          msg = json_obj_get_str (Some item) ''message'';
          start = json_obj_get (json_obj_get (Some item) ''range'') ''start''
      in case position_number start ''line'' of None \<Rightarrow> None
         | Some l \<Rightarrow>
             (case position_number start ''character'' of None \<Rightarrow> None
              | Some k \<Rightarrow>
                  Some (sev = double_of_nat 1 \<or> sev = double_of_nat 2,
                    ''  '' @ bullet @ '' '' @ severity_text sev @ '' line '' @ int_text l @ '':'' @ int_text k @ '': '' @
                    (case msg of Some m \<Rightarrow> m | None \<Rightarrow> ''Unknown diagnostic'') @ [LF])))"

fun report_items :: "JsonValue list \<Rightarrow> bool \<Rightarrow> nat \<times> cstr \<Rightarrow> (bool \<times> nat \<times> cstr) option" where
  "report_items [] has_error st = Some (has_error, st)"
| "report_items (item # items) has_error st =
     (if fst st < REPORT_SIZE - 200 then
        (case diagnostic_line item of
           None \<Rightarrow> None
         | Some (err, t) \<Rightarrow> report_items items (has_error \<or> err) (report_put t st))
      else Some (has_error, st))"

text \<open>\<open>memcpy(result, report, pos)\<close> reads \<open>pos\<close> bytes of the array.\<close>

definition diagnostics_report :: "cstr \<Rightarrow> cstr \<Rightarrow> JsonValue list \<Rightarrow> cstr option option" where
  "diagnostics_report file_path cmd items =
     (let st = report_put (''[LSP Language Server Diagnostics: '' @ file_path @ '' ('' @ cmd @ '')]'' @ [LF]) (0, [])
      in case report_items items False st of
           None \<Rightarrow> None
         | Some (has_error, pos, rep) \<Rightarrow>
             if \<not> has_error then Some None
             else if pos > REPORT_SIZE then None
             else Some (Some rep))"

text \<open>\<open>lsp_preflight_diagnostics\<close>: \<open>spawn\<close> is the server that is started for a type, if any.\<close>

definition lsp_preflight_diagnostics ::
    "(LspServerType \<Rightarrow> LspClient option) \<Rightarrow> nat \<Rightarrow> (cstr \<Rightarrow> cstr option) \<Rightarrow> cstr option \<Rightarrow> cstr option option" where
  "lsp_preflight_diagnostics spawn pid disk file_path =
     (case file_path of None \<Rightarrow> Some None
      | Some f \<Rightarrow>
          let type = lsp_detect_server_for_file file_path in
          (case lsp_server_command type of None \<Rightarrow> Some None
           | Some cmd \<Rightarrow>
               (case spawn type of None \<Rightarrow> Some None
                | Some c \<Rightarrow>
                    (case lsp_client_initialize pid c of
                       (False, _) \<Rightarrow> Some None
                     | (True, c) \<Rightarrow>
                         (case lsp_client_did_open (disk f) file_path None c of
                            (False, _) \<Rightarrow> Some None
                          | (True, c) \<Rightarrow>
                              (case fst (lsp_client_get_diagnostics file_path 800 c) of
                                 None \<Rightarrow> Some None
                               | Some raw \<Rightarrow>
                                   (case json_parse (Some raw) of
                                      Some (JSON_ARRAY (x # xs)) \<Rightarrow> diagnostics_report f cmd (x # xs)
                                    | _ \<Rightarrow> Some None)))))))"

text \<open>The tool \<open>lsp_query\<close>.\<close>

definition clean_status :: cstr where
  "clean_status = ''{'' @ [DQ] @ ''status'' @ [DQ] @ '': '' @ [DQ] @ ''clean'' @ [DQ] @ '', '' @ [DQ] @ ''diagnostics'' @ [DQ] @ '': []}''"

definition null_result :: cstr where
  "null_result = ''{'' @ [DQ] @ ''result'' @ [DQ] @ '': null}''"

definition bad_action :: cstr where
  "bad_action = ''Error: Unrecognized LSP action ('' @ [SQ] @ ''diagnostics'' @ [SQ] @ '', '' @ [SQ] @ ''definition'' @ [SQ] @
     '', '' @ [SQ] @ ''references'' @ [SQ] @ '').''"

definition missing_file :: cstr where
  "missing_file = ''Error: Missing '' @ [SQ] @ ''file'' @ [SQ] @ '' argument for lsp_query.''"

definition tool_lsp_query ::
    "(LspServerType \<Rightarrow> LspClient option) \<Rightarrow> nat \<Rightarrow> (cstr \<Rightarrow> cstr option) \<Rightarrow> JsonValue option \<Rightarrow> cstr option" where
  "tool_lsp_query spawn pid disk args =
     (let action = json_obj_get_str args ''action''; file = json_obj_get_str args ''file'' in
      case (int_of_double (json_obj_get_num args ''line'' (double_of_nat 1)),
            int_of_double (json_obj_get_num args ''character'' (double_of_nat 1))) of
        (Some line, Some col) \<Rightarrow>
          (case file of None \<Rightarrow> Some missing_file
           | Some f \<Rightarrow>
               if action = None \<or> action = Some ''diagnostics'' then
                 (case lsp_preflight_diagnostics spawn pid disk file of
                    None \<Rightarrow> None
                  | Some (Some d) \<Rightarrow> Some d
                  | Some None \<Rightarrow> Some clean_status)
               else if lsp_detect_server_for_file file = LSP_SERVER_NONE then
                 Some ''Error: No LSP server configured for this file type.''
               else
                 (case spawn (lsp_detect_server_for_file file) of
                    None \<Rightarrow> Some ''Error: LSP server executable not found in PATH.''
                  | Some c \<Rightarrow>
                      (case lsp_client_initialize pid c of
                         (False, _) \<Rightarrow> Some ''Error: Failed to initialize LSP session.''
                       | (True, c) \<Rightarrow>
                           (case lsp_client_did_open (disk f) file None c of
                              (False, _) \<Rightarrow> Some ''Error: Failed to initialize LSP session.''
                            | (True, c) \<Rightarrow>
                                map_option (\<lambda>r. case r of Some t \<Rightarrow> t | None \<Rightarrow> null_result)
                                  (if action = Some ''definition'' then map_option fst (lsp_client_definition file line col 2000 c)
                                   else if action = Some ''references'' then map_option fst (lsp_client_references file line col 2000 c)
                                   else Some (Some bad_action))))))
      | _ \<Rightarrow> None)"

section \<open>Framing: lemmas\<close>

lemma ends_blankD: "ends_blank h \<Longrightarrow> \<exists>u. h = (u @ [CR, LF, CR]) @ [LF]"
  using append_take_drop_id[of "length h - 4" h]
  by (intro exI[of _ "take (length h - 4) h"]) (simp add: ends_blank_def)

lemma recv_header_plain:
  "LF \<notin> set s \<Longrightarrow> length h + length s < 1023 \<Longrightarrow> recv_header h (map Data s @ es) = recv_header (h @ s) es"
proof (induction s arbitrary: h)
  case (Cons c s)
  have "\<not> ends_blank (h @ [c])"
  proof
    assume "ends_blank (h @ [c])"
    then obtain u where "h @ [c] = (u @ [CR, LF, CR]) @ [LF]" using ends_blankD by blast
    then have "c = LF" by (simp only: append1_eq_conv)
    with Cons.prems(1) show False by simp
  qed
  with Cons show ?case by simp
qed simp

lemma recv_header_frame:
  assumes "LF \<notin> set s" "s \<noteq> []" "length s < 1000"
  shows "recv_header [] (map Data (s @ [CR, LF, CR, LF]) @ es) = (Some (s @ [CR, LF, CR, LF]), es)"
proof -
  have n: "\<not> ends_blank (s @ [CR, LF])"
  proof
    assume "ends_blank (s @ [CR, LF])"
    then have "drop (length s - 2) s @ [CR, LF] = [CR, LF, CR, LF]" "2 \<le> length s"
      by (auto simp: ends_blank_def)
    then have "drop (length s - 2) s = [CR, LF]" by simp
    then have "LF \<in> set (drop (length s - 2) s)" by simp
    then show False using assms(1) in_set_dropD by fast
  qed
  have y: "ends_blank (s @ [CR, LF, CR, LF])" by (simp add: ends_blank_def)
  have "recv_header [] (map Data (s @ [CR, LF, CR, LF]) @ es) = recv_header (s @ [CR]) (map Data [LF, CR, LF] @ es)"
    using recv_header_plain[of "s @ [CR]" "[]" "map Data [LF, CR, LF] @ es"] assms by simp
  also have "\<dots> = recv_header (s @ [CR, LF]) (map Data [CR, LF] @ es)" using n assms(3) by simp
  also have "\<dots> = recv_header (s @ [CR, LF, CR]) (map Data [LF] @ es)"
    using recv_header_plain[of "[CR]" "s @ [CR, LF]" "map Data [LF] @ es"] assms(3) by simp
  also have "\<dots> = (Some (s @ [CR, LF, CR, LF]), es)" using y assms(3) by simp
  finally show ?thesis .
qed

lemma recv_body_all: "recv_body (length p) (map Data p @ es) = (Some p, es)"
  by (induction p) simp_all

lemma strtol10_dec_text:
  assumes "n < 2 ^ 63" "s = [] \<or> \<not> isdigit (hd s)"
  shows "strtol10 (dec_text n @ s) = int n"
proof -
  obtain c t where ct: "dec_text n = c # t" using dec_text_digits[of n] by (cases "dec_text n") auto
  have c: "isdigit c" using dec_text_all_digits[of n] ct by simp
  have "list_all (\<lambda>c. \<not> isspace c \<and> c \<noteq> CHR ''-'' \<and> c \<noteq> CHR ''+'') ''0123456789''" by code_simp
  then have cc: "\<not> isspace c \<and> c \<noteq> CHR ''-'' \<and> c \<noteq> CHR ''+''"
    using dec_text_digits[of n] ct unfolding list_all_iff by auto
  have sp: "lskip isspace (dec_text n @ s) = dec_text n @ s" using cc ct by (simp add: lskip_def)
  have sg: "split_sign (dec_text n @ s) = (False, dec_text n @ s)" using cc ct by (simp add: split_sign_def)
  have "takeWhile isdigit (dec_text n @ s) = dec_text n"
    using dec_text_all_digits[of n] assms(2) by (cases s) (simp_all add: takeWhile_append takeWhile_eq_all_conv)
  then show ?thesis using assms(1) by (simp add: strtol10_def sp sg digits_dec_text)
qed

lemma length_dec_text_less: "n < 10 ^ k \<Longrightarrow> 0 < k \<Longrightarrow> length (dec_text n) \<le> k"
proof -
  assume n: "n < 10 ^ k" "0 < k"
  show ?thesis
  proof (cases "n = 0")
    case True
    with n show ?thesis by (simp add: dec_text.simps)
  next
    case False
    then have "(10::nat) ^ (ndigits n - 1) < 10 ^ k" using ndigits_bounds[of n] n(1) by linarith
    then have "ndigits n - 1 < k" by (rule pow10_less)
    then show ?thesis by (simp add: length_dec_text)
  qed
qed

lemma no_digit_lf: "c \<in> set (dec_text n) \<Longrightarrow> c \<noteq> LF \<and> c \<noteq> NUL \<and> c \<noteq> CHR '' ''"
proof -
  have "list_all (\<lambda>c. c \<noteq> LF \<and> c \<noteq> NUL \<and> c \<noteq> CHR '' '') ''0123456789''" by code_simp
  then show "c \<in> set (dec_text n) \<Longrightarrow> ?thesis" using dec_text_digits[of n] unfolding list_all_iff by blast
qed

lemma recv_frame:
  assumes "nul_free p" "p \<noteq> []" "length p \<le> 10 * 1024 * 1024"
  shows "recv_payload (map Data (lsp_frame p) @ es) = (Some p, es)"
proof -
  define d where "d = dec_text (length p)"
  define s where "s = ''Content-Length: '' @ d"
  have dl: "length d \<le> 8" unfolding d_def by (rule length_dec_text_less) (use assms(3) in simp_all)
  have s: "LF \<notin> set s" "s \<noteq> []" "length s < 1000"
    using no_digit_lf[of LF "length p"] dl by (auto simp: s_def d_def)
  have h: "recv_header [] (map Data (lsp_frame p) @ es) = (Some (s @ [CR, LF, CR, LF]), map Data p @ es)"
    using recv_header_frame[OF s, of "map Data p @ es"] by (simp add: lsp_frame_def s_def d_def)
  have "NUL \<notin> set (s @ [CR, LF, CR, LF])" using no_digit_lf[of NUL "length p"] by (auto simp: s_def d_def)
  then have cs: "c_string (s @ [CR, LF, CR, LF]) = s @ [CR, LF, CR, LF]"
    unfolding c_string_def by (auto simp: takeWhile_eq_all_conv)
  have st: "strstr (s @ [CR, LF, CR, LF]) ''Content-Length:'' = Some (s @ [CR, LF, CR, LF])"
    by (simp add: strstr.simps s_def)
  obtain c t where ct: "d = c # t" using dec_text_digits[of "length p"] unfolding d_def by (cases "dec_text (length p)") auto
  then have "c \<noteq> CHR '' ''" using no_digit_lf[of c "length p"] by (simp add: d_def)
  then have sk: "lskip (\<lambda>c. c = CHR '' '') (drop 15 (s @ [CR, LF, CR, LF])) = d @ [CR, LF, CR, LF]"
    using ct by (simp add: s_def lskip_def)
  have nd: "\<not> isdigit CR" by code_simp
  have n: "content_length (s @ [CR, LF, CR, LF]) = int (length p)"
    using strtol10_dec_text[of "length p" "[CR, LF, CR, LF]"] assms(3) nd
    by (simp add: content_length_def cs st sk Let_def d_def[symmetric] del: drop_append)
  have "c_string p = p" using assms(1) unfolding c_string_def nul_free_def by (auto simp: takeWhile_eq_all_conv)
  then show ?thesis
    using assms(2,3) by (simp add: recv_payload_def h n Let_def LSP_MAX_BODY_def recv_body_all)
qed

section \<open>Replies\<close>

definition wire :: "JsonValue list \<Rightarrow> lsp_event list" where
  "wire ms = map Data (concat (map (\<lambda>v. lsp_frame (json_text v)) ms))"

definition sendable :: "JsonValue \<Rightarrow> bool" where
  "sendable v \<longleftrightarrow> json_ok v \<and> jdepth v \<le> JSON_MAX_DEPTH \<and> length (json_text v) \<le> 10 * 1024 * 1024"

definition reply_id :: "JsonValue \<Rightarrow> int option" where
  "reply_id v = int_of_double (json_obj_get_num (Some v) ''id'' (double_of_int (-1)))"

lemma recv_message:
  assumes "sendable v"
  shows "recv_payload (map Data (lsp_frame (json_text v)) @ es) = (Some (json_text v), es)" "json_parse (Some (json_text v)) = Some v"
proof -
  have v: "json_ok v" "jdepth v \<le> JSON_MAX_DEPTH" "length (json_text v) \<le> 10 * 1024 * 1024"
    using assms by (simp_all add: sendable_def)
  have "json_text v \<noteq> []" using json_text_head[OF v(1)] by auto
  then show "recv_payload (map Data (lsp_frame (json_text v)) @ es) = (Some (json_text v), es)"
    using json_text_no_nul[OF v(1)] v(3) by (intro recv_frame)
  show "json_parse (Some (json_text v)) = Some v" by (rule json_parse_text[OF v(1,2)])
qed

lemma await_skips:
  assumes "sendable v" "reply_id v = Some i" "i \<noteq> req" "remaining > 0"
  shows "await_reply req remaining (wire (v # ms) @ es) = await_reply req (remaining - 300) (wire ms @ es)"
  using recv_message(1)[OF assms(1), of "wire ms @ es"] recv_message(2)[OF assms(1)] assms(2-4)
  by (subst await_reply.simps) (simp add: wire_def reply_id_def)

lemma await_takes:
  assumes "sendable v" "reply_id v = Some req" "remaining > 0"
  shows "await_reply req remaining (wire (v # ms) @ es) = Some (map_option json_text (json_obj_get (Some v) ''result''), wire ms @ es)"
  using recv_message(1)[OF assms(1), of "wire ms @ es"] recv_message(2)[OF assms(1)] assms(2-3)
  by (subst await_reply.simps) (simp add: wire_def reply_id_def)

lemma await_after:
  "\<forall>v \<in> set ms. sendable v \<and> (\<exists>i. reply_id v = Some i \<and> i \<noteq> req) \<Longrightarrow> remaining > 300 * int (length ms) - 300 \<Longrightarrow>
   await_reply req remaining (wire (ms @ ns) @ es) = await_reply req (remaining - 300 * int (length ms)) (wire ns @ es)"
proof (induction ms arbitrary: remaining)
  case (Cons v ms)
  then obtain i where "sendable v" "reply_id v = Some i" "i \<noteq> req" by auto
  with Cons.prems have "await_reply req remaining (wire ((v # ms) @ ns) @ es) =
      await_reply req (remaining - 300) (wire (ms @ ns) @ es)"
    using await_skips[of v i req remaining "ms @ ns" es] by simp
  also have "\<dots> = await_reply req (remaining - 300 - 300 * int (length ms)) (wire ns @ es)"
    using Cons.prems by (intro Cons.IH) auto
  finally show ?case by (simp add: algebra_simps)
qed simp

text \<open>C30: A request to the language server returns the result of the reply to it: the messages the
  server puts in front of it, notifications and replies to other requests, are skipped, and what
  follows stays unread, as long as the time allows one slice of 300 ms for each message skipped.\<close>

theorem reply_is_found:
  assumes "\<forall>v \<in> set ms. sendable v \<and> (\<exists>i. reply_id v = Some i \<and> i \<noteq> req)"
    and "sendable v" "reply_id v = Some req" "remaining > 300 * int (length ms)"
  shows "await_reply req remaining (wire (ms @ v # ns) @ es) =
    Some (map_option json_text (json_obj_get (Some v) ''result''), wire ns @ es)"
  using await_after[OF assms(1), of remaining "v # ns" es] await_takes[OF assms(2,3), of _ ns es] assms(4) by simp

definition log_message :: JsonValue where
  "log_message = rpc_notification ''window/logMessage''"

definition reply_message :: JsonValue where
  "reply_message = JSON_OBJECT [(''id'', JSON_NUMBER (double_of_nat 2)), (''result'', JSON_STRING ''here'')]"

lemma log_message_ok: "sendable log_message" "reply_id log_message = Some (-1)"
proof -
  show "sendable log_message"
    by (simp add: sendable_def log_message_def rpc_notification_def json_create_object_def json_create_string_def Let_def
        JSON_MAX_DEPTH_def json_text_def quoted_pieces_def escape_char_def byte_def)
  have "double_of_int (-1) = DFin True 4503599627370496 (-52)"
    by (simp add: double_of_int_def round_double_def scale2_def round_half_even_def bitlen.simps Let_def)
  then show "reply_id log_message = Some (-1)"
    by (simp add: reply_id_def log_message_def rpc_notification_def json_create_object_def json_create_string_def Let_def
        json_obj_get_num_def json_obj_get_def int_of_double_def trunc_nat_def)
qed

lemma reply_message_ok: "sendable reply_message" "reply_id reply_message = Some 2"
proof -
  have n: "number_text (double_of_nat 2) = dec_text 2" by (rule number_text_nat) simp
  show "sendable reply_message"
    by (simp add: sendable_def reply_message_def JSON_MAX_DEPTH_def json_text_def quoted_pieces_def escape_char_def byte_def n
        dec_text.simps)
  show "reply_id reply_message = Some 2"
    using int_double_of_nat[of 2] by (simp add: reply_id_def reply_message_def json_obj_get_num_def json_obj_get_def)
qed

theorem reply_is_found_witness:
  "await_reply 2 2000 (wire [log_message, log_message, reply_message, log_message] @ [Silence]) =
    Some (Some (json_text (JSON_STRING ''here'')), wire [log_message] @ [Silence])"
  using reply_is_found[of "[log_message, log_message]" 2 reply_message 2000 "[log_message]" "[Silence]"]
    log_message_ok reply_message_ok
  by (simp add: reply_message_def json_obj_get_def)

text \<open>The time is counted in messages, not in milliseconds: a server that sends seven notifications
  before its reply, however quickly, gets no hearing within the 2000 ms the tool allows, and the reply
  is left unread.\<close>

theorem chatty_server_times_out:
  assumes "\<forall>v \<in> set ms. sendable v \<and> (\<exists>i. reply_id v = Some i \<and> i \<noteq> req)" "length ms = 7"
  shows "await_reply req 2000 (wire (ms @ ns) @ es) = Some (None, wire ns @ es)"
  using await_after[OF assms(1), of 2000 ns es] assms(2) by (simp add: await_reply.simps[of req "-100"])

theorem chatty_server_times_out_witness:
  "await_reply 2 2000 (wire (replicate 7 log_message @ [reply_message]) @ []) = Some (None, wire [reply_message] @ [])"
  using chatty_server_times_out[of "replicate 7 log_message" 2 "[reply_message]" "[]"] log_message_ok by simp

text \<open>What is returned is always the result of a message that carried the id of the request.\<close>

lemma await_reply_sound:
  "await_reply req remaining es = Some (Some r, es') \<Longrightarrow>
   \<exists>es1 m v. recv_payload es1 = (Some m, es') \<and> json_parse (Some m) = Some v \<and> reply_id v = Some req \<and>
     (\<exists>res. json_obj_get (Some v) ''result'' = Some res \<and> r = json_text res)"
proof (induction req remaining es rule: await_reply.induct)
  case (1 req remaining es)
  show ?case
  proof (cases "recv_payload es")
    case (Pair p es1)
    show ?thesis
    proof (cases "remaining > 0")
      case False
      with "1.prems" show ?thesis by (subst (asm) await_reply.simps) simp
    next
      case pos: True
      show ?thesis
      proof (cases p)
        case None
        with 1(1)[OF pos Pair[symmetric]] "1.prems" pos Pair show ?thesis
          by (subst (asm) (2) await_reply.simps) simp
      next
        case (Some m)
        show ?thesis
        proof (cases "json_parse (Some m)")
          case None
          with 1(2)[OF pos Pair[symmetric] Some None] "1.prems" pos Pair Some show ?thesis
            by (subst (asm) (2) await_reply.simps) simp
        next
          case (Some v)
          note mv = \<open>p = Some m\<close> Some
          show ?thesis
          proof (cases "reply_id v")
            case None
            with "1.prems" pos Pair mv show ?thesis by (subst (asm) await_reply.simps) (simp add: reply_id_def)
          next
            case (Some i)
            show ?thesis
            proof (cases "i = req")
              case True
              with "1.prems" pos Pair mv Some show ?thesis
                by (subst (asm) await_reply.simps) (auto simp: reply_id_def)
            next
              case False
              with 1(3)[OF pos Pair[symmetric] mv Some[unfolded reply_id_def] False] "1.prems" pos Pair mv Some show ?thesis
                by (subst (asm) (2) await_reply.simps) (simp add: reply_id_def)
            qed
          qed
        qed
      qed
    qed
  qed
qed

text \<open>A request of the server that happens to carry the same id is taken for the reply.\<close>

lemma server_request_taken_for_reply:
  assumes "sendable v" "reply_id v = Some req" "json_obj_get (Some v) ''result'' = None"
  shows "await_reply req 2000 (wire (v # ns) @ es) = Some (None, wire ns @ es)"
  using await_takes[OF assms(1,2), of 2000 ns es] assms(3) by simp

text \<open>The framing is exact: a payload sent by the client's own \<open>lsp_send_payload\<close> is what the other
  side's \<open>lsp_recv_payload\<close> returns, with everything behind it unread, for every non-empty payload of at
  most 10 MB.\<close>

theorem lsp_framing_roundtrip:
  assumes "lsp_writable c" "lsp_stdin c = []" "nul_free p" "p \<noteq> []" "length p \<le> 10 * 1024 * 1024"
    and "lsp_stdout d = map Data (lsp_stdin (snd (lsp_send_payload p c))) @ es"
  shows "lsp_recv_payload d = (Some p, d\<lparr>lsp_stdout := es\<rparr>)"
  using recv_frame[OF assms(3-5), of es] assms(1,2,6)
  by (simp add: lsp_recv_payload_def lsp_send_payload_def)

definition fresh_client :: "lsp_event list \<Rightarrow> LspClient" where
  "fresh_client out = the (lsp_client_spawn True None out LSP_SERVER_CLANGD (Some ''/w''))"

theorem lsp_framing_roundtrip_witness:
  "lsp_recv_payload (fresh_client (map Data (lsp_stdin (snd (lsp_send_payload ''{}'' (fresh_client [])))) @ [Data (CHR ''C'')])) =
    (Some ''{}'', fresh_client [Data (CHR ''C'')])"
  using lsp_framing_roundtrip[of "fresh_client []" "''{}''"
      "fresh_client (map Data (lsp_stdin (snd (lsp_send_payload ''{}'' (fresh_client [])))) @ [Data (CHR ''C'')])" "[Data (CHR ''C'')]"]
  by (simp add: fresh_client_def lsp_client_spawn_def lsp_server_command_def)

section \<open>The report\<close>

lemma report_items_pos:
  "report_items items e st = Some (e', st') \<Longrightarrow> \<forall>i \<in> set items. \<forall>err t. diagnostic_line i = Some (err, t) \<longrightarrow> length t \<le> 200 \<Longrightarrow>
   fst st < REPORT_SIZE \<Longrightarrow> fst st' < REPORT_SIZE"
proof (induction items arbitrary: e st)
  case (Cons i items)
  show ?case
  proof (cases "fst st < REPORT_SIZE - 200")
    case True
    with Cons.prems(1) obtain err t where d: "diagnostic_line i = Some (err, t)"
        and r: "report_items items (e \<or> err) (report_put t st) = Some (e', st')"
      by (auto split: option.splits)
    have "fst (report_put t st) < REPORT_SIZE"
      using True d Cons.prems(2) by (cases st) (auto simp: report_put_def REPORT_SIZE_def)
    with Cons.IH[OF r] Cons.prems(2) show ?thesis by simp
  next
    case False
    with Cons.prems show ?thesis by simp
  qed
qed simp

lemma report_defined:
  "\<forall>i \<in> set items. diagnostic_line i \<noteq> None \<Longrightarrow> \<exists>e' st'. report_items items e st = Some (e', st')"
  by (induction items arbitrary: e st) (auto split: option.splits)

text \<open>C31: With diagnostics of at most 200 bytes a line, and a path and command of at most 4000 bytes together, the
  report of a file never reads outside its 4096-byte buffer.\<close>

theorem report_stays_inside:
  assumes "\<forall>i \<in> set items. \<exists>err t. diagnostic_line i = Some (err, t) \<and> length t \<le> 200"
    and "length file_path + length cmd \<le> 4000"
  shows "\<exists>r. diagnostics_report file_path cmd items = Some r"
proof -
  let ?h = "''[LSP Language Server Diagnostics: '' @ file_path @ '' ('' @ cmd @ '')]'' @ [LF]"
  obtain e pos rep where r: "report_items items False (report_put ?h (0, [])) = Some (e, pos, rep)"
    using report_defined[of items False "report_put ?h (0, [])"] assms(1) by fastforce
  have "\<forall>i \<in> set items. \<forall>err t. diagnostic_line i = Some (err, t) \<longrightarrow> length t \<le> 200" using assms(1) by fastforce
  from report_items_pos[OF r this] assms(2) have "pos < REPORT_SIZE" by (simp add: report_put_def REPORT_SIZE_def)
  with r show ?thesis by (simp add: diagnostics_report_def Let_def)
qed

definition short_diagnostic :: JsonValue where
  "short_diagnostic = JSON_OBJECT [(''message'', JSON_STRING ''expected ;'')]"

lemma dec_text_1: "dec_text 1 = ''1''"
  by code_simp

lemma short_line: "diagnostic_line short_diagnostic = Some (True, ''  '' @ bullet @ '' ERROR line 1:1: expected ;'' @ [LF])"
  by (simp add: diagnostic_line_def short_diagnostic_def json_obj_get_num_def json_obj_get_str_def json_obj_get_def
      position_number_def severity_text_def int_text_def dec_text_1 dec_text_1[unfolded One_nat_def])

theorem report_stays_inside_witness:
  "\<exists>r. diagnostics_report ''a.c'' ''clangd'' [short_diagnostic] = Some r"
  by (rule report_stays_inside) (auto simp: short_line bullet_def)

lemma long_message_reads_outside:
  "diagnostics_report ''a.c'' ''clangd'' [JSON_OBJECT [(''message'', JSON_STRING (replicate 4096 (CHR ''x'')))]] = None"
  by (simp add: diagnostics_report_def diagnostic_line_def json_obj_get_num_def json_obj_get_str_def json_obj_get_def
      position_number_def severity_text_def report_put_def REPORT_SIZE_def Let_def int_text_def)

end
