(* ===== verification/Spec2Isabelle.thy ===== *)
theory Spec2Isabelle
  imports Permissions Frontmatter Harness PathJail TelegramDaemon McpClient Scavenger ModelProbe Workspace ToolTable Repl AgentMesh LspClient
begin

text \<open>
  Belya is a coding agent in C99: an agent keeps a conversation, a gateway sends it to a language
  model, a harness runs the tools the model asks for, and a terminal loop, a Telegram daemon and a
  socket between agents drive turns. This is a verification library of that program. Every
  definition is translated from the C source, by hand, and computes; the theorems are about these
  definitions.

  \<^bold>\<open>The program and its theories\<close>

  Foundations, used by everything else:
  \<^item> \<open>Prelude\<close>: C strings as lists of bytes without the NUL, the functions of \<open>string.h\<close>, \<open>ctype.h\<close>
    and \<open>fgets\<close> the program calls. A pointer into a string is the suffix it points at.
  \<^item> \<open>CInt\<close>, \<open>CNumber\<close>: \<open>strtol\<close>, \<open>atoi\<close>, casts between \<open>double\<close> and integers (a cast that does not fit is
    \<open>None\<close>), \<open>strtod\<close> and \<open>%.17g\<close> on exact binary64 values, correctly rounded.
  \<^item> \<open>DynString\<close> and \<open>CommonText\<close>: \<open>common.h\<close>. The growable strings are modelled once, with 64-bit
    sizes and an allocator that may fail; the refinement \<open>dyn_append_refines_append\<close> is why all other
    theories write an append to a \<open>DynString\<close> as \<open>@\<close>.
  \<^item> \<open>MiniJson\<close> (\<open>minijson.c\<close>), \<open>JsonInt\<close> (integers below \<open>2 ^ 53\<close> as JSON numbers) and
    \<open>Frontmatter\<close> (\<open>minifrontmatter.c\<close>).
  \<^item> \<open>RecencyRing\<close>: the contract of the two ring buffers of the harness, a locale.

  The agent and the gateway:
  \<^item> \<open>AgentHistory\<close> (\<open>belya_agent.c\<close>): messages, folding of long observations, the compaction ladder,
    memory rows, \<open>belya_agent_save_session\<close> and \<open>belya_agent_load_session\<close>.
  \<^item> \<open>AgentStep\<close>: \<open>belya_agent_step\<close>, one model call.
  \<^item> \<open>ModelStream\<close>, \<open>ModelAdapter\<close>, \<open>ModelProbe\<close>, \<open>Scavenger\<close> (\<open>model_adapter.c\<close>): the reader of the
    event stream and the assembly of tool calls; the request, retries and failover to a second endpoint;
    the health probe; tool calls recovered from the text of a reply.
  \<^item> \<open>JevClient\<close> (\<open>jev_client.c\<close>): the decision service and the local rules that replace it.

  The harness (\<open>belya_harness.c\<close>):
  \<^item> \<open>Permissions\<close> (\<open>permissions.c\<close>): the classifier of tool calls.
  \<^item> \<open>PathJail\<close>: the path jail, name checks and the private-address check. \<open>Sandbox\<close> (\<open>sandbox.c\<close>): the
    Landlock policies.
  \<^item> \<open>TurnGuard\<close>: the detector of repeated actions, the failure counter and the verification flags.
  \<^item> \<open>Harness\<close>: the registry, the permission gate and \<open>belya_harness_execute_turn\<close>, and the dispatch of
    one call by the Telegram daemon.
  \<^item> \<open>FileTools\<close>, \<open>TaskTable\<close>, \<open>ShellTool\<close>: the tools that read and write files, run background tasks
    and run shell commands.
  \<^item> \<open>Notebook\<close>: the tool \<open>edit_notebook\<close>. \<open>Workspace\<close>: lifecycle hooks, worktrees and the table of shadow
    worktrees.
  \<^item> \<open>ToolForge\<close>: the tools the model makes for itself, \<open>define_tool\<close>, \<open>load_custom_tools\<close>, the runner of
    scripts and \<open>synthesize_mcp_server\<close>. \<open>ToolTable\<close>: the table of the built-in tools with their schemas,
    and \<open>belya_harness_init_bounded\<close>, the router and the worker.
  \<^item> \<open>LspClient\<close> (\<open>lsp_client.c\<close>): the language server behind edits and the tool \<open>lsp_query\<close>.

  The front ends and the other processes:
  \<^item> \<open>LineEdit\<close> (\<open>linenoise.c\<close>) and \<open>Repl\<close> (\<open>belya_harness_repl\<close>): the terminal.
  \<^item> \<open>TelegramRender\<close> (\<open>telegram_render.c\<close>): markdown to Telegram's HTML.
  \<^item> \<open>AgentMesh\<close> (\<open>agent_mesh.c\<close>): consultations between two agents over a socket.
  \<^item> \<open>TelegramBot\<close> and \<open>TelegramDaemon\<close> (\<open>telegram_adapter.c\<close>): the requests to the Bot API, the splitting
    of long messages, the live repainting of a streamed reply and the approval prompt; then the polling
    loop, the commands, and the daemon's own turn with its forced conclusion.
  \<^item> \<open>Subagents\<close> (\<open>belya_harness.c\<close>, \<open>belya_agent.c\<close>): the manifests of the roles, \<open>belya_agent_init\<close>,
    \<open>spawn_subagent\<close> and \<open>dispatch_agent\<close>, triage and the pipeline behind \<open>/agency\<close>.
  \<^item> \<open>Channel\<close> (\<open>belya_channel.c\<close>): the Discord and Slack adapters, which the daemon polls before Telegram.
  \<^item> \<open>McpClient\<close> (\<open>mcp_client.c\<close>, \<open>mcp_http.c\<close>): the client of the Model Context Protocol over the pipes of
    a child process and over HTTP.
  A component's state is a record with the fields of its struct, an operation is a function that
  returns the new state, and the calls between components are calls between these functions:
  \<open>execute_turn\<close> of \<open>Harness\<close> calls the model through \<open>AgentStep\<close>'s agent, asks \<open>Permissions\<close> for the tier of a
  call, runs it, and records what happened in \<open>TurnGuard\<close>'s fields of the same record. A component
  that reads and writes what lies outside the program takes it as an argument: files are a map from
  resolved names to bytes; libcurl is \<open>perform\<close> of the record \<open>network\<close>; SQLite is the list of the
  commands executed, and what a query returns after them a parameter; processes, terminals, sockets and
  the Landlock calls are what they answer. Theorems quantify over these parameters.

  \<^bold>\<open>What the theorems show\<close>

  \<^item> Conversations: \<open>turn_keeps_conversation\<close>, \<open>step_keeps_conversation\<close>, \<open>compaction_keeps_sendable\<close>: each
    request carries every tool call answered, once and in order; \<open>session_roundtrip\<close>: a saved session
    loads back.
  \<^item> Permission: \<open>denied_call_never_runs\<close>, \<open>call_runs_only_if_permitted\<close>, \<open>denied_vector_is_final\<close>,
    \<open>allowed_bash_is_plain\<close>, and the limits of it: \<open>decoy_hides_command\<close>, \<open>background_escapes_guards\<close>.
    \<open>daemon_never_runs_denied\<close> is the claim for the Telegram daemon's own dispatcher. Subagents stand outside:
    \<open>agency_runs_denied_call\<close> is a run of \<open>/agency\<close> that runs a denied call, \<open>subagent_stays_in_role\<close> what holds of
    the calls of a role, and a subagent inside a tool call is not in the trace of the turn at all.
  \<^item> Confinement: \<open>jailed_write_stays_inside\<close>, \<open>file_tools_confined\<close>, \<open>local_shell_confined\<close>,
    \<open>mapped_address_judged_as_ipv4\<close>, \<open>keys_stay_with_their_endpoint\<close>.
  \<^item> Functional correctness against a plain specification: \<open>patch_is_all_or_nothing\<close>,
    \<open>unique_edit_is_exact\<close>, \<open>loop_detector_exact\<close>, \<open>task_output_is_recent\<close>, \<open>fragments_assemble\<close>,
    \<open>commands_build_the_line\<close>, \<open>reply_is_found\<close>, \<open>render_balanced_and_escaped\<close>.
  \<^item> Round trips of everything that is written and read back: JSON, frontmatter, sessions, the history
    file, tagged tool calls, mesh and MCP messages, edited notebooks (\<open>notebook_edit_is_local\<close>), defined
    tools (\<open>custom_tool_survives_restart\<close>), the chunks of a Telegram message (\<open>chunks_keep_the_text\<close>).
  \<^item> Bounds and termination: \<open>retries_are_bounded\<close>, \<open>turn_ends_verified_or_nudged\<close>,
    \<open>json_parse_depth_bound\<close>, \<open>report_stays_inside\<close>, \<open>repl_stays_defined\<close>; and one loop that does not
    end, \<open>repl_spins_at_eof\<close>.
  \<^item> Interleaving: the sections of the mesh under its lock are the steps of an inductive relation;
    \<open>consult_answers_match\<close> holds while consultations do not overlap, \<open>overlapping_consults_cross\<close> shows
    why that is needed.

  Interfaces are locales (\<open>text_sink\<close>, \<open>recency_ring\<close>, \<open>first_wins\<close>, \<open>compaction_pass\<close>, \<open>writing_tool\<close>,
  \<open>call_source\<close>); each is interpreted on the model's definitions and the properties rest on the
  interpreted facts.

  \<^bold>\<open>Bounds and fuel\<close>

  Loops are structural or have a \<open>termination\<close> proof, so their definitions are total. Bounds of the code
  are kept: fifty model calls in a turn, JSON depth 128, thirty-two entries of frontmatter, buffers of
  4096 bytes for commands, prompts and mesh lines, sixteen task slots with rings of 65536 bytes, a ring
  of thirty-two actions, 100 KB of shell output, 10 MB for a language server message. Fuel occurs where
  a loop is driven by input: the key loop of the editor runs with one more than the bytes of the input,
  each round consumes a byte, and running out is a separate outcome that is proved not to happen
  (\<open>line_editor_returns\<close>); the language server client counts down silences of 300 ms in its timeout.
  A read or write outside a buffer and a cast that does not fit are \<open>None\<close> or \<open>Undefined\<close>, so that a theorem
  that a result is \<open>Some\<close> is a theorem that the code stays defined.

  \<^bold>\<open>Not modelled\<close>

  \<^item> \<open>belya_agent.c\<close>: skills, rule packs, tasks, cron, checkpoints and exports are SQL statements
    and directory listings around text that is only stored and printed.
  \<^item> \<open>belya_harness.c\<close>: the search and listing tools, the symbol index, the repository map and the AST slice,
    the speculative worker, the security audit and the web tools.
  \<^item> \<open>belya_company.c\<close>, \<open>terminal_tui.c\<close>, \<open>main.c\<close>.
  \<^item> \<open>test_suite.c\<close>, \<open>benchmark_runner.c\<close>, \<open>company_simulation.c\<close>, \<open>mcp_http_selftest.c\<close> and \<open>tests/\<close>
    are programs that test the others.
  Everywhere: what is printed for the operator and colours of it (unless a theory says otherwise),
  freeing of memory, the capacity of arrays that grow, failures of the allocator outside \<open>DynString\<close>,
  signals, and the clock except where a component reads it.
\<close>

section \<open>The classifier and the tool read the arguments differently\<close>

definition spaced :: "nat \<Rightarrow> cstr" where
  "spaced n = ''ls'' @ replicate n (CHR '' '')"

definition bash_args :: "cstr \<Rightarrow> JsonValue" where
  "bash_args cmd = JSON_OBJECT [(''command'', JSON_STRING cmd)]"

definition decoy_args :: "cstr \<Rightarrow> JsonValue" where
  "decoy_args cmd = JSON_OBJECT [(''note'', JSON_STRING ''command''), (''dir'', JSON_STRING ''ls''),
     (''command'', JSON_STRING cmd)]"

definition other_char :: "char \<Rightarrow> bool" where
  "other_char c \<longleftrightarrow> tolower c \<notin> {CHR ''l'', CHR ''s'', CHR '' ''}"

lemma has_prefix_ci_chars: "has_prefix_ci p s \<Longrightarrow> x \<in> set p \<Longrightarrow> \<exists>y \<in> set s. tolower y = tolower x"
  by (induction p s rule: has_prefix_ci.induct) auto

lemma spaced_lacks:
  assumes "list_ex other_char p"
  shows "\<not> str_contains_ci (spaced n) p"
proof
  assume "str_contains_ci (spaced n) p"
  then obtain u v where v: "spaced n = u @ v" "has_prefix_ci p v"
    by (auto simp: str_contains_ci_def ci_scan_iff)
  obtain x where x: "x \<in> set p" "other_char x" using assms by (auto simp: list_ex_iff)
  from has_prefix_ci_chars[OF v(2) x(1)] obtain y where y: "y \<in> set v" "tolower y = tolower x" by blast
  then have "y \<in> set (spaced n)" by (simp add: v(1))
  then have "y \<in> {CHR ''l'', CHR ''s'', CHR '' ''}" by (auto simp: spaced_def)
  moreover have "tolower (CHR ''l'') = CHR ''l''" "tolower (CHR ''s'') = CHR ''s''"
    "tolower (CHR '' '') = CHR '' ''" by code_simp+
  ultimately have "tolower y \<in> {CHR ''l'', CHR ''s'', CHR '' ''}" by auto
  with x(2) y(2) show False by (simp add: other_char_def)
qed

lemma spaced_tokens: "strtok_all [CHR '' '', TAB] (spaced n) = [''ls'']"
  by (simp add: spaced_def strtok_all.simps strtok_def takeWhile_replicate dropWhile_replicate)

definition denial_patterns :: "cstr list" where
  "denial_patterns = [''mkfs'', ''dd if='', ''> /dev/sd'', '':(){'', ''chmod -r 777 /'', ''chown -r'',
     ''curl'', ''wget'', ''git push --force'', ''git push -f'', ''-exec rm'', ''xargs rm'', ''xargs -0 rm'',
     ''> /etc/'', ''>> /etc/'', ''> /usr/'', ''make -f /dev/'', ''make -f /etc/'', ''make -C / '', ''-o /etc/'']"

lemma patterns_other: "list_all (list_ex other_char) denial_patterns"
  by code_simp

lemma classify_spaced:
  assumes "n \<le> 4093" and "permission_arg_string args ''command'' PERM_CMD_MAX = Some (spaced n)"
  shows "permission_classify (Some ''bash'') args = PERM_TIER_ALLOW"
proof -
  have t: "take (PERM_CMD_MAX - 1) (spaced n) = spaced n"
    using assms(1) by (simp add: spaced_def PERM_CMD_MAX_def)
  have l: "p \<in> set denial_patterns \<Longrightarrow> \<not> str_contains_ci (spaced n) p" for p
    using patterns_other spaced_lacks unfolding list_all_iff by blast
  have d: "\<not> command_is_destructive (spaced n)"
    unfolding command_is_destructive_def by (simp add: l denial_patterns_def) (simp add: spaced_def)?
  have m: "map sep_to_space (spaced n) = spaced n"
    by (simp add: spaced_def sep_to_space_def)
  have "vector_scan [''ls''] False False = Some (False, False)" by code_simp
  then have v: "\<not> command_has_denied_vector (spaced n)"
    unfolding command_has_denied_vector_def vector_tokens_def t m spaced_tokens by (simp add: l denial_patterns_def)
  have w: "dropWhile isspace (spaced n) = spaced n" by (simp add: spaced_def isspace_def byte_def)
  have s: "\<not> list_ex (\<lambda>c. c \<in> set shell_meta) (spaced n)"
    by (auto simp: spaced_def shell_meta_def list_ex_iff)
  have k: "''ls'' \<in> set k_safe_argv0" by (simp add: k_safe_argv0_def)
  have "length (spaced n) < PERM_CMD_MAX" "spaced n \<noteq> []"
    using assms(1) by (simp_all add: spaced_def PERM_CMD_MAX_def)
  then have "permission_is_safe_command (spaced n)"
    unfolding permission_is_safe_command_def w Let_def t spaced_tokens using s k by simp
  with assms(2) d v show ?thesis by (simp add: classify_bash)
qed

lemma quoted_text: "concat (quoted_pieces s) = escape s"
  by (simp add: quoted_pieces_def escape_def)

lemma bash_args_text:
  "json_text (bash_args cmd) = ''{'' @ (DQ # ''command'' @ [DQ]) @ '':'' @ [DQ] @ escape cmd @ [DQ] @ ''}''"
proof -
  have "escape ''command'' = ''command''" by code_simp
  then show ?thesis by (simp add: json_text_def bash_args_def quoted_text)
qed

lemma decoy_args_text:
  "json_text (decoy_args cmd) = ''{'' @ [DQ] @ ''note'' @ [DQ] @ '':'' @ (DQ # ''command'' @ [DQ]) @ '','' @
     [DQ] @ ''dir'' @ [DQ] @ '':'' @ [DQ] @ ''ls'' @ [DQ] @ '','' @ [DQ] @ ''command'' @ [DQ] @ '':'' @ [DQ] @ escape cmd @ [DQ] @ ''}''"
proof -
  have "escape ''command'' = ''command''" "escape ''note'' = ''note''" "escape ''dir'' = ''dir''"
    "escape ''ls'' = ''ls''" by code_simp+
  then show ?thesis by (simp add: json_text_def decoy_args_def quoted_text)
qed

lemma parsed_command:
  assumes "json_ok v" and "jdepth v \<le> JSON_MAX_DEPTH"
  shows "json_parse (Some (json_text v)) = Some v"
  using parse_json_text[OF assms(1), of 0 "[]"] assms(2) by (simp add: json_parse_def)

lemma escape_spaced: "escape (spaced n @ t) = spaced n @ escape t"
proof -
  have "escape_char (CHR ''l'') = ''l''" "escape_char (CHR ''s'') = ''s''" "escape_char (CHR '' '') = '' ''"
    by code_simp+
  moreover from this(3) have "concat (map escape_char (replicate n (CHR '' ''))) = replicate n (CHR '' '')"
    by (induction n) simp_all
  ultimately show ?thesis by (simp add: escape_def spaced_def)
qed

lemma arg_copy_quote [simp]: "arg_copy n (DQ # s) = []"
  by (cases n) simp_all

section \<open>Properties\<close>

text \<open>C3: A command the classifier never saw: in a JSON object where an earlier VALUE is the word
  \<open>command\<close>, the classifier takes the next string after it for the command and allows the call,
  while the tool runs the real command, which can be anything at all.\<close>

theorem decoy_hides_command:
  assumes "nul_free cmd"
  shows "permission_classify (Some ''bash'') (Some (json_text (decoy_args cmd))) = PERM_TIER_ALLOW \<and>
    json_obj_get_str (json_parse (Some (json_text (decoy_args cmd)))) ''command'' = Some cmd"
proof -
  have "permission_arg_string (Some (json_text (decoy_args cmd))) ''command'' PERM_CMD_MAX = Some (spaced 0)"
    unfolding decoy_args_text
    by (simp add: permission_arg_string_def PERM_CMD_MAX_def strstr.simps isspace_def byte_def
        arg_copy_Cons_plain spaced_def)
  then have "permission_classify (Some ''bash'') (Some (json_text (decoy_args cmd))) = PERM_TIER_ALLOW"
    by (rule classify_spaced[rotated]) simp
  moreover have "json_parse (Some (json_text (decoy_args cmd))) = Some (decoy_args cmd)"
    by (rule parsed_command) (use assms in \<open>simp_all add: decoy_args_def JSON_MAX_DEPTH_def\<close>)
  ultimately show ?thesis
    by (simp add: json_obj_get_str_def json_obj_get_def decoy_args_def)
qed

theorem decoy_hides_command_witness:
  "permission_classify (Some ''bash'') (Some (json_text (decoy_args ''rm -rf /''))) = PERM_TIER_ALLOW \<and>
   json_obj_get_str (json_parse (Some (json_text (decoy_args ''rm -rf /'')))) ''command'' = Some ''rm -rf /''"
  by (rule decoy_hides_command) simp

text \<open>The classifier judges only the first 4095 bytes of a command: \<open>ls\<close> and 4093 spaces in
  front of any command at all make the call allowed, while the tool runs the whole of it.\<close>

theorem long_command_hides_tail:
  assumes "nul_free tail_cmd"
  shows "permission_classify (Some ''bash'') (Some (json_text (bash_args (spaced 4093 @ tail_cmd)))) = PERM_TIER_ALLOW \<and>
    json_obj_get_str (json_parse (Some (json_text (bash_args (spaced 4093 @ tail_cmd))))) ''command''
      = Some (spaced 4093 @ tail_cmd)"
proof -
  define r where "r = (4093 :: nat)"
  have plain: "\<forall>c \<in> set (spaced r). c \<noteq> DQ \<and> c \<noteq> BSL" by (auto simp: spaced_def)
  have l: "length (spaced r) = 4095" by (simp add: spaced_def r_def)
  have c: "arg_copy 4095 (spaced r @ t) = spaced r" for t
    using arg_copy_plain[OF plain, of 4095 t] l by simp
  have "permission_arg_string (Some (json_text (bash_args (spaced r @ tail_cmd)))) ''command'' PERM_CMD_MAX = Some (spaced r)"
    unfolding bash_args_text escape_spaced
    by (simp add: permission_arg_string_def PERM_CMD_MAX_def strstr.simps isspace_def byte_def c)
  then have "permission_classify (Some ''bash'') (Some (json_text (bash_args (spaced r @ tail_cmd)))) = PERM_TIER_ALLOW"
    by (rule classify_spaced[rotated]) (simp add: r_def)
  moreover have "nul_free (spaced r)" by (auto simp: spaced_def nul_free_def)
  then have "json_parse (Some (json_text (bash_args (spaced r @ tail_cmd)))) = Some (bash_args (spaced r @ tail_cmd))"
    by (intro parsed_command) (use assms in \<open>simp_all add: bash_args_def JSON_MAX_DEPTH_def\<close>)
  ultimately show ?thesis unfolding r_def
    by (simp add: json_obj_get_str_def json_obj_get_def bash_args_def)
qed

theorem long_command_hides_tail_witness:
  "permission_classify (Some ''bash'') (Some (json_text (bash_args (spaced 4093 @ ''; rm -rf /'')))) = PERM_TIER_ALLOW \<and>
   json_obj_get_str (json_parse (Some (json_text (bash_args (spaced 4093 @ ''; rm -rf /''))))) ''command''
     = Some (spaced 4093 @ ''; rm -rf /'')"
  by (rule long_command_hides_tail) simp

end
